(* ===== verification/Prelude.thy ===== *)
theory Prelude
  imports Main "HOL-Library.Word" "HOL-Library.Monad_Syntax"
begin

text \<open>
  Shared material of the library: the machine types of the SDK's C code, byte buffers with
  checked accesses, the little-endian layout of 32-bit fields, and the generic lemmas on lists
  and words that the components use.

  Conventions used in every theory.
  \<^item> \<open>UINT8\<close>, \<open>UINT16\<close>, \<open>UINT32\<close> and \<open>UINT64\<close> are \<open>8 word\<close>, \<open>16 word\<close>, \<open>32 word\<close> and
    \<open>64 word\<close>: addition, subtraction and multiplication wrap as they do in C.
  \<^item> A loop counter that is bounded by a small constant, and a length that is only counted
    down to zero, is a \<open>nat\<close>.
  \<^item> An operation that C leaves undefined (an access outside a buffer or a table, a dereference
    of \<open>NULL\<close>) or that never returns (a failed \<open>ASSERT\<close>, which loops forever in the builds
    with \<open>CFG_RELEASE_FIRMWARE = 0\<close>) has the result \<open>None\<close>.
  \<^item> \<open>GLOBAL_INT_DISABLE\<close> and \<open>GLOBAL_INT_RESTORE\<close> bracket sections that run without an
    interrupt; they do not change the modelled state.
\<close>

unbundle bit_operations_syntax

type_synonym u8 = "8 word"
type_synonym u16 = "16 word"
type_synonym u32 = "32 word"
type_synonym u64 = "64 word"
type_synonym byte = "8 word"

text \<open>The chips of the SDK, \<open>CFG_SOC_NAME\<close>.\<close>

datatype soc = SOC_BK7231 | SOC_BK7231U | SOC_BK7221U | SOC_BK7271 | SOC_BK7231N | SOC_BK7236
  | SOC_BK7238 | SOC_BK7252N

named_theorems buf_simps \<open>checked buffer accesses\<close>
named_theorems wordu \<open>unsigned readings of word arithmetic without overflow\<close>

section \<open>Byte buffers\<close>

definition buf_get :: "'a list \<Rightarrow> nat \<Rightarrow> nat \<Rightarrow> 'a list option" where
  "buf_get buf off n = (if off + n \<le> length buf then Some (take n (drop off buf)) else None)"

definition buf_put :: "'a list \<Rightarrow> nat \<Rightarrow> 'a list \<Rightarrow> 'a list option" where
  "buf_put buf off src =
     (if off + length src \<le> length buf
      then Some (take off buf @ src @ drop (off + length src) buf) else None)"

definition mem_slice :: "(nat \<Rightarrow> 'a) \<Rightarrow> nat \<Rightarrow> nat \<Rightarrow> 'a list" where
  "mem_slice m a n = map m [a..<a + n]"

section \<open>Little-endian fields\<close>

definition bytes32 :: "u32 \<Rightarrow> byte list" where
  "bytes32 w = [ucast w, ucast (drop_bit 8 w), ucast (drop_bit 16 w), ucast (drop_bit 24 w)]"

definition le32 :: "byte list \<Rightarrow> u32" where
  "le32 bs = (case bs of
     a # b # c # d # _ \<Rightarrow>
       ucast a OR push_bit 8 (ucast b) OR push_bit 16 (ucast c) OR push_bit 24 (ucast d)
   | _ \<Rightarrow> 0)"

fun words_of_bytes :: "nat \<Rightarrow> byte list \<Rightarrow> u32 list" where
  "words_of_bytes 0 bs = []"
| "words_of_bytes (Suc n) bs = le32 (take 4 bs) # words_of_bytes n (drop 4 bs)"

definition bytes_of_words :: "u32 list \<Rightarrow> byte list" where
  "bytes_of_words ws = concat (map bytes32 ws)"

section \<open>Lemmas on buffers\<close>

lemma buf_get_Some [buf_simps]:
  "off + n \<le> length buf \<Longrightarrow> buf_get buf off n = Some (take n (drop off buf))"
  by (simp add: buf_get_def)

lemma buf_put_Some [buf_simps]:
  "off + length src \<le> length buf \<Longrightarrow>
   buf_put buf off src = Some (take off buf @ src @ drop (off + length src) buf)"
  by (simp add: buf_put_def)

lemma length_buf_put: "buf_put buf off src = Some buf' \<Longrightarrow> length buf' = length buf"
  by (auto simp: buf_put_def split: if_splits)

lemma length_mem_slice [simp]: "length (mem_slice m a n) = n"
  by (simp add: mem_slice_def)

lemma nth_mem_slice [simp]: "i < n \<Longrightarrow> mem_slice m a n ! i = m (a + i)"
  by (simp add: mem_slice_def)

lemma mem_slice_0 [simp]: "mem_slice m a 0 = []"
  by (simp add: mem_slice_def)

lemma mem_slice_append: "mem_slice m a (n + k) = mem_slice m a n @ mem_slice m (a + n) k"
  by (rule nth_equalityI) (auto simp: nth_append)

lemma mem_slice_cong: "(\<And>i. i < n \<Longrightarrow> m (a + i) = m' (b + i)) \<Longrightarrow> mem_slice m a n = mem_slice m' b n"
  by (rule nth_equalityI) auto

lemma take_mem_slice [simp]: "take k (mem_slice m a n) = mem_slice m a (min k n)"
  by (rule nth_equalityI) auto

lemma drop_mem_slice [simp]: "drop k (mem_slice m a n) = mem_slice m (a + k) (n - k)"
  by (rule nth_equalityI) (auto simp: algebra_simps)

section \<open>Lemmas on words\<close>

lemma unat_lt_len: "unat (w :: 'a::len word) < 2 ^ LENGTH('a)"
  by (rule unsigned_less)

lemma unat_u32: "unat (w :: u32) < 4294967296"
  using unat_lt_len [of w] by simp

lemma unat_add_no_wrap [wordu]:
  fixes a b :: "'a::len word"
  assumes "unat a + unat b < 2 ^ LENGTH('a)"
  shows "unat (a + b) = unat a + unat b"
  using assms by (simp add: unat_word_ariths)

lemma unat_sub_no_wrap [wordu]:
  fixes a b :: "'a::len word"
  assumes "unat b \<le> unat a"
  shows "unat (a - b) = unat a - unat b"
  using assms by (simp add: unat_sub word_le_nat_alt)

lemma unat_of_nat_small [wordu]:
  assumes "n < 2 ^ LENGTH('a)"
  shows "unat (of_nat n :: 'a::len word) = n"
  using assms by (simp add: unat_of_nat)

lemma bytes32_length [simp]: "length (bytes32 w) = 4"
  by (simp add: bytes32_def)

lemma le32_bytes32 [simp]: "le32 (bytes32 w @ rest) = w"
proof (rule bit_word_eqI)
  fix n assume "n < LENGTH(32)"
  then consider "n < 8" | "8 \<le> n" "n < 16" | "16 \<le> n" "n < 24" | "24 \<le> n" "n < 32"
    by fastforce
  then show "bit (le32 (bytes32 w @ rest)) n = bit w n"
    by cases (auto simp: le32_def bytes32_def bit_simps)
qed

lemma le32_bytes32_exact [simp]: "le32 (bytes32 w) = w"
  using le32_bytes32 [of w "[]"] by simp

lemma byte_no_high_bit: "8 \<le> n \<Longrightarrow> \<not> bit (b :: byte) n"
  using bit_imp_le_length [of b n] by auto

lemma bytes32_le32:
  assumes "length bs = 4"
  shows "bytes32 (le32 bs) = bs"
proof -
  obtain a b c d where bs: "bs = [a, b, c, d]"
    using assms by (auto simp: numeral_eq_Suc length_Suc_conv)
  show ?thesis
    unfolding bs le32_def bytes32_def
    by (auto intro!: bit_word_eqI simp: bit_simps byte_no_high_bit)
qed

lemma length_words_of_bytes [simp]: "length (words_of_bytes n bs) = n"
  by (induction n arbitrary: bs) auto

lemma bytes_of_words_of_bytes:
  "length bs = 4 * n \<Longrightarrow> bytes_of_words (words_of_bytes n bs) = bs"
proof (induction n arbitrary: bs)
  case 0
  then show ?case by (simp add: bytes_of_words_def)
next
  case (Suc n)
  then have "bytes_of_words (words_of_bytes n (drop 4 bs)) = drop 4 bs" by simp
  then show ?case
    using Suc.prems by (simp add: bytes_of_words_def bytes32_le32)
qed

text \<open>A 32-bit word composed of a 16-bit low part and a high part splits again.\<close>

lemma high_mask_bits:
  fixes w m :: "u32"
  assumes "unat w < 65536" and m: "take_bit 16 m = 0"
  shows "(w + m) AND 0xFFFF = w" "(w + m) AND 0xFFFF0000 = m"
proof -
  have hi: "\<not> bit w n" if "16 \<le> n" for n
  proof -
    have "take_bit 16 w = w"
      using assms by (simp add: word_unat_eq_iff unsigned_take_bit_eq take_bit_eq_mod unat_mod)
    then show ?thesis using that by (metis bit_take_bit_iff not_le)
  qed
  have lo: "\<not> bit m n" if "n < 16" for n
    using m that by (metis bit_0_eq bit_take_bit_iff bot_apply bot_bool_def)
  have ma: "(0xFFFF0000 :: u32) = NOT (mask 16)" "(0xFFFF::u32) = mask 16"
    by (simp_all add: mask_eq_exp_minus_1)
  have "w AND m = 0"
    by (rule bit_word_eqI) (metis bit_and_iff bit_0_eq bot_apply bot_bool_def hi lo not_le)
  then have add: "w + m = w OR m" by (rule disjunctive_add_eq_or)
  show "(w + m) AND 0xFFFF = w"
    unfolding add ma by (rule bit_word_eqI) (use hi lo in \<open>auto simp: bit_and_iff bit_or_iff bit_mask_iff not_le [symmetric]\<close>)
  show "(w + m) AND 0xFFFF0000 = m"
    unfolding add ma by (rule bit_word_eqI) (use hi lo in \<open>auto simp: bit_and_iff bit_or_iff bit_not_iff bit_mask_iff not_le [symmetric]\<close>)
qed

text \<open>Alignment to 32 bytes, as the driver code writes it.\<close>

lemma and_not_add_and: "(a AND NOT m) + (a AND m) = (a :: 'a::len word)"
proof -
  have "(a AND NOT m) AND (a AND m) = 0" by (rule bit_word_eqI) (simp add: bit_and_iff bit_not_iff)
  then have "(a AND NOT m) + (a AND m) = (a AND NOT m) OR (a AND m)" by (rule disjunctive_add_eq_or)
  also have "\<dots> = a" by (rule bit_word_eqI) (auto simp: bit_and_iff bit_or_iff bit_not_iff)
  finally show ?thesis .
qed

lemma align32: "(a :: u32) AND NOT 0x1F = a - a mod 32"
proof -
  have m: "(0x1F :: u32) = mask 5" by (simp add: mask_eq_exp_minus_1)
  have "a AND 0x1F = a mod 32" unfolding m take_bit_eq_mask [symmetric] by (simp add: take_bit_eq_mod)
  then show ?thesis using and_not_add_and [of a "0x1F"] by (metis add_diff_cancel_right')
qed

lemma mod32_eq_0: "(a :: u32) mod 32 = 0 \<longleftrightarrow> unat a mod 32 = 0"
  by (simp add: word_unat_eq_iff unat_mod)

lemma unat_align32: "unat ((a :: u32) AND NOT 0x1F) = unat a - unat a mod 32"
  unfolding align32 by (subst unat_sub_no_wrap) (simp_all add: unat_mod)

lemma and_FF [simp]: "0xFF AND b = (b :: byte)" "b AND 0xFF = (b :: byte)"
proof -
  have m: "(0xFF :: byte) = - 1" by simp
  show "0xFF AND b = b" "b AND 0xFF = b" unfolding m by simp_all
qed

end
