(* ===== verification/Ring_Buffer.thy ===== *)
theory Ring_Buffer
  imports Prelude
begin

text \<open>
  The byte ring buffer of the audio driver, \<open>driver/audio/ring_buffer.c\<close>.

  The state is the C structure \<open>RB_ST\<close>; the memory region that \<open>address\<close> points to is the list
  of its bytes. The destination buffer of \<open>rb_read\<close> is the list of bytes copied into it, the
  source buffer of \<open>rb_write\<close> is a list whose length is the memory that may be read. Every
  \<open>memcpy\<close> is a checked access: a copy outside one of the two regions gives \<open>None\<close>.

  The contract of a byte queue is the locale \<open>byte_fifo\<close>; the ring buffer is shown to implement
  it and inherits the stream property: whatever the interleaving of reads and writes, the bytes
  read are a prefix of the bytes accepted, in order.
\<close>

section \<open>State and operations\<close>

record RB_ST =
  address :: "byte list"
  capacity :: u32
  wp :: u32
  rp :: u32

definition RWP_SAFE_INTERVAL :: u32 where
  "RWP_SAFE_INTERVAL = 4"

definition rb_init :: "RB_ST \<Rightarrow> byte list \<Rightarrow> u32 \<Rightarrow> RB_ST" where
  "rb_init rb addr cap = rb\<lparr>address := addr, capacity := cap, wp := 0, rp := 0\<rparr>"

definition rb_clear :: "RB_ST \<Rightarrow> RB_ST" where
  "rb_clear rb = rb\<lparr>wp := 0, rp := 0\<rparr>"

definition rb_read :: "RB_ST \<Rightarrow> u32 \<Rightarrow> u32 \<Rightarrow> (u32 \<times> byte list \<times> RB_ST) option" where
  "rb_read rb sz count =
     (let required_bytes = sz * count; w = wp rb in
      if required_bytes = 0 then Some (0, [], rb)
      else if w \<ge> rp rb then
        (let remain_bytes = w - rp rb in
         if required_bytes > remain_bytes then
           (let read_bytes = remain_bytes in do {
              buffer \<leftarrow> buf_get (address rb) (unat (rp rb)) (unat read_bytes);
              Some (read_bytes, buffer, rb\<lparr>rp := rp rb + read_bytes\<rparr>) })
         else
           (let read_bytes = required_bytes in do {
              buffer \<leftarrow> buf_get (address rb) (unat (rp rb)) (unat read_bytes);
              Some (read_bytes, buffer, rb\<lparr>rp := rp rb + read_bytes\<rparr>) }))
      else
        (let remain_bytes = capacity rb - rp rb in
         if required_bytes > remain_bytes then
           (let read_bytes = remain_bytes in do {
              buffer \<leftarrow> buf_get (address rb) (unat (rp rb)) (unat read_bytes);
              if required_bytes - read_bytes > w then do {
                buffer2 \<leftarrow> buf_get (address rb) 0 (unat w);
                Some (read_bytes + w, buffer @ buffer2, rb\<lparr>rp := w\<rparr>) }
              else do {
                buffer2 \<leftarrow> buf_get (address rb) 0 (unat (required_bytes - read_bytes));
                Some (required_bytes, buffer @ buffer2, rb\<lparr>rp := required_bytes - read_bytes\<rparr>) } })
         else
           (let read_bytes = required_bytes in do {
              buffer \<leftarrow> buf_get (address rb) (unat (rp rb)) (unat read_bytes);
              Some (read_bytes, buffer, rb\<lparr>rp := rp rb + read_bytes\<rparr>) })))"

definition rb_write :: "RB_ST \<Rightarrow> byte list \<Rightarrow> u32 \<Rightarrow> u32 \<Rightarrow> (u32 \<times> RB_ST) option" where
  "rb_write rb buffer sz count =
     (let write_bytes = sz * count;
          wrap = (\<lambda>rb :: RB_ST. if wp rb \<ge> capacity rb \<and> rp rb \<noteq> 0 then rb\<lparr>wp := 0\<rparr> else rb) in
      if write_bytes = 0 then Some (0, rb)
      else (let r = rp rb in
        if wp rb \<ge> r then
          (let remain_bytes = capacity rb - wp rb + r in
           if remain_bytes \<ge> write_bytes + RWP_SAFE_INTERVAL then
             (let remain_bytes = capacity rb - wp rb in
              if remain_bytes \<ge> write_bytes then do {
                src \<leftarrow> buf_get buffer 0 (unat write_bytes);
                mem \<leftarrow> buf_put (address rb) (unat (wp rb)) src;
                Some (write_bytes, wrap (rb\<lparr>address := mem, wp := wp rb + write_bytes\<rparr>)) }
              else do {
                src \<leftarrow> buf_get buffer 0 (unat remain_bytes);
                mem \<leftarrow> buf_put (address rb) (unat (wp rb)) src;
                rb1 \<leftarrow> Some (rb\<lparr>address := mem, wp := write_bytes - remain_bytes\<rparr>);
                src2 \<leftarrow> buf_get buffer (unat remain_bytes) (unat (wp rb1));
                mem2 \<leftarrow> buf_put (address rb1) 0 src2;
                Some (write_bytes, wrap (rb1\<lparr>address := mem2\<rparr>)) })
           else Some (0, rb))
        else
          (let remain_bytes = r - wp rb in
           if remain_bytes \<ge> write_bytes + RWP_SAFE_INTERVAL then do {
             src \<leftarrow> buf_get buffer 0 (unat write_bytes);
             mem \<leftarrow> buf_put (address rb) (unat (wp rb)) src;
             Some (write_bytes, wrap (rb\<lparr>address := mem, wp := wp rb + write_bytes\<rparr>)) }
           else Some (0, rb))))"

definition rb_get_fill_size :: "RB_ST \<Rightarrow> u32" where
  "rb_get_fill_size rb =
     (if wp rb \<ge> rp rb then wp rb - rp rb else capacity rb - rp rb + wp rb)"

definition rb_get_free_size :: "RB_ST \<Rightarrow> u32" where
  "rb_get_free_size rb =
     (let free_size = (if wp rb \<ge> rp rb then capacity rb - wp rb + rp rb else rp rb - wp rb) in
      if free_size > RWP_SAFE_INTERVAL then free_size - RWP_SAFE_INTERVAL else 0)"

section \<open>Invariant and contents\<close>

definition rb_inv :: "RB_ST \<Rightarrow> bool" where
  "rb_inv rb \<longleftrightarrow> length (address rb) = unat (capacity rb)
     \<and> wp rb \<le> capacity rb \<and> rp rb \<le> capacity rb"

definition rb_contents :: "RB_ST \<Rightarrow> byte list" where
  "rb_contents rb =
     (if wp rb \<ge> rp rb then take (unat (wp rb) - unat (rp rb)) (drop (unat (rp rb)) (address rb))
      else drop (unat (rp rb)) (address rb) @ take (unat (wp rb)) (address rb))"

text \<open>The same contents over natural numbers, as the list lemmas use them.\<close>

definition ring :: "'a list \<Rightarrow> nat \<Rightarrow> nat \<Rightarrow> 'a list" where
  "ring m w r = (if r \<le> w then take (w - r) (drop r m) else drop r m @ take w m)"

lemma rb_contents_ring: "rb_contents rb = ring (address rb) (unat (wp rb)) (unat (rp rb))"
  by (simp add: rb_contents_def ring_def word_le_nat_alt)

lemma length_ring:
  "w \<le> length m \<Longrightarrow> r \<le> length m \<Longrightarrow>
   length (ring m w r) = (if r \<le> w then w - r else length m - r + w)"
  by (auto simp: ring_def)

lemma ring_advance_low:
  "r \<le> w \<Longrightarrow> k \<le> w - r \<Longrightarrow> w \<le> length m \<Longrightarrow>
   ring m w (r + k) = drop k (ring m w r) \<and> take k (ring m w r) = take k (drop r m)"
  by (auto simp: ring_def drop_take min_def add.commute)

lemma ring_advance_high:
  "w < r \<Longrightarrow> k \<le> length m - r \<Longrightarrow> r \<le> length m \<Longrightarrow>
   ring m w (r + k) = drop k (ring m w r) \<and> take k (ring m w r) = take k (drop r m)"
  by (auto simp: ring_def add.commute)

lemma ring_advance_wrap:
  "w < r \<Longrightarrow> k \<le> w \<Longrightarrow> r \<le> length m \<Longrightarrow> w \<le> length m \<Longrightarrow>
   ring m w k = drop (length m - r + k) (ring m w r) \<and>
   take (length m - r + k) (ring m w r) = drop r m @ take k m"
  by (auto simp: ring_def drop_take)

lemma ring_put_low:
  assumes "r \<le> w" "w + length src \<le> length m"
  shows "ring (take w m @ src @ drop (w + length src) m) (w + length src) r = ring m w r @ src"
  using assms by (auto simp: ring_def drop_take)

lemma ring_put_high:
  assumes "w + length src < r" "r \<le> length m"
  shows "ring (take w m @ src @ drop (w + length src) m) (w + length src) r = ring m w r @ src"
  using assms by (auto simp: ring_def)

lemma ring_wp_zero: "r \<noteq> 0 \<Longrightarrow> r \<le> length m \<Longrightarrow> ring m 0 r = ring m (length m) r"
  by (auto simp: ring_def)

lemma ring_put_wrap:
  assumes "r \<le> w" "w + length s1 = length m" "length s2 < r"
  shows "ring (s2 @ drop (length s2) (take w m @ s1)) (length s2) r = ring m w r @ s1 @ s2"
  using assms by (auto simp: ring_def drop_take)

section \<open>Behaviour of the operations\<close>

lemmas rb_word = word_le_nat_alt word_less_nat_alt unat_sub_no_wrap

lemma rb_invD:
  assumes "rb_inv rb"
  shows "length (address rb) = unat (capacity rb)"
    and "unat (wp rb) \<le> unat (capacity rb)" and "unat (rp rb) \<le> unat (capacity rb)"
  using assms by (auto simp: rb_inv_def word_le_nat_alt)

lemma length_rb_contents:
  assumes "rb_inv rb"
  shows "length (rb_contents rb) =
    (if unat (rp rb) \<le> unat (wp rb) then unat (wp rb) - unat (rp rb)
     else unat (capacity rb) - unat (rp rb) + unat (wp rb))"
  using rb_invD [OF assms] by (simp add: rb_contents_ring length_ring)

lemma rb_read_low:
  assumes inv: "rb_inv rb" and le: "rp rb \<le> wp rb" and n: "sz * count \<noteq> 0"
  defines "k \<equiv> min (unat (sz * count)) (length (rb_contents rb))"
  shows "\<exists>rb'. rb_read rb sz count = Some (of_nat k, take k (rb_contents rb), rb')
    \<and> rb_inv rb' \<and> rb_contents rb' = drop k (rb_contents rb) \<and> capacity rb' = capacity rb"
proof -
  let ?m = "address rb" and ?w = "unat (wp rb)" and ?r = "unat (rp rb)"
  note I = rb_invD [OF inv]
  have le': "?r \<le> ?w" using le by (simp add: word_le_nat_alt)
  have len: "length (rb_contents rb) = ?w - ?r"
    using length_rb_contents [OF inv] le' by simp
  let ?q = "of_nat k :: u32"
  have kle: "k \<le> ?w - ?r" by (simp add: k_def len)
  have kq: "unat ?q = k"
    using kle unat_u32 [of "wp rb"] by (intro unat_of_nat_small) simp
  have rd: "rb_read rb sz count =
      do { buffer \<leftarrow> buf_get ?m ?r (unat ?q); Some (?q, buffer, rb\<lparr>rp := rp rb + ?q\<rparr>) }"
    using n le le' kq len
    by (auto simp: rb_read_def Let_def k_def min_def rb_word unat_sub_no_wrap
        intro!: word_unat_eq_iff [THEN iffD2])
  have rp': "unat (rp rb + ?q) = ?r + k"
    using kle kq le' unat_u32 [of "wp rb"] by (subst unat_add_no_wrap) auto
  have adv: "ring ?m ?w (?r + k) = drop k (ring ?m ?w ?r) \<and> take k (ring ?m ?w ?r) = take k (drop ?r ?m)"
    using le' kle I by (intro ring_advance_low) auto
  show ?thesis
    using rd kq kle le' I adv
    by (auto simp: buf_simps rb_inv_def rb_contents_ring rp' word_le_nat_alt)
qed

lemma rb_read_high_within:
  assumes inv: "rb_inv rb" and lt: "wp rb < rp rb" and n: "sz * count \<noteq> 0"
    and fits: "sz * count \<le> capacity rb - rp rb"
  defines "k \<equiv> unat (sz * count)"
  shows "\<exists>rb'. rb_read rb sz count = Some (of_nat k, take k (rb_contents rb), rb')
    \<and> rb_inv rb' \<and> rb_contents rb' = drop k (rb_contents rb) \<and> capacity rb' = capacity rb"
proof -
  let ?m = "address rb" and ?w = "unat (wp rb)" and ?r = "unat (rp rb)" and ?c = "unat (capacity rb)"
  note I = rb_invD [OF inv]
  have lt': "?w < ?r" using lt by (simp add: word_less_nat_alt)
  have kle: "k \<le> ?c - ?r" using fits I by (simp add: k_def rb_word)
  have rp': "unat (rp rb + sz * count) = ?r + k"
    using kle I unat_u32 [of "capacity rb"] by (subst unat_add_no_wrap) (auto simp: k_def)
  have adv: "ring ?m ?w (?r + k) = drop k (ring ?m ?w ?r) \<and> take k (ring ?m ?w ?r) = take k (drop ?r ?m)"
    using lt' kle I by (intro ring_advance_high) auto
  have rd: "rb_read rb sz count =
      do { buffer \<leftarrow> buf_get ?m ?r k; Some (sz * count, buffer, rb\<lparr>rp := rp rb + sz * count\<rparr>) }"
    using n lt fits by (auto simp: rb_read_def Let_def k_def)
  show ?thesis
    using rd kle I adv
    by (auto simp: buf_simps rb_inv_def rb_contents_ring rp' word_le_nat_alt k_def)
qed

lemma rb_read_high_wrap:
  assumes inv: "rb_inv rb" and lt: "wp rb < rp rb" and n: "sz * count \<noteq> 0"
    and over: "capacity rb - rp rb < sz * count"
  defines "k \<equiv> min (unat (sz * count)) (length (rb_contents rb))"
  shows "\<exists>rb'. rb_read rb sz count = Some (of_nat k, take k (rb_contents rb), rb')
    \<and> rb_inv rb' \<and> rb_contents rb' = drop k (rb_contents rb) \<and> capacity rb' = capacity rb"
proof -
  let ?m = "address rb" and ?w = "unat (wp rb)" and ?r = "unat (rp rb)" and ?c = "unat (capacity rb)"
  let ?first = "capacity rb - rp rb" and ?n = "unat (sz * count)"
  note I = rb_invD [OF inv]
  have lt': "?w < ?r" using lt by (simp add: word_less_nat_alt)
  have first: "unat ?first = ?c - ?r" using I by (simp add: unat_sub_no_wrap)
  have over': "?c - ?r < ?n" using over first by (simp add: word_less_nat_alt)
  have len: "length (rb_contents rb) = ?c - ?r + ?w"
    using length_rb_contents [OF inv] lt' by simp
  define q where "q = (if sz * count - ?first > wp rb then wp rb else sz * count - ?first)"
  have rest: "unat (sz * count - ?first) = ?n - (?c - ?r)"
    using over' first by (simp add: unat_sub_no_wrap)
  have q: "unat q = min (?n - (?c - ?r)) ?w"
    by (auto simp: q_def rest word_less_nat_alt min_def)
  have k: "k = ?c - ?r + unat q" using over' by (auto simp: k_def len q)
  have "k = unat ?first + unat q" using k first by simp
  then have kq: "of_nat k = ?first + q" by (simp only: of_nat_add of_nat_unat ucast_id)
  have adv: "ring ?m ?w (unat q) = drop (?c - ?r + unat q) (ring ?m ?w ?r)
      \<and> take (?c - ?r + unat q) (ring ?m ?w ?r) = drop ?r ?m @ take (unat q) ?m"
    using ring_advance_wrap [of ?w ?r "unat q" ?m] lt' I q by auto
  have rd: "rb_read rb sz count = do { b1 \<leftarrow> buf_get ?m ?r (?c - ?r);
      b2 \<leftarrow> buf_get ?m 0 (unat q); Some (?first + q, b1 @ b2, rb\<lparr>rp := q\<rparr>) }"
    using n lt over first I by (auto simp: rb_read_def Let_def q_def buf_get_def)
  show ?thesis
    using rd I adv q k kq lt'
    by (auto simp: buf_simps rb_inv_def rb_contents_ring word_le_nat_alt)
qed

lemma rb_read_spec:
  fixes sz count :: u32
  assumes inv: "rb_inv rb"
  defines "k \<equiv> min (unat (sz * count)) (length (rb_contents rb))"
  shows "\<exists>rb'. rb_read rb sz count = Some (of_nat k, take k (rb_contents rb), rb')
    \<and> rb_inv rb' \<and> rb_contents rb' = drop k (rb_contents rb) \<and> capacity rb' = capacity rb"
proof -
  consider "sz * count = 0" | "sz * count \<noteq> 0" "rp rb \<le> wp rb"
    | "sz * count \<noteq> 0" "wp rb < rp rb" "sz * count \<le> capacity rb - rp rb"
    | "sz * count \<noteq> 0" "wp rb < rp rb" "capacity rb - rp rb < sz * count"
    by fastforce
  then show ?thesis
  proof cases
    case 1
    then show ?thesis using inv by (simp add: rb_read_def k_def)
  next
    case 2
    then show ?thesis unfolding k_def using rb_read_low [OF inv] by blast
  next
    case 3
    then have "unat (sz * count) \<le> length (rb_contents rb)"
      using rb_invD [OF inv] length_rb_contents [OF inv] by (simp add: rb_word)
    then show ?thesis unfolding k_def using rb_read_high_within [OF inv 3(2,1,3)] by (simp add: min_absorb1)
  next
    case 4
    then show ?thesis unfolding k_def using rb_read_high_wrap [OF inv] by blast
  qed
qed

lemma rb_free_nat:
  assumes "rb_inv rb"
  shows "unat (rb_get_free_size rb) =
    (if unat (rp rb) \<le> unat (wp rb) then unat (capacity rb) - unat (wp rb) + unat (rp rb)
     else unat (rp rb) - unat (wp rb)) - 4"
proof -
  note I = rb_invD [OF assms]
  have "unat (rp rb) \<le> unat (wp rb) \<Longrightarrow>
      unat (capacity rb - wp rb + rp rb) = unat (capacity rb) - unat (wp rb) + unat (rp rb)"
    using I unat_u32 [of "capacity rb"] by (subst unat_add_no_wrap) (auto simp: unat_sub_no_wrap)
  then show ?thesis
    by (auto simp: rb_get_free_size_def Let_def RWP_SAFE_INTERVAL_def rb_word)
qed

lemma rb_fill_plus_free:
  assumes "rb_inv rb"
  shows "length (rb_contents rb) + unat (rb_get_free_size rb) \<le> unat (capacity rb)"
  using length_rb_contents [OF assms] rb_free_nat [OF assms] rb_invD [OF assms] by auto

lemma rb_fill_nat:
  assumes "rb_inv rb"
  shows "unat (rb_get_fill_size rb) = length (rb_contents rb)"
proof -
  note I = rb_invD [OF assms]
  have "unat (wp rb) < unat (rp rb) \<Longrightarrow>
      unat (capacity rb - rp rb + wp rb) = unat (capacity rb) - unat (rp rb) + unat (wp rb)"
    using I unat_u32 [of "capacity rb"] by (subst unat_add_no_wrap) (auto simp: unat_sub_no_wrap)
  then show ?thesis
    using length_rb_contents [OF assms] by (auto simp: rb_get_fill_size_def rb_word)
qed

text \<open>The condition under which \<open>rb_write\<close> accepts the data, as the code tests it.\<close>

lemma rb_write_guard_low:
  assumes inv: "rb_inv rb" and le: "rp rb \<le> wp rb" and n: "n \<noteq> 0" "unat n + 4 < 4294967296"
  shows "(n + RWP_SAFE_INTERVAL \<le> capacity rb - wp rb + rp rb)
    \<longleftrightarrow> unat n \<le> unat (rb_get_free_size rb)"
proof -
  note I = rb_invD [OF inv]
  have c: "unat (capacity rb - wp rb + rp rb) = unat (capacity rb) - unat (wp rb) + unat (rp rb)"
    using I le unat_u32 [of "capacity rb"]
    by (subst unat_add_no_wrap) (auto simp: unat_sub_no_wrap word_le_nat_alt)
  have "unat (n + 4) = unat n + 4" using n by (simp add: unat_add_no_wrap)
  moreover have "0 < unat n" using n by (simp add: unat_gt_0)
  ultimately show ?thesis
    using c le rb_free_nat [OF inv] by (auto simp: RWP_SAFE_INTERVAL_def word_le_nat_alt)
qed

lemma rb_write_guard_high:
  assumes inv: "rb_inv rb" and lt: "wp rb < rp rb" and n: "n \<noteq> 0" "unat n + 4 < 4294967296"
  shows "(n + RWP_SAFE_INTERVAL \<le> rp rb - wp rb) \<longleftrightarrow> unat n \<le> unat (rb_get_free_size rb)"
proof -
  have "unat (n + 4) = unat n + 4" using n by (simp add: unat_add_no_wrap)
  moreover have "0 < unat n" using n by (simp add: unat_gt_0)
  ultimately show ?thesis
    using lt rb_free_nat [OF inv] by (auto simp: RWP_SAFE_INTERVAL_def rb_word)
qed

lemma rb_write_full:
  assumes "rb_inv rb" "unat (sz * count) + 4 < 4294967296"
    and "unat (rb_get_free_size rb) < unat (sz * count)"
  shows "rb_write rb buffer sz count = Some (0, rb)"
  using assms rb_write_guard_low [OF assms(1), of "sz * count"]
    rb_write_guard_high [OF assms(1), of "sz * count"]
  by (auto simp: rb_write_def Let_def not_le)

lemma rb_write_low_within:
  assumes inv: "rb_inv rb" and le: "rp rb \<le> wp rb" and n: "sz * count \<noteq> 0"
    and guard: "sz * count + RWP_SAFE_INTERVAL \<le> capacity rb - wp rb + rp rb"
    and fits: "sz * count \<le> capacity rb - wp rb"
    and src: "unat (sz * count) \<le> length buffer"
  shows "\<exists>rb'. rb_write rb buffer sz count = Some (sz * count, rb') \<and> rb_inv rb'
    \<and> rb_contents rb' = rb_contents rb @ take (unat (sz * count)) buffer \<and> capacity rb' = capacity rb"
proof -
  let ?m = "address rb" and ?w = "unat (wp rb)" and ?r = "unat (rp rb)" and ?c = "unat (capacity rb)"
  let ?n = "unat (sz * count)"
  let ?d = "take ?n buffer"
  let ?m' = "take ?w ?m @ ?d @ drop (?w + ?n) ?m"
  note I = rb_invD [OF inv]
  have d: "length ?d = ?n" using src by simp
  have fits': "?w + ?n \<le> ?c" using fits I by (simp add: rb_word)
  have w': "unat (wp rb + sz * count) = ?w + ?n"
    using fits' unat_u32 [of "capacity rb"] by (subst unat_add_no_wrap) auto
  have le': "?r \<le> ?w" using le by (simp add: word_le_nat_alt)
  have put: "ring ?m' (?w + ?n) ?r = ring ?m ?w ?r @ ?d"
    using ring_put_low [of ?r ?w ?d ?m] le' fits' I d by simp
  define rb1 where "rb1 = rb\<lparr>address := ?m', wp := wp rb + sz * count\<rparr>"
  define rb' where "rb' = (if capacity rb1 \<le> wp rb1 \<and> rp rb1 \<noteq> 0 then rb1\<lparr>wp := 0\<rparr> else rb1)"
  have wr: "rb_write rb buffer sz count = Some (sz * count, rb')"
    using n le guard fits src fits' I
    by (simp add: rb_write_def Let_def buf_simps rb'_def rb1_def)
  have m': "length ?m' = ?c" using fits' I d by simp
  have "rb_contents rb' = ring ?m' (?w + ?n) ?r"
  proof (cases "capacity rb1 \<le> wp rb1 \<and> rp rb1 \<noteq> 0")
    case True
    then have "?w + ?n = ?c" and "?r \<noteq> 0"
      using fits' w' by (auto simp: rb1_def word_le_nat_alt unat_eq_0)
    then show ?thesis
      using True ring_wp_zero [of ?r ?m'] m' I by (simp add: rb'_def rb1_def rb_contents_ring)
  next
    case False
    then have "rb' = rb1" by (auto simp: rb'_def)
    then show ?thesis using w' by (simp add: rb1_def rb_contents_ring)
  qed
  moreover have "rb_inv rb'"
    using m' I w' fits' by (auto simp: rb'_def rb1_def rb_inv_def word_le_nat_alt)
  ultimately show ?thesis
    using wr put by (auto simp: rb_contents_ring rb'_def rb1_def)
qed

lemma rb_write_low_wrap:
  assumes inv: "rb_inv rb" and le: "rp rb \<le> wp rb" and n: "unat (sz * count) + 4 < 4294967296"
    and guard: "sz * count + RWP_SAFE_INTERVAL \<le> capacity rb - wp rb + rp rb"
    and over: "capacity rb - wp rb < sz * count"
    and src: "unat (sz * count) \<le> length buffer"
  shows "\<exists>rb'. rb_write rb buffer sz count = Some (sz * count, rb') \<and> rb_inv rb'
    \<and> rb_contents rb' = rb_contents rb @ take (unat (sz * count)) buffer \<and> capacity rb' = capacity rb"
proof -
  let ?m = "address rb" and ?w = "unat (wp rb)" and ?r = "unat (rp rb)" and ?c = "unat (capacity rb)"
  let ?n = "unat (sz * count)" and ?k = "sz * count - (capacity rb - wp rb)"
  let ?s1 = "take (?c - ?w) buffer" and ?s2 = "take (unat ?k) (drop (?c - ?w) buffer)"
  let ?m2 = "?s2 @ drop (unat ?k) (take ?w ?m @ ?s1)"
  note I = rb_invD [OF inv]
  have le': "?r \<le> ?w" using le by (simp add: word_le_nat_alt)
  have over': "?c - ?w < ?n" using over I by (simp add: rb_word)
  have k: "unat ?k = ?n - (?c - ?w)" using over' I by (simp add: unat_sub_no_wrap)
  have g: "?n + 4 \<le> ?c - ?w + ?r"
  proof -
    have "unat (capacity rb - wp rb + rp rb) = ?c - ?w + ?r"
      using I le' unat_u32 [of "capacity rb"] by (subst unat_add_no_wrap) (auto simp: unat_sub_no_wrap)
    then show ?thesis
      using guard n by (simp add: RWP_SAFE_INTERVAL_def word_le_nat_alt unat_add_no_wrap)
  qed
  have kr: "unat ?k < ?r" using g k over' by simp
  have n0: "sz * count \<noteq> 0" using over by auto
  have l1: "length ?s1 = ?c - ?w" and l2: "length ?s2 = unat ?k" using src over' k by auto
  define rb' where "rb' = rb\<lparr>address := ?m2, wp := ?k\<rparr>"
  have nowrap: "\<not> capacity rb \<le> ?k" using kr I by (simp add: word_le_nat_alt)
  have wr: "rb_write rb buffer sz count = Some (sz * count, rb')"
    using n0 le guard over I l1 l2 kr src over' nowrap k
    by (simp add: rb_write_def Let_def buf_simps rb'_def not_le [symmetric] unat_sub_no_wrap)
  have "ring ?m2 (unat ?k) ?r = ring ?m ?w ?r @ ?s1 @ ?s2"
    using ring_put_wrap [of ?r ?w ?s1 ?m ?s2] le' l1 l2 kr I by simp
  moreover have "?s1 @ ?s2 = take ?n buffer"
    using k over' by (simp add: take_add [symmetric])
  ultimately have "rb_contents rb' = rb_contents rb @ take ?n buffer"
    by (simp add: rb_contents_ring rb'_def)
  moreover have "rb_inv rb'"
    using I l1 l2 kr by (simp add: rb'_def rb_inv_def word_le_nat_alt)
  ultimately show ?thesis using wr by (simp add: rb'_def)
qed

lemma rb_write_high:
  assumes inv: "rb_inv rb" and lt: "wp rb < rp rb" and n: "sz * count \<noteq> 0"
    "unat (sz * count) + 4 < 4294967296"
    and guard: "sz * count + RWP_SAFE_INTERVAL \<le> rp rb - wp rb"
    and src: "unat (sz * count) \<le> length buffer"
  shows "\<exists>rb'. rb_write rb buffer sz count = Some (sz * count, rb') \<and> rb_inv rb'
    \<and> rb_contents rb' = rb_contents rb @ take (unat (sz * count)) buffer \<and> capacity rb' = capacity rb"
proof -
  let ?m = "address rb" and ?w = "unat (wp rb)" and ?r = "unat (rp rb)" and ?c = "unat (capacity rb)"
  let ?n = "unat (sz * count)"
  let ?d = "take ?n buffer"
  let ?m' = "take ?w ?m @ ?d @ drop (?w + ?n) ?m"
  note I = rb_invD [OF inv]
  have d: "length ?d = ?n" using src by simp
  have g: "?w + ?n < ?r"
    using guard lt n by (simp add: RWP_SAFE_INTERVAL_def rb_word unat_add_no_wrap)
  have w': "unat (wp rb + sz * count) = ?w + ?n"
    using g I unat_u32 [of "capacity rb"] by (subst unat_add_no_wrap) auto
  define rb' where "rb' = rb\<lparr>address := ?m', wp := wp rb + sz * count\<rparr>"
  have nowrap: "\<not> capacity rb \<le> wp rb + sz * count" using g w' I by (simp add: word_le_nat_alt)
  have wr: "rb_write rb buffer sz count = Some (sz * count, rb')"
    using n lt guard src g I nowrap leD [OF lt [THEN less_imp_le]]
    by (auto simp: rb_write_def Let_def buf_simps rb'_def)
  have "ring ?m' (?w + ?n) ?r = ring ?m ?w ?r @ ?d"
    using ring_put_high [of ?w ?d ?r ?m] g I d by simp
  then have "rb_contents rb' = rb_contents rb @ ?d" by (simp add: rb_contents_ring rb'_def w')
  moreover have "rb_inv rb'" using I g d w' by (simp add: rb'_def rb_inv_def word_le_nat_alt)
  ultimately show ?thesis using wr by (simp add: rb'_def)
qed

lemma rb_write_ok:
  assumes inv: "rb_inv rb" and n: "sz * count \<noteq> 0" "unat (sz * count) + 4 < 4294967296"
    and room: "unat (sz * count) \<le> unat (rb_get_free_size rb)"
    and src: "unat (sz * count) \<le> length buffer"
  shows "\<exists>rb'. rb_write rb buffer sz count = Some (sz * count, rb') \<and> rb_inv rb'
    \<and> rb_contents rb' = rb_contents rb @ take (unat (sz * count)) buffer \<and> capacity rb' = capacity rb"
proof (cases "rp rb \<le> wp rb")
  case True
  with inv n room have "sz * count + RWP_SAFE_INTERVAL \<le> capacity rb - wp rb + rp rb"
    by (simp add: rb_write_guard_low)
  then show ?thesis
    using rb_write_low_within [OF inv True n(1)] rb_write_low_wrap [OF inv True n(2)] src
    by (cases "sz * count \<le> capacity rb - wp rb") auto
next
  case False
  with inv n room have "sz * count + RWP_SAFE_INTERVAL \<le> rp rb - wp rb"
    by (simp add: rb_write_guard_high)
  then show ?thesis using rb_write_high [OF inv _ n] False src by auto
qed

section \<open>The contract of a byte queue\<close>

text \<open>
  The weakest contract under which the bytes arrive in order: \<open>put\<close> accepts some of the bytes of a block, the
  first ones, \<open>get\<close> delivers some of the oldest bytes. What the two operations are called with, beside the block,
  is left open; the calls that the contract covers are those that \<open>put_arg\<close> and \<open>get_arg\<close> describe.
\<close>

locale byte_pipe =
  fixes inv :: "'s \<Rightarrow> bool"
    and contents :: "'s \<Rightarrow> byte list"
    and block :: "'p \<Rightarrow> byte list"
    and put :: "'p \<Rightarrow> 's \<Rightarrow> (nat \<times> 's) option"
    and get :: "'n \<Rightarrow> 's \<Rightarrow> (byte list \<times> 's) option"
    and put_arg :: "'p \<Rightarrow> bool"
    and get_arg :: "'n \<Rightarrow> bool"
  assumes put_some: "inv s \<Longrightarrow> put_arg d \<Longrightarrow>
      \<exists>k s'. put d s = Some (k, s') \<and> inv s' \<and> contents s' = contents s @ take k (block d)"
    and get_some: "inv s \<Longrightarrow> get_arg n \<Longrightarrow>
      \<exists>k s'. get n s = Some (take k (contents s), s') \<and> inv s' \<and> contents s' = drop k (contents s)"
begin

text \<open>A run of queue operations: each either writes a block or reads some bytes.\<close>

fun run :: "('p + 'n) list \<Rightarrow> 's \<Rightarrow> (byte list \<times> byte list \<times> 's) option" where
  "run [] s = Some ([], [], s)"
| "run (Inl d # ops) s = do {
     (k, s1) \<leftarrow> put d s;
     (acc, out, s2) \<leftarrow> run ops s1;
     Some (take k (block d) @ acc, out, s2) }"
| "run (Inr n # ops) s = do {
     (bs, s1) \<leftarrow> get n s;
     (acc, out, s2) \<leftarrow> run ops s1;
     Some (acc, bs @ out, s2) }"

definition small_op :: "'p + 'n \<Rightarrow> bool" where
  "small_op op = (case op of Inl d \<Rightarrow> put_arg d | Inr n \<Rightarrow> get_arg n)"

lemma run_stream:
  "inv s \<Longrightarrow> list_all small_op ops \<Longrightarrow>
   \<exists>acc out s'. run ops s = Some (acc, out, s') \<and> inv s' \<and> contents s @ acc = out @ contents s'"
proof (induction ops arbitrary: s)
  case Nil
  then show ?case by simp
next
  case (Cons op ops)
  show ?case
  proof (cases op)
    case (Inl d)
    with Cons.prems have "put_arg d" by (simp add: small_op_def)
    then obtain k s1 where 1: "put d s = Some (k, s1)" "inv s1" "contents s1 = contents s @ take k (block d)"
      using put_some [OF Cons.prems(1)] by blast
    obtain acc out s2 where "run ops s1 = Some (acc, out, s2)" "inv s2" "contents s1 @ acc = out @ contents s2"
      using Cons.IH [OF 1(2)] Cons.prems(2) by auto
    then show ?thesis using Inl 1 by auto
  next
    case (Inr n)
    with Cons.prems have "get_arg n" by (simp add: small_op_def)
    then obtain k s1 where 1: "get n s = Some (take k (contents s), s1)" "inv s1" "contents s1 = drop k (contents s)"
      using get_some [OF Cons.prems(1)] by blast
    obtain acc out s2 where 2: "run ops s1 = Some (acc, out, s2)" "inv s2" "contents s1 @ acc = out @ contents s2"
      using Cons.IH [OF 1(2)] Cons.prems(2) by auto
    have "contents s @ acc = take k (contents s) @ (contents s1 @ acc)"
      using 1(3) by (simp add: append_assoc [symmetric] del: append_assoc)
    then have "contents s @ acc = (take k (contents s) @ out) @ contents s2" using 2(3) by simp
    then show ?thesis using Inr 1 2 by auto
  qed
qed

end

text \<open>
  What a client of a byte queue relies on. \<open>put\<close> accepts a block as a whole or refuses it and
  changes nothing; \<open>get\<close> returns as many of the oldest bytes as were asked for and are there.
\<close>

locale byte_fifo =
  fixes inv :: "'s \<Rightarrow> bool"
    and contents :: "'s \<Rightarrow> byte list"
    and room :: "'s \<Rightarrow> nat"
    and put :: "byte list \<Rightarrow> 's \<Rightarrow> (nat \<times> 's) option"
    and get :: "nat \<Rightarrow> 's \<Rightarrow> (byte list \<times> 's) option"
    and limit :: nat
  assumes put_ok: "inv s \<Longrightarrow> length d \<le> room s \<Longrightarrow> length d < limit \<Longrightarrow>
      \<exists>s'. put d s = Some (length d, s') \<and> inv s' \<and> contents s' = contents s @ d"
    and put_full: "inv s \<Longrightarrow> room s < length d \<Longrightarrow> length d < limit \<Longrightarrow> put d s = Some (0, s)"
    and get_ok: "inv s \<Longrightarrow> n < limit \<Longrightarrow>
      \<exists>s'. get n s = Some (take n (contents s), s') \<and> inv s' \<and> contents s' = drop n (contents s)"

text \<open>A queue is a pipe.\<close>

sublocale byte_fifo \<subseteq> pipe: byte_pipe inv contents "\<lambda>d. d" put get "\<lambda>d. length d < limit" "\<lambda>n. n < limit"
proof (unfold_locales, goal_cases)
  case (1 s d)
  then show ?case
  proof (cases "length d \<le> room s")
    case True
    then show ?thesis using put_ok [OF 1(1) True 1(2)] by (metis order_refl take_all)
  next
    case False
    then show ?thesis using put_full [OF 1(1) _ 1(2)] 1(1) by auto
  qed
next
  case (2 s n)
  then show ?case using get_ok [OF 2] by blast
qed

text \<open>The two calls a client makes, with blocks of single bytes (\<open>size = 1\<close>).\<close>

definition rb_put :: "byte list \<Rightarrow> RB_ST \<Rightarrow> (nat \<times> RB_ST) option" where
  "rb_put d rb = map_option (map_prod unat id) (rb_write rb d 1 (of_nat (length d)))"

definition rb_take :: "nat \<Rightarrow> RB_ST \<Rightarrow> (byte list \<times> RB_ST) option" where
  "rb_take n rb = map_option snd (rb_read rb 1 (of_nat n))"

definition rb_limit :: nat where
  "rb_limit = 4294967292"

interpretation rbq: byte_fifo rb_inv rb_contents "\<lambda>rb. unat (rb_get_free_size rb)" rb_put rb_take rb_limit
proof (unfold_locales, goal_cases)
  case (1 rb d)
  have n: "unat (of_nat (length d) :: u32) = length d" using 1 by (simp add: rb_limit_def unat_of_nat_small)
  show ?case
  proof (cases "d = []")
    case True
    then show ?thesis using 1 by (simp add: rb_put_def rb_write_def)
  next
    case False
    then have "(1 :: u32) * of_nat (length d) \<noteq> 0" using n by (metis length_0_conv mult_1 unat_0)
    from rb_write_ok [OF 1(1) this, of d] show ?thesis using 1 n by (auto simp: rb_put_def rb_limit_def)
  qed
next
  case (2 rb d)
  then have n: "unat (of_nat (length d) :: u32) = length d" by (simp add: rb_limit_def unat_of_nat_small)
  show ?case using rb_write_full [OF 2(1), of 1 "of_nat (length d)" d] 2 n
    by (simp add: rb_put_def rb_limit_def)
next
  case (3 rb n)
  then have n: "unat (of_nat n :: u32) = n" by (simp add: rb_limit_def unat_of_nat_small)
  show ?case using rb_read_spec [OF 3(1), of 1 "of_nat n"] n
    by (auto simp: rb_take_def min_def)
qed

section \<open>Properties\<close>

text \<open>
  A client's run over the ring buffer: \<open>Inl d\<close> is a call \<open>rb_write(rb, d, 1, length d)\<close>,
  \<open>Inr n\<close> a call \<open>rb_read(rb, buf, 1, n)\<close>. The result holds the bytes that the writes
  accepted, the bytes that the reads returned, and the final state.
\<close>

fun rb_run :: "(byte list + nat) list \<Rightarrow> RB_ST \<Rightarrow> (byte list \<times> byte list \<times> RB_ST) option" where
  "rb_run [] rb = Some ([], [], rb)"
| "rb_run (Inl d # ops) rb = do {
     (k, rb1) \<leftarrow> rb_write rb d 1 (of_nat (length d));
     (acc, out, rb2) \<leftarrow> rb_run ops rb1;
     Some (take (unat k) d @ acc, out, rb2) }"
| "rb_run (Inr n # ops) rb = do {
     (k, bs, rb1) \<leftarrow> rb_read rb 1 (of_nat n);
     (acc, out, rb2) \<leftarrow> rb_run ops rb1;
     Some (acc, bs @ out, rb2) }"

definition rb_op_ok :: "byte list + nat \<Rightarrow> bool" where
  "rb_op_ok op = (case op of Inl d \<Rightarrow> length d < rb_limit | Inr n \<Rightarrow> n < rb_limit)"

lemma rb_run_run: "rb_run ops rb = rbq.pipe.run ops rb"
proof (induction ops arbitrary: rb)
  case (Cons op ops)
  have "rb_put d rb = do { (k, rb1) \<leftarrow> rb_write rb d 1 (of_nat (length d)); Some (unat k, rb1) }"
    and "rb_take n rb = do { (k, bs, rb1) \<leftarrow> rb_read rb 1 (of_nat n); Some (bs, rb1) }" for d n
    by (simp_all add: rb_put_def rb_take_def map_option_case split: option.splits prod.splits)
  with Cons.IH show ?case
    by (cases op) (auto split: Option.bind_splits)
qed simp

lemma rb_init_inv:
  "length addr = unat cap \<Longrightarrow> rb_inv (rb_init rb addr cap) \<and> rb_contents (rb_init rb addr cap) = []"
  by (simp add: rb_init_def rb_inv_def rb_contents_def)

text \<open>
  (C1) Whatever sequence of writes and reads is issued on a freshly initialised ring buffer, no
  copy leaves the buffer, and the bytes accepted by the writes are, in order, the bytes returned
  by the reads followed by the bytes still stored: none is lost, duplicated or reordered.
\<close>

theorem rb_stream_order:
  assumes "length addr = unat cap" and "list_all rb_op_ok ops"
  shows "\<exists>acc out rb'. rb_run ops (rb_init rb addr cap) = Some (acc, out, rb')
    \<and> rb_inv rb' \<and> acc = out @ rb_contents rb'"
proof -
  have "list_all rbq.pipe.small_op ops"
    using assms(2) by (simp add: rbq.pipe.small_op_def [abs_def] rb_op_ok_def [abs_def])
  then show ?thesis
    using rbq.pipe.run_stream [of "rb_init rb addr cap" ops] rb_init_inv [OF assms(1), of rb]
    by (simp add: rb_run_run)
qed

definition rb_example :: RB_ST where
  "rb_example = \<lparr>address = [], capacity = 0, wp = 0, rp = 0\<rparr>"

theorem rb_stream_order_witness:
  "\<exists>acc out rb'. rb_run [Inl [1, 2, 3], Inr 2, Inl [4, 5, 6, 7], Inr 9] (rb_init rb_example (replicate 10 0) 10)
      = Some (acc, out, rb') \<and> rb_inv rb' \<and> acc = out @ rb_contents rb'"
  using rb_stream_order [of "replicate 10 0" 10 "[Inl [1, 2, 3], Inr 2, Inl [4, 5, 6, 7], Inr 9]" rb_example]
  by (simp add: rb_op_ok_def rb_limit_def)

text \<open>
  \<open>rb_write\<close> accepts a block as a whole or refuses it: it appends all \<open>size * count\<close> bytes
  when they fit into \<open>rb_get_free_size\<close> and returns their number; otherwise it returns 0 and
  changes nothing. The hypothesis on \<open>size * count + 4\<close> excludes the wrap-around of the guard.
\<close>

theorem rb_write_all_or_nothing:
  assumes "rb_inv rb" and "unat (sz * count) + 4 < 4294967296" and "unat (sz * count) \<le> length buffer"
  shows "if unat (sz * count) \<le> unat (rb_get_free_size rb)
    then \<exists>rb'. rb_write rb buffer sz count = Some (sz * count, rb') \<and> rb_inv rb'
      \<and> rb_contents rb' = rb_contents rb @ take (unat (sz * count)) buffer
    else rb_write rb buffer sz count = Some (0, rb)"
proof (cases "sz * count = 0")
  case True
  then show ?thesis using assms(1) by (simp add: rb_write_def)
next
  case False
  then show ?thesis
    using rb_write_ok [OF assms(1) False assms(2) _ assms(3)] rb_write_full [OF assms(1,2), of buffer]
    by auto
qed

theorem rb_write_all_or_nothing_witness:
  "rb_inv (rb_init rb_example (replicate 10 0) 10)
   \<and> (\<exists>rb'. rb_write (rb_init rb_example (replicate 10 0) 10) [1, 2, 3, 4, 5, 6] 2 3 = Some (6, rb')
       \<and> rb_inv rb' \<and> rb_contents rb' = [1, 2, 3, 4, 5, 6])
   \<and> rb_write (rb_init rb_example (replicate 10 0) 10) [1, 2, 3, 4, 5, 6, 7] 1 7
       = Some (0, rb_init rb_example (replicate 10 0) 10)"
  using rb_write_all_or_nothing [of "rb_init rb_example (replicate 10 0) 10" 2 3 "[1, 2, 3, 4, 5, 6]"]
    rb_write_all_or_nothing [of "rb_init rb_example (replicate 10 0) 10" 1 7 "[1, 2, 3, 4, 5, 6, 7]"]
  by (simp add: rb_init_inv rb_get_free_size_def rb_init_def RWP_SAFE_INTERVAL_def rb_inv_def rb_contents_def)

text \<open>
  \<open>rb_read\<close> returns the oldest \<open>size * count\<close> bytes, or all that are stored when there are
  fewer, removes exactly these, and keeps the invariant.
\<close>

theorem rb_read_oldest:
  assumes "rb_inv rb"
  shows "\<exists>rb' n. rb_read rb sz count = Some (n, take (unat (sz * count)) (rb_contents rb), rb')
    \<and> unat n = min (unat (sz * count)) (unat (rb_get_fill_size rb))
    \<and> rb_inv rb' \<and> rb_contents rb' = drop (unat (sz * count)) (rb_contents rb)"
proof -
  define k where "k = min (unat (sz * count)) (length (rb_contents rb))"
  obtain rb' where r: "rb_read rb sz count = Some (of_nat k, take k (rb_contents rb), rb')"
    "rb_inv rb'" "rb_contents rb' = drop k (rb_contents rb)"
    using rb_read_spec [OF assms, of sz count] unfolding k_def by auto
  have "unat (of_nat k :: u32) = k"
    using unat_u32 [of "sz * count"] by (simp add: k_def unat_of_nat_small)
  moreover have "take k (rb_contents rb) = take (unat (sz * count)) (rb_contents rb)"
    and "drop k (rb_contents rb) = drop (unat (sz * count)) (rb_contents rb)"
    by (simp_all add: k_def min_def)
  ultimately show ?thesis using r rb_fill_nat [OF assms] by (auto simp: k_def)
qed

theorem rb_read_oldest_witness:
  "\<exists>rb' n. rb_read \<lparr>address = [1, 2, 3, 4, 5, 6, 7, 8], capacity = 8, wp = 2, rp = 5\<rparr> 2 2
      = Some (n, [6, 7, 8, 1], rb') \<and> unat n = 4 \<and> rb_inv rb' \<and> rb_contents rb' = [2]"
  using rb_read_oldest [of "\<lparr>address = [1, 2, 3, 4, 5, 6, 7, 8], capacity = 8, wp = 2, rp = 5\<rparr>" 2 2]
  by (simp add: rb_inv_def rb_contents_def rb_get_fill_size_def)

end
