(* ===== verification/Drv_Model.thy ===== *)
theory Drv_Model
  imports Prelude
begin

text \<open>
  The device-driver model of the SDK, \<open>driver/common/drv_model.c\<close>, and the start-up table of
  \<open>driver/common/dd.c\<close>.

  Drivers register themselves under a name in one of two tables: devices with the five
  operations open, close, read, write and control, and "simple" devices with control only. Every
  other component reaches a driver through \<open>ddev_open\<close> and the handle it returns, or through
  \<open>sddev_control\<close> and the name.

  The two tables are lists of the C structures (a \<open>NULL\<close> table is the empty list: every access
  to it is undefined in both). The registered operations are code of the drivers: they are
  functions on a driver world of type \<open>'s\<close>, with parameters (the \<open>void *\<close> and \<open>char *\<close>
  arguments) of type \<open>'p\<close>, and may be absent (\<open>NULL\<close>). \<open>os_malloc\<close> and \<open>os_realloc\<close> may fail:
  their success is an argument. An access outside a table, a comparison with a \<open>NULL\<close> name and
  a failed \<open>ASSERT\<close> give \<open>None\<close>.
\<close>

section \<open>Data\<close>

datatype DD_STATE = DD_STATE_NODEVICE | DD_STATE_CLOSED | DD_STATE_OPENED | DD_STATE_BREAK | DD_STATE_SUCCESS

datatype DD_OPEN_METHOD = DD_OPEN_METHOD_ONE_TIME | DD_OPEN_METHOD_MUTI_TIME

record ('s, 'p) DD_OPERATIONS =
  dd_open :: "(u32 \<Rightarrow> 's \<Rightarrow> u32 \<times> 's) option"
  dd_close :: "('s \<Rightarrow> u32 \<times> 's) option"
  dd_read :: "('p \<Rightarrow> u32 \<Rightarrow> u32 \<Rightarrow> 's \<Rightarrow> u32 \<times> 's) option"
  dd_write :: "('p \<Rightarrow> u32 \<Rightarrow> u32 \<Rightarrow> 's \<Rightarrow> u32 \<times> 's) option"
  dd_control :: "(u32 \<Rightarrow> 'p \<Rightarrow> 's \<Rightarrow> u32 \<times> 's) option"

record ('s, 'p) SDD_OPERATIONS =
  sdd_control :: "(u32 \<Rightarrow> 'p \<Rightarrow> 's \<Rightarrow> u32 \<times> 's) option"

text \<open>\<open>DRV_DEV_S\<close> and \<open>DRV_SDEV_S\<close> differ only in the type of the operations, here \<open>'o\<close>.\<close>

record 'o DRV_DEV_S =
  drv_name :: "string option"
  drv_use_cnt :: u32
  drv_state :: DD_STATE
  drv_op :: "'o option"
  drv_method :: DD_OPEN_METHOD
  drv_private :: u32

record ('s, 'p) drv_model =
  allocated_size_sdev :: u32
  allocated_size_dev :: u32
  drv_sdev_tbl :: "('s, 'p) SDD_OPERATIONS DRV_DEV_S list"
  drv_dev_tbl :: "('s, 'p) DD_OPERATIONS DRV_DEV_S list"
  world :: 's

definition DRV_FAILURE :: u32 where "DRV_FAILURE = - 5"
definition DRV_SUCCESS :: u32 where "DRV_SUCCESS = 0"
definition DD_HANDLE_MAGIC_WORD :: u32 where "DD_HANDLE_MAGIC_WORD = 0xA5A50000"
definition DD_HANDLE_MAGIC_MASK :: u32 where "DD_HANDLE_MAGIC_MASK = 0xFFFF0000"
definition DD_HANDLE_ID_MASK :: u32 where "DD_HANDLE_ID_MASK = 0x0000FFFF"
definition DD_HANDLE_UNVALID :: u32 where "DD_HANDLE_UNVALID = - 1"
definition DD_ID_UNVALID :: u32 where "DD_ID_UNVALID = - 1"
definition DD_INITIAL_SIZE :: u32 where "DD_INITIAL_SIZE = 10"
definition DD_EXP_STEP_SIZE :: u32 where "DD_EXP_STEP_SIZE = 5"
definition DD_MAX_NAME_LEN :: u32 where "DD_MAX_NAME_LEN = 16"

lemmas drv_consts = DRV_FAILURE_def DRV_SUCCESS_def DD_HANDLE_MAGIC_WORD_def DD_HANDLE_MAGIC_MASK_def
  DD_HANDLE_ID_MASK_def DD_HANDLE_UNVALID_def DD_ID_UNVALID_def DD_INITIAL_SIZE_def
  DD_EXP_STEP_SIZE_def DD_MAX_NAME_LEN_def

text \<open>An entry whose bytes are all zero, as \<open>os_memset\<close> leaves it.\<close>

definition zero_dev :: "'o DRV_DEV_S" where
  "zero_dev = \<lparr>drv_name = None, drv_use_cnt = 0, drv_state = DD_STATE_NODEVICE, drv_op = None,
     drv_method = DD_OPEN_METHOD_ONE_TIME, drv_private = 0\<rparr>"

section \<open>Tables\<close>

definition drv_model_init :: "bool \<Rightarrow> bool \<Rightarrow> ('s, 'p) drv_model \<Rightarrow> (u32 \<times> ('s, 'p) drv_model) option" where
  "drv_model_init malloc_sdev_ok malloc_dev_ok dm =
     (if malloc_sdev_ok \<and> malloc_dev_ok then
        Some (DRV_SUCCESS, dm\<lparr>drv_sdev_tbl := replicate (unat DD_INITIAL_SIZE) zero_dev,
          drv_dev_tbl := replicate (unat DD_INITIAL_SIZE) zero_dev,
          allocated_size_sdev := DD_INITIAL_SIZE, allocated_size_dev := DD_INITIAL_SIZE\<rparr>)
      else None)"

definition drv_model_uninit :: "('s, 'p) drv_model \<Rightarrow> u32 \<times> ('s, 'p) drv_model" where
  "drv_model_uninit dm =
     (DRV_SUCCESS, dm\<lparr>drv_sdev_tbl := [], drv_dev_tbl := [], allocated_size_sdev := 0,
        allocated_size_dev := 0\<rparr>)"

text \<open>
  \<open>os_strncmp(name, dev_name, n) == 0\<close> on C strings, as lists of their characters without the
  terminating zero; the result is undefined for a \<open>NULL\<close> name.
\<close>

definition strncmp_eq :: "string option \<Rightarrow> string \<Rightarrow> nat \<Rightarrow> bool option" where
  "strncmp_eq name dev_name n = map_option (\<lambda>s. take n s = take n dev_name) name"

text \<open>
  The search loop \<open>for(i = 0; i < sz; i ++)\<close> that every operation runs: the first index whose
  entry satisfies the test (\<open>Some (Some i)\<close>), \<open>Some None\<close> when the loop ends without one, \<open>None\<close>
  when an access or a test is undefined.
\<close>

function tbl_find :: "('e \<Rightarrow> bool option) \<Rightarrow> 'e list \<Rightarrow> nat \<Rightarrow> nat \<Rightarrow> nat option option" where
  "tbl_find P tbl sz i =
     (if i < sz then
        if i < length tbl then
          (case P (tbl ! i) of None \<Rightarrow> None
           | Some True \<Rightarrow> Some (Some i)
           | Some False \<Rightarrow> tbl_find P tbl sz (Suc i))
        else None
      else Some None)"
  by pat_completeness auto
termination by (relation "measure (\<lambda>(P, tbl, sz, i). sz - i)") auto

declare tbl_find.simps [simp del]

definition name_matches :: "string \<Rightarrow> 'o DRV_DEV_S \<Rightarrow> bool option" where
  "name_matches dev_name d = strncmp_eq (drv_name d) dev_name (length dev_name)"

definition slot_free :: "'o DRV_DEV_S \<Rightarrow> bool" where
  "slot_free d \<longleftrightarrow> drv_name d = None \<and> drv_state d = DD_STATE_NODEVICE"

section \<open>Handles\<close>

definition ddev_check_handle :: "('s, 'p) drv_model \<Rightarrow> u32 \<Rightarrow> u32" where
  "ddev_check_handle dm handle =
     (let magic = handle AND DD_HANDLE_MAGIC_MASK; id = handle AND DD_HANDLE_ID_MASK in
      if DD_HANDLE_MAGIC_WORD = magic \<and> id < allocated_size_dev dm then DRV_SUCCESS else DRV_FAILURE)"

definition ddev_make_handle :: "('s, 'p) drv_model \<Rightarrow> u32 \<Rightarrow> u32" where
  "ddev_make_handle dm ident =
     (if ident \<ge> allocated_size_dev dm then DD_HANDLE_UNVALID else ident + DD_HANDLE_MAGIC_WORD)"

definition ddev_get_id_from_handle :: "u32 \<Rightarrow> u32" where
  "ddev_get_id_from_handle handle =
     (let magic = handle AND DD_HANDLE_MAGIC_MASK; id = handle AND DD_HANDLE_ID_MASK in
      if magic \<noteq> DD_HANDLE_MAGIC_WORD then DD_ID_UNVALID else id)"

section \<open>Operations on devices\<close>

text \<open>
  \<open>dev_name\<close> is \<open>None\<close> for a \<open>NULL\<close> pointer, \<open>status\<close> is \<open>None\<close> for \<open>NULL\<close> and otherwise the
  value stored there. The result holds the handle, the value of \<open>*status\<close> and the new state.
\<close>

definition ddev_open ::
  "('s, 'p) drv_model \<Rightarrow> string option \<Rightarrow> u32 option \<Rightarrow> u32 \<Rightarrow> (u32 \<times> u32 option \<times> ('s, 'p) drv_model) option" where
  "ddev_open dm dev_name status op_flag =
     (case dev_name of None \<Rightarrow> None
      | Some nm \<Rightarrow>
        if status = None \<or> of_nat (length nm) > DD_MAX_NAME_LEN then Some (DD_HANDLE_UNVALID, status, dm)
        else do {
          found \<leftarrow> tbl_find (name_matches nm) (drv_dev_tbl dm) (unat (allocated_size_dev dm)) 0;
          case found of None \<Rightarrow> None
          | Some i \<Rightarrow>
            (let dev_ptr = drv_dev_tbl dm ! i; handle = ddev_make_handle dm (of_nat i) in
             if drv_state dev_ptr = DD_STATE_OPENED then
               if handle \<noteq> DD_HANDLE_UNVALID then
                 Some (handle, Some DRV_FAILURE,
                   dm\<lparr>drv_dev_tbl := (drv_dev_tbl dm)[i := dev_ptr\<lparr>drv_use_cnt := drv_use_cnt dev_ptr + 1\<rparr>]\<rparr>)
               else None
             else if drv_state dev_ptr = DD_STATE_CLOSED then
               (let (st, w) = (case Option.bind (drv_op dev_ptr) dd_open of
                                 Some open \<Rightarrow> open op_flag (world dm)
                               | None \<Rightarrow> (DRV_FAILURE, world dm)) in
                if handle \<noteq> DD_HANDLE_UNVALID then
                  Some (handle, Some st,
                    dm\<lparr>drv_dev_tbl := (drv_dev_tbl dm)
                        [i := dev_ptr\<lparr>drv_state := DD_STATE_OPENED, drv_use_cnt := 0 + 1\<rparr>],
                      world := w\<rparr>)
                else None)
             else None) })"

definition ddev_close :: "('s, 'p) drv_model \<Rightarrow> u32 \<Rightarrow> (u32 \<times> ('s, 'p) drv_model) option" where
  "ddev_close dm handle =
     (let id = ddev_get_id_from_handle handle in
      if DD_ID_UNVALID = id then Some (DRV_FAILURE, dm)
      else if unat id < length (drv_dev_tbl dm) then
        (let dev_ptr = (drv_dev_tbl dm ! unat id)\<lparr>drv_use_cnt := drv_use_cnt (drv_dev_tbl dm ! unat id) - 1\<rparr> in
         if drv_use_cnt dev_ptr = 0 then
           (let w = (case Option.bind (drv_op dev_ptr) dd_close of
                       Some close \<Rightarrow> snd (close (world dm)) | None \<Rightarrow> world dm) in
            Some (DRV_SUCCESS, dm\<lparr>drv_dev_tbl := (drv_dev_tbl dm)[unat id := dev_ptr\<lparr>drv_state := DD_STATE_CLOSED\<rparr>],
              world := w\<rparr>))
         else Some (DRV_SUCCESS, dm\<lparr>drv_dev_tbl := (drv_dev_tbl dm)[unat id := dev_ptr]\<rparr>))
      else None)"

definition ddev_read :: "('s, 'p) drv_model \<Rightarrow> u32 \<Rightarrow> 'p \<Rightarrow> u32 \<Rightarrow> u32 \<Rightarrow> (u32 \<times> ('s, 'p) drv_model) option" where
  "ddev_read dm handle user_buf count op_flag =
     (let id = ddev_get_id_from_handle handle in
      if DD_ID_UNVALID = id then Some (DRV_FAILURE, dm)
      else if unat id < length (drv_dev_tbl dm) then
        (case Option.bind (drv_op (drv_dev_tbl dm ! unat id)) dd_read of
           Some read \<Rightarrow> (let (status, w) = read user_buf count op_flag (world dm) in Some (status, dm\<lparr>world := w\<rparr>))
         | None \<Rightarrow> Some (DRV_FAILURE, dm))
      else None)"

definition ddev_write :: "('s, 'p) drv_model \<Rightarrow> u32 \<Rightarrow> 'p \<Rightarrow> u32 \<Rightarrow> u32 \<Rightarrow> (u32 \<times> ('s, 'p) drv_model) option" where
  "ddev_write dm handle user_buf count op_flag =
     (let id = ddev_get_id_from_handle handle in
      if DD_ID_UNVALID = id then Some (DRV_FAILURE, dm)
      else if unat id < length (drv_dev_tbl dm) then
        (case Option.bind (drv_op (drv_dev_tbl dm ! unat id)) dd_write of
           Some write \<Rightarrow> (let (status, w) = write user_buf count op_flag (world dm) in Some (status, dm\<lparr>world := w\<rparr>))
         | None \<Rightarrow> Some (DRV_FAILURE, dm))
      else None)"

definition ddev_control :: "('s, 'p) drv_model \<Rightarrow> u32 \<Rightarrow> u32 \<Rightarrow> 'p \<Rightarrow> (u32 \<times> ('s, 'p) drv_model) option" where
  "ddev_control dm handle cmd param =
     (let id = ddev_get_id_from_handle handle in
      if DD_ID_UNVALID = id then Some (DRV_FAILURE, dm)
      else if unat id < length (drv_dev_tbl dm) then
        (case Option.bind (drv_op (drv_dev_tbl dm ! unat id)) dd_control of
           Some control \<Rightarrow> (let (status, w) = control cmd param (world dm) in Some (status, dm\<lparr>world := w\<rparr>))
         | None \<Rightarrow> Some (DRV_FAILURE, dm))
      else None)"

definition sddev_control :: "('s, 'p) drv_model \<Rightarrow> string option \<Rightarrow> u32 \<Rightarrow> 'p \<Rightarrow> (u32 \<times> ('s, 'p) drv_model) option" where
  "sddev_control dm dev_name cmd param =
     (case dev_name of None \<Rightarrow> None
      | Some nm \<Rightarrow> do {
          found \<leftarrow> tbl_find (name_matches nm) (drv_sdev_tbl dm) (unat (allocated_size_sdev dm)) 0;
          i \<leftarrow> found;
          operation \<leftarrow> drv_op (drv_sdev_tbl dm ! i);
          case sdd_control operation of
            Some control \<Rightarrow> (let (status, w) = control cmd param (world dm) in Some (status, dm\<lparr>world := w\<rparr>))
          | None \<Rightarrow> Some (DRV_FAILURE, dm) })"

section \<open>Registration\<close>

definition ddev_register_dev ::
  "bool \<Rightarrow> ('s, 'p) drv_model \<Rightarrow> string option \<Rightarrow> ('s, 'p) DD_OPERATIONS option \<Rightarrow> (u32 \<times> ('s, 'p) drv_model) option" where
  "ddev_register_dev realloc_ok dm dev_name optr =
     (if dev_name = None \<or> optr = None then Some (DRV_FAILURE, dm)
      else do {
        found \<leftarrow> tbl_find (\<lambda>d. Some (slot_free d)) (drv_dev_tbl dm) (unat (allocated_size_dev dm)) 0;
        case found of
          None \<Rightarrow>
            if 0 < unat (allocated_size_dev dm)
              \<and> drv_op (drv_dev_tbl dm ! (unat (allocated_size_dev dm) - 1)) \<noteq> None
            then Some (DRV_SUCCESS, dm) else None
        | Some i \<Rightarrow>
            (let tbl = (drv_dev_tbl dm)[i := (drv_dev_tbl dm ! i)
                   \<lparr>drv_name := dev_name, drv_op := optr, drv_state := DD_STATE_CLOSED\<rparr>] in
             if (of_nat i :: u32) = allocated_size_dev dm - 1 then
               if realloc_ok then
                 Some (DRV_SUCCESS, dm\<lparr>drv_dev_tbl := tbl @ replicate (unat DD_EXP_STEP_SIZE) zero_dev,
                   allocated_size_dev := allocated_size_dev dm + DD_EXP_STEP_SIZE\<rparr>)
               else None
             else Some (DRV_SUCCESS, dm\<lparr>drv_dev_tbl := tbl\<rparr>)) })"

definition sddev_register_dev ::
  "bool \<Rightarrow> ('s, 'p) drv_model \<Rightarrow> string option \<Rightarrow> ('s, 'p) SDD_OPERATIONS option \<Rightarrow> (u32 \<times> ('s, 'p) drv_model) option" where
  "sddev_register_dev realloc_ok dm dev_name optr =
     (if dev_name = None \<or> optr = None then Some (DRV_FAILURE, dm)
      else do {
        found \<leftarrow> tbl_find (\<lambda>d. Some (slot_free d)) (drv_sdev_tbl dm) (unat (allocated_size_sdev dm)) 0;
        case found of
          None \<Rightarrow>
            if 0 < unat (allocated_size_sdev dm)
              \<and> drv_op (drv_sdev_tbl dm ! (unat (allocated_size_sdev dm) - 1)) \<noteq> None
            then Some (DRV_SUCCESS, dm) else None
        | Some i \<Rightarrow>
            (let tbl = (drv_sdev_tbl dm)[i := (drv_sdev_tbl dm ! i)
                   \<lparr>drv_name := dev_name, drv_op := optr, drv_state := DD_STATE_CLOSED\<rparr>] in
             if (of_nat i :: u32) = allocated_size_sdev dm - 1 then
               if realloc_ok then
                 Some (DRV_SUCCESS, dm\<lparr>drv_sdev_tbl := tbl @ replicate (unat DD_EXP_STEP_SIZE) zero_dev,
                   allocated_size_sdev := allocated_size_sdev dm + DD_EXP_STEP_SIZE\<rparr>)
               else None
             else Some (DRV_SUCCESS, dm\<lparr>drv_sdev_tbl := tbl\<rparr>)) })"

definition ddev_unregister_dev :: "('s, 'p) drv_model \<Rightarrow> string option \<Rightarrow> (u32 \<times> ('s, 'p) drv_model) option" where
  "ddev_unregister_dev dm dev_name =
     (case dev_name of None \<Rightarrow> Some (DRV_FAILURE, dm)
      | Some nm \<Rightarrow>
        if of_nat (length nm) > DD_MAX_NAME_LEN then Some (DRV_FAILURE, dm)
        else do {
          found \<leftarrow> tbl_find (name_matches nm) (drv_dev_tbl dm) (unat (allocated_size_dev dm)) 0;
          case found of
            Some i \<Rightarrow> Some (DRV_SUCCESS, dm\<lparr>drv_dev_tbl := (drv_dev_tbl dm)[i := (drv_dev_tbl dm ! i)
              \<lparr>drv_name := None, drv_op := None, drv_state := DD_STATE_NODEVICE\<rparr>]\<rparr>)
          | None \<Rightarrow> if allocated_size_dev dm = 0 then Some (DRV_SUCCESS, dm) else None })"

text \<open>The loop of \<open>sddev_unregister_dev\<close> runs to \<open>allocated_size_dev\<close>, the size of the other table.\<close>

definition sddev_unregister_dev :: "('s, 'p) drv_model \<Rightarrow> string option \<Rightarrow> (u32 \<times> ('s, 'p) drv_model) option" where
  "sddev_unregister_dev dm dev_name =
     (case dev_name of None \<Rightarrow> Some (DRV_FAILURE, dm)
      | Some nm \<Rightarrow>
        if of_nat (length nm) > DD_MAX_NAME_LEN then Some (DRV_FAILURE, dm)
        else do {
          found \<leftarrow> tbl_find (name_matches nm) (drv_sdev_tbl dm) (unat (allocated_size_dev dm)) 0;
          case found of
            Some i \<Rightarrow> Some (DRV_SUCCESS, dm\<lparr>drv_sdev_tbl := (drv_sdev_tbl dm)[i := (drv_sdev_tbl dm ! i)
              \<lparr>drv_name := None, drv_op := None, drv_state := DD_STATE_NODEVICE\<rparr>]\<rparr>)
          | None \<Rightarrow> if allocated_size_dev dm = 0 then Some (DRV_SUCCESS, dm) else None })"

section \<open>Well-formed tables\<close>

definition slot_ok :: "'o DRV_DEV_S \<Rightarrow> bool" where
  "slot_ok d = (case drv_state d of
      DD_STATE_NODEVICE \<Rightarrow> drv_name d = None \<and> drv_op d = None
    | DD_STATE_CLOSED \<Rightarrow> drv_name d \<noteq> None \<and> drv_op d \<noteq> None
    | DD_STATE_OPENED \<Rightarrow> drv_name d \<noteq> None \<and> drv_op d \<noteq> None \<and> drv_use_cnt d \<noteq> 0
    | _ \<Rightarrow> False)"

definition tbl_wf :: "'o DRV_DEV_S list \<Rightarrow> u32 \<Rightarrow> bool" where
  "tbl_wf tbl sz \<longleftrightarrow> length tbl = unat sz \<and> 0 < sz \<and> sz \<le> 65536 \<and> list_all slot_ok tbl \<and> slot_free (tbl ! (length tbl - 1))"

definition dm_wf :: "('s, 'p) drv_model \<Rightarrow> bool" where
  "dm_wf dm \<longleftrightarrow> tbl_wf (drv_dev_tbl dm) (allocated_size_dev dm) \<and> tbl_wf (drv_sdev_tbl dm) (allocated_size_sdev dm)"

subsection \<open>The search loop\<close>

lemma tbl_find_Some:
  "tbl_find P tbl sz i = Some (Some j) \<longleftrightarrow>
   i \<le> j \<and> j < sz \<and> j < length tbl \<and> P (tbl ! j) = Some True \<and> (\<forall>k. i \<le> k \<and> k < j \<longrightarrow> P (tbl ! k) = Some False)"
proof (induction P tbl sz i rule: tbl_find.induct)
  case (1 P tbl sz i)
  show ?case
  proof (cases "i < sz \<and> i < length tbl")
    case True
    show ?thesis
    proof (cases "P (tbl ! i)")
      case None
      then have "\<not> (i \<le> j \<and> P (tbl ! j) = Some True \<and> (\<forall>k. i \<le> k \<and> k < j \<longrightarrow> P (tbl ! k) = Some False))"
        by (metis le_neq_implies_less le_refl option.distinct(1))
      then show ?thesis using None True by (subst tbl_find.simps) auto
    next
      case (Some b)
      show ?thesis
      proof (cases b)
        case True
        with Some \<open>i < sz \<and> i < length tbl\<close> show ?thesis
          by (subst tbl_find.simps) (auto simp: le_less)
      next
        case False
        with Some True have "tbl_find P tbl sz i = tbl_find P tbl sz (Suc i)"
          by (subst tbl_find.simps) auto
        moreover have "(tbl_find P tbl sz (Suc i) = Some (Some j)) =
            (Suc i \<le> j \<and> j < sz \<and> j < length tbl \<and> P (tbl ! j) = Some True
             \<and> (\<forall>k. Suc i \<le> k \<and> k < j \<longrightarrow> P (tbl ! k) = Some False))"
          using "1.IH" True Some False by auto
        moreover have "(\<forall>k. i \<le> k \<and> k < j \<longrightarrow> P (tbl ! k) = Some False)
            = (\<forall>k. Suc i \<le> k \<and> k < j \<longrightarrow> P (tbl ! k) = Some False)"
          using Some False by (metis Suc_leD Suc_leI le_neq_implies_less)
        moreover have "P (tbl ! j) = Some True \<Longrightarrow> (i \<le> j) = (Suc i \<le> j)"
          using Some False by (metis Suc_leD Suc_leI le_neq_implies_less option.inject)
        ultimately show ?thesis by (metis (no_types, lifting))
      qed
    qed
  next
    case False
    then show ?thesis by (subst tbl_find.simps) auto
  qed
qed

lemma tbl_find_at:
  "j < sz \<Longrightarrow> j < length tbl \<Longrightarrow> P (tbl ! j) = Some True \<Longrightarrow> (\<And>k. k < j \<Longrightarrow> P (tbl ! k) = Some False)
   \<Longrightarrow> tbl_find P tbl sz 0 = Some (Some j)"
  by (simp add: tbl_find_Some)

lemma tbl_find_not_found:
  "sz \<le> length tbl \<Longrightarrow> (\<And>k. i \<le> k \<Longrightarrow> k < sz \<Longrightarrow> P (tbl ! k) = Some False) \<Longrightarrow> tbl_find P tbl sz i = Some None"
proof (induction P tbl sz i rule: tbl_find.induct)
  case (1 P tbl sz i)
  then show ?case by (subst tbl_find.simps) auto
qed

lemma tbl_find_first:
  assumes "sz \<le> length tbl" and "\<exists>j < sz. Q (tbl ! j)"
  obtains j where "tbl_find (\<lambda>d. Some (Q d)) tbl sz 0 = Some (Some j)" "j < sz" "Q (tbl ! j)"
    "\<forall>k<j. \<not> Q (tbl ! k)"
proof -
  define j where "j = (LEAST j. j < sz \<and> Q (tbl ! j))"
  have "j < sz \<and> Q (tbl ! j)" unfolding j_def using assms(2) by (rule LeastI_ex)
  moreover have "\<forall>k<j. \<not> Q (tbl ! k)"
    using calculation not_less_Least unfolding j_def by (metis (no_types, lifting) less_trans)
  ultimately show ?thesis using that [of j] assms(1) by (simp add: tbl_find_Some)
qed

lemma tbl_wf_last: "tbl_wf tbl sz \<Longrightarrow> slot_free (tbl ! (unat sz - 1)) \<and> unat sz - 1 < length tbl \<and> 0 < unat sz"
  by (auto simp: tbl_wf_def word_less_nat_alt)

lemma tbl_wf_update:
  assumes "tbl_wf tbl sz" "i < length tbl" "slot_ok d" "i = length tbl - 1 \<longrightarrow> slot_free d"
  shows "tbl_wf (tbl[i := d]) sz"
  using assms by (auto simp: tbl_wf_def list_all_length nth_list_update)

lemma slot_ok_zero [simp]: "slot_ok zero_dev" and slot_free_zero [simp]: "slot_free zero_dev"
  by (simp_all add: slot_ok_def slot_free_def zero_dev_def)

lemma tbl_wf_grow:
  assumes "tbl_wf tbl sz" "i < length tbl" "slot_ok d" "sz \<le> 65531"
  shows "tbl_wf (tbl[i := d] @ replicate (unat DD_EXP_STEP_SIZE) zero_dev) (sz + DD_EXP_STEP_SIZE)"
proof -
  have "unat sz \<le> 65531" using assms(4) by (simp add: word_le_nat_alt)
  then have "unat (sz + 5) = unat sz + 5" by (subst unat_add_no_wrap) auto
  then show ?thesis
    using assms \<open>unat sz \<le> 65531\<close>
    by (auto simp: tbl_wf_def list_all_length nth_list_update nth_append DD_EXP_STEP_SIZE_def
        word_le_nat_alt word_less_nat_alt)
qed

lemma name_matches_not_free: "name_matches nm d = Some True \<Longrightarrow> \<not> slot_free d"
  by (auto simp: name_matches_def strncmp_eq_def slot_free_def)

lemma tbl_wf_match_not_last:
  assumes "tbl_wf tbl sz" "tbl_find (name_matches nm) tbl n 0 = Some (Some i)"
  shows "i < length tbl \<and> i \<noteq> length tbl - 1 \<and> slot_ok (tbl ! i)"
  using assms tbl_wf_last [OF assms(1)] name_matches_not_free [of nm "tbl ! i"]
  by (auto simp: tbl_find_Some tbl_wf_def list_all_length)

section \<open>Registration keeps the tables well formed\<close>

text \<open>Both registration functions do the same to their table; this is the table they leave.\<close>

definition register_tbl :: "'o DRV_DEV_S list \<Rightarrow> nat \<Rightarrow> string option \<Rightarrow> 'o option \<Rightarrow> 'o DRV_DEV_S list" where
  "register_tbl tbl i nm optr =
     (let t = tbl[i := (tbl ! i)\<lparr>drv_name := nm, drv_op := optr, drv_state := DD_STATE_CLOSED\<rparr>] in
      if i = length tbl - 1 then t @ replicate (unat DD_EXP_STEP_SIZE) zero_dev else t)"

definition register_size :: "u32 \<Rightarrow> nat \<Rightarrow> u32" where
  "register_size sz i = (if i = unat sz - 1 then sz + DD_EXP_STEP_SIZE else sz)"

lemma index_is_last:
  "i < unat sz \<Longrightarrow> (of_nat i = sz - (1 :: u32)) = (i = unat sz - 1)"
  using unat_u32 [of sz] by (auto simp: word_unat_eq_iff unat_of_nat_small unat_sub_no_wrap)

lemma first_free:
  assumes "tbl_wf tbl sz"
  obtains i where "tbl_find (\<lambda>d. Some (slot_free d)) tbl (unat sz) 0 = Some (Some i)"
    "i < unat sz" "slot_free (tbl ! i)" "\<forall>k<i. \<not> slot_free (tbl ! k)"
proof -
  have "\<exists>j < unat sz. slot_free (tbl ! j)"
    using tbl_wf_last [OF assms] by (intro exI [of _ "unat sz - 1"]) auto
  then show ?thesis
    using tbl_find_first [of "unat sz" tbl slot_free] assms that by (auto simp: tbl_wf_def)
qed

lemma register_tbl_wf:
  assumes "tbl_wf tbl sz" "i < length tbl" "sz \<le> 65531"
  shows "tbl_wf (register_tbl tbl i (Some nm) (Some p)) (register_size sz i)"
proof -
  let ?d = "(tbl ! i)\<lparr>drv_name := Some nm, drv_op := Some p, drv_state := DD_STATE_CLOSED\<rparr>"
  have ok: "slot_ok ?d" by (simp add: slot_ok_def)
  have sz: "unat sz = length tbl" using assms(1) by (simp add: tbl_wf_def)
  show ?thesis
  proof (cases "i = length tbl - 1")
    case True
    with tbl_wf_grow [OF assms(1,2) ok assms(3)] sz show ?thesis
      unfolding register_tbl_def register_size_def Let_def by simp
  next
    case False
    with tbl_wf_update [OF assms(1,2) ok] sz show ?thesis
      by (simp add: register_tbl_def register_size_def Let_def)
  qed
qed

lemma register_tbl_nth:
  assumes "i < length tbl" "j < length tbl"
  shows "register_tbl tbl i nm optr ! j =
    (if j = i then (tbl ! i)\<lparr>drv_name := nm, drv_op := optr, drv_state := DD_STATE_CLOSED\<rparr> else tbl ! j)"
  using assms by (auto simp: register_tbl_def Let_def nth_append)

lemma length_register_tbl: "length tbl \<le> length (register_tbl tbl i nm optr)"
  by (simp add: register_tbl_def Let_def)

lemma register_tbl_new:
  "j < length (register_tbl tbl i nm optr) \<Longrightarrow> length tbl \<le> j \<Longrightarrow> slot_free (register_tbl tbl i nm optr ! j)"
  by (auto simp: register_tbl_def Let_def nth_append split: if_splits)

lemma ddev_register_wf:
  assumes "dm_wf dm" "allocated_size_dev dm \<le> 65531"
  obtains i where "i < length (drv_dev_tbl dm)" "slot_free (drv_dev_tbl dm ! i)"
    "\<forall>k<i. \<not> slot_free (drv_dev_tbl dm ! k)"
    "ddev_register_dev True dm (Some nm) (Some p) =
      Some (DRV_SUCCESS, dm\<lparr>drv_dev_tbl := register_tbl (drv_dev_tbl dm) i (Some nm) (Some p),
        allocated_size_dev := register_size (allocated_size_dev dm) i\<rparr>)"
    "dm_wf (dm\<lparr>drv_dev_tbl := register_tbl (drv_dev_tbl dm) i (Some nm) (Some p),
        allocated_size_dev := register_size (allocated_size_dev dm) i\<rparr>)"
proof -
  have wf: "tbl_wf (drv_dev_tbl dm) (allocated_size_dev dm)" using assms(1) by (simp add: dm_wf_def)
  then have len: "length (drv_dev_tbl dm) = unat (allocated_size_dev dm)" by (simp add: tbl_wf_def)
  obtain i where i: "tbl_find (\<lambda>d. Some (slot_free d)) (drv_dev_tbl dm) (unat (allocated_size_dev dm)) 0
      = Some (Some i)" "i < unat (allocated_size_dev dm)" "slot_free (drv_dev_tbl dm ! i)"
      "\<forall>k<i. \<not> slot_free (drv_dev_tbl dm ! k)"
    using first_free [OF wf] .
  show ?thesis
  proof (rule that [of i])
    show "ddev_register_dev True dm (Some nm) (Some p) =
      Some (DRV_SUCCESS, dm\<lparr>drv_dev_tbl := register_tbl (drv_dev_tbl dm) i (Some nm) (Some p),
        allocated_size_dev := register_size (allocated_size_dev dm) i\<rparr>)"
      using i len index_is_last [OF i(2)]
      by (simp add: ddev_register_dev_def register_tbl_def register_size_def Let_def)
    show "dm_wf (dm\<lparr>drv_dev_tbl := register_tbl (drv_dev_tbl dm) i (Some nm) (Some p),
        allocated_size_dev := register_size (allocated_size_dev dm) i\<rparr>)"
      using assms register_tbl_wf [OF wf] i(2) len by (simp add: dm_wf_def)
  qed (use i len in auto)
qed

lemma sddev_register_wf:
  assumes "dm_wf dm" "allocated_size_sdev dm \<le> 65531"
  obtains i where "i < length (drv_sdev_tbl dm)" "slot_free (drv_sdev_tbl dm ! i)"
    "\<forall>k<i. \<not> slot_free (drv_sdev_tbl dm ! k)"
    "sddev_register_dev True dm (Some nm) (Some p) =
      Some (DRV_SUCCESS, dm\<lparr>drv_sdev_tbl := register_tbl (drv_sdev_tbl dm) i (Some nm) (Some p),
        allocated_size_sdev := register_size (allocated_size_sdev dm) i\<rparr>)"
    "dm_wf (dm\<lparr>drv_sdev_tbl := register_tbl (drv_sdev_tbl dm) i (Some nm) (Some p),
        allocated_size_sdev := register_size (allocated_size_sdev dm) i\<rparr>)"
proof -
  have wf: "tbl_wf (drv_sdev_tbl dm) (allocated_size_sdev dm)" using assms(1) by (simp add: dm_wf_def)
  then have len: "length (drv_sdev_tbl dm) = unat (allocated_size_sdev dm)" by (simp add: tbl_wf_def)
  obtain i where i: "tbl_find (\<lambda>d. Some (slot_free d)) (drv_sdev_tbl dm) (unat (allocated_size_sdev dm)) 0
      = Some (Some i)" "i < unat (allocated_size_sdev dm)" "slot_free (drv_sdev_tbl dm ! i)"
      "\<forall>k<i. \<not> slot_free (drv_sdev_tbl dm ! k)"
    using first_free [OF wf] .
  show ?thesis
  proof (rule that [of i])
    show "sddev_register_dev True dm (Some nm) (Some p) =
      Some (DRV_SUCCESS, dm\<lparr>drv_sdev_tbl := register_tbl (drv_sdev_tbl dm) i (Some nm) (Some p),
        allocated_size_sdev := register_size (allocated_size_sdev dm) i\<rparr>)"
      using i len index_is_last [OF i(2)]
      by (simp add: sddev_register_dev_def register_tbl_def register_size_def Let_def)
    show "dm_wf (dm\<lparr>drv_sdev_tbl := register_tbl (drv_sdev_tbl dm) i (Some nm) (Some p),
        allocated_size_sdev := register_size (allocated_size_sdev dm) i\<rparr>)"
      using assms register_tbl_wf [OF wf] i(2) len by (simp add: dm_wf_def)
  qed (use i len in auto)
qed

section \<open>The contract of a driver registry\<close>

text \<open>
  What the start-up code relies on: as long as the table may grow, a registration takes a free
  slot, enters the name and the operations there and leaves every other slot alone.
\<close>

locale driver_registry =
  fixes wf :: "'m \<Rightarrow> bool"
    and entries :: "'m \<Rightarrow> 'o DRV_DEV_S list"
    and room :: "'m \<Rightarrow> nat"
    and register :: "string \<Rightarrow> 'o \<Rightarrow> 'm \<Rightarrow> 'm option"
  assumes register_ok: "wf m \<Longrightarrow> 0 < room m \<Longrightarrow> \<exists>m' i. register nm p m = Some m' \<and> wf m'
      \<and> room m \<le> Suc (room m') \<and> i < length (entries m) \<and> slot_free (entries m ! i)
      \<and> (\<forall>k<i. \<not> slot_free (entries m ! k)) \<and> length (entries m) \<le> length (entries m')
      \<and> (\<forall>j < length (entries m'). length (entries m) \<le> j \<longrightarrow> slot_free (entries m' ! j))
      \<and> drv_name (entries m' ! i) = Some nm \<and> drv_op (entries m' ! i) = Some p
      \<and> drv_state (entries m' ! i) = DD_STATE_CLOSED
      \<and> (\<forall>j < length (entries m). j \<noteq> i \<longrightarrow> entries m' ! j = entries m ! j)"
begin

fun register_all :: "(string \<times> 'o) list \<Rightarrow> 'm \<Rightarrow> 'm option" where
  "register_all [] m = Some m"
| "register_all ((nm, p) # ds) m = do { m' \<leftarrow> register nm p m; register_all ds m' }"

text \<open>The table holds exactly the drivers \<open>ds\<close>, in this order, in its first slots.\<close>

definition packed :: "(string \<times> 'o) list \<Rightarrow> 'm \<Rightarrow> bool" where
  "packed ds m \<longleftrightarrow> length ds \<le> length (entries m)
     \<and> (\<forall>i < length ds. drv_name (entries m ! i) = Some (fst (ds ! i)) \<and> drv_op (entries m ! i) = Some (snd (ds ! i)))
     \<and> (\<forall>i < length (entries m). length ds \<le> i \<longrightarrow> slot_free (entries m ! i))"

lemma register_packed:
  assumes "wf m" "0 < room m" "packed ds m"
  shows "\<exists>m'. register nm p m = Some m' \<and> wf m' \<and> room m \<le> Suc (room m') \<and> packed (ds @ [(nm, p)]) m'"
proof -
  obtain m' i where m': "register nm p m = Some m'" "wf m'" "room m \<le> Suc (room m')" "i < length (entries m)"
      "slot_free (entries m ! i)" "length (entries m) \<le> length (entries m')"
      "drv_name (entries m' ! i) = Some nm" "drv_op (entries m' ! i) = Some p"
      and first: "\<forall>k<i. \<not> slot_free (entries m ! k)"
      and new: "\<forall>j < length (entries m'). length (entries m) \<le> j \<longrightarrow> slot_free (entries m' ! j)"
      and same: "\<forall>j < length (entries m). j \<noteq> i \<longrightarrow> entries m' ! j = entries m ! j"
    using register_ok [OF assms(1,2), of nm p] by blast
  have "\<not> i < length ds" using assms(3) m'(5) by (auto simp: packed_def slot_free_def)
  moreover have "\<not> length ds < i" using first assms(3) m'(4) by (auto simp: packed_def)
  ultimately have i: "i = length ds" by simp
  have "slot_free (entries m' ! j)" if "j < length (entries m')" "Suc i \<le> j" for j
    using that new same assms(3) i by (cases "j < length (entries m)") (auto simp: packed_def)
  moreover have "drv_name (entries m' ! j) = Some (fst ((ds @ [(nm, p)]) ! j))
      \<and> drv_op (entries m' ! j) = Some (snd ((ds @ [(nm, p)]) ! j))" if "j < Suc i" for j
    using that m' same assms(3) i by (cases "j = i") (auto simp: packed_def nth_append)
  ultimately have "packed (ds @ [(nm, p)]) m'" using i m'(4,6) by (auto simp: packed_def)
  then show ?thesis using m' by blast
qed

lemma register_all_packed:
  "wf m \<Longrightarrow> packed ds0 m \<Longrightarrow> length ds \<le> room m \<Longrightarrow>
   \<exists>m'. register_all ds m = Some m' \<and> wf m' \<and> packed (ds0 @ ds) m'"
proof (induction ds arbitrary: m ds0)
  case Nil
  then show ?case by simp
next
  case (Cons d ds)
  obtain nm p where d: "d = (nm, p)" by (cases d)
  obtain m1 where m1: "register nm p m = Some m1" "wf m1" "room m \<le> Suc (room m1)" "packed (ds0 @ [(nm, p)]) m1"
    using register_packed [OF Cons.prems(1) _ Cons.prems(2), of nm p] Cons.prems(3) by fastforce
  then obtain m' where "register_all ds m1 = Some m'" "wf m'" "packed ((ds0 @ [(nm, p)]) @ ds) m'"
    using Cons.IH [OF m1(2,4)] Cons.prems(3) by auto
  then show ?case using m1 by (auto simp: d)
qed

end

definition ddev_register :: "string \<Rightarrow> ('s, 'p) DD_OPERATIONS \<Rightarrow> ('s, 'p) drv_model \<Rightarrow> ('s, 'p) drv_model option" where
  "ddev_register nm p dm = map_option snd (ddev_register_dev True dm (Some nm) (Some p))"

definition sddev_register :: "string \<Rightarrow> ('s, 'p) SDD_OPERATIONS \<Rightarrow> ('s, 'p) drv_model \<Rightarrow> ('s, 'p) drv_model option" where
  "sddev_register nm p dm = map_option snd (sddev_register_dev True dm (Some nm) (Some p))"

definition table_room :: "u32 \<Rightarrow> nat" where
  "table_room sz = (65536 - unat sz) div 5"

lemma table_room_pos: "0 < table_room sz \<Longrightarrow> sz \<le> 65531"
  by (auto simp: table_room_def word_le_nat_alt)

lemma table_room_step: "0 < table_room sz \<Longrightarrow> table_room sz \<le> Suc (table_room (register_size sz i))"
proof -
  assume "0 < table_room sz"
  then have "unat sz \<le> 65531" using table_room_pos by (simp add: word_le_nat_alt)
  then have "unat (sz + 5) = unat sz + 5" by (subst unat_add_no_wrap) auto
  then show ?thesis by (auto simp: table_room_def register_size_def DD_EXP_STEP_SIZE_def)
qed

interpretation ddr: driver_registry dm_wf drv_dev_tbl "\<lambda>dm. table_room (allocated_size_dev dm)" ddev_register
proof (unfold_locales, goal_cases)
  case (1 dm nm p)
  note room = table_room_pos [OF 1(2)] table_room_step [OF 1(2)]
  show ?case
    by (rule ddev_register_wf [OF 1(1) room(1), of nm p])
      (auto simp: ddev_register_def register_tbl_nth length_register_tbl register_tbl_new room(2))
qed

interpretation sdr: driver_registry dm_wf drv_sdev_tbl "\<lambda>dm. table_room (allocated_size_sdev dm)" sddev_register
proof (unfold_locales, goal_cases)
  case (1 dm nm p)
  note room = table_room_pos [OF 1(2)] table_room_step [OF 1(2)]
  show ?case
    by (rule sddev_register_wf [OF 1(1) room(1), of nm p])
      (auto simp: sddev_register_def register_tbl_nth length_register_tbl register_tbl_new room(2))
qed

section \<open>Opening and closing\<close>

lemma dev_index_bound:
  assumes "dm_wf dm" "i < length (drv_dev_tbl dm)"
  shows "i < 65536" "unat (of_nat i :: u32) = i" "of_nat i < allocated_size_dev dm"
proof -
  have "length (drv_dev_tbl dm) = unat (allocated_size_dev dm)" "unat (allocated_size_dev dm) \<le> 65536"
    using assms(1) by (auto simp: dm_wf_def tbl_wf_def word_le_nat_alt)
  then show "i < 65536" using assms(2) by simp
  then show n: "unat (of_nat i :: u32) = i" by (simp add: unat_of_nat_small)
  show "of_nat i < allocated_size_dev dm"
    using assms(2) n \<open>length (drv_dev_tbl dm) = _\<close> by (simp add: word_less_nat_alt)
qed

lemma handle_of_index:
  assumes "dm_wf dm" "i < length (drv_dev_tbl dm)"
  shows "ddev_get_id_from_handle (ddev_make_handle dm (of_nat i)) = of_nat i"
    and "ddev_check_handle dm (ddev_make_handle dm (of_nat i)) = DRV_SUCCESS"
    and "ddev_make_handle dm (of_nat i) \<noteq> DD_HANDLE_UNVALID"
    and "(of_nat i :: u32) \<noteq> DD_ID_UNVALID"
proof -
  note B = dev_index_bound [OF assms]
  have "unat (of_nat i :: u32) < 65536" using B by simp
  note M = high_mask_bits [OF this, of DD_HANDLE_MAGIC_WORD]
  have h: "ddev_make_handle dm (of_nat i) = of_nat i + DD_HANDLE_MAGIC_WORD"
    using B(3) by (simp add: ddev_make_handle_def not_le [symmetric])
  show "ddev_get_id_from_handle (ddev_make_handle dm (of_nat i)) = of_nat i"
    and "ddev_check_handle dm (ddev_make_handle dm (of_nat i)) = DRV_SUCCESS"
    using M B(3) unfolding h
    by (simp_all add: ddev_get_id_from_handle_def ddev_check_handle_def drv_consts)
  show "(of_nat i :: u32) \<noteq> DD_ID_UNVALID"
  proof
    assume "(of_nat i :: u32) = DD_ID_UNVALID"
    then show False using B(1,2) by (simp add: DD_ID_UNVALID_def unsigned_minus_1_eq_mask mask_eq_exp_minus_1)
  qed
  show "ddev_make_handle dm (of_nat i) \<noteq> DD_HANDLE_UNVALID"
  proof
    assume "ddev_make_handle dm (of_nat i) = DD_HANDLE_UNVALID"
    then have "unat (of_nat i + DD_HANDLE_MAGIC_WORD) = unat (- 1 :: u32)"
      unfolding h by (simp only: DD_HANDLE_UNVALID_def)
    moreover have "unat (of_nat i + DD_HANDLE_MAGIC_WORD) = i + 0xA5A50000"
      using B(1,2) by (subst unat_add_no_wrap) (auto simp: DD_HANDLE_MAGIC_WORD_def)
    ultimately show False using B(1) by (simp add: unsigned_minus_1_eq_mask mask_eq_exp_minus_1)
  qed
qed

text \<open>The device a name selects: the first table entry whose name begins with it.\<close>

definition selects :: "('s, 'p) drv_model \<Rightarrow> string \<Rightarrow> nat \<Rightarrow> bool" where
  "selects dm nm i \<longleftrightarrow> length nm \<le> 16
     \<and> tbl_find (name_matches nm) (drv_dev_tbl dm) (unat (allocated_size_dev dm)) 0 = Some (Some i)"

definition dev_open_op :: "u32 \<Rightarrow> ('s, 'p) DD_OPERATIONS option \<Rightarrow> 's \<Rightarrow> u32 \<times> 's" where
  "dev_open_op flag p w = (case Option.bind p dd_open of Some f \<Rightarrow> f flag w | None \<Rightarrow> (DRV_FAILURE, w))"

definition dev_close_op :: "('s, 'p) DD_OPERATIONS option \<Rightarrow> 's \<Rightarrow> 's" where
  "dev_close_op p w = (case Option.bind p dd_close of Some f \<Rightarrow> snd (f w) | None \<Rightarrow> w)"

definition set_dev :: "('s, 'p) drv_model \<Rightarrow> nat \<Rightarrow> DD_STATE \<Rightarrow> u32 \<Rightarrow> 's \<Rightarrow> ('s, 'p) drv_model" where
  "set_dev dm i st n w =
     dm\<lparr>drv_dev_tbl := (drv_dev_tbl dm)[i := (drv_dev_tbl dm ! i)\<lparr>drv_state := st, drv_use_cnt := n\<rparr>], world := w\<rparr>"

lemma selects_bound: "dm_wf dm \<Longrightarrow> selects dm nm i \<Longrightarrow> i < length (drv_dev_tbl dm)"
  by (auto simp: selects_def tbl_find_Some)

lemma name_len_ok: "length nm \<le> 16 \<Longrightarrow> \<not> of_nat (length nm) > DD_MAX_NAME_LEN"
  by (simp add: DD_MAX_NAME_LEN_def word_less_nat_alt unat_of_nat_small)

lemma dev_upd_swap: "d\<lparr>drv_use_cnt := n, drv_state := s\<rparr> = d\<lparr>drv_state := s, drv_use_cnt := n\<rparr>"
  by (cases d) simp

lemma dev_upd_same: "drv_state d = s \<Longrightarrow> d\<lparr>drv_state := s, drv_use_cnt := n\<rparr> = d\<lparr>drv_use_cnt := n\<rparr>"
  by (cases d) simp

lemma ddev_open_closed:
  assumes "dm_wf dm" "selects dm nm i" "drv_state (drv_dev_tbl dm ! i) = DD_STATE_CLOSED"
  shows "ddev_open dm (Some nm) (Some s0) flag =
    (let (st, w) = dev_open_op flag (drv_op (drv_dev_tbl dm ! i)) (world dm) in
     Some (ddev_make_handle dm (of_nat i), Some st, set_dev dm i DD_STATE_OPENED 1 w))"
  using assms(2,3) name_len_ok handle_of_index(3) [OF assms(1) selects_bound [OF assms(1,2)]]
  by (auto simp: ddev_open_def selects_def set_dev_def dev_open_op_def Let_def split: prod.splits option.splits)

lemma ddev_open_opened:
  assumes "dm_wf dm" "selects dm nm i" "drv_state (drv_dev_tbl dm ! i) = DD_STATE_OPENED"
  shows "ddev_open dm (Some nm) (Some s0) flag =
    Some (ddev_make_handle dm (of_nat i), Some DRV_FAILURE,
      set_dev dm i DD_STATE_OPENED (drv_use_cnt (drv_dev_tbl dm ! i) + 1) (world dm))"
  using assms(2,3) name_len_ok [of nm] handle_of_index(3) [OF assms(1) selects_bound [OF assms(1,2)]]
  by (simp add: ddev_open_def selects_def set_dev_def Let_def dev_upd_same)

lemma ddev_close_index:
  assumes "dm_wf dm" "i < length (drv_dev_tbl dm)" "drv_state (drv_dev_tbl dm ! i) = DD_STATE_OPENED"
  shows "ddev_close dm (ddev_make_handle dm (of_nat i)) =
    Some (DRV_SUCCESS,
      if drv_use_cnt (drv_dev_tbl dm ! i) = 1
      then set_dev dm i DD_STATE_CLOSED 0 (dev_close_op (drv_op (drv_dev_tbl dm ! i)) (world dm))
      else set_dev dm i DD_STATE_OPENED (drv_use_cnt (drv_dev_tbl dm ! i) - 1) (world dm))"
  using assms(2,3) handle_of_index(1,4) [OF assms(1,2)] dev_index_bound(2) [OF assms(1,2)]
  by (auto simp: ddev_close_def set_dev_def dev_close_op_def Let_def dev_upd_swap dev_upd_same)

lemma set_dev_wf:
  assumes "dm_wf dm" "i < length (drv_dev_tbl dm)" "i \<noteq> length (drv_dev_tbl dm) - 1"
    "drv_name (drv_dev_tbl dm ! i) \<noteq> None" "drv_op (drv_dev_tbl dm ! i) \<noteq> None"
    "st = DD_STATE_CLOSED \<or> st = DD_STATE_OPENED \<and> n \<noteq> 0"
  shows "dm_wf (set_dev dm i st n w)"
proof -
  have "slot_ok ((drv_dev_tbl dm ! i)\<lparr>drv_state := st, drv_use_cnt := n\<rparr>)"
    using assms(4-6) by (auto simp: slot_ok_def)
  then show ?thesis using assms(1-3) tbl_wf_update by (auto simp: dm_wf_def set_dev_def)
qed

lemma dm_wf_opened:
  assumes "dm_wf dm" "i < length (drv_dev_tbl dm)"
    "drv_state (drv_dev_tbl dm ! i) = DD_STATE_OPENED \<or> drv_state (drv_dev_tbl dm ! i) = DD_STATE_CLOSED"
  shows "i \<noteq> length (drv_dev_tbl dm) - 1" "drv_name (drv_dev_tbl dm ! i) \<noteq> None"
    "drv_op (drv_dev_tbl dm ! i) \<noteq> None"
    "drv_state (drv_dev_tbl dm ! i) = DD_STATE_OPENED \<Longrightarrow> drv_use_cnt (drv_dev_tbl dm ! i) \<noteq> 0"
proof -
  have "slot_ok (drv_dev_tbl dm ! i)" and f: "slot_free (drv_dev_tbl dm ! (length (drv_dev_tbl dm) - 1))"
    using assms(1,2) by (auto simp: dm_wf_def tbl_wf_def list_all_length)
  then show "drv_name (drv_dev_tbl dm ! i) \<noteq> None" "drv_op (drv_dev_tbl dm ! i) \<noteq> None"
    "drv_state (drv_dev_tbl dm ! i) = DD_STATE_OPENED \<Longrightarrow> drv_use_cnt (drv_dev_tbl dm ! i) \<noteq> 0"
    using assms(3) by (auto simp: slot_ok_def)
  show "i \<noteq> length (drv_dev_tbl dm) - 1"
    using f assms(3) by (auto simp: slot_free_def)
qed

lemma set_dev_simps [simp]:
  "i < length (drv_dev_tbl dm) \<Longrightarrow> drv_dev_tbl (set_dev dm i st n w) ! i
     = (drv_dev_tbl dm ! i)\<lparr>drv_state := st, drv_use_cnt := n\<rparr>"
  "length (drv_dev_tbl (set_dev dm i st n w)) = length (drv_dev_tbl dm)"
  "world (set_dev dm i st n w) = w"
  "i < length (drv_dev_tbl dm) \<Longrightarrow> set_dev (set_dev dm i st n w) i st' n' w' = set_dev dm i st' n' w'"
  "ddev_make_handle (set_dev dm i st n w) x = ddev_make_handle dm x"
  by (simp_all add: set_dev_def ddev_make_handle_def)

lemma selects_set_dev [simp]: "i < length (drv_dev_tbl dm) \<Longrightarrow> selects (set_dev dm i st n w) nm j = selects dm nm j"
proof -
  assume "i < length (drv_dev_tbl dm)"
  then have "drv_name (drv_dev_tbl (set_dev dm i st n w) ! k) = drv_name (drv_dev_tbl dm ! k)" for k
    by (cases "k = i") (auto simp: set_dev_def)
  then show ?thesis
    by (simp add: selects_def tbl_find_Some name_matches_def) (simp add: set_dev_def)
qed

text \<open>A client that opens a device \<open>n\<close> times, and one that closes a handle \<open>n\<close> times.\<close>

fun ddev_opens :: "nat \<Rightarrow> string \<Rightarrow> u32 \<Rightarrow> ('s, 'p) drv_model \<Rightarrow> ('s, 'p) drv_model option" where
  "ddev_opens 0 nm flag dm = Some dm"
| "ddev_opens (Suc n) nm flag dm =
     do { (h, st, dm1) \<leftarrow> ddev_open dm (Some nm) (Some 0) flag; ddev_opens n nm flag dm1 }"

fun ddev_closes :: "nat \<Rightarrow> u32 \<Rightarrow> ('s, 'p) drv_model \<Rightarrow> ('s, 'p) drv_model option" where
  "ddev_closes 0 h dm = Some dm"
| "ddev_closes (Suc n) h dm = do { (r, dm1) \<leftarrow> ddev_close dm h; ddev_closes n h dm1 }"

lemma ddev_opens_opened:
  "dm_wf dm \<Longrightarrow> selects dm nm i \<Longrightarrow> drv_state (drv_dev_tbl dm ! i) = DD_STATE_OPENED \<Longrightarrow>
   unat (drv_use_cnt (drv_dev_tbl dm ! i)) + n < 4294967296 \<Longrightarrow>
   ddev_opens n nm flag dm =
     Some (set_dev dm i DD_STATE_OPENED (drv_use_cnt (drv_dev_tbl dm ! i) + of_nat n) (world dm))"
proof (induction n arbitrary: dm)
  case 0
  then show ?case by (simp add: set_dev_def dev_upd_same)
next
  case (Suc n)
  let ?c = "drv_use_cnt (drv_dev_tbl dm ! i)"
  let ?dm = "set_dev dm i DD_STATE_OPENED (?c + 1) (world dm)"
  note b = selects_bound [OF Suc.prems(1,2)]
  have c: "unat (?c + 1) = unat ?c + 1" using Suc.prems(4) by (subst unat_add_no_wrap) auto
  then have "?c + 1 \<noteq> 0" by (metis add_is_0 one_neq_zero unat_eq_0)
  then have wf: "dm_wf ?dm"
    using set_dev_wf [OF Suc.prems(1) b] dm_wf_opened [OF Suc.prems(1) b] Suc.prems(3) by simp
  have "ddev_opens n nm flag ?dm = Some (set_dev ?dm i DD_STATE_OPENED (?c + 1 + of_nat n) (world dm))"
    using Suc.IH [OF wf] Suc.prems b c by simp
  then show ?case
    using ddev_open_opened [OF Suc.prems(1,2,3)] b by (simp add: algebra_simps)
qed

lemma ddev_closes_opened:
  "dm_wf dm \<Longrightarrow> i < length (drv_dev_tbl dm) \<Longrightarrow> drv_state (drv_dev_tbl dm ! i) = DD_STATE_OPENED \<Longrightarrow>
   drv_use_cnt (drv_dev_tbl dm ! i) = of_nat (Suc n) \<Longrightarrow> Suc n < 4294967296 \<Longrightarrow>
   ddev_closes (Suc n) (ddev_make_handle dm (of_nat i)) dm =
     Some (set_dev dm i DD_STATE_CLOSED 0 (dev_close_op (drv_op (drv_dev_tbl dm ! i)) (world dm)))"
proof (induction n arbitrary: dm)
  case 0
  then show ?case using ddev_close_index [OF 0(1-3)] by simp
next
  case (Suc n)
  let ?c = "drv_use_cnt (drv_dev_tbl dm ! i)"
  let ?dm = "set_dev dm i DD_STATE_OPENED (of_nat (Suc n)) (world dm)"
  have n: "unat (of_nat (Suc n) :: u32) = Suc n" using Suc.prems(5) by (intro unat_of_nat_small) simp
  have c: "unat ?c = Suc (Suc n)" unfolding Suc.prems(4) using Suc.prems(5) by (intro unat_of_nat_small) simp
  have "?c \<noteq> 1" using c by auto
  moreover have "?c - 1 = of_nat (Suc n)" using Suc.prems(4) by simp
  ultimately have step: "ddev_close dm (ddev_make_handle dm (of_nat i)) = Some (DRV_SUCCESS, ?dm)"
    using ddev_close_index [OF Suc.prems(1-3)] by simp
  have "(of_nat (Suc n) :: u32) \<noteq> 0" using n by (metis nat.distinct(1) unat_0)
  then have wf: "dm_wf ?dm"
    using set_dev_wf [OF Suc.prems(1,2)] dm_wf_opened [OF Suc.prems(1,2)] Suc.prems(3) by simp
  have "ddev_closes (Suc n) (ddev_make_handle ?dm (of_nat i)) ?dm =
      Some (set_dev ?dm i DD_STATE_CLOSED 0 (dev_close_op (drv_op (drv_dev_tbl ?dm ! i)) (world ?dm)))"
    by (rule Suc.IH [OF wf]) (use Suc.prems in auto)
  then show ?case using step Suc.prems(2) by simp
qed

text \<open>The closes before the last one only count.\<close>

lemma ddev_closes_counted:
  "dm_wf dm \<Longrightarrow> i < length (drv_dev_tbl dm) \<Longrightarrow> drv_state (drv_dev_tbl dm ! i) = DD_STATE_OPENED \<Longrightarrow>
   drv_use_cnt (drv_dev_tbl dm ! i) = of_nat (Suc n) \<Longrightarrow> Suc n < 4294967296 \<Longrightarrow> k \<le> n \<Longrightarrow>
   ddev_closes k (ddev_make_handle dm (of_nat i)) dm = Some (set_dev dm i DD_STATE_OPENED (of_nat (Suc n - k)) (world dm))"
proof (induction k arbitrary: dm n)
  case 0
  have "set_dev dm i DD_STATE_OPENED (drv_use_cnt (drv_dev_tbl dm ! i)) (world dm) = dm"
    using 0(2,3) by (simp add: set_dev_def dev_upd_same)
  then show ?case unfolding 0(4) by (simp only: ddev_closes.simps diff_zero)
next
  case (Suc k)
  obtain m where m: "n = Suc m" "k \<le> m" using Suc.prems(6) by (cases n) auto
  let ?dm = "set_dev dm i DD_STATE_OPENED (of_nat (Suc m)) (world dm)"
  have c: "unat (drv_use_cnt (drv_dev_tbl dm ! i)) = Suc (Suc m)"
    unfolding Suc.prems(4) m(1) using Suc.prems(5) m(1) by (intro unat_of_nat_small) simp
  then have "drv_use_cnt (drv_dev_tbl dm ! i) \<noteq> 1" by auto
  moreover have "drv_use_cnt (drv_dev_tbl dm ! i) - 1 = of_nat (Suc m)" using Suc.prems(4) m(1) by simp
  ultimately have step: "ddev_close dm (ddev_make_handle dm (of_nat i)) = Some (DRV_SUCCESS, ?dm)"
    using ddev_close_index [OF Suc.prems(1-3)] by simp
  have "unat (of_nat (Suc m) :: u32) = Suc m" using Suc.prems(5) m(1) by (intro unat_of_nat_small) simp
  then have "(of_nat (Suc m) :: u32) \<noteq> 0" by (metis nat.distinct(1) unat_0)
  then have wf: "dm_wf ?dm"
    using set_dev_wf [OF Suc.prems(1,2)] dm_wf_opened [OF Suc.prems(1,2)] Suc.prems(3) by simp
  have "ddev_closes k (ddev_make_handle ?dm (of_nat i)) ?dm = Some (set_dev ?dm i DD_STATE_OPENED (of_nat (Suc m - k)) (world ?dm))"
    by (rule Suc.IH [OF wf]) (use Suc.prems m in auto)
  then show ?case using step Suc.prems(2) m(1) by simp
qed

section \<open>Reachable states\<close>

text \<open>
  The calls of a well-behaved client: it closes only a handle that \<open>ddev_open\<close> returned and that
  is still open, does not open a device \<open>2^32\<close> times, and lets a table grow to 65536 entries at
  most (the handle has 16 bits for the index). Any other call may happen at any time, with any
  argument, in any order.
\<close>

inductive drv_step :: "('s, 'p) drv_model \<Rightarrow> ('s, 'p) drv_model \<Rightarrow> bool" where
  open_dev: "ddev_open dm nm st flag = Some (h, st', dm')
     \<Longrightarrow> list_all (\<lambda>d. drv_use_cnt d \<noteq> - 1) (drv_dev_tbl dm) \<Longrightarrow> drv_step dm dm'"
| close_dev: "ddev_close dm (ddev_make_handle dm (of_nat i)) = Some (r, dm')
     \<Longrightarrow> i < length (drv_dev_tbl dm) \<Longrightarrow> drv_state (drv_dev_tbl dm ! i) = DD_STATE_OPENED \<Longrightarrow> drv_step dm dm'"
| read_dev: "ddev_read dm h buf n flag = Some (r, dm') \<Longrightarrow> drv_step dm dm'"
| write_dev: "ddev_write dm h buf n flag = Some (r, dm') \<Longrightarrow> drv_step dm dm'"
| control_dev: "ddev_control dm h cmd param = Some (r, dm') \<Longrightarrow> drv_step dm dm'"
| control_sdev: "sddev_control dm nm cmd param = Some (r, dm') \<Longrightarrow> drv_step dm dm'"
| register_dev: "ddev_register_dev ok dm nm p = Some (r, dm') \<Longrightarrow> allocated_size_dev dm \<le> 65531 \<Longrightarrow> drv_step dm dm'"
| register_sdev: "sddev_register_dev ok dm nm sp = Some (r, dm') \<Longrightarrow> allocated_size_sdev dm \<le> 65531 \<Longrightarrow> drv_step dm dm'"
| unregister_dev: "ddev_unregister_dev dm nm = Some (r, dm') \<Longrightarrow> drv_step dm dm'"
| unregister_sdev: "sddev_unregister_dev dm nm = Some (r, dm') \<Longrightarrow> drv_step dm dm'"

inductive drv_reach :: "'s \<Rightarrow> ('s, 'p) drv_model \<Rightarrow> bool" where
  start: "drv_model_init True True dm0 = Some (r, dm) \<Longrightarrow> drv_reach (world dm0) dm"
| step: "drv_reach w dm \<Longrightarrow> drv_step dm dm' \<Longrightarrow> drv_reach w dm'"

lemma dm_wf_init: "drv_model_init a b dm = Some (r, dm') \<Longrightarrow> dm_wf dm'"
  by (auto simp: drv_model_init_def dm_wf_def tbl_wf_def drv_consts list_all_length split: if_splits)

lemma dm_wf_world [simp]: "dm_wf (dm\<lparr>world := w\<rparr>) = dm_wf dm"
  by (simp add: dm_wf_def)

lemma dm_wf_open:
  assumes "dm_wf dm" "ddev_open dm nm st flag = Some (h, st', dm')"
    "list_all (\<lambda>d. drv_use_cnt d \<noteq> - 1) (drv_dev_tbl dm)"
  shows "dm_wf dm'"
proof (cases "dm' = dm")
  case True
  then show ?thesis using assms(1) by simp
next
  case False
  then obtain n s0 i where nm: "nm = Some n" "st = Some s0" "\<not> of_nat (length n) > DD_MAX_NAME_LEN"
    and f: "tbl_find (name_matches n) (drv_dev_tbl dm) (unat (allocated_size_dev dm)) 0 = Some (Some i)"
    using assms(2) by (auto simp: ddev_open_def split: option.splits if_splits Option.bind_splits)
  have b: "i < length (drv_dev_tbl dm)" using f by (simp add: tbl_find_Some)
  let ?d = "drv_dev_tbl dm ! i"
  have s: "drv_state ?d = DD_STATE_OPENED \<or> drv_state ?d = DD_STATE_CLOSED"
    using assms(2) nm f by (auto simp: ddev_open_def Let_def split: if_splits)
  have c: "drv_use_cnt ?d + 1 \<noteq> 0"
    using assms(3) b by (auto simp: list_all_length eq_neg_iff_add_eq_0)
  note o = dm_wf_opened [OF assms(1) b s]
  have "dm' = set_dev dm i DD_STATE_OPENED (drv_use_cnt ?d + 1) (world dm)
     \<or> dm' = set_dev dm i DD_STATE_OPENED 1 (snd (dev_open_op flag (drv_op ?d) (world dm)))"
    using assms(2) nm f s
    by (auto simp: ddev_open_def Let_def set_dev_def dev_upd_same dev_open_op_def
        split: if_split_asm prod.split_asm)
  then show ?thesis using set_dev_wf [OF assms(1) b o(1,2,3)] c by auto
qed

lemma dm_wf_close:
  assumes "dm_wf dm" "ddev_close dm (ddev_make_handle dm (of_nat i)) = Some (r, dm')"
    "i < length (drv_dev_tbl dm)" "drv_state (drv_dev_tbl dm ! i) = DD_STATE_OPENED"
  shows "dm_wf dm'"
proof -
  note o = dm_wf_opened [OF assms(1,3)]
  note w = set_dev_wf [OF assms(1,3) o(1,2,3)]
  show ?thesis
    using ddev_close_index [OF assms(1,3,4)] assms(2,4) w by (auto split: if_splits)
qed

lemma dm_wf_register:
  assumes "dm_wf dm" "ddev_register_dev ok dm nm p = Some (r, dm')" "allocated_size_dev dm \<le> 65531"
  shows "dm_wf dm'"
proof (cases "nm = None \<or> p = None")
  case True
  then show ?thesis using assms by (auto simp: ddev_register_dev_def)
next
  case False
  then obtain n q where nq: "nm = Some n" "p = Some q" by auto
  have "ddev_register_dev True dm nm p = Some (r, dm')"
    using assms(2)
    by (auto simp: ddev_register_dev_def Let_def split: if_split_asm option.split_asm Option.bind_split_asm)
  then show ?thesis using ddev_register_wf [OF assms(1,3), of n q] nq by force
qed

lemma dm_wf_sregister:
  assumes "dm_wf dm" "sddev_register_dev ok dm nm p = Some (r, dm')" "allocated_size_sdev dm \<le> 65531"
  shows "dm_wf dm'"
proof (cases "nm = None \<or> p = None")
  case True
  then show ?thesis using assms by (auto simp: sddev_register_dev_def)
next
  case False
  then obtain n q where nq: "nm = Some n" "p = Some q" by auto
  have "sddev_register_dev True dm nm p = Some (r, dm')"
    using assms(2)
    by (auto simp: sddev_register_dev_def Let_def split: if_split_asm option.split_asm Option.bind_split_asm)
  then show ?thesis using sddev_register_wf [OF assms(1,3), of n q] nq by force
qed

lemma tbl_wf_clear:
  assumes "tbl_wf tbl sz" "i < length tbl"
  shows "tbl_wf (tbl[i := (tbl ! i)\<lparr>drv_name := None, drv_op := None, drv_state := DD_STATE_NODEVICE\<rparr>]) sz"
  by (rule tbl_wf_update [OF assms]) (simp_all add: slot_ok_def slot_free_def)

lemma dm_wf_unregister:
  "dm_wf dm \<Longrightarrow> ddev_unregister_dev dm nm = Some (r, dm') \<Longrightarrow> dm_wf dm'"
  "dm_wf dm \<Longrightarrow> sddev_unregister_dev dm nm = Some (r, dm') \<Longrightarrow> dm_wf dm'"
  by (auto simp: ddev_unregister_dev_def sddev_unregister_dev_def dm_wf_def tbl_find_Some
      intro!: tbl_wf_clear split: option.splits if_splits Option.bind_splits)

lemma dm_wf_step: "drv_step dm dm' \<Longrightarrow> dm_wf dm \<Longrightarrow> dm_wf dm'"
proof (induction rule: drv_step.induct)
  case (control_sdev dm nm cmd param r dm')
  then show ?case
    by (auto simp: sddev_control_def Let_def split: option.splits Option.bind_splits prod.splits)
qed (auto intro: dm_wf_open dm_wf_close dm_wf_register dm_wf_sregister dm_wf_unregister
    simp: ddev_read_def ddev_write_def ddev_control_def Let_def split: if_splits option.splits prod.splits)

lemma dm_wf_reach: "drv_reach w dm \<Longrightarrow> dm_wf dm"
  by (induction rule: drv_reach.induct) (auto intro: dm_wf_init dm_wf_step)

section \<open>Properties\<close>

text \<open>Registration of a list of drivers, in order, as the start-up code does it.\<close>

fun sddev_register_list :: "(string \<times> ('s, 'p) SDD_OPERATIONS) list \<Rightarrow> ('s, 'p) drv_model \<Rightarrow> ('s, 'p) drv_model option" where
  "sddev_register_list [] dm = Some dm"
| "sddev_register_list ((nm, p) # ds) dm = do {
     (r, dm1) \<leftarrow> sddev_register_dev True dm (Some nm) (Some p);
     sddev_register_list ds dm1 }"

lemma sddev_register_list_all: "sddev_register_list ds dm = sdr.register_all ds dm"
proof (induction ds arbitrary: dm)
  case (Cons d ds)
  obtain nm p where d: "d = (nm, p)" by (cases d)
  have "sddev_register nm p dm = map_option snd (sddev_register_dev True dm (Some nm) (Some p))"
    by (simp add: sddev_register_def)
  then show ?case
    by (cases "sddev_register_dev True dm (Some nm) (Some p)") (auto simp: d Cons.IH)
qed simp

text \<open>
  (C9) Every table state that well-behaved clients can reach from \<open>drv_model_init\<close>, with any
  sequence of open, close, read, write, control, register and unregister calls, is well formed:
  the tables have the allocated sizes, every slot is free, closed with a name and operations, or
  open with a positive use count, and the last slot of each table is free, so that a registration
  always finds a slot.
\<close>

theorem drv_tables_well_formed:
  assumes "drv_reach w dm"
  shows "dm_wf dm"
  using assms by (rule dm_wf_reach)

definition dm_example :: "(nat, nat) drv_model" where
  "dm_example = \<lparr>allocated_size_sdev = 0, allocated_size_dev = 0, drv_sdev_tbl = [], drv_dev_tbl = [], world = 0\<rparr>"

theorem drv_tables_well_formed_witness:
  "\<exists>dm dm1 dm2. drv_model_init True True dm_example = Some (0, dm)
    \<and> ddev_register_dev True dm (Some ''uart1'') (Some \<lparr>dd_open = None, dd_close = None, dd_read = None, dd_write = None, dd_control = None\<rparr>) = Some (DRV_SUCCESS, dm1)
    \<and> sddev_register_dev True dm1 (Some ''gdma'') (Some \<lparr>sdd_control = None\<rparr>) = Some (DRV_SUCCESS, dm2) \<and> dm_wf dm2"
proof -
  obtain dm where i: "drv_model_init True True dm_example = Some (0, dm)"
    by (simp add: drv_model_init_def DRV_SUCCESS_def)
  note r0 = drv_reach.start [OF i]
  have z: "allocated_size_dev dm \<le> 65531" "allocated_size_sdev dm \<le> 65531"
    using i by (auto simp: drv_model_init_def drv_consts)
  let ?p = "\<lparr>dd_open = None, dd_close = None, dd_read = None, dd_write = None, dd_control = None\<rparr> :: (nat, nat) DD_OPERATIONS"
  obtain dm1 where d1: "ddev_register_dev True dm (Some ''uart1'') (Some ?p) = Some (DRV_SUCCESS, dm1)"
    "dm_wf dm1" "allocated_size_sdev dm1 \<le> 65531"
    by (rule ddev_register_wf [OF dm_wf_init [OF i] z(1), of "''uart1''" ?p]) (use z(2) in auto)
  note r1 = drv_reach.step [OF r0 drv_step.register_dev [OF d1(1) z(1)]]
  obtain dm2 where d2: "sddev_register_dev True dm1 (Some ''gdma'') (Some \<lparr>sdd_control = None\<rparr>) = Some (DRV_SUCCESS, dm2)"
    by (rule sddev_register_wf [OF d1(2,3), of "''gdma''" "\<lparr>sdd_control = None\<rparr>"]) auto
  note r2 = drv_reach.step [OF r1 drv_step.register_sdev [OF d2 d1(3)]]
  show ?thesis
    using i d1(1) d2 drv_tables_well_formed [OF r2] by blast
qed

text \<open>
  (C22) After any number (up to 13105) of simple drivers has been registered on a fresh model, in
  any order, with names of which none is a prefix of an earlier one, \<open>sddev_control\<close> with a
  driver's name runs exactly this driver's control function with the given command and parameter
  on the current world and returns its status.
\<close>

theorem sddev_control_dispatch:
  assumes "drv_model_init True True dm0 = Some (r, dm)"
    and "length ds \<le> 13105"
    and "\<forall>i j. i < j \<and> j < length ds \<longrightarrow> take (length (fst (ds ! j))) (fst (ds ! i)) \<noteq> fst (ds ! j)"
    and "j < length ds" and "sdd_control (snd (ds ! j)) = Some f"
  shows "\<exists>dm'. sddev_register_list ds dm = Some dm' \<and> world dm' = world dm
    \<and> sddev_control dm' (Some (fst (ds ! j))) cmd param
       = Some (fst (f cmd param (world dm)), dm'\<lparr>world := snd (f cmd param (world dm))\<rparr>)"
proof -
  have wf: "dm_wf dm" using dm_wf_init [OF assms(1)] .
  have "sdr.packed [] dm" and room: "table_room (allocated_size_sdev dm) = 13105"
    using assms(1) by (auto simp: drv_model_init_def sdr.packed_def table_room_def drv_consts split: if_splits)
  then obtain dm' where reg: "sddev_register_list ds dm = Some dm'" "dm_wf dm'" "sdr.packed ds dm'"
    using sdr.register_all_packed [OF wf, of "[]" ds] assms(2) by (auto simp: sddev_register_list_all)
  have world: "world dm' = world dm"
    using reg(1)
  proof (induction ds arbitrary: dm)
    case (Cons d ds)
    then show ?case
      by (cases d) (auto simp: sddev_register_dev_def Let_def
          split: if_split_asm option.split_asm Option.bind_split_asm)
  qed simp
  let ?nm = "fst (ds ! j)" and ?t = "drv_sdev_tbl dm'"
  have P: "drv_name (?t ! i) = Some (fst (ds ! i))" "drv_op (?t ! i) = Some (snd (ds ! i))" if "i < length ds" for i
    using reg(3) that by (auto simp: sdr.packed_def)
  have len: "j < length ?t" "length ?t = unat (allocated_size_sdev dm')"
    using reg(2,3) assms(4) by (auto simp: sdr.packed_def dm_wf_def tbl_wf_def)
  have "tbl_find (name_matches ?nm) ?t (unat (allocated_size_sdev dm')) 0 = Some (Some j)"
  proof (rule tbl_find_at)
    show "name_matches ?nm (?t ! j) = Some True"
      using P [OF assms(4)] by (simp add: name_matches_def strncmp_eq_def)
    show "name_matches ?nm (?t ! k) = Some False" if "k < j" for k
      using P [of k] that assms(3,4) by (simp add: name_matches_def strncmp_eq_def)
  qed (use len in auto)
  then show ?thesis
    using reg(1) world assms(5) P(2) [OF assms(4)] by (auto simp: sddev_control_def split: prod.splits)
qed

theorem sddev_control_dispatch_witness:
  "\<exists>dm dm'. drv_model_init True True dm_example = Some (0, dm)
    \<and> sddev_register_list [(''uart'', \<lparr>sdd_control = None\<rparr>),
        (''gdma'', \<lparr>sdd_control = Some (\<lambda>cmd p w. (cmd, w + p))\<rparr>)] dm = Some dm'
    \<and> sddev_control dm' (Some ''gdma'') 7 5 = Some (7, dm'\<lparr>world := 5\<rparr>)"
proof -
  obtain dm where i: "drv_model_init True True dm_example = Some (0, dm)" "world dm = 0"
    by (simp add: drv_model_init_def DRV_SUCCESS_def dm_example_def)
  let ?ds = "[(''uart'', \<lparr>sdd_control = None\<rparr>), (''gdma'', \<lparr>sdd_control = Some (\<lambda>cmd p w. (cmd, w + p))\<rparr>)]
    :: (string \<times> (nat, nat) SDD_OPERATIONS) list"
  have "i < j \<and> j < length ?ds \<longrightarrow> take (length (fst (?ds ! j))) (fst (?ds ! i)) \<noteq> fst (?ds ! j)" for i j
    by (cases j; cases i) auto
  then show ?thesis
    using sddev_control_dispatch [OF i(1), of ?ds 1 "\<lambda>cmd p w. (cmd, w + p)" 7 5] i by auto
qed

text \<open>
  (C23) The use count of a device. After any number \<open>k\<close> of opens of a closed device, up to \<open>n\<close>, its open operation
  has run exactly once and the count is \<open>k\<close>. After \<open>n\<close> opens, as long as fewer than \<open>n\<close> closes have come, the device
  is open, the count has gone down by their number and the close operation has not run; the \<open>n\<close>-th close runs it
  and marks the device closed. No other entry of the table changes.
\<close>

theorem ddev_open_close_counted:
  assumes "dm_wf dm" and "selects dm nm i" and "drv_state (drv_dev_tbl dm ! i) = DD_STATE_CLOSED"
    and "Suc n < 4294967296"
  shows "\<exists>w1 dm1 dm2. w1 = snd (dev_open_op flag (drv_op (drv_dev_tbl dm ! i)) (world dm))
    \<and> (\<forall>k \<le> n. ddev_opens (Suc k) nm flag dm = Some (set_dev dm i DD_STATE_OPENED (of_nat (Suc k)) w1))
    \<and> ddev_opens (Suc n) nm flag dm = Some dm1
    \<and> (\<forall>k \<le> n. ddev_closes k (ddev_make_handle dm (of_nat i)) dm1
        = Some (set_dev dm i DD_STATE_OPENED (of_nat (Suc n - k)) w1))
    \<and> ddev_closes (Suc n) (ddev_make_handle dm (of_nat i)) dm1 = Some dm2
    \<and> dm2 = set_dev dm i DD_STATE_CLOSED 0 (dev_close_op (drv_op (drv_dev_tbl dm ! i)) w1)"
proof -
  let ?w = "snd (dev_open_op flag (drv_op (drv_dev_tbl dm ! i)) (world dm))"
  let ?d1 = "set_dev dm i DD_STATE_OPENED 1 ?w" and ?dn = "set_dev dm i DD_STATE_OPENED (of_nat (Suc n)) ?w"
  note b = selects_bound [OF assms(1,2)]
  note o = dm_wf_opened [OF assms(1) b] set_dev_wf [OF assms(1) b]
  have wf1: "dm_wf ?d1" using o assms(3) by simp
  have "unat (of_nat (Suc n) :: u32) = Suc n" using assms(4) by (intro unat_of_nat_small) simp
  then have "(of_nat (Suc n) :: u32) \<noteq> 0" by (metis nat.distinct(1) unat_0)
  then have wfn: "dm_wf ?dn" using o assms(3) by simp
  have op: "ddev_opens (Suc k) nm flag dm = Some (set_dev dm i DD_STATE_OPENED (of_nat (Suc k)) ?w)" if "k \<le> n" for k
  proof -
    have "ddev_opens (Suc k) nm flag dm = ddev_opens k nm flag ?d1"
      using ddev_open_closed [OF assms(1,2,3)] by (simp add: Let_def split: prod.splits)
    also have "\<dots> = Some (set_dev dm i DD_STATE_OPENED (of_nat (Suc k)) ?w)"
      using ddev_opens_opened [OF wf1] assms(2,4) b that by simp
    finally show ?thesis .
  qed
  have cl: "ddev_closes k (ddev_make_handle dm (of_nat i)) ?dn = Some (set_dev dm i DD_STATE_OPENED (of_nat (Suc n - k)) ?w)"
    if "k \<le> n" for k
    using ddev_closes_counted [OF wfn _ _ _ assms(4) that, of i] b by (simp del: of_nat_Suc)
  have "ddev_closes (Suc n) (ddev_make_handle ?dn (of_nat i)) ?dn =
      Some (set_dev ?dn i DD_STATE_CLOSED 0 (dev_close_op (drv_op (drv_dev_tbl ?dn ! i)) (world ?dn)))"
    by (rule ddev_closes_opened [OF wfn]) (use b assms(4) in auto)
  then have last: "ddev_closes (Suc n) (ddev_make_handle dm (of_nat i)) ?dn =
      Some (set_dev dm i DD_STATE_CLOSED 0 (dev_close_op (drv_op (drv_dev_tbl dm ! i)) ?w))"
    using b by simp
  show ?thesis
    by (intro exI conjI allI impI) (rule refl, erule op, rule op [OF order_refl], erule cl, rule last, rule refl)
qed

definition dm_uart :: "(nat, nat) drv_model" where
  "dm_uart = dm_example\<lparr>allocated_size_sdev := 1, drv_sdev_tbl := [zero_dev], allocated_size_dev := 2,
     drv_dev_tbl := [zero_dev\<lparr>drv_name := Some ''uart1'', drv_state := DD_STATE_CLOSED,
       drv_op := Some \<lparr>dd_open = Some (\<lambda>fl w. (0, w + 1)), dd_close = Some (\<lambda>w. (0, w + 100)),
         dd_read = None, dd_write = None, dd_control = None\<rparr>\<rparr>, zero_dev]\<rparr>"

theorem ddev_open_close_counted_witness:
  "\<exists>dm1 dm2. ddev_opens (Suc 2) ''uart1'' 0 dm_uart = Some dm1 \<and> world dm1 = 1
    \<and> map_option world (ddev_closes 2 (ddev_make_handle dm_uart 0) dm1) = Some 1
    \<and> ddev_closes (Suc 2) (ddev_make_handle dm_uart 0) dm1 = Some dm2 \<and> world dm2 = 101"
proof -
  have wf: "dm_wf dm_uart"
    by (simp add: dm_wf_def tbl_wf_def dm_uart_def dm_example_def slot_ok_def zero_dev_def slot_free_def)
  have s: "selects dm_uart ''uart1'' 0"
    by (simp add: selects_def tbl_find_Some dm_uart_def name_matches_def strncmp_eq_def)
  have d: "drv_state (drv_dev_tbl dm_uart ! 0) = DD_STATE_CLOSED" and w: "world dm_uart = 0"
    and o: "dev_open_op 0 (drv_op (drv_dev_tbl dm_uart ! 0)) x = (0, x + 1)"
      "dev_close_op (drv_op (drv_dev_tbl dm_uart ! 0)) x = x + 100" for x
    by (simp_all add: dm_uart_def dm_example_def dev_open_op_def dev_close_op_def)
  have "Suc 2 < 4294967296" by simp
  from ddev_open_close_counted [OF wf s d this, of 0]
  obtain w1 dm1 dm2 where r: "w1 = snd (0 :: u32, (0 + 1) :: nat)" "\<forall>k \<le> 2. ddev_opens (Suc k) ''uart1'' 0 dm_uart
        = Some (set_dev dm_uart 0 DD_STATE_OPENED (of_nat (Suc k)) w1)" "ddev_opens (Suc 2) ''uart1'' 0 dm_uart = Some dm1"
      "\<forall>k \<le> 2. ddev_closes k (ddev_make_handle dm_uart (of_nat 0)) dm1
        = Some (set_dev dm_uart 0 DD_STATE_OPENED (of_nat (Suc 2 - k)) w1)"
      "ddev_closes (Suc 2) (ddev_make_handle dm_uart (of_nat 0)) dm1 = Some dm2"
      "dm2 = set_dev dm_uart 0 DD_STATE_CLOSED 0 (w1 + 100)"
    unfolding o w by (elim exE conjE) blast
  have "dm1 = set_dev dm_uart 0 DD_STATE_OPENED (of_nat (Suc 2)) w1" using r(2) [rule_format, of 2] r(3) by simp
  then have "world dm1 = 1" "world dm2 = 101" unfolding r(6) set_dev_simps using r(1) by simp_all
  moreover have "map_option world (ddev_closes 2 (ddev_make_handle dm_uart 0) dm1) = Some 1"
    using r(4) [rule_format, of 2] r(1) by simp
  moreover have "(of_nat 0 :: u32) = 0" by simp
  ultimately show ?thesis using r(3,5) by metis
qed

text \<open>
  Handles: for every index of the device table, \<open>ddev_make_handle\<close> gives a handle that
  \<open>ddev_check_handle\<close> accepts, that differs from \<open>DD_HANDLE_UNVALID\<close>, and from which
  \<open>ddev_get_id_from_handle\<close> recovers the index.
\<close>

theorem ddev_handle_roundtrip:
  assumes "dm_wf dm" and "ident < allocated_size_dev dm"
  shows "ddev_get_id_from_handle (ddev_make_handle dm ident) = ident
    \<and> ddev_check_handle dm (ddev_make_handle dm ident) = DRV_SUCCESS
    \<and> ddev_make_handle dm ident \<noteq> DD_HANDLE_UNVALID"
proof -
  have "unat ident < length (drv_dev_tbl dm)"
    using assms by (simp add: dm_wf_def tbl_wf_def word_less_nat_alt)
  from handle_of_index(1,2,3) [OF assms(1) this] show ?thesis by simp
qed

theorem ddev_handle_roundtrip_witness:
  "ddev_get_id_from_handle (ddev_make_handle dm_uart 1) = 1
    \<and> ddev_check_handle dm_uart (ddev_make_handle dm_uart 1) = DRV_SUCCESS
    \<and> ddev_make_handle dm_uart 1 \<noteq> DD_HANDLE_UNVALID"
  by (rule ddev_handle_roundtrip)
    (simp_all add: dm_wf_def tbl_wf_def dm_uart_def dm_example_def slot_ok_def zero_dev_def slot_free_def)

text \<open>
  \<open>sddev_unregister_dev\<close> searches the table of simple devices only up to the size of the
  \<^emph>\<open>other\<close> table: a simple device at an index beyond \<open>allocated_size_dev\<close> is never found, and the
  call ends in the failing assertion although the device is registered.
\<close>

theorem sddev_unregister_wrong_bound:
  assumes "length nm \<le> 16" and "0 < allocated_size_dev dm"
    and "unat (allocated_size_dev dm) \<le> length (drv_sdev_tbl dm)"
    and "\<forall>k < unat (allocated_size_dev dm). name_matches nm (drv_sdev_tbl dm ! k) = Some False"
  shows "sddev_unregister_dev dm (Some nm) = None"
proof -
  have "tbl_find (name_matches nm) (drv_sdev_tbl dm) (unat (allocated_size_dev dm)) 0 = Some None"
    using assms(3,4) by (intro tbl_find_not_found) auto
  then show ?thesis
    using assms(2) name_len_ok [OF assms(1)] by (auto simp: sddev_unregister_dev_def)
qed

definition dm_two_sdevs :: "(nat, nat) drv_model" where
  "dm_two_sdevs = dm_example\<lparr>allocated_size_sdev := 3, allocated_size_dev := 1, drv_dev_tbl := [zero_dev],
     drv_sdev_tbl := [zero_dev\<lparr>drv_name := Some ''gpio'', drv_state := DD_STATE_CLOSED, drv_op := Some \<lparr>sdd_control = None\<rparr>\<rparr>,
       zero_dev\<lparr>drv_name := Some ''gdma'', drv_state := DD_STATE_CLOSED, drv_op := Some \<lparr>sdd_control = None\<rparr>\<rparr>, zero_dev]\<rparr>"

theorem sddev_unregister_wrong_bound_witness:
  "dm_wf dm_two_sdevs \<and> sddev_control dm_two_sdevs (Some ''gdma'') 0 0 = Some (DRV_FAILURE, dm_two_sdevs)
    \<and> sddev_unregister_dev dm_two_sdevs (Some ''gdma'') = None"
proof -
  have "tbl_find (name_matches ''gdma'') (drv_sdev_tbl dm_two_sdevs) 3 0 = Some (Some 1)"
    by (rule tbl_find_at) (auto simp: dm_two_sdevs_def name_matches_def strncmp_eq_def)
  then have "sddev_control dm_two_sdevs (Some ''gdma'') 0 0 = Some (DRV_FAILURE, dm_two_sdevs)"
    by (simp add: sddev_control_def) (simp add: dm_two_sdevs_def)
  moreover have "dm_wf dm_two_sdevs"
    by (simp add: dm_wf_def tbl_wf_def dm_two_sdevs_def dm_example_def slot_ok_def zero_dev_def slot_free_def)
  moreover have "sddev_unregister_dev dm_two_sdevs (Some ''gdma'') = None"
    by (rule sddev_unregister_wrong_bound)
      (auto simp: dm_two_sdevs_def name_matches_def strncmp_eq_def)
  ultimately show ?thesis by blast
qed

end
