(* ===== verification/Drv_Startup.thy ===== *)
theory Drv_Startup
  imports Prelude
begin

text \<open>
  The start-up table of \<open>driver/common/dd.c\<close>: \<open>g_dd_init\<close> runs the initialisation function of
  every driver of the build, \<open>g_dd_exit\<close> the exit functions.

  The table depends on the SoC and on the configuration macros: \<open>cfg m\<close> says whether the macro
  \<open>m\<close> is defined as non-zero. A driver's function is named by its C name, and \<open>call f\<close> is its
  effect on the world of the drivers; the device names are given by their macros, since the two
  loops only test them for \<open>NULL\<close>.
\<close>

record 's DD_INIT_S =
  dd_dev_name :: "string option"
  dd_init :: "('s \<Rightarrow> 's) option"
  dd_exit :: "('s \<Rightarrow> 's) option"

definition dd_entry :: "string option \<Rightarrow> ('s \<Rightarrow> 's) option \<Rightarrow> ('s \<Rightarrow> 's) option \<Rightarrow> 's DD_INIT_S" where
  "dd_entry nm i e = \<lparr>dd_dev_name = nm, dd_init = i, dd_exit = e\<rparr>"

definition tbl_if :: "bool \<Rightarrow> 's DD_INIT_S \<Rightarrow> 's DD_INIT_S list" where
  "tbl_if c e = (if c then [e] else [])"

definition dd_init_tbl :: "soc \<Rightarrow> (string \<Rightarrow> bool) \<Rightarrow> (string \<Rightarrow> 's \<Rightarrow> 's) \<Rightarrow> 's DD_INIT_S list" where
  "dd_init_tbl soc cfg call =
     [dd_entry (Some ''SCTRL_DEV_NAME'') (Some (call ''sctrl_init'')) (Some (call ''sctrl_exit''))] @
     [dd_entry (Some ''ICU_DEV_NAME'') (Some (call ''icu_init'')) (Some (call ''icu_exit''))] @
     [dd_entry (Some ''WDT_DEV_NAME'') (Some (call ''wdt_init'')) (Some (call ''wdt_exit''))] @
     [dd_entry (Some ''GPIO_DEV_NAME'') (Some (call ''gpio_init'')) (Some (call ''gpio_exit''))] @
     tbl_if ((soc = SOC_BK7231N \<or> soc = SOC_BK7238)) (dd_entry (Some ''CAL_DEV_NAME'') (Some (call ''cal_init'')) (Some (call ''cal_exit''))) @
     tbl_if (soc = SOC_BK7252N \<and> cfg ''CFG_USE_CHARGE_DEV'') (dd_entry (Some ''CHARGE_DEV_NAME'') (Some (call ''charge_init'')) (Some (call ''charge_exit''))) @
     tbl_if (soc = SOC_BK7252N) (dd_entry (Some ''RTC_REG_DEV_NAME'') (Some (call ''rtc_reg_init'')) (Some (call ''rtc_reg_exit''))) @
     tbl_if (soc = SOC_BK7252N) (dd_entry (Some ''UART3_DEV_NAME'') (Some (call ''uart3_init'')) (Some (call ''uart3_exit''))) @
     tbl_if (soc = SOC_BK7252N) (dd_entry (Some ''HPM_DEV_NAME'') (Some (call ''hpm_init'')) (Some (call ''hpm_exit''))) @
     tbl_if (soc = SOC_BK7252N) (dd_entry (Some ''LA_DEV_NAME'') (Some (call ''la_init'')) (Some (call ''la_exit''))) @
     tbl_if (soc = SOC_BK7252N) (dd_entry (Some ''YUV_BUF_DEV_NAME'') (Some (call ''yuv_buf_init'')) (Some (call ''yuv_buf_exit''))) @
     tbl_if (soc = SOC_BK7252N) (dd_entry (Some ''IPCHKSUM_DEV_NAME'') (Some (call ''ipchksum_init'')) (Some (call ''ipchksum_exit''))) @
     [dd_entry (Some ''UART2_DEV_NAME'') (Some (call ''uart2_init'')) (Some (call ''uart2_exit''))] @
     [dd_entry (Some ''UART1_DEV_NAME'') (Some (call ''uart1_init'')) (Some (call ''uart1_exit''))] @
     [dd_entry (Some ''FLASH_DEV_NAME'') (Some (call ''flash_init'')) (Some (call ''flash_exit''))] @
     tbl_if (cfg ''CFG_GENERAL_DMA'') (dd_entry (Some ''GDMA_DEV_NAME'') (Some (call ''gdma_init'')) (Some (call ''gdma_exit''))) @
     tbl_if (cfg ''CFG_USE_HSLAVE_SPI'') (dd_entry (Some ''SPIDMA_DEV_NAME'') (Some (call ''spidma_init'')) (Some (call ''spidma_uninit''))) @
     tbl_if (cfg ''CFG_USE_QSPI'') (dd_entry (Some ''QSPI_DEV_NAME'') (Some (call ''qspi_init'')) (Some (call ''qspi_exit''))) @
     tbl_if (cfg ''CFG_USE_I2C1'') (dd_entry (Some ''I2C1_DEV_NAME'') (Some (call ''i2c1_init'')) (Some (call ''i2c1_exit''))) @
     tbl_if (cfg ''CFG_USE_I2C2'') (dd_entry (Some ''I2C2_DEV_NAME'') (Some (call ''i2c2_init'')) (Some (call ''i2c2_exit''))) @
     tbl_if (cfg ''CFG_USE_CAMERA_INTF'') (dd_entry (Some ''EJPEG_DEV_NAME'') (Some (call ''ejpeg_init'')) (Some (call ''ejpeg_exit''))) @
     tbl_if (cfg ''CFG_USE_AUDIO'') (dd_entry (Some ''AUD_DAC_DEV_NAME'') (Some (call ''audio_init'')) (Some (call ''audio_exit''))) @
     tbl_if ((cfg ''CFG_SDIO'' \<or> cfg ''CFG_SDIO_TRANS'')) (dd_entry (Some ''SDIO_DEV_NAME'') (Some (call ''sdio_init'')) (Some (call ''sdio_exit''))) @
     tbl_if (cfg ''CFG_USB'') (dd_entry (Some ''USB_DEV_NAME'') (Some (call ''usb_init'')) (Some (call ''usb_exit''))) @
     tbl_if (soc = SOC_BK7221U \<and> cfg ''CFG_USB'') (dd_entry (Some ''USB_PLUG_DEV_NAME'') (Some (call ''usb_plug_inout_init'')) (Some (call ''usb_plug_inout_exit''))) @
     [dd_entry (Some ''PWM_DEV_NAME'') (Some (call ''pwm_init'')) (Some (call ''pwm_exit''))] @
     tbl_if (soc \<noteq> SOC_BK7231) (dd_entry (Some ''TIMER_DEV_NAME'') (Some (call ''bk_timer_init'')) (Some (call ''bk_timer_exit''))) @
     tbl_if (cfg ''CFG_USE_SPI'') (dd_entry (Some ''SPI_DEV_NAME'') (Some (call ''spi_init'')) (Some (call ''spi_exit''))) @
     tbl_if (soc = SOC_BK7271) (dd_entry (Some ''SPI2_DEV_NAME'') (Some (call ''spi2_init'')) (Some (call ''spi2_exit''))) @
     tbl_if (soc = SOC_BK7271) (dd_entry (Some ''SPI3_DEV_NAME'') (Some (call ''spi3_init'')) (Some (call ''spi3_exit''))) @
     tbl_if (cfg ''CFG_USE_FFT'') (dd_entry (Some ''FFT_DEV_NAME'') (Some (call ''fft_init'')) (Some (call ''fft_exit''))) @
     tbl_if (cfg ''CFG_SUPPORT_SARADC'') (dd_entry (Some ''SARADC_DEV_NAME'') (Some (call ''saradc_init'')) (Some (call ''saradc_exit''))) @
     tbl_if (soc \<noteq> SOC_BK7231) (dd_entry (Some ''IRDA_DEV_NAME'') (Some (call ''irda_init'')) (Some (call ''irda_exit''))) @
     tbl_if (cfg ''CFG_MAC_PHY_BAPASS'') (dd_entry (Some ''MPB_DEV_NAME'') (Some (call ''mpb_init'')) (Some (call ''mpb_exit''))) @
     tbl_if (cfg ''CFG_USE_SDCARD_HOST'') (dd_entry (Some ''SDCARD_DEV_NAME'') (Some (call ''sdcard_init'')) (Some (call ''sdcard_exit''))) @
     tbl_if (cfg ''CFG_USE_STA_PS'') (dd_entry (Some ''power_save'') (Some (call ''sctrl_sta_ps_init'')) None) @
     tbl_if (soc \<noteq> SOC_BK7231 \<and> cfg ''CFG_SUPPORT_BLE'') (dd_entry (Some ''BLE_DEV_NAME'') (Some (call ''ble_init'')) (Some (call ''ble_exit''))) @
     tbl_if (soc \<noteq> SOC_BK7231 \<and> cfg ''CFG_USE_SECURITY'') (dd_entry (Some ''SEC_DEV_NAME'') (Some (call ''bk_secrity_init'')) (Some (call ''bk_secrity_exit''))) @
     tbl_if (cfg ''CFG_USE_SOFT_RTC'') (dd_entry (Some ''SOFT_RTC_DEVICE_NAME'') (Some (call ''rt_soft_rtc_init'')) None) @
     [dd_entry None None None]"

fun g_dd_init :: "'s DD_INIT_S list \<Rightarrow> 's \<Rightarrow> 's" where
  "g_dd_init [] w = w"
| "g_dd_init (e # tbl) w = (case (dd_dev_name e, dd_init e) of
     (Some _, Some f) \<Rightarrow> g_dd_init tbl (f w)
   | _ \<Rightarrow> w)"

fun g_dd_exit :: "'s DD_INIT_S list \<Rightarrow> 's \<Rightarrow> 's" where
  "g_dd_exit [] w = w"
| "g_dd_exit (e # tbl) w = (case (dd_dev_name e, dd_exit e) of
     (Some _, Some f) \<Rightarrow> g_dd_exit tbl (f w)
   | _ \<Rightarrow> w)"

section \<open>Properties\<close>

definition run_all :: "('s \<Rightarrow> 's) list \<Rightarrow> 's \<Rightarrow> 's" where
  "run_all fs w = fold (\<lambda>f. f) fs w"

lemma g_dd_init_takeWhile:
  "g_dd_init tbl w =
   run_all (map (the \<circ> dd_init) (takeWhile (\<lambda>e. dd_dev_name e \<noteq> None \<and> dd_init e \<noteq> None) tbl)) w"
  by (induction tbl arbitrary: w) (auto simp: run_all_def split: option.splits)

lemma g_dd_exit_takeWhile:
  "g_dd_exit tbl w =
   run_all (map (the \<circ> dd_exit) (takeWhile (\<lambda>e. dd_dev_name e \<noteq> None \<and> dd_exit e \<noteq> None) tbl)) w"
  by (induction tbl arbitrary: w) (auto simp: run_all_def split: option.splits)

lemma tbl_if_simps:
  "P e \<Longrightarrow> takeWhile P (tbl_if c e @ r) = tbl_if c e @ takeWhile P r"
  "P e \<Longrightarrow> dropWhile P (tbl_if c e @ r) = dropWhile P r"
  "r \<noteq> [] \<Longrightarrow> butlast (tbl_if c e @ r) = tbl_if c e @ butlast r"
  by (auto simp: tbl_if_def)

text \<open>
  (C24) For every SoC and every configuration, \<open>g_dd_init\<close> runs the initialisation function of
  every entry of the table but the terminating one, each once and in the order of the table.
\<close>

theorem g_dd_init_runs_all:
  "g_dd_init (dd_init_tbl soc cfg call) w =
   run_all (map (the \<circ> dd_init) (butlast (dd_init_tbl soc cfg call))) w"
  unfolding g_dd_init_takeWhile
  by (rule arg_cong [where f = "\<lambda>t. run_all (map (the \<circ> dd_init) t) w"])
    (simp add: dd_init_tbl_def tbl_if_simps dd_entry_def)

text \<open>
  With station power save configured, \<open>g_dd_exit\<close> stops at the \<open>power_save\<close> entry, whose
  exit function is \<open>NULL\<close>: the exit functions of the drivers behind it (BLE, security) are never
  called, whatever the SoC.
\<close>

theorem g_dd_exit_stops_at_power_save:
  assumes "cfg ''CFG_USE_STA_PS''"
  shows "\<exists>xs ys. dd_init_tbl soc cfg call = xs @ dd_entry (Some ''power_save'') (Some (call ''sctrl_sta_ps_init'')) None # ys
    \<and> g_dd_exit (dd_init_tbl soc cfg call) w = run_all (map (the \<circ> dd_exit) xs) w
    \<and> (soc \<noteq> SOC_BK7231 \<and> cfg ''CFG_SUPPORT_BLE'' \<longrightarrow>
         dd_entry (Some ''BLE_DEV_NAME'') (Some (call ''ble_init'')) (Some (call ''ble_exit'')) \<in> set ys)"
proof -
  let ?has_exit = "\<lambda>e. dd_dev_name e \<noteq> None \<and> dd_exit e \<noteq> None"
  let ?ps = "dd_entry (Some ''power_save'') (Some (call ''sctrl_sta_ps_init'')) None"
  let ?ble = "dd_entry (Some ''BLE_DEV_NAME'') (Some (call ''ble_init'')) (Some (call ''ble_exit''))"
  have ps: "tbl_if (cfg ''CFG_USE_STA_PS'') e = [e]" for e :: "'a DD_INIT_S"
    using assms by (simp add: tbl_if_def)
  have "\<exists>zs. dropWhile ?has_exit (dd_init_tbl soc cfg call) =
      ?ps # tbl_if (soc \<noteq> SOC_BK7231 \<and> cfg ''CFG_SUPPORT_BLE'') ?ble @ zs"
    by (simp add: dd_init_tbl_def ps tbl_if_simps dd_entry_def)
  then obtain zs where zs: "dropWhile ?has_exit (dd_init_tbl soc cfg call) =
      ?ps # tbl_if (soc \<noteq> SOC_BK7231 \<and> cfg ''CFG_SUPPORT_BLE'') ?ble @ zs" ..
  have "dd_init_tbl soc cfg call = takeWhile ?has_exit (dd_init_tbl soc cfg call)
      @ ?ps # tbl_if (soc \<noteq> SOC_BK7231 \<and> cfg ''CFG_SUPPORT_BLE'') ?ble @ zs"
    using takeWhile_dropWhile_id [of ?has_exit "dd_init_tbl soc cfg call"] unfolding zs by (rule sym)
  moreover have "soc \<noteq> SOC_BK7231 \<and> cfg ''CFG_SUPPORT_BLE'' \<longrightarrow>
      ?ble \<in> set (tbl_if (soc \<noteq> SOC_BK7231 \<and> cfg ''CFG_SUPPORT_BLE'') ?ble @ zs)"
    by (simp add: tbl_if_def)
  ultimately show ?thesis
    using g_dd_exit_takeWhile [of "dd_init_tbl soc cfg call" w]
    by (intro exI [where x = "takeWhile ?has_exit (dd_init_tbl soc cfg call)"]
        exI [where x = "tbl_if (soc \<noteq> SOC_BK7231 \<and> cfg ''CFG_SUPPORT_BLE'') ?ble @ zs"] conjI)
qed

theorem g_dd_exit_stops_at_power_save_witness:
  "\<exists>xs ys. dd_init_tbl SOC_BK7238 (\<lambda>_. True) (\<lambda>f w. f # w) = xs @
      dd_entry (Some ''power_save'') (Some (\<lambda>w. ''sctrl_sta_ps_init'' # w)) None # ys
    \<and> g_dd_exit (dd_init_tbl SOC_BK7238 (\<lambda>_. True) (\<lambda>f w. f # w)) [] = run_all (map (the \<circ> dd_exit) xs) []
    \<and> dd_entry (Some ''BLE_DEV_NAME'') (Some (\<lambda>w. ''ble_init'' # w)) (Some (\<lambda>w. ''ble_exit'' # w)) \<in> set ys"
  using g_dd_exit_stops_at_power_save [of "\<lambda>_. True" SOC_BK7238 "\<lambda>f w. f # w" "[]"] by simp

end
