(* ===== verification/Flash_Hw.thy ===== *)
theory Flash_Hw
  imports Prelude
begin

text \<open>
  The hardware that \<open>driver/flash/flash.c\<close> programs: the registers of the SoC's flash controller
  as \<open>driver/flash/flash.h\<close> defines them, and the table of the supported flash chips.

  The chip itself is an external part. It is a parameter of the model: a record of functions on
  an abstract chip state \<open>'c\<close>, one for each command the controller can send. What the driver
  relies on is the predicate \<open>nor_chip\<close>: the documented behaviour of a NOR flash, where
  programming can only clear bits, erasing sets a whole 4 KiB sector to \<open>0xFF\<close>, and the
  block-protection bits of the status register exempt address ranges from both.

  A command starts when it is written to \<open>REG_FLASH_OPERATE_SW\<close>. How long the chip takes is an argument: the number
  of times the register is read with the busy bit set, for each command, address and state of the chip. The loops
  \<open>while(REG_READ(REG_FLASH_OPERATE_SW) & BUSY_SW)\<close> are a partial function, since nothing in the code bounds them;
  they end when the chip answers. A chip that never answers is not modelled.
\<close>

section \<open>Flash chips\<close>

record flash_config_t =
  cfg_flash_id :: u32
  sr_size :: u8
  flash_size :: u32
  line_mode :: u8
  cmp_post :: u8
  protect_post :: u8
  protect_mask :: u8
  protect_all :: u16
  protect_none :: u16
  protect_half :: u16
  unprotect_last_block :: u16
  qe_bit_post :: u8
  qe_bit :: u8
  m_value :: u8
  mode_sel :: u8

definition mk_config ::
  "u32 \<Rightarrow> u8 \<Rightarrow> u32 \<Rightarrow> u8 \<Rightarrow> u8 \<Rightarrow> u8 \<Rightarrow> u8 \<Rightarrow> u16 \<Rightarrow> u16 \<Rightarrow> u16 \<Rightarrow> u16 \<Rightarrow> u8 \<Rightarrow> u8 \<Rightarrow> u8 \<Rightarrow> u8 \<Rightarrow> flash_config_t" where
  "mk_config i s z l c p m a n h u qp q v d =
     \<lparr>cfg_flash_id = i, sr_size = s, flash_size = z, line_mode = l, cmp_post = c, protect_post = p,
      protect_mask = m, protect_all = a, protect_none = n, protect_half = h, unprotect_last_block = u,
      qe_bit_post = qp, qe_bit = q, m_value = v, mode_sel = d\<rparr>"

definition flash_config :: "flash_config_t list" where
  "flash_config =
     [mk_config 0x1c7016 1 0x400000 2 0 2 0x1f 0x1f 0x0 0x16 0x1b 0 0 0xa5 0x1,
      mk_config 0x1c7015 1 0x200000 2 0 2 0x1f 0x1f 0x0 0xd 0xd 0 0 0xa5 0x1,
      mk_config 0x1c4116 2 0x400000 2 14 2 0x1f 0x1f 0x0 0xe 0x101 9 1 0xa5 0x1,
      mk_config 0x1c6116 2 0x400000 2 14 2 0x1f 0x1f 0x0 0xe 0x101 9 1 0xa5 0x1,
      mk_config 0xb4014 2 0x100000 2 14 2 0x1f 0x1f 0x0 0xc 0x101 9 1 0xa0 0x1,
      mk_config 0xb4015 2 0x200000 2 14 2 0x1f 0x1f 0x0 0xd 0x101 9 1 0xa0 0x1,
      mk_config 0xb4016 2 0x400000 2 14 2 0x1f 0x1f 0x0 0xe 0x101 9 1 0xa0 0x1,
      mk_config 0xb4017 2 0x800000 2 14 2 0x1f 0x5 0x0 0xe 0x109 9 1 0xa0 0x1,
      mk_config 0xe4016 2 0x400000 2 14 2 0x1f 0x1f 0x0 0xe 0x101 9 1 0xa0 0x1,
      mk_config 0xc84015 2 0x200000 2 14 2 0x1f 0x1f 0x0 0xd 0x101 9 1 0xa0 0x1,
      mk_config 0xc84016 1 0x400000 2 0 2 0x1f 0x1f 0x0 0xe 0xe 0 0 0xa0 0x1,
      mk_config 0xc86515 2 0x200000 2 14 2 0x1f 0x1f 0x0 0xd 0x101 9 1 0xa0 0x1,
      mk_config 0xc86516 2 0x400000 4 14 2 0x1f 0x1f 0x0 0xe 0x101 9 1 0xa0 0x2,
      mk_config 0xef4016 2 0x400000 2 14 2 0x1f 0x1f 0x0 0x0 0x101 9 1 0xa0 0x1,
      mk_config 0x204016 2 0x400000 2 14 2 0x1f 0x1f 0x0 0xe 0x101 9 1 0xa0 0x1,
      mk_config 0xc22315 1 0x200000 2 0 2 0xf 0xf 0x0 0xa 0xe 6 1 0xa5 0x1,
      mk_config 0xeb6015 2 0x200000 2 14 2 0x1f 0x1f 0x0 0xd 0x101 9 1 0xa0 0x1,
      mk_config 0xcd6014 2 0x100000 2 14 2 0x1f 0x1f 0x0 0xc 0x101 9 1 0xa0 0x1,
      mk_config 0xcd7115 2 0x200000 2 14 2 0x1f 0x1f 0x0 0xd 0x101 9 1 0xa0 0x1,
      mk_config 0x854215 1 0x200000 2 14 2 0x1f 0x1f 0x0 0xc 0x101 9 1 0xa0 0x1,
      mk_config 0x856015 2 0x200000 2 14 2 0x1f 0x1f 0x0 0xd 0x101 9 1 0xa0 0x1,
      mk_config 0x852015 2 0x200000 2 14 2 0x1f 0x1f 0x0 0xd 0x101 9 1 0xa0 0x1,
      mk_config 0x852016 2 0x400000 2 14 2 0x1f 0x1f 0x0 0xe 0x101 9 1 0xa0 0x1,
      mk_config 0xc46015 2 0x200000 2 14 2 0x1f 0x1f 0x0 0xd 0x11 9 1 0x20 0x1,
      mk_config 0x0 2 0x400000 2 0 2 0x1f 0x0 0x0 0x0 0x0 0 0 0x0 0x1]"

text \<open>
  The commands of the chip: reading a byte, programming a run of bytes at an address, erasing the
  sector at an address, reading and writing the status register (one or two bytes), the
  identification, the security registers, and the remaining commands (write enable and disable,
  high-performance mode, continuous-read reset), which take the opcode.
\<close>

record 'c chip =
  ch_read :: "'c \<Rightarrow> nat \<Rightarrow> byte"
  ch_program :: "nat \<Rightarrow> byte list \<Rightarrow> 'c \<Rightarrow> 'c"
  ch_erase :: "nat \<Rightarrow> 'c \<Rightarrow> 'c"
  ch_sr :: "'c \<Rightarrow> u16"
  ch_wrsr :: "u16 \<Rightarrow> 'c \<Rightarrow> 'c"
  ch_wrsr2 :: "u16 \<Rightarrow> 'c \<Rightarrow> 'c"
  ch_id :: "'c \<Rightarrow> u32"
  ch_scr :: "'c \<Rightarrow> nat \<Rightarrow> byte"
  ch_misc :: "u32 \<Rightarrow> 'c \<Rightarrow> 'c"

datatype FLASH_OPCODE = FLASH_OPCODE_WREN | FLASH_OPCODE_WRDI | FLASH_OPCODE_RDSR | FLASH_OPCODE_WRSR
  | FLASH_OPCODE_READ | FLASH_OPCODE_RDSR2 | FLASH_OPCODE_WRSR2 | FLASH_OPCODE_PP | FLASH_OPCODE_SE
  | FLASH_OPCODE_RDID | FLASH_OPCODE_HPM | FLASH_OPCODE_CRMR | FLASH_OPCODE_RDSCR

fun opcode :: "FLASH_OPCODE \<Rightarrow> u32" where
  "opcode FLASH_OPCODE_WREN = 1"
| "opcode FLASH_OPCODE_WRDI = 2"
| "opcode FLASH_OPCODE_RDSR = 3"
| "opcode FLASH_OPCODE_WRSR = 4"
| "opcode FLASH_OPCODE_READ = 5"
| "opcode FLASH_OPCODE_RDSR2 = 6"
| "opcode FLASH_OPCODE_WRSR2 = 7"
| "opcode FLASH_OPCODE_PP = 12"
| "opcode FLASH_OPCODE_SE = 13"
| "opcode FLASH_OPCODE_RDID = 20"
| "opcode FLASH_OPCODE_HPM = 21"
| "opcode FLASH_OPCODE_CRMR = 22"
| "opcode FLASH_OPCODE_RDSCR = 28"

text \<open>
  The documented behaviour of a NOR flash chip. \<open>locked sr a\<close> says that the status register
  value \<open>sr\<close> protects the byte at address \<open>a\<close>. Programming is specified for the aligned runs of
  32 and 256 bytes that the controller sends. Of the remaining commands only the four that the driver sends are
  said to leave the contents alone.
\<close>

definition nor_chip :: "(u16 \<Rightarrow> nat \<Rightarrow> bool) \<Rightarrow> 'c chip \<Rightarrow> bool" where
  "nor_chip locked ch \<longleftrightarrow>
     (\<forall>c a bs i. length bs \<in> {32, 256} \<and> a mod length bs = 0 \<longrightarrow>
        ch_read ch (ch_program ch a bs c) i =
          (if a \<le> i \<and> i < a + length bs \<and> \<not> locked (ch_sr ch c) i
           then ch_read ch c i AND bs ! (i - a) else ch_read ch c i))
   \<and> (\<forall>c a i. a mod 4096 = 0 \<longrightarrow>
        ch_read ch (ch_erase ch a c) i =
          (if a \<le> i \<and> i < a + 4096 \<and> \<not> locked (ch_sr ch c) i then 0xFF else ch_read ch c i))
   \<and> (\<forall>c v. ch_read ch (ch_wrsr ch v c) = ch_read ch c \<and> ch_read ch (ch_wrsr2 ch v c) = ch_read ch c)
   \<and> (\<forall>c. \<forall>op \<in> {FLASH_OPCODE_WREN, FLASH_OPCODE_WRDI, FLASH_OPCODE_HPM, FLASH_OPCODE_CRMR}.
        ch_read ch (ch_misc ch (opcode op) c) = ch_read ch c \<and> ch_sr ch (ch_misc ch (opcode op) c) = ch_sr ch c)
   \<and> (\<forall>c a bs. ch_sr ch (ch_program ch a bs c) = ch_sr ch c)
   \<and> (\<forall>c a. ch_sr ch (ch_erase ch a c) = ch_sr ch c)"

text \<open>
  The bits \<open>m\<close> of the status register can be written: the two-byte command stores both bytes, the
  one-byte command the low byte, and neither changes the bits it does not reach.
\<close>

definition sr_writable :: "u16 \<Rightarrow> 'c chip \<Rightarrow> bool" where
  "sr_writable m ch \<longleftrightarrow>
     (\<forall>c v. ch_sr ch (ch_wrsr2 ch v c) AND m = v AND m)
   \<and> (\<forall>c v. ch_sr ch (ch_wrsr ch v c) AND m AND 0xFF = v AND m AND 0xFF)"

section \<open>Controller\<close>

text \<open>
  What else the driver depends on: the SoC it is built for, the ATE mode (a strap read at boot),
  and \<open>flash_bypass_op_read\<close> of \<open>func/misc/flash_bypass.c\<close>, which drives the chip's pins through
  the SPI block and returns a length and the bytes received. \<open>env_answer\<close> is the time the chip takes for a command
  (opcode, address, state of the chip), counted in reads of the operation register.
\<close>

record 'c flash_env =
  env_chip :: "'c chip"
  env_answer :: "u32 \<Rightarrow> nat \<Rightarrow> 'c \<Rightarrow> nat"
  env_soc :: soc
  env_ate :: bool
  env_bypass_read :: "byte list \<Rightarrow> nat \<Rightarrow> 'c \<Rightarrow> int \<times> byte list"

datatype sctrl_cmd = CMD_SCTRL_SET_FLASH_DPLL | CMD_SCTRL_SET_FLASH_DCO

text \<open>
  The controller's registers (\<open>busy_left\<close> is how often the busy bit is still read), then the static variables of \<open>flash.c\<close>. \<open>fifo_in\<close> holds the words
  written to \<open>REG_FLASH_DATA_SW_FLASH\<close> since the last program command, \<open>fifo_out\<close> the words still
  to be read from \<open>REG_FLASH_DATA_FLASH_SW\<close>, \<open>pw_mem\<close> the bytes of the page-write memory;
  \<open>curr_line_mode\<close> is the static local of \<open>flash_set_line_mode\<close>. \<open>peri_busy\<close> is the counter of
  \<open>peri_busy_count_add\<close>, \<open>sctrl_log\<close> the commands sent to the system controller, and
  \<open>dev_registered\<close> whether the driver is entered in the device table.
\<close>

record 'c flash =
  chip_st :: 'c
  reg_operate :: u32
  busy_left :: nat
  reg_rdid :: u32
  reg_sr_crc :: u32
  reg_conf :: u32
  reg_wrsr :: u32
  fifo_in :: "u32 list"
  fifo_out :: "u32 list"
  pw_mem :: "byte list"
  flash_current_config :: "flash_config_t option"
  flash_wr_sr_bypass :: "(u32 \<Rightarrow> u32 \<Rightarrow> 'c \<Rightarrow> int \<times> 'c) option"
  flash_id :: u32
  curr_line_mode :: u8
  peri_busy :: u32
  sctrl_log :: "sctrl_cmd list"
  dev_registered :: bool

definition OP_SW :: u32 where "OP_SW = push_bit 29 1"
definition WP_VALUE :: u32 where "WP_VALUE = push_bit 30 1"
definition BUSY_SW :: u32 where "BUSY_SW = push_bit 31 1"
definition PAGE_WRITE_EN :: u32 where "PAGE_WRITE_EN = push_bit 30 1"
definition CRC_EN :: u32 where "CRC_EN = push_bit 26 1"
definition ADDR_SW_REG_MASK :: u32 where "ADDR_SW_REG_MASK = 0x00FFFFFF"
definition OP_TYPE_SW_MASK :: u32 where "OP_TYPE_SW_MASK = 0x1F"
definition WRSR_DATA_MASK :: u32 where "WRSR_DATA_MASK = 0x00FFFF"
definition FLASH_CLK_CONF_MASK :: u32 where "FLASH_CLK_CONF_MASK = 0x0F"
definition MODEL_SEL_MASK :: u32 where "MODEL_SEL_MASK = 0x1F"
definition M_VALUE_MASK :: u32 where "M_VALUE_MASK = 0xFF"
definition CPU_DATA_WR_MASK :: u32 where "CPU_DATA_WR_MASK = 0x01"
definition FLASH_PW_MEM_CLR :: u32 where "FLASH_PW_MEM_CLR = push_bit 31 1"

text \<open>The command that runs when the software-operation bit is written: opcode and 24-bit address.\<close>

definition exec_op :: "'c flash_env \<Rightarrow> u32 \<Rightarrow> nat \<Rightarrow> 'c flash \<Rightarrow> 'c flash" where
  "exec_op E op a s =
     (let ch = env_chip E; c = chip_st s;
          set_sr = (\<lambda>b :: u16. (reg_sr_crc s AND NOT 0xFF) OR (ucast b AND 0xFF));
          wdata = (ucast (drop_bit 10 (reg_conf s) AND WRSR_DATA_MASK) :: u16) in
      if op = opcode FLASH_OPCODE_RDSR then s\<lparr>reg_sr_crc := set_sr (ch_sr ch c)\<rparr>
      else if op = opcode FLASH_OPCODE_RDSR2 then s\<lparr>reg_sr_crc := set_sr (drop_bit 8 (ch_sr ch c))\<rparr>
      else if op = opcode FLASH_OPCODE_WRSR then s\<lparr>chip_st := ch_wrsr ch wdata c\<rparr>
      else if op = opcode FLASH_OPCODE_WRSR2 then s\<lparr>chip_st := ch_wrsr2 ch wdata c\<rparr>
      else if op = opcode FLASH_OPCODE_READ then s\<lparr>fifo_out := words_of_bytes 8 (mem_slice (ch_read ch c) a 32)\<rparr>
      else if op = opcode FLASH_OPCODE_RDSCR then s\<lparr>fifo_out := words_of_bytes 8 (mem_slice (ch_scr ch c) a 32)\<rparr>
      else if op = opcode FLASH_OPCODE_PP then
        if reg_sr_crc s AND PAGE_WRITE_EN \<noteq> 0 then s\<lparr>chip_st := ch_program ch a (pw_mem s) c\<rparr>
        else s\<lparr>chip_st := ch_program ch a (bytes_of_words (fifo_in s)) c, fifo_in := []\<rparr>
      else if op = opcode FLASH_OPCODE_SE then s\<lparr>chip_st := ch_erase ch a c\<rparr>
      else if op = opcode FLASH_OPCODE_RDID then s\<lparr>reg_rdid := ch_id ch c\<rparr>
      else s\<lparr>chip_st := ch_misc ch op c\<rparr>)"

text \<open>
  \<open>REG_WRITE(REG_FLASH_OPERATE_SW, value)\<close>: the busy bit is read-only, and set while the command runs. The effect of
  the command is there from the start, which nobody sees: the driver reads nothing else before the bit is clear.
\<close>

definition write_operate :: "'c flash_env \<Rightarrow> u32 \<Rightarrow> 'c flash \<Rightarrow> 'c flash" where
  "write_operate E v s =
     (let s' = s\<lparr>reg_operate := v AND NOT BUSY_SW\<rparr>; op = drop_bit 24 v AND OP_TYPE_SW_MASK;
          a = unat (v AND ADDR_SW_REG_MASK); n = env_answer E op a (chip_st s) in
      if v AND OP_SW \<noteq> 0
      then (exec_op E op a s')\<lparr>reg_operate := (v AND NOT BUSY_SW) OR (if n = 0 then 0 else BUSY_SW), busy_left := n\<rparr>
      else s')"

text \<open>\<open>REG_READ(REG_FLASH_OPERATE_SW)\<close>: the value, and the state after the read.\<close>

definition read_operate :: "'c flash \<Rightarrow> u32 \<times> 'c flash" where
  "read_operate s =
     (reg_operate s,
      if reg_operate s AND BUSY_SW = 0 then s
      else if busy_left s \<le> 1 then s\<lparr>reg_operate := reg_operate s AND NOT BUSY_SW, busy_left := 0\<rparr>
      else s\<lparr>busy_left := busy_left s - 1\<rparr>)"

text \<open>\<open>while(REG_READ(REG_FLASH_OPERATE_SW) & BUSY_SW);\<close>\<close>

partial_function (option) wait_busy :: "'c flash \<Rightarrow> 'c flash option" where
  "wait_busy s = (let (v, s) = read_operate s in if v AND BUSY_SW \<noteq> 0 then wait_busy s else Some s)"

text \<open>\<open>REG_READ(REG_FLASH_DATA_FLASH_SW)\<close>: the next word of the read FIFO.\<close>

definition read_fifo :: "'c flash \<Rightarrow> (u32 \<times> 'c flash) option" where
  "read_fifo s = (case fifo_out s of [] \<Rightarrow> None | w # ws \<Rightarrow> Some (w, s\<lparr>fifo_out := ws\<rparr>))"

text \<open>\<open>REG_WRITE(REG_FLASH_PW_CONF, value)\<close>: clear the page-write memory or append a byte.\<close>

definition write_pw_conf :: "u32 \<Rightarrow> 'c flash \<Rightarrow> 'c flash" where
  "write_pw_conf v s =
     (if v AND FLASH_PW_MEM_CLR \<noteq> 0 then s\<lparr>pw_mem := []\<rparr> else s\<lparr>pw_mem := pw_mem s @ [ucast v]\<rparr>)"

end
