(* ===== verification/Flash_Driver.thy ===== *)
theory Flash_Driver
  imports Flash_Hw
begin

text \<open>
  The flash driver, \<open>driver/flash/flash.c\<close>, function by function.

  Every function takes the environment and the state and returns the new state, \<open>None\<close> where the
  C code dereferences \<open>flash_current_config\<close> while it is \<open>NULL\<close> or would wait for ever. A buffer
  that is filled is returned as the list of the bytes stored, a source buffer is a list whose
  length is the memory that may be read. The \<open>void *\<close> parameter of \<open>flash_ctrl\<close> is a value of the
  type the command expects; another type is undefined.
\<close>

definition FLASH_SUCCESS :: u32 where "FLASH_SUCCESS = 0"
definition FLASH_FAILURE :: u32 where "FLASH_FAILURE = 1"

datatype PROTECT_TYPE = FLASH_PROTECT_NONE | FLASH_PROTECT_ALL | FLASH_PROTECT_HALF
  | FLASH_UNPROTECT_LAST_BLOCK | PROTECT_OTHER

text \<open>The encoding of the enumeration; \<open>get_flash_protect\<close> returns \<open>(UINT16)-1\<close> for none of them.\<close>

fun protect_code :: "PROTECT_TYPE \<Rightarrow> u32" where
  "protect_code FLASH_PROTECT_NONE = 0"
| "protect_code FLASH_PROTECT_ALL = 1"
| "protect_code FLASH_PROTECT_HALF = 2"
| "protect_code FLASH_UNPROTECT_LAST_BLOCK = 3"
| "protect_code PROTECT_OTHER = 0xFFFF"

definition protect_of :: "u32 \<Rightarrow> PROTECT_TYPE" where
  "protect_of v = (if v = 0 then FLASH_PROTECT_NONE else if v = 1 then FLASH_PROTECT_ALL
     else if v = 2 then FLASH_PROTECT_HALF else if v = 3 then FLASH_UNPROTECT_LAST_BLOCK else PROTECT_OTHER)"

section \<open>Configuration registers\<close>

text \<open>The loop over all entries but the last, which is the default.\<close>

fun find_config :: "u32 \<Rightarrow> flash_config_t list \<Rightarrow> flash_config_t option" where
  "find_config i [] = None"
| "find_config i [d] = Some d"
| "find_config i (c # cs) = (if i = cfg_flash_id c then Some c else find_config i cs)"

definition flash_get_current_flash_config :: "'c flash \<Rightarrow> 'c flash" where
  "flash_get_current_flash_config s = s\<lparr>flash_current_config := find_config (flash_id s) flash_config\<rparr>"

definition flash_disable_crc :: "'c flash \<Rightarrow> 'c flash" where
  "flash_disable_crc s = s\<lparr>reg_conf := reg_conf s AND NOT CRC_EN\<rparr>"

definition flash_enable_crc :: "'c flash \<Rightarrow> 'c flash" where
  "flash_enable_crc s = s\<lparr>reg_conf := reg_conf s OR CRC_EN\<rparr>"

definition flash_set_clk :: "u8 \<Rightarrow> 'c flash \<Rightarrow> 'c flash" where
  "flash_set_clk clk_conf s = s\<lparr>reg_conf := (reg_conf s AND NOT FLASH_CLK_CONF_MASK) OR ucast clk_conf\<rparr>"

definition flash_get_clk :: "'c flash \<Rightarrow> u32" where
  "flash_get_clk s = reg_conf s AND FLASH_CLK_CONF_MASK"

definition flash_enable_cpu_data_wr :: "'c flash \<Rightarrow> 'c flash" where
  "flash_enable_cpu_data_wr s = s\<lparr>reg_conf := reg_conf s OR push_bit 9 CPU_DATA_WR_MASK\<rparr>"

definition flash_disable_cpu_data_wr :: "'c flash \<Rightarrow> 'c flash" where
  "flash_disable_cpu_data_wr s = s\<lparr>reg_conf := reg_conf s AND NOT (push_bit 9 CPU_DATA_WR_MASK)\<rparr>"

section \<open>Status register\<close>

definition op_word :: "FLASH_OPCODE \<Rightarrow> u32" where
  "op_word op = push_bit 24 (opcode op)"

definition flash_write_enable :: "'c flash_env \<Rightarrow> 'c flash \<Rightarrow> 'c flash option" where
  "flash_write_enable E s = wait_busy (write_operate E (op_word FLASH_OPCODE_WREN OR OP_SW OR WP_VALUE) s)"

definition flash_write_disable :: "'c flash_env \<Rightarrow> 'c flash \<Rightarrow> 'c flash option" where
  "flash_write_disable E s = wait_busy (write_operate E (op_word FLASH_OPCODE_WRDI OR OP_SW OR WP_VALUE) s)"

definition flash_read_sr :: "'c flash_env \<Rightarrow> u8 \<Rightarrow> 'c flash \<Rightarrow> (u16 \<times> 'c flash) option" where
  "flash_read_sr E sr_width s = do {
     s \<leftarrow> wait_busy s;
     s \<leftarrow> wait_busy (write_operate E (op_word FLASH_OPCODE_RDSR OR OP_SW OR WP_VALUE) s);
     let sr = (ucast (reg_sr_crc s AND 0x00FF) :: u16);
     if sr_width = 2 then do {
       s \<leftarrow> wait_busy (write_operate E (op_word FLASH_OPCODE_RDSR2 OR OP_SW OR WP_VALUE) s);
       Some (sr OR ucast (push_bit 8 (reg_sr_crc s AND 0x00FF)), s) }
     else Some (sr, s) }"

definition set_wrsr_data :: "u32 \<Rightarrow> 'c flash \<Rightarrow> 'c flash" where
  "set_wrsr_data v s =
     s\<lparr>reg_conf := (reg_conf s AND NOT (push_bit 10 WRSR_DATA_MASK)) OR push_bit 10 v\<rparr>"

definition flash_write_sr :: "'c flash_env \<Rightarrow> u8 \<Rightarrow> u16 \<Rightarrow> bool \<Rightarrow> 'c flash \<Rightarrow> 'c flash option" where
  "flash_write_sr E sr_width val isvolatile s =
     (let (done, s) = (case flash_wr_sr_bypass s of
          None \<Rightarrow> (False, s)
        | Some cb \<Rightarrow> (let (ret, c) = cb (ucast sr_width) (ucast val) (chip_st s) in (ret = 1, s\<lparr>chip_st := c\<rparr>)));
          volatile_reg = (env_soc E = SOC_BK7252N \<and> isvolatile) in
      if done then Some s
      else do {
        s \<leftarrow> wait_busy s;
        s \<leftarrow> (if volatile_reg then wait_busy (s\<lparr>reg_wrsr := push_bit 8 0x50 OR push_bit 17 1\<rparr>) else Some s);
        s \<leftarrow> wait_busy (set_wrsr_data (ucast val) s);
        s \<leftarrow> wait_busy (if sr_width = 1 then write_operate E (op_word FLASH_OPCODE_WRSR OR OP_SW OR WP_VALUE) s
                         else if sr_width = 2 then write_operate E (op_word FLASH_OPCODE_WRSR2 OR OP_SW OR WP_VALUE) s
                         else s);
        if volatile_reg
        then wait_busy (s\<lparr>reg_wrsr := reg_wrsr s AND NOT (push_bit 8 0xFF OR push_bit 17 1)\<rparr>)
        else Some s })"

definition flash_read_qe :: "'c flash_env \<Rightarrow> 'c flash \<Rightarrow> (u8 \<times> 'c flash) option" where
  "flash_read_qe E s = do {
     cfg \<leftarrow> flash_current_config s;
     s \<leftarrow> wait_busy (write_operate E
        (op_word (if sr_size cfg = 1 then FLASH_OPCODE_RDSR else FLASH_OPCODE_RDSR2) OR OP_SW OR WP_VALUE) s);
     Some (ucast (reg_sr_crc s AND 0xFF), s) }"

definition flash_set_qe :: "'c flash_env \<Rightarrow> 'c flash \<Rightarrow> 'c flash option" where
  "flash_set_qe E s = do {
     s \<leftarrow> wait_busy s;
     cfg \<leftarrow> flash_current_config s;
     (sr, s) \<leftarrow> flash_read_sr E (sr_size cfg) s;
     let param = (ucast sr :: u32);
     let qe = (push_bit (unat (qe_bit_post cfg)) (ucast (qe_bit cfg)) :: u32);
     if param AND qe \<noteq> 0 then Some s
     else do {
       let s = set_wrsr_data (qe OR param) s;
       let value = reg_operate s AND ADDR_SW_REG_MASK;
       wait_busy (write_operate E
         (value OR op_word (if sr_size cfg = 1 then FLASH_OPCODE_WRSR else FLASH_OPCODE_WRSR2) OR OP_SW OR WP_VALUE) s) } }"

definition flash_set_qwfr :: "'c flash \<Rightarrow> 'c flash option" where
  "flash_set_qwfr s = do {
     cfg \<leftarrow> flash_current_config s;
     Some (s\<lparr>reg_conf := (reg_conf s AND NOT (push_bit 4 MODEL_SEL_MASK)) OR push_bit 4 (ucast (mode_sel cfg))\<rparr>) }"

definition flash_clr_qwfr :: "'c flash_env \<Rightarrow> 'c flash \<Rightarrow> 'c flash option" where
  "flash_clr_qwfr E s =
     (let s = s\<lparr>reg_conf := reg_conf s AND NOT (push_bit 4 MODEL_SEL_MASK)\<rparr> in
      wait_busy (write_operate E (op_word FLASH_OPCODE_CRMR OR OP_SW OR (reg_operate s AND WP_VALUE)) s))"

definition flash_set_wsr :: "'c flash_env \<Rightarrow> u16 \<Rightarrow> 'c flash \<Rightarrow> 'c flash option" where
  "flash_set_wsr E d s = do {
     s \<leftarrow> wait_busy s;
     let s = set_wrsr_data (ucast d) s;
     wait_busy (write_operate E
       ((reg_operate s AND ADDR_SW_REG_MASK) OR op_word FLASH_OPCODE_WRSR2 OR OP_SW OR WP_VALUE) s) }"

section \<open>Line mode and identification\<close>

definition flash_support_wide_voltage :: "'c flash \<Rightarrow> bool" where
  "flash_support_wide_voltage s \<longleftrightarrow> flash_id s = 0xC86515"

definition flash_get_line_mode :: "'c flash \<Rightarrow> u8 option" where
  "flash_get_line_mode s = map_option line_mode (flash_current_config s)"

definition flash_set_line_mode :: "'c flash_env \<Rightarrow> u8 \<Rightarrow> 'c flash \<Rightarrow> 'c flash option" where
  "flash_set_line_mode E mode s = do {
     s \<leftarrow> (if mode = 1 \<and> curr_line_mode s \<noteq> 1 then do {
              s \<leftarrow> flash_clr_qwfr E s; Some (s\<lparr>curr_line_mode := 1\<rparr>) }
            else Some s);
     if mode = 2 \<and> curr_line_mode s \<noteq> 2 then do {
       s \<leftarrow> flash_clr_qwfr E s;
       Some (s\<lparr>reg_conf := (reg_conf s AND NOT (push_bit 4 MODEL_SEL_MASK)) OR push_bit 4 (1 AND MODEL_SEL_MASK),
         curr_line_mode := 2\<rparr>) }
     else if mode = 4 \<and> curr_line_mode s \<noteq> 4 then do {
       s \<leftarrow> flash_clr_qwfr E s;
       cfg \<leftarrow> flash_current_config s;
       s \<leftarrow> flash_set_qwfr (s\<lparr>reg_sr_crc := (reg_sr_crc s AND NOT (push_bit 22 M_VALUE_MASK))
              OR push_bit 22 (ucast (m_value cfg))\<rparr>);
       Some (s\<lparr>curr_line_mode := 4\<rparr>) }
     else Some s }"

definition flash_get_id :: "'c flash_env \<Rightarrow> 'c flash \<Rightarrow> (u32 \<times> 'c flash) option" where
  "flash_get_id E s = do {
     m \<leftarrow> flash_get_line_mode s;
     s \<leftarrow> (if m = 4 then flash_set_line_mode E 2 s else Some s);
     s \<leftarrow> wait_busy (write_operate E (op_word FLASH_OPCODE_RDID OR OP_SW OR WP_VALUE) s);
     let s = s\<lparr>flash_id := reg_rdid s\<rparr>;
     m \<leftarrow> flash_get_line_mode s;
     s \<leftarrow> (if m = 4 then flash_set_line_mode E 4 s else Some s);
     Some (flash_id s, s) }"

definition flash_get_size :: "'c flash \<Rightarrow> u32" where
  "flash_get_size s = (case flash_current_config s of None \<Rightarrow> 0x200000 | Some cfg \<Rightarrow> flash_size cfg)"

definition flash_is_xtx_type :: "'c flash \<Rightarrow> u32" where
  "flash_is_xtx_type s =
     (let i = flash_id s in
      if i = 0x0B4014 \<or> i = 0x0B4015 \<or> i = 0x0B4016 \<or> i = 0x0B4017 \<or> i = 0x0E4016 then 1
      else if i = 0x854215 \<or> i = 0x856015 \<or> i = 0x852015 \<or> i = 0x852016 then 1 else 0)"

definition flash_is_support_0x50h_cmd :: "'c flash \<Rightarrow> u32" where
  "flash_is_support_0x50h_cmd s = flash_is_xtx_type s"

definition flash_register_bypass_cb :: "(u32 \<Rightarrow> u32 \<Rightarrow> 'c \<Rightarrow> int \<times> 'c) option \<Rightarrow> 'c flash \<Rightarrow> u32 \<times> 'c flash" where
  "flash_register_bypass_cb cb s = (0, s\<lparr>flash_wr_sr_bypass := cb\<rparr>)"

definition flash_read_mid :: "'c flash_env \<Rightarrow> 'c flash \<Rightarrow> (u32 \<times> 'c flash) option" where
  "flash_read_mid E s = do {
     s \<leftarrow> wait_busy s;
     let value = reg_operate s;
     s \<leftarrow> wait_busy (write_operate E
        ((value AND ADDR_SW_REG_MASK) OR op_word FLASH_OPCODE_RDID OR OP_SW OR (value AND WP_VALUE)) s);
     Some (reg_rdid s, s) }"

section \<open>Block protection\<close>

definition get_flash_protect :: "'c flash_env \<Rightarrow> 'c flash \<Rightarrow> (PROTECT_TYPE \<times> 'c flash) option" where
  "get_flash_protect E s = do {
     cfg \<leftarrow> flash_current_config s;
     (sr_value, s) \<leftarrow> flash_read_sr E (sr_size cfg) s;
     let param = drop_bit (unat (protect_post cfg)) sr_value AND ucast (protect_mask cfg);
     let cmp = drop_bit (unat (cmp_post cfg)) sr_value AND 0x01;
     let value = push_bit 8 cmp OR param;
     Some (if value = protect_all cfg then FLASH_PROTECT_ALL
           else if value = protect_none cfg then FLASH_PROTECT_NONE
           else if value = protect_half cfg then FLASH_PROTECT_HALF
           else if value = unprotect_last_block cfg then FLASH_UNPROTECT_LAST_BLOCK
           else PROTECT_OTHER, s) }"

fun protect_setting :: "flash_config_t \<Rightarrow> PROTECT_TYPE \<Rightarrow> u16" where
  "protect_setting cfg FLASH_PROTECT_NONE = protect_none cfg"
| "protect_setting cfg FLASH_PROTECT_ALL = protect_all cfg"
| "protect_setting cfg FLASH_PROTECT_HALF = protect_half cfg"
| "protect_setting cfg FLASH_UNPROTECT_LAST_BLOCK = unprotect_last_block cfg"
| "protect_setting cfg PROTECT_OTHER = protect_all cfg"

definition set_flash_protect :: "'c flash_env \<Rightarrow> PROTECT_TYPE \<Rightarrow> bool \<Rightarrow> 'c flash \<Rightarrow> 'c flash option" where
  "set_flash_protect E type isvolatile s = do {
     cfg \<leftarrow> flash_current_config s;
     let param = (ucast (protect_setting cfg type AND 0xff) :: u32);
     let cmp = (ucast (drop_bit 8 (protect_setting cfg type) AND 0xff) :: u32);
     let pp = unat (protect_post cfg);
     let cp = unat (cmp_post cfg);
     let mask = (push_bit pp (ucast (protect_mask cfg)) :: u32);
     (sr, s) \<leftarrow> flash_read_sr E (sr_size cfg) s;
     let value = (ucast sr :: u32);
     if push_bit pp param \<noteq> value AND mask \<or> push_bit cp cmp \<noteq> value AND push_bit cp 1 then
       (let value = (value AND NOT mask) OR push_bit pp param;
            value = value AND NOT (push_bit cp 1);
            value = value OR push_bit cp (cmp AND 0x01) in
        flash_write_sr E (sr_size cfg) (ucast value) isvolatile s)
     else Some s }"

definition flash_protection_op :: "'c flash_env \<Rightarrow> PROTECT_TYPE \<Rightarrow> 'c flash \<Rightarrow> 'c flash option" where
  "flash_protection_op E type s = set_flash_protect E type True s"

section \<open>Erasing, reading and writing\<close>

definition flash_erase_sector :: "'c flash_env \<Rightarrow> u32 \<Rightarrow> 'c flash \<Rightarrow> 'c flash option" where
  "flash_erase_sector E address s = do {
     cfg \<leftarrow> flash_current_config s;
     let erase_addr = address AND 0xFFF000;
     if erase_addr \<ge> flash_size cfg then Some s
     else do {
       s \<leftarrow> wait_busy s;
       wait_busy (write_operate E
         (erase_addr OR op_word FLASH_OPCODE_SE OR OP_SW OR (reg_operate s AND WP_VALUE)) s) } }"

definition flash_set_hpm :: "'c flash_env \<Rightarrow> 'c flash \<Rightarrow> 'c flash option" where
  "flash_set_hpm E s = do {
     s \<leftarrow> wait_busy s;
     wait_busy (write_operate E (op_word FLASH_OPCODE_HPM OR OP_SW OR (reg_operate s AND WP_VALUE)) s) }"

text \<open>\<open>for(i = 0; i < 8; i++) buf[i] = REG_READ(REG_FLASH_DATA_FLASH_SW);\<close>\<close>

fun read_words :: "nat \<Rightarrow> 'c flash \<Rightarrow> (u32 list \<times> 'c flash) option" where
  "read_words 0 s = Some ([], s)"
| "read_words (Suc n) s = do { (w, s) \<leftarrow> read_fifo s; (ws, s) \<leftarrow> read_words n s; Some (w # ws, s) }"

text \<open>
  The inner loop of the read: bytes \<open>i, i + 1, \<dots>\<close> of the 32-byte block go to the buffer until the
  block or the length is exhausted. It returns the bytes stored, the address and the length left.
\<close>

function copy_out :: "byte list \<Rightarrow> nat \<Rightarrow> u32 \<Rightarrow> u32 \<Rightarrow> byte list \<Rightarrow> byte list \<times> u32 \<times> u32" where
  "copy_out pb i address len buffer =
     (if i < 32 then
        (let buffer = buffer @ [pb ! i]; address = address + 1; len = len - 1 in
         if len = 0 then (buffer, address, len) else copy_out pb (Suc i) address len buffer)
      else (buffer, address, len))"
  by pat_completeness auto
termination by (relation "measure (\<lambda>(pb, i, address, len, buffer). 32 - i)") auto

declare copy_out.simps [simp del]

lemma copy_out_len:
  "i < 32 \<Longrightarrow> len \<noteq> 0 \<Longrightarrow> unat (snd (snd (copy_out pb i address len buffer))) < unat len"
proof (induction pb i address len buffer rule: copy_out.induct)
  case (1 pb i address len buffer)
  have d: "unat (len - 1) < unat len" using "1.prems"(2) by (simp add: unat_minus_one unat_gt_0)
  show ?case
  proof (cases "len = 1 \<or> Suc i = 32")
    case True
    then show ?thesis using "1.prems" d by (subst copy_out.simps) (auto simp: Let_def copy_out.simps)
  next
    case False
    then have "unat (snd (snd (copy_out pb (Suc i) (address + 1) (len - 1) (buffer @ [pb ! i])))) < unat (len - 1)"
      using "1.IH" [OF "1.prems"(1) refl refl refl] "1.prems" by auto
    then have "unat (snd (snd (copy_out pb (Suc i) (address + 1) (len - 1) (buffer @ [pb ! i])))) < unat len"
      using d by (rule less_trans)
    then show ?thesis using False "1.prems" by (subst copy_out.simps) (auto simp: Let_def)
  qed
qed

text \<open>One block of the read: the command word carries the address unmasked, as in the source.\<close>

definition read_block :: "'c flash_env \<Rightarrow> FLASH_OPCODE \<Rightarrow> u32 \<Rightarrow> 'c flash \<Rightarrow> (byte list \<times> 'c flash) option" where
  "read_block E op a s = do {
     s \<leftarrow> wait_busy (write_operate E (a OR op_word op OR OP_SW OR (reg_operate s AND WP_VALUE)) s);
     (buf, s) \<leftarrow> read_words 8 s;
     Some (bytes_of_words buf, s) }"

text \<open>
  The outer loop, shared by \<open>flash_read_data\<close> and \<open>flash_read_opt_data\<close>, which differ in the opcode
  and in the address part \<open>f addr\<close> of the command.
\<close>

function flash_read_loop ::
  "'c flash_env \<Rightarrow> FLASH_OPCODE \<Rightarrow> (u32 \<Rightarrow> u32) \<Rightarrow> u32 \<Rightarrow> u32 \<Rightarrow> u32 \<Rightarrow> byte list \<Rightarrow> 'c flash \<Rightarrow> (byte list \<times> 'c flash) option" where
  "flash_read_loop E op f addr address len buffer s =
     (if len = 0 then Some (buffer, s)
      else do {
        (pb, s) \<leftarrow> read_block E op (f addr) s;
        (case copy_out pb (unat (address mod 32)) address len buffer of
           (buffer, address, len') \<Rightarrow> flash_read_loop E op f (addr + 32) address len' buffer s) })"
  by pat_completeness auto
termination
proof (relation "measure (\<lambda>(E, op, f, addr, address, len, buffer, s). unat len)", goal_cases)
  case (2 E op f addr address len buffer s x pb s1 buffer' y address' len')
  have "unat (address mod 32) < 32" by (simp add: unat_mod)
  then have "unat (snd (snd (copy_out pb (unat (address mod 32)) address len buffer))) < unat len"
    using 2(1) by (rule copy_out_len)
  moreover have "snd (snd (copy_out pb (unat (address mod 32)) address len buffer)) = len'"
    using 2(4,5) by (metis snd_conv)
  ultimately show ?case by simp
qed auto

declare flash_read_loop.simps [simp del]

definition flash_read_data :: "'c flash_env \<Rightarrow> u32 \<Rightarrow> u32 \<Rightarrow> 'c flash \<Rightarrow> (byte list \<times> 'c flash) option" where
  "flash_read_data E address len s =
     (if len = 0 then Some ([], s)
      else do { s \<leftarrow> wait_busy s; flash_read_loop E FLASH_OPCODE_READ (\<lambda>a. a) (address AND NOT 0x1F) address len [] s })"

text \<open>The inner loop of the write: the next bytes of the source go to positions \<open>i, i + 1, \<dots>\<close> of the block.\<close>

function copy_in :: "byte list \<Rightarrow> nat \<Rightarrow> u32 \<Rightarrow> u32 \<Rightarrow> byte list \<Rightarrow> (byte list \<times> u32 \<times> u32 \<times> byte list) option" where
  "copy_in pb i address len buffer =
     (if i < 32 then
        (case buffer of [] \<Rightarrow> None
         | b # rest \<Rightarrow>
           (let pb = pb[i := b]; address = address + 1; len = len - 1 in
            if len = 0 then Some (pb, address, len, rest) else copy_in pb (Suc i) address len rest))
      else Some (pb, address, len, buffer))"
  by pat_completeness auto
termination by (relation "measure (\<lambda>(pb, i, address, len, buffer). 32 - i)") auto

declare copy_in.simps [simp del]

lemma copy_in_32: "copy_in pb 32 address len buffer = Some (pb, address, len, buffer)"
  by (simp add: copy_in.simps)

lemma copy_in_len:
  "i < 32 \<Longrightarrow> len \<noteq> 0 \<Longrightarrow> copy_in pb i address len buffer = Some (pb', address', len', buffer') \<Longrightarrow> unat len' < unat len"
proof (induction pb i address len buffer rule: copy_in.induct)
  case (1 pb i address len buffer)
  have d: "unat (len - 1) < unat len" using "1.prems"(2) by (simp add: unat_minus_one unat_gt_0)
  obtain b rest where b: "buffer = b # rest"
    using "1.prems"(1,3) by (subst (asm) copy_in.simps) (auto split: list.splits)
  show ?case
  proof (cases "len = 1 \<or> Suc i = 32")
    case True
    then show ?thesis using "1.prems" d b 
      by (subst (asm) copy_in.simps) (auto simp: Let_def copy_in_32 split: if_splits)
  next
    case False
    then have "copy_in (pb[i := b]) (Suc i) (address + 1) (len - 1) rest = Some (pb', address', len', buffer')"
      using "1.prems" b by (subst (asm) copy_in.simps) (auto simp: Let_def)
    then have "unat len' < unat (len - 1)"
      using "1.IH" [OF "1.prems"(1) b refl refl refl] "1.prems" False by auto
    then show ?thesis using d by (rule less_trans)
  qed
qed

text \<open>\<open>for (i = 0; i < 8; i++) REG_WRITE(REG_FLASH_DATA_SW_FLASH, buf[i]);\<close> and the program command.\<close>

definition program_block :: "'c flash_env \<Rightarrow> u32 \<Rightarrow> byte list \<Rightarrow> 'c flash \<Rightarrow> 'c flash option" where
  "program_block E addr pb s =
     (let s = fold (\<lambda>w s. s\<lparr>fifo_in := fifo_in s @ [w]\<rparr>) (words_of_bytes 8 pb) s in
      wait_busy (write_operate E (addr OR op_word FLASH_OPCODE_PP OR OP_SW OR (reg_operate s AND WP_VALUE)) s))"

function flash_write_loop ::
  "'c flash_env \<Rightarrow> u32 \<Rightarrow> u32 \<Rightarrow> u32 \<Rightarrow> byte list \<Rightarrow> byte list \<Rightarrow> 'c flash \<Rightarrow> 'c flash option" where
  "flash_write_loop E addr address len buffer pb s =
     (if len = 0 then Some s
      else do {
        (pb, s) \<leftarrow> (if len < 32 then do { (pb, s) \<leftarrow> flash_read_data E addr 32 s; s \<leftarrow> wait_busy s; Some (pb, s) }
                     else Some (pb, s));
        r \<leftarrow> copy_in pb (unat (address mod 32)) address len buffer;
        (case r of (pb, address, len', buffer) \<Rightarrow> do {
          s \<leftarrow> program_block E addr pb s;
          flash_write_loop E (addr + 32) address len' buffer (replicate 32 0xFF) s }) })"
  by pat_completeness auto
termination
proof (relation "measure (\<lambda>(E, addr, address, len, buffer, pb, s). unat len)", goal_cases)
  case (2 E addr address len buffer pb s x pb1 s1 r pb2 y address' z len' buffer' s2)
  have "unat (address mod 32) < 32" by (simp add: unat_mod)
  moreover have "copy_in pb1 (unat (address mod 32)) address len buffer = Some (pb2, address', len', buffer')"
    using 2 by simp
  ultimately have "unat len' < unat len" using 2(1) copy_in_len by blast
  then show ?case by simp
qed auto

declare flash_write_loop.simps [simp del]

definition flash_write_data :: "'c flash_env \<Rightarrow> byte list \<Rightarrow> u32 \<Rightarrow> u32 \<Rightarrow> 'c flash \<Rightarrow> 'c flash option" where
  "flash_write_data E buffer address len s = do {
     cfg \<leftarrow> flash_current_config s;
     let addr = address AND NOT 0x1F;
     if addr \<ge> flash_size cfg \<or> len > flash_size cfg \<or> addr + len > flash_size cfg then Some s
     else do {
       (pb, s) \<leftarrow> (if address mod 32 \<noteq> 0 then flash_read_data E addr 32 s else Some (replicate 32 0xFF, s));
       s \<leftarrow> wait_busy s;
       flash_write_loop E addr address len buffer pb s } }"

fun page_write_loop :: "'c flash_env \<Rightarrow> nat \<Rightarrow> byte list \<Rightarrow> u32 \<Rightarrow> 'c flash \<Rightarrow> (byte list \<times> u32 \<times> 'c flash) option" where
  "page_write_loop E 0 buffer address s = Some (buffer, address, s)"
| "page_write_loop E (Suc n) buffer address s = do {
     let s = write_pw_conf FLASH_PW_MEM_CLR s;
     page \<leftarrow> buf_get buffer 0 256;
     let s = fold (\<lambda>b s. write_pw_conf (ucast b AND 0xFF) s) page s;
     s \<leftarrow> wait_busy (write_operate E (address OR op_word FLASH_OPCODE_PP OR OP_SW OR (reg_operate s AND WP_VALUE)) s);
     page_write_loop E n (drop 256 buffer) (address + 256) s }"

text \<open>
  \<open>flash_page_write_data\<close> in its three parts: up to the next page boundary, the whole pages, the
  rest. A part returns the buffer, the address and the length that are left.
\<close>

definition page_head :: "'c flash_env \<Rightarrow> byte list \<Rightarrow> u32 \<Rightarrow> u32 \<Rightarrow> 'c flash \<Rightarrow> (byte list \<times> u32 \<times> u32 \<times> 'c flash) option" where
  "page_head E buffer address len s =
     (if address mod 256 \<noteq> 0 then do {
        let cnt = 256 - address mod 256;
        s \<leftarrow> flash_write_data E buffer address cnt s;
        Some (drop (unat cnt) buffer, address + cnt, len - cnt, s) }
      else Some (buffer, address, len, s))"

definition page_body :: "'c flash_env \<Rightarrow> byte list \<Rightarrow> u32 \<Rightarrow> u32 \<Rightarrow> 'c flash \<Rightarrow> (byte list \<times> u32 \<times> 'c flash) option" where
  "page_body E buffer address len s =
     (let cnt = len div 256 in
      if cnt \<noteq> 0 then do {
        s \<leftarrow> wait_busy s;
        let s = s\<lparr>reg_sr_crc := reg_sr_crc s OR PAGE_WRITE_EN\<rparr>;
        (buffer, address, s) \<leftarrow> page_write_loop E (unat cnt) buffer address s;
        Some (buffer, address, s\<lparr>reg_sr_crc := reg_sr_crc s AND NOT PAGE_WRITE_EN\<rparr>) }
      else Some (buffer, address, s))"

definition flash_page_write_data :: "'c flash_env \<Rightarrow> byte list \<Rightarrow> u32 \<Rightarrow> u32 \<Rightarrow> 'c flash \<Rightarrow> 'c flash option" where
  "flash_page_write_data E buffer address len s = do {
     cfg \<leftarrow> flash_current_config s;
     if address \<ge> flash_size cfg \<or> len > flash_size cfg \<or> address + len > flash_size cfg then Some s
     else do {
       (buffer, address, len, s) \<leftarrow> page_head E buffer address len s;
       (buffer, address, s) \<leftarrow> page_body E buffer address len s;
       if len mod 256 \<noteq> 0 then flash_write_data E buffer address (len mod 256) s else Some s } }"

definition has_page_write :: "'c flash_env \<Rightarrow> bool" where
  "has_page_write E \<longleftrightarrow> env_soc E = SOC_BK7238 \<or> env_soc E = SOC_BK7252N"

section \<open>The operations of the flash device\<close>

text \<open>
  \<open>line_mode_enter\<close> and \<open>line_mode_leave\<close> are the two guarded calls of \<open>flash_set_line_mode\<close>
  around the work of \<open>flash_write\<close> and \<open>flash_ctrl\<close>.
\<close>

definition line_mode_enter :: "'c flash_env \<Rightarrow> 'c flash \<Rightarrow> 'c flash option" where
  "line_mode_enter E s = do {
     cfg \<leftarrow> flash_current_config s; if line_mode cfg = 4 then flash_set_line_mode E 2 s else Some s }"

definition line_mode_leave :: "'c flash_env \<Rightarrow> 'c flash \<Rightarrow> 'c flash option" where
  "line_mode_leave E s = do {
     cfg \<leftarrow> flash_current_config s; if line_mode cfg = 4 then flash_set_line_mode E 4 s else Some s }"

definition flash_read :: "'c flash_env \<Rightarrow> u32 \<Rightarrow> u32 \<Rightarrow> 'c flash \<Rightarrow> (u32 \<times> byte list \<times> 'c flash) option" where
  "flash_read E count address s = do {
     let s = s\<lparr>peri_busy := peri_busy s + 1\<rparr>;
     (user_buf, s) \<leftarrow> flash_read_data E address count s;
     Some (FLASH_SUCCESS, user_buf, s\<lparr>peri_busy := peri_busy s - 1\<rparr>) }"

definition flash_write :: "'c flash_env \<Rightarrow> byte list \<Rightarrow> u32 \<Rightarrow> u32 \<Rightarrow> 'c flash \<Rightarrow> (u32 \<times> 'c flash) option" where
  "flash_write E user_buf count address s = do {
     let s = s\<lparr>peri_busy := peri_busy s + 1\<rparr>;
     s \<leftarrow> line_mode_enter E s;
     s \<leftarrow> (if has_page_write E \<and> count > 256 then flash_page_write_data E user_buf address count s
            else flash_write_data E user_buf address count s);
     s \<leftarrow> line_mode_leave E s;
     Some (FLASH_SUCCESS, s\<lparr>peri_busy := peri_busy s - 1\<rparr>) }"

subsection \<open>One-time-programmable memory and unique identifier\<close>

text \<open>
  \<open>otp_buf\<close> is \<open>None\<close> for a \<open>NULL\<close> buffer, otherwise the bytes stored so far; the pointer advances
  behind them.
\<close>

record flash_otp_t =
  otp_buf :: "byte list option"
  otp_addr :: u32
  otp_len :: u32

definition puya_chip :: "'c flash \<Rightarrow> bool" where
  "puya_chip s \<longleftrightarrow> flash_id s = 0x854215 \<or> flash_id s = 0x852015 \<or> flash_id s = 0x856015"

definition flash_read_opt_data ::
  "'c flash_env \<Rightarrow> u8 \<Rightarrow> byte list option \<Rightarrow> u32 \<Rightarrow> u32 \<Rightarrow> 'c flash \<Rightarrow> (int \<times> byte list option \<times> 'c flash) option" where
  "flash_read_opt_data E grp buffer address len s =
     (let addr = address AND NOT 0x1F in
      if len = 0 then Some (0, buffer, s)
      else if address \<ge> 1024 then Some (-1, buffer, s)
      else (case buffer of None \<Rightarrow> Some (-2, buffer, s)
        | Some b \<Rightarrow>
          if puya_chip s \<and> (grp < 1 \<or> grp > 3) then Some (-3, buffer, s)
          else if \<not> puya_chip s \<and> flash_id s = 0xC86515 \<and> grp > 1 then Some (-3, buffer, s)
          else if \<not> puya_chip s \<and> flash_id s \<noteq> 0xC86515 then Some (-4, buffer, s)
          else (let len = (if address + len > 1024 then 1024 - address else len) in do {
            s \<leftarrow> wait_busy s;
            (b, s) \<leftarrow> flash_read_loop E FLASH_OPCODE_RDSCR (\<lambda>a. push_bit 12 (ucast grp) OR (a AND 0x3FF))
                       addr address len b s;
            Some (uint len, Some b, s) })))"

function flash_read_otp_loop ::
  "'c flash_env \<Rightarrow> u8 \<Rightarrow> u8 \<Rightarrow> u32 \<Rightarrow> flash_otp_t \<Rightarrow> 'c flash \<Rightarrow> (u32 \<times> flash_otp_t \<times> 'c flash) option" where
  "flash_read_otp_loop E slot slot_max read_len param s =
     (if otp_len param = 0 then Some (read_len, param, s)
      else (let read_addr = otp_addr param mod 1024; slot_len = 1024 - read_addr;
                read_size = (if otp_len param > slot_len then slot_len else otp_len param) in do {
        (ret, buf, s) \<leftarrow> flash_read_opt_data E slot (otp_buf param) read_addr read_size s;
        if ret > 0 then
          (let param' = \<lparr>otp_buf = buf, otp_addr = otp_addr param + read_size, otp_len = otp_len param - read_size\<rparr> in
           if slot + 1 > slot_max then Some (read_len + read_size, param', s)
           else flash_read_otp_loop E (slot + 1) slot_max (read_len + read_size) param' s)
        else Some (read_len, param\<lparr>otp_buf := buf\<rparr>, s) }))"
  by pat_completeness auto
termination
proof (relation "measure (\<lambda>(E, slot, slot_max, read_len, param, s). unat (otp_len param))", goal_cases)
  case (2 E slot slot_max read_len param s)
  have "unat (otp_addr param mod 1024) < 1024" by (simp add: unat_mod)
  then have "unat (1024 - otp_addr param mod 1024) > 0" by (simp add: unat_sub_no_wrap)
  then show ?case
    using 2 by (auto simp: word_less_nat_alt unat_sub_no_wrap unat_gt_0 split: if_splits)
qed auto

declare flash_read_otp_loop.simps [simp del]

definition flash_read_otp :: "'c flash_env \<Rightarrow> flash_otp_t option \<Rightarrow> 'c flash \<Rightarrow> (u32 \<times> flash_otp_t option \<times> 'c flash) option" where
  "flash_read_otp E param s =
     (case param of None \<Rightarrow> Some (0, param, s)
      | Some p \<Rightarrow>
        if otp_buf p = None then Some (0, param, s)
        else (let slot = (ucast (otp_addr p div 1024) :: u8) in
          if puya_chip s then
            if slot > 2 then Some (0, param, s)
            else do { (r, p, s) \<leftarrow> flash_read_otp_loop E (slot + 1) 3 0 p s; Some (r, Some p, s) }
          else if flash_id s = 0xC86515 then
            if slot > 1 then Some (0, param, s)
            else do { (r, p, s) \<leftarrow> flash_read_otp_loop E slot 1 0 p s; Some (r, Some p, s) }
          else Some (0, param, s)))"

definition flash_read_uid :: "'c flash_env \<Rightarrow> flash_otp_t option \<Rightarrow> 'c flash \<Rightarrow> (int \<times> flash_otp_t option \<times> 'c flash) option" where
  "flash_read_uid E param s =
     (case param of None \<Rightarrow> Some (0, param, s)
      | Some p \<Rightarrow>
        (case otp_buf p of None \<Rightarrow> Some (0, param, s)
         | Some b \<Rightarrow>
           (let (ret, rx_buf) = env_bypass_read E [0x4B, 0x00, 0x00, 0x00, 0x00] 16 (chip_st s) in
            if ret > 0 then
              (let cp_len = (if sint (otp_len p) > ret then ret else sint (otp_len p)) in
               if cp_len < 0 then None
               else do {
                 d \<leftarrow> buf_get rx_buf 0 (nat cp_len);
                 Some (cp_len, Some (p\<lparr>otp_buf := Some (b @ d)\<rparr>), s) })
            else Some (ret, param, s))))"

subsection \<open>Control\<close>

datatype FLASH_CMD = CMD_FLASH_SET_CLK | CMD_FLASH_SET_DCO | CMD_FLASH_SET_DPLL | CMD_FLASH_WRITE_ENABLE
  | CMD_FLASH_WRITE_DISABLE | CMD_FLASH_READ_SR | CMD_FLASH_WRITE_SR | CMD_FLASH_READ_QE | CMD_FLASH_SET_QE
  | CMD_FLASH_READ_OTP | CMD_FLASH_SET_QWFR | CMD_FLASH_CLR_QWFR | CMD_FLASH_SET_WSR | CMD_FLASH_GET_ID
  | CMD_FLASH_GET_SIZE | CMD_FLASH_READ_MID | CMD_FLASH_ERASE_SECTOR | CMD_FLASH_SET_HPM
  | CMD_FLASH_GET_PROTECT | CMD_FLASH_SET_PROTECT | CMD_FLASH_GET_UID | CMD_FLASH_UNKNOWN

datatype flash_parm = PARM_NULL | PARM_U8 u8 | PARM_U16 u16 | PARM_U32 u32 | PARM_OTP "flash_otp_t option"

definition set_clk_conf :: "u32 \<Rightarrow> 'c flash \<Rightarrow> 'c flash" where
  "set_clk_conf v s = s\<lparr>reg_conf := (reg_conf s AND NOT FLASH_CLK_CONF_MASK) OR v\<rparr>"

text \<open>The \<open>switch\<close> of \<open>flash_ctrl\<close>: the status, the value left in \<open>*parm\<close>, the state.\<close>

definition flash_ctrl_switch ::
  "'c flash_env \<Rightarrow> FLASH_CMD \<Rightarrow> flash_parm \<Rightarrow> 'c flash \<Rightarrow> (u32 \<times> flash_parm \<times> 'c flash) option" where
  "flash_ctrl_switch E cmd parm s =
     (let ok = map_option (\<lambda>s. (FLASH_SUCCESS, parm, s)) in
      case (cmd, parm) of
        (CMD_FLASH_SET_CLK, PARM_U8 clk) \<Rightarrow> ok (Some (flash_set_clk clk s))
      | (CMD_FLASH_SET_DPLL, _) \<Rightarrow>
          ok (Some (set_clk_conf 5 (s\<lparr>sctrl_log := sctrl_log s @ [CMD_SCTRL_SET_FLASH_DPLL]\<rparr>)))
      | (CMD_FLASH_SET_DCO, _) \<Rightarrow>
          ok (Some (set_clk_conf (if env_ate E \<and> \<not> has_page_write E then 0xB else 9)
            (s\<lparr>sctrl_log := sctrl_log s @ [CMD_SCTRL_SET_FLASH_DCO]\<rparr>)))
      | (CMD_FLASH_WRITE_ENABLE, _) \<Rightarrow> ok (flash_write_enable E s)
      | (CMD_FLASH_WRITE_DISABLE, _) \<Rightarrow> ok (flash_write_disable E s)
      | (CMD_FLASH_READ_SR, PARM_U16 _) \<Rightarrow>
          do { (v, s) \<leftarrow> flash_read_sr E 2 s; Some (FLASH_SUCCESS, PARM_U16 v, s) }
      | (CMD_FLASH_WRITE_SR, PARM_U32 v) \<Rightarrow>
          ok (flash_write_sr E (ucast (v AND 0x00FF)) (ucast (drop_bit 8 v AND 0x00FFFF)) True s)
      | (CMD_FLASH_READ_QE, PARM_U8 _) \<Rightarrow>
          do { (v, s) \<leftarrow> flash_read_qe E s; Some (FLASH_SUCCESS, PARM_U8 v, s) }
      | (CMD_FLASH_SET_QE, _) \<Rightarrow>
          do { cfg \<leftarrow> flash_current_config s; ok (if qe_bit cfg \<noteq> 0 then flash_set_qe E s else Some s) }
      | (CMD_FLASH_SET_QWFR, _) \<Rightarrow> ok (flash_set_qwfr s)
      | (CMD_FLASH_CLR_QWFR, _) \<Rightarrow> ok (flash_clr_qwfr E s)
      | (CMD_FLASH_SET_WSR, PARM_U16 wsr) \<Rightarrow> ok (flash_set_wsr E wsr s)
      | (CMD_FLASH_GET_ID, PARM_U32 _) \<Rightarrow>
          do { (v, s) \<leftarrow> flash_get_id E s; Some (FLASH_SUCCESS, PARM_U32 v, s) }
      | (CMD_FLASH_GET_SIZE, PARM_U32 _) \<Rightarrow> Some (FLASH_SUCCESS, PARM_U32 (flash_get_size s), s)
      | (CMD_FLASH_READ_MID, PARM_U32 _) \<Rightarrow>
          do { (v, s) \<leftarrow> flash_read_mid E s; Some (FLASH_SUCCESS, PARM_U32 v, s) }
      | (CMD_FLASH_GET_PROTECT, PARM_U32 _) \<Rightarrow>
          do { (t, s) \<leftarrow> get_flash_protect E s; Some (FLASH_SUCCESS, PARM_U32 (protect_code t), s) }
      | (CMD_FLASH_ERASE_SECTOR, PARM_U32 address) \<Rightarrow> ok (flash_erase_sector E address s)
      | (CMD_FLASH_SET_HPM, _) \<Rightarrow> ok (flash_set_hpm E s)
      | (CMD_FLASH_SET_PROTECT, PARM_U32 reg) \<Rightarrow> ok (flash_protection_op E (protect_of reg) s)
      | (CMD_FLASH_READ_OTP, PARM_OTP p) \<Rightarrow>
          if has_page_write E then do { (r, p, s) \<leftarrow> flash_read_otp E p s; Some (r, PARM_OTP p, s) }
          else Some (FLASH_FAILURE, parm, s)
      | (CMD_FLASH_GET_UID, PARM_OTP p) \<Rightarrow>
          if has_page_write E then do { (r, p, s) \<leftarrow> flash_read_uid E p s; Some (word_of_int r, PARM_OTP p, s) }
          else Some (FLASH_FAILURE, parm, s)
      | (CMD_FLASH_UNKNOWN, _) \<Rightarrow> Some (FLASH_FAILURE, parm, s)
      | _ \<Rightarrow> None)"

definition flash_ctrl ::
  "'c flash_env \<Rightarrow> FLASH_CMD \<Rightarrow> flash_parm \<Rightarrow> 'c flash \<Rightarrow> (u32 \<times> flash_parm \<times> 'c flash) option" where
  "flash_ctrl E cmd parm s = do {
     let s = s\<lparr>peri_busy := peri_busy s + 1\<rparr>;
     s \<leftarrow> line_mode_enter E s;
     (ret, parm, s) \<leftarrow> flash_ctrl_switch E cmd parm s;
     s \<leftarrow> line_mode_leave E s;
     Some (ret, parm, s\<lparr>peri_busy := peri_busy s - 1\<rparr>) }"

subsection \<open>Initialisation\<close>

text \<open>\<open>CFG_FLASH_BYPASS_OTP\<close> is not configured; \<open>CFG_JTAG_ENABLE\<close> is 0 in every build.\<close>

definition flash_init :: "'c flash_env \<Rightarrow> 'c flash \<Rightarrow> 'c flash option" where
  "flash_init E s = do {
     s \<leftarrow> wait_busy s;
     (ident, s) \<leftarrow> flash_get_id E s;
     let s = flash_get_current_flash_config s;
     s \<leftarrow> set_flash_protect E FLASH_UNPROTECT_LAST_BLOCK False s;
     let s = flash_disable_cpu_data_wr s;
     cfg \<leftarrow> flash_current_config s;
     s \<leftarrow> flash_set_line_mode E (line_mode cfg) s;
     s \<leftarrow> (if qe_bit cfg = 1 then flash_set_qe E s else Some s);
     let s = flash_enable_crc s;
     let s = flash_set_clk (if has_page_write E then 9 else 5) s;
     Some (s\<lparr>dev_registered := True\<rparr>) }"

definition flash_exit :: "'c flash \<Rightarrow> 'c flash" where
  "flash_exit s = s\<lparr>dev_registered := False\<rparr>"

end
