(* ===== verification/Flash_Driver_Correct.thy ===== *)
theory Flash_Driver_Correct
  imports Flash_Driver
begin

text \<open>
  Correctness of the flash driver over the behaviour of the chip: what reading, writing and
  erasing through \<open>flash_read\<close>, \<open>flash_write\<close> and \<open>flash_ctrl\<close> do to the contents of the flash,
  byte by byte, and the round trip of the block protection.
\<close>

section \<open>Command words\<close>

lemma bit_push_1: "k < 32 \<Longrightarrow> bit (push_bit k (1 :: u32)) n \<longleftrightarrow> n = k"
  by (auto simp: bit_exp_iff)

lemma bit_OP_SW: "bit OP_SW n \<longleftrightarrow> n = 29"
  and bit_WP_VALUE: "bit WP_VALUE n \<longleftrightarrow> n = 30"
  and bit_BUSY_SW: "bit BUSY_SW n \<longleftrightarrow> n = 31"
  and bit_PAGE_WRITE_EN: "bit PAGE_WRITE_EN n \<longleftrightarrow> n = 30"
  unfolding OP_SW_def WP_VALUE_def BUSY_SW_def PAGE_WRITE_EN_def by (rule bit_push_1; simp)+

lemma bit_addr_mask: "bit ADDR_SW_REG_MASK n \<longleftrightarrow> n < 24"
proof -
  have m: "ADDR_SW_REG_MASK = mask 24" by (simp add: ADDR_SW_REG_MASK_def mask_eq_exp_minus_1)
  show ?thesis unfolding m bit_mask_iff by auto
qed

lemma bit_op_mask: "bit OP_TYPE_SW_MASK n \<longleftrightarrow> n < 5"
proof -
  have m: "OP_TYPE_SW_MASK = mask 5" by (simp add: OP_TYPE_SW_MASK_def mask_eq_exp_minus_1)
  show ?thesis unfolding m bit_mask_iff by auto
qed

lemma bit_small:
  fixes w :: "'a::len word"
  assumes "unat w < 2 ^ k" "k \<le> n"
  shows "\<not> bit w n"
proof -
  have "take_bit k (unat w) = unat w" using assms(1) by (simp add: take_bit_nat_eq_self_iff)
  then have "\<not> bit (unat w) n" using assms(2) by (metis bit_take_bit_iff not_le)
  then show ?thesis by (metis bit_unsigned_iff possible_bit_nat bit_imp_le_length bit_unsigned_iff)
qed

lemma opcode_small: "unat (opcode op) < 2 ^ 5"
  by (cases op) auto

lemma bit_opcode: "bit (opcode op) n \<Longrightarrow> n < 5"
  by (metis bit_small opcode_small not_le)

lemma bit_op_word: "bit (op_word op) n \<longleftrightarrow> 24 \<le> n \<and> n < 29 \<and> bit (opcode op) (n - 24)"
  using bit_opcode [of op "n - 24"] by (auto simp: op_word_def bit_push_bit_iff)

lemma busy_clear: "w AND BUSY_SW = 0 \<longleftrightarrow> \<not> bit w 31"
proof
  assume "w AND BUSY_SW = 0"
  then have "\<not> bit (w AND BUSY_SW) 31" by simp
  then show "\<not> bit w 31" by (simp add: bit_and_iff bit_BUSY_SW)
next
  assume "\<not> bit w 31"
  then show "w AND BUSY_SW = 0" by (intro bit_word_eqI) (auto simp: bit_and_iff bit_BUSY_SW)
qed

lemma cmd_word:
  fixes op :: FLASH_OPCODE and a x :: u32
  assumes "unat a < 2 ^ 24" and "x = 0 \<or> x = WP_VALUE"
  defines "w \<equiv> a OR op_word op OR OP_SW OR x"
  shows "w AND OP_SW \<noteq> 0" "drop_bit 24 w AND OP_TYPE_SW_MASK = opcode op" "w AND ADDR_SW_REG_MASK = a"
proof -
  have a: "n < 24" if "bit a n" for n using bit_small [OF assms(1)] that not_le by blast
  have x: "\<not> bit x n" if "n \<noteq> 30" for n using assms(2) that by (auto simp: bit_WP_VALUE)
  have "bit (w AND OP_SW) 29" by (simp add: w_def bit_and_iff bit_or_iff bit_OP_SW)
  then show "w AND OP_SW \<noteq> 0" by auto
  show "drop_bit 24 w AND OP_TYPE_SW_MASK = opcode op"
  proof (rule bit_word_eqI)
    fix n
    show "bit (drop_bit 24 w AND OP_TYPE_SW_MASK) n = bit (opcode op) n"
      using bit_opcode [of op n] a [of "24 + n"] x [of "24 + n"]
      by (auto simp: w_def bit_and_iff bit_or_iff bit_drop_bit_eq bit_op_mask bit_OP_SW bit_op_word)
  qed
  show "w AND ADDR_SW_REG_MASK = a"
  proof (rule bit_word_eqI)
    fix n
    show "bit (w AND ADDR_SW_REG_MASK) n = bit a n"
      using a [of n] x [of n]
      by (auto simp: w_def bit_and_iff bit_or_iff bit_addr_mask bit_OP_SW bit_op_word)
  qed
qed

lemma and_WP: "v AND WP_VALUE = 0 \<or> v AND WP_VALUE = WP_VALUE"
proof (cases "bit v 30")
  case True
  then have "v AND WP_VALUE = WP_VALUE" by (intro bit_word_eqI) (auto simp: bit_and_iff bit_WP_VALUE)
  then show ?thesis ..
next
  case False
  then have "v AND WP_VALUE = 0" by (intro bit_word_eqI) (auto simp: bit_and_iff bit_WP_VALUE)
  then show ?thesis ..
qed

text \<open>
  Writing a command word and waiting: however long the chip takes, the loop ends, the command has run and the busy bit
  is clear.
\<close>

definition op_done :: "u32 \<Rightarrow> 'c flash \<Rightarrow> 'c flash" where
  "op_done v s = s\<lparr>reg_operate := v AND NOT BUSY_SW, busy_left := 0\<rparr>"

lemma not_busy [simp]: "(v AND NOT BUSY_SW) AND BUSY_SW = 0" "BUSY_SW \<noteq> 0"
  by (simp add: busy_clear bit_and_iff bit_not_iff bit_BUSY_SW) (simp add: BUSY_SW_def)

lemma op_done_busy [simp]: "reg_operate (op_done v s) AND BUSY_SW = 0"
  by (simp add: op_done_def)

lemma wait_idle: "reg_operate s AND BUSY_SW = 0 \<Longrightarrow> wait_busy s = Some s"
  by (subst wait_busy.simps) (simp add: read_operate_def)

lemma or_busy:
  "((v AND NOT BUSY_SW) OR BUSY_SW) AND BUSY_SW = BUSY_SW"
  "((v AND NOT BUSY_SW) OR BUSY_SW) AND NOT BUSY_SW = v AND NOT BUSY_SW"
  by (rule bit_word_eqI, auto simp: bit_and_iff bit_or_iff bit_not_iff)+

lemma wait_ends: "wait_busy s = Some (if reg_operate s AND BUSY_SW = 0 then s else op_done (reg_operate s) s)"
proof (induction "busy_left s" arbitrary: s rule: less_induct)
  case less
  show ?case
  proof (cases "reg_operate s AND BUSY_SW = 0 \<or> busy_left s \<le> 1")
    case True
    then show ?thesis by (subst wait_busy.simps) (auto simp: read_operate_def op_done_def wait_idle)
  next
    case False
    then show ?thesis
      using less [of "s\<lparr>busy_left := busy_left s - 1\<rparr>"] by (subst wait_busy.simps) (simp add: read_operate_def op_done_def)
  qed
qed

lemma exec_op_operate:
  "exec_op E op a (s\<lparr>reg_operate := v\<rparr>) = (exec_op E op a s)\<lparr>reg_operate := v\<rparr>"
  "exec_op E op a (s\<lparr>reg_operate := v, busy_left := n\<rparr>) = (exec_op E op a s)\<lparr>reg_operate := v, busy_left := n\<rparr>"
  by (simp_all add: exec_op_def Let_def)

lemma wait_write:
  "v AND OP_SW \<noteq> 0 \<Longrightarrow> wait_busy (write_operate E v s) =
    Some (exec_op E (drop_bit 24 v AND OP_TYPE_SW_MASK) (unat (v AND ADDR_SW_REG_MASK)) (op_done v s))"
  by (simp add: wait_ends write_operate_def Let_def op_done_def exec_op_operate or_busy)

lemma write_cmd:
  assumes "unat a < 2 ^ 24" and "x = 0 \<or> x = WP_VALUE"
  shows "wait_busy (write_operate E (a OR op_word op OR OP_SW OR x) s) =
    Some (exec_op E (opcode op) (unat a) (op_done (a OR op_word op OR OP_SW OR x) s))"
  using cmd_word [OF assms, of op] wait_write [of "a OR op_word op OR OP_SW OR x" E s] by simp

lemma write_cmd0:
  "x = 0 \<or> x = WP_VALUE \<Longrightarrow> wait_busy (write_operate E (op_word op OR OP_SW OR x) s) =
    Some (exec_op E (opcode op) 0 (op_done (op_word op OR OP_SW OR x) s))"
  using write_cmd [of 0 x E op s] by simp

lemma opcode_inject [simp]: "opcode a = opcode b \<longleftrightarrow> a = b"
  by (cases a; cases b) auto

section \<open>Reading\<close>

abbreviation fl_mem :: "'c flash_env \<Rightarrow> 'c flash \<Rightarrow> nat \<Rightarrow> byte" where
  "fl_mem E s \<equiv> ch_read (env_chip E) (chip_st s)"

abbreviation fl_sr :: "'c flash_env \<Rightarrow> 'c flash \<Rightarrow> u16" where
  "fl_sr E s \<equiv> ch_sr (env_chip E) (chip_st s)"

text \<open>The states a read leaves: only the operation register with its counter and the read FIFO differ.\<close>

definition rd_frame :: "'c flash \<Rightarrow> 'c flash \<Rightarrow> bool" where
  "rd_frame s s' \<longleftrightarrow> s' = s\<lparr>reg_operate := reg_operate s', busy_left := busy_left s', fifo_out := fifo_out s'\<rparr> \<and> reg_operate s' AND BUSY_SW = 0"

lemma rd_frame_refl: "reg_operate s AND BUSY_SW = 0 \<Longrightarrow> rd_frame s s"
  by (simp add: rd_frame_def)

lemma rd_frame_trans: "rd_frame s s1 \<Longrightarrow> rd_frame s1 s2 \<Longrightarrow> rd_frame s s2"
  by (cases s; cases s1; cases s2) (simp add: rd_frame_def)

lemma rd_frameD:
  assumes "rd_frame s s'"
  shows "chip_st s' = chip_st s" "reg_sr_crc s' = reg_sr_crc s" "fifo_in s' = fifo_in s" "reg_conf s' = reg_conf s"
    "flash_current_config s' = flash_current_config s" "reg_operate s' AND BUSY_SW = 0" "pw_mem s' = pw_mem s"
    "curr_line_mode s' = curr_line_mode s" "flash_wr_sr_bypass s' = flash_wr_sr_bypass s" "peri_busy s' = peri_busy s"
    "flash_id s' = flash_id s" "dev_registered s' = dev_registered s"
proof -
  have e: "s' = s\<lparr>reg_operate := reg_operate s', busy_left := busy_left s', fifo_out := fifo_out s'\<rparr>" using assms by (simp add: rd_frame_def)
  show "chip_st s' = chip_st s" "reg_sr_crc s' = reg_sr_crc s" "fifo_in s' = fifo_in s" "reg_conf s' = reg_conf s"
    "flash_current_config s' = flash_current_config s" "pw_mem s' = pw_mem s"
    "curr_line_mode s' = curr_line_mode s" "flash_wr_sr_bypass s' = flash_wr_sr_bypass s" "peri_busy s' = peri_busy s"
    "flash_id s' = flash_id s" "dev_registered s' = dev_registered s"
    by (subst e, simp)+
  show "reg_operate s' AND BUSY_SW = 0" using assms by (simp add: rd_frame_def)
qed

lemma read_words_fifo:
  "length (fifo_out s) = n \<Longrightarrow> read_words n s = Some (fifo_out s, s\<lparr>fifo_out := []\<rparr>)"
proof (induction n arbitrary: s)
  case 0
  then show ?case by simp
next
  case (Suc n)
  then obtain w ws where w: "fifo_out s = w # ws" by (cases "fifo_out s") auto
  with Suc.prems have "length ws = n" by simp
  then have "read_words n (s\<lparr>fifo_out := ws\<rparr>) = Some (ws, s\<lparr>fifo_out := []\<rparr>)"
    using Suc.IH [of "s\<lparr>fifo_out := ws\<rparr>"] by simp
  then show ?case by (simp add: read_fifo_def w)
qed

definition op_source :: "'c flash_env \<Rightarrow> FLASH_OPCODE \<Rightarrow> 'c flash \<Rightarrow> nat \<Rightarrow> byte" where
  "op_source E op s = (if op = FLASH_OPCODE_READ then fl_mem E s else ch_scr (env_chip E) (chip_st s))"

lemma read_block_ok:
  assumes "op = FLASH_OPCODE_READ \<or> op = FLASH_OPCODE_RDSCR" and "unat a < 2 ^ 24"
  shows "\<exists>s'. read_block E op a s = Some (mem_slice (op_source E op s) (unat a) 32, s') \<and> rd_frame s s'"
proof -
  define v where "v = a OR op_word op OR OP_SW OR (reg_operate s AND WP_VALUE)"
  define ws where "ws = words_of_bytes 8 (mem_slice (op_source E op s) (unat a) 32)"
  define s1 where "s1 = (op_done v s)\<lparr>fifo_out := ws\<rparr>"
  have "wait_busy (write_operate E v s) = Some (exec_op E (opcode op) (unat a) (op_done v s))"
    unfolding v_def by (rule write_cmd [OF assms(2) and_WP])
  also have "\<dots> = Some s1"
    using assms(1)
    by (elim disjE) (simp_all add: exec_op_def op_source_def op_done_def Let_def s1_def ws_def del: opcode.simps)
  finally have w: "wait_busy (write_operate E v s) = Some s1" .
  have b: "reg_operate s1 AND BUSY_SW = 0" using op_done_busy [of v s] by (simp add: s1_def)
  have "read_words 8 s1 = Some (fifo_out s1, s1\<lparr>fifo_out := []\<rparr>)"
    by (rule read_words_fifo) (simp add: s1_def ws_def)
  then have r: "read_words 8 s1 = Some (ws, s1\<lparr>fifo_out := []\<rparr>)" by (simp add: s1_def)
  have "read_block E op a s = Some (bytes_of_words ws, s1\<lparr>fifo_out := []\<rparr>)"
    unfolding read_block_def v_def [symmetric] w using r by simp
  moreover have "bytes_of_words ws = mem_slice (op_source E op s) (unat a) 32"
    unfolding ws_def by (rule bytes_of_words_of_bytes) simp
  moreover have "rd_frame s (s1\<lparr>fifo_out := []\<rparr>)"
    using b by (simp add: rd_frame_def s1_def op_done_def)
  ultimately show ?thesis by auto
qed

lemma copy_out_spec:
  "i < 32 \<Longrightarrow> len \<noteq> 0 \<Longrightarrow> length pb = 32 \<Longrightarrow>
   copy_out pb i address len buffer =
     (let k = min (32 - i) (unat len) in (buffer @ take k (drop i pb), address + of_nat k, len - of_nat k))"
proof (induction pb i address len buffer rule: copy_out.induct)
  case (1 pb i address len buffer)
  have pos: "0 < unat len" using "1.prems"(2) by (simp add: unat_gt_0)
  have d: "unat (len - 1) = unat len - 1" using pos by (subst unat_sub_no_wrap) auto
  have dr: "drop i pb = pb ! i # drop (Suc i) pb" using "1.prems" by (simp add: Cons_nth_drop_Suc)
  consider "len = 1" | "len \<noteq> 1" "i = 31" | "len \<noteq> 1" "i < 31" using "1.prems"(1) by linarith
  then show ?case
  proof cases
    case 1
    then have "min (32 - i) (unat len) = 1" using "1.prems"(1) by simp
    then show ?thesis using 1 "1.prems" dr by (subst copy_out.simps) (simp add: Let_def)
  next
    case 2
    then have "min (32 - i) (unat len) = 1" using pos by simp
    then show ?thesis using 2 "1.prems" dr by (subst copy_out.simps) (simp add: Let_def copy_out.simps)
  next
    case 3
    have "len - 1 \<noteq> 0" using 3 by simp
    then have n1: "unat (len - 1) \<noteq> 0" using unat_eq_0 by blast
    let ?k = "min (32 - Suc i) (unat (len - 1))"
    have k: "min (32 - i) (unat len) = Suc ?k" using 3 d pos by (auto simp: min_def)
    have "copy_out pb (Suc i) (address + 1) (len - 1) (buffer @ [pb ! i]) =
        (let k = ?k in ((buffer @ [pb ! i]) @ take k (drop (Suc i) pb), address + 1 + of_nat k, len - 1 - of_nat k))"
      by (rule "1.IH" [OF "1.prems"(1) refl refl refl]) (use 3 "1.prems" in auto)
    then show ?thesis
      using 3 "1.prems"(1) dr unfolding k by (subst copy_out.simps) (simp add: Let_def algebra_simps)
  qed
qed

lemma flash_read_loop_ok:
  assumes op: "op = FLASH_OPCODE_READ \<or> op = FLASH_OPCODE_RDSCR"
  shows "reg_operate s AND BUSY_SW = 0 \<Longrightarrow>
   len \<noteq> 0 \<longrightarrow> unat addr + unat address mod 32 = unat address \<Longrightarrow>
   base + unat address + unat len \<le> 2 ^ 24 \<Longrightarrow>
   \<forall>x. unat x < unat address + unat len \<longrightarrow> unat (f x) = base + unat x \<Longrightarrow>
   \<exists>s'. flash_read_loop E op f addr address len buffer s =
      Some (buffer @ mem_slice (op_source E op s) (base + unat address) (unat len), s') \<and> rd_frame s s'"
proof (induction "unat len" arbitrary: addr address len buffer s rule: less_induct)
  case less
  show ?case
  proof (cases "len = 0")
    case True
    then show ?thesis using less.prems(1) by (simp add: flash_read_loop.simps rd_frame_refl)
  next
    case False
    let ?a = "unat address" and ?i = "unat address mod 32" and ?n = "unat len"
    define k where "k = min (32 - ?i) ?n"
    have pos: "0 < ?n" using False by (simp add: unat_gt_0)
    have al: "unat addr + ?i = ?a" using less.prems(2) False by simp
    have fa: "unat (f addr) = base + unat addr" using less.prems(4) al pos by simp
    obtain s1 where rb: "read_block E op (f addr) s = Some (mem_slice (op_source E op s) (base + unat addr) 32, s1)"
      and fr: "rd_frame s s1"
      using read_block_ok [OF op, of "f addr" E s] fa al less.prems(3) pos by auto
    have im: "unat (address mod 32) = ?i" by (simp add: unat_mod)
    have co: "copy_out (mem_slice (op_source E op s) (base + unat addr) 32) (unat (address mod 32)) address len buffer =
        (buffer @ mem_slice (op_source E op s) (base + ?a) k, address + of_nat k, len - of_nat k)"
      using copy_out_spec [of ?i len "mem_slice (op_source E op s) (base + unat addr) 32" address buffer] False
        al by (simp add: im k_def Let_def min.absorb1 add.assoc)
    have kn: "k \<le> ?n" "0 < k" "k \<le> 32" using pos by (auto simp: k_def)
    have uk: "unat (of_nat k :: u32) = k" using kn by (intro unat_of_nat_small) simp
    have l': "unat (len - of_nat k) = ?n - k" using kn uk by (simp add: unat_sub_no_wrap)
    have a': "unat (address + of_nat k) = ?a + k"
      using kn uk less.prems(3) by (subst unat_add_no_wrap) auto
    have src: "op_source E op s1 = op_source E op s" using rd_frameD(1) [OF fr] by (simp add: op_source_def)
    have "\<exists>s'. flash_read_loop E op f (addr + 32) (address + of_nat k) (len - of_nat k)
          (buffer @ mem_slice (op_source E op s) (base + ?a) k) s1 =
        Some ((buffer @ mem_slice (op_source E op s) (base + ?a) k)
          @ mem_slice (op_source E op s1) (base + unat (address + of_nat k)) (unat (len - of_nat k)), s') \<and> rd_frame s1 s'"
    proof (rule less.hyps)
      show "len - of_nat k \<noteq> 0 \<longrightarrow> unat (addr + 32) + unat (address + of_nat k) mod 32 = unat (address + of_nat k)"
      proof
        assume "len - of_nat k \<noteq> 0"
        then have "?n - k \<noteq> 0" using l' unat_eq_0 by metis
        then have "k = 32 - ?i" by (auto simp: k_def min_def split: if_splits)
        moreover have "unat (addr + 32) = unat addr + 32"
          using al less.prems(3) by (subst unat_add_no_wrap) auto
        moreover have "?i < 32" by simp
        ultimately have "unat (address + of_nat k) = unat addr + 32" "unat (addr + 32) = unat addr + 32"
          using a' al by auto
        moreover have "unat addr mod 32 = 0" using al by (metis add_diff_cancel_right' minus_mod_eq_mult_div mod_mult_self1_is_0)
        ultimately show "unat (addr + 32) + unat (address + of_nat k) mod 32 = unat (address + of_nat k)" by simp
      qed
    qed (use l' a' kn less.prems(3,4) rd_frameD(6) [OF fr] in auto)
    then obtain s' where s': "flash_read_loop E op f (addr + 32) (address + of_nat k) (len - of_nat k)
          (buffer @ mem_slice (op_source E op s) (base + ?a) k) s1 =
        Some (buffer @ mem_slice (op_source E op s) (base + ?a) ?n, s')" "rd_frame s1 s'"
      using mem_slice_append [of "op_source E op s" "base + ?a" k "?n - k"] kn(1) by (auto simp: src a' l' add.assoc)
    have "flash_read_loop E op f addr address len buffer s =
        Some (buffer @ mem_slice (op_source E op s) (base + ?a) ?n, s')"
      using False rb co s'(1) by (subst flash_read_loop.simps) simp
    then show ?thesis using rd_frame_trans [OF fr s'(2)] by blast
  qed
qed

lemma flash_read_data_ok:
  assumes "reg_operate s AND BUSY_SW = 0" "unat address + unat len \<le> 2 ^ 24"
  shows "\<exists>s'. flash_read_data E address len s = Some (mem_slice (fl_mem E s) (unat address) (unat len), s') \<and> rd_frame s s'"
proof (cases "len = 0")
  case True
  then show ?thesis using assms(1) by (simp add: flash_read_data_def rd_frame_refl)
next
  case False
  have "unat (address AND NOT 0x1F) + unat address mod 32 = unat address"
    unfolding unat_align32 by simp
  then have "\<exists>s'. flash_read_loop E FLASH_OPCODE_READ (\<lambda>a. a) (address AND NOT 0x1F) address len [] s =
      Some ([] @ mem_slice (op_source E FLASH_OPCODE_READ s) (0 + unat address) (unat len), s') \<and> rd_frame s s'"
    using assms by (intro flash_read_loop_ok) auto
  then show ?thesis using False assms(1) by (simp add: flash_read_data_def wait_idle op_source_def)
qed

section \<open>Writing\<close>

text \<open>Programming \<open>d\<close> at address \<open>a\<close> clears bits of the bytes that are not locked.\<close>

definition prog_mem :: "(nat \<Rightarrow> bool) \<Rightarrow> (nat \<Rightarrow> byte) \<Rightarrow> nat \<Rightarrow> byte list \<Rightarrow> nat \<Rightarrow> byte" where
  "prog_mem lk m a d i = (if a \<le> i \<and> i < a + length d \<and> \<not> lk i then m i AND d ! (i - a) else m i)"

lemma prog_mem_append: "prog_mem lk (prog_mem lk m a d1) (a + length d1) d2 = prog_mem lk m a (d1 @ d2)"
  by (rule ext) (auto simp: prog_mem_def nth_append)

lemma prog_mem_Nil [simp]: "prog_mem lk m a [] = m"
  by (rule ext) (auto simp: prog_mem_def)

lemma prog_mem_split3:
  assumes "k + n + m = l" "l \<le> length buf"
  shows "prog_mem lk (prog_mem lk (prog_mem lk mem a (take k buf)) (a + k) (take n (drop k buf))) (a + k + n)
      (take m (drop n (drop k buf))) = prog_mem lk mem a (take l buf)"
proof -
  let ?d1 = "take k buf" and ?d2 = "take n (drop k buf)" and ?d3 = "take m (drop n (drop k buf))"
  have l: "length ?d1 = k" "length ?d2 = n" using assms by auto
  have "take (k + (n + m)) buf = ?d1 @ ?d2 @ ?d3" by (simp only: take_add)
  then have "take l buf = ?d1 @ ?d2 @ ?d3" using assms(1) by (simp add: add.assoc)
  then show ?thesis
    using prog_mem_append [of lk "prog_mem lk mem a ?d1" "a + k" ?d2 ?d3]
      prog_mem_append [of lk mem a ?d1 "?d2 @ ?d3"] l by simp
qed

lemma copy_in_spec:
  "i < 32 \<Longrightarrow> len \<noteq> 0 \<Longrightarrow> length pb = 32 \<Longrightarrow> min (32 - i) (unat len) \<le> length buffer \<Longrightarrow>
   copy_in pb i address len buffer =
     (let k = min (32 - i) (unat len) in
      Some (take i pb @ take k buffer @ drop (i + k) pb, address + of_nat k, len - of_nat k, drop k buffer))"
proof (induction pb i address len buffer rule: copy_in.induct)
  case (1 pb i address len buffer)
  have pos: "0 < unat len" using "1.prems"(2) by (simp add: unat_gt_0)
  have d: "unat (len - 1) = unat len - 1" using pos by (subst unat_sub_no_wrap) auto
  obtain b rest where b: "buffer = b # rest" using "1.prems"(1,4) pos by (cases buffer) auto
  have up: "pb[i := b] = take i pb @ b # drop (Suc i) pb"
    using "1.prems"(1,3) by (simp add: upd_conv_take_nth_drop)
  consider "len = 1" | "len \<noteq> 1" "i = 31" | "len \<noteq> 1" "i < 31" using "1.prems"(1) by linarith
  then show ?case
  proof cases
    case 1
    then have "min (32 - i) (unat len) = 1" using "1.prems"(1) by simp
    then show ?thesis using 1 "1.prems"(1) up b by (subst copy_in.simps) (simp add: Let_def)
  next
    case 2
    then have "min (32 - i) (unat len) = 1" using pos by simp
    then show ?thesis using 2 "1.prems"(1) up b by (subst copy_in.simps) (simp add: Let_def copy_in_32)
  next
    case 3
    have "len - 1 \<noteq> 0" using 3 by simp
    then have n1: "unat (len - 1) \<noteq> 0" using unat_eq_0 by blast
    let ?k = "min (32 - Suc i) (unat (len - 1))"
    have k: "min (32 - i) (unat len) = Suc ?k" using 3 d pos by (auto simp: min_def)
    have "copy_in (pb[i := b]) (Suc i) (address + 1) (len - 1) rest =
        (let k = ?k in Some (take (Suc i) (pb[i := b]) @ take k rest @ drop (Suc i + k) (pb[i := b]),
           address + 1 + of_nat k, len - 1 - of_nat k, drop k rest))"
      by (rule "1.IH" [OF "1.prems"(1) b refl refl refl]) (use 3 "1.prems"(3,4) b k in auto)
    moreover have "take (Suc i) (pb[i := b]) = take i pb @ [b]"
      using "1.prems"(1,3) by (simp add: up)
    moreover have "drop (Suc i + ?k) (pb[i := b]) = drop (Suc i + ?k) pb" by simp
    ultimately show ?thesis
      using 3 "1.prems"(1) b unfolding k by (subst copy_in.simps) (simp add: Let_def algebra_simps)
  qed
qed

definition wr_frame :: "'c flash \<Rightarrow> 'c flash \<Rightarrow> bool" where
  "wr_frame s s' \<longleftrightarrow> s' = s\<lparr>reg_operate := reg_operate s', busy_left := busy_left s', fifo_out := fifo_out s', chip_st := chip_st s'\<rparr>
     \<and> reg_operate s' AND BUSY_SW = 0"

lemma wr_frame_trans: "wr_frame s s1 \<Longrightarrow> wr_frame s1 s2 \<Longrightarrow> wr_frame s s2"
  by (cases s; cases s1; cases s2) (simp add: wr_frame_def)

lemma rd_wr_frame: "rd_frame s s' \<Longrightarrow> wr_frame s s'"
  by (cases s; cases s') (simp add: wr_frame_def rd_frame_def)

lemma wr_frameD:
  assumes "wr_frame s s'"
  shows "reg_sr_crc s' = reg_sr_crc s" "fifo_in s' = fifo_in s" "reg_conf s' = reg_conf s"
    "flash_current_config s' = flash_current_config s" "reg_operate s' AND BUSY_SW = 0"
    "curr_line_mode s' = curr_line_mode s" "flash_wr_sr_bypass s' = flash_wr_sr_bypass s" "peri_busy s' = peri_busy s" "dev_registered s' = dev_registered s"
proof -
  have e: "s' = s\<lparr>reg_operate := reg_operate s', busy_left := busy_left s', fifo_out := fifo_out s', chip_st := chip_st s'\<rparr>"
    using assms by (simp add: wr_frame_def)
  show "reg_sr_crc s' = reg_sr_crc s" "fifo_in s' = fifo_in s" "reg_conf s' = reg_conf s"
    "flash_current_config s' = flash_current_config s"
    "curr_line_mode s' = curr_line_mode s" "flash_wr_sr_bypass s' = flash_wr_sr_bypass s" "peri_busy s' = peri_busy s" "dev_registered s' = dev_registered s"
    by (subst e, simp)+
  show "reg_operate s' AND BUSY_SW = 0" using assms by (simp add: wr_frame_def)
qed

lemma fold_fifo: "fold (\<lambda>w s. s\<lparr>fifo_in := fifo_in s @ [w]\<rparr>) ws s = s\<lparr>fifo_in := fifo_in s @ ws\<rparr>"
  by (induction ws arbitrary: s) auto

lemma program_block_ok:
  assumes "unat addr < 2 ^ 24" "length pb = 32" "fifo_in s = []" "reg_sr_crc s AND PAGE_WRITE_EN = 0"
  shows "\<exists>s'. program_block E addr pb s = Some s' \<and> wr_frame s s'
    \<and> chip_st s' = ch_program (env_chip E) (unat addr) pb (chip_st s)"
proof -
  define v where "v = addr OR op_word FLASH_OPCODE_PP OR OP_SW OR (reg_operate s AND WP_VALUE)"
  define ws where "ws = words_of_bytes 8 pb"
  have pb: "bytes_of_words ws = pb" unfolding ws_def by (rule bytes_of_words_of_bytes) (simp add: assms(2))
  define s1 where "s1 = (op_done v s)\<lparr>chip_st := ch_program (env_chip E) (unat addr) pb (chip_st s)\<rparr>"
  have "wait_busy (write_operate E v (s\<lparr>fifo_in := ws\<rparr>)) = Some (exec_op E (opcode FLASH_OPCODE_PP) (unat addr) (op_done v (s\<lparr>fifo_in := ws\<rparr>)))"
    unfolding v_def by (rule write_cmd [OF assms(1) and_WP])
  also have "\<dots> = Some (s1\<lparr>fifo_in := []\<rparr>)"
    using assms(4) pb by (simp add: exec_op_def op_done_def Let_def s1_def del: opcode.simps)
  also have "\<dots> = Some s1" using assms(3) by (simp add: s1_def op_done_def)
  finally have w: "wait_busy (write_operate E v (s\<lparr>fifo_in := ws\<rparr>)) = Some s1" .
  have b: "reg_operate s1 AND BUSY_SW = 0" using op_done_busy [of v s] by (simp add: s1_def)
  have "program_block E addr pb s = Some s1"
    using w b assms(3) by (simp add: program_block_def fold_fifo ws_def [symmetric] v_def)
  moreover have "wr_frame s s1" using b by (simp add: wr_frame_def s1_def op_done_def)
  ultimately show ?thesis by (simp add: s1_def)
qed

lemma program_block_mem:
  assumes "nor_chip locked (env_chip E)" "unat addr < 2 ^ 24" "unat addr mod 32 = 0" "length pb = 32" "fifo_in s = []"
    "reg_sr_crc s AND PAGE_WRITE_EN = 0" "k \<le> 32 - i" "i \<le> 32" "length d = k"
    and same: "\<forall>j < 32. j < i \<or> i + k \<le> j \<longrightarrow> pb ! j = fl_mem E s (unat addr + j)"
    and new: "\<forall>j < k. pb ! (i + j) = d ! j"
  shows "\<exists>s'. program_block E addr pb s = Some s' \<and> wr_frame s s' \<and> fl_sr E s' = fl_sr E s
    \<and> fl_mem E s' = prog_mem (locked (fl_sr E s)) (fl_mem E s) (unat addr + i) d"
proof -
  let ?a = "unat addr"
  obtain s' where s': "program_block E addr pb s = Some s'" "wr_frame s s'"
    "chip_st s' = ch_program (env_chip E) ?a pb (chip_st s)"
    using program_block_ok [OF assms(2,4,5,6)] by blast
  have P: "ch_read (env_chip E) (ch_program (env_chip E) ?a pb c) j =
      (if ?a \<le> j \<and> j < ?a + 32 \<and> \<not> locked (ch_sr (env_chip E) c) j
       then ch_read (env_chip E) c j AND pb ! (j - ?a) else ch_read (env_chip E) c j)" for c j
    using assms(1,3,4) by (simp add: nor_chip_def)
  have "fl_mem E s' j = prog_mem (locked (fl_sr E s)) (fl_mem E s) (?a + i) d j" for j
  proof (cases "?a + i \<le> j \<and> j < ?a + i + k")
    case True
    then have "pb ! (j - ?a) = d ! (j - (?a + i))" using new [rule_format, of "j - (?a + i)"] by auto
    then show ?thesis using True P assms(7,8,9) by (auto simp: s'(3) prog_mem_def)
  next
    case False
    have "\<not> (?a + i \<le> j \<and> j < ?a + i + length d \<and> \<not> locked (fl_sr E s) j)" using False assms(9) by auto
    then have "prog_mem (locked (fl_sr E s)) (fl_mem E s) (?a + i) d j = fl_mem E s j"
      unfolding prog_mem_def by (rule if_not_P)
    moreover have "pb ! (j - ?a) = fl_mem E s j" if c: "?a \<le> j \<and> j < ?a + 32"
    proof -
      have "j - ?a < 32" "j - ?a < i \<or> i + k \<le> j - ?a" using c False by linarith+
      then show ?thesis using same [rule_format, of "j - ?a"] c by simp
    qed
    ultimately show ?thesis using P by (auto simp: s'(3))
  qed
  moreover have "fl_sr E s' = fl_sr E s" using assms(1) by (simp add: s'(3) nor_chip_def)
  ultimately show ?thesis using s'(1,2) by blast
qed

lemma flash_write_loop_ok:
  assumes chip: "nor_chip locked (env_chip E)"
  shows "reg_operate s AND BUSY_SW = 0 \<Longrightarrow> reg_sr_crc s AND PAGE_WRITE_EN = 0 \<Longrightarrow> fifo_in s = [] \<Longrightarrow>
   len \<noteq> 0 \<longrightarrow> unat addr + unat address mod 32 = unat address \<Longrightarrow>
   unat address + unat len \<le> 2 ^ 24 \<Longrightarrow> unat len \<le> length buffer \<Longrightarrow> length pb = 32 \<Longrightarrow>
   \<forall>j < unat address mod 32. pb ! j = fl_mem E s (unat addr + j) \<Longrightarrow>
   \<exists>s'. flash_write_loop E addr address len buffer pb s = Some s' \<and> wr_frame s s' \<and> fl_sr E s' = fl_sr E s
     \<and> fl_mem E s' = prog_mem (locked (fl_sr E s)) (fl_mem E s) (unat address) (take (unat len) buffer)"
proof (induction "unat len" arbitrary: addr address len buffer pb s rule: less_induct)
  case less
  show ?case
  proof (cases "len = 0")
    case True
    then show ?thesis using less.prems(1)
      by (simp add: flash_write_loop.simps rd_wr_frame rd_frame_refl)
  next
    case False
    let ?a = "unat address" and ?i = "unat address mod 32" and ?n = "unat len"
    define k where "k = min (32 - ?i) ?n"
    have pos: "0 < ?n" using False by (simp add: unat_gt_0)
    have al: "unat addr + ?i = ?a" using less.prems(4) False by simp
    then have am: "unat addr mod 32 = 0"
      by (metis add_diff_cancel_right' minus_mod_eq_mult_div mod_mult_self1_is_0)
    have lim: "unat addr + 32 \<le> 2 ^ 24"
    proof -
      obtain q where q: "unat addr = 32 * q" using am by (auto simp: mod_eq_0_iff_dvd elim: dvdE)
      then show ?thesis using al pos less.prems(5) by simp
    qed
    have kn: "k \<le> ?n" "0 < k" "k \<le> 32 - ?i" using pos by (auto simp: k_def)
    obtain pb1 s1 where rd: "(if len < 32 then do { (pb, s) \<leftarrow> flash_read_data E addr 32 s; s \<leftarrow> wait_busy s; Some (pb, s) }
          else Some (pb, s)) = Some (pb1, s1)"
      and fr: "rd_frame s s1" and p1: "length pb1 = 32"
      and same: "\<forall>j < 32. j < ?i \<or> ?i + k \<le> j \<longrightarrow> pb1 ! j = fl_mem E s (unat addr + j)"
    proof (cases "len < 32")
      case True
      obtain s1 where "flash_read_data E addr 32 s = Some (mem_slice (fl_mem E s) (unat addr) 32, s1)" "rd_frame s s1"
        using flash_read_data_ok [of s addr 32 E] less.prems(1) lim by auto
      then show thesis
        using True rd_frameD(6) [of s s1] by (intro that) (auto simp: wait_idle)
    next
      case f: False
      then have "k = 32 - ?i" by (auto simp: k_def word_less_nat_alt)
      then show thesis
        using f less.prems(1,7,8) by (intro that [of pb s]) (auto simp: rd_frame_refl)
    qed
    note F = rd_frameD [OF fr]
    have uk: "unat (of_nat k :: u32) = k" using kn by (intro unat_of_nat_small) simp
    have l': "unat (len - of_nat k) = ?n - k" using kn uk by (simp add: unat_sub_no_wrap)
    have a': "unat (address + of_nat k) = ?a + k"
      using kn uk less.prems(5) by (subst unat_add_no_wrap) auto
    let ?pb = "take ?i pb1 @ take k buffer @ drop (?i + k) pb1"
    have ci: "copy_in pb1 (unat (address mod 32)) address len buffer =
        Some (?pb, address + of_nat k, len - of_nat k, drop k buffer)"
      using copy_in_spec [of ?i len pb1 buffer address] False p1 kn less.prems(6)
      by (simp add: unat_mod k_def Let_def)
    have kb: "k \<le> length buffer" using kn less.prems(6) by simp
    have "\<exists>s2. program_block E addr ?pb s1 = Some s2 \<and> wr_frame s1 s2 \<and> fl_sr E s2 = fl_sr E s1
      \<and> fl_mem E s2 = prog_mem (locked (fl_sr E s1)) (fl_mem E s1) (unat addr + ?i) (take k buffer)"
    proof (rule program_block_mem [OF chip])
      show "\<forall>j < 32. j < ?i \<or> ?i + k \<le> j \<longrightarrow> ?pb ! j = fl_mem E s1 (unat addr + j)"
        using same p1 kb kn F(1) by (auto simp: nth_append)
      show "\<forall>j < k. ?pb ! (?i + j) = take k buffer ! j"
        using p1 kb kn by (auto simp: nth_append)
    qed (use lim am p1 kb kn F less.prems(2,3) in auto)
    then obtain s2 where s2: "program_block E addr ?pb s1 = Some s2" "wr_frame s1 s2" "fl_sr E s2 = fl_sr E s"
      "fl_mem E s2 = prog_mem (locked (fl_sr E s)) (fl_mem E s) ?a (take k buffer)"
      using F(1) al by auto
    have fr2: "wr_frame s s2" using wr_frame_trans [OF rd_wr_frame [OF fr] s2(2)] .
    note G = wr_frameD [OF fr2]
    have al2: "unat (addr + 32) + unat (address + of_nat k) mod 32 = unat (address + of_nat k) \<and> unat (address + of_nat k) mod 32 = 0"
      if "len - of_nat k \<noteq> 0"
    proof -
      have "?n - k \<noteq> 0" using that l' unat_eq_0 by metis
      then have "k = 32 - ?i" by (auto simp: k_def min_def split: if_splits)
      moreover have "unat (addr + 32) = unat addr + 32" using lim by (subst unat_add_no_wrap) auto
      moreover have "?i < 32" by simp
      ultimately have "unat (address + of_nat k) = unat addr + 32" "unat (addr + 32) = unat addr + 32"
        using a' al by auto
      then show ?thesis using am by simp
    qed
    have "\<exists>s'. flash_write_loop E (addr + 32) (address + of_nat k) (len - of_nat k) (drop k buffer) (replicate 32 0xFF) s2 = Some s'
        \<and> wr_frame s2 s' \<and> fl_sr E s' = fl_sr E s2
        \<and> fl_mem E s' = prog_mem (locked (fl_sr E s2)) (fl_mem E s2) (unat (address + of_nat k))
            (take (unat (len - of_nat k)) (drop k buffer))"
    proof (cases "len - of_nat k = 0")
      case True
      then show ?thesis using G(5) by (simp add: flash_write_loop.simps rd_wr_frame rd_frame_refl)
    next
      case f: False
      show ?thesis
        by (rule less.hyps) (use l' a' kn less.prems(2,3,5,6) G al2 [OF f] in auto)
    qed
    then obtain s' where s': "flash_write_loop E (addr + 32) (address + of_nat k) (len - of_nat k) (drop k buffer) (replicate 32 0xFF) s2 = Some s'"
      "wr_frame s2 s'" "fl_sr E s' = fl_sr E s"
      "fl_mem E s' = prog_mem (locked (fl_sr E s)) (prog_mem (locked (fl_sr E s)) (fl_mem E s) ?a (take k buffer)) (?a + k)
         (take (?n - k) (drop k buffer))"
      using s2(3,4) a' l' by auto
    have "take k buffer @ take (?n - k) (drop k buffer) = take ?n buffer"
      using kn(1) by (simp add: take_add [symmetric])
    then have "fl_mem E s' = prog_mem (locked (fl_sr E s)) (fl_mem E s) ?a (take ?n buffer)"
      using s'(4) prog_mem_append [of "locked (fl_sr E s)" "fl_mem E s" ?a "take k buffer" "take (?n - k) (drop k buffer)"] kb
      by (simp add: min_absorb2)
    moreover have "flash_write_loop E addr address len buffer pb s = Some s'"
      using False rd ci s2(1) s'(1) by (subst flash_write_loop.simps) simp
    ultimately show ?thesis using wr_frame_trans [OF fr2 s'(2)] s'(3) by blast
  qed
qed

section \<open>The driver's operations\<close>

text \<open>The driver is initialised for a chip and idle.\<close>

definition flash_ready :: "flash_config_t \<Rightarrow> 'c flash \<Rightarrow> bool" where
  "flash_ready cfg s \<longleftrightarrow> reg_operate s AND BUSY_SW = 0 \<and> reg_sr_crc s AND PAGE_WRITE_EN = 0 \<and> fifo_in s = []
     \<and> flash_current_config s = Some cfg \<and> dev_registered s"

lemma wr_frame_ready: "wr_frame s s' \<Longrightarrow> flash_ready cfg s \<Longrightarrow> flash_ready cfg s'"
  using wr_frameD [of s s'] by (simp add: flash_ready_def)

lemma flash_write_data_ok:
  assumes chip: "nor_chip locked (env_chip E)" and ready: "flash_ready cfg s"
    and guard: "unat address - unat address mod 32 + unat len \<le> unat (flash_size cfg)"
      "unat address - unat address mod 32 < unat (flash_size cfg)"
    and lim: "unat address + unat len \<le> 2 ^ 24" and src: "unat len \<le> length buffer"
  shows "\<exists>s'. flash_write_data E buffer address len s = Some s' \<and> wr_frame s s' \<and> fl_sr E s' = fl_sr E s
    \<and> fl_mem E s' = prog_mem (locked (fl_sr E s)) (fl_mem E s) (unat address) (take (unat len) buffer)"
proof -
  define addr where "addr = address AND NOT 0x1F"
  have A: "unat addr = unat address - unat address mod 32" unfolding addr_def by (rule unat_align32)
  note R = ready [unfolded flash_ready_def]
  have al: "unat addr + unat address mod 32 = unat address" using A by simp
  have "unat (addr + len) = unat addr + unat len"
    using guard(1) A unat_u32 [of "flash_size cfg"] by (subst unat_add_no_wrap) auto
  then have g: "\<not> (addr \<ge> flash_size cfg \<or> len > flash_size cfg \<or> addr + len > flash_size cfg)"
    using guard A by (auto simp: word_le_nat_alt word_less_nat_alt not_le not_less)
  have "unat addr mod 32 = 0" using A by (metis minus_mod_eq_mult_div mod_mult_self1_is_0)
  then obtain q where q: "unat addr = 32 * q" by (auto simp: mod_eq_0_iff_dvd elim: dvdE)
  obtain pb s1 where p: "(if address mod 32 \<noteq> 0 then flash_read_data E addr 32 s else Some (replicate 32 0xFF, s)) = Some (pb, s1)"
    and fr: "rd_frame s s1" and l: "length pb = 32"
    and pre: "\<forall>j < unat address mod 32. pb ! j = fl_mem E s (unat addr + j)"
  proof (cases "address mod 32 = 0")
    case True
    then have "unat address mod 32 = 0" by (simp add: mod32_eq_0)
    then show thesis using True R by (intro that [of "replicate 32 0xFF" s]) (auto simp: rd_frame_refl)
  next
    case False
    have "unat addr < 2 ^ 24"
    proof (rule ccontr)
      assume "\<not> unat addr < 2 ^ 24"
      then have "unat address = 2 ^ 24" "unat address mod 32 = 0" using al lim by auto
      then show False using False by (simp add: mod32_eq_0)
    qed
    then have "unat addr + unat (32 :: u32) \<le> 2 ^ 24" using q by simp
    then obtain s1 where "flash_read_data E addr 32 s = Some (mem_slice (fl_mem E s) (unat addr) 32, s1)" "rd_frame s s1"
      using flash_read_data_ok [of s addr 32 E] R by auto
    moreover have "unat address mod 32 < 32" by simp
    ultimately show thesis
      using False by (intro that [of "mem_slice (fl_mem E s) (unat addr) 32" s1]) auto
  qed
  note F = rd_frameD [OF fr]
  have "\<exists>s'. flash_write_loop E addr address len buffer pb s1 = Some s' \<and> wr_frame s1 s' \<and> fl_sr E s' = fl_sr E s1
     \<and> fl_mem E s' = prog_mem (locked (fl_sr E s1)) (fl_mem E s1) (unat address) (take (unat len) buffer)"
    by (rule flash_write_loop_ok [OF chip]) (use F R al lim src l pre in auto)
  then obtain s' where s': "flash_write_loop E addr address len buffer pb s1 = Some s'" "wr_frame s1 s'"
    "fl_sr E s' = fl_sr E s" "fl_mem E s' = prog_mem (locked (fl_sr E s)) (fl_mem E s) (unat address) (take (unat len) buffer)"
    using F(1) by auto
  have "flash_write_data E buffer address len s = Some s'"
    unfolding flash_write_data_def addr_def [symmetric] Let_def using R g p s'(1) F(6) by (simp add: wait_idle)
  then show ?thesis using wr_frame_trans [OF rd_wr_frame [OF fr] s'(2)] s'(3,4) by blast
qed

lemma flash_write_data_reject:
  assumes "flash_current_config s = Some cfg"
    "unat (flash_size cfg) \<le> unat address - unat address mod 32 \<or> unat (flash_size cfg) < unat len"
  shows "flash_write_data E buffer address len s = Some s"
  using assms unat_align32 [of address]
  by (auto simp: flash_write_data_def Let_def word_le_nat_alt word_less_nat_alt)

subsection \<open>Page writes\<close>

lemma write_pw_byte: "write_pw_conf (ucast (b :: byte) AND 0xFF) s = s\<lparr>pw_mem := pw_mem s @ [b]\<rparr>"
proof -
  have m: "(0xFF :: u32) = mask 8" by (simp add: mask_eq_exp_minus_1)
  have "ucast b AND (0xFF :: u32) = ucast b"
    unfolding m by (rule bit_word_eqI) (auto simp: bit_simps dest: bit_imp_le_length)
  moreover have "ucast b AND FLASH_PW_MEM_CLR = 0"
  proof (rule bit_word_eqI)
    fix n
    have "bit FLASH_PW_MEM_CLR n \<longleftrightarrow> n = 31" unfolding FLASH_PW_MEM_CLR_def by (rule bit_push_1) simp
    then show "bit (ucast b AND FLASH_PW_MEM_CLR) n = bit 0 n"
      using byte_no_high_bit [of 31 b] by (auto simp: bit_and_iff bit_ucast_iff)
  qed
  moreover have "ucast (ucast b :: u32) = b" by (rule bit_word_eqI) (simp add: bit_simps)
  ultimately show ?thesis by (simp add: write_pw_conf_def)
qed

lemma fold_pw: "fold (\<lambda>b s. write_pw_conf (ucast (b :: byte) AND 0xFF) s) page s = s\<lparr>pw_mem := pw_mem s @ page\<rparr>"
  by (induction page arbitrary: s) (auto simp: write_pw_byte)

lemma write_pw_clr: "write_pw_conf FLASH_PW_MEM_CLR s = s\<lparr>pw_mem := []\<rparr>"
  by (simp add: write_pw_conf_def FLASH_PW_MEM_CLR_def)

text \<open>The states a page write leaves: the page memory may differ as well.\<close>

definition pg_frame :: "'c flash \<Rightarrow> 'c flash \<Rightarrow> bool" where
  "pg_frame s s' \<longleftrightarrow> wr_frame (s\<lparr>pw_mem := pw_mem s'\<rparr>) s'"

lemma pg_frame_trans: "pg_frame s s1 \<Longrightarrow> pg_frame s1 s2 \<Longrightarrow> pg_frame s s2"
  by (cases s; cases s1; cases s2) (simp add: wr_frame_def pg_frame_def)

lemma wr_pg_frame: "wr_frame s s' \<Longrightarrow> pg_frame s s'"
  by (cases s; cases s') (simp add: wr_frame_def pg_frame_def)

lemma pg_frameD:
  assumes "pg_frame s s'"
  shows "reg_sr_crc s' = reg_sr_crc s" "fifo_in s' = fifo_in s" "reg_conf s' = reg_conf s"
    "flash_current_config s' = flash_current_config s" "reg_operate s' AND BUSY_SW = 0"
    "curr_line_mode s' = curr_line_mode s" "flash_wr_sr_bypass s' = flash_wr_sr_bypass s" "peri_busy s' = peri_busy s" "dev_registered s' = dev_registered s"
  using wr_frameD [OF assms [unfolded pg_frame_def]] by simp_all

lemma page_program_ok:
  assumes "nor_chip locked (env_chip E)" "unat address < 2 ^ 24" "unat address mod 256 = 0"
    "reg_sr_crc s AND PAGE_WRITE_EN \<noteq> 0" "pw_mem s = page" "length page = 256"
  defines "v \<equiv> address OR op_word FLASH_OPCODE_PP OR OP_SW OR (reg_operate s AND WP_VALUE)"
  shows "\<exists>s'. wait_busy (write_operate E v s) = Some s' \<and> wr_frame s s' \<and> fl_sr E s' = fl_sr E s
    \<and> fl_mem E s' = prog_mem (locked (fl_sr E s)) (fl_mem E s) (unat address) page"
proof -
  define s1 where "s1 = (op_done v s)\<lparr>chip_st := ch_program (env_chip E) (unat address) page (chip_st s)\<rparr>"
  have "wait_busy (write_operate E v s) = Some (exec_op E (opcode FLASH_OPCODE_PP) (unat address) (op_done v s))"
    unfolding v_def by (rule write_cmd [OF assms(2) and_WP])
  also have "\<dots> = Some s1"
    using assms(4,5) by (simp add: exec_op_def op_done_def Let_def s1_def del: opcode.simps)
  finally have w: "wait_busy (write_operate E v s) = Some s1" .
  have b: "reg_operate s1 AND BUSY_SW = 0" using op_done_busy [of v s] by (simp add: s1_def)
  have "wr_frame s s1" using b by (simp add: wr_frame_def s1_def op_done_def)
  moreover have "fl_sr E s1 = fl_sr E s" using assms(1) by (simp add: s1_def nor_chip_def)
  moreover have "fl_mem E s1 = prog_mem (locked (fl_sr E s)) (fl_mem E s) (unat address) page"
    by (rule ext) (use assms(1,3,6) in \<open>simp add: s1_def nor_chip_def prog_mem_def\<close>)
  ultimately show ?thesis using w by simp
qed

lemma page_write_loop_ok:
  assumes chip: "nor_chip locked (env_chip E)"
  shows "reg_operate s AND BUSY_SW = 0 \<Longrightarrow> reg_sr_crc s AND PAGE_WRITE_EN \<noteq> 0 \<Longrightarrow> unat address mod 256 = 0 \<Longrightarrow>
   unat address + 256 * n \<le> 2 ^ 24 \<Longrightarrow> 256 * n \<le> length buffer \<Longrightarrow>
   \<exists>s'. page_write_loop E n buffer address s = Some (drop (256 * n) buffer, address + of_nat (256 * n), s')
     \<and> pg_frame s s' \<and> fl_sr E s' = fl_sr E s
     \<and> fl_mem E s' = prog_mem (locked (fl_sr E s)) (fl_mem E s) (unat address) (take (256 * n) buffer)"
proof (induction n arbitrary: address buffer s)
  case 0
  then show ?case by (simp add: wr_pg_frame rd_wr_frame rd_frame_refl)
next
  case (Suc n)
  let ?page = "take 256 buffer"
  have lp: "length ?page = 256" using Suc.prems(5) by simp
  define s0 where "s0 = s\<lparr>pw_mem := ?page\<rparr>"
  have e0: "fold (\<lambda>b s. write_pw_conf (ucast b AND 0xFF) s) ?page (write_pw_conf FLASH_PW_MEM_CLR s) = s0"
    by (simp add: fold_pw write_pw_clr s0_def)
  have lim: "unat address < 2 ^ 24" using Suc.prems(4) by simp
  have "\<exists>s1. wait_busy (write_operate E (address OR op_word FLASH_OPCODE_PP OR OP_SW OR (reg_operate s0 AND WP_VALUE)) s0) = Some s1
      \<and> wr_frame s0 s1 \<and> fl_sr E s1 = fl_sr E s0
      \<and> fl_mem E s1 = prog_mem (locked (fl_sr E s0)) (fl_mem E s0) (unat address) ?page"
    by (rule page_program_ok [OF chip lim Suc.prems(3)]) (use Suc.prems(2) lp in \<open>auto simp: s0_def\<close>)
  then obtain s1 where s1: "wait_busy (write_operate E (address OR op_word FLASH_OPCODE_PP OR OP_SW OR (reg_operate s0 AND WP_VALUE)) s0) = Some s1"
    "wr_frame s0 s1" "fl_sr E s1 = fl_sr E s"
    "fl_mem E s1 = prog_mem (locked (fl_sr E s)) (fl_mem E s) (unat address) ?page"
    by (auto simp: s0_def)
  have "pg_frame s s1" using s1(2) by (cases s1) (simp add: pg_frame_def s0_def wr_frame_def)
  note F = pg_frameD [OF this]
  have a': "unat (address + 256) = unat address + 256"
    using Suc.prems(4) by (subst unat_add_no_wrap) auto
  obtain s' where s': "page_write_loop E n (drop 256 buffer) (address + 256) s1 =
        Some (drop (256 * n) (drop 256 buffer), address + 256 + of_nat (256 * n), s')"
      "pg_frame s1 s'" "fl_sr E s' = fl_sr E s1"
      "fl_mem E s' = prog_mem (locked (fl_sr E s1)) (fl_mem E s1) (unat (address + 256)) (take (256 * n) (drop 256 buffer))"
  proof -
    have "256 * n \<le> length (drop 256 buffer)" "unat (address + 256) mod 256 = 0"
      using Suc.prems(3,5) a' by auto
    then show thesis
      using Suc.IH [of s1 "address + 256" "drop 256 buffer"] F Suc.prems(2,4) a' that by auto
  qed
  have "page_write_loop E (Suc n) buffer address s = page_write_loop E n (drop 256 buffer) (address + 256) s1"
    using s1(1) e0 Suc.prems(5) by (simp add: buf_get_def Let_def)
  moreover have "take 256 buffer @ take (256 * n) (drop 256 buffer) = take (256 * Suc n) buffer"
    by (simp add: take_add)
  ultimately show ?case
    using s' s1(3,4) a' lp pg_frame_trans [OF \<open>pg_frame s s1\<close> s'(2)]
      prog_mem_append [of "locked (fl_sr E s)" "fl_mem E s" "unat address" ?page "take (256 * n) (drop 256 buffer)"]
    by (simp add: algebra_simps)
qed

lemma page_head_ok:
  assumes chip: "nor_chip locked (env_chip E)" and ready: "flash_ready cfg s"
    and rng: "unat address + unat len \<le> unat (flash_size cfg)" "unat (flash_size cfg) \<le> 2 ^ 24"
    and len: "256 < unat len" and src: "unat len \<le> length buffer"
  shows "\<exists>k s'. k < 256 \<and> (unat address + k) mod 256 = 0
    \<and> page_head E buffer address len s = Some (drop k buffer, address + of_nat k, len - of_nat k, s')
    \<and> wr_frame s s' \<and> fl_sr E s' = fl_sr E s
    \<and> fl_mem E s' = prog_mem (locked (fl_sr E s)) (fl_mem E s) (unat address) (take k buffer)"
proof (cases "address mod 256 = 0")
  case True
  then have "unat address mod 256 = 0" by (simp add: word_unat_eq_iff unat_mod)
  then show ?thesis
    using True ready by (intro exI [of _ 0] exI [of _ s]) (simp add: page_head_def rd_wr_frame rd_frame_refl flash_ready_def)
next
  case False
  let ?a = "unat address"
  define k where "k = 256 - ?a mod 256"
  have am: "?a mod 256 \<noteq> 0" "?a mod 256 < 256" "256 * (?a div 256) + ?a mod 256 = ?a"
    using False by (simp_all add: word_unat_eq_iff unat_mod)
  then have k: "k < 256" "?a + k = 256 * (?a div 256) + 256" unfolding k_def by linarith+
  have uk: "unat (of_nat k :: u32) = k" using k by (intro unat_of_nat_small) simp
  have "unat (256 - address mod 256) = k"
    unfolding k_def by (subst unat_sub_no_wrap) (simp_all add: unat_mod)
  then have c: "256 - address mod 256 = of_nat k" using uk by (simp only: word_unat_eq_iff)
  have "\<exists>s'. flash_write_data E buffer address (of_nat k) s = Some s' \<and> wr_frame s s' \<and> fl_sr E s' = fl_sr E s
      \<and> fl_mem E s' = prog_mem (locked (fl_sr E s)) (fl_mem E s) ?a (take (unat (of_nat k :: u32)) buffer)"
    by (rule flash_write_data_ok [OF chip ready]) (use uk k(1) len rng src in auto)
  then show ?thesis
    using False uk k by (auto simp: page_head_def c Let_def intro!: exI [of _ k])
qed

lemma page_body_ok:
  assumes chip: "nor_chip locked (env_chip E)" and ready: "flash_ready cfg s"
    and rng: "unat address + unat len \<le> 2 ^ 24" and al: "unat address mod 256 = 0"
    and src: "unat len \<le> length buffer"
  defines "n \<equiv> 256 * (unat len div 256)"
  shows "\<exists>s'. page_body E buffer address len s = Some (drop n buffer, address + of_nat n, s')
    \<and> pg_frame s s' \<and> fl_sr E s' = fl_sr E s
    \<and> fl_mem E s' = prog_mem (locked (fl_sr E s)) (fl_mem E s) (unat address) (take n buffer)"
proof (cases "len div 256 = 0")
  case True
  then have "n = 0" by (simp add: n_def word_unat_eq_iff unat_div)
  then show ?thesis
    using True ready by (auto simp: page_body_def wr_pg_frame rd_wr_frame rd_frame_refl flash_ready_def)
next
  case False
  note R = ready [unfolded flash_ready_def]
  define t where "t = s\<lparr>reg_sr_crc := reg_sr_crc s OR PAGE_WRITE_EN\<rparr>"
  have "bit (reg_sr_crc t AND PAGE_WRITE_EN) 30" by (simp add: t_def bit_and_iff bit_or_iff bit_PAGE_WRITE_EN)
  then have pw: "reg_sr_crc t AND PAGE_WRITE_EN \<noteq> 0" by auto
  have nl: "n \<le> unat len" by (simp add: n_def)
  have uc: "unat (len div 256) = unat len div 256" by (simp add: unat_div)
  have "\<exists>s'. page_write_loop E (unat len div 256) buffer address t = Some (drop n buffer, address + of_nat n, s')
      \<and> pg_frame t s' \<and> fl_sr E s' = fl_sr E t
      \<and> fl_mem E s' = prog_mem (locked (fl_sr E t)) (fl_mem E t) (unat address) (take n buffer)"
    unfolding n_def
    by (rule page_write_loop_ok [OF chip]) (use R pw rng src al nl in \<open>auto simp: t_def n_def\<close>)
  then obtain u where u: "page_write_loop E (unat len div 256) buffer address t = Some (drop n buffer, address + of_nat n, u)"
      "pg_frame t u" "fl_sr E u = fl_sr E s"
      "fl_mem E u = prog_mem (locked (fl_sr E s)) (fl_mem E s) (unat address) (take n buffer)"
    by (auto simp: t_def)
  have "\<not> bit (reg_sr_crc s AND PAGE_WRITE_EN) 30" using R by simp
  then have crc: "(reg_sr_crc s OR PAGE_WRITE_EN) AND NOT PAGE_WRITE_EN = reg_sr_crc s"
    by (intro bit_word_eqI) (auto simp: bit_and_iff bit_or_iff bit_not_iff bit_PAGE_WRITE_EN)
  have cu: "reg_sr_crc u = reg_sr_crc s OR PAGE_WRITE_EN" using pg_frameD(1) [OF u(2)] by (simp add: t_def)
  have "pg_frame s (u\<lparr>reg_sr_crc := reg_sr_crc u AND NOT PAGE_WRITE_EN\<rparr>)"
    using u(2) unfolding cu crc by (cases s; cases u) (simp add: pg_frame_def wr_frame_def t_def)
  then show ?thesis
    using False u R by (auto simp: page_body_def wait_idle t_def [symmetric] Let_def uc)
qed

lemma flash_page_write_data_ok:
  assumes chip: "nor_chip locked (env_chip E)" and ready: "flash_ready cfg s"
    and rng: "unat address + unat len \<le> unat (flash_size cfg)" "unat (flash_size cfg) \<le> 2 ^ 24"
    and len: "256 < unat len" and src: "unat len \<le> length buffer"
  shows "\<exists>s'. flash_page_write_data E buffer address len s = Some s' \<and> pg_frame s s' \<and> fl_sr E s' = fl_sr E s
    \<and> fl_mem E s' = prog_mem (locked (fl_sr E s)) (fl_mem E s) (unat address) (take (unat len) buffer)"
proof -
  let ?a = "unat address" and ?lk = "locked (fl_sr E s)"
  note R = ready [unfolded flash_ready_def]
  have "unat (address + len) = ?a + unat len" using rng by (subst unat_add_no_wrap) auto
  then have g: "\<not> (address \<ge> flash_size cfg \<or> len > flash_size cfg \<or> address + len > flash_size cfg)"
    using rng len by (auto simp: word_le_nat_alt word_less_nat_alt not_le not_less)
  obtain k s1 where k: "k < 256" "(?a + k) mod 256 = 0"
    and h: "page_head E buffer address len s = Some (drop k buffer, address + of_nat k, len - of_nat k, s1)"
    and f1: "wr_frame s s1" and r1: "fl_sr E s1 = fl_sr E s"
    and m1: "fl_mem E s1 = prog_mem ?lk (fl_mem E s) ?a (take k buffer)"
    using page_head_ok [OF assms] by metis
  have uk: "unat (of_nat k :: u32) = k" using k by (intro unat_of_nat_small) simp
  have ua: "unat (address + of_nat k) = ?a + k" using uk k len rng by (subst unat_add_no_wrap) auto
  have ul: "unat (len - of_nat k) = unat len - k" using uk k len by (simp add: unat_sub_no_wrap)
  define n where "n = 256 * (unat (len - of_nat k) div 256)"
  define m where "m = unat (len - of_nat k) mod 256"
  have tot: "k + n + m = unat len" using k(1) len by (simp add: n_def m_def ul)
  have ready1: "flash_ready cfg s1" using wr_frame_ready [OF f1 ready] .
  obtain s2 where p: "page_body E (drop k buffer) (address + of_nat k) (len - of_nat k) s1 =
      Some (drop n (drop k buffer), address + of_nat k + of_nat n, s2)"
    and f2: "pg_frame s1 s2" and r2: "fl_sr E s2 = fl_sr E s1"
    and m2: "fl_mem E s2 = prog_mem ?lk (fl_mem E s1) (?a + k) (take n (drop k buffer))"
    using page_body_ok [OF chip ready1, of "address + of_nat k" "len - of_nat k" "drop k buffer"]
      ua ul k rng diff_le_mono [OF src, of k] tot r1 unfolding n_def [symmetric] by auto
  have ready2: "flash_ready cfg s2" using pg_frameD [OF f2] ready1 by (simp add: flash_ready_def)
  have un: "unat (of_nat n :: u32) = n" using tot rng by (intro unat_of_nat_small) auto
  have ua2: "unat (address + of_nat k + of_nat n) = ?a + k + n"
    using ua un tot rng by (subst unat_add_no_wrap) auto
  have um: "unat ((len - of_nat k) mod 256) = m" by (simp add: unat_mod m_def)
  have "\<exists>s3. (if (len - of_nat k) mod 256 \<noteq> 0
        then flash_write_data E (drop n (drop k buffer)) (address + of_nat k + of_nat n) ((len - of_nat k) mod 256) s2
        else Some s2) = Some s3
    \<and> wr_frame s2 s3 \<and> fl_sr E s3 = fl_sr E s2
    \<and> fl_mem E s3 = prog_mem ?lk (fl_mem E s2) (?a + k + n) (take m (drop n (drop k buffer)))"
  proof (cases "m = 0")
    case True
    then have "(len - of_nat k) mod 256 = 0" using um by (simp add: word_unat_eq_iff)
    then show ?thesis using True ready2 by (simp add: rd_wr_frame rd_frame_refl flash_ready_def)
  next
    case False
    then have "(len - of_nat k) mod 256 \<noteq> 0" using um by (metis unat_0)
    moreover have "\<exists>s'. flash_write_data E (drop n (drop k buffer)) (address + of_nat k + of_nat n) ((len - of_nat k) mod 256) s2 = Some s'
        \<and> wr_frame s2 s' \<and> fl_sr E s' = fl_sr E s2
        \<and> fl_mem E s' = prog_mem (locked (fl_sr E s2)) (fl_mem E s2) (unat (address + of_nat k + of_nat n))
            (take (unat ((len - of_nat k) mod 256)) (drop n (drop k buffer)))"
      by (rule flash_write_data_ok [OF chip ready2]) (use ua2 um tot rng src False in auto)
    ultimately show ?thesis using r1 r2 ua2 um by simp
  qed
  then obtain s3 where q: "(if (len - of_nat k) mod 256 \<noteq> 0
        then flash_write_data E (drop n (drop k buffer)) (address + of_nat k + of_nat n) ((len - of_nat k) mod 256) s2
        else Some s2) = Some s3"
    and f3: "wr_frame s2 s3" and r3: "fl_sr E s3 = fl_sr E s2"
    and m3: "fl_mem E s3 = prog_mem ?lk (fl_mem E s2) (?a + k + n) (take m (drop n (drop k buffer)))" by blast
  have "flash_page_write_data E buffer address len s = Some s3"
    unfolding flash_page_write_data_def using R g h p q by (simp split: if_splits)
  moreover have "pg_frame s s3"
    using pg_frame_trans [OF wr_pg_frame [OF f1] pg_frame_trans [OF f2 wr_pg_frame [OF f3]]] .
  moreover have "fl_mem E s3 = prog_mem ?lk (fl_mem E s) ?a (take (unat len) buffer)"
    unfolding m3 m2 m1 using prog_mem_split3 [of k n m "unat len" buffer ?lk "fl_mem E s" ?a] tot src by simp
  ultimately show ?thesis using r1 r2 r3 by simp
qed

subsection \<open>Line modes and status register\<close>

text \<open>Nothing but registers of the controller changes, and the driver is idle again.\<close>

definition quiet :: "'c flash_env \<Rightarrow> flash_config_t \<Rightarrow> 'c flash \<Rightarrow> 'c flash \<Rightarrow> bool" where
  "quiet E cfg s s' \<longleftrightarrow> flash_ready cfg s' \<and> fl_mem E s' = fl_mem E s \<and> fl_sr E s' = fl_sr E s
     \<and> flash_wr_sr_bypass s' = flash_wr_sr_bypass s \<and> peri_busy s' = peri_busy s \<and> flash_id s' = flash_id s"

lemma quiet_refl: "flash_ready cfg s \<Longrightarrow> quiet E cfg s s"
  by (simp add: quiet_def)

lemma quiet_trans: "quiet E cfg s s1 \<Longrightarrow> quiet E cfg s1 s2 \<Longrightarrow> quiet E cfg s s2"
  by (simp add: quiet_def)

lemma rd_frame_quiet: "rd_frame s s' \<Longrightarrow> flash_ready cfg s \<Longrightarrow> quiet E cfg s s'"
  using rd_frameD [of s s'] by (simp add: quiet_def flash_ready_def)

lemma misc_quiet:
  assumes "nor_chip locked (env_chip E)" "flash_ready cfg s" "x = 0 \<or> x = WP_VALUE"
    and op: "op = FLASH_OPCODE_CRMR \<or> op = FLASH_OPCODE_HPM \<or> op = FLASH_OPCODE_WREN \<or> op = FLASH_OPCODE_WRDI"
  shows "\<exists>s'. wait_busy (write_operate E (op_word op OR OP_SW OR x) s) = Some s' \<and> quiet E cfg s s'"
proof -
  let ?v = "op_word op OR OP_SW OR x" and ?c = "ch_misc (env_chip E) (opcode op) (chip_st s)"
  have "wait_busy (write_operate E ?v s) = Some (exec_op E (opcode op) 0 (op_done ?v s))" by (rule write_cmd0 [OF assms(3)])
  also have "\<dots> = Some ((op_done ?v s)\<lparr>chip_st := ?c\<rparr>)"
    using op by (elim disjE) (simp_all add: exec_op_def op_done_def Let_def)
  finally have w: "wait_busy (write_operate E ?v s) = Some ((op_done ?v s)\<lparr>chip_st := ?c\<rparr>)" .
  have "ch_read (env_chip E) ?c = fl_mem E s" "fl_sr E (s\<lparr>chip_st := ?c\<rparr>) = fl_sr E s"
    using assms(1) op unfolding nor_chip_def by auto
  then have "quiet E cfg s ((op_done ?v s)\<lparr>chip_st := ?c\<rparr>)"
    using assms(2) op_done_busy [of ?v s] by (simp add: quiet_def flash_ready_def op_done_def)
  then show ?thesis using w by simp
qed

lemma conf_quiet: "flash_ready cfg s \<Longrightarrow> quiet E cfg s (s\<lparr>reg_conf := c\<rparr>)"
  "flash_ready cfg s \<Longrightarrow> quiet E cfg s (s\<lparr>curr_line_mode := m\<rparr>)"
  by (simp_all add: quiet_def flash_ready_def)

lemma clr_qwfr_quiet:
  assumes "nor_chip locked (env_chip E)" "flash_ready cfg s"
  shows "\<exists>s'. flash_clr_qwfr E s = Some s' \<and> quiet E cfg s s'"
proof -
  let ?s = "s\<lparr>reg_conf := reg_conf s AND NOT (push_bit 4 MODEL_SEL_MASK)\<rparr>"
  have q: "quiet E cfg s ?s" by (rule conf_quiet(1) [OF assms(2)])
  then have "flash_ready cfg ?s" by (simp add: quiet_def)
  from misc_quiet [OF assms(1) this and_WP, of FLASH_OPCODE_CRMR "reg_operate ?s"] obtain s' where
    "wait_busy (write_operate E (op_word FLASH_OPCODE_CRMR OR OP_SW OR (reg_operate ?s AND WP_VALUE)) ?s) = Some s'"
    "quiet E cfg ?s s'" by auto
  then show ?thesis using quiet_trans [OF q] by (auto simp: flash_clr_qwfr_def Let_def)
qed

lemma m_value_quiet:
  assumes "flash_ready cfg s"
  shows "quiet E cfg s (s\<lparr>reg_sr_crc := (reg_sr_crc s AND NOT (push_bit 22 M_VALUE_MASK)) OR push_bit 22 (ucast (m :: u8))\<rparr>)"
proof -
  let ?v = "(reg_sr_crc s AND NOT (push_bit 22 M_VALUE_MASK)) OR push_bit 22 (ucast m)"
  have "\<not> bit (reg_sr_crc s AND PAGE_WRITE_EN) 30" using assms by (simp add: flash_ready_def)
  then have s: "\<not> bit (reg_sr_crc s) 30" by (simp add: bit_and_iff bit_PAGE_WRITE_EN)
  have "?v AND PAGE_WRITE_EN = 0"
  proof (rule bit_word_eqI)
    fix n
    show "bit (?v AND PAGE_WRITE_EN) n = bit 0 n"
      using s byte_no_high_bit [of 8 m]
      by (auto simp: bit_and_iff bit_or_iff bit_not_iff bit_push_bit_iff bit_ucast_iff bit_PAGE_WRITE_EN)
  qed
  then show ?thesis using assms by (simp add: quiet_def flash_ready_def)
qed

lemma set_line_mode_quiet:
  assumes "nor_chip locked (env_chip E)" "flash_ready cfg s" "m \<noteq> 1"
  shows "\<exists>s'. flash_set_line_mode E m s = Some s' \<and> quiet E cfg s s'"
proof -
  obtain t where t: "flash_clr_qwfr E s = Some t" "quiet E cfg s t" using clr_qwfr_quiet [OF assms(1,2)] by blast
  then have rt: "flash_ready cfg t" by (simp add: quiet_def)
  then have ct: "flash_current_config t = Some cfg" by (simp add: flash_ready_def)
  let ?c = "(reg_conf t AND NOT (push_bit 4 MODEL_SEL_MASK)) OR push_bit 4 (1 AND MODEL_SEL_MASK)"
  let ?u = "t\<lparr>reg_sr_crc := (reg_sr_crc t AND NOT (push_bit 22 M_VALUE_MASK)) OR push_bit 22 (ucast (m_value cfg))\<rparr>"
  let ?v = "?u\<lparr>reg_conf := (reg_conf t AND NOT (push_bit 4 MODEL_SEL_MASK)) OR push_bit 4 (ucast (mode_sel cfg)), curr_line_mode := 4\<rparr>"
  have "quiet E cfg t (t\<lparr>reg_conf := ?c, curr_line_mode := 2\<rparr>)"
    using rt by (simp add: quiet_def flash_ready_def)
  moreover have "quiet E cfg t ?v"
    using m_value_quiet [OF rt, of E "m_value cfg"] by (simp add: quiet_def flash_ready_def)
  ultimately show ?thesis
    using t ct assms(2,3) quiet_refl [OF assms(2)]
    by (auto simp: flash_set_line_mode_def flash_set_qwfr_def intro: quiet_trans [OF t(2)])
qed

lemma line_mode_quiet:
  assumes "nor_chip locked (env_chip E)" "flash_ready cfg s"
  shows "\<exists>s'. line_mode_enter E s = Some s' \<and> quiet E cfg s s'" "\<exists>s'. line_mode_leave E s = Some s' \<and> quiet E cfg s s'"
  using set_line_mode_quiet [OF assms, of 2] set_line_mode_quiet [OF assms, of 4] quiet_refl [OF assms(2)] assms(2)
  by (auto simp: line_mode_enter_def line_mode_leave_def flash_ready_def)

lemma peri_busy_quiet:
  "quiet E cfg (s\<lparr>peri_busy := peri_busy s + 1\<rparr>) s' \<Longrightarrow> quiet E cfg s (s'\<lparr>peri_busy := peri_busy s' - 1\<rparr>)"
  by (simp add: quiet_def flash_ready_def)

end
