(* ===== verification/Flash_Driver_Props.thy ===== *)
theory Flash_Driver_Props
  imports Flash_Driver_Correct
begin

text \<open>
  The properties of the flash device as its clients see them, through \<open>flash_read\<close>,
  \<open>flash_write\<close> and \<open>flash_ctrl\<close>, over any chip with the behaviour \<open>nor_chip\<close>.
\<close>

section \<open>Reading and writing\<close>

lemma peri_ready: "flash_ready cfg s \<Longrightarrow> flash_ready cfg (s\<lparr>peri_busy := n\<rparr>)"
  by (simp add: flash_ready_def)

lemma flash_read_ok:
  assumes "flash_ready cfg s" "unat address + unat count \<le> 2 ^ 24"
  shows "\<exists>s'. flash_read E count address s =
      Some (FLASH_SUCCESS, mem_slice (fl_mem E s) (unat address) (unat count), s') \<and> quiet E cfg s s'"
proof -
  let ?s = "s\<lparr>peri_busy := peri_busy s + 1\<rparr>"
  have r: "flash_ready cfg ?s" by (rule peri_ready [OF assms(1)])
  obtain s1 where s1: "flash_read_data E address count ?s = Some (mem_slice (fl_mem E s) (unat address) (unat count), s1)"
    "rd_frame ?s s1"
    using flash_read_data_ok [of ?s address count E] r assms(2) by (auto simp: flash_ready_def)
  have "quiet E cfg s (s1\<lparr>peri_busy := peri_busy s1 - 1\<rparr>)"
    by (rule peri_busy_quiet [OF rd_frame_quiet [OF s1(2) r]])
  then show ?thesis using s1(1) by (simp add: flash_read_def Let_def)
qed

lemma flash_write_ok:
  assumes chip: "nor_chip locked (env_chip E)" and ready: "flash_ready cfg s"
    and rng: "unat address < unat (flash_size cfg)" "unat address + unat count \<le> unat (flash_size cfg)"
      "unat (flash_size cfg) \<le> 2 ^ 24"
    and src: "unat count \<le> length buf"
  shows "\<exists>s'. flash_write E buf count address s = Some (FLASH_SUCCESS, s') \<and> flash_ready cfg s'
    \<and> fl_sr E s' = fl_sr E s \<and> flash_wr_sr_bypass s' = flash_wr_sr_bypass s
    \<and> fl_mem E s' = prog_mem (locked (fl_sr E s)) (fl_mem E s) (unat address) (take (unat count) buf)"
proof -
  let ?s = "s\<lparr>peri_busy := peri_busy s + 1\<rparr>"
  have "flash_ready cfg ?s" by (rule peri_ready [OF ready])
  from line_mode_quiet(1) [OF chip this] obtain s1 where s1: "line_mode_enter E ?s = Some s1" "quiet E cfg ?s s1" by blast
  have r1: "flash_ready cfg s1" and m1: "fl_mem E s1 = fl_mem E s" "fl_sr E s1 = fl_sr E s"
    "flash_wr_sr_bypass s1 = flash_wr_sr_bypass s"
    using s1(2) by (auto simp: quiet_def)
  have "\<exists>s2. (if has_page_write E \<and> count > 256 then flash_page_write_data E buf address count s1
         else flash_write_data E buf address count s1) = Some s2 \<and> pg_frame s1 s2 \<and> fl_sr E s2 = fl_sr E s1
      \<and> fl_mem E s2 = prog_mem (locked (fl_sr E s1)) (fl_mem E s1) (unat address) (take (unat count) buf)"
  proof (cases "has_page_write E \<and> count > 256")
    case True
    then show ?thesis
      using flash_page_write_data_ok [OF chip r1 rng(2,3) _ src] by (simp add: word_less_nat_alt)
  next
    case False
    have g: "unat address - unat address mod 32 + unat count \<le> unat (flash_size cfg)"
      "unat address - unat address mod 32 < unat (flash_size cfg)" "unat address + unat count \<le> 2 ^ 24"
      using rng by linarith+
    show ?thesis
      using flash_write_data_ok [OF chip r1 g src] wr_pg_frame False by auto
  qed
  then obtain s2 where s2: "(if has_page_write E \<and> count > 256 then flash_page_write_data E buf address count s1
         else flash_write_data E buf address count s1) = Some s2" "pg_frame s1 s2" "fl_sr E s2 = fl_sr E s"
      "fl_mem E s2 = prog_mem (locked (fl_sr E s)) (fl_mem E s) (unat address) (take (unat count) buf)"
    using m1 by auto
  have r2: "flash_ready cfg s2" using pg_frameD [OF s2(2)] r1 by (simp add: flash_ready_def)
  from line_mode_quiet(2) [OF chip r2] obtain s3 where s3: "line_mode_leave E s2 = Some s3" "quiet E cfg s2 s3" by blast
  show ?thesis
    using s1(1) s2 s3 m1 pg_frameD(7) [OF s2(2)] unfolding flash_write_def
    by (auto simp: quiet_def Let_def flash_ready_def)
qed

text \<open>
  (C2) \<open>flash_write\<close> on any SoC, with 32-byte programming or whole pages, for any address and
  count inside the chip: it returns \<open>FLASH_SUCCESS\<close>, every byte of the range that is not
  write-protected becomes the bitwise AND of its old value and the byte written (so an erased
  byte takes exactly the byte written), and every other byte of the flash is unchanged.
\<close>

theorem flash_write_programs_range:
  assumes "nor_chip locked (env_chip E)" and "flash_ready cfg s"
    and "unat address < unat (flash_size cfg)" and "unat address + unat count \<le> unat (flash_size cfg)"
    and "unat (flash_size cfg) \<le> 2 ^ 24" and "unat count \<le> length buf"
  shows "\<exists>s'. flash_write E buf count address s = Some (FLASH_SUCCESS, s') \<and> flash_ready cfg s'
    \<and> (\<forall>i. fl_mem E s' i =
          (if unat address \<le> i \<and> i < unat address + unat count \<and> \<not> locked (fl_sr E s) i
           then fl_mem E s i AND buf ! (i - unat address) else fl_mem E s i))"
  using flash_write_ok [OF assms] assms(6) by (auto simp: prog_mem_def)

text \<open>A concrete chip and driver state for the witnesses: 2 MiB, erased, protected by bit 6 of the status register.\<close>

definition sim_chip :: "((nat \<Rightarrow> byte) \<times> u16) chip" where
  "sim_chip = \<lparr>ch_read = fst,
     ch_program = (\<lambda>a bs c. (\<lambda>i. if a \<le> i \<and> i < a + length bs \<and> \<not> bit (snd c) 6 then fst c i AND bs ! (i - a) else fst c i, snd c)),
     ch_erase = (\<lambda>a c. (\<lambda>i. if a \<le> i \<and> i < a + 4096 \<and> \<not> bit (snd c) 6 then 0xFF else fst c i, snd c)),
     ch_sr = snd, ch_wrsr = (\<lambda>v c. (fst c, (v AND 0xFF) OR (snd c AND 0xFF00))), ch_wrsr2 = (\<lambda>v c. (fst c, v)),
     ch_id = (\<lambda>_. 0xEB6015), ch_scr = (\<lambda>_ _. 0), ch_misc = (\<lambda>_ c. c)\<rparr>"

definition sim_env :: "((nat \<Rightarrow> byte) \<times> u16) flash_env" where
  "sim_env = \<lparr>env_chip = sim_chip, env_answer = (\<lambda>op _ _. if op = opcode FLASH_OPCODE_SE then 1000 else 3), env_soc = SOC_BK7238, env_ate = False, env_bypass_read = (\<lambda>_ _ _. (-1, []))\<rparr>"

definition sim_cfg :: flash_config_t where
  "sim_cfg = mk_config 0xEB6015 2 0x200000 2 14 2 0x1F 0x1F 0x00 0x0D 0x101 9 1 0xA0 0x01"

definition sim_state :: "((nat \<Rightarrow> byte) \<times> u16) flash" where
  "sim_state = \<lparr>chip_st = (\<lambda>_. 0xFF, 0), reg_operate = 0, busy_left = 0, reg_rdid = 0, reg_sr_crc = 0, reg_conf = 0, reg_wrsr = 0,
     fifo_in = [], fifo_out = [], pw_mem = [], flash_current_config = Some sim_cfg, flash_wr_sr_bypass = None,
     flash_id = 0xEB6015, curr_line_mode = 2, peri_busy = 0, sctrl_log = [], dev_registered = True\<rparr>"

lemma sim_nor_chip: "nor_chip (\<lambda>sr _. bit sr 6) (env_chip sim_env)"
  by (auto simp: nor_chip_def sim_env_def sim_chip_def)

lemma sim_ready: "flash_ready sim_cfg sim_state"
  by (simp add: flash_ready_def sim_state_def)

lemma sim_size [simp]: "flash_size sim_cfg = 0x200000" "sr_size sim_cfg = 2"
  by (simp_all add: sim_cfg_def mk_config_def)

lemma sim_mem [simp]: "fl_mem sim_env sim_state = (\<lambda>_. 0xFF)" "fl_sr sim_env sim_state = 0"
  by (simp_all add: sim_env_def sim_chip_def sim_state_def)

theorem flash_write_programs_range_witness:
  "\<exists>s'. flash_write sim_env [1, 2, 3] 3 0x1FFFF sim_state = Some (FLASH_SUCCESS, s')
    \<and> fl_mem sim_env s' 0x1FFFE = 0xFF \<and> fl_mem sim_env s' 0x1FFFF = 1 \<and> fl_mem sim_env s' 0x20000 = 2
    \<and> fl_mem sim_env s' 0x20001 = 3 \<and> fl_mem sim_env s' 0x20002 = 0xFF"
  using flash_write_programs_range [OF sim_nor_chip sim_ready, of "0x1FFFF" 3 "[1, 2, 3]"] by auto

text \<open>
  Write, then read: after \<open>flash_write\<close> of a block into an erased, unprotected range,
  \<open>flash_read\<close> of the range returns the block.
\<close>

theorem flash_write_read_back:
  assumes "nor_chip locked (env_chip E)" and "flash_ready cfg s"
    and "unat address < unat (flash_size cfg)" and "unat address + unat count \<le> unat (flash_size cfg)"
    and "unat (flash_size cfg) \<le> 2 ^ 24" and "length buf = unat count"
    and "\<forall>i. unat address \<le> i \<and> i < unat address + unat count \<longrightarrow> fl_mem E s i = 0xFF \<and> \<not> locked (fl_sr E s) i"
  shows "\<exists>s' s''. flash_write E buf count address s = Some (FLASH_SUCCESS, s')
    \<and> flash_read E count address s' = Some (FLASH_SUCCESS, buf, s'')"
proof -
  obtain s' where s': "flash_write E buf count address s = Some (FLASH_SUCCESS, s')" "flash_ready cfg s'"
    "fl_mem E s' = prog_mem (locked (fl_sr E s)) (fl_mem E s) (unat address) (take (unat count) buf)"
    using flash_write_ok [OF assms(1-5), of buf] assms(6) by auto
  have "mem_slice (fl_mem E s') (unat address) (unat count) = buf"
    using assms(6,7) by (intro nth_equalityI) (auto simp: s'(3) prog_mem_def and_FF)
  then show ?thesis
    using s' flash_read_ok [OF s'(2), of address count E] assms(4,5) by auto
qed

theorem flash_write_read_back_witness:
  "\<exists>s' s''. flash_write sim_env (replicate 1000 7) 1000 0x101 sim_state = Some (FLASH_SUCCESS, s')
    \<and> flash_read sim_env 1000 0x101 s' = Some (FLASH_SUCCESS, replicate 1000 7, s'')"
  by (rule flash_write_read_back [OF sim_nor_chip sim_ready]) simp_all

section \<open>Erasing\<close>

lemma flash_ctrl_ok:
  assumes chip: "nor_chip locked (env_chip E)" and ready: "flash_ready cfg s"
    and sw: "\<And>t. quiet E cfg (s\<lparr>peri_busy := peri_busy s + 1\<rparr>) t \<Longrightarrow>
      \<exists>u. flash_ctrl_switch E cmd parm t = Some (r, parm', u) \<and> flash_ready cfg u \<and> P u"
    and P: "\<And>u v. P u \<Longrightarrow> quiet E cfg u v \<Longrightarrow> P (v\<lparr>peri_busy := peri_busy v - 1\<rparr>)"
  shows "\<exists>s'. flash_ctrl E cmd parm s = Some (r, parm', s') \<and> flash_ready cfg s' \<and> P s'"
proof -
  let ?s = "s\<lparr>peri_busy := peri_busy s + 1\<rparr>"
  from line_mode_quiet(1) [OF chip peri_ready [OF ready]] obtain t where
    t: "line_mode_enter E ?s = Some t" "quiet E cfg ?s t" by blast
  obtain u where u: "flash_ctrl_switch E cmd parm t = Some (r, parm', u)" "flash_ready cfg u" "P u"
    using sw [OF t(2)] by blast
  from line_mode_quiet(2) [OF chip u(2)] obtain v where v: "line_mode_leave E u = Some v" "quiet E cfg u v" by blast
  have "flash_ready cfg (v\<lparr>peri_busy := peri_busy v - 1\<rparr>)" using v(2) by (auto simp: quiet_def intro: peri_ready)
  then show ?thesis
    using t(1) u(1) v P [OF u(3) v(2)] by (simp add: flash_ctrl_def Let_def)
qed

definition erase_mem :: "(nat \<Rightarrow> bool) \<Rightarrow> (nat \<Rightarrow> byte) \<Rightarrow> nat \<Rightarrow> nat \<Rightarrow> byte" where
  "erase_mem lk m a i = (if a \<le> i \<and> i < a + 4096 \<and> \<not> lk i then 0xFF else m i)"

lemma sector_addr: "unat (address AND (0xFFF000 :: u32)) = unat address mod 2 ^ 24 - unat address mod 4096"
proof -
  have m: "(0xFFF000 :: u32) = mask 24 AND NOT (mask 12)" by (simp add: mask_eq_exp_minus_1)
  have "address AND 0xFFF000 = take_bit 24 address AND NOT (mask 12)"
    unfolding m take_bit_eq_mask by (simp add: and.assoc)
  also have "\<dots> = take_bit 24 address - take_bit 12 (take_bit 24 address)"
    using and_not_add_and [of "take_bit 24 address" "mask 12"] by (simp add: take_bit_eq_mask eq_diff_eq)
  finally have "address AND 0xFFF000 = take_bit 24 address - take_bit 12 address" by simp
  moreover have "unat (take_bit 24 address) = unat address mod 2 ^ 24" "unat (take_bit 12 address) = unat address mod 4096"
    by (simp_all add: unsigned_take_bit_eq take_bit_eq_mod unat_mod)
  moreover have "unat address mod 2 ^ 24 mod 4096 = unat address mod 4096" by (simp add: mod_mod_cancel)
  then have "unat address mod 4096 \<le> unat address mod 2 ^ 24" by (metis mod_less_eq_dividend)
  ultimately show ?thesis by (simp add: unat_sub_no_wrap)
qed

lemma flash_erase_sector_ok:
  assumes chip: "nor_chip locked (env_chip E)" and ready: "flash_ready cfg s"
    and rng: "unat address < unat (flash_size cfg)" "unat (flash_size cfg) \<le> 2 ^ 24"
  shows "\<exists>s'. flash_erase_sector E address s = Some s' \<and> flash_ready cfg s' \<and> fl_sr E s' = fl_sr E s
    \<and> flash_wr_sr_bypass s' = flash_wr_sr_bypass s
    \<and> fl_mem E s' = erase_mem (locked (fl_sr E s)) (fl_mem E s) (unat address - unat address mod 4096)"
proof -
  define a where "a = address AND 0xFFF000"
  define v where "v = a OR op_word FLASH_OPCODE_SE OR OP_SW OR (reg_operate s AND WP_VALUE)"
  have ua: "unat a = unat address - unat address mod 4096" using rng sector_addr [of address] by (simp add: a_def)
  note R = ready [unfolded flash_ready_def]
  have l: "unat a < 2 ^ 24" using ua rng by simp
  define s1 where "s1 = (op_done v s)\<lparr>chip_st := ch_erase (env_chip E) (unat a) (chip_st s)\<rparr>"
  have "wait_busy (write_operate E v s) = Some (exec_op E (opcode FLASH_OPCODE_SE) (unat a) (op_done v s))"
    unfolding v_def by (rule write_cmd [OF l and_WP])
  also have "\<dots> = Some s1" by (simp add: exec_op_def op_done_def Let_def s1_def)
  finally have w: "wait_busy (write_operate E v s) = Some s1" .
  have b: "reg_operate s1 AND BUSY_SW = 0" using op_done_busy [of v s] by (simp add: s1_def)
  have g: "\<not> a \<ge> flash_size cfg" using ua rng by (simp add: word_le_nat_alt)
  have "flash_erase_sector E address s = Some s1"
    using R g w b unfolding flash_erase_sector_def a_def [symmetric] Let_def by (simp add: wait_idle v_def)
  moreover have "unat a mod 4096 = 0" unfolding ua by (metis minus_mod_eq_mult_div mod_mult_self1_is_0)
  then have "fl_mem E s1 = erase_mem (locked (fl_sr E s)) (fl_mem E s) (unat a)"
    using chip by (intro ext) (simp add: s1_def nor_chip_def erase_mem_def)
  moreover have "fl_sr E s1 = fl_sr E s" using chip by (simp add: s1_def nor_chip_def)
  ultimately show ?thesis using R b by (simp add: ua flash_ready_def s1_def op_done_def)
qed

lemma erase_mem_sector:
  "erase_mem lk m (a - a mod 4096) i = (if i div 4096 = a div 4096 \<and> \<not> lk i then 0xFF else m i)"
proof -
  have "a - a mod 4096 = a div 4096 * 4096" by (simp add: minus_mod_eq_div_mult)
  then have "a - a mod 4096 \<le> i \<and> i < a - a mod 4096 + 4096 \<longleftrightarrow> i div 4096 = a div 4096"
    by (metis add.commute div_nat_eqI dividend_less_div_times less_mult_imp_div_less
        mult.commute mult_Suc_right nat_le_iff_add times_div_less_eq_dividend zero_less_numeral)
  then show ?thesis unfolding erase_mem_def by auto
qed

text \<open>
  (C25) The erase command, \<open>flash_ctrl\<close> with \<open>CMD_FLASH_ERASE_SECTOR\<close>, for an address inside the
  chip: every byte of the 4 KiB sector that holds the address and is not write-protected becomes
  \<open>0xFF\<close>, and every other byte of the flash is unchanged.
\<close>

theorem flash_ctrl_erases_sector:
  assumes "nor_chip locked (env_chip E)" and "flash_ready cfg s"
    and "unat address < unat (flash_size cfg)" and "unat (flash_size cfg) \<le> 2 ^ 24"
  shows "\<exists>s'. flash_ctrl E CMD_FLASH_ERASE_SECTOR (PARM_U32 address) s = Some (FLASH_SUCCESS, PARM_U32 address, s')
    \<and> flash_ready cfg s'
    \<and> (\<forall>i. fl_mem E s' i =
        (if i div 4096 = unat address div 4096 \<and> \<not> locked (fl_sr E s) i then 0xFF else fl_mem E s i))"
proof -
  let ?a = "unat address - unat address mod 4096"
  have "\<exists>s'. flash_ctrl E CMD_FLASH_ERASE_SECTOR (PARM_U32 address) s = Some (FLASH_SUCCESS, PARM_U32 address, s')
      \<and> flash_ready cfg s' \<and> fl_mem E s' = erase_mem (locked (fl_sr E s)) (fl_mem E s) ?a"
  proof (rule flash_ctrl_ok [OF assms(1,2)])
    fix t assume t: "quiet E cfg (s\<lparr>peri_busy := peri_busy s + 1\<rparr>) t"
    then have "flash_ready cfg t" "fl_mem E t = fl_mem E s" "fl_sr E t = fl_sr E s" by (auto simp: quiet_def)
    with flash_erase_sector_ok [OF assms(1) this(1) assms(3,4)]
    show "\<exists>u. flash_ctrl_switch E CMD_FLASH_ERASE_SECTOR (PARM_U32 address) t = Some (FLASH_SUCCESS, PARM_U32 address, u)
        \<and> flash_ready cfg u \<and> fl_mem E u = erase_mem (locked (fl_sr E s)) (fl_mem E s) ?a"
      by (auto simp: flash_ctrl_switch_def)
  qed (simp add: quiet_def)
  then show ?thesis by (auto simp: erase_mem_sector)
qed

theorem flash_ctrl_erases_sector_witness:
  "\<exists>s'. flash_ctrl sim_env CMD_FLASH_ERASE_SECTOR (PARM_U32 0x1234) (sim_state\<lparr>chip_st := (\<lambda>_. 0, 0)\<rparr>)
      = Some (FLASH_SUCCESS, PARM_U32 0x1234, s')
    \<and> fl_mem sim_env s' 0xFFF = 0 \<and> fl_mem sim_env s' 0x1000 = 0xFF \<and> fl_mem sim_env s' 0x1FFF = 0xFF
    \<and> fl_mem sim_env s' 0x2000 = 0"
proof -
  have "flash_ready sim_cfg (sim_state\<lparr>chip_st := (\<lambda>_. 0, 0)\<rparr>)" by (simp add: flash_ready_def sim_state_def)
  moreover have "fl_mem sim_env (sim_state\<lparr>chip_st := (\<lambda>_. 0, 0)\<rparr>) = (\<lambda>_. 0)" "fl_sr sim_env (sim_state\<lparr>chip_st := (\<lambda>_. 0, 0)\<rparr>) = 0"
    by (simp_all add: sim_env_def sim_chip_def)
  ultimately show ?thesis
    using flash_ctrl_erases_sector [OF sim_nor_chip, of sim_cfg "sim_state\<lparr>chip_st := (\<lambda>_. 0, 0)\<rparr>" "0x1234"] by auto
qed

section \<open>Block protection\<close>

text \<open>A status byte is read into the low byte of the register; the page-write bit stays.\<close>

lemma set_low_byte:
  fixes r :: u32 and b :: u16
  defines "v \<equiv> (r AND NOT 0xFF) OR (ucast b AND 0xFF)"
  shows "v AND PAGE_WRITE_EN = r AND PAGE_WRITE_EN" "v AND 0x00FF = ucast (b AND 0xFF)"
proof -
  have m: "(0xFF :: u32) = mask 8" "(0xFF :: u16) = mask 8" by (simp_all add: mask_eq_exp_minus_1)
  show "v AND PAGE_WRITE_EN = r AND PAGE_WRITE_EN"
    unfolding v_def m
    by (rule bit_word_eqI) (auto simp: bit_and_iff bit_or_iff bit_not_iff bit_mask_iff bit_PAGE_WRITE_EN bit_ucast_iff)
  show "v AND 0x00FF = ucast (b AND 0xFF)"
    unfolding v_def m
    by (rule bit_word_eqI) (auto simp: bit_and_iff bit_or_iff bit_not_iff bit_mask_iff bit_ucast_iff)
qed

lemma rdsr_ok:
  fixes E :: "'c flash_env"
  assumes "flash_ready cfg s" and op: "op = FLASH_OPCODE_RDSR \<or> op = FLASH_OPCODE_RDSR2"
  defines "b \<equiv> (if op = FLASH_OPCODE_RDSR then fl_sr E s else drop_bit 8 (fl_sr E s))"
  shows "\<exists>s'. wait_busy (write_operate E (op_word op OR OP_SW OR WP_VALUE) s) = Some s' \<and> quiet E cfg s s'
    \<and> reg_sr_crc s' AND 0x00FF = ucast (b AND 0xFF) \<and> reg_conf s' = reg_conf s"
proof -
  define v where "v = op_word op OR OP_SW OR WP_VALUE"
  define s1 where "s1 = (op_done v s)\<lparr>reg_sr_crc := (reg_sr_crc s AND NOT 0xFF) OR (ucast b AND 0xFF)\<rparr>"
  have "wait_busy (write_operate E v s) = Some (exec_op E (opcode op) 0 (op_done v s))"
    unfolding v_def by (rule write_cmd0) simp
  also have "\<dots> = Some s1"
    using op unfolding exec_op_def s1_def b_def by (elim disjE) (simp_all add: op_done_def Let_def)
  finally have w: "wait_busy (write_operate E v s) = Some s1" .
  have bz: "reg_operate s1 AND BUSY_SW = 0" using op_done_busy [of v s] by (simp add: s1_def)
  have "reg_sr_crc s1 AND PAGE_WRITE_EN = 0" "reg_sr_crc s1 AND 0x00FF = ucast (b AND 0xFF)"
    using set_low_byte [of "reg_sr_crc s" b] assms(1) by (simp_all add: s1_def flash_ready_def)
  moreover from this(1) have "quiet E cfg s s1"
    using assms(1) bz by (simp add: quiet_def flash_ready_def s1_def op_done_def)
  ultimately show ?thesis using w by (simp add: v_def s1_def op_done_def)
qed

lemma low_high_bytes: "(ucast (ucast ((w :: u16) AND 0xFF) :: u32) :: u16) = w AND 0xFF"
  "(ucast (ucast (w AND 0xFF) :: u32) :: u16) OR ucast (push_bit 8 (ucast (drop_bit 8 w AND 0xFF) :: u32)) = w"
proof -
  have m: "(0xFF :: u16) = mask 8" by (simp add: mask_eq_exp_minus_1)
  show "(ucast (ucast (w AND 0xFF) :: u32) :: u16) = w AND 0xFF"
    by (rule bit_word_eqI) (simp add: bit_ucast_iff)
  show "(ucast (ucast (w AND 0xFF) :: u32) :: u16) OR ucast (push_bit 8 (ucast (drop_bit 8 w AND 0xFF) :: u32)) = w"
    unfolding m
    by (rule bit_word_eqI) (auto simp: bit_or_iff bit_and_iff bit_ucast_iff bit_push_bit_iff bit_drop_bit_eq bit_mask_iff)
qed

lemma flash_read_sr_ok:
  assumes "flash_ready cfg s"
  shows "\<exists>s'. flash_read_sr E w s = Some (if w = 2 then fl_sr E s else fl_sr E s AND 0xFF, s') \<and> quiet E cfg s s'"
proof -
  obtain s1 where s1: "wait_busy (write_operate E (op_word FLASH_OPCODE_RDSR OR OP_SW OR WP_VALUE) s) = Some s1" "quiet E cfg s s1"
      "reg_sr_crc s1 AND 0x00FF = ucast (fl_sr E s AND 0xFF)"
    using rdsr_ok [OF assms, of FLASH_OPCODE_RDSR E] by auto
  have r1: "flash_ready cfg s1" and m1: "fl_sr E s1 = fl_sr E s" using s1(2) by (auto simp: quiet_def)
  obtain s2 where s2: "wait_busy (write_operate E (op_word FLASH_OPCODE_RDSR2 OR OP_SW OR WP_VALUE) s1) = Some s2" "quiet E cfg s1 s2"
      "reg_sr_crc s2 AND 0x00FF = ucast (drop_bit 8 (fl_sr E s) AND 0xFF)"
    using rdsr_ok [OF r1, of FLASH_OPCODE_RDSR2 E] m1 by auto
  have "wait_busy s = Some s" using assms by (simp add: wait_idle flash_ready_def)
  then show ?thesis
    using s1 s2 quiet_trans [OF s1(2) s2(2)] low_high_bytes [of "fl_sr E s"]
    by (simp add: flash_read_sr_def Let_def del: push_bit_and)
qed

lemma wrsr_data:
  "ucast (drop_bit 10 (reg_conf (set_wrsr_data (ucast (val :: u16)) s)) AND WRSR_DATA_MASK) = val"
proof -
  have m: "WRSR_DATA_MASK = mask 16" by (simp add: WRSR_DATA_MASK_def mask_eq_exp_minus_1)
  show ?thesis
    unfolding set_wrsr_data_def m
    by (rule bit_word_eqI) (auto simp: bit_and_iff bit_or_iff bit_not_iff bit_push_bit_iff bit_drop_bit_eq bit_mask_iff bit_ucast_iff)
qed

text \<open>
  A registered bypass, the function that \<open>flash_bypass.c\<close> provides on some chips: with the result 1 it has written the
  status register over the pins of the chip, with another result the driver writes it itself; it leaves the contents
  of the flash alone.
\<close>

definition bypass_ok :: "'c flash_env \<Rightarrow> (u32 \<Rightarrow> u32 \<Rightarrow> 'c \<Rightarrow> int \<times> 'c) option \<Rightarrow> bool" where
  "bypass_ok E b \<longleftrightarrow>
     (case b of None \<Rightarrow> True
      | Some cb \<Rightarrow> \<forall>v c. ch_read (env_chip E) (snd (cb 2 (ucast v) c)) = ch_read (env_chip E) c
          \<and> (fst (cb 2 (ucast v) c) = 1 \<longrightarrow> ch_sr (env_chip E) (snd (cb 2 (ucast v) c)) AND 0x407C = v AND 0x407C))"

lemma bypass_none [simp]: "bypass_ok E None"
  by (simp add: bypass_ok_def)

lemma flash_write_sr2_ok:
  assumes "nor_chip locked (env_chip E)" "sr_writable 0x407C (env_chip E)" "flash_ready cfg s" "bypass_ok E (flash_wr_sr_bypass s)"
  shows "\<exists>s'. flash_write_sr E 2 val vol s = Some s' \<and> flash_ready cfg s' \<and> fl_mem E s' = fl_mem E s
    \<and> fl_sr E s' AND 0x407C = val AND 0x407C \<and> flash_wr_sr_bypass s' = flash_wr_sr_bypass s"
proof -
  define ok where "ok \<longleftrightarrow> (case flash_wr_sr_bypass s of None \<Rightarrow> False | Some cb \<Rightarrow> fst (cb 2 (ucast val) (chip_st s)) = 1)"
  define s0 where "s0 = (case flash_wr_sr_bypass s of None \<Rightarrow> s | Some cb \<Rightarrow> s\<lparr>chip_st := snd (cb 2 (ucast val) (chip_st s))\<rparr>)"
  have S: "flash_ready cfg s0" "fl_mem E s0 = fl_mem E s" "flash_wr_sr_bypass s0 = flash_wr_sr_bypass s"
    "ok \<Longrightarrow> fl_sr E s0 AND 0x407C = val AND 0x407C"
    using assms(3,4) by (auto simp: s0_def ok_def bypass_ok_def flash_ready_def split: option.splits)
  show ?thesis
  proof (cases ok)
    case True
    then have "flash_write_sr E 2 val vol s = Some s0"
      by (auto simp: flash_write_sr_def ok_def s0_def split: option.splits prod.splits)
    then show ?thesis using S True by auto
  next
    case False
    define t where "t = (if env_soc E = SOC_BK7252N \<and> vol then s0\<lparr>reg_wrsr := push_bit 8 0x50 OR push_bit 17 1\<rparr> else s0)"
    define u where "u = set_wrsr_data (ucast val) t"
    define v where "v = op_word FLASH_OPCODE_WRSR2 OR OP_SW OR WP_VALUE"
    define s1 where "s1 = (op_done v u)\<lparr>chip_st := ch_wrsr2 (env_chip E) val (chip_st s0)\<rparr>"
    note R = S(1) [unfolded flash_ready_def]
    have ut: "reg_operate t = reg_operate s0" "reg_operate u = reg_operate s0" "chip_st u = chip_st s0"
      by (auto simp: t_def u_def set_wrsr_data_def)
    have "wait_busy (write_operate E v u) = Some (exec_op E (opcode FLASH_OPCODE_WRSR2) 0 (op_done v u))"
      unfolding v_def by (rule write_cmd0) simp
    also have "\<dots> = Some s1"
      using wrsr_data [of val t] ut by (simp add: exec_op_def op_done_def Let_def s1_def u_def)
    finally have w: "wait_busy (write_operate E v u) = Some s1" .
    have b: "reg_operate s1 AND BUSY_SW = 0" using op_done_busy [of v u] by (simp add: s1_def)
    have c: "flash_write_sr E 2 val vol s =
        Some (if env_soc E = SOC_BK7252N \<and> vol
          then s1\<lparr>reg_wrsr := reg_wrsr s1 AND NOT (push_bit 8 0xFF OR push_bit 17 1)\<rparr> else s1)"
      using False R w b ut unfolding flash_write_sr_def v_def [symmetric]
      by (auto simp: Let_def wait_idle t_def u_def s0_def ok_def split: option.splits prod.splits)
    have "flash_ready cfg s1" "fl_mem E s1 = fl_mem E s" "flash_wr_sr_bypass s1 = flash_wr_sr_bypass s"
      "fl_sr E s1 AND 0x407C = val AND 0x407C"
      using R b assms(1,2) S(2,3)
      by (auto simp: s1_def u_def t_def flash_ready_def nor_chip_def sr_writable_def op_done_def set_wrsr_data_def)
    then show ?thesis unfolding c by (simp add: flash_ready_def)
  qed
qed

text \<open>The protection setting that a status register value encodes, as \<open>get_flash_protect\<close> computes it.\<close>

definition protect_field :: "flash_config_t \<Rightarrow> u16 \<Rightarrow> u16" where
  "protect_field cfg sr = push_bit 8 (drop_bit (unat (cmp_post cfg)) sr AND 0x01)
     OR (drop_bit (unat (protect_post cfg)) sr AND ucast (protect_mask cfg))"

definition two_byte_cfg :: "flash_config_t \<Rightarrow> bool" where
  "two_byte_cfg cfg \<longleftrightarrow> sr_size cfg = 2 \<and> protect_post cfg = 2 \<and> cmp_post cfg = 14 \<and> protect_mask cfg = 0x1F
     \<and> protect_all cfg AND NOT 0x11F = 0 \<and> protect_none cfg AND NOT 0x11F = 0
     \<and> protect_half cfg AND NOT 0x11F = 0 \<and> unprotect_last_block cfg AND NOT 0x11F = 0"

lemma flash_config_two_byte:
  "cfg \<in> set flash_config \<Longrightarrow> sr_size cfg = 2 \<Longrightarrow> cfg_flash_id cfg \<noteq> 0 \<Longrightarrow> two_byte_cfg cfg"
  by (auto simp: flash_config_def mk_config_def two_byte_cfg_def)

lemma bit_field_masks:
  "bit (0x1F :: u16) n \<longleftrightarrow> n < 5" "bit (0x1F :: u32) n \<longleftrightarrow> n < 5" "bit (0xFF :: u16) n \<longleftrightarrow> n < 8"
  "bit (0x11F :: u16) n \<longleftrightarrow> n < 5 \<or> n = 8" "bit (0x407C :: u16) n \<longleftrightarrow> 2 \<le> n \<and> n < 7 \<or> n = 14"
proof -
  have m: "(0x1F :: u16) = mask 5" "(0x1F :: u32) = mask 5" "(0xFF :: u16) = mask 8"
    "(0x11F :: u16) = mask 5 OR push_bit 8 1" "(0x407C :: u16) = push_bit 2 (mask 5) OR push_bit 14 1"
    by (simp_all add: mask_eq_exp_minus_1)
  have 1: "bit (push_bit k (1 :: u16)) n \<longleftrightarrow> n = k" if "k < 16" for k using that by (auto simp: bit_exp_iff)
  show "bit (0x1F :: u16) n \<longleftrightarrow> n < 5" "bit (0x1F :: u32) n \<longleftrightarrow> n < 5" "bit (0xFF :: u16) n \<longleftrightarrow> n < 8"
    unfolding m bit_mask_iff by auto
  show "bit (0x11F :: u16) n \<longleftrightarrow> n < 5 \<or> n = 8" unfolding m bit_or_iff bit_mask_iff using 1 [of 8] by auto
  show "bit (0x407C :: u16) n \<longleftrightarrow> 2 \<le> n \<and> n < 7 \<or> n = 14"
    unfolding m bit_or_iff bit_push_bit_iff [of 2] bit_mask_iff using 1 [of 14] by auto
qed

lemma setting_bits:
  assumes "two_byte_cfg cfg" "bit (protect_setting cfg t) n"
  shows "n < 5 \<or> n = 8"
proof -
  have "protect_setting cfg t AND NOT 0x11F = 0" using assms(1) by (cases t) (simp_all add: two_byte_cfg_def)
  then have "\<not> bit (protect_setting cfg t AND NOT 0x11F) n" by (simp only: bit_0_eq bot_apply) simp
  then show ?thesis
    using assms(2) bit_imp_le_length [of "protect_setting cfg t" n]
    unfolding bit_and_iff bit_not_iff bit_field_masks by auto
qed

lemma protect_field_bits:
  assumes "two_byte_cfg cfg"
  shows "bit (protect_field cfg sr) n \<longleftrightarrow> n < 5 \<and> bit sr (n + 2) \<or> n = 8 \<and> bit sr 14"
proof -
  have p: "unat (cmp_post cfg) = 14" "unat (protect_post cfg) = 2" "(ucast (protect_mask cfg) :: u16) = 0x1F"
    using assms by (simp_all add: two_byte_cfg_def)
  show ?thesis
    using bit_imp_le_length [of sr "n + 2"]
    unfolding protect_field_def p numeral_One bit_or_iff bit_and_iff bit_push_bit_iff bit_drop_bit_eq bit_field_masks bit_1_iff
      comp_apply
    by (auto simp: add.commute)
qed

lemma protect_field_masked:
  assumes "two_byte_cfg cfg" "sr AND 0x407C = sr' AND 0x407C"
  shows "protect_field cfg sr = protect_field cfg sr'"
proof (rule bit_word_eqI)
  fix n
  have "bit (sr AND 0x407C) k = bit (sr' AND 0x407C) k" for k using assms(2) by simp
  from this [of "n + 2"] this [of 14] show "bit (protect_field cfg sr) n = bit (protect_field cfg sr') n"
    unfolding protect_field_bits [OF assms(1)] bit_and_iff bit_field_masks by auto
qed

text \<open>The value \<open>set_flash_protect\<close> writes encodes the setting, and so does a value it leaves.\<close>

lemma set_value_field:
  fixes sr :: u16 and t :: PROTECT_TYPE
  assumes "two_byte_cfg cfg"
  defines "param \<equiv> ucast (protect_setting cfg t AND 0xff) :: u32"
    and "cmp \<equiv> ucast (drop_bit 8 (protect_setting cfg t) AND 0xff) :: u32"
    and "v \<equiv> ucast sr :: u32"
  shows "protect_field cfg (ucast (((((v AND NOT (push_bit 2 0x1F)) OR push_bit 2 param) AND NOT (push_bit 14 1))
      OR push_bit 14 (cmp AND 0x01)))) = protect_setting cfg t" (is "protect_field cfg (ucast ?w) = ?P")
    and "push_bit 2 param = v AND push_bit 2 0x1F \<Longrightarrow> push_bit 14 cmp = v AND push_bit 14 1 \<Longrightarrow>
      protect_field cfg sr = protect_setting cfg t"
proof -
  note B = setting_bits [OF assms(1), of t]
  have pb: "bit param n \<longleftrightarrow> n < 8 \<and> bit ?P n" for n
    unfolding param_def bit_ucast_iff bit_and_iff bit_field_masks by auto
  have cb: "bit cmp n \<longleftrightarrow> n = 0 \<and> bit ?P 8" for n
    using B [of "8 + n"]
    unfolding cmp_def bit_ucast_iff bit_and_iff bit_drop_bit_eq bit_field_masks comp_apply by (cases "n = 0") auto
  have b1: "bit (push_bit 14 (1 :: u32)) n \<longleftrightarrow> n = 14" for n by (rule bit_push_1) simp
  have b2: "bit (push_bit 2 (0x1F :: u32)) n \<longleftrightarrow> 2 \<le> n \<and> n < 7" for n
    unfolding bit_push_bit_iff bit_field_masks by auto
  have w: "bit ?w n \<longleftrightarrow> (if n = 14 then bit ?P 8 else if 2 \<le> n \<and> n < 7 then bit ?P (n - 2) else bit v n)" if "n < 16" for n
    using that B [of "n - 2"]
    unfolding numeral_One bit_or_iff bit_and_iff bit_not_iff b1 b2 bit_push_bit_iff [of _ param] bit_push_bit_iff [of _ "cmp AND 1"]
      pb cb bit_1_iff
    by auto
  show "protect_field cfg (ucast ?w) = ?P"
  proof (rule bit_word_eqI)
    fix n
    show "bit (protect_field cfg (ucast ?w)) n = bit ?P n"
      using B [of n] w [of "n + 2"] w [of 14] unfolding protect_field_bits [OF assms(1)] bit_ucast_iff by auto
  qed
  assume e: "push_bit 2 param = v AND push_bit 2 0x1F" "push_bit 14 cmp = v AND push_bit 14 1"
  have vs: "bit v n \<longleftrightarrow> n < 16 \<and> bit sr n" for n
    using bit_imp_le_length [of sr n] by (auto simp: v_def bit_ucast_iff)
  show "protect_field cfg sr = ?P"
  proof (rule bit_word_eqI)
    fix n
    have "bit (push_bit 2 param) (n + 2) = bit (v AND push_bit 2 0x1F) (n + 2)"
      "bit (push_bit 14 cmp) 14 = bit (v AND push_bit 14 1) 14" using e by simp_all
    then show "bit (protect_field cfg sr) n = bit ?P n" if "n < LENGTH(16)"
      using B [of n] that
      unfolding protect_field_bits [OF assms(1)] bit_and_iff b1 b2 vs bit_push_bit_iff [of _ param] bit_push_bit_iff [of _ cmp] pb cb
      by auto
  qed
qed

lemma set_flash_protect_ok:
  assumes chip: "nor_chip locked (env_chip E)" and sw: "sr_writable 0x407C (env_chip E)" and ready: "flash_ready cfg s"
    and byp: "bypass_ok E (flash_wr_sr_bypass s)" and cfg: "two_byte_cfg cfg"
  shows "\<exists>s'. set_flash_protect E t vol s = Some s' \<and> flash_ready cfg s' \<and> fl_mem E s' = fl_mem E s
    \<and> bypass_ok E (flash_wr_sr_bypass s') \<and> protect_field cfg (fl_sr E s') = protect_setting cfg t"
proof -
  have c: "sr_size cfg = 2" "unat (protect_post cfg) = 2" "unat (cmp_post cfg) = 14" "(ucast (protect_mask cfg) :: u32) = 0x1F"
    using cfg by (simp_all add: two_byte_cfg_def)
  obtain s1 where s1: "flash_read_sr E 2 s = Some (fl_sr E s, s1)" "quiet E cfg s s1"
    using flash_read_sr_ok [OF ready, of E 2] by auto
  have r1: "flash_ready cfg s1" "bypass_ok E (flash_wr_sr_bypass s1)" "fl_sr E s1 = fl_sr E s" "fl_mem E s1 = fl_mem E s"
    using s1(2) byp by (auto simp: quiet_def)
  define param where "param = (ucast (protect_setting cfg t AND 0xff) :: u32)"
  define cmp where "cmp = (ucast (drop_bit 8 (protect_setting cfg t) AND 0xff) :: u32)"
  define v where "v = (ucast (fl_sr E s) :: u32)"
  define w where "w = ((((v AND NOT (push_bit 2 0x1F)) OR push_bit 2 param) AND NOT (push_bit 14 1)) OR push_bit 14 (cmp AND 0x01))"
  note F = set_value_field [OF cfg, where t = t and sr = "fl_sr E s", folded param_def cmp_def v_def, folded w_def]
  have d: "set_flash_protect E t vol s =
      (if push_bit 2 param \<noteq> v AND push_bit 2 0x1F \<or> push_bit 14 cmp \<noteq> v AND push_bit 14 1
       then flash_write_sr E 2 (ucast w) vol s1 else Some s1)"
    unfolding set_flash_protect_def param_def cmp_def v_def w_def
    using ready s1(1) by (simp only: c Let_def flash_ready_def bind.bind_lunit prod.case)
  show ?thesis
  proof (cases "push_bit 2 param \<noteq> v AND push_bit 2 0x1F \<or> push_bit 14 cmp \<noteq> v AND push_bit 14 1")
    case True
    obtain s2 where s2: "flash_write_sr E 2 (ucast w) vol s1 = Some s2" "flash_ready cfg s2" "fl_mem E s2 = fl_mem E s1"
        "fl_sr E s2 AND 0x407C = ucast w AND 0x407C" "bypass_ok E (flash_wr_sr_bypass s2)"
      using flash_write_sr2_ok [OF chip sw r1(1,2), of "ucast w" vol] r1(2) by auto
    have "protect_field cfg (fl_sr E s2) = protect_field cfg (ucast w)" by (rule protect_field_masked [OF cfg s2(4)])
    then show ?thesis using d True s2 r1(4) F(1) by simp
  next
    case False
    then show ?thesis using d r1 F(2) by simp
  qed
qed

text \<open>
  (C26) Round trip of the block protection, for every supported chip with a two-byte status
  register, with no bypass for the status register or one that works as \<open>flash_bypass.c\<close> means it to: after \<open>set_flash_protect\<close> with a protection type, \<open>get_flash_protect\<close> reports a type
  with the same setting of the chip, and the same type when the chip's four settings differ. The
  contents of the flash do not change.
\<close>

theorem flash_protect_roundtrip:
  assumes "cfg \<in> set flash_config" and "sr_size cfg = 2" and "cfg_flash_id cfg \<noteq> 0"
    and "nor_chip locked (env_chip E)" and "sr_writable 0x407C (env_chip E)"
    and "flash_ready cfg s" and "bypass_ok E (flash_wr_sr_bypass s)" and "t \<noteq> PROTECT_OTHER"
  shows "\<exists>s' t' s''. set_flash_protect E t vol s = Some s' \<and> get_flash_protect E s' = Some (t', s'')
    \<and> protect_setting cfg t' = protect_setting cfg t \<and> t' \<noteq> PROTECT_OTHER
    \<and> (distinct [protect_all cfg, protect_none cfg, protect_half cfg, unprotect_last_block cfg] \<longrightarrow> t' = t)
    \<and> fl_mem E s'' = fl_mem E s"
proof -
  have cfg: "two_byte_cfg cfg" using flash_config_two_byte [OF assms(1-3)] .
  obtain s' where s': "set_flash_protect E t vol s = Some s'" "flash_ready cfg s'" "fl_mem E s' = fl_mem E s"
      "protect_field cfg (fl_sr E s') = protect_setting cfg t"
    using set_flash_protect_ok [OF assms(4-7) cfg] by blast
  obtain s'' where s'': "flash_read_sr E (sr_size cfg) s' = Some (fl_sr E s', s'')" "quiet E cfg s' s''"
    using flash_read_sr_ok [OF s'(2), of E "sr_size cfg"] assms(2) by auto
  let ?P = "protect_setting cfg t"
  let ?t' = "if ?P = protect_all cfg then FLASH_PROTECT_ALL else if ?P = protect_none cfg then FLASH_PROTECT_NONE
    else if ?P = protect_half cfg then FLASH_PROTECT_HALF
    else if ?P = unprotect_last_block cfg then FLASH_UNPROTECT_LAST_BLOCK else PROTECT_OTHER"
  have "get_flash_protect E s' = Some (?t', s'')"
    using s'(2) s''(1) s'(4) unfolding get_flash_protect_def protect_field_def flash_ready_def by (simp add: Let_def)
  moreover have "protect_setting cfg ?t' = ?P \<and> ?t' \<noteq> PROTECT_OTHER
      \<and> (distinct [protect_all cfg, protect_none cfg, protect_half cfg, unprotect_last_block cfg] \<longrightarrow> ?t' = t)"
    using assms(8) by (cases t) auto
  ultimately show ?thesis using s' s''(2) by (auto simp: quiet_def simp del: protect_setting.simps)
qed

lemma sim_sr_writable: "sr_writable 0x407C (env_chip sim_env)"
proof -
  have "((v AND 0xFF) OR (x AND 0xFF00)) AND 0x407C AND 0xFF = v AND 0x407C AND (0xFF :: u16)" for v x
  proof (rule bit_word_eqI)
    fix n
    have m: "(0xFF00 :: u16) = push_bit 8 (mask 8)" "(0xFF :: u16) = mask 8" by (simp_all add: mask_eq_exp_minus_1)
    show "bit (((v AND 0xFF) OR (x AND 0xFF00)) AND 0x407C AND 0xFF) n = bit (v AND 0x407C AND 0xFF) n"
      unfolding m bit_and_iff bit_or_iff bit_push_bit_iff bit_mask_iff by auto
  qed
  then show ?thesis by (simp add: sr_writable_def sim_env_def sim_chip_def)
qed

theorem flash_protect_roundtrip_witness:
  "\<exists>s' t' s''. set_flash_protect sim_env FLASH_PROTECT_HALF True sim_state = Some s'
    \<and> get_flash_protect sim_env s' = Some (t', s'') \<and> t' = FLASH_PROTECT_HALF"
proof -
  have "sim_cfg \<in> set flash_config" by (simp add: sim_cfg_def flash_config_def)
  moreover have "cfg_flash_id sim_cfg \<noteq> 0" "bypass_ok sim_env (flash_wr_sr_bypass sim_state)"
    "distinct [protect_all sim_cfg, protect_none sim_cfg, protect_half sim_cfg, unprotect_last_block sim_cfg]"
    by (simp_all add: sim_cfg_def mk_config_def sim_state_def)
  ultimately show ?thesis
    using flash_protect_roundtrip [OF _ _ _ sim_nor_chip sim_sr_writable sim_ready, of FLASH_PROTECT_HALF True] by auto
qed

section \<open>Where the driver fails\<close>

text \<open>
  \<open>flash_init\<close> at boot: \<open>flash_get_id\<close> asks for the line mode of the configuration before
  \<open>flash_get_current_flash_config\<close> has chosen one, so that the first initialisation reads through
  a \<open>NULL\<close> pointer.
\<close>

theorem flash_init_null_config:
  "flash_current_config s = None \<Longrightarrow> flash_init E s = None"
  by (simp add: flash_init_def flash_get_id_def flash_get_line_mode_def wait_ends op_done_def)

theorem flash_init_null_config_witness:
  "flash_init sim_env (sim_state\<lparr>flash_current_config := None\<rparr>) = None"
  by (rule flash_init_null_config) simp

text \<open>
  \<open>flash_write_data\<close> checks the 32-byte-aligned address instead of the address: for a write of
  up to 32 bytes that starts in the last block of the chip behind its first byte, the check passes
  and bytes behind the end of the chip are programmed.
\<close>

theorem flash_write_past_end:
  assumes "nor_chip (\<lambda>_ _. False) (env_chip E)" and "flash_ready cfg s"
    and "unat (flash_size cfg) < 2 ^ 24" and "unat (flash_size cfg) mod 32 = 0" and "32 \<le> unat (flash_size cfg)"
    and "address = flash_size cfg - 1" and "length buf = 32"
  shows "\<exists>s'. flash_write_data E buf address 32 s = Some s'
    \<and> fl_mem E s' (unat (flash_size cfg)) = fl_mem E s (unat (flash_size cfg)) AND buf ! 1"
proof -
  let ?z = "unat (flash_size cfg)"
  obtain q where q: "?z = 32 * q" using assms(4) by (auto simp: mod_eq_0_iff_dvd elim: dvdE)
  have a: "unat address = ?z - 1" using assms(5,6) by (simp add: unat_sub_no_wrap)
  have "?z - 1 = 32 * (q - 1) + 31" using q assms(5) by (cases q) auto
  then have al: "unat address mod 32 = 31" "unat address - unat address mod 32 + 32 = ?z"
    using a q assms(5) by auto
  have l: "unat address + 32 \<le> 2 ^ 24"
    using a q assms(3) by simp
  have "\<exists>s'. flash_write_data E buf address 32 s = Some s' \<and> wr_frame s s' \<and> fl_sr E s' = fl_sr E s
      \<and> fl_mem E s' = prog_mem (\<lambda>_. False) (fl_mem E s) (unat address) (take (unat (32 :: u32)) buf)"
    by (rule flash_write_data_ok [OF assms(1,2)]) (use al l assms(5,7) in auto)
  then show ?thesis using a assms(5,7) by (auto simp: prog_mem_def)
qed

theorem flash_write_past_end_witness:
  "\<exists>s'. flash_write_data (sim_env\<lparr>env_chip := sim_chip\<lparr>ch_program := (\<lambda>a bs c. (\<lambda>i. if a \<le> i \<and> i < a + length bs then fst c i AND bs ! (i - a) else fst c i, snd c)),
      ch_erase := (\<lambda>a c. (\<lambda>i. if a \<le> i \<and> i < a + 4096 then 0xFF else fst c i, snd c))\<rparr>\<rparr>) (replicate 32 0) 0x1FFFFF 32 sim_state = Some s'
    \<and> fst (chip_st s') 0x200000 = 0"
proof -
  let ?ch = "sim_chip\<lparr>ch_program := (\<lambda>a bs c. (\<lambda>i. if a \<le> i \<and> i < a + length bs then fst c i AND bs ! (i - a) else fst c i, snd c)),
      ch_erase := (\<lambda>a c. (\<lambda>i. if a \<le> i \<and> i < a + 4096 then 0xFF else fst c i, snd c))\<rparr>"
  let ?E = "sim_env\<lparr>env_chip := ?ch\<rparr>"
  have "nor_chip (\<lambda>_ _. False) (env_chip ?E)" by (auto simp: nor_chip_def sim_chip_def)
  moreover have "ch_read ?ch = fst" by (simp add: sim_chip_def)
  ultimately show ?thesis
    using flash_write_past_end [of ?E sim_cfg sim_state "0x1FFFFF" "replicate 32 0", OF _ sim_ready] by simp
qed

text \<open>
  \<open>flash_read\<close> puts the address into the command word without masking it: a read of 32 bytes
  at address \<open>0x02000000\<close> turns the read opcode 5 into 7 and sends the command that writes the
  status register of the chip, with the data the configuration register happens to hold; it
  reports success with whatever words the read FIFO still held.
\<close>

theorem flash_read_high_address_writes_sr:
  assumes "flash_ready cfg s" and "length (fifo_out s) = 8"
  shows "\<exists>s'. flash_read E 32 0x02000000 s = Some (FLASH_SUCCESS, bytes_of_words (fifo_out s), s')
    \<and> chip_st s' = ch_wrsr2 (env_chip E) (ucast (drop_bit 10 (reg_conf s) AND WRSR_DATA_MASK)) (chip_st s)"
proof -
  define s0 where "s0 = s\<lparr>peri_busy := peri_busy s + 1\<rparr>"
  define v where "v = op_word FLASH_OPCODE_WRSR2 OR OP_SW OR (reg_operate s0 AND WP_VALUE)"
  define s1 where "s1 = (op_done v s0)\<lparr>chip_st := ch_wrsr2 (env_chip E) (ucast (drop_bit 10 (reg_conf s) AND WRSR_DATA_MASK)) (chip_st s)\<rparr>"
  have "(0x02000000 :: u32) OR op_word FLASH_OPCODE_READ = op_word FLASH_OPCODE_WRSR2" by (simp add: op_word_def)
  then have "0x02000000 OR op_word FLASH_OPCODE_READ OR OP_SW OR (reg_operate s0 AND WP_VALUE) = v"
    unfolding v_def by (metis or.assoc)
  moreover have "wait_busy (write_operate E v s0) = Some s1"
    using write_cmd0 [OF and_WP, of E FLASH_OPCODE_WRSR2 "reg_operate s0" s0]
    by (simp add: exec_op_def op_done_def Let_def s1_def v_def s0_def)
  moreover have b: "reg_operate s1 AND BUSY_SW = 0" using op_done_busy [of v s0] by (simp add: s1_def)
  moreover have r: "read_words 8 s1 = Some (fifo_out s, s1\<lparr>fifo_out := []\<rparr>)"
    using read_words_fifo [of s1 8] assms(2) by (simp add: s1_def op_done_def s0_def)
  ultimately have rb: "read_block E FLASH_OPCODE_READ 0x02000000 s0 = Some (bytes_of_words (fifo_out s), s1\<lparr>fifo_out := []\<rparr>)"
    unfolding read_block_def by (simp add: wait_idle)
  have l: "length (bytes_of_words (fifo_out s)) = 32" using assms(2) by (simp add: bytes_of_words_def length_concat sum_list_triv comp_def)
  have co: "copy_out (bytes_of_words (fifo_out s)) 0 0x02000000 32 [] = (bytes_of_words (fifo_out s), 0x02000020, 0)"
    using copy_out_spec [of 0 32 "bytes_of_words (fifo_out s)" "0x02000000" "[]"] l by simp
  have "flash_read_data E 0x02000000 32 s0 = Some (bytes_of_words (fifo_out s), s1\<lparr>fifo_out := []\<rparr>)"
    using assms(1) rb co
    by (simp add: flash_read_data_def wait_idle flash_ready_def s0_def) (simp add: flash_read_loop.simps)
  then show ?thesis by (simp add: flash_read_def s0_def [symmetric] s1_def Let_def)
qed

theorem flash_read_high_address_writes_sr_witness:
  "\<exists>s' bs. flash_read sim_env 32 0x02000000 (sim_state\<lparr>fifo_out := replicate 8 0, reg_conf := push_bit 10 0x7C\<rparr>) = Some (FLASH_SUCCESS, bs, s')
    \<and> fl_sr sim_env s' = 0x7C"
proof -
  let ?s = "sim_state\<lparr>fifo_out := replicate 8 0, reg_conf := push_bit 10 0x7C\<rparr>"
  have "flash_ready sim_cfg ?s" by (simp add: flash_ready_def sim_state_def)
  then show ?thesis
    using flash_read_high_address_writes_sr [of sim_cfg ?s sim_env]
    by (auto simp: sim_env_def sim_chip_def WRSR_DATA_MASK_def)
qed

end
