(* ===== verification/Flash_Partition.thy ===== *)
theory Flash_Partition
  imports Flash_Driver_Props
begin

text \<open>
  The partition layer, \<open>func/user_driver/BkDriverFlash.c\<close>: the partition tables, access by
  partition and by absolute address, which lifts the write protection around every change, and
  the choice of the table at start-up.

  A call that never returns (an \<open>ASSERT\<close> that fails, a lock that is held) or that dereferences
  \<open>NULL\<close> is \<open>None\<close>. Messages are not modelled.
\<close>

section \<open>Partition tables\<close>

datatype bk_flash_t = BK_FLASH_EMBEDDED | BK_FLASH_SPI | BK_FLASH_MAX | BK_FLASH_NONE

datatype bk_partition_t = BK_PARTITION_BOOTLOADER | BK_PARTITION_APPLICATION | BK_PARTITION_OTA
  | BK_PARTITION_RF_FIRMWARE | BK_PARTITION_NET_PARAM | BK_PARTITION_USR_CONFIG
  | BK_PARTITION_MATTER_FLASH | BK_PARTITION_MATTER_FACTORY_FLASH
  | BK_PARTITION_BLE_SVR_CONFIG | BK_PARTITION_BLE_BONDING_FLASH | BK_PARTITION_MAX

record bk_logic_partition_t =
  partition_owner :: bk_flash_t
  partition_description :: "string option"
  partition_start_addr :: u32
  partition_length :: u32
  partition_options :: u32

datatype FLASH_SELECTION_TYPE = SELECTION_DYNAMIC | SELECTION_1M | SELECTION_2M | SELECTION_4M | SELECTION_8M

text \<open>
  The build configuration: \<open>CFG_SOC_NAME\<close>, \<open>CFG_SUPPORT_MATTER\<close>, \<open>AT_SERVICE_CFG\<close> and
  \<open>CFG_FLASH_SELECTION_TYPE\<close>.
\<close>

record part_conf =
  cfg_soc_name :: soc
  cfg_support_matter :: bool
  at_service_cfg :: bool
  cfg_flash_selection :: FLASH_SELECTION_TYPE

type_synonym partition_table = "bk_partition_t \<Rightarrow> bk_logic_partition_t"

definition PAR_OPT_READ_EN :: u32 where "PAR_OPT_READ_EN = push_bit 0 1"
definition PAR_OPT_WRITE_DIS :: u32 where "PAR_OPT_WRITE_DIS = push_bit 1 0"

text \<open>An entry of an initialiser, and the value of the entries that it leaves out.\<close>

definition partition :: "string \<Rightarrow> u32 \<Rightarrow> u32 \<Rightarrow> bk_logic_partition_t" where
  "partition descr start len = \<lparr>partition_owner = BK_FLASH_EMBEDDED, partition_description = Some descr,
     partition_start_addr = start, partition_length = len, partition_options = PAR_OPT_READ_EN OR PAR_OPT_WRITE_DIS\<rparr>"

definition no_partition :: bk_logic_partition_t where
  "no_partition = \<lparr>partition_owner = BK_FLASH_EMBEDDED, partition_description = None,
     partition_start_addr = 0, partition_length = 0, partition_options = 0\<rparr>"

fun bk7231_partitions_1M :: "part_conf \<Rightarrow> partition_table" where
  "bk7231_partitions_1M C BK_PARTITION_BOOTLOADER = partition ''Bootloader'' 0x00000000 0x0F000"
| "bk7231_partitions_1M C BK_PARTITION_APPLICATION = partition ''Application'' 0x11000 0xC2000"
| "bk7231_partitions_1M C BK_PARTITION_OTA = partition ''ota'' 0xD3000 0x1C000"
| "bk7231_partitions_1M C BK_PARTITION_RF_FIRMWARE = partition ''RF Firmware'' 0xEF000 0x1000"
| "bk7231_partitions_1M C BK_PARTITION_NET_PARAM = partition ''NET info'' 0xF0000 0x1000"
| "bk7231_partitions_1M C _ = no_partition"

fun bk7231_partitions_2M :: "part_conf \<Rightarrow> partition_table" where
  "bk7231_partitions_2M C BK_PARTITION_BOOTLOADER = partition ''Bootloader'' 0x00000000 0x0F000"
| "bk7231_partitions_2M C BK_PARTITION_APPLICATION = partition ''Application'' 0x11000 0x121000"
| "bk7231_partitions_2M C BK_PARTITION_OTA =
     partition ''ota'' 0x132000 (if cfg_soc_name C = SOC_BK7231N then 0xA6000 else 0xAE000)"
| "bk7231_partitions_2M C BK_PARTITION_RF_FIRMWARE =
     partition ''RF Firmware'' (if cfg_soc_name C = SOC_BK7231N then 0x1d0000 else 0x1e0000) 0x1000"
| "bk7231_partitions_2M C BK_PARTITION_NET_PARAM =
     partition ''NET info'' (if cfg_soc_name C = SOC_BK7231N then 0x1d1000 else 0x1e1000) 0x1000"
| "bk7231_partitions_2M C BK_PARTITION_MATTER_FLASH =
     (if cfg_support_matter C then partition ''matter info'' 0x1e2000 0x9000 else no_partition)"
| "bk7231_partitions_2M C BK_PARTITION_MATTER_FACTORY_FLASH =
     (if cfg_support_matter C then partition ''matter factory info'' 0x1eb000 0x3000 else no_partition)"
| "bk7231_partitions_2M C BK_PARTITION_USR_CONFIG =
     (if at_service_cfg C then partition ''USER info'' 0x1ee000 0x1000 else no_partition)"
| "bk7231_partitions_2M C BK_PARTITION_BLE_SVR_CONFIG =
     (if at_service_cfg C then partition ''BLE SERVER'' 0x1ef000 0x1000 else no_partition)"
| "bk7231_partitions_2M C BK_PARTITION_BLE_BONDING_FLASH = partition ''ble bonding info'' 0x1f0000 0x1000"
| "bk7231_partitions_2M C BK_PARTITION_MAX = no_partition"

fun bk7231_partitions_4M :: "part_conf \<Rightarrow> partition_table" where
  "bk7231_partitions_4M C BK_PARTITION_BOOTLOADER = partition ''Bootloader'' 0x00000000 0x0F000"
| "bk7231_partitions_4M C BK_PARTITION_APPLICATION = partition ''Application'' 0x11000 0x275000"
| "bk7231_partitions_4M C BK_PARTITION_OTA = partition ''ota'' 0x286000 0x15A000"
| "bk7231_partitions_4M C BK_PARTITION_RF_FIRMWARE = partition ''RF Firmware'' 0x3e0000 0x1000"
| "bk7231_partitions_4M C BK_PARTITION_NET_PARAM = partition ''NET info'' 0x3e1000 0x1000"
| "bk7231_partitions_4M C BK_PARTITION_MATTER_FLASH =
     (if cfg_support_matter C then partition ''matter info'' 0x3e2000 0x9000 else no_partition)"
| "bk7231_partitions_4M C BK_PARTITION_MATTER_FACTORY_FLASH =
     (if cfg_support_matter C then partition ''matter factory info'' 0x3eb000 0x3000 else no_partition)"
| "bk7231_partitions_4M C BK_PARTITION_USR_CONFIG =
     (if at_service_cfg C then partition ''USER info'' 0x3ee000 0x1000 else no_partition)"
| "bk7231_partitions_4M C BK_PARTITION_BLE_SVR_CONFIG =
     (if at_service_cfg C then partition ''BLE SERVER'' 0x3ef000 0x1000 else no_partition)"
| "bk7231_partitions_4M C _ = no_partition"

fun bk7231_partitions_8M :: "part_conf \<Rightarrow> partition_table" where
  "bk7231_partitions_8M C BK_PARTITION_BOOTLOADER = partition ''Bootloader'' 0x00000000 0x0F000"
| "bk7231_partitions_8M C BK_PARTITION_APPLICATION = partition ''Application'' 0x11000 0x121000"
| "bk7231_partitions_8M C BK_PARTITION_OTA = partition ''ota'' 0x132000 0xAE000"
| "bk7231_partitions_8M C BK_PARTITION_RF_FIRMWARE = partition ''RF Firmware'' 0x709000 0x1000"
| "bk7231_partitions_8M C BK_PARTITION_NET_PARAM = partition ''NET info'' 0x70A000 0x1000"
| "bk7231_partitions_8M C _ = no_partition"

section \<open>State\<close>

text \<open>
  The flash device, its entry in the device table (\<open>state\<close> and \<open>use_cnt\<close>; the flash driver has
  no open and no close operation), the table in use and the mutex: \<open>None\<close> before it is created,
  \<open>Some b\<close> with \<open>b\<close> saying that it is held.
\<close>

record 'c flash_hal =
  hal_dev :: "'c flash"
  hal_dev_opened :: bool
  hal_use_cnt :: u32
  bk7231_partitions :: "partition_table option"
  hal_flash_mutex :: "bool option"

type_synonym OSStatus = int

definition kNoErr :: OSStatus where "kNoErr = 0"
definition kGeneralErr :: OSStatus where "kGeneralErr = -1"
definition kParamErr :: OSStatus where "kParamErr = -6705"
definition kNotFoundErr :: OSStatus where "kNotFoundErr = -6727"

text \<open>\<open>ddev_open(FLASH_DEV_NAME, ...)\<close>, which asserts that the device is registered, and \<open>ddev_close\<close>.\<close>

definition flash_ddev_open :: "'c flash_hal \<Rightarrow> 'c flash_hal option" where
  "flash_ddev_open s =
     (if dev_registered (hal_dev s)
      then Some (s\<lparr>hal_dev_opened := True, hal_use_cnt := (if hal_dev_opened s then hal_use_cnt s else 0) + 1\<rparr>)
      else None)"

definition flash_ddev_close :: "'c flash_hal \<Rightarrow> 'c flash_hal" where
  "flash_ddev_close s =
     (let n = hal_use_cnt s - 1 in s\<lparr>hal_use_cnt := n, hal_dev_opened := (hal_dev_opened s \<and> n \<noteq> 0)\<rparr>)"

definition flash_ddev_read :: "'c flash_env \<Rightarrow> u32 \<Rightarrow> u32 \<Rightarrow> 'c flash_hal \<Rightarrow> (byte list \<times> 'c flash_hal) option" where
  "flash_ddev_read E count op_flag s = do {
     (st, bs, d) \<leftarrow> flash_read E count op_flag (hal_dev s);
     Some (bs, s\<lparr>hal_dev := d\<rparr>) }"

definition flash_ddev_write :: "'c flash_env \<Rightarrow> byte list \<Rightarrow> u32 \<Rightarrow> u32 \<Rightarrow> 'c flash_hal \<Rightarrow> 'c flash_hal option" where
  "flash_ddev_write E buf count op_flag s = do {
     (st, d) \<leftarrow> flash_write E buf count op_flag (hal_dev s);
     Some (s\<lparr>hal_dev := d\<rparr>) }"

definition flash_ddev_control ::
  "'c flash_env \<Rightarrow> FLASH_CMD \<Rightarrow> flash_parm \<Rightarrow> 'c flash_hal \<Rightarrow> (u32 \<times> flash_parm \<times> 'c flash_hal) option" where
  "flash_ddev_control E cmd parm s = do {
     (st, parm, d) \<leftarrow> flash_ctrl E cmd parm (hal_dev s);
     Some (st, parm, s\<lparr>hal_dev := d\<rparr>) }"

section \<open>Operations\<close>

text \<open>The two Matter partitions are constants of the enumeration only in a Matter build.\<close>

fun BkFlashPartitionIsValid :: "part_conf \<Rightarrow> bk_partition_t \<Rightarrow> u32" where
  "BkFlashPartitionIsValid C BK_PARTITION_MAX = 0"
| "BkFlashPartitionIsValid C BK_PARTITION_MATTER_FLASH = (if cfg_support_matter C then 1 else 0)"
| "BkFlashPartitionIsValid C BK_PARTITION_MATTER_FACTORY_FLASH = (if cfg_support_matter C then 1 else 0)"
| "BkFlashPartitionIsValid C _ = 1"

text \<open>The inner \<open>None\<close> is the \<open>NULL\<close> returned; the outer one is a table that was never chosen.\<close>

definition bk_flash_get_info ::
  "part_conf \<Rightarrow> bk_partition_t \<Rightarrow> 'c flash_hal \<Rightarrow> bk_logic_partition_t option option" where
  "bk_flash_get_info C inPartition s =
     (if BkFlashPartitionIsValid C inPartition \<noteq> 0
      then map_option (\<lambda>tbl. Some (tbl inPartition)) (bk7231_partitions s)
      else Some None)"

definition BkFlashInit :: OSStatus where "BkFlashInit = 0"
definition BkFlashUninit :: OSStatus where "BkFlashUninit = 0"

definition bk_flash_enable_security ::
  "'c flash_env \<Rightarrow> PROTECT_TYPE \<Rightarrow> 'c flash_hal \<Rightarrow> (OSStatus \<times> 'c flash_hal) option" where
  "bk_flash_enable_security E type s = do {
     s \<leftarrow> flash_ddev_open s;
     (st, parm, s) \<leftarrow> flash_ddev_control E CMD_FLASH_SET_PROTECT (PARM_U32 (protect_code type)) s;
     Some (kNoErr, s) }"

definition bk_flash_get_security ::
  "'c flash_env \<Rightarrow> 'c flash_hal \<Rightarrow> (OSStatus \<times> PROTECT_TYPE \<times> 'c flash_hal) option" where
  "bk_flash_get_security E s = do {
     s \<leftarrow> flash_ddev_open s;
     (st, parm, s) \<leftarrow> flash_ddev_control E CMD_FLASH_GET_PROTECT (PARM_U32 0) s;
     (case parm of PARM_U32 p \<Rightarrow> Some (kNoErr, protect_of p, s) | _ \<Rightarrow> None) }"

definition bk_flash_read_otp ::
  "'c flash_env \<Rightarrow> flash_otp_t \<Rightarrow> 'c flash_hal \<Rightarrow> (u32 \<times> flash_parm \<times> 'c flash_hal) option" where
  "bk_flash_read_otp E otp_cfg s = do {
     s \<leftarrow> flash_ddev_open s;
     flash_ddev_control E CMD_FLASH_READ_OTP (PARM_OTP (Some otp_cfg)) s }"

definition bk_flash_get_uid ::
  "'c flash_env \<Rightarrow> flash_otp_t \<Rightarrow> 'c flash_hal \<Rightarrow> (u32 \<times> flash_parm \<times> 'c flash_hal) option" where
  "bk_flash_get_uid E otp_cfg s = do {
     s \<leftarrow> flash_ddev_open s;
     flash_ddev_control E CMD_FLASH_GET_UID (PARM_OTP (Some (otp_cfg\<lparr>otp_addr := 0\<rparr>))) s }"

definition bk_flash_abs_addr_read ::
  "'c flash_env \<Rightarrow> u32 \<Rightarrow> u32 \<Rightarrow> 'c flash_hal \<Rightarrow> (OSStatus \<times> byte list \<times> 'c flash_hal) option" where
  "bk_flash_abs_addr_read E off_set sz s = do {
     s \<leftarrow> flash_ddev_open s;
     (bs, s) \<leftarrow> flash_ddev_read E sz off_set s;
     Some (kNoErr, bs, s) }"

text \<open>The loop \<open>for (i = start_sector; i <= end_sector; i ++)\<close>, by the number of its rounds.\<close>

fun erase_sectors :: "'c flash_env \<Rightarrow> nat \<Rightarrow> u32 \<Rightarrow> 'c flash_hal \<Rightarrow> 'c flash_hal option" where
  "erase_sectors E 0 i s = Some s"
| "erase_sectors E (Suc n) i s = do {
     (st, parm, s) \<leftarrow> flash_ddev_control E CMD_FLASH_ERASE_SECTOR (PARM_U32 (push_bit 12 i)) s;
     erase_sectors E n (i + 1) s }"

definition bk_flash_abs_addr_erase ::
  "'c flash_env \<Rightarrow> u32 \<Rightarrow> u32 \<Rightarrow> 'c flash_hal \<Rightarrow> (OSStatus \<times> 'c flash_hal) option" where
  "bk_flash_abs_addr_erase E flashOffset sz s = do {
     s \<leftarrow> flash_ddev_open s;
     (st, flag, s) \<leftarrow> bk_flash_get_security E s;
     let start_sector = drop_bit 12 flashOffset;
     let end_sector = drop_bit 12 (flashOffset + sz - 1);
     (st, s) \<leftarrow> bk_flash_enable_security E FLASH_PROTECT_NONE s;
     s \<leftarrow> erase_sectors E (unat end_sector + 1 - unat start_sector) start_sector s;
     (st, s) \<leftarrow> bk_flash_enable_security E flag s;
     Some (kNoErr, s) }"

definition bk_flash_abs_addr_write ::
  "'c flash_env \<Rightarrow> u32 \<Rightarrow> byte list \<Rightarrow> u32 \<Rightarrow> u8 \<Rightarrow> 'c flash_hal \<Rightarrow> (OSStatus \<times> 'c flash_hal) option" where
  "bk_flash_abs_addr_write E off_set inBuffer sz eraseflag s = do {
     (st, flag, s) \<leftarrow> bk_flash_get_security E s;
     s \<leftarrow> flash_ddev_open s;
     (st, s) \<leftarrow> (if eraseflag \<noteq> 0 then bk_flash_abs_addr_erase E off_set sz s else Some (kNoErr, s));
     (st, s) \<leftarrow> bk_flash_enable_security E FLASH_PROTECT_NONE s;
     s \<leftarrow> flash_ddev_write E inBuffer sz off_set s;
     (st, s) \<leftarrow> bk_flash_enable_security E flag s;
     Some (kNoErr, s) }"

definition bk_flash_erase ::
  "part_conf \<Rightarrow> 'c flash_env \<Rightarrow> bk_partition_t \<Rightarrow> u32 \<Rightarrow> u32 \<Rightarrow> 'c flash_hal \<Rightarrow> (OSStatus \<times> 'c flash_hal) option" where
  "bk_flash_erase C E inPartition off_set sz s = do {
     partition_info \<leftarrow> bk_flash_get_info C inPartition s;
     case partition_info of
       None \<Rightarrow> Some (kNotFoundErr, s)
     | Some pt \<Rightarrow> bk_flash_abs_addr_erase E (partition_start_addr pt + off_set) sz s }"

definition bk_flash_write ::
  "part_conf \<Rightarrow> 'c flash_env \<Rightarrow> bk_partition_t \<Rightarrow> u32 \<Rightarrow> byte list option \<Rightarrow> u32 \<Rightarrow> 'c flash_hal
     \<Rightarrow> (OSStatus \<times> 'c flash_hal) option" where
  "bk_flash_write C E inPartition off_set inBuffer inBufferLength s =
     (case inBuffer of
        None \<Rightarrow> Some (kParamErr, s)
      | Some buf \<Rightarrow> do {
          partition_info \<leftarrow> bk_flash_get_info C inPartition s;
          case partition_info of
            None \<Rightarrow> Some (kNotFoundErr, s)
          | Some pt \<Rightarrow> bk_flash_abs_addr_write E (partition_start_addr pt + off_set) buf inBufferLength 0 s })"

text \<open>The flag \<open>outBuffer\<close> says whether a buffer is given; the bytes stored in it are returned.\<close>

definition bk_flash_read ::
  "part_conf \<Rightarrow> 'c flash_env \<Rightarrow> bk_partition_t \<Rightarrow> u32 \<Rightarrow> bool \<Rightarrow> u32 \<Rightarrow> 'c flash_hal
     \<Rightarrow> (OSStatus \<times> byte list \<times> 'c flash_hal) option" where
  "bk_flash_read C E inPartition off_set outBuffer inBufferLength s =
     (if \<not> outBuffer then Some (kParamErr, [], s)
      else do {
        partition_info \<leftarrow> bk_flash_get_info C inPartition s;
        case partition_info of
          None \<Rightarrow> Some (kNotFoundErr, [], s)
        | Some pt \<Rightarrow> bk_flash_abs_addr_read E (partition_start_addr pt + off_set) inBufferLength s })"

text \<open>The loop \<open>for (; addr < tmp; addr += step)\<close> of the self tests, which need not end.\<close>

partial_function (option) test_loop ::
  "u32 \<Rightarrow> (u32 \<Rightarrow> 's \<Rightarrow> 's option) \<Rightarrow> u32 \<Rightarrow> u32 \<Rightarrow> 's \<Rightarrow> 's option" where
  "test_loop st body addr tmp s =
     (if addr < tmp then do { s \<leftarrow> body addr s; test_loop st body (addr + st) tmp s } else Some s)"

definition test_flash_write :: "'c flash_env \<Rightarrow> u32 \<Rightarrow> u32 \<Rightarrow> 'c flash_hal \<Rightarrow> (OSStatus \<times> 'c flash_hal) option" where
  "test_flash_write E start_addr len s = do {
     let buf = map of_nat [0..<256];
     s \<leftarrow> flash_ddev_open s;
     s \<leftarrow> test_loop 256 (\<lambda>addr. flash_ddev_write E buf 256 addr) start_addr (start_addr + len) s;
     Some (kNoErr, s) }"

definition test_flash_erase :: "'c flash_env \<Rightarrow> u32 \<Rightarrow> u32 \<Rightarrow> 'c flash_hal \<Rightarrow> (OSStatus \<times> 'c flash_hal) option" where
  "test_flash_erase E start_addr len s = do {
     s \<leftarrow> flash_ddev_open s;
     s \<leftarrow> test_loop 0x1000 (\<lambda>addr s. map_option (\<lambda>(st, parm, s). s)
            (flash_ddev_control E CMD_FLASH_ERASE_SECTOR (PARM_U32 addr) s)) start_addr (start_addr + len) s;
     Some (kNoErr, s) }"

text \<open>
  \<open>test_flash_read\<close> prints the bytes, the two other read tests discard them; \<open>test_flash_read_time\<close>
  also prints the time taken. The bytes of every block are returned here.
\<close>

definition test_flash_read ::
  "'c flash_env \<Rightarrow> u32 \<Rightarrow> u32 \<Rightarrow> 'c flash_hal \<Rightarrow> (OSStatus \<times> byte list \<times> 'c flash_hal) option" where
  "test_flash_read E start_addr len s = do {
     s \<leftarrow> flash_ddev_open s;
     (out, s) \<leftarrow> test_loop 256 (\<lambda>addr (out, s). map_option (\<lambda>(bs, s). (out @ bs, s)) (flash_ddev_read E 256 addr s))
       start_addr (start_addr + len) ([], s);
     Some (kNoErr, out, s) }"

definition test_flash_read_without_print ::
  "'c flash_env \<Rightarrow> u32 \<Rightarrow> u32 \<Rightarrow> 'c flash_hal \<Rightarrow> (OSStatus \<times> 'c flash_hal) option" where
  "test_flash_read_without_print E start_addr len s = do {
     s \<leftarrow> flash_ddev_open s;
     s \<leftarrow> test_loop 256 (\<lambda>addr s. map_option snd (flash_ddev_read E 256 addr s)) start_addr (start_addr + len) s;
     Some (kNoErr, s) }"

definition hal_flash_lock :: "'c flash_hal \<Rightarrow> (OSStatus \<times> 'c flash_hal) option" where
  "hal_flash_lock s = (case hal_flash_mutex s of
     Some False \<Rightarrow> Some (kNoErr, s\<lparr>hal_flash_mutex := Some True\<rparr>)
   | _ \<Rightarrow> None)"

definition hal_flash_unlock :: "'c flash_hal \<Rightarrow> (OSStatus \<times> 'c flash_hal) option" where
  "hal_flash_unlock s = (case hal_flash_mutex s of
     Some held \<Rightarrow> Some (kNoErr, s\<lparr>hal_flash_mutex := Some False\<rparr>)
   | None \<Rightarrow> None)"

text \<open>The choice for a flash size; \<open>ret\<close> is what \<open>rtos_init_mutex\<close> returns.\<close>

definition partitions_for_size :: "part_conf \<Rightarrow> u32 \<Rightarrow> partition_table" where
  "partitions_for_size C sz =
     (if sz \<ge> 0x800000 then bk7231_partitions_8M C
      else if sz \<ge> 0x400000 then bk7231_partitions_4M C
      else if sz \<ge> 0x200000 then bk7231_partitions_2M C
      else if sz \<ge> 0x100000 then bk7231_partitions_1M C
      else bk7231_partitions_2M C)"

definition hal_flash_init ::
  "part_conf \<Rightarrow> 'c flash_env \<Rightarrow> int \<Rightarrow> 'c flash_hal \<Rightarrow> (OSStatus \<times> 'c flash_hal) option" where
  "hal_flash_init C E ret s = do {
     (tbl, s) \<leftarrow> (case cfg_flash_selection C of
         SELECTION_1M \<Rightarrow> Some (bk7231_partitions_1M C, s)
       | SELECTION_2M \<Rightarrow> Some (bk7231_partitions_2M C, s)
       | SELECTION_4M \<Rightarrow> Some (bk7231_partitions_4M C, s)
       | SELECTION_8M \<Rightarrow> Some (bk7231_partitions_8M C, s)
       | SELECTION_DYNAMIC \<Rightarrow> do {
           s \<leftarrow> flash_ddev_open s;
           (st, parm, s) \<leftarrow> flash_ddev_control E CMD_FLASH_GET_SIZE (PARM_U32 0x200000) s;
           (case parm of PARM_U32 sz \<Rightarrow> Some (partitions_for_size C sz, s) | _ \<Rightarrow> None) });
     let s = s\<lparr>bk7231_partitions := Some tbl\<rparr>;
     if ret \<noteq> 0 then Some (kGeneralErr, s)
     else Some (kNoErr, s\<lparr>hal_flash_mutex := Some False\<rparr>) }"

end
