(* ===== verification/Flash_Partition_Props.thy ===== *)
theory Flash_Partition_Props
  imports Flash_Partition
begin

text \<open>
  The contract of the partition layer. The lemmas up to \<open>abs_erase_ok\<close> give the effect of every
  operation on the contents and on the block protection of the chip; the locale \<open>nor_store\<close> states
  what the clients of the layer rely on and derives the update of a sector from it, and the
  interpretation \<open>fs\<close> proves it for the model. The properties of the partitions follow.
\<close>

section \<open>The device under the partition layer\<close>

text \<open>
  What the partition layer needs of the chip: it is a NOR flash whose protection bits can be
  written, it fits the 24-bit address of the controller, and it protects nothing while the bits
  encode the setting \<open>protect_none\<close> of its configuration. Its status register has two bytes (the protection
  field has the complement bit): the chips of \<open>flash_config\<close> with one byte, and the entry for an unknown chip, are
  left out.
\<close>

definition chip_ok :: "(u16 \<Rightarrow> nat \<Rightarrow> bool) \<Rightarrow> 'c flash_env \<Rightarrow> flash_config_t \<Rightarrow> bool" where
  "chip_ok locked E cfg \<longleftrightarrow> nor_chip locked (env_chip E) \<and> sr_writable 0x407C (env_chip E) \<and> two_byte_cfg cfg
     \<and> unat (flash_size cfg) \<le> 2 ^ 24 \<and> (\<forall>sr a. protect_field cfg sr = protect_none cfg \<longrightarrow> \<not> locked sr a)"

text \<open>The driver has been initialised and is idle, and a bypass for the status register, if one is registered, works.\<close>

definition hal_ok :: "'c flash_env \<Rightarrow> flash_config_t \<Rightarrow> 'c flash_hal \<Rightarrow> bool" where
  "hal_ok E cfg s \<longleftrightarrow> flash_ready cfg (hal_dev s) \<and> bypass_ok E (flash_wr_sr_bypass (hal_dev s))"

abbreviation hal_mem :: "'c flash_env \<Rightarrow> 'c flash_hal \<Rightarrow> nat \<Rightarrow> byte" where
  "hal_mem E s \<equiv> fl_mem E (hal_dev s)"

abbreviation hal_protect :: "'c flash_env \<Rightarrow> flash_config_t \<Rightarrow> 'c flash_hal \<Rightarrow> u16" where
  "hal_protect E cfg s \<equiv> protect_field cfg (fl_sr E (hal_dev s))"

text \<open>The type that \<open>get_flash_protect\<close> reports for a setting.\<close>

definition protect_type :: "flash_config_t \<Rightarrow> u16 \<Rightarrow> PROTECT_TYPE" where
  "protect_type cfg v = (if v = protect_all cfg then FLASH_PROTECT_ALL
     else if v = protect_none cfg then FLASH_PROTECT_NONE
     else if v = protect_half cfg then FLASH_PROTECT_HALF
     else if v = unprotect_last_block cfg then FLASH_UNPROTECT_LAST_BLOCK else PROTECT_OTHER)"

lemma protect_of_code [simp]: "protect_of (protect_code t) = t"
  by (cases t) (simp_all add: protect_of_def)

lemma protect_setting_type:
  "protect_type cfg v \<noteq> PROTECT_OTHER \<Longrightarrow> protect_setting cfg (protect_type cfg v) = v"
  by (auto simp: protect_type_def split: if_splits)

text \<open>The table in use and the mutex change only at start-up.\<close>

definition same_layout :: "'c flash_hal \<Rightarrow> 'c flash_hal \<Rightarrow> bool" where
  "same_layout s s' \<longleftrightarrow> bk7231_partitions s' = bk7231_partitions s \<and> hal_flash_mutex s' = hal_flash_mutex s"

lemma same_layout_refl [simp]: "same_layout s s"
  by (simp add: same_layout_def)

lemma same_layout_trans: "same_layout s t \<Longrightarrow> same_layout t u \<Longrightarrow> same_layout s u"
  by (simp add: same_layout_def)

lemma flash_open_ok:
  assumes "hal_ok E cfg s"
  shows "\<exists>s'. flash_ddev_open s = Some s' \<and> hal_ok E cfg s' \<and> hal_dev s' = hal_dev s \<and> same_layout s s'"
  using assms by (simp add: flash_ddev_open_def hal_ok_def flash_ready_def same_layout_def)

lemma flash_ddev_close_ok:
  "hal_ok E cfg (flash_ddev_close s) = hal_ok E cfg s" "hal_dev (flash_ddev_close s) = hal_dev s" "same_layout s (flash_ddev_close s)"
  by (simp_all add: flash_ddev_close_def hal_ok_def same_layout_def Let_def)

lemma flash_control_ok:
  assumes "flash_ctrl E cmd parm (hal_dev s) = Some (r, parm', d)"
  shows "flash_ddev_control E cmd parm s = Some (r, parm', s\<lparr>hal_dev := d\<rparr>)"
  using assms by (simp add: flash_ddev_control_def)

text \<open>The two commands for the protection setting.\<close>

lemma get_protect_ctrl:
  fixes E :: "'c flash_env"
  assumes "chip_ok locked E cfg" "hal_ok E cfg t"
  shows "\<exists>t'. flash_ddev_control E CMD_FLASH_GET_PROTECT (PARM_U32 0) t
      = Some (FLASH_SUCCESS, PARM_U32 (protect_code (protect_type cfg (hal_protect E cfg t))), t') \<and> hal_ok E cfg t'
    \<and> hal_mem E t' = hal_mem E t \<and> hal_protect E cfg t' = hal_protect E cfg t \<and> same_layout t t'"
proof -
  have chip: "nor_chip locked (env_chip E)" and two: "sr_size cfg = 2" using assms(1) by (auto simp: chip_ok_def two_byte_cfg_def)
  let ?d = "hal_dev t" and ?c = "protect_code (protect_type cfg (hal_protect E cfg t))"
  have "\<exists>d'. flash_ctrl E CMD_FLASH_GET_PROTECT (PARM_U32 0) ?d = Some (FLASH_SUCCESS, PARM_U32 ?c, d')
      \<and> flash_ready cfg d' \<and> (fl_mem E d' = fl_mem E ?d \<and> fl_sr E d' = fl_sr E ?d \<and> bypass_ok E (flash_wr_sr_bypass d'))"
  proof (rule flash_ctrl_ok [OF chip])
    show "flash_ready cfg ?d" using assms(2) by (simp add: hal_ok_def)
    fix u assume u: "quiet E cfg (?d\<lparr>peri_busy := peri_busy ?d + 1\<rparr>) u"
    then have r: "flash_ready cfg u" "fl_sr E u = fl_sr E ?d" "fl_mem E u = fl_mem E ?d" "bypass_ok E (flash_wr_sr_bypass u)"
      using assms(2) by (auto simp: quiet_def hal_ok_def)
    obtain v where v: "flash_read_sr E 2 u = Some (fl_sr E ?d, v)" "quiet E cfg u v"
      using flash_read_sr_ok [OF r(1), of E 2] r(2) by auto
    have "get_flash_protect E u = Some (protect_type cfg (hal_protect E cfg t), v)"
      using r(1) v(1) two unfolding get_flash_protect_def protect_type_def protect_field_def flash_ready_def
      by (simp add: Let_def)
    then show "\<exists>v. flash_ctrl_switch E CMD_FLASH_GET_PROTECT (PARM_U32 0) u = Some (FLASH_SUCCESS, PARM_U32 ?c, v) \<and> flash_ready cfg v
        \<and> fl_mem E v = fl_mem E ?d \<and> fl_sr E v = fl_sr E ?d \<and> bypass_ok E (flash_wr_sr_bypass v)"
      using v(2) r by (auto simp: flash_ctrl_switch_def quiet_def)
  qed (simp add: quiet_def)
  then obtain d' where d': "flash_ctrl E CMD_FLASH_GET_PROTECT (PARM_U32 0) ?d = Some (FLASH_SUCCESS, PARM_U32 ?c, d')"
    "flash_ready cfg d'" "fl_mem E d' = fl_mem E ?d" "fl_sr E d' = fl_sr E ?d" "bypass_ok E (flash_wr_sr_bypass d')" by blast
  show ?thesis
    using flash_control_ok [OF d'(1)] d' by (auto simp: hal_ok_def same_layout_def)
qed

lemma set_protect_ctrl:
  fixes E :: "'c flash_env"
  assumes "chip_ok locked E cfg" "hal_ok E cfg t"
  shows "\<exists>t'. flash_ddev_control E CMD_FLASH_SET_PROTECT (PARM_U32 (protect_code ty)) t
      = Some (FLASH_SUCCESS, PARM_U32 (protect_code ty), t') \<and> hal_ok E cfg t'
    \<and> hal_mem E t' = hal_mem E t \<and> hal_protect E cfg t' = protect_setting cfg ty \<and> same_layout t t'"
proof -
  have chip: "nor_chip locked (env_chip E)" and sw: "sr_writable 0x407C (env_chip E)" and two: "two_byte_cfg cfg"
    using assms(1) by (auto simp: chip_ok_def)
  let ?d = "hal_dev t" and ?p = "PARM_U32 (protect_code ty)"
  have "\<exists>d'. flash_ctrl E CMD_FLASH_SET_PROTECT ?p ?d = Some (FLASH_SUCCESS, ?p, d')
      \<and> flash_ready cfg d' \<and> (fl_mem E d' = fl_mem E ?d \<and> protect_field cfg (fl_sr E d') = protect_setting cfg ty
        \<and> bypass_ok E (flash_wr_sr_bypass d'))"
  proof (rule flash_ctrl_ok [OF chip])
    show "flash_ready cfg ?d" using assms(2) by (simp add: hal_ok_def)
    fix u assume u: "quiet E cfg (?d\<lparr>peri_busy := peri_busy ?d + 1\<rparr>) u"
    then have r: "flash_ready cfg u" "fl_mem E u = fl_mem E ?d" "bypass_ok E (flash_wr_sr_bypass u)"
      using assms(2) by (auto simp: quiet_def hal_ok_def)
    from set_flash_protect_ok [OF chip sw r(1,3) two, of ty True]
    show "\<exists>v. flash_ctrl_switch E CMD_FLASH_SET_PROTECT ?p u = Some (FLASH_SUCCESS, ?p, v) \<and> flash_ready cfg v
        \<and> fl_mem E v = fl_mem E ?d \<and> protect_field cfg (fl_sr E v) = protect_setting cfg ty \<and> bypass_ok E (flash_wr_sr_bypass v)"
      using r(2) by (auto simp: flash_ctrl_switch_def flash_protection_op_def)
  qed (simp add: quiet_def)
  then obtain d' where d': "flash_ctrl E CMD_FLASH_SET_PROTECT ?p ?d = Some (FLASH_SUCCESS, ?p, d')"
    "flash_ready cfg d'" "fl_mem E d' = fl_mem E ?d" "protect_field cfg (fl_sr E d') = protect_setting cfg ty"
    "bypass_ok E (flash_wr_sr_bypass d')" by blast
  show ?thesis
    using flash_control_ok [OF d'(1)] d' by (auto simp: hal_ok_def same_layout_def)
qed

lemma get_security_ok:
  fixes E :: "'c flash_env"
  assumes "chip_ok locked E cfg" "hal_ok E cfg s"
  shows "\<exists>s'. bk_flash_get_security E s = Some (kNoErr, protect_type cfg (hal_protect E cfg s), s') \<and> hal_ok E cfg s'
    \<and> hal_mem E s' = hal_mem E s \<and> hal_protect E cfg s' = hal_protect E cfg s \<and> same_layout s s'"
proof -
  obtain t where t: "flash_ddev_open s = Some t" "hal_ok E cfg t" "hal_dev t = hal_dev s" "same_layout s t"
    using flash_open_ok [OF assms(2)] by blast
  then show ?thesis
    using get_protect_ctrl [OF assms(1) t(2)] by (auto simp: bk_flash_get_security_def same_layout_def)
qed

lemma enable_security_ok:
  fixes E :: "'c flash_env"
  assumes "chip_ok locked E cfg" "hal_ok E cfg s"
  shows "\<exists>s'. bk_flash_enable_security E ty s = Some (kNoErr, s') \<and> hal_ok E cfg s'
    \<and> hal_mem E s' = hal_mem E s \<and> hal_protect E cfg s' = protect_setting cfg ty \<and> same_layout s s'"
proof -
  obtain t where t: "flash_ddev_open s = Some t" "hal_ok E cfg t" "hal_dev t = hal_dev s" "same_layout s t"
    using flash_open_ok [OF assms(2)] by blast
  then show ?thesis
    using set_protect_ctrl [OF assms(1) t(2), of ty] by (auto simp: bk_flash_enable_security_def same_layout_def)
qed

section \<open>Absolute access\<close>

lemma abs_read_ok:
  assumes "chip_ok locked E cfg" "hal_ok E cfg s" "unat a + unat n \<le> 2 ^ 24"
  shows "\<exists>s'. bk_flash_abs_addr_read E a n s = Some (kNoErr, mem_slice (hal_mem E s) (unat a) (unat n), s') \<and> hal_ok E cfg s'
    \<and> hal_mem E s' = hal_mem E s \<and> hal_protect E cfg s' = hal_protect E cfg s \<and> same_layout s s'"
proof -
  obtain t where t: "flash_ddev_open s = Some t" "hal_ok E cfg t" "hal_dev t = hal_dev s" "same_layout s t"
    using flash_open_ok [OF assms(2)] by blast
  have "flash_ready cfg (hal_dev t)" using t(2) by (simp add: hal_ok_def)
  from flash_read_ok [OF this assms(3), of E] show ?thesis
    using t by (auto simp: bk_flash_abs_addr_read_def flash_ddev_read_def quiet_def hal_ok_def same_layout_def)
qed

lemma write_unlocked:
  assumes "chip_ok locked E cfg" "hal_ok E cfg s" "hal_protect E cfg s = protect_none cfg"
    "unat a < unat (flash_size cfg)" "unat a + unat n \<le> unat (flash_size cfg)" "unat n \<le> length buf"
  shows "\<exists>s'. flash_ddev_write E buf n a s = Some s' \<and> hal_ok E cfg s' \<and> same_layout s s' \<and> hal_protect E cfg s' = protect_none cfg
    \<and> hal_mem E s' = prog_mem (\<lambda>_. False) (hal_mem E s) (unat a) (take (unat n) buf)"
proof -
  have c: "nor_chip locked (env_chip E)" "unat (flash_size cfg) \<le> 2 ^ 24" "locked (fl_sr E (hal_dev s)) = (\<lambda>_. False)"
    using assms(1,3) by (auto simp: chip_ok_def)
  have "flash_ready cfg (hal_dev s)" "bypass_ok E (flash_wr_sr_bypass (hal_dev s))" using assms(2) by (auto simp: hal_ok_def)
  with flash_write_ok [OF c(1) this(1) assms(4,5) c(2) assms(6)] assms(3) show ?thesis
    unfolding c(3) by (auto simp: flash_ddev_write_def hal_ok_def same_layout_def)
qed

lemma abs_write_ok:
  assumes "chip_ok locked E cfg" "hal_ok E cfg s"
    "unat a < unat (flash_size cfg)" "unat a + unat n \<le> unat (flash_size cfg)" "unat n \<le> length buf"
  shows "\<exists>s'. bk_flash_abs_addr_write E a buf n 0 s = Some (kNoErr, s') \<and> hal_ok E cfg s' \<and> same_layout s s'
    \<and> hal_mem E s' = prog_mem (\<lambda>_. False) (hal_mem E s) (unat a) (take (unat n) buf)
    \<and> hal_protect E cfg s' = protect_setting cfg (protect_type cfg (hal_protect E cfg s))"
proof -
  let ?t = "protect_type cfg (hal_protect E cfg s)"
  obtain s1 where s1: "bk_flash_get_security E s = Some (kNoErr, ?t, s1)" "hal_ok E cfg s1" "hal_mem E s1 = hal_mem E s" "same_layout s s1"
    using get_security_ok [OF assms(1,2)] by blast
  obtain s2 where s2: "flash_ddev_open s1 = Some s2" "hal_ok E cfg s2" "hal_dev s2 = hal_dev s1" "same_layout s1 s2"
    using flash_open_ok [OF s1(2)] by blast
  obtain s3 where s3: "bk_flash_enable_security E FLASH_PROTECT_NONE s2 = Some (kNoErr, s3)" "hal_ok E cfg s3"
      "hal_mem E s3 = hal_mem E s2" "hal_protect E cfg s3 = protect_none cfg" "same_layout s2 s3"
    using enable_security_ok [OF assms(1) s2(2), of FLASH_PROTECT_NONE] by auto
  obtain s4 where s4: "flash_ddev_write E buf n a s3 = Some s4" "hal_ok E cfg s4" "same_layout s3 s4"
      "hal_mem E s4 = prog_mem (\<lambda>_. False) (hal_mem E s3) (unat a) (take (unat n) buf)"
    using write_unlocked [OF assms(1) s3(2,4) assms(3-5)] by blast
  obtain s5 where s5: "bk_flash_enable_security E ?t s4 = Some (kNoErr, s5)" "hal_ok E cfg s5"
      "hal_mem E s5 = hal_mem E s4" "hal_protect E cfg s5 = protect_setting cfg ?t" "same_layout s4 s5"
    using enable_security_ok [OF assms(1) s4(2), of ?t] by blast
  show ?thesis
    using s1 s2 s3 s4 s5 by (auto simp: bk_flash_abs_addr_write_def same_layout_def)
qed

text \<open>The sectors of a range, as \<open>bk_flash_abs_addr_erase\<close> walks them.\<close>

definition erase_range :: "(nat \<Rightarrow> byte) \<Rightarrow> nat \<Rightarrow> nat \<Rightarrow> nat \<Rightarrow> byte" where
  "erase_range m first n i = (if first \<le> i div 4096 \<and> i div 4096 < first + n then 0xFF else m i)"

lemma erase_sector_unlocked:
  assumes "chip_ok locked E cfg" "hal_ok E cfg s" "hal_protect E cfg s = protect_none cfg" "unat a < unat (flash_size cfg)"
  shows "\<exists>s'. flash_ddev_control E CMD_FLASH_ERASE_SECTOR (PARM_U32 a) s = Some (FLASH_SUCCESS, PARM_U32 a, s')
    \<and> hal_ok E cfg s' \<and> same_layout s s' \<and> hal_protect E cfg s' = protect_none cfg
    \<and> hal_mem E s' = erase_range (hal_mem E s) (unat a div 4096) 1"
proof -
  have c: "nor_chip locked (env_chip E)" "unat (flash_size cfg) \<le> 2 ^ 24" "\<And>i. \<not> locked (fl_sr E (hal_dev s)) i"
    using assms(1,3) by (auto simp: chip_ok_def)
  have r: "flash_ready cfg (hal_dev s)" "bypass_ok E (flash_wr_sr_bypass (hal_dev s))" using assms(2) by (auto simp: hal_ok_def)
  let ?d = "hal_dev s"
  have "\<exists>d'. flash_ctrl E CMD_FLASH_ERASE_SECTOR (PARM_U32 a) ?d = Some (FLASH_SUCCESS, PARM_U32 a, d')
      \<and> flash_ready cfg d' \<and> (fl_mem E d' = erase_range (fl_mem E ?d) (unat a div 4096) 1
        \<and> fl_sr E d' = fl_sr E ?d \<and> bypass_ok E (flash_wr_sr_bypass d'))"
  proof (rule flash_ctrl_ok [OF c(1) r(1)])
    fix u assume "quiet E cfg (?d\<lparr>peri_busy := peri_busy ?d + 1\<rparr>) u"
    then have u: "flash_ready cfg u" "fl_sr E u = fl_sr E ?d" "fl_mem E u = fl_mem E ?d" "bypass_ok E (flash_wr_sr_bypass u)"
      using r(2) by (auto simp: quiet_def)
    have "erase_mem (locked (fl_sr E u)) (fl_mem E u) (unat a - unat a mod 4096) = erase_range (fl_mem E ?d) (unat a div 4096) 1"
      using c(3) by (intro ext) (auto simp: erase_mem_sector erase_range_def u)
    then show "\<exists>v. flash_ctrl_switch E CMD_FLASH_ERASE_SECTOR (PARM_U32 a) u = Some (FLASH_SUCCESS, PARM_U32 a, v) \<and> flash_ready cfg v
        \<and> fl_mem E v = erase_range (fl_mem E ?d) (unat a div 4096) 1 \<and> fl_sr E v = fl_sr E ?d \<and> bypass_ok E (flash_wr_sr_bypass v)"
      using flash_erase_sector_ok [OF c(1) u(1) assms(4) c(2)] u by (auto simp: flash_ctrl_switch_def)
  qed (simp add: quiet_def)
  then show ?thesis
    using assms(3) flash_control_ok [of E CMD_FLASH_ERASE_SECTOR "PARM_U32 a" s] by (auto simp: hal_ok_def same_layout_def)
qed

lemma erase_range_step: "erase_range (erase_range m a 1) (a + 1) n = erase_range m a (Suc n)"
  by (rule ext) (auto simp: erase_range_def)

lemma sector_number:
  "unat (drop_bit 12 a :: u32) = unat a div 4096"
  "unat i < 2 ^ 20 \<Longrightarrow> unat (push_bit 12 i :: u32) = unat i * 4096"
proof -
  show "unat (drop_bit 12 a) = unat a div 4096" by (simp add: drop_bit_eq_div unat_div)
  assume "unat i < 2 ^ 20"
  then show "unat (push_bit 12 i) = unat i * 4096"
    by (simp add: push_bit_eq_mult unat_word_ariths)
qed

lemma erase_sectors_ok:
  assumes "chip_ok locked E cfg"
  shows "hal_ok E cfg s \<Longrightarrow> hal_protect E cfg s = protect_none cfg \<Longrightarrow>
   (n \<noteq> 0 \<longrightarrow> (unat i + n - 1) * 4096 < unat (flash_size cfg)) \<Longrightarrow>
   \<exists>s'. erase_sectors E n i s = Some s' \<and> hal_ok E cfg s' \<and> same_layout s s' \<and> hal_protect E cfg s' = protect_none cfg
     \<and> hal_mem E s' = erase_range (hal_mem E s) (unat i) n"
proof (induction n arbitrary: i s)
  case 0
  then show ?case by (auto simp: erase_range_def fun_eq_iff)
next
  case (Suc n)
  have lim: "(unat i + n) * 4096 < unat (flash_size cfg)" "unat (flash_size cfg) \<le> 2 ^ 24"
    using Suc.prems(3) assms by (auto simp: chip_ok_def)
  then have small: "unat i + n < 2 ^ 20" by simp
  then have p: "unat (push_bit 12 i) = unat i * 4096" by (intro sector_number(2)) simp
  obtain s1 where s1: "flash_ddev_control E CMD_FLASH_ERASE_SECTOR (PARM_U32 (push_bit 12 i)) s
        = Some (FLASH_SUCCESS, PARM_U32 (push_bit 12 i), s1)" "hal_ok E cfg s1" "same_layout s s1"
      "hal_protect E cfg s1 = protect_none cfg" "hal_mem E s1 = erase_range (hal_mem E s) (unat i) 1"
    using erase_sector_unlocked [OF assms Suc.prems(1,2), of "push_bit 12 i"] lim(1) p by auto
  have i1: "unat (i + 1) = unat i + 1" using small by (subst unat_add_no_wrap) simp_all
  have "n \<noteq> 0 \<longrightarrow> (unat (i + 1) + n - 1) * 4096 < unat (flash_size cfg)" using lim(1) i1 by simp
  from Suc.IH [OF s1(2,4) this] obtain s2 where s2: "erase_sectors E n (i + 1) s1 = Some s2" "hal_ok E cfg s2" "same_layout s1 s2"
      "hal_protect E cfg s2 = protect_none cfg" "hal_mem E s2 = erase_range (hal_mem E s1) (unat (i + 1)) n" by blast
  show ?case
    using s1 s2 same_layout_trans [OF s1(3) s2(3)] erase_range_step [of "hal_mem E s" "unat i" n]
    by (simp add: i1)
qed

lemma abs_erase_ok:
  assumes "chip_ok locked E cfg" "hal_ok E cfg s" "0 < unat n" "unat a + unat n \<le> unat (flash_size cfg)"
  shows "\<exists>s'. bk_flash_abs_addr_erase E a n s = Some (kNoErr, s') \<and> hal_ok E cfg s' \<and> same_layout s s'
    \<and> hal_mem E s' = erase_range (hal_mem E s) (unat a div 4096) ((unat a + unat n - 1) div 4096 + 1 - unat a div 4096)
    \<and> hal_protect E cfg s' = protect_setting cfg (protect_type cfg (hal_protect E cfg s))"
proof -
  let ?t = "protect_type cfg (hal_protect E cfg s)"
  have "unat (flash_size cfg) \<le> 2 ^ 24" using assms(1) by (simp add: chip_ok_def)
  then have e: "unat (a + n - 1) = unat a + unat n - 1"
    using assms(3,4) by (simp add: unat_sub_no_wrap unat_add_no_wrap)
  obtain s1 where s1: "flash_ddev_open s = Some s1" "hal_ok E cfg s1" "hal_dev s1 = hal_dev s" "same_layout s s1"
    using flash_open_ok [OF assms(2)] by blast
  obtain s2 where s2: "bk_flash_get_security E s1 = Some (kNoErr, ?t, s2)" "hal_ok E cfg s2" "hal_mem E s2 = hal_mem E s" "same_layout s1 s2"
    using get_security_ok [OF assms(1) s1(2)] s1(3) by auto
  obtain s3 where s3: "bk_flash_enable_security E FLASH_PROTECT_NONE s2 = Some (kNoErr, s3)" "hal_ok E cfg s3"
      "hal_mem E s3 = hal_mem E s2" "hal_protect E cfg s3 = protect_none cfg" "same_layout s2 s3"
    using enable_security_ok [OF assms(1) s2(2), of FLASH_PROTECT_NONE] by auto
  let ?n = "(unat a + unat n - 1) div 4096 + 1 - unat a div 4096"
  have "unat a div 4096 + ?n - 1 = (unat a + unat n - 1) div 4096"
    using assms(3) div_le_mono [of "unat a" "unat a + unat n - 1" 4096] by simp
  moreover have "(unat a + unat n - 1) div 4096 * 4096 < unat (flash_size cfg)"
    using assms(3,4) div_times_less_eq_dividend [of "unat a + unat n - 1" 4096] by linarith
  ultimately have "?n \<noteq> 0 \<longrightarrow> (unat (drop_bit 12 a) + ?n - 1) * 4096 < unat (flash_size cfg)" by (simp add: sector_number)
  from erase_sectors_ok [OF assms(1) s3(2,4) this]
  obtain s4 where s4: "erase_sectors E ?n (drop_bit 12 a) s3 = Some s4" "hal_ok E cfg s4" "same_layout s3 s4"
      "hal_mem E s4 = erase_range (hal_mem E s3) (unat a div 4096) ?n" by (auto simp: sector_number)
  obtain s5 where s5: "bk_flash_enable_security E ?t s4 = Some (kNoErr, s5)" "hal_ok E cfg s5"
      "hal_mem E s5 = hal_mem E s4" "hal_protect E cfg s5 = protect_setting cfg ?t" "same_layout s4 s5"
    using enable_security_ok [OF assms(1) s4(2), of ?t] by blast
  show ?thesis
    using s1 s2 s3 s4 s5 by (auto simp: bk_flash_abs_addr_erase_def same_layout_def sector_number e)
qed

text \<open>The absolute operations return \<open>kNoErr\<close> whenever they return.\<close>

lemma abs_status:
  "bk_flash_abs_addr_erase E a n s = Some (r, s') \<Longrightarrow> r = kNoErr"
  "bk_flash_abs_addr_write E a buf n fl s = Some (r, s') \<Longrightarrow> r = kNoErr"
  "bk_flash_abs_addr_read E a n s = Some (r, bs, s') \<Longrightarrow> r = kNoErr"
  by (auto simp: bk_flash_abs_addr_erase_def bk_flash_abs_addr_write_def bk_flash_abs_addr_read_def Let_def
      split: Option.bind_split_asm prod.split_asm)

lemma sector_of_range:
  assumes "a mod 4096 = 0" "n \<le> 4096" "a \<le> i" "i < a + n"
  shows "i div 4096 = a div (4096 :: nat)"
proof -
  obtain q where "a = 4096 * q" using assms(1) by auto
  then show ?thesis using assms(2-4) by (auto intro!: div_nat_eqI)
qed

section \<open>The store that the clients see\<close>

text \<open>
  The contract of the layer, for a memory of \<open>cap\<close> bytes: reading returns the contents, writing
  clears bits, erasing sets the bytes of all sectors that the range touches. What a client builds
  on it is the update of a sector: erase it, then write the new contents.
\<close>

locale nor_store =
  fixes ok :: "'s \<Rightarrow> bool" and mem :: "'s \<Rightarrow> nat \<Rightarrow> byte" and cap :: nat
    and rd :: "nat \<Rightarrow> nat \<Rightarrow> 's \<Rightarrow> (byte list \<times> 's) option"
    and wr :: "nat \<Rightarrow> byte list \<Rightarrow> 's \<Rightarrow> 's option"
    and er :: "nat \<Rightarrow> nat \<Rightarrow> 's \<Rightarrow> 's option"
  assumes rd_law: "ok s \<Longrightarrow> a + n \<le> cap \<Longrightarrow> \<exists>s'. rd a n s = Some (mem_slice (mem s) a n, s') \<and> ok s' \<and> mem s' = mem s"
    and wr_law: "ok s \<Longrightarrow> a < cap \<Longrightarrow> a + length bs \<le> cap \<Longrightarrow>
      \<exists>s'. wr a bs s = Some s' \<and> ok s' \<and> mem s' = prog_mem (\<lambda>_. False) (mem s) a bs"
    and er_law: "ok s \<Longrightarrow> 0 < n \<Longrightarrow> a + n \<le> cap \<Longrightarrow>
      \<exists>s'. er a n s = Some s' \<and> ok s'
        \<and> mem s' = erase_range (mem s) (a div 4096) ((a + n - 1) div 4096 + 1 - a div 4096)"
begin

lemma update_sector:
  assumes "ok s" "a mod 4096 = 0" "bs \<noteq> []" "length bs \<le> 4096" "a + length bs \<le> cap"
  shows "\<exists>s1 s2. er a (length bs) s = Some s1 \<and> wr a bs s1 = Some s2 \<and> ok s2
    \<and> mem s2 = (\<lambda>i. if a \<le> i \<and> i < a + length bs then bs ! (i - a) else if i div 4096 = a div 4096 then 0xFF else mem s i)"
proof -
  obtain q where q: "a = 4096 * q" using assms(2) by auto
  have l: "0 < length bs" using assms(3) by simp
  have "4096 * q \<le> a + length bs - 1" "a + length bs - 1 < 4096 * q + 4096" using l assms(4) q by linarith+
  then have "(a + length bs - 1) div 4096 = q" by (intro div_nat_eqI) simp_all
  then have d: "(a + length bs - 1) div 4096 = a div 4096" using q by simp
  obtain s1 where s1: "er a (length bs) s = Some s1" "ok s1" "mem s1 = erase_range (mem s) (a div 4096) 1"
    using er_law [OF assms(1) l assms(5)] unfolding d by auto
  obtain s2 where s2: "wr a bs s1 = Some s2" "ok s2" "mem s2 = prog_mem (\<lambda>_. False) (mem s1) a bs"
    using wr_law [OF s1(2) _ assms(5)] assms(5) l by auto
  have in_sector: "i div 4096 = a div 4096" if "a \<le> i" "i < a + length bs" for i
    using sector_of_range [OF assms(2,4) that] .
  have "mem s2 = (\<lambda>i. if a \<le> i \<and> i < a + length bs then bs ! (i - a)
      else if i div 4096 = a div 4096 then 0xFF else mem s i)"
    using in_sector by (intro ext) (auto simp: s2(3) s1(3) prog_mem_def erase_range_def)
  then show ?thesis using s1(1) s2(1,2) by blast
qed

end

text \<open>The layer provides it, for any chip that is \<open>chip_ok\<close>, once a table is chosen.\<close>

definition store_ok ::
  "(u16 \<Rightarrow> nat \<Rightarrow> bool) \<Rightarrow> 'c flash_env \<Rightarrow> flash_config_t \<Rightarrow> partition_table option \<Rightarrow> 'c flash_hal \<Rightarrow> bool" where
  "store_ok locked E cfg tbl s \<longleftrightarrow> chip_ok locked E cfg \<and> hal_ok E cfg s \<and> bk7231_partitions s = tbl"

definition store_read :: "'c flash_env \<Rightarrow> nat \<Rightarrow> nat \<Rightarrow> 'c flash_hal \<Rightarrow> (byte list \<times> 'c flash_hal) option" where
  "store_read E a n s = map_option (\<lambda>(st, bs, s). (bs, s)) (bk_flash_abs_addr_read E (of_nat a) (of_nat n) s)"

definition store_write :: "'c flash_env \<Rightarrow> nat \<Rightarrow> byte list \<Rightarrow> 'c flash_hal \<Rightarrow> 'c flash_hal option" where
  "store_write E a bs s = map_option snd (bk_flash_abs_addr_write E (of_nat a) bs (of_nat (length bs)) 0 s)"

definition store_erase :: "'c flash_env \<Rightarrow> nat \<Rightarrow> nat \<Rightarrow> 'c flash_hal \<Rightarrow> 'c flash_hal option" where
  "store_erase E a n s = map_option snd (bk_flash_abs_addr_erase E (of_nat a) (of_nat n) s)"

interpretation fs: nor_store "store_ok locked E cfg tbl" "hal_mem E" "unat (flash_size cfg)"
  "store_read E" "store_write E" "store_erase E"
  for locked :: "u16 \<Rightarrow> nat \<Rightarrow> bool" and E :: "'c flash_env" and cfg tbl
proof (unfold_locales, goal_cases)
  case (1 s a n)
  then have c: "chip_ok locked E cfg" "hal_ok E cfg s" "unat (flash_size cfg) \<le> 2 ^ 24" by (auto simp: store_ok_def chip_ok_def)
  then have "unat (of_nat a :: u32) = a" "unat (of_nat n :: u32) = n" using 1(2) by (auto intro!: unat_of_nat_small)
  then show ?case
    using abs_read_ok [OF c(1,2), of "of_nat a" "of_nat n"] c(3) 1
    by (auto simp: store_read_def store_ok_def same_layout_def)
next
  case (2 s a bs)
  then have c: "chip_ok locked E cfg" "hal_ok E cfg s" "unat (flash_size cfg) \<le> 2 ^ 24" by (auto simp: store_ok_def chip_ok_def)
  then have "unat (of_nat a :: u32) = a" "unat (of_nat (length bs) :: u32) = length bs"
    using 2(3) by (auto intro!: unat_of_nat_small)
  then show ?case
    using abs_write_ok [OF c(1,2), of "of_nat a" "of_nat (length bs)" bs] 2
    by (auto simp: store_write_def store_ok_def same_layout_def)
next
  case (3 s n a)
  then have c: "chip_ok locked E cfg" "hal_ok E cfg s" "unat (flash_size cfg) \<le> 2 ^ 24" by (auto simp: store_ok_def chip_ok_def)
  then have "unat (of_nat a :: u32) = a" "unat (of_nat n :: u32) = n" using 3(3) by (auto intro!: unat_of_nat_small)
  then show ?case
    using abs_erase_ok [OF c(1,2), of "of_nat n" "of_nat a"] 3
    by (auto simp: store_erase_def store_ok_def same_layout_def)
qed

section \<open>Access by partition\<close>

text \<open>The operations on a partition of the table in use are the operations at its start address.\<close>

lemma bk_flash_get_info_tbl:
  "bk7231_partitions s = Some tbl \<Longrightarrow> BkFlashPartitionIsValid C p \<noteq> 0 \<Longrightarrow> bk_flash_get_info C p s = Some (Some (tbl p))"
  by (simp add: bk_flash_get_info_def)

lemma partition_store:
  assumes "bk7231_partitions s = Some tbl" "BkFlashPartitionIsValid C p \<noteq> 0"
  shows "bk_flash_read C E p off True n s =
      bk_flash_abs_addr_read E (partition_start_addr (tbl p) + off) n s"
    "bk_flash_write C E p off (Some buf) n s = bk_flash_abs_addr_write E (partition_start_addr (tbl p) + off) buf n 0 s"
    "bk_flash_erase C E p off n s = bk_flash_abs_addr_erase E (partition_start_addr (tbl p) + off) n s"
  using bk_flash_get_info_tbl [OF assms]
  by (simp_all add: bk_flash_read_def bk_flash_write_def bk_flash_erase_def)

text \<open>
  (C8) \<open>bk_flash_write\<close> to a range of a partition inside the chip, on a chip with a two-byte status register, whatever
  the block protection was: the bytes of the range are programmed (old value AND new value) and no other byte of the
  flash changes. Afterwards the protection setting is the one of the type that \<open>bk_flash_get_security\<close> reported before:
  the same as before when it has a name, \<open>protect_all\<close> when it has none.
\<close>

theorem bk_flash_write_restores_protection:
  assumes "chip_ok locked E cfg" and "hal_ok E cfg s"
    and "bk7231_partitions s = Some tbl" and "BkFlashPartitionIsValid C p \<noteq> 0"
    and "a = unat (partition_start_addr (tbl p) + off)"
    and "a < unat (flash_size cfg)" and "a + unat n \<le> unat (flash_size cfg)" and "unat n \<le> length buf"
  shows "\<exists>s'. bk_flash_write C E p off (Some buf) n s = Some (kNoErr, s') \<and> hal_ok E cfg s'
    \<and> (\<forall>i. hal_mem E s' i = (if a \<le> i \<and> i < a + unat n then hal_mem E s i AND buf ! (i - a) else hal_mem E s i))
    \<and> hal_protect E cfg s' =
        (if protect_type cfg (hal_protect E cfg s) = PROTECT_OTHER then protect_all cfg else hal_protect E cfg s)"
proof -
  from abs_write_ok [OF assms(1,2), of "partition_start_addr (tbl p) + off" n buf] assms(5-8)
  obtain s' where "bk_flash_abs_addr_write E (partition_start_addr (tbl p) + off) buf n 0 s = Some (kNoErr, s')" "hal_ok E cfg s'"
    "hal_mem E s' = prog_mem (\<lambda>_. False) (hal_mem E s) a (take (unat n) buf)"
    "hal_protect E cfg s' = protect_setting cfg (protect_type cfg (hal_protect E cfg s))" by auto
  then show ?thesis
    unfolding partition_store(2) [OF assms(3,4)]
    using assms(8) protect_setting_type [of cfg "hal_protect E cfg s"] by (auto simp: prog_mem_def)
qed

definition sim_hal :: "((nat \<Rightarrow> byte) \<times> u16) flash_hal" where
  "sim_hal = \<lparr>hal_dev = sim_state, hal_dev_opened = False, hal_use_cnt = 0, bk7231_partitions = None, hal_flash_mutex = None\<rparr>"

definition sim_conf :: part_conf where
  "sim_conf = \<lparr>cfg_soc_name = SOC_BK7231U, cfg_support_matter = False, at_service_cfg = False,
     cfg_flash_selection = SELECTION_DYNAMIC\<rparr>"

definition sim_hal2 :: "((nat \<Rightarrow> byte) \<times> u16) flash_hal" where
  "sim_hal2 = sim_hal\<lparr>bk7231_partitions := Some (bk7231_partitions_2M sim_conf)\<rparr>"

lemma sim_chip_ok: "chip_ok (\<lambda>sr _. bit sr 6) sim_env sim_cfg"
proof -
  have two: "two_byte_cfg sim_cfg"
    by (rule flash_config_two_byte) (auto simp: sim_cfg_def flash_config_def mk_config_def)
  have "\<not> bit sr 6" if "protect_field sim_cfg sr = protect_none sim_cfg" for sr
  proof -
    have "\<not> bit (protect_field sim_cfg sr) 4" using that by (simp add: sim_cfg_def mk_config_def)
    then show ?thesis by (simp add: protect_field_bits [OF two])
  qed
  then show ?thesis
    using two sim_nor_chip sim_sr_writable by (simp add: chip_ok_def)
qed

lemma sim_hal_ok: "hal_ok sim_env sim_cfg sim_hal" "hal_ok sim_env sim_cfg sim_hal2"
  using sim_ready by (simp_all add: hal_ok_def sim_hal2_def sim_hal_def) (simp_all add: sim_state_def)

lemma sim_hal_simps [simp]: "hal_dev sim_hal2 = sim_state" "hal_dev sim_hal = sim_state"
  "bk7231_partitions sim_hal2 = Some (bk7231_partitions_2M sim_conf)" "cfg_soc_name sim_conf = SOC_BK7231U"
  "protect_field sim_cfg 0 = 0" "protect_type sim_cfg 0 = FLASH_PROTECT_NONE"
  by (simp_all add: sim_hal2_def sim_hal_def sim_conf_def protect_field_def protect_type_def sim_cfg_def mk_config_def)

theorem bk_flash_write_restores_protection_witness:
  "\<exists>s'. bk_flash_write sim_conf sim_env BK_PARTITION_NET_PARAM 4 (Some [1, 2, 3]) 3 sim_hal2 = Some (kNoErr, s')
    \<and> hal_mem sim_env s' 0x1e1003 = 0xFF \<and> hal_mem sim_env s' 0x1e1004 = 1
    \<and> hal_mem sim_env s' 0x1e1006 = 3 \<and> hal_mem sim_env s' 0x1e1007 = 0xFF"
proof -
  have "partition_start_addr (bk7231_partitions_2M sim_conf BK_PARTITION_NET_PARAM) = 0x1e1000" by (simp add: partition_def)
  then obtain s' where "bk_flash_write sim_conf sim_env BK_PARTITION_NET_PARAM 4 (Some [1, 2, 3]) 3 sim_hal2 = Some (kNoErr, s')"
    "\<forall>i. hal_mem sim_env s' i = (if 0x1e1004 \<le> i \<and> i < 0x1e1004 + unat (3 :: u32) then 0xFF AND [1, 2, 3] ! (i - 0x1e1004) else 0xFF)"
    using bk_flash_write_restores_protection [OF sim_chip_ok sim_hal_ok(2), of "bk7231_partitions_2M sim_conf" sim_conf
        BK_PARTITION_NET_PARAM "0x1e1004" 4 3 "[1, 2, 3]"] by auto
  then show ?thesis by simp
qed

text \<open>The update of a sector-aligned partition, by its erase and its write operation.\<close>

lemma partition_update:
  assumes "store_ok locked E cfg (Some tbl) s" and "BkFlashPartitionIsValid C p \<noteq> 0"
    and "unat (partition_start_addr (tbl p)) = a" and "a mod 4096 = 0"
    and "bs \<noteq> []" and "length bs \<le> 4096" and "a + length bs \<le> unat (flash_size cfg)"
  shows "\<exists>s1 s2. bk_flash_erase C E p 0 (of_nat (length bs)) s = Some (kNoErr, s1)
    \<and> bk_flash_write C E p 0 (Some bs) (of_nat (length bs)) s1 = Some (kNoErr, s2) \<and> store_ok locked E cfg (Some tbl) s2
    \<and> hal_mem E s2 = (\<lambda>i. if a \<le> i \<and> i < a + length bs then bs ! (i - a)
        else if i div 4096 = a div 4096 then 0xFF else hal_mem E s i)"
proof -
  define st where "st = partition_start_addr (tbl p)"
  have a: "of_nat a = st" using assms(3) by (simp add: st_def flip: assms(3))
  obtain s1 s2 where s: "store_erase E a (length bs) s = Some s1" "store_write E a bs s1 = Some s2" "store_ok locked E cfg (Some tbl) s2"
      "hal_mem E s2 = (\<lambda>i. if a \<le> i \<and> i < a + length bs then bs ! (i - a)
        else if i div 4096 = a div 4096 then 0xFF else hal_mem E s i)"
    using fs.update_sector [OF assms(1,4-7)] by blast
  obtain s1' where "store_erase E a (length bs) s = Some s1'" "store_ok locked E cfg (Some tbl) s1'"
    using fs.er_law [OF assms(1) _ assms(7)] assms(5) by auto
  then have t: "bk7231_partitions s = Some tbl" "bk7231_partitions s1 = Some tbl" using s(1) assms(1) by (auto simp: store_ok_def)
  have "bk_flash_abs_addr_erase E st (of_nat (length bs)) s = Some (kNoErr, s1)"
      "bk_flash_abs_addr_write E st bs (of_nat (length bs)) 0 s1 = Some (kNoErr, s2)"
    using s(1,2) unfolding store_erase_def store_write_def a by (auto dest: abs_status)
  then show ?thesis
    using s(3,4) partition_store(3) [OF t(1) assms(2), of E 0] partition_store(2) [OF t(2) assms(2), of E 0]
    by (auto simp: st_def)
qed

text \<open>
  (C27) Updating a record at the start of a sector-aligned partition, as the users of the layer do:
  erase, write, and read it back. The bytes come back, and nothing outside the sector changes.
\<close>

theorem bk_flash_update_roundtrip:
  assumes "chip_ok locked E cfg" and "hal_ok E cfg s"
    and "bk7231_partitions s = Some tbl" and "BkFlashPartitionIsValid C p \<noteq> 0"
    and "unat (partition_start_addr (tbl p)) = a" and "a mod 4096 = 0"
    and "bs \<noteq> []" and "length bs \<le> 4096" and "a + length bs \<le> unat (flash_size cfg)"
  shows "\<exists>s1 s2 s3. bk_flash_erase C E p 0 (of_nat (length bs)) s = Some (kNoErr, s1)
    \<and> bk_flash_write C E p 0 (Some bs) (of_nat (length bs)) s1 = Some (kNoErr, s2)
    \<and> bk_flash_read C E p 0 True (of_nat (length bs)) s2 = Some (kNoErr, bs, s3)
    \<and> (\<forall>i. i div 4096 \<noteq> a div 4096 \<longrightarrow> hal_mem E s3 i = hal_mem E s i)"
proof -
  have ok: "store_ok locked E cfg (Some tbl) s" using assms(1-3) by (simp add: store_ok_def)
  obtain s1 s2 where s: "bk_flash_erase C E p 0 (of_nat (length bs)) s = Some (kNoErr, s1)"
      "bk_flash_write C E p 0 (Some bs) (of_nat (length bs)) s1 = Some (kNoErr, s2)" "store_ok locked E cfg (Some tbl) s2"
      "hal_mem E s2 = (\<lambda>i. if a \<le> i \<and> i < a + length bs then bs ! (i - a)
        else if i div 4096 = a div 4096 then 0xFF else hal_mem E s i)"
    using partition_update [OF ok assms(4-9)] by blast
  have c: "chip_ok locked E cfg" "hal_ok E cfg s2" "bk7231_partitions s2 = Some tbl" "unat (flash_size cfg) \<le> 2 ^ 24"
    using s(3) by (auto simp: store_ok_def chip_ok_def)
  have n: "unat (of_nat (length bs) :: u32) = length bs" using assms(8) by (intro unat_of_nat_small) simp
  obtain s3 where s3: "bk_flash_abs_addr_read E (partition_start_addr (tbl p)) (of_nat (length bs)) s2
      = Some (kNoErr, mem_slice (hal_mem E s2) a (length bs), s3)" "hal_mem E s3 = hal_mem E s2"
    using abs_read_ok [OF c(1,2), of "partition_start_addr (tbl p)" "of_nat (length bs)"] n assms(5,9) c(4) by auto
  have "mem_slice (hal_mem E s2) a (length bs) = bs" by (rule nth_equalityI) (simp_all add: s(4))
  then have "bk_flash_read C E p 0 True (of_nat (length bs)) s2 = Some (kNoErr, bs, s3)"
    using s3(1) partition_store(1) [OF c(3) assms(4), of E 0] by simp
  moreover have "hal_mem E s3 i = hal_mem E s i" if "i div 4096 \<noteq> a div 4096" for i
    using that sector_of_range [OF assms(6,8), of i] by (auto simp: s3(2) s(4))
  ultimately show ?thesis using s(1,2) by blast
qed

theorem bk_flash_update_roundtrip_witness:
  "\<exists>s1 s2 s3. bk_flash_erase sim_conf sim_env BK_PARTITION_NET_PARAM 0 5 sim_hal2 = Some (kNoErr, s1)
    \<and> bk_flash_write sim_conf sim_env BK_PARTITION_NET_PARAM 0 (Some [1, 2, 3, 4, 5]) 5 s1 = Some (kNoErr, s2)
    \<and> bk_flash_read sim_conf sim_env BK_PARTITION_NET_PARAM 0 True 5 s2 = Some (kNoErr, [1, 2, 3, 4, 5], s3)"
proof -
  have "unat (partition_start_addr (bk7231_partitions_2M sim_conf BK_PARTITION_NET_PARAM)) = 0x1e1000"
    by (simp add: partition_def)
  then show ?thesis
    using bk_flash_update_roundtrip [OF sim_chip_ok sim_hal_ok(2), of "bk7231_partitions_2M sim_conf" sim_conf
        BK_PARTITION_NET_PARAM "0x1e1000" "[1, 2, 3, 4, 5]"] by (simp del: bk7231_partitions_2M.simps) blast
qed

section \<open>The tables\<close>

definition part_end :: "bk_logic_partition_t \<Rightarrow> nat" where
  "part_end pt = unat (partition_start_addr pt) + unat (partition_length pt)"

definition disjoint_parts :: "bk_logic_partition_t \<Rightarrow> bk_logic_partition_t \<Rightarrow> bool" where
  "disjoint_parts p q \<longleftrightarrow> part_end p \<le> unat (partition_start_addr q) \<or> part_end q \<le> unat (partition_start_addr p)"

lemma all_partitions:
  "(\<forall>p. P p) \<longleftrightarrow> P BK_PARTITION_BOOTLOADER \<and> P BK_PARTITION_APPLICATION \<and> P BK_PARTITION_OTA \<and> P BK_PARTITION_RF_FIRMWARE
     \<and> P BK_PARTITION_NET_PARAM \<and> P BK_PARTITION_USR_CONFIG \<and> P BK_PARTITION_MATTER_FLASH
     \<and> P BK_PARTITION_MATTER_FACTORY_FLASH \<and> P BK_PARTITION_BLE_SVR_CONFIG \<and> P BK_PARTITION_BLE_BONDING_FLASH \<and> P BK_PARTITION_MAX"
  (is "_ \<longleftrightarrow> ?A")
proof (intro iffI allI)
  fix p assume ?A
  then show "P p" by (cases p) simp_all
qed simp

text \<open>A table: sector-aligned partitions inside the chip, and no two that are configured overlap.\<close>

definition table_ok :: "nat \<Rightarrow> partition_table \<Rightarrow> bool" where
  "table_ok cap tbl \<longleftrightarrow>
     (\<forall>p. part_end (tbl p) \<le> cap \<and> unat (partition_start_addr (tbl p)) mod 4096 = 0 \<and> unat (partition_length (tbl p)) mod 4096 = 0)
   \<and> (\<forall>p q. p \<noteq> q \<and> partition_length (tbl p) \<noteq> 0 \<and> partition_length (tbl q) \<noteq> 0 \<longrightarrow> disjoint_parts (tbl p) (tbl q))"

lemma table_1M: "table_ok 0x100000 (bk7231_partitions_1M C)"
  unfolding table_ok_def all_partitions by (simp add: partition_def no_partition_def part_end_def disjoint_parts_def)

lemma table_2M: "cfg_soc_name C \<noteq> SOC_BK7231N \<Longrightarrow> table_ok 0x200000 (bk7231_partitions_2M C)"
  unfolding table_ok_def all_partitions by (simp add: partition_def no_partition_def part_end_def disjoint_parts_def)

lemma table_4M: "table_ok 0x400000 (bk7231_partitions_4M C)"
  unfolding table_ok_def all_partitions by (simp add: partition_def no_partition_def part_end_def disjoint_parts_def)

lemma table_8M: "table_ok 0x800000 (bk7231_partitions_8M C)"
  unfolding table_ok_def all_partitions by (simp add: partition_def no_partition_def part_end_def disjoint_parts_def)

text \<open>
  The partition tables of the four flash sizes, for every configuration except a BK7231N with
  2 MiB: every partition is made of whole sectors, lies inside the flash, and no two configured
  partitions overlap.
\<close>

theorem partition_tables_disjoint:
  "table_ok 0x100000 (bk7231_partitions_1M C)
   \<and> (cfg_soc_name C \<noteq> SOC_BK7231N \<longrightarrow> table_ok 0x200000 (bk7231_partitions_2M C))
   \<and> table_ok 0x400000 (bk7231_partitions_4M C) \<and> table_ok 0x800000 (bk7231_partitions_8M C)"
  using table_1M table_2M table_4M table_8M by blast

theorem partition_tables_disjoint_witness:
  "table_ok 0x200000 (bk7231_partitions_2M sim_conf)"
  using partition_tables_disjoint [of sim_conf] by simp

text \<open>
  On a BK7231N with 2 MiB the sectors of the RF calibration and of the network parameters lie
  inside the OTA partition: an update image that fills its partition overwrites both.
\<close>

theorem bk7231n_ota_overlaps:
  assumes "cfg_soc_name C = SOC_BK7231N" and "p = BK_PARTITION_RF_FIRMWARE \<or> p = BK_PARTITION_NET_PARAM"
  shows "unat (partition_start_addr (bk7231_partitions_2M C BK_PARTITION_OTA)) < unat (partition_start_addr (bk7231_partitions_2M C p))
    \<and> part_end (bk7231_partitions_2M C p) < part_end (bk7231_partitions_2M C BK_PARTITION_OTA)"
  using assms by (auto simp: partition_def part_end_def)

theorem bk7231n_ota_overlaps_witness:
  "part_end (bk7231_partitions_2M (sim_conf\<lparr>cfg_soc_name := SOC_BK7231N\<rparr>) BK_PARTITION_NET_PARAM)
    < part_end (bk7231_partitions_2M (sim_conf\<lparr>cfg_soc_name := SOC_BK7231N\<rparr>) BK_PARTITION_OTA)"
  using bk7231n_ota_overlaps [of "sim_conf\<lparr>cfg_soc_name := SOC_BK7231N\<rparr>" BK_PARTITION_NET_PARAM] by simp

text \<open>
  Start-up with the flash size read from the chip: \<open>hal_flash_init\<close> succeeds and installs a
  table that fits the chip, for every chip of at least 1 MiB, except on a BK7231N.
\<close>

theorem hal_flash_init_table_fits:
  assumes "chip_ok locked E cfg" and "hal_ok E cfg s" and "cfg_flash_selection C = SELECTION_DYNAMIC"
    and "cfg_soc_name C \<noteq> SOC_BK7231N" and "unat (flash_size cfg) \<ge> 0x100000"
  shows "\<exists>s' tbl. hal_flash_init C E 0 s = Some (kNoErr, s') \<and> hal_ok E cfg s' \<and> bk7231_partitions s' = Some tbl
    \<and> hal_flash_mutex s' = Some False \<and> hal_mem E s' = hal_mem E s \<and> table_ok (unat (flash_size cfg)) tbl"
proof -
  have chip: "nor_chip locked (env_chip E)" using assms(1) by (simp add: chip_ok_def)
  obtain t where t: "flash_ddev_open s = Some t" "hal_ok E cfg t" "hal_dev t = hal_dev s"
    using flash_open_ok [OF assms(2)] by blast
  let ?d = "hal_dev t"
  have "\<exists>d'. flash_ctrl E CMD_FLASH_GET_SIZE (PARM_U32 0x200000) ?d = Some (FLASH_SUCCESS, PARM_U32 (flash_size cfg), d')
      \<and> flash_ready cfg d' \<and> (fl_mem E d' = fl_mem E ?d \<and> bypass_ok E (flash_wr_sr_bypass d'))"
  proof (rule flash_ctrl_ok [OF chip])
    show "flash_ready cfg ?d" using t(2) by (simp add: hal_ok_def)
    fix u assume "quiet E cfg (?d\<lparr>peri_busy := peri_busy ?d + 1\<rparr>) u"
    then have "flash_ready cfg u" "fl_mem E u = fl_mem E ?d" "bypass_ok E (flash_wr_sr_bypass u)"
      using t(2) by (auto simp: quiet_def hal_ok_def)
    then show "\<exists>v. flash_ctrl_switch E CMD_FLASH_GET_SIZE (PARM_U32 0x200000) u = Some (FLASH_SUCCESS, PARM_U32 (flash_size cfg), v)
        \<and> flash_ready cfg v \<and> fl_mem E v = fl_mem E ?d \<and> bypass_ok E (flash_wr_sr_bypass v)"
      by (simp add: flash_ctrl_switch_def flash_get_size_def flash_ready_def)
  qed (simp add: quiet_def)
  then obtain d' where d': "flash_ctrl E CMD_FLASH_GET_SIZE (PARM_U32 0x200000) ?d = Some (FLASH_SUCCESS, PARM_U32 (flash_size cfg), d')"
    "flash_ready cfg d'" "fl_mem E d' = fl_mem E ?d" "bypass_ok E (flash_wr_sr_bypass d')" by blast
  have "table_ok (unat (flash_size cfg)) (partitions_for_size C (flash_size cfg))"
    unfolding partitions_for_size_def
    using assms(4,5) table_1M [of C] table_2M [of C] table_4M [of C] table_8M [of C]
    by (auto simp: table_ok_def word_le_nat_alt intro: order_trans)
  then show ?thesis
    using t flash_control_ok [OF d'(1)] d' assms(3) by (auto simp: hal_flash_init_def hal_ok_def)
qed

theorem hal_flash_init_table_fits_witness:
  "\<exists>s' tbl. hal_flash_init sim_conf sim_env 0 sim_hal = Some (kNoErr, s') \<and> bk7231_partitions s' = Some tbl
    \<and> table_ok 0x200000 tbl"
  using hal_flash_init_table_fits [OF sim_chip_ok sim_hal_ok(1), of sim_conf] by (auto simp: sim_conf_def)

section \<open>Partitions that the table leaves out\<close>

lemma erase_sector_keeps_erased:
  assumes chip: "nor_chip locked (env_chip E)" and ready: "flash_ready cfg s" and lim: "unat (flash_size cfg) \<le> 2 ^ 24"
  shows "\<exists>s'. flash_erase_sector E a s = Some s' \<and> flash_ready cfg s' \<and> fl_sr E s' = fl_sr E s
    \<and> flash_wr_sr_bypass s' = flash_wr_sr_bypass s \<and> (\<forall>i. fl_mem E s i = 0xFF \<longrightarrow> fl_mem E s' i = 0xFF)"
proof -
  define m where "m = a AND 0xFFF000"
  have eq: "flash_erase_sector E a s = flash_erase_sector E m s" by (simp add: flash_erase_sector_def m_def and.assoc)
  show ?thesis
  proof (cases "unat m < unat (flash_size cfg)")
    case True
    then show ?thesis using flash_erase_sector_ok [OF chip ready _ lim] unfolding eq by (fastforce simp: erase_mem_def)
  next
    case False
    then have "flash_erase_sector E a s = Some s"
      using ready by (simp add: flash_erase_sector_def flash_ready_def m_def word_le_nat_alt)
    then show ?thesis using ready by simp
  qed
qed

lemma erase_sector_any:
  assumes "chip_ok locked E cfg" "hal_ok E cfg s" "hal_protect E cfg s = protect_none cfg"
  shows "\<exists>s'. flash_ddev_control E CMD_FLASH_ERASE_SECTOR (PARM_U32 a) s = Some (FLASH_SUCCESS, PARM_U32 a, s')
    \<and> hal_ok E cfg s' \<and> hal_protect E cfg s' = protect_none cfg
    \<and> (\<forall>i. hal_mem E s i = 0xFF \<longrightarrow> hal_mem E s' i = 0xFF)"
proof -
  have c: "nor_chip locked (env_chip E)" "unat (flash_size cfg) \<le> 2 ^ 24" using assms(1) by (auto simp: chip_ok_def)
  have r: "flash_ready cfg (hal_dev s)" "bypass_ok E (flash_wr_sr_bypass (hal_dev s))" using assms(2) by (auto simp: hal_ok_def)
  let ?d = "hal_dev s"
  have "\<exists>d'. flash_ctrl E CMD_FLASH_ERASE_SECTOR (PARM_U32 a) ?d = Some (FLASH_SUCCESS, PARM_U32 a, d')
      \<and> flash_ready cfg d' \<and> ((\<forall>i. fl_mem E ?d i = 0xFF \<longrightarrow> fl_mem E d' i = 0xFF)
        \<and> fl_sr E d' = fl_sr E ?d \<and> bypass_ok E (flash_wr_sr_bypass d'))"
  proof (rule flash_ctrl_ok [OF c(1) r(1)])
    fix u assume "quiet E cfg (?d\<lparr>peri_busy := peri_busy ?d + 1\<rparr>) u"
    then have u: "flash_ready cfg u" "fl_sr E u = fl_sr E ?d" "fl_mem E u = fl_mem E ?d" "bypass_ok E (flash_wr_sr_bypass u)"
      using r(2) by (auto simp: quiet_def)
    from erase_sector_keeps_erased [OF c(1) u(1) c(2)]
    show "\<exists>v. flash_ctrl_switch E CMD_FLASH_ERASE_SECTOR (PARM_U32 a) u = Some (FLASH_SUCCESS, PARM_U32 a, v) \<and> flash_ready cfg v
        \<and> (\<forall>i. fl_mem E ?d i = 0xFF \<longrightarrow> fl_mem E v i = 0xFF) \<and> fl_sr E v = fl_sr E ?d \<and> bypass_ok E (flash_wr_sr_bypass v)"
      using u by (fastforce simp: flash_ctrl_switch_def)
  qed (simp add: quiet_def)
  then show ?thesis
    using assms(3) flash_control_ok [of E CMD_FLASH_ERASE_SECTOR "PARM_U32 a" s] by (auto simp: hal_ok_def)
qed

lemma erase_sectors_any:
  assumes "chip_ok locked E cfg"
  shows "hal_ok E cfg s \<Longrightarrow> hal_protect E cfg s = protect_none cfg \<Longrightarrow>
   \<exists>s'. erase_sectors E n i s = Some s' \<and> hal_ok E cfg s' \<and> (\<forall>x. hal_mem E s x = 0xFF \<longrightarrow> hal_mem E s' x = 0xFF)"
proof (induction n arbitrary: i s)
  case (Suc n)
  obtain s1 where s1: "flash_ddev_control E CMD_FLASH_ERASE_SECTOR (PARM_U32 (push_bit 12 i)) s
        = Some (FLASH_SUCCESS, PARM_U32 (push_bit 12 i), s1)" "hal_ok E cfg s1"
      "hal_protect E cfg s1 = protect_none cfg" "\<forall>x. hal_mem E s x = 0xFF \<longrightarrow> hal_mem E s1 x = 0xFF"
    using erase_sector_any [OF assms Suc.prems, of "push_bit 12 i"] by auto
  from Suc.IH [OF s1(2,3), of "i + 1"] show ?case using s1(1,4) by auto
qed simp

lemma erase_sectors_split:
  "erase_sectors E (m + n) i s = erase_sectors E m i s \<bind> erase_sectors E n (i + of_nat m)"
proof (induction m arbitrary: i s)
  case (Suc m)
  show ?case
    by (cases "flash_ddev_control E CMD_FLASH_ERASE_SECTOR (PARM_U32 (push_bit 12 i)) s")
      (auto simp: Suc add.assoc split: prod.splits)
qed simp

text \<open>
  A partition that the table leaves out has start address 0 and length 0, and is accepted all
  the same: erasing it by the length of its entry wraps around in the computation of the last
  sector and erases the whole flash, boot loader included.
\<close>

theorem bk_flash_erase_unset_partition:
  assumes "chip_ok locked E cfg" and "hal_ok E cfg s" and "0 < unat (flash_size cfg)"
    and "bk7231_partitions s = Some tbl" and "BkFlashPartitionIsValid C p \<noteq> 0" and "tbl p = no_partition"
  shows "\<exists>s'. bk_flash_erase C E p 0 (partition_length (tbl p)) s = Some (kNoErr, s')
    \<and> (\<forall>i < unat (flash_size cfg). hal_mem E s' i = 0xFF)"
proof -
  let ?t = "protect_type cfg (hal_protect E cfg s)" and ?sz = "unat (flash_size cfg)"
  have lim: "?sz \<le> 2 ^ 24" using assms(1) by (simp add: chip_ok_def)
  define n where "n = (?sz - 1) div 4096 + 1"
  have n: "n \<noteq> 0 \<longrightarrow> (unat (0 :: u32) + n - 1) * 4096 < ?sz" "n \<le> 2 ^ 20"
    using assms(3) lim div_times_less_eq_dividend [of "?sz - 1" 4096] by (simp_all add: n_def)
  obtain s1 where s1: "flash_ddev_open s = Some s1" "hal_ok E cfg s1" "hal_dev s1 = hal_dev s"
    using flash_open_ok [OF assms(2)] by blast
  obtain s2 where s2: "bk_flash_get_security E s1 = Some (kNoErr, ?t, s2)" "hal_ok E cfg s2"
    using get_security_ok [OF assms(1) s1(2)] s1(3) by auto
  obtain s3 where s3: "bk_flash_enable_security E FLASH_PROTECT_NONE s2 = Some (kNoErr, s3)" "hal_ok E cfg s3"
      "hal_protect E cfg s3 = protect_none cfg"
    using enable_security_ok [OF assms(1) s2(2), of FLASH_PROTECT_NONE] by auto
  obtain s4 where s4: "erase_sectors E n 0 s3 = Some s4" "hal_ok E cfg s4" "hal_protect E cfg s4 = protect_none cfg"
      "hal_mem E s4 = erase_range (hal_mem E s3) 0 n"
    using erase_sectors_ok [OF assms(1) s3(2,3) n(1)] by auto
  obtain s5 where s5: "erase_sectors E (2 ^ 20 - n) (of_nat n) s4 = Some s5" "hal_ok E cfg s5"
      "\<forall>x. hal_mem E s4 x = 0xFF \<longrightarrow> hal_mem E s5 x = 0xFF"
    using erase_sectors_any [OF assms(1) s4(2,3)] by blast
  obtain s6 where s6: "bk_flash_enable_security E ?t s5 = Some (kNoErr, s6)" "hal_mem E s6 = hal_mem E s5"
    using enable_security_ok [OF assms(1) s5(2), of ?t] by blast
  have e: "erase_sectors E (2 ^ 20) 0 s3 = Some s5"
    using erase_sectors_split [of E n "2 ^ 20 - n" 0 s3] s4(1) s5(1) n(2) by simp
  have "unat (drop_bit 12 (- 1 :: u32)) + 1 - unat (drop_bit 12 (0 :: u32)) = 2 ^ 20"
    by (simp add: sector_number mask_eq_exp_minus_1)
  then have "bk_flash_erase C E p 0 (partition_length (tbl p)) s = Some (kNoErr, s6)"
    unfolding partition_store(3) [OF assms(4,5)] bk_flash_abs_addr_erase_def
    using assms(6) s1(1) s2(1) s3(1) e s6(1) by (simp add: no_partition_def)
  moreover have "hal_mem E s6 i = 0xFF" if "i < ?sz" for i
  proof -
    have "i div 4096 \<le> (?sz - 1) div 4096" using that by (intro div_le_mono) simp
    then have "hal_mem E s4 i = 0xFF" by (simp add: s4(4) erase_range_def n_def)
    then show ?thesis using s5(3) s6(2) by simp
  qed
  ultimately show ?thesis by blast
qed

theorem bk_flash_erase_unset_partition_witness:
  "\<exists>s'. bk_flash_erase sim_conf sim_env BK_PARTITION_USR_CONFIG 0 0
        (sim_hal2\<lparr>hal_dev := sim_state\<lparr>chip_st := (\<lambda>_. 0, 0)\<rparr>\<rparr>) = Some (kNoErr, s')
    \<and> hal_mem sim_env s' 0 = 0xFF"
proof -
  have u: "bk7231_partitions_2M sim_conf BK_PARTITION_USR_CONFIG = no_partition" "partition_length no_partition = 0"
    by (simp_all add: sim_conf_def no_partition_def)
  have "hal_ok sim_env sim_cfg (sim_hal2\<lparr>hal_dev := sim_state\<lparr>chip_st := (\<lambda>_. 0, 0)\<rparr>\<rparr>)"
    by (simp add: hal_ok_def flash_ready_def) (simp add: sim_state_def)
  from bk_flash_erase_unset_partition [OF sim_chip_ok this, of "bk7231_partitions_2M sim_conf" sim_conf BK_PARTITION_USR_CONFIG]
  show ?thesis using u by (auto simp del: bk7231_partitions_2M.simps)
qed
end
