(* ===== verification/Net_Param.thy ===== *)
theory Net_Param
  imports Flash_Partition_Props
begin

text \<open>
  The network parameters, \<open>func/net_param_intf/net_param.c\<close>: a type-length-value table in one
  sector of the flash, with an item for the MAC address, the SSID and key, the IP configuration
  and so on.

  A buffer argument is \<open>None\<close> for \<open>NULL\<close> and otherwise the memory behind the pointer: reading
  more bytes from it, or storing more bytes into it, than it has is \<open>None\<close>. The flag \<open>mem\<close> of
  \<open>save_info_item\<close> says that \<open>os_zalloc\<close> succeeds.
\<close>

section \<open>Items\<close>

type_synonym NET_INFO_ITEM = u32

definition INFO_TLV_HEADER :: u32 where "INFO_TLV_HEADER = 0x00564c54"
definition AUTO_CONNECT_ITEM :: NET_INFO_ITEM where "AUTO_CONNECT_ITEM = 0x11111111"
definition WIFI_MODE_ITEM :: NET_INFO_ITEM where "WIFI_MODE_ITEM = 0x22222222"
definition DHCP_MODE_ITEM :: NET_INFO_ITEM where "DHCP_MODE_ITEM = 0x33333333"
definition WIFI_MAC_ITEM :: NET_INFO_ITEM where "WIFI_MAC_ITEM = 0x44444444"
definition SSID_KEY_ITEM :: NET_INFO_ITEM where "SSID_KEY_ITEM = 0x55555555"
definition IP_CONFIG_ITEM :: NET_INFO_ITEM where "IP_CONFIG_ITEM = 0x66666666"
definition RF_CFG_TSSI_ITEM :: NET_INFO_ITEM where "RF_CFG_TSSI_ITEM = 0x77777777"
definition RF_CFG_DIST_ITEM :: NET_INFO_ITEM where "RF_CFG_DIST_ITEM = 0x88888888"
definition RF_CFG_MODE_ITEM :: NET_INFO_ITEM where "RF_CFG_MODE_ITEM = 0x99999999"
definition CHARGE_CONFIG_ITEM :: NET_INFO_ITEM where "CHARGE_CONFIG_ITEM = 0xaaaaaaaa"
definition RF_CFG_TSSI_B_ITEM :: NET_INFO_ITEM where "RF_CFG_TSSI_B_ITEM = 0xbbbbbbbb"
definition RF_CFG_TSSI_N20_ITEM :: NET_INFO_ITEM where "RF_CFG_TSSI_N20_ITEM = 0xcccccccc"
definition RF_CFG_TSSI_N40_ITEM :: NET_INFO_ITEM where "RF_CFG_TSSI_N40_ITEM = 0xdddddddd"

lemmas item_defs = AUTO_CONNECT_ITEM_def WIFI_MODE_ITEM_def DHCP_MODE_ITEM_def WIFI_MAC_ITEM_def SSID_KEY_ITEM_def
  IP_CONFIG_ITEM_def RF_CFG_TSSI_ITEM_def RF_CFG_DIST_ITEM_def RF_CFG_MODE_ITEM_def CHARGE_CONFIG_ITEM_def
  RF_CFG_TSSI_B_ITEM_def RF_CFG_TSSI_N20_ITEM_def RF_CFG_TSSI_N40_ITEM_def

text \<open>\<open>INFO_ITEM_ST\<close> and \<open>TLV_HEADER_ST\<close>, and their layout in memory.\<close>

record INFO_ITEM_ST =
  it_type :: u32
  it_len :: u32

definition head_of :: "byte list \<Rightarrow> INFO_ITEM_ST" where
  "head_of bs = \<lparr>it_type = le32 (take 4 bs), it_len = le32 (take 4 (drop 4 bs))\<rparr>"

definition head_bytes :: "INFO_ITEM_ST \<Rightarrow> byte list" where
  "head_bytes h = bytes32 (it_type h) @ bytes32 (it_len h)"

text \<open>The items whose value is one word, in the order of the \<open>case\<close> labels.\<close>

definition comm_items :: "NET_INFO_ITEM list" where
  "comm_items = [AUTO_CONNECT_ITEM, WIFI_MODE_ITEM, DHCP_MODE_ITEM, RF_CFG_TSSI_ITEM, RF_CFG_DIST_ITEM,
     RF_CFG_MODE_ITEM, RF_CFG_TSSI_B_ITEM, RF_CFG_TSSI_N20_ITEM, RF_CFG_TSSI_N40_ITEM]"

text \<open>The sizes of \<open>ITEM_COMM_ST\<close>, \<open>ITEM_MAC_ADDR_ST\<close>, \<open>ITEM_CHARGE_ST\<close>, \<open>ITEM_SSIDKEY_ST\<close>, \<open>ITEM_IP_CONFIG_ST\<close>.\<close>

definition info_item_len :: "NET_INFO_ITEM \<Rightarrow> u32" where
  "info_item_len item =
     (if item \<in> set comm_items then 12
      else if item = WIFI_MAC_ITEM then 16
      else if item = CHARGE_CONFIG_ITEM then 12
      else if item = SSID_KEY_ITEM then 104
      else if item = IP_CONFIG_ITEM then 56
      else 12)"

section \<open>Searching\<close>

text \<open>\<open>pt->partition_start_addr\<close> of the network parameters; a table is in use.\<close>

definition net_start :: "part_conf \<Rightarrow> 'c flash_hal \<Rightarrow> u32 option" where
  "net_start C s = do {
     info \<leftarrow> bk_flash_get_info C BK_PARTITION_NET_PARAM s;
     pt \<leftarrow> info;
     Some (partition_start_addr pt) }"

text \<open>The result, \<open>*cfg_len\<close> and, if \<open>buf\<close> is set, the bytes stored in the buffer.\<close>

definition search_info_tbl ::
  "part_conf \<Rightarrow> 'c flash_env \<Rightarrow> bool \<Rightarrow> 'c flash_hal \<Rightarrow> (u32 \<times> u32 \<times> byte list \<times> 'c flash_hal) option" where
  "search_info_tbl C E buf s = do {
     start \<leftarrow> net_start C s;
     s \<leftarrow> flash_ddev_open s;
     (bs, s) \<leftarrow> flash_ddev_read E 8 start s;
     let head = head_of bs;
     if it_type head = INFO_TLV_HEADER then do {
       let cfg_len = it_len head + 8;
       (out, s) \<leftarrow> (if buf then flash_ddev_read E cfg_len start s else Some ([], s));
       Some (1, cfg_len, out, flash_ddev_close s) }
     else Some (0, 0, [], flash_ddev_close s) }"

text \<open>The loop of \<open>search_info_item\<close>; the address wraps, so that it need not end.\<close>

partial_function (option) search_item_loop ::
  "'c flash_env \<Rightarrow> NET_INFO_ITEM \<Rightarrow> u32 \<Rightarrow> u32 \<Rightarrow> 'c flash_hal \<Rightarrow> (u32 \<times> 'c flash_hal) option" where
  "search_item_loop E type addr end_addr s =
     (if addr < end_addr then
        flash_ddev_read E 8 addr s \<bind>
          (\<lambda>(bs, s). if type \<noteq> it_type (head_of bs)
             then search_item_loop E type (addr + 8 + it_len (head_of bs)) end_addr s
             else Some (addr, s))
      else Some (addr, s))"

definition search_info_item ::
  "'c flash_env \<Rightarrow> NET_INFO_ITEM \<Rightarrow> u32 \<Rightarrow> 'c flash_hal \<Rightarrow> (u32 \<times> 'c flash_hal) option" where
  "search_info_item E type start_addr s = do {
     s \<leftarrow> flash_ddev_open s;
     (bs, s) \<leftarrow> flash_ddev_read E 8 start_addr s;
     let addr = start_addr + 8;
     let end_addr = addr + it_len (head_of bs);
     (addr, s) \<leftarrow> search_item_loop E type addr end_addr s;
     Some (if addr \<ge> end_addr then 0 else addr, flash_ddev_close s) }"

section \<open>Reading an item\<close>

text \<open>\<open>ddev_read\<close> into the buffer \<open>ptr\<close>.\<close>

definition read_into ::
  "'c flash_env \<Rightarrow> byte list \<Rightarrow> u32 \<Rightarrow> u32 \<Rightarrow> 'c flash_hal \<Rightarrow> (byte list \<times> 'c flash_hal) option" where
  "read_into E ptr count addr s = do {
     (bs, s) \<leftarrow> flash_ddev_read E count addr s;
     ptr \<leftarrow> buf_put ptr 0 bs;
     Some (ptr, s) }"

type_synonym ptrs3 = "byte list option \<times> byte list option \<times> byte list option"

text \<open>The \<open>switch\<close> of \<open>get_info_item\<close>, for the item whose value starts at \<open>addr\<close> and has \<open>len\<close> bytes.\<close>

definition read_item ::
  "'c flash_env \<Rightarrow> NET_INFO_ITEM \<Rightarrow> ptrs3 \<Rightarrow> u32 \<Rightarrow> u32 \<Rightarrow> 'c flash_hal \<Rightarrow> (u32 \<times> ptrs3 \<times> 'c flash_hal) option" where
  "read_item E item ptrs len addr s =
     (if item \<in> set comm_items \<or> item = WIFI_MAC_ITEM \<or> item = CHARGE_CONFIG_ITEM then
        (case ptrs of
           (Some ptr0, p1, p2) \<Rightarrow> do {
             (ptr0, s) \<leftarrow> read_into E ptr0 len addr s;
             Some (1, (Some ptr0, p1, p2), s) }
         | _ \<Rightarrow> Some (0, ptrs, s))
      else if item = SSID_KEY_ITEM then
        (case ptrs of
           (Some ptr0, Some ptr1, p2) \<Rightarrow> do {
             (ptr0, s) \<leftarrow> read_into E ptr0 32 addr s;
             (ptr1, s) \<leftarrow> read_into E ptr1 64 (addr + 32) s;
             Some (1, (Some ptr0, Some ptr1, p2), s) }
         | _ \<Rightarrow> Some (0, ptrs, s))
      else if item = IP_CONFIG_ITEM then
        (case ptrs of
           (Some ptr0, Some ptr1, Some ptr2) \<Rightarrow> do {
             (ptr0, s) \<leftarrow> read_into E ptr0 16 addr s;
             (ptr1, s) \<leftarrow> read_into E ptr1 16 (addr + 16) s;
             (ptr2, s) \<leftarrow> read_into E ptr2 16 (addr + 16 + 16) s;
             Some (1, (Some ptr0, Some ptr1, Some ptr2), s) }
         | _ \<Rightarrow> Some (0, ptrs, s))
      else Some (0, ptrs, s))"

definition get_info_item ::
  "part_conf \<Rightarrow> 'c flash_env \<Rightarrow> NET_INFO_ITEM \<Rightarrow> ptrs3 \<Rightarrow> 'c flash_hal \<Rightarrow> (u32 \<times> ptrs3 \<times> 'c flash_hal) option" where
  "get_info_item C E item ptrs s = do {
     (found, len, _, s) \<leftarrow> search_info_tbl C E False s;
     if found = 0 then Some (0, ptrs, s)
     else do {
       start \<leftarrow> net_start C s;
       (addr_start, s) \<leftarrow> search_info_item E item start s;
       if addr_start = 0 then Some (0, ptrs, s)
       else do {
         s \<leftarrow> flash_ddev_open s;
         (bs, s) \<leftarrow> flash_ddev_read E 8 addr_start s;
         (ret, ptrs, s) \<leftarrow> read_item E item ptrs (it_len (head_of bs)) (addr_start + 8) s;
         Some (ret, ptrs, flash_ddev_close s) } } }"

section \<open>Saving an item\<close>

text \<open>\<open>os_memcpy(item_buf + off, ptr, n)\<close>.\<close>

definition copy_from :: "byte list option \<Rightarrow> nat \<Rightarrow> nat \<Rightarrow> byte list \<Rightarrow> byte list option" where
  "copy_from ptr n off buf = do { src \<leftarrow> ptr; bs \<leftarrow> buf_get src 0 n; buf_put buf off bs }"

text \<open>The size of \<open>chrg\<close> in \<open>ITEM_CHARGE_ST\<close>.\<close>

definition chrg_len :: "part_conf \<Rightarrow> nat" where
  "chrg_len C = (if cfg_soc_name C = SOC_BK7221U then 4 else 3)"

text \<open>The \<open>switch\<close> of \<open>save_info_item\<close>: the value is copied to \<open>item_buf\<close>, at offset \<open>off\<close>.\<close>

definition fill_item :: "part_conf \<Rightarrow> NET_INFO_ITEM \<Rightarrow> ptrs3 \<Rightarrow> nat \<Rightarrow> byte list \<Rightarrow> byte list option" where
  "fill_item C item ptrs off buf =
     (case ptrs of (ptr0, ptr1, ptr2) \<Rightarrow>
        if item \<in> set comm_items then copy_from ptr0 4 off buf
        else if item = WIFI_MAC_ITEM then copy_from ptr0 6 off buf
        else if item = SSID_KEY_ITEM then copy_from ptr0 32 off buf \<bind> copy_from ptr1 64 (off + 32)
        else if item = IP_CONFIG_ITEM then
          copy_from ptr0 16 off buf \<bind> copy_from ptr1 16 (off + 16) \<bind> copy_from ptr2 16 (off + 32)
        else if item = CHARGE_CONFIG_ITEM then copy_from ptr0 (chrg_len C) off buf
        else copy_from ptr0 4 off buf)"

text \<open>The buffer with the new table, up to the call of the flash functions.\<close>

definition build_tbl ::
  "part_conf \<Rightarrow> 'c flash_env \<Rightarrow> bool \<Rightarrow> NET_INFO_ITEM \<Rightarrow> u32 \<Rightarrow> 'c flash_hal
     \<Rightarrow> ((byte list \<times> u32 \<times> u32) option \<times> 'c flash_hal) option" where
  "build_tbl C E mem item start s = do {
     let item_len = info_item_len item;
     (found, cfg_tbl_len, _, s) \<leftarrow> search_info_tbl C E False s;
     if found = 0 then
       Some (if mem then Some (replicate (unat (8 + item_len)) 0, 8, item_len) else None, s)
     else do {
       (addr_offset, s) \<leftarrow> search_info_item E item start s;
       let (off, len) = (if addr_offset = 0 then (cfg_tbl_len, cfg_tbl_len + item_len)
                         else (addr_offset - start, cfg_tbl_len));
       if \<not> mem then Some (None, s)
       else do {
         (_, _, bs, s) \<leftarrow> search_info_tbl C E True s;
         wrbuf \<leftarrow> buf_put (replicate (unat len) 0) 0 bs;
         Some (Some (wrbuf, off, len - 8), s) } } }"

definition save_info_item ::
  "part_conf \<Rightarrow> 'c flash_env \<Rightarrow> bool \<Rightarrow> NET_INFO_ITEM \<Rightarrow> ptrs3 \<Rightarrow> 'c flash_hal \<Rightarrow> (u32 \<times> 'c flash_hal) option" where
  "save_info_item C E mem item ptrs s = do {
     start \<leftarrow> net_start C s;
     (r, s) \<leftarrow> build_tbl C E mem item start s;
     case r of
       None \<Rightarrow> Some (0, s)
     | Some (buf, addr_offset, head_len) \<Rightarrow> do {
         buf \<leftarrow> fill_item C item ptrs (unat addr_offset + 8) buf;
         buf \<leftarrow> buf_put buf (unat addr_offset) (head_bytes \<lparr>it_type = item, it_len = info_item_len item - 8\<rparr>);
         buf \<leftarrow> buf_put buf 0 (head_bytes \<lparr>it_type = INFO_TLV_HEADER, it_len = head_len\<rparr>);
         (_, s) \<leftarrow> bk_flash_enable_security E FLASH_PROTECT_NONE s;
         (_, s) \<leftarrow> bk_flash_erase C E BK_PARTITION_NET_PARAM 0 (of_nat (length buf)) s;
         (_, s) \<leftarrow> bk_flash_write C E BK_PARTITION_NET_PARAM 0 (Some buf) (of_nat (length buf)) s;
         (_, s) \<leftarrow> bk_flash_enable_security E FLASH_UNPROTECT_LAST_BLOCK s;
         Some (1, s) } }"

definition test_get_whole_tbl ::
  "part_conf \<Rightarrow> 'c flash_env \<Rightarrow> bool \<Rightarrow> 'c flash_hal \<Rightarrow> (u32 \<times> byte list \<times> 'c flash_hal) option" where
  "test_get_whole_tbl C E ptr s = do {
     (r, _, bs, s) \<leftarrow> search_info_tbl C E ptr s;
     Some (r, bs, s) }"

end
