(* ===== verification/Net_Param_Table.thy ===== *)
theory Net_Param_Table
  imports Net_Param "HOL-Library.AList"
begin

text \<open>
  The abstract view of the network parameters, an association list from item types to values, and
  what the searching and reading functions of \<open>net_param.c\<close> compute on its encoding.
\<close>

section \<open>The table as an association list\<close>

definition enc_item :: "u32 \<times> byte list \<Rightarrow> byte list" where
  "enc_item p = head_bytes \<lparr>it_type = fst p, it_len = of_nat (length (snd p))\<rparr> @ snd p"

definition enc_items :: "(u32 \<times> byte list) list \<Rightarrow> byte list" where
  "enc_items its = concat (map enc_item its)"

definition enc_tbl :: "(u32 \<times> byte list) list \<Rightarrow> byte list" where
  "enc_tbl its = head_bytes \<lparr>it_type = INFO_TLV_HEADER, it_len = of_nat (length (enc_items its))\<rparr> @ enc_items its"

text \<open>
  What a sector at address \<open>a\<close> holds: no table (the first word is not the header), or the
  encoding of a list of items that fits the sector.
\<close>

fun net_abs :: "(nat \<Rightarrow> byte) \<Rightarrow> nat \<Rightarrow> (u32 \<times> byte list) list option \<Rightarrow> bool" where
  "net_abs m a None \<longleftrightarrow> le32 (mem_slice m a 4) \<noteq> INFO_TLV_HEADER"
| "net_abs m a (Some its) \<longleftrightarrow> length (enc_tbl its) \<le> 4096 \<and> mem_slice m a (length (enc_tbl its)) = enc_tbl its"

lemma head_bytes_length [simp]: "length (head_bytes h) = 8"
  by (simp add: head_bytes_def)

lemma head_of_bytes [simp]: "head_of (head_bytes h @ rest) = h" "head_of (head_bytes h) = h"
  by (simp_all add: head_of_def head_bytes_def)

lemma enc_items_simps [simp]: "enc_items [] = []" "enc_items (p # its) = enc_item p @ enc_items its"
  "enc_items (its @ jts) = enc_items its @ enc_items jts"
  by (simp_all add: enc_items_def)

lemma enc_item_length [simp]: "length (enc_item p) = 8 + length (snd p)"
  by (simp add: enc_item_def)

lemma enc_tbl_length: "length (enc_tbl its) = 8 + length (enc_items its)"
  by (simp add: enc_tbl_def)

text \<open>Where the search stops: behind the items of another type.\<close>

definition item_pos :: "u32 \<Rightarrow> (u32 \<times> byte list) list \<Rightarrow> nat" where
  "item_pos ty its = length (enc_items (takeWhile (\<lambda>p. fst p \<noteq> ty) its))"

lemma item_pos_simps [simp]: "item_pos ty [] = 0"
  "item_pos ty (p # its) = (if fst p = ty then 0 else 8 + length (snd p) + item_pos ty its)"
  by (simp_all add: item_pos_def)

lemma item_pos_le: "item_pos ty its \<le> length (enc_items its)"
  by (induction its) auto

lemma item_pos_found:
  "map_of its ty = Some v \<Longrightarrow>
   \<exists>pre post. its = pre @ (ty, v) # post \<and> ty \<notin> fst ` set pre \<and> item_pos ty its = length (enc_items pre)"
proof (induction its)
  case (Cons p its)
  show ?case
  proof (cases "fst p = ty")
    case True
    then show ?thesis using Cons.prems by (intro exI [of _ "[]"] exI [of _ its]) (cases p, auto)
  next
    case False
    then obtain pre post where "its = pre @ (ty, v) # post" "ty \<notin> fst ` set pre" "item_pos ty its = length (enc_items pre)"
      using Cons by (auto split: if_splits)
    then show ?thesis using False by (intro exI [of _ "p # pre"] exI [of _ post]) auto
  qed
qed simp

lemma item_pos_absent: "map_of its ty = None \<Longrightarrow> item_pos ty its = length (enc_items its)"
  by (induction its) (auto split: if_splits)

lemma update_found:
  "ty \<notin> fst ` set pre \<Longrightarrow> AList.update ty w (pre @ (ty, v) # post) = pre @ (ty, w) # post"
  by (induction pre) auto

lemma update_absent: "map_of its ty = None \<Longrightarrow> AList.update ty w its = its @ [(ty, w)]"
  by (induction its) (auto split: if_splits)

section \<open>Reading the flash\<close>

text \<open>The states that differ in nothing a client of the partition layer can see.\<close>

definition calm :: "'c flash_env \<Rightarrow> flash_config_t \<Rightarrow> 'c flash_hal \<Rightarrow> 'c flash_hal \<Rightarrow> bool" where
  "calm E cfg s s' \<longleftrightarrow> hal_ok E cfg s' \<and> hal_mem E s' = hal_mem E s \<and> hal_protect E cfg s' = hal_protect E cfg s
     \<and> bk7231_partitions s' = bk7231_partitions s"

lemma calm_refl: "hal_ok E cfg s \<Longrightarrow> calm E cfg s s"
  by (simp add: calm_def)

lemma calm_trans: "calm E cfg s t \<Longrightarrow> calm E cfg t u \<Longrightarrow> calm E cfg s u"
  by (simp add: calm_def)

lemma calm_ok: "calm E cfg s t \<Longrightarrow> hal_ok E cfg t"
  by (simp add: calm_def)

lemma open_calm: "hal_ok E cfg s \<Longrightarrow> \<exists>s'. flash_ddev_open s = Some s' \<and> calm E cfg s s'"
  using flash_open_ok [of E cfg s] by (auto simp: calm_def same_layout_def)

lemma close_calm: "hal_ok E cfg s \<Longrightarrow> calm E cfg s (flash_ddev_close s)"
  by (simp add: calm_def hal_ok_def flash_ddev_close_def Let_def)

lemma read_calm:
  assumes "hal_ok E cfg s" "unat a + unat n \<le> 2 ^ 24"
  shows "\<exists>s'. flash_ddev_read E n a s = Some (mem_slice (hal_mem E s) (unat a) (unat n), s') \<and> calm E cfg s s'"
  using flash_read_ok [of cfg "hal_dev s" a n E] assms
  by (auto simp: flash_ddev_read_def hal_ok_def quiet_def calm_def)

section \<open>Searching\<close>

text \<open>The network parameters occupy a sector of the chip.\<close>

definition net_ok ::
  "(u16 \<Rightarrow> nat \<Rightarrow> bool) \<Rightarrow> 'c flash_env \<Rightarrow> flash_config_t \<Rightarrow> partition_table \<Rightarrow> nat \<Rightarrow> 'c flash_hal \<Rightarrow> bool" where
  "net_ok locked E cfg tbl a s \<longleftrightarrow> store_ok locked E cfg (Some tbl) s
     \<and> unat (partition_start_addr (tbl BK_PARTITION_NET_PARAM)) = a \<and> a mod 4096 = 0 \<and> a + 4096 \<le> unat (flash_size cfg)"

lemma net_ok_calm: "net_ok locked E cfg tbl a s \<Longrightarrow> calm E cfg s s' \<Longrightarrow> net_ok locked E cfg tbl a s'"
  by (simp add: net_ok_def store_ok_def calm_def)

lemma net_okD:
  assumes "net_ok locked E cfg tbl a s"
  shows "hal_ok E cfg s" "a + 4096 \<le> 2 ^ 24" "net_start C s = Some (of_nat a)" "unat (of_nat a :: u32) = a"
proof -
  have "unat (partition_start_addr (tbl BK_PARTITION_NET_PARAM)) = a" "bk7231_partitions s = Some tbl"
    "a + 4096 \<le> unat (flash_size cfg)" "unat (flash_size cfg) \<le> 2 ^ 24" "hal_ok E cfg s"
    using assms by (auto simp: net_ok_def store_ok_def chip_ok_def)
  then show "hal_ok E cfg s" "a + 4096 \<le> 2 ^ 24" "unat (of_nat a :: u32) = a" "net_start C s = Some (of_nat a)"
    by (auto simp: net_start_def bk_flash_get_info_def)
qed

lemma search_info_tbl_none:
  assumes "net_ok locked E cfg tbl a s" "net_abs (hal_mem E s) a None"
  shows "\<exists>s'. search_info_tbl C E buf s = Some (0, 0, [], s') \<and> calm E cfg s s'"
proof -
  note N = net_okD [OF assms(1)]
  obtain s1 where s1: "flash_ddev_open s = Some s1" "calm E cfg s s1" using open_calm [OF N(1)] by blast
  obtain s2 where s2: "flash_ddev_read E 8 (of_nat a) s1 = Some (mem_slice (hal_mem E s) a 8, s2)" "calm E cfg s1 s2"
    using read_calm [OF calm_ok [OF s1(2)], of "of_nat a" 8] N(2,4) s1(2) by (auto simp: calm_def)
  have "it_type (head_of (mem_slice (hal_mem E s) a 8)) \<noteq> INFO_TLV_HEADER" using assms(2) by (simp add: head_of_def)
  then show ?thesis
    using N(3) s1(1) s2(1) calm_trans [OF calm_trans [OF s1(2) s2(2)] close_calm [OF calm_ok [OF s2(2)]]]
    by (auto simp: search_info_tbl_def Let_def)
qed

lemma tbl_head:
  assumes "net_abs m a (Some its)"
  shows "head_of (mem_slice m a 8) = \<lparr>it_type = INFO_TLV_HEADER, it_len = of_nat (length (enc_items its))\<rparr>"
    "length (enc_items its) \<le> 4088" "mem_slice m (a + 8) (length (enc_items its)) = enc_items its"
proof -
  have l: "length (enc_tbl its) = 8 + length (enc_items its)" by (rule enc_tbl_length)
  have e: "mem_slice m a 8 @ mem_slice m (a + 8) (length (enc_items its)) = enc_tbl its"
    using assms unfolding net_abs.simps l mem_slice_append by simp
  then show "head_of (mem_slice m a 8) = \<lparr>it_type = INFO_TLV_HEADER, it_len = of_nat (length (enc_items its))\<rparr>"
    "mem_slice m (a + 8) (length (enc_items its)) = enc_items its"
    by (simp_all add: enc_tbl_def)
  show "length (enc_items its) \<le> 4088" using assms l by simp
qed

lemma search_info_tbl_some:
  assumes "net_ok locked E cfg tbl a s" "net_abs (hal_mem E s) a (Some its)"
  shows "\<exists>s'. search_info_tbl C E buf s = Some (1, of_nat (length (enc_tbl its)), if buf then enc_tbl its else [], s') \<and> calm E cfg s s'"
proof -
  note N = net_okD [OF assms(1)] and T = tbl_head [OF assms(2)]
  let ?n = "of_nat (length (enc_tbl its)) :: u32"
  have n: "unat ?n = length (enc_tbl its)" using assms(2) by (intro unat_of_nat_small) simp
  obtain s1 where s1: "flash_ddev_open s = Some s1" "calm E cfg s s1" using open_calm [OF N(1)] by blast
  obtain s2 where s2: "flash_ddev_read E 8 (of_nat a) s1 = Some (mem_slice (hal_mem E s) a 8, s2)" "calm E cfg s1 s2"
    using read_calm [OF calm_ok [OF s1(2)], of "of_nat a" 8] N(2,4) s1(2) by (auto simp: calm_def)
  have "\<exists>s3. flash_ddev_read E ?n (of_nat a) s2 = Some (enc_tbl its, s3) \<and> calm E cfg s2 s3"
    using read_calm [OF calm_ok [OF s2(2)], of "of_nat a" ?n] n N(2,4) s1(2) s2(2) assms(2) by (auto simp: calm_def)
  then obtain s3 where s3: "(if buf then flash_ddev_read E ?n (of_nat a) s2 else Some ([], s2)) = Some (if buf then enc_tbl its else [], s3)"
    "calm E cfg s2 s3" using calm_refl [OF calm_ok [OF s2(2)]] by (cases buf) auto
  have "it_len (head_of (mem_slice (hal_mem E s) a 8)) + 8 = ?n" by (simp add: T(1) enc_tbl_length)
  then show ?thesis
    using N(3) s1(1) s2(1) s3(1) T(1)
      calm_trans [OF calm_trans [OF calm_trans [OF s1(2) s2(2)] s3(2)] close_calm [OF calm_ok [OF s3(2)]]]
    by (auto simp: search_info_tbl_def Let_def)
qed

lemma search_item_loop_ok:
  "hal_ok E cfg s \<Longrightarrow> unat addr + length (enc_items its) \<le> 2 ^ 24 \<Longrightarrow>
   mem_slice (hal_mem E s) (unat addr) (length (enc_items its)) = enc_items its \<Longrightarrow>
   unat end_addr = unat addr + length (enc_items its) \<Longrightarrow>
   \<exists>s'. search_item_loop E ty addr end_addr s = Some (addr + of_nat (item_pos ty its), s') \<and> calm E cfg s s'"
proof (induction its arbitrary: addr s)
  case Nil
  then show ?case using calm_refl by (subst search_item_loop.simps) (auto simp: word_less_nat_alt)
next
  case (Cons p its)
  let ?m = "hal_mem E s" and ?k = "8 + length (snd p)"
  have lt: "addr < end_addr" using Cons.prems(4) by (simp add: word_less_nat_alt)
  obtain s1 where s1: "flash_ddev_read E 8 addr s = Some (mem_slice ?m (unat addr) 8, s1)" "calm E cfg s s1"
    using read_calm [OF Cons.prems(1), of addr 8] Cons.prems(2) by auto
  have "mem_slice ?m (unat addr) ?k @ mem_slice ?m (unat addr + ?k) (length (enc_items its)) = enc_item p @ enc_items its"
    using Cons.prems(3) mem_slice_append [of ?m "unat addr" ?k "length (enc_items its)"] by (simp add: add.assoc)
  then have sp: "mem_slice ?m (unat addr) ?k = enc_item p" "mem_slice ?m (unat addr + ?k) (length (enc_items its)) = enc_items its"
    by (simp_all add: append_eq_append_conv)
  have "mem_slice ?m (unat addr) 8 @ mem_slice ?m (unat addr + 8) (length (snd p)) = enc_item p"
    using sp(1) mem_slice_append [of ?m "unat addr" 8 "length (snd p)"] by simp
  then have h: "head_of (mem_slice ?m (unat addr) 8) = \<lparr>it_type = fst p, it_len = of_nat (length (snd p))\<rparr>"
    by (simp add: enc_item_def)
  show ?case
  proof (cases "fst p = ty")
    case True
    then show ?thesis using lt s1 h by (subst search_item_loop.simps) auto
  next
    case False
    let ?a = "addr + 8 + of_nat (length (snd p))"
    have ua: "unat ?a = unat addr + ?k"
      using Cons.prems(2) by (simp add: unat_add_no_wrap unat_of_nat_small add.assoc)
    have "\<exists>s'. search_item_loop E ty ?a end_addr s1 = Some (?a + of_nat (item_pos ty its), s') \<and> calm E cfg s1 s'"
      by (rule Cons.IH) (use s1(2) Cons.prems ua sp(2) in \<open>auto simp: calm_def\<close>)
    then show ?thesis
      using lt s1 h False calm_trans [OF s1(2)] by (subst search_item_loop.simps) (auto simp: algebra_simps)
  qed
qed

text \<open>The search for an item: its address, or 0 if the table has none of its type.\<close>

lemma search_info_item_ok:
  assumes "net_ok locked E cfg tbl a s" "net_abs (hal_mem E s) a (Some its)"
  shows "\<exists>s'. search_info_item E ty (of_nat a) s =
      Some (if map_of its ty = None then 0 else of_nat (a + 8 + item_pos ty its), s') \<and> calm E cfg s s'"
proof -
  note N = net_okD [OF assms(1)] and T = tbl_head [OF assms(2)]
  define addr :: u32 where "addr = of_nat a + 8"
  define e where "e = addr + of_nat (length (enc_items its))"
  have u: "unat addr = a + 8" using N(2,4) by (simp add: addr_def unat_add_no_wrap)
  have ue: "unat e = a + 8 + length (enc_items its)"
    using u T(2) N(2) by (simp add: e_def unat_add_no_wrap unat_of_nat_small)
  obtain s1 where s1: "flash_ddev_open s = Some s1" "calm E cfg s s1" using open_calm [OF N(1)] by blast
  obtain s2 where s2: "flash_ddev_read E 8 (of_nat a) s1 = Some (mem_slice (hal_mem E s) a 8, s2)" "calm E cfg s1 s2"
    using read_calm [OF calm_ok [OF s1(2)], of "of_nat a" 8] N(2,4) s1(2) by (auto simp: calm_def)
  have m2: "hal_mem E s2 = hal_mem E s" using s1(2) s2(2) by (simp add: calm_def)
  obtain s3 where s3: "search_item_loop E ty addr e s2 = Some (addr + of_nat (item_pos ty its), s3)" "calm E cfg s2 s3"
    using search_item_loop_ok [OF calm_ok [OF s2(2)], of addr its e ty] u ue T(2,3) N(2) m2 by auto
  have up: "unat (addr + of_nat (item_pos ty its)) = a + 8 + item_pos ty its"
    using u item_pos_le [of ty its] T(2) N(2) by (simp add: unat_add_no_wrap unat_of_nat_small)
  have "(addr + of_nat (item_pos ty its) \<ge> e) = (map_of its ty = None)"
  proof (cases "map_of its ty")
    case None
    then show ?thesis using up ue item_pos_absent by (simp add: word_le_nat_alt)
  next
    case (Some v)
    from item_pos_found [OF this] show ?thesis using Some up ue by (auto simp: word_le_nat_alt)
  qed
  moreover have "addr + of_nat (item_pos ty its) = of_nat (a + 8 + item_pos ty its)" by (simp add: addr_def)
  ultimately show ?thesis
    using s1(1) s2(1) s3(1) T(1) calm_trans [OF calm_trans [OF calm_trans [OF s1(2) s2(2)] s3(2)] close_calm [OF calm_ok [OF s3(2)]]]
    unfolding search_info_item_def addr_def [symmetric] by (auto simp: e_def Let_def)
qed

section \<open>Reading an item\<close>

lemma read_into_ok:
  assumes "hal_ok E cfg s" "unat addr + unat n \<le> 2 ^ 24" "unat n \<le> length ptr"
  shows "\<exists>s'. read_into E ptr n addr s = Some (mem_slice (hal_mem E s) (unat addr) (unat n) @ drop (unat n) ptr, s') \<and> calm E cfg s s'"
  using read_calm [OF assms(1,2)] assms(3) by (auto simp: read_into_def buf_put_def)

text \<open>What \<open>get_info_item\<close> stores for the value \<open>v\<close>: the result and the buffers.\<close>

definition over :: "byte list \<Rightarrow> byte list \<Rightarrow> byte list" where
  "over v p = v @ drop (length v) p"

definition deliver :: "NET_INFO_ITEM \<Rightarrow> byte list \<Rightarrow> ptrs3 \<Rightarrow> u32 \<times> ptrs3" where
  "deliver item v ptrs =
     (if item \<in> set comm_items \<or> item = WIFI_MAC_ITEM \<or> item = CHARGE_CONFIG_ITEM then
        (case ptrs of (Some p, q, r) \<Rightarrow> (1, (Some (over v p), q, r)) | _ \<Rightarrow> (0, ptrs))
      else if item = SSID_KEY_ITEM then
        (case ptrs of (Some p, Some q, r) \<Rightarrow> (1, (Some (over (take 32 v) p), Some (over (take 64 (drop 32 v)) q), r))
         | _ \<Rightarrow> (0, ptrs))
      else if item = IP_CONFIG_ITEM then
        (case ptrs of (Some p, Some q, Some r) \<Rightarrow>
           (1, (Some (over (take 16 v) p), Some (over (take 16 (drop 16 v)) q), Some (over (take 16 (drop 32 v)) r)))
         | _ \<Rightarrow> (0, ptrs))
      else (0, ptrs))"

text \<open>Buffers that are large enough for the value of an item.\<close>

definition room :: "NET_INFO_ITEM \<Rightarrow> nat \<Rightarrow> ptrs3 \<Rightarrow> bool" where
  "room item n ptrs \<longleftrightarrow>
     (case ptrs of (p, q, r) \<Rightarrow>
        if item = SSID_KEY_ITEM then pred_option (\<lambda>b. 32 \<le> length b) p \<and> pred_option (\<lambda>b. 64 \<le> length b) q
        else if item = IP_CONFIG_ITEM then
          pred_option (\<lambda>b. 16 \<le> length b) p \<and> pred_option (\<lambda>b. 16 \<le> length b) q \<and> pred_option (\<lambda>b. 16 \<le> length b) r
        else pred_option (\<lambda>b. n \<le> length b) p)"

lemma read_item_word:
  assumes item: "item \<in> set comm_items \<or> item = WIFI_MAC_ITEM \<or> item = CHARGE_CONFIG_ITEM"
    and ok: "hal_ok E cfg s" "unat addr + length v \<le> 2 ^ 24" and v: "mem_slice (hal_mem E s) (unat addr) (length v) = v"
    and room: "room item (length v) ptrs"
  shows "\<exists>s'. read_item E item ptrs (of_nat (length v)) addr s = Some (case deliver item v ptrs of (r, q) \<Rightarrow> (r, q, s')) \<and> calm E cfg s s'"
proof (cases "fst ptrs")
  case None
  then show ?thesis using item calm_refl [OF ok(1)] by (cases ptrs) (auto simp: read_item_def deliver_def)
next
  case (Some p)
  have ne: "item \<noteq> SSID_KEY_ITEM" "item \<noteq> IP_CONFIG_ITEM" using item by (auto simp: comm_items_def item_defs)
  have n: "unat (of_nat (length v) :: u32) = length v" using ok(2) by (intro unat_of_nat_small) simp
  have "\<exists>s'. read_into E p (of_nat (length v)) addr s = Some (over v p, s') \<and> calm E cfg s s'"
    using read_into_ok [OF ok(1), of addr "of_nat (length v)" p] ok(2) v room Some ne n
    by (cases ptrs) (auto simp: room_def over_def)
  then show ?thesis using item Some by (cases ptrs) (auto simp: read_item_def deliver_def)
qed

lemma slice_part:
  assumes "mem_slice m a (length v) = v" "i + n \<le> length v"
  shows "mem_slice m (a + i) n = take n (drop i v)"
proof -
  have "take n (drop i (mem_slice m a (length v))) = mem_slice m (a + i) n" using assms(2) by simp
  then show ?thesis using assms(1) by simp
qed

lemma read_item_ssid:
  assumes ok: "hal_ok E cfg s" "unat addr + length v \<le> 2 ^ 24" and v: "mem_slice (hal_mem E s) (unat addr) (length v) = v"
    and l: "length v = 96" and room: "room SSID_KEY_ITEM (length v) ptrs"
  shows "\<exists>s'. read_item E SSID_KEY_ITEM ptrs n addr s = Some (case deliver SSID_KEY_ITEM v ptrs of (r, q) \<Rightarrow> (r, q, s')) \<and> calm E cfg s s'"
proof -
  have ne: "SSID_KEY_ITEM \<notin> set comm_items" "SSID_KEY_ITEM \<noteq> WIFI_MAC_ITEM" "SSID_KEY_ITEM \<noteq> CHARGE_CONFIG_ITEM"
    by (simp_all add: comm_items_def item_defs)
  have a: "unat (addr + 32) = unat addr + 32" using ok(2) l by (simp add: unat_add_no_wrap)
  show ?thesis
  proof (cases "\<exists>p q r. ptrs = (Some p, Some q, r)")
    case True
    then obtain p q r where p: "ptrs = (Some p, Some q, r)" by blast
    obtain s1 where s1: "read_into E p 32 addr s = Some (over (take 32 v) p, s1)" "calm E cfg s s1"
      using read_into_ok [OF ok(1), of addr 32 p] ok(2) l room p slice_part [OF v, of 0 32] by (auto simp: room_def over_def)
    obtain s2 where s2: "read_into E q 64 (addr + 32) s1 = Some (over (take 64 (drop 32 v)) q, s2)" "calm E cfg s1 s2"
      using read_into_ok [OF calm_ok [OF s1(2)], of "addr + 32" 64 q] ok(2) l room p a s1(2) slice_part [OF v, of 32 64]
      by (auto simp: room_def over_def calm_def)
    show ?thesis using ne p s1 s2 calm_trans [OF s1(2) s2(2)] by (auto simp: read_item_def deliver_def)
  next
    case False
    then have "read_item E SSID_KEY_ITEM ptrs n addr s = Some (0, ptrs, s)" "deliver SSID_KEY_ITEM v ptrs = (0, ptrs)"
      using ne by (auto simp: read_item_def deliver_def split: option.split prod.split)
    then show ?thesis using calm_refl [OF ok(1)] by simp
  qed
qed

lemma read_item_ip:
  assumes ok: "hal_ok E cfg s" "unat addr + length v \<le> 2 ^ 24" and v: "mem_slice (hal_mem E s) (unat addr) (length v) = v"
    and l: "length v = 48" and room: "room IP_CONFIG_ITEM (length v) ptrs"
  shows "\<exists>s'. read_item E IP_CONFIG_ITEM ptrs n addr s = Some (case deliver IP_CONFIG_ITEM v ptrs of (r, q) \<Rightarrow> (r, q, s')) \<and> calm E cfg s s'"
proof -
  have ne: "IP_CONFIG_ITEM \<notin> set comm_items" "IP_CONFIG_ITEM \<noteq> WIFI_MAC_ITEM" "IP_CONFIG_ITEM \<noteq> CHARGE_CONFIG_ITEM"
    "IP_CONFIG_ITEM \<noteq> SSID_KEY_ITEM" by (simp_all add: comm_items_def item_defs)
  have a: "unat (addr + 16) = unat addr + 16" "unat (addr + 32) = unat addr + 32" using ok(2) l by (simp_all add: unat_add_no_wrap)
  show ?thesis
  proof (cases "\<exists>p q r. ptrs = (Some p, Some q, Some r)")
    case True
    then obtain p q r where p: "ptrs = (Some p, Some q, Some r)" by blast
    obtain s1 where s1: "read_into E p 16 addr s = Some (over (take 16 v) p, s1)" "calm E cfg s s1"
      using read_into_ok [OF ok(1), of addr 16 p] ok(2) l room p ne slice_part [OF v, of 0 16] by (auto simp: room_def over_def)
    obtain s2 where s2: "read_into E q 16 (addr + 16) s1 = Some (over (take 16 (drop 16 v)) q, s2)" "calm E cfg s s2"
      using read_into_ok [OF calm_ok [OF s1(2)], of "addr + 16" 16 q] ok(2) l room p a s1(2) ne slice_part [OF v, of 16 16]
      by (auto simp: room_def over_def calm_def)
    obtain s3 where s3: "read_into E r 16 (addr + 32) s2 = Some (over (take 16 (drop 32 v)) r, s3)" "calm E cfg s2 s3"
      using read_into_ok [OF calm_ok [OF s2(2)], of "addr + 32" 16 r] ok(2) l room p a s2(2) ne slice_part [OF v, of 32 16]
      by (auto simp: room_def over_def calm_def)
    show ?thesis using ne p s1 s2 s3(1) [unfolded add.commute [of addr 32]] calm_trans [OF s2(2) s3(2)] by (auto simp: read_item_def deliver_def)
  next
    case False
    then have "read_item E IP_CONFIG_ITEM ptrs n addr s = Some (0, ptrs, s)" "deliver IP_CONFIG_ITEM v ptrs = (0, ptrs)"
      using ne by (auto simp: read_item_def deliver_def split: option.split prod.split)
    then show ?thesis using calm_refl [OF ok(1)] by simp
  qed
qed

text \<open>The sizes that \<open>get_info_item\<close> takes for granted.\<close>

definition size_ok :: "NET_INFO_ITEM \<Rightarrow> byte list \<Rightarrow> bool" where
  "size_ok item v \<longleftrightarrow> (item = SSID_KEY_ITEM \<longrightarrow> length v = 96) \<and> (item = IP_CONFIG_ITEM \<longrightarrow> length v = 48)"

lemma read_item_ok:
  assumes "hal_ok E cfg s" "unat addr + length v \<le> 2 ^ 24" "mem_slice (hal_mem E s) (unat addr) (length v) = v"
    "size_ok item v" "room item (length v) ptrs"
  shows "\<exists>s'. read_item E item ptrs (of_nat (length v)) addr s = Some (case deliver item v ptrs of (r, q) \<Rightarrow> (r, q, s')) \<and> calm E cfg s s'"
proof -
  consider "item \<in> set comm_items \<or> item = WIFI_MAC_ITEM \<or> item = CHARGE_CONFIG_ITEM" | "item = SSID_KEY_ITEM" | "item = IP_CONFIG_ITEM"
    | "item \<notin> set comm_items" "item \<noteq> WIFI_MAC_ITEM" "item \<noteq> CHARGE_CONFIG_ITEM" "item \<noteq> SSID_KEY_ITEM" "item \<noteq> IP_CONFIG_ITEM"
    by blast
  then show ?thesis
  proof cases
    case 1
    then show ?thesis using read_item_word [OF _ assms(1-3,5)] by blast
  next
    case 2
    then show ?thesis using read_item_ssid [OF assms(1-3)] assms(4,5) by (auto simp: size_ok_def)
  next
    case 3
    then show ?thesis using read_item_ip [OF assms(1-3)] assms(4,5) by (auto simp: size_ok_def)
  next
    case 4
    then show ?thesis using calm_refl [OF assms(1)] by (auto simp: read_item_def deliver_def)
  qed
qed

text \<open>The result of \<open>get_info_item\<close> on the abstract table.\<close>

definition lookup_item :: "(u32 \<times> byte list) list option \<Rightarrow> NET_INFO_ITEM \<Rightarrow> ptrs3 \<Rightarrow> u32 \<times> ptrs3" where
  "lookup_item T item ptrs = (case T \<bind> (\<lambda>its. map_of its item) of None \<Rightarrow> (0, ptrs) | Some v \<Rightarrow> deliver item v ptrs)"

lemma get_info_item_found:
  assumes "net_ok locked E cfg tbl a s" "net_abs (hal_mem E s) a (Some its)" "map_of its item = Some v"
    "size_ok item v" "room item (length v) ptrs"
  shows "\<exists>s'. get_info_item C E item ptrs s = Some (case deliver item v ptrs of (r, q) \<Rightarrow> (r, q, s')) \<and> calm E cfg s s'"
proof -
  note T = tbl_head [OF assms(2)]
  obtain pre post where sp: "its = pre @ (item, v) # post" and pos: "item_pos item its = length (enc_items pre)"
    using item_pos_found [OF assms(3)] by blast
  obtain s1 where s1: "search_info_tbl C E False s = Some (1, of_nat (length (enc_tbl its)), [], s1)" "calm E cfg s s1"
    using search_info_tbl_some [OF assms(1,2), of C False] by auto
  note N1 = net_ok_calm [OF assms(1) s1(2)]
  have A1: "net_abs (hal_mem E s1) a (Some its)" using assms(2) s1(2) by (simp add: calm_def)
  define p :: u32 where "p = of_nat (a + 8 + length (enc_items pre))"
  obtain s2 where s2: "search_info_item E item (of_nat a) s1 = Some (p, s2)" "calm E cfg s s2"
    using search_info_item_ok [OF N1 A1, of item] assms(3) calm_trans [OF s1(2)] pos by (auto simp: p_def)
  have lim: "a + 8 + length (enc_items pre) + 8 + length v \<le> 2 ^ 24"
    using T(2) sp net_okD(2) [OF assms(1)] by simp
  then have up: "unat p = a + 8 + length (enc_items pre)" unfolding p_def by (intro unat_of_nat_small) simp
  then have p0: "p \<noteq> 0" by auto
  have up8: "unat (p + 8) = unat p + 8" using up lim by (simp add: unat_add_no_wrap)
  obtain s3 where s3: "flash_ddev_open s2 = Some s3" "calm E cfg s s3"
    using open_calm [OF calm_ok [OF s2(2)]] calm_trans [OF s2(2)] by blast
  have item: "mem_slice (hal_mem E s) (unat p) (8 + length v) = enc_item (item, v)"
    using slice_part [of "hal_mem E s" "a + 8" "enc_items its" "length (enc_items pre)" "8 + length v"] T(3) sp up
    by (simp add: enc_item_def)
  have h: "head_of (mem_slice (hal_mem E s) (unat p) 8) = \<lparr>it_type = item, it_len = of_nat (length v)\<rparr>"
    and v: "mem_slice (hal_mem E s) (unat p + 8) (length v) = v"
    using item unfolding mem_slice_append by (simp_all add: enc_item_def)
  obtain s4 where s4: "flash_ddev_read E 8 p s3 = Some (mem_slice (hal_mem E s) (unat p) 8, s4)" "calm E cfg s s4"
    using read_calm [OF calm_ok [OF s3(2)], of p 8] lim up s3(2) by (auto simp: calm_def)
  obtain s5 where s5: "read_item E item ptrs (of_nat (length v)) (p + 8) s4 = Some (case deliver item v ptrs of (r, q) \<Rightarrow> (r, q, s5))"
      "calm E cfg s s5"
    using read_item_ok [OF calm_ok [OF s4(2)], of "p + 8" v item ptrs] lim up up8 v assms(4,5) s4(2)
    by (auto simp: calm_def)
  show ?thesis
    using s1(1) net_okD(3) [OF N1] s2(1) p0 s3(1) s4(1) s5(1) h calm_trans [OF s5(2) close_calm [OF calm_ok [OF s5(2)]]]
    by (auto simp: get_info_item_def split: prod.split)
qed

lemma get_info_item_ok:
  assumes "net_ok locked E cfg tbl a s" "net_abs (hal_mem E s) a T"
    "\<And>its v. T = Some its \<Longrightarrow> map_of its item = Some v \<Longrightarrow> size_ok item v \<and> room item (length v) ptrs"
  shows "\<exists>s'. get_info_item C E item ptrs s = Some (case lookup_item T item ptrs of (r, q) \<Rightarrow> (r, q, s')) \<and> calm E cfg s s'"
proof (cases T)
  case None
  then obtain s1 where "search_info_tbl C E False s = Some (0, 0, [], s1)" "calm E cfg s s1"
    using search_info_tbl_none [OF assms(1), of C False] assms(2) by auto
  then show ?thesis using None by (auto simp: get_info_item_def lookup_item_def)
next
  case (Some its)
  note A = assms(2) [unfolded Some]
  show ?thesis
  proof (cases "map_of its item")
    case None
    obtain s1 where s1: "search_info_tbl C E False s = Some (1, of_nat (length (enc_tbl its)), [], s1)" "calm E cfg s s1"
      using search_info_tbl_some [OF assms(1) A, of C False] by auto
    note N1 = net_ok_calm [OF assms(1) s1(2)]
    have "net_abs (hal_mem E s1) a (Some its)" using A s1(2) by (simp add: calm_def)
    then obtain s2 where "search_info_item E item (of_nat a) s1 = Some (0, s2)" "calm E cfg s1 s2"
      using search_info_item_ok [OF N1, of its item] None by auto
    then show ?thesis
      using s1 net_okD(3) [OF N1] None Some calm_trans [OF s1(2)] by (auto simp: get_info_item_def lookup_item_def)
  next
    case v: (Some v)
    then show ?thesis
      using get_info_item_found [OF assms(1) A v] assms(3) Some by (auto simp: lookup_item_def)
  qed
qed

end
