(* ===== verification/Net_Param_Props.thy ===== *)
theory Net_Param_Props
  imports Net_Param_Table
begin

text \<open>
  Saving an item of the network parameters refines the update of the association list, reading it
  back is the lookup; and what a damaged table does to the search.
\<close>

section \<open>Saving an item\<close>

text \<open>The bytes that \<open>save_info_item\<close> takes from its arguments.\<close>

definition arg :: "nat \<Rightarrow> byte list option \<Rightarrow> byte list option" where
  "arg n p = do { src \<leftarrow> p; buf_get src 0 n }"

definition item_data :: "part_conf \<Rightarrow> NET_INFO_ITEM \<Rightarrow> ptrs3 \<Rightarrow> byte list option" where
  "item_data C item ptrs =
     (case ptrs of (p, q, r) \<Rightarrow>
        if item \<in> set comm_items then arg 4 p
        else if item = WIFI_MAC_ITEM then arg 6 p
        else if item = SSID_KEY_ITEM then do { x \<leftarrow> arg 32 p; y \<leftarrow> arg 64 q; Some (x @ y) }
        else if item = IP_CONFIG_ITEM then do { x \<leftarrow> arg 16 p; y \<leftarrow> arg 16 q; z \<leftarrow> arg 16 r; Some (x @ y @ z) }
        else if item = CHARGE_CONFIG_ITEM then arg (chrg_len C) p
        else arg 4 p)"

lemma ip_ne_ssid [simp]: "IP_CONFIG_ITEM \<noteq> SSID_KEY_ITEM" "SSID_KEY_ITEM \<noteq> IP_CONFIG_ITEM"
  by (simp_all add: item_defs)

lemma copy_from_arg: "copy_from p n off buf = arg n p \<bind> buf_put buf off"
  by (cases p) (simp_all add: copy_from_def arg_def)

lemma arg_length: "arg n p = Some x \<Longrightarrow> length x = n"
  by (auto simp: arg_def buf_get_def split: if_splits bind_splits)

lemma buf_put_at:
  "length pre = off \<Longrightarrow> length src \<le> length mid \<Longrightarrow>
   buf_put (pre @ mid @ post) off src = Some (pre @ over src mid @ post)"
  by (auto simp: buf_put_def over_def)

lemma fill_item_data:
  assumes "item_data C item ptrs = Some data" "length pre = off" "length data \<le> length mid"
  shows "fill_item C item ptrs off (pre @ mid @ post) = Some (pre @ over data mid @ post)"
proof -
  obtain p q r where ptrs: "ptrs = (p, q, r)" by (cases ptrs)
  have step: "buf_put (pre @ over x mid @ post) (off + length x) y = Some (pre @ over (x @ y) mid @ post)"
    if "length x + length y \<le> length mid" for x y
    using that assms(2) buf_put_at [of "pre @ x" "off + length x" y "drop (length x) mid" post] by (simp add: over_def add.commute)
  note at = buf_put_at [OF assms(2), of _ mid post]
  show ?thesis
  proof (cases "item \<in> set comm_items \<or> item = WIFI_MAC_ITEM \<or> item \<noteq> SSID_KEY_ITEM \<and> item \<noteq> IP_CONFIG_ITEM")
    case True
    then show ?thesis
      using assms(1,3) ptrs at [of data] by (auto simp: fill_item_def item_data_def copy_from_arg split: if_split_asm)
  next
    case False
    then consider "item = SSID_KEY_ITEM" | "item = IP_CONFIG_ITEM" by blast
    then show ?thesis
    proof cases
      case 1
      then obtain x y where xy: "arg 32 p = Some x" "arg 64 q = Some y" "data = x @ y"
        using assms(1) ptrs False by (auto simp: item_data_def split: bind_split_asm)
      have "length x = 32" "length y = 64" using xy arg_length by blast+
      then show ?thesis using 1 False ptrs xy at [of x] step [of x y] assms(3) by (simp add: fill_item_def copy_from_arg)
    next
      case 2
      then obtain x y z where xy: "arg 16 p = Some x" "arg 16 q = Some y" "arg 16 r = Some z" "data = x @ y @ z"
        using assms(1) ptrs False by (auto simp: item_data_def split: bind_split_asm if_split_asm)
      have "length x = 16" "length y = 16" "length z = 16" using xy arg_length by blast+
      then show ?thesis
        using 2 False ptrs xy at [of x] step [of x y] step [of "x @ y" z] assms(3)
        by (simp add: fill_item_def copy_from_arg item_defs)
    qed
  qed
qed

text \<open>The new buffer: header, items in front, the item with its value overwritten, items behind.\<close>

lemma patch_tbl:
  assumes "item_data C item ptrs = Some data" "length H = 8" "length h = 8" "length data \<le> length v"
    "off = 8 + length X"
  shows "do { buf \<leftarrow> fill_item C item ptrs (off + 8) (H @ X @ h @ v @ Z);
     buf \<leftarrow> buf_put buf off (head_bytes i); buf_put buf 0 (head_bytes t) }
   = Some (head_bytes t @ X @ head_bytes i @ over data v @ Z)"
proof -
  have "fill_item C item ptrs (off + 8) ((H @ X @ h) @ v @ Z) = Some ((H @ X @ h) @ over data v @ Z)"
    by (rule fill_item_data) (use assms in auto)
  moreover have "buf_put ((H @ X) @ h @ (over data v @ Z)) off (head_bytes i) = Some ((H @ X) @ over (head_bytes i) h @ (over data v @ Z))"
    by (rule buf_put_at) (use assms in auto)
  moreover have "over (head_bytes i) h = head_bytes i" using assms(3) by (simp add: over_def)
  moreover have "buf_put ([] @ H @ (X @ head_bytes i @ over data v @ Z)) 0 (head_bytes t)
      = Some ([] @ over (head_bytes t) H @ (X @ head_bytes i @ over data v @ Z))"
    by (rule buf_put_at) (use assms in auto)
  moreover have "over (head_bytes t) H = head_bytes t" using assms(2) by (simp add: over_def)
  ultimately show ?thesis by simp
qed

text \<open>What the table becomes: the item is replaced in place, or appended.\<close>

definition old_value :: "NET_INFO_ITEM \<Rightarrow> (u32 \<times> byte list) list \<Rightarrow> byte list" where
  "old_value item its = (case map_of its item of None \<Rightarrow> replicate (unat (info_item_len item) - 8) 0 | Some v \<Rightarrow> v)"

definition items_of :: "(u32 \<times> byte list) list option \<Rightarrow> (u32 \<times> byte list) list" where
  "items_of T = (case T of None \<Rightarrow> [] | Some its \<Rightarrow> its)"

definition save_spec :: "NET_INFO_ITEM \<Rightarrow> byte list \<Rightarrow> (u32 \<times> byte list) list option \<Rightarrow> (u32 \<times> byte list) list" where
  "save_spec item data T = AList.update item (over data (old_value item (items_of T))) (items_of T)"

lemma item_len_ge: "8 < unat (info_item_len item)" "unat (info_item_len item) \<le> 104"
  by (auto simp: info_item_len_def)

lemma item_data_fits:
  assumes "item_data C item ptrs = Some data"
  shows "length data \<le> unat (info_item_len item) - 8"
proof -
  obtain p q r where "ptrs = (p, q, r)" by (cases ptrs)
  with assms show ?thesis
    by (auto simp: item_data_def info_item_len_def comm_items_def item_defs chrg_len_def dest!: arg_length
        split: if_split_asm bind_split_asm)
qed

text \<open>
  The buffer that \<open>save_info_item\<close> builds, and what it becomes when the headers and a value \<open>w\<close>
  are stored in it: the encoding of the updated table.
\<close>

definition built :: "NET_INFO_ITEM \<Rightarrow> (u32 \<times> byte list) list \<Rightarrow> byte list \<times> u32 \<times> u32 \<Rightarrow> bool" where
  "built item its r \<longleftrightarrow> (\<exists>H X h Z. fst r = H @ X @ h @ old_value item its @ Z \<and> length H = 8 \<and> length h = 8
     \<and> unat (fst (snd r)) = 8 + length X
     \<and> (\<forall>w. length w = length (old_value item its) \<longrightarrow>
          head_bytes \<lparr>it_type = INFO_TLV_HEADER, it_len = snd (snd r)\<rparr> @ X
            @ head_bytes \<lparr>it_type = item, it_len = info_item_len item - 8\<rparr> @ w @ Z = enc_tbl (AList.update item w its)))"

lemma len_minus_8: "of_nat (unat (info_item_len item) - 8) = info_item_len item - 8"
  using item_len_ge(1) [of item] by (simp add: of_nat_diff)

lemma built_append:
  assumes "map_of its item = None" "length (enc_tbl its) + unat (info_item_len item) \<le> 4096" "length H = 8"
    "unat off = length (enc_tbl its)" "hl = of_nat (length (enc_items its)) + info_item_len item"
  shows "built item its (H @ enc_items its @ replicate (unat (info_item_len item)) 0, off, hl)"
proof -
  let ?n = "unat (info_item_len item) - 8"
  have z: "replicate (unat (info_item_len item)) (0 :: byte) = replicate 8 0 @ replicate ?n 0 @ []"
    using item_len_ge(1) [of item] by (simp add: replicate_add [symmetric])
  have "head_bytes \<lparr>it_type = INFO_TLV_HEADER, it_len = hl\<rparr> @ enc_items its
      @ head_bytes \<lparr>it_type = item, it_len = info_item_len item - 8\<rparr> @ w @ [] = enc_tbl (AList.update item w its)"
    if w: "length w = ?n" for w
  proof -
    have "of_nat (8 + ?n) = info_item_len item" using item_len_ge(1) [of item] by simp
    then show ?thesis
      using w assms(5) len_minus_8 [of item] by (simp add: update_absent [OF assms(1)] enc_tbl_def enc_item_def)
  qed
  then show ?thesis
    unfolding built_def z using assms(1,3,4)
    by (intro exI [of _ H] exI [of _ "enc_items its"] exI [of _ "replicate 8 0"] exI [of _ "[]"])
      (auto simp: old_value_def enc_tbl_length)
qed

lemma built_replace:
  assumes "map_of its item = Some v" "length v = unat (info_item_len item) - 8"
    "unat off = 8 + item_pos item its" "hl = of_nat (length (enc_items its))"
  shows "built item its (enc_tbl its, off, hl)"
proof -
  obtain pre post where its: "its = pre @ (item, v) # post" "item \<notin> fst ` set pre" "item_pos item its = length (enc_items pre)"
    using item_pos_found [OF assms(1)] by blast
  let ?H = "head_bytes \<lparr>it_type = INFO_TLV_HEADER, it_len = of_nat (length (enc_items its))\<rparr>"
    and ?h = "head_bytes \<lparr>it_type = item, it_len = of_nat (length v)\<rparr>"
  have "enc_tbl its = ?H @ enc_items pre @ ?h @ v @ enc_items post"
    unfolding enc_tbl_def by (subst (2) its(1)) (simp add: enc_item_def)
  moreover have "head_bytes \<lparr>it_type = INFO_TLV_HEADER, it_len = hl\<rparr> @ enc_items pre
      @ head_bytes \<lparr>it_type = item, it_len = info_item_len item - 8\<rparr> @ w @ enc_items post = enc_tbl (AList.update item w its)"
    if w: "length w = length v" for w
    using w assms(2,4) len_minus_8 [of item] its(1) by (simp add: update_found [OF its(2)] enc_tbl_def enc_item_def)
  ultimately show ?thesis
    unfolding built_def using assms(1,3) its(3)
    by (intro exI [of _ ?H] exI [of _ "enc_items pre"] exI [of _ ?h] exI [of _ "enc_items post"]) (auto simp: old_value_def)
qed

text \<open>An item of its declared size, and room for it in the sector.\<close>

definition can_save :: "NET_INFO_ITEM \<Rightarrow> (u32 \<times> byte list) list option \<Rightarrow> bool" where
  "can_save item T \<longleftrightarrow> (case map_of (items_of T) item of
     Some v \<Rightarrow> length v = unat (info_item_len item) - 8
   | None \<Rightarrow> length (enc_tbl (items_of T)) + unat (info_item_len item) \<le> 4096)"

lemma build_tbl_ok:
  assumes "net_ok locked E cfg tbl a s" "net_abs (hal_mem E s) a T"
    and S: "can_save item T"
  shows "\<exists>r s'. build_tbl C E True item (of_nat a) s = Some (Some r, s') \<and> calm E cfg s s' \<and> built item (items_of T) r"
proof (cases T)
  case None
  then obtain s1 where s1: "search_info_tbl C E False s = Some (0, 0, [], s1)" "calm E cfg s s1"
    using search_info_tbl_none [OF assms(1), of C False] assms(2) by auto
  have n: "unat (8 + info_item_len item) = 8 + unat (info_item_len item)"
    using item_len_ge [of item] by (subst unat_add_no_wrap) simp_all
  have "built item [] (replicate 8 0 @ enc_items [] @ replicate (unat (info_item_len item)) 0, 8, info_item_len item)"
    by (rule built_append) (use item_len_ge [of item] in \<open>auto simp: enc_tbl_length\<close>)
  then have "built item [] (replicate (unat (8 + info_item_len item)) 0, 8, info_item_len item)"
    by (simp add: n replicate_add)
  then show ?thesis using None s1 by (auto simp: build_tbl_def items_of_def Let_def)
next
  case (Some its)
  note A = assms(2) [unfolded Some]
  obtain s1 where s1: "search_info_tbl C E False s = Some (1, of_nat (length (enc_tbl its)), [], s1)" "calm E cfg s s1"
    using search_info_tbl_some [OF assms(1) A, of C False] by auto
  note N1 = net_ok_calm [OF assms(1) s1(2)]
  have A1: "net_abs (hal_mem E s1) a (Some its)" using A s1(2) by (simp add: calm_def)
  let ?p = "if map_of its item = None then 0 else of_nat (a + 8 + item_pos item its) :: u32"
  obtain s2 where s2: "search_info_item E item (of_nat a) s1 = Some (?p, s2)" "calm E cfg s s2"
    using search_info_item_ok [OF N1 A1, of item] calm_trans [OF s1(2)] by auto
  note N2 = net_ok_calm [OF assms(1) s2(2)]
  have "net_abs (hal_mem E s2) a (Some its)" using A s2(2) by (simp add: calm_def)
  then obtain s3 where s3: "search_info_tbl C E True s2 = Some (1, of_nat (length (enc_tbl its)), enc_tbl its, s3)" "calm E cfg s s3"
    using search_info_tbl_some [OF N2, of its C True] calm_trans [OF s2(2)] by auto
  have lim: "length (enc_tbl its) \<le> 4096" "item_pos item its \<le> 4088" "a + 4096 \<le> 2 ^ 24"
    using A item_pos_le [of item its] net_okD(2) [OF assms(1)] by (auto simp: enc_tbl_length)
  show ?thesis
  proof (cases "map_of its item")
    case N: None
    let ?il = "unat (info_item_len item)"
    have f: "length (enc_tbl its) + ?il \<le> 4096" using S N Some by (simp add: items_of_def can_save_def)
    have n: "unat (of_nat (length (enc_tbl its)) + info_item_len item) = length (enc_tbl its) + ?il"
      using f by (simp add: unat_add_no_wrap unat_of_nat_small)
    let ?H = "head_bytes \<lparr>it_type = INFO_TLV_HEADER, it_len = of_nat (length (enc_items its))\<rparr>"
    have "built item its (?H @ enc_items its @ replicate ?il 0, of_nat (length (enc_tbl its)),
        of_nat (length (enc_tbl its)) + info_item_len item - 8)"
      by (rule built_append [OF N f]) (use lim unat_of_nat_small [of "length (enc_tbl its)", where 'a = 32] in \<open>simp_all add: enc_tbl_length\<close>)
    moreover have "buf_put (replicate (length (enc_tbl its) + ?il) 0) 0 (enc_tbl its) = Some (?H @ enc_items its @ replicate ?il 0)"
      by (simp add: buf_put_def enc_tbl_def)
    ultimately show ?thesis
      using s1(1) s2(1) s3 N Some n by (auto simp: build_tbl_def Let_def items_of_def)
  next
    case v: (Some v)
    have "unat (of_nat (a + 8 + item_pos item its) - of_nat a :: u32) = 8 + item_pos item its"
      using lim unat_of_nat_small [of "8 + item_pos item its", where 'a = 32] by (simp add: add.assoc)
    then have "built item its (enc_tbl its, of_nat (a + 8 + item_pos item its) - of_nat a, of_nat (length (enc_tbl its)) - 8)"
      by (intro built_replace [OF v]) (use S v Some in \<open>auto simp: items_of_def can_save_def enc_tbl_length\<close>)
    moreover have "buf_put (replicate (unat (of_nat (length (enc_tbl its)) :: u32)) 0) 0 (enc_tbl its) = Some (enc_tbl its)"
      using lim(1) by (simp add: buf_put_def unat_of_nat_small)
    moreover have "(of_nat (a + 8 + item_pos item its) :: u32) \<noteq> 0"
    proof -
      have "unat (of_nat (a + 8 + item_pos item its) :: u32) = a + 8 + item_pos item its" using lim by (intro unat_of_nat_small) simp
      then show ?thesis by auto
    qed
    ultimately show ?thesis
      using s1(1) s2(1) s3 v Some by (auto simp: build_tbl_def Let_def items_of_def)
  qed
qed

lemma old_value_length:
  assumes "can_save item T"
  shows "length (old_value item (items_of T)) = unat (info_item_len item) - 8"
  using assms by (auto simp: can_save_def old_value_def split: option.splits)

lemma save_spec_fits:
  assumes "can_save item T" "\<And>its. T = Some its \<Longrightarrow> length (enc_tbl its) \<le> 4096" "length w = unat (info_item_len item) - 8"
  shows "length (enc_tbl (AList.update item w (items_of T))) \<le> 4096"
proof (cases "map_of (items_of T) item")
  case None
  then show ?thesis
    using assms(1,3) item_len_ge(1) [of item] by (simp add: update_absent can_save_def enc_tbl_length)
next
  case (Some v)
  obtain pre post where its: "items_of T = pre @ (item, v) # post" "item \<notin> fst ` set pre"
    using item_pos_found [OF Some] by blast
  have "length v = length w" using assms(1,3) Some by (simp add: can_save_def)
  moreover have "length (enc_tbl (items_of T)) \<le> 4096" using assms(2) its(1) by (cases T) (auto simp: items_of_def)
  ultimately show ?thesis unfolding its(1) update_found [OF its(2)] by (simp add: enc_tbl_length)
qed

lemma enable_security_net:
  assumes "net_ok locked E cfg tbl a s"
  shows "\<exists>s'. bk_flash_enable_security E ty s = Some (kNoErr, s') \<and> net_ok locked E cfg tbl a s' \<and> hal_mem E s' = hal_mem E s
    \<and> hal_protect E cfg s' = protect_setting cfg ty"
  using enable_security_ok [of locked E cfg s ty] assms by (auto simp: net_ok_def store_ok_def same_layout_def)

lemma save_info_item_ok:
  assumes N: "net_ok locked E cfg tbl a s" and A: "net_abs (hal_mem E s) a T"
    and D: "item_data C item ptrs = Some data" and S: "can_save item T"
  shows "\<exists>s'. save_info_item C E True item ptrs s = Some (1, s') \<and> net_ok locked E cfg tbl a s'
    \<and> net_abs (hal_mem E s') a (Some (save_spec item data T))
    \<and> (\<forall>i. i div 4096 \<noteq> a div 4096 \<longrightarrow> hal_mem E s' i = hal_mem E s i)
    \<and> hal_protect E cfg s' = unprotect_last_block cfg"
proof -
  let ?its = "items_of T" and ?new = "enc_tbl (save_spec item data T)"
  obtain r s1 where r: "build_tbl C E True item (of_nat a) s = Some (Some r, s1)" "calm E cfg s s1" "built item ?its r"
    using build_tbl_ok [OF N A S, of C] by blast
  obtain buf off hl where br: "r = (buf, off, hl)" by (cases r)
  obtain H X h Z where b: "buf = H @ X @ h @ old_value item ?its @ Z" "length H = 8" "length h = 8" "unat off = 8 + length X"
    and new: "\<And>w. length w = length (old_value item ?its) \<Longrightarrow> head_bytes \<lparr>it_type = INFO_TLV_HEADER, it_len = hl\<rparr> @ X
       @ head_bytes \<lparr>it_type = item, it_len = info_item_len item - 8\<rparr> @ w @ Z = enc_tbl (AList.update item w ?its)"
    using r(3) unfolding built_def br by auto
  have ld: "length data \<le> length (old_value item ?its)" using item_data_fits [OF D] old_value_length [OF S] by simp
  then have lo: "length (over data (old_value item ?its)) = length (old_value item ?its)" by (simp add: over_def)
  let ?i = "\<lparr>it_type = item, it_len = info_item_len item - 8\<rparr>" and ?t = "\<lparr>it_type = INFO_TLV_HEADER, it_len = hl\<rparr>"
  have p: "do { buf \<leftarrow> fill_item C item ptrs (unat off + 8) buf; buf \<leftarrow> buf_put buf (unat off) (head_bytes ?i);
      buf_put buf 0 (head_bytes ?t) } = Some ?new"
    unfolding b(1) using patch_tbl [OF D b(2,3) ld b(4), of Z ?i ?t] new [OF lo] by (simp add: save_spec_def)
  have fits: "length ?new \<le> 4096" unfolding save_spec_def
    by (rule save_spec_fits [OF S]) (use A lo old_value_length [OF S] in auto)
  obtain s2 where s2: "bk_flash_enable_security E FLASH_PROTECT_NONE s1 = Some (kNoErr, s2)" "net_ok locked E cfg tbl a s2"
      "hal_mem E s2 = hal_mem E s"
    using enable_security_net [OF net_ok_calm [OF N r(2)]] r(2) by (auto simp: calm_def)
  have "?new \<noteq> []" by (simp add: enc_tbl_def head_bytes_def bytes32_def)
  moreover have "BkFlashPartitionIsValid C BK_PARTITION_NET_PARAM \<noteq> 0" by simp
  ultimately obtain s3 s4 where s4: "bk_flash_erase C E BK_PARTITION_NET_PARAM 0 (of_nat (length ?new)) s2 = Some (kNoErr, s3)"
      "bk_flash_write C E BK_PARTITION_NET_PARAM 0 (Some ?new) (of_nat (length ?new)) s3 = Some (kNoErr, s4)"
      "store_ok locked E cfg (Some tbl) s4"
      "hal_mem E s4 = (\<lambda>i. if a \<le> i \<and> i < a + length ?new then ?new ! (i - a)
        else if i div 4096 = a div 4096 then 0xFF else hal_mem E s2 i)"
    using partition_update [of locked E cfg tbl s2 C BK_PARTITION_NET_PARAM a ?new] s2(2) fits by (auto simp: net_ok_def)
  have n4: "net_ok locked E cfg tbl a s4" using s4(3) N by (simp add: net_ok_def)
  obtain s5 where s5: "bk_flash_enable_security E FLASH_UNPROTECT_LAST_BLOCK s4 = Some (kNoErr, s5)" "net_ok locked E cfg tbl a s5"
      "hal_mem E s5 = hal_mem E s4" "hal_protect E cfg s5 = unprotect_last_block cfg"
    using enable_security_net [OF n4, of FLASH_UNPROTECT_LAST_BLOCK] by auto
  have "save_info_item C E True item ptrs s = Some (1, s5)"
    using net_okD(3) [OF N, of C] r(1) p s2(1) s4(1,2) s5(1) unfolding save_info_item_def br
    by (auto split: bind_split_asm)
  moreover have "mem_slice (hal_mem E s5) a (length ?new) = ?new" by (rule nth_equalityI) (simp_all add: s5(3) s4(4))
  moreover have "hal_mem E s5 i = hal_mem E s i" if "i div 4096 \<noteq> a div 4096" for i
    using that sector_of_range [of a "length ?new" i] fits N by (auto simp: s5(3) s4(4) s2(3) net_ok_def)
  ultimately show ?thesis using s5(2,4) fits by simp
qed

section \<open>Properties\<close>

text \<open>
  (C3) \<open>save_info_item\<close> refines the update of an association list. For a sector that holds no table
  or a table of items (none of a wrong size for the item saved, and with room left), it returns 1
  and leaves the table in which the item has its new value, in place or appended at the end;
  bytes of the item that the arguments do not cover keep their value. Nothing outside the sector
  changes, and the protection is set to \<open>FLASH_UNPROTECT_LAST_BLOCK\<close>.
\<close>

theorem save_info_item_refines_update:
  assumes "net_ok locked E cfg tbl a s" and "net_abs (hal_mem E s) a T"
    and "item_data C item ptrs = Some data" and "can_save item T"
  shows "\<exists>s'. save_info_item C E True item ptrs s = Some (1, s')
    \<and> net_abs (hal_mem E s') a (Some (AList.update item (over data (old_value item (items_of T))) (items_of T)))
    \<and> (\<forall>i. i div 4096 \<noteq> a div 4096 \<longrightarrow> hal_mem E s' i = hal_mem E s i)
    \<and> hal_protect E cfg s' = unprotect_last_block cfg"
  using save_info_item_ok [OF assms] unfolding save_spec_def by blast

lemma sim_net_ok: "net_ok (\<lambda>sr _. bit sr 6) sim_env sim_cfg (bk7231_partitions_2M sim_conf) 0x1e1000 sim_hal2"
  using sim_chip_ok sim_hal_ok(2) by (simp add: net_ok_def store_ok_def partition_def)

lemma sim_net_abs: "net_abs (hal_mem sim_env sim_hal2) 0x1e1000 None"
proof -
  have "mem_slice (\<lambda>_. 0xFF :: byte) a 4 = replicate 4 0xFF" for a by (simp add: mem_slice_def map_replicate_const)
  moreover have "replicate 4 (0xFF :: byte) = [0xFF, 0xFF, 0xFF, 0xFF]" by (simp add: numeral_eq_Suc)
  ultimately show ?thesis by (simp add: le32_def INFO_TLV_HEADER_def)
qed

theorem save_info_item_refines_update_witness:
  "\<exists>s'. save_info_item sim_conf sim_env True WIFI_MODE_ITEM (Some [1, 2, 3, 4], None, None) sim_hal2 = Some (1, s')
    \<and> net_abs (hal_mem sim_env s') 0x1e1000 (Some [(WIFI_MODE_ITEM, [1, 2, 3, 4])])"
proof -
  have "item_data sim_conf WIFI_MODE_ITEM (Some [1, 2, 3, 4], None, None) = Some [1, 2, 3, 4]"
    by (simp add: item_data_def comm_items_def arg_def buf_get_def)
  moreover have "can_save WIFI_MODE_ITEM None"
    by (simp add: can_save_def items_of_def enc_tbl_length info_item_len_def comm_items_def)
  moreover have "over [1, 2, 3, 4] (old_value WIFI_MODE_ITEM (items_of None)) = [1, 2, 3, 4]" "items_of None = []"
    by (simp_all add: items_of_def over_def old_value_def info_item_len_def comm_items_def)
  ultimately show ?thesis
    using save_info_item_refines_update [OF sim_net_ok sim_net_abs, of sim_conf WIFI_MODE_ITEM "(Some [1, 2, 3, 4], None, None)"]
    by (auto simp del: net_abs.simps)
qed

text \<open>
  (C36) \<open>get_info_item\<close> looks the item up: for a sector that holds no table, or no item of the type, it
  returns 0 and stores nothing; otherwise it returns 1 and stores the value of the first item of
  the type, split over the buffers given (or 0, when a buffer is missing). The flash is unchanged.
\<close>

theorem get_info_item_looks_up:
  assumes "net_ok locked E cfg tbl a s" and "net_abs (hal_mem E s) a T"
    and "\<forall>v. map_of (items_of T) item = Some v \<longrightarrow> size_ok item v \<and> room item (length v) ptrs"
  shows "\<exists>r ptrs' s'. get_info_item C E item ptrs s = Some (r, ptrs', s') \<and> hal_mem E s' = hal_mem E s
    \<and> (r, ptrs') = (case map_of (items_of T) item of None \<Rightarrow> (0, ptrs) | Some v \<Rightarrow> deliver item v ptrs)"
proof -
  obtain r q where rq: "lookup_item T item ptrs = (r, q)" by (cases "lookup_item T item ptrs") blast
  have "\<exists>s'. get_info_item C E item ptrs s = Some (case lookup_item T item ptrs of (r, q) \<Rightarrow> (r, q, s')) \<and> calm E cfg s s'"
    by (rule get_info_item_ok [OF assms(1,2)]) (use assms(3) in \<open>auto simp: items_of_def\<close>)
  then obtain s' where "get_info_item C E item ptrs s = Some (r, q, s')" "hal_mem E s' = hal_mem E s"
    unfolding rq by (auto simp: calm_def)
  moreover have "(r, q) = (case map_of (items_of T) item of None \<Rightarrow> (0, ptrs) | Some v \<Rightarrow> deliver item v ptrs)"
    using rq by (cases T) (auto simp: lookup_item_def items_of_def)
  ultimately show ?thesis by blast
qed

theorem get_info_item_looks_up_witness:
  "(\<exists>s'. get_info_item sim_conf sim_env SSID_KEY_ITEM (Some [7], None, None) sim_hal2 = Some (0, (Some [7], None, None), s'))
   \<and> (\<exists>s1 s2. save_info_item sim_conf sim_env True SSID_KEY_ITEM (Some (replicate 32 1), Some (replicate 64 2), None) sim_hal2 = Some (1, s1)
      \<and> get_info_item sim_conf sim_env SSID_KEY_ITEM (Some (replicate 40 0), Some (replicate 64 0), None) s1
        = Some (1, (Some (replicate 32 1 @ replicate 8 0), Some (replicate 64 2), None), s2))"
proof
  show "\<exists>s'. get_info_item sim_conf sim_env SSID_KEY_ITEM (Some [7], None, None) sim_hal2 = Some (0, (Some [7], None, None), s')"
    using get_info_item_looks_up [OF sim_net_ok sim_net_abs, of SSID_KEY_ITEM "(Some [7], None, None)" sim_conf]
    by (auto simp: items_of_def)
  let ?v = "replicate 32 1 @ replicate 64 2 :: byte list" and ?p = "(Some (replicate 40 0), Some (replicate 64 0), None) :: ptrs3"
  have ne: "SSID_KEY_ITEM \<notin> set comm_items" "SSID_KEY_ITEM \<noteq> WIFI_MAC_ITEM" "SSID_KEY_ITEM \<noteq> CHARGE_CONFIG_ITEM"
    by (simp_all add: comm_items_def item_defs)
  have c: "can_save SSID_KEY_ITEM None"
    by (simp add: can_save_def items_of_def enc_tbl_length info_item_len_def comm_items_def item_defs)
  have d: "item_data sim_conf SSID_KEY_ITEM (Some (replicate 32 1), Some (replicate 64 2), None) = Some ?v"
    using ne by (simp add: item_data_def arg_def buf_get_def)
  obtain s1 where s1: "save_info_item sim_conf sim_env True SSID_KEY_ITEM (Some (replicate 32 1), Some (replicate 64 2), None) sim_hal2 = Some (1, s1)"
      "net_ok (\<lambda>sr _. bit sr 6) sim_env sim_cfg (bk7231_partitions_2M sim_conf) 0x1e1000 s1"
      "net_abs (hal_mem sim_env s1) 0x1e1000 (Some (save_spec SSID_KEY_ITEM ?v None))"
    using save_info_item_ok [OF sim_net_ok sim_net_abs d c] by blast
  have T: "save_spec SSID_KEY_ITEM ?v None = [(SSID_KEY_ITEM, ?v)]"
    using ne by (simp add: save_spec_def items_of_def old_value_def info_item_len_def over_def)
  have m: "map_of (items_of (Some (save_spec SSID_KEY_ITEM ?v None))) SSID_KEY_ITEM = Some ?v"
    by (simp add: T items_of_def)
  have "size_ok SSID_KEY_ITEM ?v" "room SSID_KEY_ITEM (length ?v) ?p" by (simp_all add: size_ok_def room_def)
  moreover have "deliver SSID_KEY_ITEM ?v ?p = (1, (Some (replicate 32 1 @ replicate 8 0), Some (replicate 64 2), None))"
    using ne by (simp add: deliver_def over_def)
  ultimately show "\<exists>s1 s2. save_info_item sim_conf sim_env True SSID_KEY_ITEM (Some (replicate 32 1), Some (replicate 64 2), None) sim_hal2 = Some (1, s1)
      \<and> get_info_item sim_conf sim_env SSID_KEY_ITEM ?p s1
        = Some (1, (Some (replicate 32 1 @ replicate 8 0), Some (replicate 64 2), None), s2)"
    using get_info_item_looks_up [OF s1(2,3), of SSID_KEY_ITEM ?p sim_conf] s1(1) m
    by (auto simp del: replicate_Suc net_abs.simps)
qed

text \<open>
  (C37) Round trip of the access point's name and key, the parameters that every boot reads back:
  after \<open>save_info_item\<close>, \<open>get_info_item\<close> returns them, and every other item is found as before.
\<close>

theorem ssid_key_roundtrip:
  assumes "net_ok locked E cfg tbl a s" and "net_abs (hal_mem E s) a T" and "can_save SSID_KEY_ITEM T"
    and "length ssid = 32" and "length key = 64" and "length p = 32" and "length q = 64"
  shows "\<exists>s1 s2 T'. save_info_item C E True SSID_KEY_ITEM (Some ssid, Some key, None) s = Some (1, s1)
    \<and> get_info_item C E SSID_KEY_ITEM (Some p, Some q, None) s1 = Some (1, (Some ssid, Some key, None), s2)
    \<and> net_abs (hal_mem E s2) a (Some T')
    \<and> (\<forall>item. item \<noteq> SSID_KEY_ITEM \<longrightarrow> map_of T' item = map_of (items_of T) item)"
proof -
  let ?v = "ssid @ key" and ?T = "save_spec SSID_KEY_ITEM (ssid @ key) T"
  have ne: "SSID_KEY_ITEM \<notin> set comm_items" "SSID_KEY_ITEM \<noteq> WIFI_MAC_ITEM" "SSID_KEY_ITEM \<noteq> CHARGE_CONFIG_ITEM"
    by (simp_all add: comm_items_def item_defs)
  have d: "item_data C SSID_KEY_ITEM (Some ssid, Some key, None) = Some ?v"
    using ne assms(4,5) by (simp add: item_data_def arg_def buf_get_def)
  have "length (old_value SSID_KEY_ITEM (items_of T)) = 96"
    using old_value_length [OF assms(3)] ne by (simp add: info_item_len_def)
  then have "over ?v (old_value SSID_KEY_ITEM (items_of T)) = ?v" using assms(4,5) by (simp add: over_def)
  then have T: "?T = AList.update SSID_KEY_ITEM ?v (items_of T)" by (simp add: save_spec_def)
  obtain s1 where s1: "save_info_item C E True SSID_KEY_ITEM (Some ssid, Some key, None) s = Some (1, s1)"
      "net_ok locked E cfg tbl a s1" "net_abs (hal_mem E s1) a (Some ?T)"
    using save_info_item_ok [OF assms(1,2) d assms(3)] by blast
  have m: "map_of ?T SSID_KEY_ITEM = Some ?v" unfolding T by (simp add: update_conv)
  have "size_ok SSID_KEY_ITEM ?v" "room SSID_KEY_ITEM (length ?v) (Some p, Some q, None)"
    using assms(4-7) by (simp_all add: size_ok_def room_def)
  moreover have "deliver SSID_KEY_ITEM ?v (Some p, Some q, None) = (1, (Some ssid, Some key, None))"
    using ne assms(4-7) by (simp add: deliver_def over_def)
  ultimately obtain s2 where "get_info_item C E SSID_KEY_ITEM (Some p, Some q, None) s1 = Some (1, (Some ssid, Some key, None), s2)"
      "calm E cfg s1 s2"
    using get_info_item_found [OF s1(2,3) m, of "(Some p, Some q, None)" C] by auto
  moreover have "net_abs (hal_mem E s2) a (Some ?T)" using \<open>calm E cfg s1 s2\<close> s1(3) by (simp add: calm_def)
  moreover have "map_of ?T item = map_of (items_of T) item" if "item \<noteq> SSID_KEY_ITEM" for item
    using that unfolding T by (simp add: update_conv)
  ultimately show ?thesis using s1(1) by blast
qed

theorem ssid_key_roundtrip_witness:
  "\<exists>s1 s2. save_info_item sim_conf sim_env True SSID_KEY_ITEM (Some (replicate 32 1), Some (replicate 64 2), None) sim_hal2 = Some (1, s1)
    \<and> get_info_item sim_conf sim_env SSID_KEY_ITEM (Some (replicate 32 0), Some (replicate 64 0), None) s1
      = Some (1, (Some (replicate 32 1), Some (replicate 64 2), None), s2)"
proof -
  have "can_save SSID_KEY_ITEM None"
    by (simp add: can_save_def items_of_def enc_tbl_length info_item_len_def comm_items_def item_defs)
  then show ?thesis
    using ssid_key_roundtrip [OF sim_net_ok sim_net_abs, of "replicate 32 1" "replicate 64 2" "replicate 32 0" "replicate 64 0" sim_conf]
    by (auto simp del: replicate_Suc net_abs.simps)
qed

text \<open>An item whose length leads back to itself keeps the search in place.\<close>

definition stuck_at :: "'c flash_env \<Rightarrow> u32 \<Rightarrow> u32 \<Rightarrow> u32 \<Rightarrow> 'c flash_hal \<Rightarrow> bool" where
  "stuck_at E ty addr e s \<longleftrightarrow> unat addr + 8 \<le> 2 ^ 24 \<and> addr < e
     \<and> it_type (head_of (mem_slice (hal_mem E s) (unat addr) 8)) \<noteq> ty
     \<and> it_len (head_of (mem_slice (hal_mem E s) (unat addr) 8)) = - 8"

lemma search_item_loop_stuck:
  assumes "hal_ok E cfg s" "stuck_at E ty addr e s"
  shows "search_item_loop E ty addr e s = None"
proof -
  have "hal_ok E cfg s \<longrightarrow> \<not> stuck_at E ty addr e s" if "search_item_loop E ty addr e s = Some r" for r
  proof (rule search_item_loop.raw_induct [where P = "\<lambda>E ty addr e s r. hal_ok E cfg s \<longrightarrow> \<not> stuck_at E ty addr e s", OF _ that])
    fix search E ty addr e s r
    assume ih: "\<And>E ty addr e s r. search E ty addr e s = Some r \<Longrightarrow> hal_ok E cfg s \<longrightarrow> \<not> stuck_at E ty addr e s"
      and body: "(if addr < e then flash_ddev_read E 8 addr s \<bind>
        (\<lambda>(bs, s). if ty \<noteq> it_type (head_of bs) then search E ty (addr + 8 + it_len (head_of bs)) e s else Some (addr, s))
        else Some (addr, s)) = Some r"
    show "hal_ok E cfg s \<longrightarrow> \<not> stuck_at E ty addr e s"
    proof (intro impI notI)
      assume ok: "hal_ok E cfg s" and st: "stuck_at E ty addr e s"
      obtain s1 where s1: "flash_ddev_read E 8 addr s = Some (mem_slice (hal_mem E s) (unat addr) 8, s1)" "calm E cfg s s1"
        using read_calm [OF ok, of addr 8] st by (auto simp: stuck_at_def)
      have "search E ty addr e s1 = Some r" using body st s1(1) by (auto simp: stuck_at_def add.assoc)
      moreover have "stuck_at E ty addr e s1" "hal_ok E cfg s1" using st s1(2) by (simp_all add: stuck_at_def calm_def)
      ultimately show False using ih by blast
    qed
  qed
  then show ?thesis using assms by (cases "search_item_loop E ty addr e s") auto
qed

text \<open>
  A damaged table can stop the device: if the first item has the length \<open>0xFFFFFFF8\<close> and another
  type than the item asked for, the address computed for the next item is the address of the same
  item, and \<open>get_info_item\<close> does not return.
\<close>

theorem get_info_item_hangs:
  assumes "net_ok locked E cfg tbl a s"
    and "head_of (mem_slice (hal_mem E s) a 8) = \<lparr>it_type = INFO_TLV_HEADER, it_len = n\<rparr>" and "0 < n" and "n \<le> 4088"
    and "head_of (mem_slice (hal_mem E s) (a + 8) 8) = \<lparr>it_type = t, it_len = 0xFFFFFFF8\<rparr>" and "t \<noteq> item"
  shows "get_info_item C E item ptrs s = None"
proof -
  note N = net_okD [OF assms(1)]
  define addr :: u32 where "addr = of_nat a + 8"
  have u: "unat addr = a + 8" using N(2,4) by (simp add: addr_def unat_add_no_wrap)
  have "unat (addr + n) = a + 8 + unat n" using u N(2) assms(4) by (simp add: unat_add_no_wrap word_le_nat_alt)
  then have "addr < addr + n" using u assms(3) by (simp add: word_less_nat_alt)
  moreover have "a + 16 \<le> 2 ^ 24" using N(2) by simp
  ultimately have st: "stuck_at E item addr (addr + n) t" if "hal_mem E t = hal_mem E s" for t
    using assms(5,6) u that by (simp add: stuck_at_def)
  obtain s1 where s1: "flash_ddev_open s = Some s1" "calm E cfg s s1" using open_calm [OF N(1)] by blast
  obtain s2 where s2: "flash_ddev_read E 8 (of_nat a) s1 = Some (mem_slice (hal_mem E s) a 8, s2)" "calm E cfg s s2"
    using read_calm [OF calm_ok [OF s1(2)], of "of_nat a" 8] N(2,4) s1(2) by (auto simp: calm_def)
  define s3 where "s3 = flash_ddev_close s2"
  have c3: "calm E cfg s s3" using calm_trans [OF s2(2) close_calm [OF calm_ok [OF s2(2)]]] by (simp add: s3_def)
  have tbl: "search_info_tbl C E False s = Some (1, n + 8, [], s3)"
    using N(3) s1(1) s2(1) assms(2) by (simp add: search_info_tbl_def s3_def)
  obtain s4 where s4: "flash_ddev_open s3 = Some s4" "calm E cfg s s4"
    using open_calm [OF calm_ok [OF c3]] calm_trans [OF c3] by blast
  obtain s5 where s5: "flash_ddev_read E 8 (of_nat a) s4 = Some (mem_slice (hal_mem E s) a 8, s5)" "calm E cfg s s5"
    using read_calm [OF calm_ok [OF s4(2)], of "of_nat a" 8] N(2,4) s4(2) by (auto simp: calm_def)
  have "search_item_loop E item addr (addr + n) s5 = None"
    using search_item_loop_stuck [OF calm_ok [OF s5(2)] st] s5(2) by (simp add: calm_def)
  then have "search_info_item E item (of_nat a) s3 = None"
    using s4(1) s5(1) assms(2) by (simp add: search_info_item_def addr_def)
  then show ?thesis using tbl net_okD(3) [OF net_ok_calm [OF assms(1) c3], of C] by (simp add: get_info_item_def)
qed

definition sim_bad :: "nat \<Rightarrow> byte" where
  "sim_bad i = (let bs = head_bytes \<lparr>it_type = INFO_TLV_HEADER, it_len = 100\<rparr> @ head_bytes \<lparr>it_type = 5, it_len = 0xFFFFFFF8\<rparr> in
     if 0x1e1000 \<le> i \<and> i < 0x1e1010 then bs ! (i - 0x1e1000) else 0xFF)"

lemma sim_bad_slices:
  "mem_slice sim_bad 0x1e1000 8 = head_bytes \<lparr>it_type = INFO_TLV_HEADER, it_len = 100\<rparr>"
  "mem_slice sim_bad 0x1e1008 8 = head_bytes \<lparr>it_type = 5, it_len = 0xFFFFFFF8\<rparr>"
  by (rule nth_equalityI; simp add: sim_bad_def nth_append)+

theorem get_info_item_hangs_witness:
  "get_info_item sim_conf sim_env WIFI_MAC_ITEM (Some (replicate 8 0), None, None)
     (sim_hal2\<lparr>hal_dev := sim_state\<lparr>chip_st := (sim_bad, 0)\<rparr>\<rparr>) = None"
proof -
  let ?s = "sim_hal2\<lparr>hal_dev := sim_state\<lparr>chip_st := (sim_bad, 0)\<rparr>\<rparr>"
  have m: "ch_read (env_chip sim_env) (sim_bad, 0) = sim_bad" by (simp add: sim_env_def sim_chip_def)
  have "hal_ok sim_env sim_cfg ?s" by (simp add: hal_ok_def flash_ready_def) (simp add: sim_state_def)
  then have "net_ok (\<lambda>sr _. bit sr 6) sim_env sim_cfg (bk7231_partitions_2M sim_conf) 0x1e1000 ?s"
    using sim_chip_ok by (simp add: net_ok_def store_ok_def partition_def)
  then show ?thesis
    by (rule get_info_item_hangs [where n = 100 and t = 5]) (simp_all add: m sim_bad_slices item_defs)
qed
end
