(* ===== verification/Kv_Store.thy ===== *)
theory Kv_Store
  imports Flash_Partition_Props
begin

text \<open>
  The key-value store of the Matter port, \<open>func/key_value_flash/flash_namespace_value.c\<close>: values
  under a namespace and a name, in a partition of the flash. The first sector holds the entries of
  the namespaces; each namespace has one sector with the entries of its names and one sector with
  their values. An entry is only ever programmed from the erased state or masked by clearing bits;
  when a sector is full, it is erased and the entries in use are written again.

  Conventions.
  \<^item> A string argument is the list of its characters, without the terminating zero; a pointer
    argument that the code compares with \<open>NULL\<close> is an option.
  \<^item> \<open>os_malloc\<close> is the parameter \<open>mem\<close>: whether the call at each place succeeds.
  \<^item> \<open>get_namespace_addr\<close>, \<open>get_name_addr\<close> and \<open>bk_set_namespace\<close> return \<open>None\<close> for \<open>kGeneralErr\<close>;
    their output cells are used only after \<open>kNoErr\<close>, and are then the value under \<open>Some\<close>.
  \<^item> \<open>FLASH_NAME_SPACE_MAX_ARRAY\<close> is a call that reads the partition table; the table does not change
    while an operation runs, and its value is read once per operation.
\<close>

section \<open>Entries\<close>

definition FLASH_SPACE_USING :: u32 where "FLASH_SPACE_USING = 0xFFFFFF55"
definition FLASH_SPACE_MASK :: u32 where "FLASH_SPACE_MASK = 0xFFFF5555"
definition FLASH_NAME_MAX_ARRAY :: nat where "FLASH_NAME_MAX_ARRAY = 64"
definition FLASH_SECTOR_SIZE :: u32 where "FLASH_SECTOR_SIZE = 0x1000"
definition NAME_SPACE_FLASH_TOTAL_SIZE :: u32 where "NAME_SPACE_FLASH_TOTAL_SIZE = 0x1000"

record namespace_flash_t =
  ns_dwUsingFlag :: u32
  ns_dwOffsetByByte :: u32
  ucNamespace :: "byte list"

record name_flash_t =
  dwUsingFlag :: u32
  dwOffsetByByte :: u32
  dwlength :: u32
  ucName :: "byte list"

text \<open>\<open>PER_NAME_SPACE_FLASH_SIZE\<close> and \<open>PER_NAME_FLASH_SIZE\<close> are 64: the layouts of the two structures.\<close>

definition namespace_of :: "byte list \<Rightarrow> namespace_flash_t" where
  "namespace_of bs = \<lparr>ns_dwUsingFlag = le32 (take 4 bs), ns_dwOffsetByByte = le32 (take 4 (drop 4 bs)),
     ucNamespace = take 56 (drop 8 bs)\<rparr>"

definition namespace_bytes :: "namespace_flash_t \<Rightarrow> byte list" where
  "namespace_bytes e = bytes32 (ns_dwUsingFlag e) @ bytes32 (ns_dwOffsetByByte e) @ ucNamespace e"

definition name_of :: "byte list \<Rightarrow> name_flash_t" where
  "name_of bs = \<lparr>dwUsingFlag = le32 (take 4 bs), dwOffsetByByte = le32 (take 4 (drop 4 bs)),
     dwlength = le32 (take 4 (drop 8 bs)), ucName = take 52 (drop 12 bs)\<rparr>"

definition name_bytes :: "name_flash_t \<Rightarrow> byte list" where
  "name_bytes e = bytes32 (dwUsingFlag e) @ bytes32 (dwOffsetByByte e) @ bytes32 (dwlength e) @ ucName e"

text \<open>The element \<open>i\<close> of an array of such structures.\<close>

definition elem_at :: "byte list \<Rightarrow> nat \<Rightarrow> byte list" where
  "elem_at arr i = take 64 (drop (64 * i) arr)"

section \<open>Strings\<close>

definition cstr :: "string \<Rightarrow> byte list" where "cstr s = map of_char s"

text \<open>\<open>strlen\<close> of the bytes from a place in a buffer on; it runs out of the buffer if no byte is zero.\<close>

definition strlen_in :: "byte list \<Rightarrow> nat option" where
  "strlen_in bs = (if 0 \<in> set bs then Some (length (takeWhile (\<lambda>b. b \<noteq> 0) bs)) else None)"

definition bk_strnlen :: "byte list \<Rightarrow> nat \<Rightarrow> nat" where
  "bk_strnlen ucdata dwLenMax = (let dwDataLen = length ucdata in if dwDataLen \<ge> dwLenMax then dwLenMax else dwDataLen)"

text \<open>A field of \<open>n\<close> bytes after \<open>memset\<close> to zero and \<open>memcpy\<close> of the first characters of a string.\<close>

definition str_field :: "nat \<Rightarrow> byte list \<Rightarrow> byte list" where
  "str_field n s = (let k = bk_strnlen s (n - 1) in take k s @ replicate (n - k) 0)"

text \<open>
  The places that call \<open>os_malloc\<close>: in \<open>get_namespace_addr\<close>, \<open>get_name_addr\<close>,
  \<open>bk_set_name_data_new_addr\<close> (twice), \<open>bk_set_namespace\<close> and \<open>bK_clear_namespace\<close>.
\<close>

datatype malloc_site = M_namespace_addr | M_name_addr | M_name_temp | M_data_buff | M_set_namespace | M_clear_namespace

text \<open>\<open>kNoErr\<close> and \<open>kGeneralErr\<close> as the \<open>uint32_t\<close> that the functions return.\<close>

definition status :: "OSStatus \<Rightarrow> u32" where "status st = of_int st"

definition matter_partition :: "byte list \<Rightarrow> bk_partition_t" where
  "matter_partition ucnamespace =
     (if ucnamespace = cstr ''chip-factory'' then BK_PARTITION_MATTER_FACTORY_FLASH else BK_PARTITION_MATTER_FLASH)"

text \<open>The base address, or the inner \<open>None\<close> for \<open>kGeneralErr\<close>.\<close>

definition get_matter_flash_base_addr :: "part_conf \<Rightarrow> byte list \<Rightarrow> 'c flash_hal \<Rightarrow> u32 option option" where
  "get_matter_flash_base_addr C ucnamespace s = do {
     partition_info \<leftarrow> bk_flash_get_info C (matter_partition ucnamespace) s;
     Some (map_option partition_start_addr partition_info) }"

definition get_falsh_name_space_max_array :: "part_conf \<Rightarrow> byte list \<Rightarrow> 'c flash_hal \<Rightarrow> u8 option" where
  "get_falsh_name_space_max_array C ucnamespace s = do {
     partition_info \<leftarrow> bk_flash_get_info C (matter_partition ucnamespace) s;
     Some (case partition_info of
             None \<Rightarrow> of_int kGeneralErr
           | Some pt \<Rightarrow> ucast ((partition_length pt div FLASH_SECTOR_SIZE) div 2)) }"

text \<open>\<open>NAME_FLASH_TOTAL_HEADER\<close> and \<open>NAME_FLASH_DATA_BASE_ADDR\<close>, for a value of \<open>FLASH_NAME_SPACE_MAX_ARRAY\<close>.\<close>

definition NAME_FLASH_TOTAL_SIZE :: u32 where "NAME_FLASH_TOTAL_SIZE = 64 * of_nat FLASH_NAME_MAX_ARRAY"

definition NAME_FLASH_TOTAL_HEADER :: "u8 \<Rightarrow> u32" where
  "NAME_FLASH_TOTAL_HEADER mx = NAME_SPACE_FLASH_TOTAL_SIZE + NAME_FLASH_TOTAL_SIZE * ucast mx"

definition NAME_FLASH_DATA_BASE_ADDR :: "u8 \<Rightarrow> u32" where
  "NAME_FLASH_DATA_BASE_ADDR mx =
     (let h = NAME_FLASH_TOTAL_HEADER mx in
      if h AND 0xFFF \<noteq> 0 then (h AND NOT 0xFFF) + 0x1000 else h AND NOT 0xFFF)"

text \<open>
  \<open>change_namespace_to_beken(&ucnamespace, name, buf, buf_len)\<close>. The argument \<open>name\<close> is a pointer to
  a pointer: \<open>None\<close> and \<open>Some None\<close> are the two ways to have no name, which are dereferenced only for the
  two namespaces that move. The length of the new name, with the dot and the terminating zero, is
  not what the code compares with \<open>buf_len\<close>; a longer one is written behind \<open>buf\<close>.
\<close>

definition move_namespace ::
  "string \<Rightarrow> byte list \<Rightarrow> byte list option option \<Rightarrow> nat \<Rightarrow> (u8 \<times> byte list \<times> byte list option option) option" where
  "move_namespace beken ucnamespace name buf_len = do {
     p \<leftarrow> name;
     nm \<leftarrow> p;
     if length ucnamespace + length nm > buf_len then Some (of_int kGeneralErr, ucnamespace, name)
     else if length ucnamespace + 1 + length nm + 1 > buf_len then None
     else Some (of_int kNoErr, cstr beken, Some (Some (ucnamespace @ cstr ''.'' @ nm))) }"

definition change_namespace_to_beken ::
  "byte list \<Rightarrow> byte list option option \<Rightarrow> nat \<Rightarrow> (u8 \<times> byte list \<times> byte list option option) option" where
  "change_namespace_to_beken ucnamespace name buf_len =
     (if ucnamespace = cstr ''chip-config'' then move_namespace ''BEKEN0'' ucnamespace name buf_len
      else if ucnamespace = cstr ''chip-counters'' then move_namespace ''BEKEN1'' ucnamespace name buf_len
      else Some (of_int kNoErr, ucnamespace, name))"

section \<open>Access to the flash\<close>

text \<open>
  What the operations do around their accesses: open the device, save the protection setting and
  lift it; and set it again.
\<close>

definition get_protect :: "'c flash_env \<Rightarrow> 'c flash_hal \<Rightarrow> (flash_parm \<times> 'c flash_hal) option" where
  "get_protect E s = do {
     (st, protect_flag, s) \<leftarrow> flash_ddev_control E CMD_FLASH_GET_PROTECT (PARM_U32 0) s;
     Some (protect_flag, s) }"

definition set_protect :: "'c flash_env \<Rightarrow> flash_parm \<Rightarrow> 'c flash_hal \<Rightarrow> 'c flash_hal option" where
  "set_protect E protect_param s = do {
     (st, p, s) \<leftarrow> flash_ddev_control E CMD_FLASH_SET_PROTECT protect_param s;
     Some s }"

definition lift_protect :: "'c flash_env \<Rightarrow> 'c flash_hal \<Rightarrow> (flash_parm \<times> 'c flash_hal) option" where
  "lift_protect E s = do {
     (protect_flag, s) \<leftarrow> get_protect E s;
     s \<leftarrow> set_protect E (PARM_U32 (protect_code FLASH_PROTECT_NONE)) s;
     Some (protect_flag, s) }"

definition open_unprotected :: "'c flash_env \<Rightarrow> 'c flash_hal \<Rightarrow> (flash_parm \<times> 'c flash_hal) option" where
  "open_unprotected E s = flash_ddev_open s \<bind> lift_protect E"

definition erase_sector :: "'c flash_env \<Rightarrow> u32 \<Rightarrow> 'c flash_hal \<Rightarrow> 'c flash_hal option" where
  "erase_sector E a s = do {
     (st, p, s) \<leftarrow> flash_ddev_control E CMD_FLASH_ERASE_SECTOR (PARM_U32 a) s;
     Some s }"

section \<open>Searching\<close>

text \<open>The loops, by the number of the rounds left; the inner \<open>None\<close> is the loop that ends without a match.\<close>

fun namespace_loop :: "byte list \<Rightarrow> byte list \<Rightarrow> nat \<Rightarrow> nat \<Rightarrow> (u32 \<times> nat) option option" where
  "namespace_loop arr ucnamespace 0 dw_loop = Some None"
| "namespace_loop arr ucnamespace (Suc n) dw_loop =
     (let e = namespace_of (elem_at arr dw_loop); k = bk_strnlen ucnamespace 55 in
      if ns_dwUsingFlag e \<noteq> FLASH_SPACE_USING then namespace_loop arr ucnamespace n (dw_loop + 1)
      else if take k (ucNamespace e) = take k ucnamespace then do {
        l \<leftarrow> strlen_in (drop (64 * dw_loop + 8) arr);
        if l \<noteq> length ucnamespace then namespace_loop arr ucnamespace n (dw_loop + 1)
        else Some (Some (ns_dwOffsetByByte e, dw_loop)) }
      else namespace_loop arr ucnamespace n (dw_loop + 1))"

definition get_namespace_addr ::
  "part_conf \<Rightarrow> 'c flash_env \<Rightarrow> (malloc_site \<Rightarrow> bool) \<Rightarrow> byte list \<Rightarrow> u32 \<Rightarrow> 'c flash_hal
     \<Rightarrow> ((u32 \<times> u32) option \<times> 'c flash_hal) option" where
  "get_namespace_addr C E mem ucnamespace np_base_addr s = do {
     mx \<leftarrow> get_falsh_name_space_max_array C ucnamespace s;
     if \<not> mem M_namespace_addr then Some (None, s)
     else do {
       (protect_flag, s) \<leftarrow> open_unprotected E s;
       (namespace_data_arr, s) \<leftarrow> flash_ddev_read E (64 * ucast mx) np_base_addr s;
       s \<leftarrow> set_protect E protect_flag s;
       r \<leftarrow> namespace_loop namespace_data_arr ucnamespace (unat mx) 0;
       Some (map_option (\<lambda>(addr, block). (addr, of_nat block)) r, s) } }"

fun name_loop :: "byte list \<Rightarrow> byte list \<Rightarrow> nat \<Rightarrow> nat \<Rightarrow> (nat \<times> u32) option option" where
  "name_loop arr ucname 0 dw_loop = Some None"
| "name_loop arr ucname (Suc n) dw_loop =
     (let e = name_of (elem_at arr dw_loop); k = bk_strnlen ucname 51 in
      if dwUsingFlag e \<noteq> FLASH_SPACE_USING then name_loop arr ucname n (dw_loop + 1)
      else if take k (ucName e) = take k ucname then do {
        l \<leftarrow> strlen_in (drop (64 * dw_loop + 12) arr);
        if l \<noteq> length ucname then name_loop arr ucname n (dw_loop + 1)
        else Some (Some (dw_loop, dwOffsetByByte e)) }
      else name_loop arr ucname n (dw_loop + 1))"

text \<open>The offset of the entry in its sector and the offset of the value.\<close>

definition get_name_addr ::
  "'c flash_env \<Rightarrow> (malloc_site \<Rightarrow> bool) \<Rightarrow> byte list option \<Rightarrow> u32 \<Rightarrow> 'c flash_hal
     \<Rightarrow> ((u32 \<times> u32) option \<times> 'c flash_hal) option" where
  "get_name_addr E mem ucname base_addr s =
     (case ucname of
        None \<Rightarrow> Some (None, s)
      | Some nm \<Rightarrow>
          if \<not> mem M_name_addr then Some (None, s)
          else do {
            (protect_flag, s) \<leftarrow> open_unprotected E s;
            (name_data_arr, s) \<leftarrow> flash_ddev_read E NAME_FLASH_TOTAL_SIZE base_addr s;
            s \<leftarrow> set_protect E protect_flag s;
            r \<leftarrow> name_loop name_data_arr nm FLASH_NAME_MAX_ARRAY 0;
            Some (map_option (\<lambda>(i, data_offset_addr). (of_nat i * 64, data_offset_addr)) r, s) })"

section \<open>Writing\<close>

definition bk_erase_name_data :: "'c flash_env \<Rightarrow> u32 \<Rightarrow> u32 \<Rightarrow> 'c flash_hal \<Rightarrow> (u32 \<times> 'c flash_hal) option" where
  "bk_erase_name_data E n_base_addr data_sector_addr s = do {
     (protect_flag, s) \<leftarrow> open_unprotected E s;
     s \<leftarrow> erase_sector E n_base_addr s;
     s \<leftarrow> erase_sector E data_sector_addr s;
     s \<leftarrow> set_protect E protect_flag s;
     Some (status kNoErr, s) }"

text \<open>
  The loop of \<open>bk_reorganize_name_data\<close>: the entries in use and their values are written again. The
  state of the loop is \<open>dw_data_addr\<close>, \<open>dw_name_addr\<close> and \<open>dw_offset\<close>.
\<close>

fun reorganize_loop ::
  "'c flash_env \<Rightarrow> byte list \<Rightarrow> byte list \<Rightarrow> nat \<Rightarrow> nat \<Rightarrow> u32 \<times> u32 \<times> u32 \<Rightarrow> 'c flash_hal
     \<Rightarrow> ((u32 \<times> u32 \<times> u32) \<times> 'c flash_hal) option" where
  "reorganize_loop E name_temp databuf 0 dw_loop v s = Some (v, s)"
| "reorganize_loop E name_temp databuf (Suc n) dw_loop (dw_data_addr, dw_name_addr, dw_offset) s =
     (let e = name_of (elem_at name_temp dw_loop) in
      if dwUsingFlag e = FLASH_SPACE_USING then do {
        bs \<leftarrow> buf_get databuf (unat (dwOffsetByByte e)) (unat (dwlength e));
        s \<leftarrow> flash_ddev_write E bs (dwlength e) dw_data_addr s;
        s \<leftarrow> flash_ddev_write E (name_bytes (e\<lparr>dwOffsetByByte := dw_offset\<rparr>)) 64 dw_name_addr s;
        reorganize_loop E name_temp databuf n (dw_loop + 1)
          (dw_data_addr + dwlength e, dw_name_addr + 64, dw_offset + dwlength e) s }
      else reorganize_loop E name_temp databuf n (dw_loop + 1) (dw_data_addr, dw_name_addr, dw_offset) s)"

text \<open>The value, and then the entry with its length, its offset and the flag, in a place that is free.\<close>

definition write_name_data ::
  "'c flash_env \<Rightarrow> byte list \<Rightarrow> u32 \<Rightarrow> u32 \<Rightarrow> u32 \<Rightarrow> u32 \<Rightarrow> name_flash_t \<Rightarrow> 'c flash_hal \<Rightarrow> (u32 \<times> 'c flash_hal) option" where
  "write_name_data E indata dw_data_len dw_data_addr dw_name_addr dw_offset name_data s = do {
     s \<leftarrow> flash_ddev_write E indata dw_data_len dw_data_addr s;
     let name_data = name_data\<lparr>dwlength := dw_data_len, dwOffsetByByte := dw_offset, dwUsingFlag := FLASH_SPACE_USING\<rparr>;
     s \<leftarrow> flash_ddev_write E (name_bytes name_data) 64 dw_name_addr s;
     Some (status kNoErr, s) }"

definition bk_reorganize_name_data ::
  "'c flash_env \<Rightarrow> u32 \<Rightarrow> byte list \<Rightarrow> byte list \<Rightarrow> u32 \<Rightarrow> byte list \<Rightarrow> u32 \<Rightarrow> name_flash_t \<Rightarrow> 'c flash_hal
     \<Rightarrow> (u32 \<times> 'c flash_hal) option" where
  "bk_reorganize_name_data E n_base_addr name_temp databuf data_sector_addr indata dw_data_len name_data s = do {
     (protect_flag, s) \<leftarrow> open_unprotected E s;
     s \<leftarrow> erase_sector E n_base_addr s;
     s \<leftarrow> erase_sector E data_sector_addr s;
     ((dw_data_addr, dw_name_addr, dw_offset), s) \<leftarrow>
       reorganize_loop E name_temp databuf FLASH_NAME_MAX_ARRAY 0 (data_sector_addr, n_base_addr, 0) s;
     (dw_rtn, s) \<leftarrow>
       (if dw_offset + dw_data_len \<ge> FLASH_SECTOR_SIZE then Some (status kGeneralErr, s)
        else write_name_data E indata dw_data_len dw_data_addr dw_name_addr dw_offset name_data s);
     s \<leftarrow> set_protect E protect_flag s;
     Some (dw_rtn, s) }"

text \<open>
  The search of \<open>bk_set_name_data_new_addr\<close> for an entry that is neither in use nor masked: its number
  and \<open>data_offset_addr\<close>, or, when there is none, \<open>dw_mask_count\<close>.
\<close>

fun free_entry_loop :: "byte list \<Rightarrow> nat \<Rightarrow> nat \<Rightarrow> u32 \<Rightarrow> nat \<Rightarrow> (nat \<times> u32) + nat" where
  "free_entry_loop name_temp 0 dw_loop data_offset_addr dw_mask_count = Inr dw_mask_count"
| "free_entry_loop name_temp (Suc n) dw_loop data_offset_addr dw_mask_count =
     (let e = name_of (elem_at name_temp dw_loop) in
      if dwUsingFlag e \<noteq> FLASH_SPACE_USING \<and> dwUsingFlag e \<noteq> FLASH_SPACE_MASK then Inl (dw_loop, data_offset_addr)
      else free_entry_loop name_temp n (dw_loop + 1) (dwOffsetByByte e + dwlength e)
             (if dwUsingFlag e = FLASH_SPACE_MASK then dw_mask_count + 1 else dw_mask_count))"

text \<open>What \<open>bk_set_name_data_new_addr\<close> does with the place that it has found.\<close>

definition place_name_data ::
  "'c flash_env \<Rightarrow> byte list \<Rightarrow> u32 \<Rightarrow> u32 \<Rightarrow> byte list \<Rightarrow> u32 \<Rightarrow> name_flash_t \<Rightarrow> 'c flash_hal \<Rightarrow> (u32 \<times> 'c flash_hal) option" where
  "place_name_data E name_temp data_sector_addr base_addr indata dw_data_len name_data s =
     (case free_entry_loop name_temp FLASH_NAME_MAX_ARRAY 0 0 0 of
        Inl (dw_loop, data_offset_addr) \<Rightarrow>
          if data_offset_addr + dw_data_len \<ge> FLASH_SECTOR_SIZE then do {
            (data_buff, s) \<leftarrow> flash_ddev_read E FLASH_SECTOR_SIZE data_sector_addr s;
            bk_reorganize_name_data E base_addr name_temp data_buff data_sector_addr indata dw_data_len name_data s }
          else write_name_data E indata dw_data_len (data_sector_addr + data_offset_addr) (base_addr + of_nat dw_loop * 64)
                 data_offset_addr name_data s
      | Inr dw_mask_count \<Rightarrow>
          if dw_mask_count > 0 then do {
            (data_buff, s) \<leftarrow> flash_ddev_read E FLASH_SECTOR_SIZE data_sector_addr s;
            bk_reorganize_name_data E base_addr name_temp data_buff data_sector_addr indata dw_data_len name_data s }
          else Some (status kGeneralErr, s))"

definition bk_set_name_data_new_addr ::
  "'c flash_env \<Rightarrow> (malloc_site \<Rightarrow> bool) \<Rightarrow> u32 \<Rightarrow> u32 \<Rightarrow> byte list \<Rightarrow> u32 \<Rightarrow> name_flash_t \<Rightarrow> 'c flash_hal
     \<Rightarrow> (u32 \<times> 'c flash_hal) option" where
  "bk_set_name_data_new_addr E mem data_sector_addr base_addr indata dw_data_len name_data s =
     (if \<not> mem M_name_temp \<or> \<not> mem M_data_buff then Some (status kGeneralErr, s)
      else do {
        (protect_flag, s) \<leftarrow> open_unprotected E s;
        (name_temp, s) \<leftarrow> flash_ddev_read E NAME_FLASH_TOTAL_SIZE base_addr s;
        (dw_rtn, s) \<leftarrow> place_name_data E name_temp data_sector_addr base_addr indata dw_data_len name_data s;
        s \<leftarrow> set_protect E protect_flag s;
        Some (dw_rtn, s) })"

text \<open>The first entry that is not in use.\<close>

fun free_namespace_loop :: "byte list \<Rightarrow> nat \<Rightarrow> nat \<Rightarrow> nat option" where
  "free_namespace_loop arr 0 dw_loop = None"
| "free_namespace_loop arr (Suc n) dw_loop =
     (if ns_dwUsingFlag (namespace_of (elem_at arr dw_loop)) \<noteq> FLASH_SPACE_USING then Some dw_loop
      else free_namespace_loop arr n (dw_loop + 1))"

definition bk_set_namespace ::
  "part_conf \<Rightarrow> 'c flash_env \<Rightarrow> (malloc_site \<Rightarrow> bool) \<Rightarrow> byte list \<Rightarrow> u32 \<Rightarrow> 'c flash_hal
     \<Rightarrow> ((u32 \<times> u32) option \<times> 'c flash_hal) option" where
  "bk_set_namespace C E mem ucnamespace np_base_addr s = do {
     mx \<leftarrow> get_falsh_name_space_max_array C ucnamespace s;
     if \<not> mem M_set_namespace then Some (None, s)
     else do {
       (protect_flag, s) \<leftarrow> open_unprotected E s;
       (namespace_data_arr, s) \<leftarrow> flash_ddev_read E (64 * ucast mx) np_base_addr s;
       (r, s) \<leftarrow>
         (case free_namespace_loop namespace_data_arr (unat mx) 0 of
            Some dw_loop \<Rightarrow> do {
              let e = \<lparr>ns_dwUsingFlag = FLASH_SPACE_USING,
                       ns_dwOffsetByByte = of_nat dw_loop * NAME_FLASH_TOTAL_SIZE + NAME_SPACE_FLASH_TOTAL_SIZE,
                       ucNamespace = str_field 56 ucnamespace\<rparr>;
              let dw_offset_addr = (np_base_addr + of_nat dw_loop * 64 :: u32);
              s \<leftarrow> flash_ddev_write E (namespace_bytes e) 64 dw_offset_addr s;
              Some (Some (ns_dwOffsetByByte e, of_nat dw_loop), s) }
          | None \<Rightarrow> Some (None, s));
       s \<leftarrow> set_protect E protect_flag s;
       Some (r, s) } }"

text \<open>\<open>data_buf\<close> has 2048 bytes; a value that is longer is read over its end.\<close>

definition bk_set_name_data ::
  "part_conf \<Rightarrow> 'c flash_env \<Rightarrow> (malloc_site \<Rightarrow> bool) \<Rightarrow> byte list \<Rightarrow> byte list \<Rightarrow> u32 \<Rightarrow> byte list \<Rightarrow> u32 \<Rightarrow> u32 \<Rightarrow> u32
     \<Rightarrow> 'c flash_hal \<Rightarrow> (u32 \<times> 'c flash_hal) option" where
  "bk_set_name_data C E mem ucnamespace ucname np_base_addr indata dw_data_len dw_n_offset_addr dw_offset_block s = do {
     mx \<leftarrow> get_falsh_name_space_max_array C ucnamespace s;
     let dw_sec_addr = np_base_addr + dw_n_offset_addr;
     (found, s) \<leftarrow> get_name_addr E mem (Some ucname) dw_sec_addr s;
     case found of
       Some (dw_offset_addr, dw_data_offset_addr) \<Rightarrow> do {
         (protect_flag, s) \<leftarrow> open_unprotected E s;
         (bs, s) \<leftarrow> flash_ddev_read E 64 (dw_sec_addr + dw_offset_addr) s;
         let name_temp = name_of bs;
         let dw_actual_addr = np_base_addr + dw_offset_block * FLASH_SECTOR_SIZE + NAME_FLASH_DATA_BASE_ADDR mx + dw_data_offset_addr;
         (old, s) \<leftarrow> flash_ddev_read E (dwlength name_temp) dw_actual_addr s;
         data_buf \<leftarrow> buf_put (replicate 2048 0) 0 old;
         differs \<leftarrow> (if dwlength name_temp \<noteq> dw_data_len then Some True
           else do { new \<leftarrow> buf_get indata 0 (unat dw_data_len); Some (take (unat dw_data_len) data_buf \<noteq> new) });
         (dw_rtn, s) \<leftarrow>
           (if differs then do {
              let name_temp = name_temp\<lparr>dwUsingFlag := FLASH_SPACE_MASK\<rparr>;
              s \<leftarrow> flash_ddev_write E (name_bytes name_temp) 64 (dw_sec_addr + dw_offset_addr) s;
              (bs, s) \<leftarrow> flash_ddev_read E 64 (dw_sec_addr + dw_offset_addr) s;
              bk_set_name_data_new_addr E mem (dw_actual_addr - dw_data_offset_addr) dw_sec_addr indata dw_data_len (name_of bs) s }
            else Some (status kNoErr, s));
         s \<leftarrow> set_protect E protect_flag s;
         Some (dw_rtn, s) }
     | None \<Rightarrow> do {
         let name_temp = \<lparr>dwUsingFlag = FLASH_SPACE_USING, dwOffsetByByte = 0, dwlength = dw_data_len, ucName = str_field 52 ucname\<rparr>;
         let dw_actual_addr = np_base_addr + dw_offset_block * FLASH_SECTOR_SIZE + NAME_FLASH_DATA_BASE_ADDR mx;
         bk_set_name_data_new_addr E mem dw_actual_addr dw_sec_addr indata dw_data_len name_temp s } }"

section \<open>The interface\<close>

text \<open>
  \<open>BK_CHECK_NO_RETURN(change_namespace_to_beken(&ucnamespace, &ucname, buf, 64))\<close>: the status is only
  printed. The results of \<open>get_matter_flash_base_addr\<close> and of the write functions are checked.
\<close>

definition beken_names :: "byte list \<Rightarrow> byte list option \<Rightarrow> (byte list \<times> byte list option) option" where
  "beken_names ucnamespace ucname = do {
     (st, ns, nm) \<leftarrow> change_namespace_to_beken ucnamespace (Some ucname) 64;
     nm \<leftarrow> nm;
     Some (ns, nm) }"

definition bk_clean_data ::
  "part_conf \<Rightarrow> 'c flash_env \<Rightarrow> (malloc_site \<Rightarrow> bool) \<Rightarrow> byte list option \<Rightarrow> byte list option \<Rightarrow> 'c flash_hal
     \<Rightarrow> (u32 \<times> 'c flash_hal) option" where
  "bk_clean_data C E mem ucnamespace ucname s =
     (case (ucnamespace, ucname) of
        (Some ns, Some nm) \<Rightarrow>
          if ns = cstr ''chip-factory'' then Some (status kGeneralErr, s)
          else do {
            (ns, ucname) \<leftarrow> beken_names ns (Some nm);
            base \<leftarrow> get_matter_flash_base_addr C ns s;
            case base of
              None \<Rightarrow> Some (status kGeneralErr, s)
            | Some np_base_addr \<Rightarrow> do {
                s \<leftarrow> flash_ddev_open s;
                (found, s) \<leftarrow> get_namespace_addr C E mem ns np_base_addr s;
                (dw_rtn, protect_flag, s) \<leftarrow>
                  (case found of
                     Some (dw_offset_addr, dw_offset_block) \<Rightarrow> do {
                       let dw_actual_addr = np_base_addr + dw_offset_addr;
                       (found, s) \<leftarrow> get_name_addr E mem ucname dw_actual_addr s;
                       case found of
                         Some (dw_name_offset, dw_data_offset_addr) \<Rightarrow> do {
                           (protect_flag, s) \<leftarrow> lift_protect E s;
                           s \<leftarrow> flash_ddev_write E (bytes32 FLASH_SPACE_MASK) 4 (dw_actual_addr + dw_name_offset) s;
                           Some (status kNoErr, protect_flag, s) }
                       | None \<Rightarrow> Some (status kGeneralErr, PARM_U32 0, s) }
                   | None \<Rightarrow> Some (status kGeneralErr, PARM_U32 0, s));
                s \<leftarrow> set_protect E protect_flag s;
                Some (dw_rtn, s) } }
      | _ \<Rightarrow> Some (status kGeneralErr, s))"

text \<open>The entries that stay are written again, each in its place.\<close>

fun rewrite_namespaces :: "'c flash_env \<Rightarrow> byte list \<Rightarrow> nat \<Rightarrow> nat \<Rightarrow> nat \<Rightarrow> u32 \<Rightarrow> 'c flash_hal \<Rightarrow> 'c flash_hal option" where
  "rewrite_namespaces E arr masked 0 dwLoop np_base_addr s = Some s"
| "rewrite_namespaces E arr masked (Suc n) dwLoop np_base_addr s =
     (if dwLoop \<noteq> masked \<and> ns_dwUsingFlag (namespace_of (elem_at arr dwLoop)) = FLASH_SPACE_USING then do {
        s \<leftarrow> flash_ddev_write E (elem_at arr dwLoop) 64 (np_base_addr + of_nat dwLoop * 64) s;
        rewrite_namespaces E arr masked n (dwLoop + 1) np_base_addr s }
      else rewrite_namespaces E arr masked n (dwLoop + 1) np_base_addr s)"

definition bK_clear_namespace ::
  "part_conf \<Rightarrow> 'c flash_env \<Rightarrow> (malloc_site \<Rightarrow> bool) \<Rightarrow> byte list option \<Rightarrow> 'c flash_hal \<Rightarrow> (u32 \<times> 'c flash_hal) option" where
  "bK_clear_namespace C E mem ucnamespace s =
     (case ucnamespace of
        None \<Rightarrow> Some (status kGeneralErr, s)
      | Some ns \<Rightarrow>
          if ns = cstr ''chip-factory'' \<or> ns = cstr ''chip-config'' \<or> ns = cstr ''chip-counters''
          then Some (status kGeneralErr, s)
          else do {
            base \<leftarrow> get_matter_flash_base_addr C ns s;
            case base of
              None \<Rightarrow> Some (status kGeneralErr, s)
            | Some np_base_addr \<Rightarrow> do {
                mx \<leftarrow> get_falsh_name_space_max_array C ns s;
                if \<not> mem M_clear_namespace then Some (status kGeneralErr, s)
                else do {
                  (found, s) \<leftarrow> get_namespace_addr C E mem ns np_base_addr s;
                  case found of
                    None \<Rightarrow> Some (status kGeneralErr, s)
                  | Some (dw_offset_addr, dw_off_block) \<Rightarrow> do {
                      (protect_flag, s) \<leftarrow> open_unprotected E s;
                      (namespace_temp, s) \<leftarrow> flash_ddev_read E (64 * ucast mx) np_base_addr s;
                      let dw_start_addr = np_base_addr + NAME_SPACE_FLASH_TOTAL_SIZE + dw_off_block * NAME_FLASH_TOTAL_SIZE;
                      let data_sector_addr = np_base_addr + dw_off_block * FLASH_SECTOR_SIZE + NAME_FLASH_DATA_BASE_ADDR mx;
                      (st, s) \<leftarrow> bk_erase_name_data E dw_start_addr data_sector_addr s;
                      s \<leftarrow> erase_sector E np_base_addr s;
                      s \<leftarrow> rewrite_namespaces E namespace_temp (unat dw_off_block) (unat mx) 0 np_base_addr s;
                      s \<leftarrow> set_protect E protect_flag s;
                      Some (status kNoErr, s) } } } })"

text \<open>The status, and after success \<open>*out_length\<close> and the bytes stored in \<open>out_data\<close>, which has room for \<open>room\<close> bytes.\<close>

definition bk_read_data ::
  "part_conf \<Rightarrow> 'c flash_env \<Rightarrow> (malloc_site \<Rightarrow> bool) \<Rightarrow> byte list option \<Rightarrow> byte list option \<Rightarrow> nat option \<Rightarrow> u32 \<Rightarrow> bool
     \<Rightarrow> 'c flash_hal \<Rightarrow> (u32 \<times> (u32 \<times> byte list) option \<times> 'c flash_hal) option" where
  "bk_read_data C E mem ucnamespace ucname out_data dw_read_len out_length s =
     (case (ucnamespace, ucname, out_data) of
        (Some ns, Some nm, Some room) \<Rightarrow>
          if \<not> out_length then Some (status kGeneralErr, None, s)
          else do {
            (ns, ucname) \<leftarrow> beken_names ns (Some nm);
            base \<leftarrow> get_matter_flash_base_addr C ns s;
            case base of
              None \<Rightarrow> Some (status kGeneralErr, None, s)
            | Some np_base_addr \<Rightarrow> do {
                mx \<leftarrow> get_falsh_name_space_max_array C ns s;
                (found, s) \<leftarrow> get_namespace_addr C E mem ns np_base_addr s;
                case found of
                  None \<Rightarrow> Some (status kGeneralErr, None, s)
                | Some (dw_offset_addr, dw_off_block) \<Rightarrow> do {
                    let dw_sec_base_addr = np_base_addr + dw_offset_addr;
                    (found, s) \<leftarrow> get_name_addr E mem ucname dw_sec_base_addr s;
                    case found of
                      None \<Rightarrow> Some (status kGeneralErr, None, s)
                    | Some (dw_offset_addr, dw_data_offset_addr) \<Rightarrow> do {
                        (protect_flag, s) \<leftarrow> open_unprotected E s;
                        (bs, s) \<leftarrow> flash_ddev_read E 64 (dw_sec_base_addr + dw_offset_addr) s;
                        let name_temp = name_of bs;
                        let dw_actual_len = (if dw_read_len > dwlength name_temp then dwlength name_temp else dw_read_len);
                        let dw_data_addr = np_base_addr + dw_off_block * FLASH_SECTOR_SIZE + NAME_FLASH_DATA_BASE_ADDR mx + dw_data_offset_addr;
                        (bs, s) \<leftarrow> flash_ddev_read E dw_actual_len dw_data_addr s;
                        if unat dw_actual_len > room then None
                        else do {
                          s \<leftarrow> set_protect E protect_flag s;
                          Some (status kNoErr, Some (dw_actual_len, bs), s) } } } } }
      | _ \<Rightarrow> Some (status kGeneralErr, None, s))"

definition bk_write_data ::
  "part_conf \<Rightarrow> 'c flash_env \<Rightarrow> (malloc_site \<Rightarrow> bool) \<Rightarrow> byte list option \<Rightarrow> byte list option \<Rightarrow> byte list option \<Rightarrow> u32
     \<Rightarrow> 'c flash_hal \<Rightarrow> (u32 \<times> 'c flash_hal) option" where
  "bk_write_data C E mem ucnamespace ucname indata data_size s =
     (case (ucnamespace, ucname, indata) of
        (Some ns, Some nm, Some data) \<Rightarrow>
          if ns = cstr ''chip-factory'' then Some (status kGeneralErr, s)
          else do {
            (ns, ucname) \<leftarrow> beken_names ns (Some nm);
            nm \<leftarrow> ucname;
            base \<leftarrow> get_matter_flash_base_addr C ns s;
            case base of
              None \<Rightarrow> Some (status kGeneralErr, s)
            | Some np_base_addr \<Rightarrow> do {
                (found, s) \<leftarrow> get_namespace_addr C E mem ns np_base_addr s;
                (found, s) \<leftarrow>
                  (case found of
                     None \<Rightarrow> bk_set_namespace C E mem ns np_base_addr s
                   | Some p \<Rightarrow> Some (Some p, s));
                case found of
                  None \<Rightarrow> Some (status kGeneralErr, s)
                | Some (dw_offset_addr, dw_off_block) \<Rightarrow> do {
                    (dw_rtn, s) \<leftarrow> bk_set_name_data C E mem ns nm np_base_addr data data_size dw_offset_addr dw_off_block s;
                    if dw_rtn \<noteq> status kNoErr then Some (status kGeneralErr, s) else Some (dw_rtn, s) } } }
      | _ \<Rightarrow> Some (status kGeneralErr, s))"

definition bk_ensure_namespace ::
  "part_conf \<Rightarrow> 'c flash_env \<Rightarrow> (malloc_site \<Rightarrow> bool) \<Rightarrow> byte list option \<Rightarrow> 'c flash_hal \<Rightarrow> (u32 \<times> 'c flash_hal) option" where
  "bk_ensure_namespace C E mem ucnamespace s =
     (case ucnamespace of
        None \<Rightarrow> Some (status kGeneralErr, s)
      | Some ns \<Rightarrow> do {
          (st, ns, _) \<leftarrow> change_namespace_to_beken ns None 64;
          base \<leftarrow> get_matter_flash_base_addr C ns s;
          case base of
            None \<Rightarrow> Some (status kGeneralErr, s)
          | Some np_base_addr \<Rightarrow> do {
              (found, s) \<leftarrow> get_namespace_addr C E mem ns np_base_addr s;
              case found of
                Some _ \<Rightarrow> Some (status kNoErr, s)
              | None \<Rightarrow> do {
                  (r, s) \<leftarrow> bk_set_namespace C E mem ns np_base_addr s;
                  Some (if r \<noteq> None then status kNoErr else status kGeneralErr, s) } } })"

definition bk_ensure_name_data ::
  "part_conf \<Rightarrow> 'c flash_env \<Rightarrow> (malloc_site \<Rightarrow> bool) \<Rightarrow> byte list option \<Rightarrow> byte list option \<Rightarrow> 'c flash_hal
     \<Rightarrow> (u32 \<times> 'c flash_hal) option" where
  "bk_ensure_name_data C E mem ucnamespace ucname s =
     (case ucnamespace of
        None \<Rightarrow> Some (status kGeneralErr, s)
      | Some ns \<Rightarrow> do {
          (ns, ucname) \<leftarrow> beken_names ns ucname;
          base \<leftarrow> get_matter_flash_base_addr C ns s;
          case base of
            None \<Rightarrow> Some (status kGeneralErr, s)
          | Some np_base_addr \<Rightarrow> do {
              (found, s) \<leftarrow> get_namespace_addr C E mem ns np_base_addr s;
              case found of
                None \<Rightarrow> Some (status kGeneralErr, s)
              | Some (dw_offset_addr, dw_off_block) \<Rightarrow> do {
                  (found, s) \<leftarrow> get_name_addr E mem ucname (np_base_addr + dw_offset_addr) s;
                  Some (if found \<noteq> None then status kNoErr else status kGeneralErr, s) } } })"

section \<open>Whole partitions\<close>

fun erase_loop :: "'c flash_env \<Rightarrow> nat \<Rightarrow> u32 \<Rightarrow> 'c flash_hal \<Rightarrow> 'c flash_hal option" where
  "erase_loop E 0 operation_addr s = Some s"
| "erase_loop E (Suc n) operation_addr s = do {
     s \<leftarrow> erase_sector E operation_addr s;
     erase_loop E n (operation_addr + NAME_SPACE_FLASH_TOTAL_SIZE) s }"

definition bk_erase_all :: "part_conf \<Rightarrow> 'c flash_env \<Rightarrow> bk_partition_t \<Rightarrow> 'c flash_hal \<Rightarrow> (u32 \<times> 'c flash_hal) option" where
  "bk_erase_all C E type s = do {
     partition_info \<leftarrow> bk_flash_get_info C type s;
     case partition_info of
       None \<Rightarrow> Some (status kGeneralErr, s)
     | Some pt \<Rightarrow> do {
         (protect_flag, s) \<leftarrow> open_unprotected E s;
         s \<leftarrow> erase_loop E (unat (partition_length pt div NAME_SPACE_FLASH_TOTAL_SIZE)) (partition_start_addr pt) s;
         s \<leftarrow> set_protect E protect_flag s;
         Some (status kNoErr, s) } }"

definition bk_write_ota_data_to_flash ::
  "part_conf \<Rightarrow> 'c flash_env \<Rightarrow> byte list option \<Rightarrow> u32 \<Rightarrow> u32 \<Rightarrow> 'c flash_hal \<Rightarrow> (u32 \<times> 'c flash_hal) option" where
  "bk_write_ota_data_to_flash C E indata data_offset_addr data_length s =
     (case indata of
        None \<Rightarrow> Some (status kGeneralErr, s)
      | Some data \<Rightarrow> do {
          partition_info \<leftarrow> bk_flash_get_info C BK_PARTITION_OTA s;
          case partition_info of
            None \<Rightarrow> Some (status kGeneralErr, s)
          | Some pt \<Rightarrow> do {
              (protect_flag, s) \<leftarrow> open_unprotected E s;
              s \<leftarrow> flash_ddev_write E data data_length (partition_start_addr pt + data_offset_addr) s;
              s \<leftarrow> set_protect E protect_flag s;
              Some (status kNoErr, s) } })"

definition bk_read_ota_data_in_flash ::
  "part_conf \<Rightarrow> 'c flash_env \<Rightarrow> bool \<Rightarrow> u32 \<Rightarrow> u32 \<Rightarrow> 'c flash_hal \<Rightarrow> (u32 \<times> byte list \<times> 'c flash_hal) option" where
  "bk_read_ota_data_in_flash C E outdata data_offset_addr data_length s =
     (if \<not> outdata then Some (status kGeneralErr, [], s)
      else do {
        (dw_rtn, bs, s) \<leftarrow> bk_flash_read C E BK_PARTITION_OTA data_offset_addr True data_length s;
        Some (status dw_rtn, bs, s) })"

definition bk_erase_ota_data_in_flash :: "part_conf \<Rightarrow> 'c flash_env \<Rightarrow> 'c flash_hal \<Rightarrow> (u32 \<times> 'c flash_hal) option" where
  "bk_erase_ota_data_in_flash C E s = bk_erase_all C E BK_PARTITION_OTA s"

definition bk_erase_ota_data_in_flash_per_sector ::
  "part_conf \<Rightarrow> 'c flash_env \<Rightarrow> u32 \<Rightarrow> 'c flash_hal \<Rightarrow> (u32 \<times> 'c flash_hal) option" where
  "bk_erase_ota_data_in_flash_per_sector C E dw_offaddr s = do {
     partition_info \<leftarrow> bk_flash_get_info C BK_PARTITION_OTA s;
     case partition_info of
       None \<Rightarrow> Some (status kGeneralErr, s)
     | Some pt \<Rightarrow> do {
         (protect_flag, s) \<leftarrow> open_unprotected E s;
         s \<leftarrow> erase_sector E (partition_start_addr pt + dw_offaddr) s;
         s \<leftarrow> set_protect E protect_flag s;
         Some (status kNoErr, s) } }"

end
