(* ===== verification/Kv_Block.thy ===== *)
theory Kv_Block
  imports Kv_Store
begin

text \<open>
  One namespace of the key-value store: the sector with the entries of its names and the sector
  with their values. A list of slots describes both; searching, masking, appending and compacting
  have their effect on the slots.
\<close>

section \<open>Rules for the accesses to the flash\<close>

text \<open>A call that returns, with a result for which \<open>Q\<close> holds.\<close>

definition returns :: "'a option \<Rightarrow> ('a \<Rightarrow> bool) \<Rightarrow> bool" where
  "returns f Q \<longleftrightarrow> (\<exists>r. f = Some r \<and> Q r)"

text \<open>The flash is ready, the table \<open>tbl\<close> is in use, the protection setting is \<open>p\<close> and the contents are \<open>m\<close>.\<close>

definition kv_at :: "'c flash_env \<Rightarrow> flash_config_t \<Rightarrow> partition_table \<Rightarrow> u16 \<Rightarrow> (nat \<Rightarrow> byte) \<Rightarrow> 'c flash_hal \<Rightarrow> bool" where
  "kv_at E cfg tbl p m s \<longleftrightarrow> (\<exists>locked. chip_ok locked E cfg) \<and> hal_ok E cfg s \<and> bk7231_partitions s = Some tbl
     \<and> hal_protect E cfg s = p \<and> hal_mem E s = m"

abbreviation prog :: "(nat \<Rightarrow> byte) \<Rightarrow> nat \<Rightarrow> byte list \<Rightarrow> nat \<Rightarrow> byte" where
  "prog \<equiv> prog_mem (\<lambda>_. False)"

named_theorems kv_rules \<open>what the accesses to the flash return\<close>

lemma returns_Some [simp]: "returns (Some r) Q \<longleftrightarrow> Q r"
  by (simp add: returns_def)

lemma returns_bind [kv_rules]: "returns f (\<lambda>r. returns (g r) Q) \<Longrightarrow> returns (f \<bind> g) Q"
  by (auto simp: returns_def)

lemma kv_atE:
  assumes "kv_at E cfg tbl p m s"
  obtains locked where "chip_ok locked E cfg" "hal_ok E cfg s" "bk7231_partitions s = Some tbl" "hal_protect E cfg s = p"
    "hal_mem E s = m" "unat (flash_size cfg) \<le> 2 ^ 24"
  using assms by (auto simp: kv_at_def chip_ok_def)

lemma kv_at_step:
  "kv_at E cfg tbl p m s \<Longrightarrow> hal_ok E cfg s' \<Longrightarrow> same_layout s s' \<Longrightarrow> hal_protect E cfg s' = p' \<Longrightarrow> hal_mem E s' = m'
   \<Longrightarrow> kv_at E cfg tbl p' m' s'"
  by (auto simp: kv_at_def same_layout_def)

lemma open_rule [kv_rules]:
  assumes "kv_at E cfg tbl p m s" and Q: "\<And>s'. kv_at E cfg tbl p m s' \<Longrightarrow> Q s'"
  shows "returns (flash_ddev_open s) Q"
  using assms(1)
proof (rule kv_atE)
  assume "hal_ok E cfg s" "hal_protect E cfg s = p" "hal_mem E s = m"
  with flash_open_ok [OF this(1)] show ?thesis by (auto simp: returns_def intro!: Q kv_at_step [OF assms(1)])
qed

text \<open>The saved protection setting. One that has a name comes back.\<close>

definition saved :: "flash_config_t \<Rightarrow> u16 \<Rightarrow> flash_parm" where
  "saved cfg p = PARM_U32 (protect_code (protect_type cfg p))"

definition named :: "flash_config_t \<Rightarrow> u16 \<Rightarrow> bool" where
  "named cfg p \<longleftrightarrow> protect_type cfg p \<noteq> PROTECT_OTHER"

lemma named_none [simp]: "named cfg (protect_none cfg)"
  by (simp add: named_def protect_type_def)

lemma get_protect_rule [kv_rules]:
  assumes "kv_at E cfg tbl p m s" and Q: "\<And>s'. kv_at E cfg tbl p m s' \<Longrightarrow> Q (saved cfg p, s')"
  shows "returns (get_protect E s) Q"
  using assms(1)
proof (rule kv_atE)
  fix locked assume "chip_ok locked E cfg" "hal_ok E cfg s" "hal_protect E cfg s = p" "hal_mem E s = m"
  with get_protect_ctrl [OF this(1,2)] obtain s' where "get_protect E s = Some (saved cfg p, s')"
      "hal_ok E cfg s'" "same_layout s s'" "hal_protect E cfg s' = p" "hal_mem E s' = m"
    by (auto simp: get_protect_def saved_def)
  then show ?thesis using Q [OF kv_at_step [OF assms(1)]] by (simp add: returns_def)
qed

lemma set_protect_rule:
  assumes "kv_at E cfg tbl p m s" and Q: "\<And>s'. kv_at E cfg tbl (protect_setting cfg ty) m s' \<Longrightarrow> Q s'"
  shows "returns (set_protect E (PARM_U32 (protect_code ty)) s) Q"
  using assms(1)
proof (rule kv_atE)
  fix locked assume "chip_ok locked E cfg" "hal_ok E cfg s" "hal_mem E s = m"
  with set_protect_ctrl [OF this(1,2), of ty] show ?thesis
    by (auto simp: returns_def set_protect_def intro!: Q kv_at_step [OF assms(1)])
qed

lemma restore_rule [kv_rules]:
  assumes "kv_at E cfg tbl q m s" "named cfg p" "\<And>s'. kv_at E cfg tbl p m s' \<Longrightarrow> Q s'"
  shows "returns (set_protect E (saved cfg p) s) Q"
  unfolding saved_def
  by (rule set_protect_rule [OF assms(1)]) (use assms(2,3) in \<open>simp add: protect_setting_type named_def\<close>)

lemma lift_protect_rule [kv_rules]:
  assumes "kv_at E cfg tbl p m s" "\<And>s'. kv_at E cfg tbl (protect_none cfg) m s' \<Longrightarrow> Q (saved cfg p, s')"
  shows "returns (lift_protect E s) Q"
  unfolding lift_protect_def
  using assms(2) by (auto intro!: returns_bind get_protect_rule [OF assms(1)] set_protect_rule simp del: protect_code.simps)

lemma open_unprotected_rule [kv_rules]:
  assumes "kv_at E cfg tbl p m s" "\<And>s'. kv_at E cfg tbl (protect_none cfg) m s' \<Longrightarrow> Q (saved cfg p, s')"
  shows "returns (open_unprotected E s) Q"
  unfolding open_unprotected_def
  using assms(2) by (auto intro!: returns_bind open_rule [OF assms(1)] lift_protect_rule)

lemma read_rule [kv_rules]:
  assumes "kv_at E cfg tbl p m s" "unat a + unat n \<le> unat (flash_size cfg)"
    and Q: "\<And>s'. kv_at E cfg tbl p m s' \<Longrightarrow> Q (mem_slice m (unat a) (unat n), s')"
  shows "returns (flash_ddev_read E n a s) Q"
  using assms(1)
proof (rule kv_atE)
  assume *: "hal_ok E cfg s" "hal_protect E cfg s = p" "hal_mem E s = m" "unat (flash_size cfg) \<le> 2 ^ 24"
  then have "flash_ready cfg (hal_dev s)" "unat a + unat n \<le> 2 ^ 24" using assms(2) by (auto simp: hal_ok_def)
  from flash_read_ok [OF this, of E] *
  obtain s' where "flash_ddev_read E n a s = Some (mem_slice m (unat a) (unat n), s')"
      "hal_ok E cfg s'" "same_layout s s'" "hal_protect E cfg s' = p" "hal_mem E s' = m"
    by (auto simp: flash_ddev_read_def quiet_def hal_ok_def same_layout_def)
  then show ?thesis using Q [OF kv_at_step [OF assms(1)]] by (simp add: returns_def)
qed

lemma write_rule [kv_rules]:
  assumes "kv_at E cfg tbl (protect_none cfg) m s"
    "unat a < unat (flash_size cfg)" "unat a + unat n \<le> unat (flash_size cfg)" "unat n \<le> length buf"
    and Q: "\<And>s'. kv_at E cfg tbl (protect_none cfg) (prog m (unat a) (take (unat n) buf)) s' \<Longrightarrow> Q s'"
  shows "returns (flash_ddev_write E buf n a s) Q"
  using assms(1)
proof (rule kv_atE)
  fix locked assume "chip_ok locked E cfg" "hal_ok E cfg s" "hal_protect E cfg s = protect_none cfg" "hal_mem E s = m"
  with write_unlocked [OF this(1-3) assms(2-4)] show ?thesis
    by (auto simp: returns_def intro!: Q kv_at_step [OF assms(1)])
qed

lemma erase_rule [kv_rules]:
  assumes "kv_at E cfg tbl (protect_none cfg) m s" "unat a < unat (flash_size cfg)"
    and Q: "\<And>s'. kv_at E cfg tbl (protect_none cfg) (erase_range m (unat a div 4096) 1) s' \<Longrightarrow> Q s'"
  shows "returns (erase_sector E a s) Q"
  using assms(1)
proof (rule kv_atE)
  fix locked assume "chip_ok locked E cfg" "hal_ok E cfg s" "hal_protect E cfg s = protect_none cfg" "hal_mem E s = m"
  with erase_sector_unlocked [OF this(1-3) assms(2)] show ?thesis
    by (auto simp: returns_def erase_sector_def intro!: Q kv_at_step [OF assms(1)])
qed

section \<open>Slots\<close>

text \<open>An entry of a name with its value; \<open>slot_live\<close> if it is in use and not masked.\<close>

datatype slot = Slot (slot_live: bool) (slot_key: "byte list") (slot_val: "byte list")

definition name_ok :: "byte list \<Rightarrow> bool" where "name_ok k \<longleftrightarrow> length k < 52 \<and> 0 \<notin> set k"

definition slot_off :: "slot list \<Rightarrow> nat \<Rightarrow> nat" where
  "slot_off sl i = sum_list (map (\<lambda>x. length (slot_val x)) (take i sl))"

abbreviation used :: "slot list \<Rightarrow> nat" where "used sl \<equiv> slot_off sl (length sl)"

definition entry :: "nat \<Rightarrow> slot \<Rightarrow> name_flash_t" where
  "entry off x = \<lparr>dwUsingFlag = (if slot_live x then FLASH_SPACE_USING else FLASH_SPACE_MASK), dwOffsetByByte = of_nat off,
     dwlength = of_nat (length (slot_val x)), ucName = str_field 52 (slot_key x)\<rparr>"

text \<open>The sectors at \<open>d\<close> and \<open>b\<close> hold the entries and the values of \<open>sl\<close>; the rest of them is erased.\<close>

definition block_rep :: "(nat \<Rightarrow> byte) \<Rightarrow> nat \<Rightarrow> nat \<Rightarrow> slot list \<Rightarrow> bool" where
  "block_rep m d b sl \<longleftrightarrow> length sl \<le> 64 \<and> used sl < 4096 \<and> (\<forall>x \<in> set sl. name_ok (slot_key x))
   \<and> (\<forall>i < length sl. mem_slice m (d + 64 * i) 64 = name_bytes (entry (slot_off sl i) (sl ! i)))
   \<and> (\<forall>i < length sl. mem_slice m (b + slot_off sl i) (length (slot_val (sl ! i))) = slot_val (sl ! i))
   \<and> (\<forall>j. 64 * length sl \<le> j \<and> j < 4096 \<longrightarrow> m (d + j) = 0xFF)
   \<and> (\<forall>j. used sl \<le> j \<and> j < 4096 \<longrightarrow> m (b + j) = 0xFF)"

lemma slot_off_0 [simp]: "slot_off sl 0 = 0"
  by (simp add: slot_off_def)

lemma slot_off_Suc: "i < length sl \<Longrightarrow> slot_off sl (Suc i) = slot_off sl i + length (slot_val (sl ! i))"
  by (simp add: slot_off_def take_Suc_conv_app_nth)

lemma slot_off_append [simp]: "i \<le> length sl \<Longrightarrow> slot_off (sl @ xs) i = slot_off sl i"
  by (simp add: slot_off_def)

lemma used_append: "used (sl @ xs) = used sl + used xs"
  by (simp add: slot_off_def)

lemma slot_off_snoc [simp]: "slot_off (sl @ [x]) (Suc (length sl)) = used sl + length (slot_val x)"
  by (simp add: slot_off_def)

lemma used_single [simp]: "used [x] = length (slot_val x)"
  by (simp add: slot_off_def)

lemma slot_off_le: "i < length sl \<Longrightarrow> slot_off sl i + length (slot_val (sl ! i)) \<le> used sl"
proof -
  assume "i < length sl"
  then have "sl = take (Suc i) sl @ drop (Suc i) sl" "length (take (Suc i) sl) = Suc i" by simp_all
  then have "used sl = slot_off sl (Suc i) + used (drop (Suc i) sl)"
    by (metis used_append slot_off_def take_all_iff order_refl)
  then show ?thesis using \<open>i < length sl\<close> slot_off_Suc by simp
qed

lemma length_str_field [simp]: "0 < n \<Longrightarrow> length (str_field n k) = n"
  by (auto simp: str_field_def bk_strnlen_def Let_def)

lemma length_name_bytes [simp]: "length (ucName e) = 52 \<Longrightarrow> length (name_bytes e) = 64"
  by (simp add: name_bytes_def)

lemma entry_simps [simp]:
  "length (ucName (entry off x)) = 52" "dwlength (entry off x) = of_nat (length (slot_val x))"
  "dwOffsetByByte (entry off x) = of_nat off" "ucName (entry off x) = str_field 52 (slot_key x)"
  "dwUsingFlag (entry off x) = FLASH_SPACE_USING \<longleftrightarrow> slot_live x"
  "dwUsingFlag (entry off x) = FLASH_SPACE_MASK \<longleftrightarrow> \<not> slot_live x"
  by (simp_all add: entry_def FLASH_SPACE_USING_def FLASH_SPACE_MASK_def)

lemma name_of_bytes [simp]: "length (ucName e) = 52 \<Longrightarrow> name_of (name_bytes e) = e"
  by (simp add: name_of_def name_bytes_def)

lemma elem_at_slice: "i < 64 \<Longrightarrow> elem_at (mem_slice m d 4096) i = mem_slice m (d + 64 * i) 64"
  by (simp add: elem_at_def)

lemma entry_at:
  assumes "block_rep m d b sl" "i < length sl"
  shows "name_of (elem_at (mem_slice m d 4096) i) = entry (slot_off sl i) (sl ! i)"
proof -
  have "i < 64" using assms by (auto simp: block_rep_def)
  then show ?thesis using assms by (simp add: elem_at_slice block_rep_def)
qed

lemma erased_slice:
  assumes "\<And>j. j < n \<Longrightarrow> m (a + j) = 0xFF"
  shows "mem_slice m a n = replicate n 0xFF"
  by (rule nth_equalityI) (simp_all add: assms)

lemma entry_free:
  assumes "block_rep m d b sl" "length sl \<le> i" "i < 64"
  shows "dwUsingFlag (name_of (elem_at (mem_slice m d 4096) i)) = 0xFFFFFFFF"
proof -
  have "m (d + 64 * i + j) = 0xFF" if "j < 64" for j
  proof -
    have "64 * length sl \<le> 64 * i + j" "64 * i + j < 4096" using assms(2,3) that by linarith+
    then show ?thesis using assms(1) by (simp add: block_rep_def add.assoc)
  qed
  then have "elem_at (mem_slice m d 4096) i = replicate 64 0xFF"
    unfolding elem_at_slice [OF assms(3)] by (rule erased_slice)
  moreover have "replicate 4 (0xFF :: byte) = bytes32 0xFFFFFFFF" by code_simp
  ultimately show ?thesis by (simp add: name_of_def)
qed

section \<open>Searching a name\<close>

definition slot_index :: "byte list \<Rightarrow> slot list \<Rightarrow> nat \<Rightarrow> nat option" where
  "slot_index k sl i = find (\<lambda>j. slot_live (sl ! j) \<and> slot_key (sl ! j) = k) [i..<length sl]"

lemma strlen_str_field:
  assumes "length k < n" "0 \<notin> set k"
  shows "strlen_in (str_field n k @ r) = Some (length k)"
proof -
  have "str_field n k @ r = k @ 0 # replicate (n - length k - 1) 0 @ r"
    using assms(1) by (cases "n - length k") (auto simp: str_field_def bk_strnlen_def Let_def min_def)
  moreover have "takeWhile (\<lambda>b. b \<noteq> 0) (k @ 0 # x) = k" for x using assms(2) by (induction k) auto
  ultimately show ?thesis by (simp add: strlen_in_def)
qed

lemma name_match:
  assumes "length key < n"
  shows "take (bk_strnlen k (n - 1)) (str_field n key) = take (bk_strnlen k (n - 1)) k \<and> length key = length k \<longleftrightarrow> key = k"
proof (cases "length k < n")
  case True
  then show ?thesis using assms by (auto simp: str_field_def bk_strnlen_def Let_def min_def)
next
  case False
  then show ?thesis using assms by auto
qed

lemma entry_strlen:
  assumes "block_rep m d b sl" "i < length sl"
  shows "strlen_in (drop (64 * i + 12) (mem_slice m d 4096)) = Some (length (slot_key (sl ! i)))"
proof -
  have i: "i < 64" "name_ok (slot_key (sl ! i))" using assms by (auto simp: block_rep_def)
  then have split: "4096 - (64 * i + 12) = 52 + (4096 - (64 * i + 64))" by simp
  have "mem_slice m (d + (64 * i + 12)) 52 = drop 12 (mem_slice m (d + 64 * i) 64)" by (simp add: add.assoc)
  also have "\<dots> = str_field 52 (slot_key (sl ! i))" using assms by (simp add: block_rep_def name_bytes_def)
  finally show ?thesis
    using i(2) unfolding drop_mem_slice split mem_slice_append name_ok_def by (simp add: strlen_str_field)
qed

lemma name_loop_index:
  assumes "block_rep m d b sl"
  shows "i + n = 64 \<Longrightarrow> name_loop (mem_slice m d 4096) k n i = Some (map_option (\<lambda>j. (j, of_nat (slot_off sl j))) (slot_index k sl i))"
proof (induction n arbitrary: i)
  case 0
  then show ?case using assms by (simp add: slot_index_def block_rep_def)
next
  case (Suc n)
  then have IH: "name_loop (mem_slice m d 4096) k n (Suc i) = Some (map_option (\<lambda>j. (j, of_nat (slot_off sl j))) (slot_index k sl (Suc i)))"
    by simp
  show ?case
  proof (cases "i < length sl")
    case True
    then have ok: "length (slot_key (sl ! i)) < 52" using assms by (auto simp: block_rep_def name_ok_def)
    have idx: "slot_index k sl i = (if slot_live (sl ! i) \<and> slot_key (sl ! i) = k then Some i else slot_index k sl (Suc i))"
      using True by (simp add: slot_index_def upt_conv_Cons)
    show ?thesis
      using name_match [OF ok, of k] by (auto simp: entry_at [OF assms True] entry_strlen [OF assms True] idx IH Let_def simp del: drop_mem_slice)
  next
    case False
    then have "dwUsingFlag (name_of (elem_at (mem_slice m d 4096) i)) \<noteq> FLASH_SPACE_USING"
      using entry_free [OF assms, of i] Suc.prems by (simp add: FLASH_SPACE_USING_def)
    then show ?thesis using IH False by (simp add: slot_index_def)
  qed
qed

lemma NAME_FLASH_TOTAL_SIZE_eq [simp]: "NAME_FLASH_TOTAL_SIZE = 4096"
  by (simp add: NAME_FLASH_TOTAL_SIZE_def FLASH_NAME_MAX_ARRAY_def)

lemma get_name_addr_rule:
  assumes "kv_at E cfg tbl p m s" "named cfg p" "block_rep m (unat a) b sl" "unat a + 4096 \<le> unat (flash_size cfg)" "mem M_name_addr"
    and "\<And>s'. kv_at E cfg tbl p m s' \<Longrightarrow>
      Q (map_option (\<lambda>j. (of_nat j * 64, of_nat (slot_off sl j))) (slot_index k sl 0), s')"
  shows "returns (get_name_addr E mem (Some k) a s) Q"
  unfolding get_name_addr_def
  using assms name_loop_index [OF assms(3), of 0 64 k]
  by (auto intro!: kv_rules simp: FLASH_NAME_MAX_ARRAY_def option.map_comp comp_def)

text \<open>The first entry that was never written.\<close>

lemma free_entry_index:
  assumes "block_rep m d b sl"
  shows "i + n = 64 \<Longrightarrow> i \<le> length sl \<Longrightarrow> free_entry_loop (mem_slice m d 4096) n i (of_nat (slot_off sl i)) c
    = (if length sl < 64 then Inl (length sl, of_nat (used sl)) else Inr (c + length (filter (Not \<circ> slot_live) (drop i sl))))"
proof (induction n arbitrary: i c)
  case 0
  then show ?case using assms by (simp add: block_rep_def)
next
  case (Suc n)
  show ?case
  proof (cases "i < length sl")
    case True
    then show ?thesis
      using Suc.IH [of "i + 1"] Suc.prems by (simp add: entry_at [OF assms True] Let_def slot_off_Suc Cons_nth_drop_Suc [symmetric])
  next
    case False
    then have "dwUsingFlag (name_of (elem_at (mem_slice m d 4096) i)) = 0xFFFFFFFF" "i = length sl"
      using entry_free [OF assms, of i] Suc.prems by auto
    then show ?thesis using Suc.prems by (simp add: FLASH_SPACE_USING_def FLASH_SPACE_MASK_def Let_def)
  qed
qed

section \<open>Writing slots\<close>

lemma prog_outside: "x + n \<le> a \<or> a + length bs \<le> x \<Longrightarrow> mem_slice (prog m a bs) x n = mem_slice m x n"
  by (rule mem_slice_cong) (auto simp: prog_mem_def)

lemma prog_erased:
  assumes "\<And>j. j < length bs \<Longrightarrow> m (a + j) = 0xFF"
  shows "mem_slice (prog m a bs) a (length bs) = bs"
  by (rule nth_equalityI) (simp_all add: prog_mem_def assms)

text \<open>What lies outside the two sectors stays.\<close>

definition same_but :: "nat \<Rightarrow> nat \<Rightarrow> (nat \<Rightarrow> byte) \<Rightarrow> (nat \<Rightarrow> byte) \<Rightarrow> bool" where
  "same_but d b m m' \<longleftrightarrow> (\<forall>x. x \<notin> {d..<d + 4096} \<union> {b..<b + 4096} \<longrightarrow> m' x = m x)"

lemma same_but_refl [simp]: "same_but d b m m"
  by (simp add: same_but_def)

lemma same_but_trans: "same_but d b m m' \<Longrightarrow> same_but d b m' m'' \<Longrightarrow> same_but d b m m''"
  by (simp add: same_but_def)

lemma same_but_prog:
  "d \<le> a \<and> a + length bs \<le> d + 4096 \<or> b \<le> a \<and> a + length bs \<le> b + 4096 \<Longrightarrow> same_but d b m (prog m a bs)"
  by (auto simp: same_but_def prog_mem_def)

lemma block_rep_append:
  assumes rep: "block_rep m d b sl" and "name_ok k" "length sl < 64" "used sl + length v < 4096" "d + 4096 \<le> b"
    and m': "m' = prog (prog m (b + used sl) v) (d + 64 * length sl) (name_bytes (entry (used sl) (Slot True k v)))"
  shows "block_rep m' d b (sl @ [Slot True k v])" "same_but d b m m'"
proof -
  let ?e = "name_bytes (entry (used sl) (Slot True k v))" and ?sl = "sl @ [Slot True k v]"
  have le: "length ?e = 64" by simp
  have dir: "64 * i + 64 \<le> 4096" if "i \<le> length sl" for i using assms(3) that by simp
  have frame: "m' x = m x" if "x < b + used sl \<or> b + used sl + length v \<le> x" "x < d + 64 * length sl \<or> d + 64 * length sl + 64 \<le> x" for x
    using that le unfolding m' by (auto simp: prog_mem_def)
  have free: "m (d + j) = 0xFF" if "64 * length sl \<le> j" "j < 4096" for j using rep that by (simp add: block_rep_def)
  have freed: "m (b + j) = 0xFF" if "used sl \<le> j" "j < 4096" for j using rep that by (simp add: block_rep_def)
  have 1: "mem_slice m' (d + 64 * i) 64 = name_bytes (entry (slot_off ?sl i) (?sl ! i))" if "i < length ?sl" for i
  proof (cases "i = length sl")
    case True
    have "mem_slice m' (d + 64 * length sl) (length ?e) = ?e"
      unfolding m'
      by (rule prog_erased) (use free assms(3-5) dir [of "length sl"] le in \<open>auto simp: prog_mem_def add.assoc\<close>)
    then show ?thesis using True le by simp
  next
    case False
    then have i: "i < length sl" using that by simp
    then have "mem_slice m' (d + 64 * i) 64 = mem_slice m (d + 64 * i) 64"
      using assms(3,5) by (intro mem_slice_cong frame) auto
    then show ?thesis using i rep by (simp add: block_rep_def nth_append)
  qed
  have 2: "mem_slice m' (b + slot_off ?sl i) (length (slot_val (?sl ! i))) = slot_val (?sl ! i)" if "i < length ?sl" for i
  proof (cases "i = length sl")
    case True
    have "mem_slice m' (b + used sl) (length v) = mem_slice (prog m (b + used sl) v) (b + used sl) (length v)"
      unfolding m' using assms(3,5) le by (intro prog_outside) simp
    also have "\<dots> = v" using freed assms(4) by (intro prog_erased) (simp add: add.assoc)
    finally show ?thesis using True by simp
  next
    case False
    then have i: "i < length sl" using that by simp
    then have "mem_slice m' (b + slot_off sl i) (length (slot_val (sl ! i))) = mem_slice m (b + slot_off sl i) (length (slot_val (sl ! i)))"
      using slot_off_le [OF i] assms(3,5) by (intro mem_slice_cong frame) auto
    then show ?thesis using i rep by (simp add: block_rep_def nth_append)
  qed
  have 3: "m' (d + j) = 0xFF" if "64 * length ?sl \<le> j" "j < 4096" for j
    using that free assms(5) by (subst frame) auto
  have 4: "m' (b + j) = 0xFF" if "used ?sl \<le> j" "j < 4096" for j
    using that freed assms(3,5) by (subst frame) auto
  show "block_rep m' d b ?sl"
    unfolding block_rep_def
    using 1 2 3 4 assms(2-4) rep by (simp add: block_rep_def)
  show "same_but d b m m'"
    unfolding m' by (rule same_but_trans; rule same_but_prog) (use assms(3,4) le in auto)
qed

section \<open>Masking a slot\<close>

definition mask_slot :: "slot \<Rightarrow> slot" where "mask_slot x = Slot False (slot_key x) (slot_val x)"

lemma mask_slot_simps [simp]:
  "slot_val (mask_slot x) = slot_val x" "slot_key (mask_slot x) = slot_key x" "\<not> slot_live (mask_slot x)"
  by (simp_all add: mask_slot_def)

lemma slot_off_mask [simp]: "slot_off (sl[j := mask_slot (sl ! j)]) i = slot_off sl i"
proof -
  have "map (\<lambda>x. length (slot_val x)) (sl[j := mask_slot (sl ! j)]) = map (\<lambda>x. length (slot_val x)) sl"
    by (cases "j < length sl") (auto intro!: nth_equalityI simp: nth_list_update)
  then show ?thesis by (simp add: slot_off_def take_map [symmetric])
qed

lemma prog_slice:
  "length bs \<le> n \<Longrightarrow>
   mem_slice (prog m a bs) a n = map2 (AND) (take (length bs) (mem_slice m a n)) bs @ drop (length bs) (mem_slice m a n)"
  by (rule nth_equalityI) (auto simp: prog_mem_def nth_append)

lemma and_using_mask: "map2 (AND) (bytes32 FLASH_SPACE_USING) (bytes32 FLASH_SPACE_MASK) = bytes32 FLASH_SPACE_MASK"
  by (simp add: bytes32_def FLASH_SPACE_USING_def FLASH_SPACE_MASK_def)

lemma map2_and_same: "map2 (AND) xs xs = (xs :: byte list)"
  by (induction xs) auto

text \<open>Programming the flag, or the whole masked entry, over an entry in use gives the masked entry.\<close>

lemma mask_entry:
  assumes "mem_slice m a 64 = name_bytes (entry off x)" "slot_live x"
    and "bs = bytes32 FLASH_SPACE_MASK \<or> bs = name_bytes (entry off (mask_slot x))"
  shows "mem_slice (prog m a bs) a 64 = name_bytes (entry off (mask_slot x))"
proof -
  define R where "R = bytes32 (of_nat off) @ bytes32 (of_nat (length (slot_val x))) @ str_field 52 (slot_key x)"
  have R: "name_bytes (entry off x) = bytes32 FLASH_SPACE_USING @ R" "name_bytes (entry off (mask_slot x)) = bytes32 FLASH_SPACE_MASK @ R"
    "length R = 60"
    using assms(2) by (simp_all add: R_def name_bytes_def entry_def)
  from assms(3) show ?thesis
  proof
    assume "bs = bytes32 FLASH_SPACE_MASK"
    then show ?thesis using prog_slice [of bs 64 m a] and_using_mask by (simp add: assms(1) R del: take_mem_slice drop_mem_slice)
  next
    assume bs: "bs = name_bytes (entry off (mask_slot x))"
    have "map2 (AND) (bytes32 FLASH_SPACE_USING @ R) (bytes32 FLASH_SPACE_MASK @ R) = bytes32 FLASH_SPACE_MASK @ R"
      by (simp add: zip_append and_using_mask map2_and_same)
    then show ?thesis using prog_slice [of bs 64 m a] bs by (simp add: assms(1) R del: take_mem_slice drop_mem_slice)
  qed
qed

lemma block_rep_mask:
  assumes rep: "block_rep m d b sl" and j: "j < length sl" "slot_live (sl ! j)" and "d + 4096 \<le> b"
    and bs: "bs = bytes32 FLASH_SPACE_MASK \<or> bs = name_bytes (entry (slot_off sl j) (mask_slot (sl ! j)))"
    and m': "m' = prog m (d + 64 * j) bs"
  shows "block_rep m' d b (sl[j := mask_slot (sl ! j)])" "same_but d b m m'"
proof -
  let ?sl = "sl[j := mask_slot (sl ! j)]"
  have len: "length bs \<le> 64" "64 * j + 64 \<le> 4096" using bs rep j(1) by (auto simp: block_rep_def)
  have frame: "m' x = m x" if "x < d + 64 * j \<or> d + 64 * j + 64 \<le> x" for x using that len(1) by (auto simp: m' prog_mem_def)
  have 1: "mem_slice m' (d + 64 * i) 64 = name_bytes (entry (slot_off ?sl i) (?sl ! i))" if "i < length sl" for i
  proof (cases "i = j")
    case True
    then show ?thesis using mask_entry [OF _ j(2) bs] rep that by (simp add: block_rep_def m')
  next
    case False
    then have "mem_slice m' (d + 64 * i) 64 = mem_slice m (d + 64 * i) 64" by (intro mem_slice_cong frame) arith
    then show ?thesis using False rep that by (simp add: block_rep_def)
  qed
  have 2: "mem_slice m' (b + slot_off ?sl i) (length (slot_val (?sl ! i))) = slot_val (?sl ! i)" if "i < length sl" for i
  proof -
    have "slot_val (?sl ! i) = slot_val (sl ! i)" by (cases "i = j") (simp_all add: j(1))
    moreover have "mem_slice m' (b + slot_off sl i) (length (slot_val (sl ! i))) = mem_slice m (b + slot_off sl i) (length (slot_val (sl ! i)))"
      using assms(4) len(2) by (intro mem_slice_cong frame) simp
    ultimately show ?thesis using rep that by (simp add: block_rep_def)
  qed
  have keys: "name_ok (slot_key x)" if "x \<in> set ?sl" for x
    using that rep j(1) set_update_subset_insert [of sl j "mask_slot (sl ! j)"] by (auto simp: block_rep_def)
  show "block_rep m' d b ?sl"
    unfolding block_rep_def
  proof (intro conjI allI impI ballI)
    fix i assume "64 * length ?sl \<le> i \<and> i < 4096"
    moreover have "m' (d + i) = m (d + i)" using calculation j(1) by (intro frame) auto
    ultimately show "m' (d + i) = 0xFF" using rep by (simp add: block_rep_def)
  next
    fix i assume "used ?sl \<le> i \<and> i < 4096"
    moreover have "m' (b + i) = m (b + i)" using assms(4) len(2) by (intro frame) auto
    ultimately show "m' (b + i) = 0xFF" using rep by (simp add: block_rep_def)
  qed (use 1 2 keys rep in \<open>auto simp: block_rep_def\<close>)
  show "same_but d b m m'" unfolding m' by (rule same_but_prog) (use len in auto)
qed

section \<open>Compacting\<close>

lemma block_rep_Nil: "(\<And>j. j < 4096 \<Longrightarrow> m (d + j) = 0xFF) \<Longrightarrow> (\<And>j. j < 4096 \<Longrightarrow> m (b + j) = 0xFF) \<Longrightarrow> block_rep m d b []"
  by (simp add: block_rep_def)

lemma erase_range_at:
  assumes "a mod 4096 = 0"
  shows "erase_range m (a div 4096) 1 x = (if a \<le> x \<and> x < a + 4096 then 0xFF else m x)"
proof -
  obtain q where q: "a = 4096 * q" using assms by auto
  have "q \<le> x div 4096 \<and> x div 4096 < q + 1 \<longleftrightarrow> 4096 * q \<le> x \<and> x < 4096 * q + 4096"
    using less_eq_div_iff_mult_less_eq [of 4096 q x] div_less_iff_less_mult [of 4096 x "q + 1"] by (auto simp: algebra_simps)
  then show ?thesis by (simp add: erase_range_def q)
qed

lemma block_rep_erased:
  assumes "d mod 4096 = 0" "b mod 4096 = 0"
    and m': "m' = erase_range (erase_range m (d div 4096) 1) (b div 4096) 1"
  shows "block_rep m' d b []" "same_but d b m m'"
  unfolding m' using erase_range_at [OF assms(1)] erase_range_at [OF assms(2)]
  by (auto intro!: block_rep_Nil simp: same_but_def)

lemma used_Cons [simp]: "slot_off (x # xs) (Suc (length xs)) = length (slot_val x) + used xs"
  by (simp add: slot_off_def)

lemma used_filter_le: "used (filter P sl) \<le> used sl"
  by (induction sl) auto

lemma used_filter_take: "used (filter P (take i sl)) \<le> used sl"
proof -
  have "used sl = used (take i sl) + used (drop i sl)" using used_append [of "take i sl" "drop i sl"] by simp
  then show ?thesis using used_filter_le [of P "take i sl"] by simp
qed

lemma unat_of_nat32: "n < 2 ^ 32 \<Longrightarrow> unat (of_nat n :: u32) = n"
  by (simp add: unat_of_nat_small)

abbreviation live :: "slot list \<Rightarrow> slot list" where "live sl \<equiv> filter slot_live sl"

text \<open>The state of the loop when it has written the slots \<open>L\<close>.\<close>

definition loop_vars :: "nat \<Rightarrow> nat \<Rightarrow> slot list \<Rightarrow> u32 \<times> u32 \<times> u32" where
  "loop_vars d b L = (of_nat (b + used L), of_nat (d + 64 * length L), of_nat (used L))"

lemma live_step:
  assumes rep: "block_rep m d b sl" and i: "i < length sl" and x: "sl ! i = Slot True k v"
  shows "live (take (Suc i) sl) = live (take i sl) @ [Slot True k v]"
    "used (live (take i sl)) + length v < 4096" "length (live (take i sl)) < 64" "name_ok k" "slot_off sl i + length v < 4096"
    "name_of (elem_at (mem_slice m d 4096) i) = entry (slot_off sl i) (Slot True k v)"
    "buf_get (mem_slice m b 4096) (slot_off sl i) (length v) = Some v"
proof -
  have r: "length sl \<le> 64" "used sl < 4096" "\<forall>x \<in> set sl. name_ok (slot_key x)"
      "mem_slice m (b + slot_off sl i) (length v) = v"
    using rep i x by (auto simp: block_rep_def)
  show L: "live (take (Suc i) sl) = live (take i sl) @ [Slot True k v]" using i x by (simp add: take_Suc_conv_app_nth)
  show "used (live (take i sl)) + length v < 4096"
    using used_filter_take [of slot_live "Suc i" sl] r(2) unfolding L by simp
  show "length (live (take i sl)) < 64" using length_filter_le [of slot_live "take i sl"] i r(1) by simp
  show "name_ok k" using r(3) i x by (metis nth_mem slot.sel(2))
  show off: "slot_off sl i + length v < 4096" using slot_off_le [OF i] r(2) x by simp
  show "name_of (elem_at (mem_slice m d 4096) i) = entry (slot_off sl i) (Slot True k v)" using entry_at [OF rep i] x by simp
  show "buf_get (mem_slice m b 4096) (slot_off sl i) (length v) = Some v" using off r(4) by (simp add: buf_get_def min_absorb1)
qed

lemma reorganize_loop_rule:
  assumes rep0: "block_rep m0 d b sl" and lay: "d + 4096 \<le> b" "b + 4096 \<le> unat (flash_size cfg)" "unat (flash_size cfg) \<le> 2 ^ 24"
  shows "i + n = 64 \<Longrightarrow> kv_at E cfg tbl (protect_none cfg) m s \<Longrightarrow> block_rep m d b (live (take i sl)) \<Longrightarrow>
    (\<And>m' s'. kv_at E cfg tbl (protect_none cfg) m' s' \<Longrightarrow> block_rep m' d b (live sl) \<Longrightarrow> same_but d b m m' \<Longrightarrow> Q (loop_vars d b (live sl), s')) \<Longrightarrow>
    returns (reorganize_loop E (mem_slice m0 d 4096) (mem_slice m0 b 4096) n i (loop_vars d b (live (take i sl))) s) Q"
proof (induction n arbitrary: i m s)
  case 0
  then show ?case using rep0 by (simp add: block_rep_def)
next
  case (Suc n)
  let ?L = "live (take i sl)" and ?arr = "mem_slice m0 d 4096" and ?dat = "mem_slice m0 b 4096"
  show ?case
  proof (cases "i < length sl \<and> slot_live (sl ! i)")
    case False
    then have "live (take (Suc i) sl) = ?L" by (cases "i < length sl") (simp_all add: take_Suc_conv_app_nth)
    moreover have "dwUsingFlag (name_of (elem_at ?arr i)) \<noteq> FLASH_SPACE_USING"
      using False entry_at [OF rep0, of i] entry_free [OF rep0, of i] Suc.prems(1)
      by (cases "i < length sl") (simp, simp add: FLASH_SPACE_USING_def)
    ultimately show ?thesis
      using Suc.IH [of "Suc i" m s] Suc.prems by (simp add: loop_vars_def)
  next
    case True
    define k v where "k = slot_key (sl ! i)" and "v = slot_val (sl ! i)"
    have x: "sl ! i = Slot True k v" using True by (cases "sl ! i") (simp add: k_def v_def)
    note st = live_step [OF rep0 conjunct1 [OF True] x]
    note L = st(1) and bounds = st(2-5) and e = st(6) and v = st(7)
    define A N z where "A = (of_nat (b + used ?L) :: u32)" and "N = (of_nat (d + 64 * length ?L) :: u32)" and "z = (of_nat (used ?L) :: u32)"
    have nums: "unat (of_nat (slot_off sl i) :: u32) = slot_off sl i" "unat (of_nat (length v) :: u32) = length v"
        "unat A = b + used ?L" "unat N = d + 64 * length ?L"
      using bounds lay by (auto intro!: unat_of_nat32 simp: A_def N_def simp del: of_nat_add)
    have vars: "loop_vars d b ?L = (A, N, z)"
        "loop_vars d b (live (take (Suc i) sl)) = (A + of_nat (length v), N + 64, z + of_nat (length v))"
      unfolding L by (simp_all add: loop_vars_def A_def N_def z_def)
    have e2: "entry (slot_off sl i) (Slot True k v)\<lparr>dwOffsetByByte := z\<rparr> = entry (used ?L) (Slot True k v)"
      by (simp add: entry_def z_def)
    define m' where "m' = prog (prog m (b + used ?L) v) (d + 64 * length ?L) (name_bytes (entry (used ?L) (Slot True k v)))"
    note app = block_rep_append [OF Suc.prems(3) bounds(3,2,1) lay(1) m'_def]
    have *: "returns (reorganize_loop E ?arr ?dat n (Suc i) (loop_vars d b (live (take (Suc i) sl))) s') Q"
      if "kv_at E cfg tbl (protect_none cfg) m' s'" for s'
      by (rule Suc.IH [OF _ that]) (use Suc.prems(1,4) app same_but_trans [OF app(2)] L in auto)
    show ?thesis
      unfolding vars(1) using * [unfolded vars(2)] Suc.prems(2) bounds lay
      by (auto simp: e e2 nums v m'_def intro!: kv_rules)
  qed
qed

text \<open>What compacting with a new value does, and whether there is room.\<close>

definition compact :: "slot list \<Rightarrow> byte list \<Rightarrow> byte list \<Rightarrow> bool \<times> slot list" where
  "compact sl k v = (if used (live sl) + length v \<ge> 4096 then (False, live sl) else (True, live sl @ [Slot True k v]))"

definition status_of :: "bool \<Rightarrow> u32" where "status_of ok = (if ok then status kNoErr else status kGeneralErr)"

lemma no_room_iff:
  assumes "n < 4096" "unat w < 2 ^ 31"
  shows "(of_nat n :: u32) + w \<ge> FLASH_SECTOR_SIZE \<longleftrightarrow> n + unat w \<ge> 4096"
proof -
  have "unat (of_nat n :: u32) = n" using assms(1) by (intro unat_of_nat32) simp
  then have "unat ((of_nat n :: u32) + w) = n + unat w" using assms by (subst unat_add_no_wrap) auto
  then show ?thesis by (simp add: FLASH_SECTOR_SIZE_def word_le_nat_alt)
qed

text \<open>The layout of a block, and a value of \<open>len\<close> bytes in the buffer \<open>buf\<close> with a name entry for \<open>k\<close>.\<close>

definition layout :: "flash_config_t \<Rightarrow> nat \<Rightarrow> nat \<Rightarrow> bool" where
  "layout cfg d b \<longleftrightarrow> d mod 4096 = 0 \<and> b mod 4096 = 0 \<and> d + 4096 \<le> b \<and> b + 4096 \<le> unat (flash_size cfg)"

definition new_value :: "byte list \<Rightarrow> u32 \<Rightarrow> byte list \<Rightarrow> bool" where
  "new_value buf len v \<longleftrightarrow> unat len < 2 ^ 31 \<and> unat len \<le> length buf \<and> v = take (unat len) buf"

lemma new_value_length: "new_value buf len v \<Longrightarrow> length v = unat len"
  by (simp add: new_value_def)

text \<open>A new slot behind the slots \<open>L\<close>.\<close>

lemma append_rule:
  assumes at: "kv_at E cfg tbl (protect_none cfg) m s" and rep: "block_rep m d b L" and lay: "layout cfg d b"
    and k: "name_ok k" "length L < 64" and room: "used L + length v < 4096" and v: "new_value buf len v"
    and addr: "A = of_nat (b + used L)" "N = of_nat (d + 64 * length L)"
    and nd: "ucName nd = str_field 52 k"
    and Q: "\<And>m' s'. kv_at E cfg tbl (protect_none cfg) m' s' \<Longrightarrow> block_rep m' d b (L @ [Slot True k v]) \<Longrightarrow> same_but d b m m'
      \<Longrightarrow> Q (status kNoErr, s')"
  shows "returns (write_name_data E buf len A N (of_nat (used L)) nd s) Q"
proof -
  define m' where "m' = prog (prog m (b + used L) v) (d + 64 * length L) (name_bytes (entry (used L) (Slot True k v)))"
  have l: "unat (flash_size cfg) \<le> 2 ^ 24" "d + 4096 \<le> b" "b + 4096 \<le> unat (flash_size cfg)"
    using at lay by (auto simp: kv_at_def chip_ok_def layout_def)
  have "of_nat (length v) = len" using v by (simp add: new_value_length)
  then have e: "nd\<lparr>dwlength := len, dwOffsetByByte := of_nat (used L), dwUsingFlag := FLASH_SPACE_USING\<rparr> = entry (used L) (Slot True k v)"
    using nd by (simp add: entry_def)
  have nums: "unat A = b + used L" "unat N = d + 64 * length L"
    unfolding addr using l k(2) room by (auto intro!: unat_of_nat32 simp del: of_nat_add)
  note app = block_rep_append [OF rep k room l(2) m'_def]
  show ?thesis
    unfolding write_name_data_def e Let_def using Q [OF _ app] at l k(2) room v
    by (auto simp: nums new_value_def m'_def intro!: kv_rules)
qed

text \<open>The end of \<open>bk_reorganize_name_data\<close>: the new value, if there is room behind the slots that were kept.\<close>

lemma reorganize_end_rule:
  assumes at: "kv_at E cfg tbl (protect_none cfg) m t" and rep: "block_rep m d b (live sl)" and lay: "layout cfg d b"
    and k: "name_ok k" "length (live sl) < 64" and v: "new_value buf len v" and nd: "ucName nd = str_field 52 k"
    and lv: "loop_vars d b (live sl) = (A, N, z)"
    and Q: "\<And>m' s'. kv_at E cfg tbl (protect_none cfg) m' s' \<Longrightarrow> block_rep m' d b (snd (compact sl k v)) \<Longrightarrow> same_but d b m m'
      \<Longrightarrow> Q (status_of (fst (compact sl k v)), s')"
  shows "returns (if z + len \<ge> FLASH_SECTOR_SIZE then Some (status kGeneralErr, t) else write_name_data E buf len A N z nd t) Q"
proof -
  let ?L = "live sl"
  have ANz: "A = of_nat (b + used ?L)" "N = of_nat (d + 64 * length ?L)" "z = of_nat (used ?L)"
    using lv by (auto simp: loop_vars_def)
  have "z + len \<ge> FLASH_SECTOR_SIZE \<longleftrightarrow> used ?L + length v \<ge> 4096"
    using no_room_iff [of "used ?L" len] v rep ANz(3) by (simp add: new_value_def block_rep_def)
  then show ?thesis
    using at rep Q ANz append_rule [OF at rep lay k _ v ANz(1,2) nd]
    by (cases "used ?L + length v \<ge> 4096") (simp_all add: compact_def status_of_def)
qed

lemma reorganize_rule:
  assumes at: "kv_at E cfg tbl p m s" "named cfg p" and rep: "block_rep m d b sl" and lay: "layout cfg d b"
    and k: "name_ok k" "length (live sl) < 64" and v: "new_value buf len v" and nd: "ucName nd = str_field 52 k"
    and Q: "\<And>m' s'. kv_at E cfg tbl p m' s' \<Longrightarrow> block_rep m' d b (snd (compact sl k v)) \<Longrightarrow> same_but d b m m'
      \<Longrightarrow> Q (status_of (fst (compact sl k v)), s')"
  shows "returns (bk_reorganize_name_data E (of_nat d) (mem_slice m d 4096) (mem_slice m b 4096) (of_nat b) buf len nd s) Q"
proof -
  have l: "unat (flash_size cfg) \<le> 2 ^ 24" "d + 4096 \<le> b" "b + 4096 \<le> unat (flash_size cfg)" "d mod 4096 = 0" "b mod 4096 = 0"
    using at lay by (auto simp: kv_at_def chip_ok_def layout_def)
  have ad: "unat (of_nat d :: u32) = d" "unat (of_nat b :: u32) = b" using l by (auto intro!: unat_of_nat32)
  define m1 where "m1 = erase_range (erase_range m (d div 4096) 1) (b div 4096) 1"
  note er = block_rep_erased [OF l(4,5) m1_def]
  have er1: "returns (erase_sector E (of_nat d) t \<bind> (\<lambda>s. erase_sector E (of_nat b) s \<bind> G)) Q"
    if "kv_at E cfg tbl (protect_none cfg) m t" "\<And>u. kv_at E cfg tbl (protect_none cfg) m1 u \<Longrightarrow> returns (G u) Q" for t G
    using that l ad by (auto intro!: returns_bind erase_rule simp: m1_def)
  obtain A N z where lv: "loop_vars d b (live sl) = (A, N, z)" by (cases "loop_vars d b (live sl)")
  have l0: "loop_vars d b (live (take 0 sl)) = (of_nat b, of_nat d, 0)" by (simp add: loop_vars_def)
  have loop: "returns (reorganize_loop E (mem_slice m d 4096) (mem_slice m b 4096) 64 0 (of_nat b, of_nat d, 0) t) R"
    if "kv_at E cfg tbl (protect_none cfg) m1 t"
      and "\<And>m2 u. kv_at E cfg tbl (protect_none cfg) m2 u \<Longrightarrow> block_rep m2 d b (live sl) \<Longrightarrow> same_but d b m1 m2 \<Longrightarrow> R ((A, N, z), u)" for t R
    using reorganize_loop_rule [OF rep l(2,3,1), of 0 64 E tbl m1 t R, unfolded lv l0] that er(1) by simp
  show ?thesis
    unfolding bk_reorganize_name_data_def FLASH_NAME_MAX_ARRAY_def
    apply (rule returns_bind, rule open_unprotected_rule [OF at(1)], simp only: prod.case)
    apply (erule er1, rule returns_bind, erule loop, simp only: prod.case)
    apply (rule returns_bind, erule (1) reorganize_end_rule [OF _ _ lay k v nd lv])
    using at(2) apply (auto intro!: kv_rules Q intro: same_but_trans [OF er(2) same_but_trans])
    done
qed

section \<open>Storing a value\<close>

definition put_slot :: "slot list \<Rightarrow> byte list \<Rightarrow> byte list \<Rightarrow> bool \<times> slot list" where
  "put_slot sl k v =
     (if length sl < 64 then
        if used sl + length v \<ge> 4096 then compact sl k v else (True, sl @ [Slot True k v])
      else if live sl \<noteq> sl then compact sl k v else (False, sl))"

lemma place_rule:
  assumes at: "kv_at E cfg tbl (protect_none cfg) m s" and rep: "block_rep m d b sl" and lay: "layout cfg d b"
    and k: "name_ok k" and v: "new_value buf len v" and nd: "ucName nd = str_field 52 k"
    and Q: "\<And>m' s'. kv_at E cfg tbl (protect_none cfg) m' s' \<Longrightarrow> block_rep m' d b (snd (put_slot sl k v)) \<Longrightarrow> same_but d b m m'
      \<Longrightarrow> Q (status_of (fst (put_slot sl k v)), s')"
  shows "returns (place_name_data E (mem_slice m d 4096) (of_nat b) (of_nat d) buf len nd s) Q"
proof -
  have l: "unat (flash_size cfg) \<le> 2 ^ 24" "b + 4096 \<le> unat (flash_size cfg)" and r: "length sl \<le> 64" "used sl < 4096"
    using at lay rep by (auto simp: kv_at_def chip_ok_def layout_def block_rep_def)
  have ad: "unat (of_nat b :: u32) = b" using l by (auto intro!: unat_of_nat32)
  have reorg: "returns (flash_ddev_read E FLASH_SECTOR_SIZE (of_nat b) s) (\<lambda>r. returns (case r of (data_buff, s) \<Rightarrow>
      bk_reorganize_name_data E (of_nat d) (mem_slice m d 4096) data_buff (of_nat b) buf len nd s) Q)"
    if "put_slot sl k v = compact sl k v" "length (live sl) < 64"
    using that Q at l ad
    by (auto intro!: read_rule reorganize_rule [OF _ named_none rep lay k _ v nd] simp: FLASH_SECTOR_SIZE_def)
  have loop: "free_entry_loop (mem_slice m d 4096) FLASH_NAME_MAX_ARRAY 0 0 0
      = (if length sl < 64 then Inl (length sl, of_nat (used sl)) else Inr (length (filter (Not \<circ> slot_live) sl)))"
    using free_entry_index [OF rep, of 0 64 0] by (simp add: FLASH_NAME_MAX_ARRAY_def)
  have fit: "of_nat (used sl) + len \<ge> FLASH_SECTOR_SIZE \<longleftrightarrow> used sl + length v \<ge> 4096"
    using no_room_iff [OF r(2), of len] v by (simp add: new_value_def)
  have msk: "live sl \<noteq> sl \<longleftrightarrow> 0 < length (filter (Not \<circ> slot_live) sl)" "live sl \<noteq> sl \<longrightarrow> length (live sl) < length sl"
    using length_filter_le [of slot_live sl] by (auto simp: filter_empty_conv filter_id_conv length_filter_less)
  consider (room) "length sl < 64" "used sl + length v < 4096" | (full) "length sl < 64" "used sl + length v \<ge> 4096"
    | (masked) "length sl = 64" "live sl \<noteq> sl" | (none) "length sl = 64" "live sl = sl"
    using r(1) by fastforce
  then show ?thesis
  proof cases
    case room
    have "returns (write_name_data E buf len (of_nat b + of_nat (used sl)) (of_nat d + of_nat (length sl) * 64) (of_nat (used sl)) nd s) Q"
      by (rule append_rule [OF at rep lay k room v _ _ nd]) (use Q room in \<open>auto simp: put_slot_def status_of_def\<close>)
    then show ?thesis using room fit by (simp add: place_name_data_def loop)
  next
    case full
    then have "length (live sl) < 64" by (intro le_less_trans [OF length_filter_le])
    then show ?thesis
      using full reorg fit by (simp add: place_name_data_def loop put_slot_def returns_bind)
  next
    case masked
    then show ?thesis using reorg msk by (simp add: place_name_data_def loop put_slot_def returns_bind)
  next
    case none
    then show ?thesis using Q [OF at] rep msk by (simp add: place_name_data_def loop put_slot_def status_of_def)
  qed
qed

lemma new_addr_rule:
  assumes at: "kv_at E cfg tbl p m s" "named cfg p" and rep: "block_rep m d b sl" and lay: "layout cfg d b"
    and k: "name_ok k" and v: "new_value buf len v" and nd: "ucName nd = str_field 52 k"
    and mem: "mem M_name_temp" "mem M_data_buff"
    and Q: "\<And>m' s'. kv_at E cfg tbl p m' s' \<Longrightarrow> block_rep m' d b (snd (put_slot sl k v)) \<Longrightarrow> same_but d b m m'
      \<Longrightarrow> Q (status_of (fst (put_slot sl k v)), s')"
  shows "returns (bk_set_name_data_new_addr E mem (of_nat b) (of_nat d) buf len nd s) Q"
proof -
  have l: "unat (flash_size cfg) \<le> 2 ^ 24" "d + 4096 \<le> b" "b + 4096 \<le> unat (flash_size cfg)"
    using at lay by (auto simp: kv_at_def chip_ok_def layout_def)
  have ad: "unat (of_nat d :: u32) = d" using l by (auto intro!: unat_of_nat32)
  show ?thesis
    unfolding bk_set_name_data_new_addr_def
    using at l by (auto simp: ad mem intro!: kv_rules place_rule [OF _ rep lay k v nd] Q)
qed

text \<open>The value of a name is replaced: the slot in use is masked unless it has the value already.\<close>

definition set_slot :: "slot list \<Rightarrow> byte list \<Rightarrow> byte list \<Rightarrow> bool \<times> slot list" where
  "set_slot sl k v =
     (case slot_index k sl 0 of
        None \<Rightarrow> put_slot sl k v
      | Some j \<Rightarrow> if slot_val (sl ! j) = v then (True, sl) else put_slot (sl[j := mask_slot (sl ! j)]) k v)"

lemma slot_index_SomeD:
  assumes "slot_index k sl i = Some j"
  shows "i \<le> j" "j < length sl" "slot_live (sl ! j)" "slot_key (sl ! j) = k"
  using assms by (auto simp: slot_index_def find_Some_iff)

text \<open>The slot \<open>j\<close> as the code reads it.\<close>

lemma slot_reads:
  assumes rep: "block_rep m d b sl" and j: "j < length sl" and lay: "layout cfg d b" "unat (flash_size cfg) \<le> 2 ^ 24"
  shows "unat (of_nat d + of_nat j * 64 :: u32) = d + 64 * j" "d + 64 * j + 64 \<le> unat (flash_size cfg)"
    "unat (of_nat b + of_nat (slot_off sl j) :: u32) = b + slot_off sl j"
    "unat (of_nat (length (slot_val (sl ! j))) :: u32) = length (slot_val (sl ! j))"
    "b + slot_off sl j + length (slot_val (sl ! j)) \<le> unat (flash_size cfg)"
    "mem_slice m (b + slot_off sl j) (length (slot_val (sl ! j))) = slot_val (sl ! j)"
    "name_of (mem_slice m (d + 64 * j) 64) = entry (slot_off sl j) (sl ! j)"
proof -
  have l: "d + 4096 \<le> b" "b + 4096 \<le> unat (flash_size cfg)" "64 * j + 64 \<le> 4096" "used sl < 4096"
    using lay rep j by (auto simp: layout_def block_rep_def)
  note o = slot_off_le [OF j]
  have "d + 64 * j < 2 ^ 32" "b + slot_off sl j < 2 ^ 32" "length (slot_val (sl ! j)) < 2 ^ 32" using l o lay(2) by simp_all
  from this [THEN unat_of_nat32]
  show "unat (of_nat d + of_nat j * 64 :: u32) = d + 64 * j" "unat (of_nat b + of_nat (slot_off sl j) :: u32) = b + slot_off sl j"
    "unat (of_nat (length (slot_val (sl ! j))) :: u32) = length (slot_val (sl ! j))"
    by (simp_all add: mult.commute)
  show "d + 64 * j + 64 \<le> unat (flash_size cfg)" "b + slot_off sl j + length (slot_val (sl ! j)) \<le> unat (flash_size cfg)"
    using l o by linarith+
qed (use rep j in \<open>simp_all add: block_rep_def\<close>)

lemma unat_64 [simp]: "unat (64 :: u32) = 64"
  by simp

lemma value_differs:
  assumes "new_value buf len v" "length old \<le> 2048"
  shows "(if of_nat (length old) \<noteq> len then Some True
    else do { new \<leftarrow> buf_get buf 0 (unat len); Some (take (unat len) (old @ replicate (2048 - length old) 0) \<noteq> new) }) = Some (old \<noteq> v)"
proof -
  have "of_nat (length old) = len \<longleftrightarrow> length old = length v"
  proof -
    have "unat (of_nat (length old) :: u32) = length old" using assms(2) by (intro unat_of_nat32) simp
    then show ?thesis using new_value_length [OF assms(1)] by (simp add: word_unat_eq_iff)
  qed
  then show ?thesis using assms(1) by (auto simp: new_value_def buf_get_def)
qed

lemma set_name_data_rule:
  assumes at: "kv_at E cfg tbl p m s" "named cfg p" and rep: "block_rep m d b sl" and lay: "layout cfg d b"
    and k: "name_ok k" and v: "new_value buf len v" and mem: "\<And>x. mem x"
    and old: "\<And>j. slot_index k sl 0 = Some j \<Longrightarrow> length (slot_val (sl ! j)) \<le> 2048"
    and addr: "get_falsh_name_space_max_array C ns s = Some mx" "base + n_off = of_nat d"
      "base + blk * FLASH_SECTOR_SIZE + NAME_FLASH_DATA_BASE_ADDR mx = of_nat b"
    and Q: "\<And>m' s'. kv_at E cfg tbl p m' s' \<Longrightarrow> block_rep m' d b (snd (set_slot sl k v)) \<Longrightarrow> same_but d b m m'
      \<Longrightarrow> Q (status_of (fst (set_slot sl k v)), s')"
  shows "returns (bk_set_name_data C E mem ns k base buf len n_off blk s) Q"
proof -
  have l: "unat (flash_size cfg) \<le> 2 ^ 24" "d + 4096 \<le> b" "b + 4096 \<le> unat (flash_size cfg)"
    using at lay by (auto simp: kv_at_def chip_ok_def layout_def)
  have ad: "unat (of_nat d :: u32) = d" using l by (auto intro!: unat_of_nat32)
  show ?thesis
  proof (cases "slot_index k sl 0")
    case None
    then show ?thesis
      unfolding bk_set_name_data_def Let_def addr(1) bind.bind_lunit addr(2,3)
      using at l rep ad mem Q
      by (auto simp: ad set_slot_def intro!: returns_bind get_name_addr_rule [where b = b and sl = sl] new_addr_rule [OF _ _ rep lay k v])
  next
    case (Some j)
    note j = slot_index_SomeD [OF Some] and rd = slot_reads [OF rep slot_index_SomeD(2) [OF Some] lay l(1)]
    let ?x = "sl ! j" and ?e = "entry (slot_off sl j) (mask_slot (sl ! j))"
    define m1 where "m1 = prog m (d + 64 * j) (name_bytes ?e)"
    note msk = block_rep_mask [OF rep j(2,3) l(2) disjI2 [OF refl] m1_def]
    have e: "(entry (slot_off sl j) ?x)\<lparr>dwUsingFlag := FLASH_SPACE_MASK\<rparr> = ?e" by (simp add: entry_def)
    have e1: "name_of (mem_slice m1 (d + 64 * j) 64) = ?e" using slot_reads(7) [OF msk(1) _ lay l(1), of j] j(2) by simp
    have put: "buf_put (replicate 2048 0) 0 (slot_val ?x) = Some (slot_val ?x @ replicate (2048 - length (slot_val ?x)) 0)"
      using old [OF Some] by (simp add: buf_put_def)
    have Q0: "Q (status kNoErr, s')" if "kv_at E cfg tbl p m s'" "slot_val ?x = v" for s'
      using Q [OF that(1)] rep that(2) by (simp add: set_slot_def Some status_of_def)
    have Q1: "Q (status_of (fst (put_slot (sl[j := mask_slot ?x]) k v)), s')"
      if "kv_at E cfg tbl p m' s'" "block_rep m' d b (snd (put_slot (sl[j := mask_slot ?x]) k v))" "same_but d b m1 m'" "slot_val ?x \<noteq> v" for m' s'
      using Q [OF that(1)] that same_but_trans [OF msk(2) that(3)] by (simp add: set_slot_def Some)
    have lt: "d + 64 * j < unat (flash_size cfg)" using rd(2) by linarith
    show ?thesis
      unfolding bk_set_name_data_def Let_def addr(1) bind.bind_lunit addr(2,3)
      apply (rule returns_bind, rule get_name_addr_rule [OF at, where b = b and sl = sl and Q = "\<lambda>r. returns (_ r) Q"])
      apply (use l ad rep mem in simp_all) [3]
      apply (simp only: Some option.map prod.case option.case)
      apply (rule returns_bind, erule open_unprotected_rule, simp only: prod.case)
      apply (rule returns_bind, erule read_rule, use rd in simp, simp only: prod.case rd unat_64 entry_simps)
      apply (rule returns_bind, erule read_rule, use rd in simp, simp only: prod.case rd put bind.bind_lunit value_differs [OF v old [OF Some]] e)
      by (auto intro!: kv_rules new_addr_rule [OF _ named_none msk(1) lay k v] Q0 Q1 simp: rd e1 j at mem lt simp flip: m1_def)
  qed
qed

section \<open>The map of a block\<close>

definition kmap :: "slot list \<Rightarrow> byte list \<rightharpoonup> byte list" where
  "kmap sl = map_of (map (\<lambda>x. (slot_key x, slot_val x)) (live sl))"

definition one_live :: "slot list \<Rightarrow> bool" where
  "one_live sl \<longleftrightarrow> distinct (map slot_key (live sl))"

lemma kmap_Nil [simp]: "kmap [] = Map.empty" "one_live []"
  by (simp_all add: kmap_def one_live_def)

lemma kmap_None: "kmap sl k = None \<longleftrightarrow> k \<notin> slot_key ` set (live sl)"
  by (auto simp: kmap_def map_of_eq_None_iff image_image)

lemma slot_index_None: "slot_index k sl 0 = None \<longleftrightarrow> kmap sl k = None"
  unfolding kmap_None by (auto simp: slot_index_def find_None_iff in_set_conv_nth)

lemma live_split:
  "j < length sl \<Longrightarrow> slot_live (sl ! j) \<Longrightarrow> live sl = live (take j sl) @ sl ! j # live (drop (Suc j) sl)"
  "j < length sl \<Longrightarrow> live (sl[j := mask_slot (sl ! j)]) = live (take j sl) @ live (drop (Suc j) sl)"
  by (subst id_take_nth_drop [of j sl], simp_all add: upd_conv_take_nth_drop)

lemma slot_index_Some:
  assumes "one_live sl" "slot_index k sl 0 = Some j"
  shows "kmap sl k = Some (slot_val (sl ! j))" "kmap (sl[j := mask_slot (sl ! j)]) = (kmap sl)(k := None)"
    "one_live (sl[j := mask_slot (sl ! j)])" "live (sl[j := mask_slot (sl ! j)]) = filter (\<lambda>x. slot_key x \<noteq> k) (live sl)"
proof -
  note j = slot_index_SomeD [OF assms(2)] and L = live_split [OF slot_index_SomeD(2) [OF assms(2)]]
  let ?A = "live (take j sl)" and ?B = "live (drop (Suc j) sl)"
  have d: "k \<notin> slot_key ` set ?A" "k \<notin> slot_key ` set ?B" "distinct (map slot_key (?A @ ?B))"
    using assms(1) j unfolding one_live_def L(1) [OF j(3)] by auto
  have no: "map_of (map (\<lambda>x. (slot_key x, slot_val x)) ?A) k = None" "map_of (map (\<lambda>x. (slot_key x, slot_val x)) ?B) k = None"
    using d(1,2) by (auto simp: map_of_eq_None_iff image_image)
  show "kmap sl k = Some (slot_val (sl ! j))"
    unfolding kmap_def L(1) [OF j(3)] using no j by (simp add: map_add_def)
  show "kmap (sl[j := mask_slot (sl ! j)]) = (kmap sl)(k := None)"
    unfolding kmap_def L(1) [OF j(3)] L(2) using no j by (auto simp: map_add_def fun_eq_iff split: option.split)
  show "one_live (sl[j := mask_slot (sl ! j)])" unfolding one_live_def L(2) using d(3) .
  have "filter (\<lambda>x. slot_key x \<noteq> k) ?A = ?A" "filter (\<lambda>x. slot_key x \<noteq> k) ?B = ?B"
    using d(1,2) by (auto simp: filter_id_conv simp del: filter_filter)
  then show "live (sl[j := mask_slot (sl ! j)]) = filter (\<lambda>x. slot_key x \<noteq> k) (live sl)"
    unfolding L(1) [OF j(3)] L(2) using j by (simp del: filter_filter)
qed

lemma kmap_append: "kmap sl k = None \<Longrightarrow> kmap (sl @ [Slot True k v]) = (kmap sl)(k \<mapsto> v)"
  by (auto simp: kmap_def map_add_def fun_eq_iff split: option.split)

lemma one_live_append: "one_live sl \<Longrightarrow> kmap sl k = None \<Longrightarrow> one_live (sl @ [Slot True k v])"
  by (auto simp: one_live_def kmap_None)

lemma kmap_live [simp]: "kmap (live sl) = kmap sl" "one_live (live sl) = one_live sl"
  by (simp_all add: kmap_def one_live_def)

lemma put_slot_map:
  assumes "one_live sl" "kmap sl k = None"
  shows "one_live (snd (put_slot sl k v))"
    "kmap (snd (put_slot sl k v)) = (if fst (put_slot sl k v) then (kmap sl)(k \<mapsto> v) else kmap sl)"
    "used (live sl) + length v < 4096 \<Longrightarrow> length (live sl) < 64 \<Longrightarrow> fst (put_slot sl k v)"
proof -
  have "one_live (live sl @ [Slot True k v])" "kmap (live sl @ [Slot True k v]) = (kmap sl)(k \<mapsto> v)"
    using assms by (auto intro!: one_live_append simp: kmap_append)
  then show "one_live (snd (put_slot sl k v))"
      "kmap (snd (put_slot sl k v)) = (if fst (put_slot sl k v) then (kmap sl)(k \<mapsto> v) else kmap sl)"
    using assms by (auto simp: put_slot_def compact_def kmap_append one_live_append)
  show "fst (put_slot sl k v)" if "used (live sl) + length v < 4096" "length (live sl) < 64"
    using that by (auto simp: put_slot_def compact_def)
qed

text \<open>
  Storing is the update of the map when there is room for the value besides the values of the
  other names; when there is no room, the old value of the name is gone.
\<close>

lemma set_slot_map:
  assumes "one_live sl"
  shows "one_live (snd (set_slot sl k v))"
    "kmap (snd (set_slot sl k v)) = (kmap sl)(k := if fst (set_slot sl k v) then Some v else None)"
    "used (filter (\<lambda>x. slot_key x \<noteq> k) (live sl)) + length v < 4096 \<Longrightarrow>
      length (filter (\<lambda>x. slot_key x \<noteq> k) (live sl)) < 64 \<Longrightarrow> fst (set_slot sl k v)"
proof -
  have "one_live (snd (set_slot sl k v)) \<and> kmap (snd (set_slot sl k v)) = (kmap sl)(k := if fst (set_slot sl k v) then Some v else None)
    \<and> (used (filter (\<lambda>x. slot_key x \<noteq> k) (live sl)) + length v < 4096 \<and>
      length (filter (\<lambda>x. slot_key x \<noteq> k) (live sl)) < 64 \<longrightarrow> fst (set_slot sl k v))"
  proof (cases "slot_index k sl 0")
    case None
    then have no: "kmap sl k = None" by (simp add: slot_index_None)
    then have "filter (\<lambda>x. slot_key x \<noteq> k) (live sl) = live sl" by (auto simp: kmap_None filter_id_conv simp del: filter_filter)
    then show ?thesis using put_slot_map [OF assms no] no by (simp add: set_slot_def None fun_upd_idem del: filter_filter)
  next
    case (Some j)
    note ix = slot_index_Some [OF assms Some]
    have "kmap (sl[j := mask_slot (sl ! j)]) k = None" by (simp add: ix)
    from put_slot_map [OF ix(3) this] show ?thesis
      using assms ix by (auto simp: set_slot_def Some fun_upd_idem simp del: filter_filter)
  qed
  then show "one_live (snd (set_slot sl k v))"
    "kmap (snd (set_slot sl k v)) = (kmap sl)(k := if fst (set_slot sl k v) then Some v else None)"
    "used (filter (\<lambda>x. slot_key x \<noteq> k) (live sl)) + length v < 4096 \<Longrightarrow>
      length (filter (\<lambda>x. slot_key x \<noteq> k) (live sl)) < 64 \<Longrightarrow> fst (set_slot sl k v)" by blast+
qed

end
