(* ===== verification/Kv_Table.thy ===== *)
theory Kv_Table
  imports Kv_Block
begin

text \<open>
  The whole key-value store: the sector with the entries of the namespaces, and a block for each.
  A table of namespaces with their slots describes a partition; the operations of the interface
  have their effect on the table.
\<close>

section \<open>The partition of the store\<close>

type_synonym kv_table = "(byte list option \<times> slot list) list"

definition ns_ok :: "byte list \<Rightarrow> bool" where "ns_ok ns \<longleftrightarrow> length ns < 56 \<and> 0 \<notin> set ns"

definition ns_entry :: "nat \<Rightarrow> byte list \<Rightarrow> namespace_flash_t" where
  "ns_entry i ns = \<lparr>ns_dwUsingFlag = FLASH_SPACE_USING, ns_dwOffsetByByte = of_nat i * NAME_FLASH_TOTAL_SIZE + NAME_SPACE_FLASH_TOTAL_SIZE,
     ucNamespace = str_field 56 ns\<rparr>"

definition dir_of :: "nat \<Rightarrow> nat \<Rightarrow> nat" where "dir_of base i = base + 4096 * (i + 1)"
definition dat_of :: "nat \<Rightarrow> nat \<Rightarrow> nat \<Rightarrow> nat" where "dat_of base n i = base + 4096 * (n + 1 + i)"

text \<open>The entry of a namespace: programmed for a namespace in use, erased otherwise.\<close>

definition ns_rep :: "(nat \<Rightarrow> byte) \<Rightarrow> nat \<Rightarrow> nat \<Rightarrow> byte list option \<Rightarrow> bool" where
  "ns_rep m base i x = (case x of
     None \<Rightarrow> (\<forall>j < 64. m (base + 64 * i + j) = 0xFF)
   | Some ns \<Rightarrow> ns_ok ns \<and> mem_slice m (base + 64 * i) 64 = namespace_bytes (ns_entry i ns))"

definition names_unique :: "kv_table \<Rightarrow> bool" where
  "names_unique T \<longleftrightarrow> (\<forall>i < length T. \<forall>j < length T. fst (T ! i) = fst (T ! j) \<and> fst (T ! i) \<noteq> None \<longrightarrow> i = j)"

definition table_rep :: "(nat \<Rightarrow> byte) \<Rightarrow> nat \<Rightarrow> kv_table \<Rightarrow> bool" where
  "table_rep m base T \<longleftrightarrow> length T \<le> 64
   \<and> (\<forall>i < length T. ns_rep m base i (fst (T ! i)))
   \<and> (\<forall>i < length T. block_rep m (dir_of base i) (dat_of base (length T) i) (snd (T ! i)))
   \<and> (\<forall>i < length T. one_live (snd (T ! i)) \<and> (fst (T ! i) = None \<longrightarrow> snd (T ! i) = []))
   \<and> names_unique T"

text \<open>A partition \<open>pt\<close> at \<open>base\<close> with \<open>n\<close> namespaces, inside the flash.\<close>

definition store_part :: "flash_config_t \<Rightarrow> part_conf \<Rightarrow> partition_table \<Rightarrow> bk_partition_t \<Rightarrow> nat \<Rightarrow> nat \<Rightarrow> bool" where
  "store_part cfg C tbl pt base n \<longleftrightarrow> BkFlashPartitionIsValid C pt \<noteq> 0 \<and> unat (partition_start_addr (tbl pt)) = base
     \<and> unat (partition_length (tbl pt)) = 4096 * (2 * n + 1)
     \<and> base mod 4096 = 0 \<and> n \<le> 64 \<and> base + 4096 * (2 * n + 1) \<le> unat (flash_size cfg)"

lemma ucast_of_unat: "unat w = n \<Longrightarrow> ucast w = of_nat n"
  by auto

lemma store_part_base:
  assumes "kv_at E cfg tbl p m s" "store_part cfg C tbl (matter_partition ns) base n"
  shows "get_matter_flash_base_addr C ns s = Some (Some (of_nat base))"
    "get_falsh_name_space_max_array C ns s = Some (of_nat n)"
proof -
  let ?pt = "tbl (matter_partition ns)"
  have info: "bk_flash_get_info C (matter_partition ns) s = Some (Some ?pt)"
    using assms by (auto simp: kv_at_def store_part_def bk_flash_get_info_def)
  have "of_nat base = partition_start_addr ?pt" using assms(2) by (auto simp: store_part_def)
  then show "get_matter_flash_base_addr C ns s = Some (Some (of_nat base))"
    using info by (simp add: get_matter_flash_base_addr_def)
  have "unat (partition_length ?pt div FLASH_SECTOR_SIZE div 2) = n" "n < 256"
    using assms(2) by (simp_all add: store_part_def FLASH_SECTOR_SIZE_def unat_div)
  then have "ucast (partition_length ?pt div FLASH_SECTOR_SIZE div 2) = (of_nat n :: u8)"
    by (intro ucast_of_unat)
  then show "get_falsh_name_space_max_array C ns s = Some (of_nat n)"
    using info by (simp add: get_falsh_name_space_max_array_def)
qed

lemma data_base_addr:
  assumes "n \<le> 64"
  shows "NAME_FLASH_DATA_BASE_ADDR (of_nat n) = of_nat (4096 * (n + 1))"
proof -
  have "unat (of_nat n :: u8) = n" using assms by (simp add: unat_of_nat_small)
  then have u: "(ucast (of_nat n :: u8) :: u32) = of_nat n" by (rule ucast_of_unat)
  have h: "NAME_FLASH_TOTAL_HEADER (of_nat n) = push_bit 12 (of_nat (n + 1))"
    by (simp add: NAME_FLASH_TOTAL_HEADER_def NAME_SPACE_FLASH_TOTAL_SIZE_def u push_bit_eq_mult algebra_simps)
  have ff: "(0xFFF :: u32) = mask 12" by (simp add: mask_eq_exp_minus_1)
  have "push_bit 12 (of_nat (n + 1)) AND 0xFFF = (0 :: u32)" "push_bit 12 (of_nat (n + 1)) AND NOT 0xFFF = (push_bit 12 (of_nat (n + 1)) :: u32)"
    unfolding ff by (auto intro!: bit_word_eqI simp: bit_simps)
  then show ?thesis
    unfolding NAME_FLASH_DATA_BASE_ADDR_def h Let_def by (simp add: push_bit_eq_mult algebra_simps)
qed

text \<open>The addresses of the two sectors of a namespace, as the code computes them.\<close>

lemma block_addrs:
  assumes "store_part cfg C tbl pt base n" "i < n"
  shows "layout cfg (dir_of base i) (dat_of base n i)"
    "of_nat base + (of_nat i * NAME_FLASH_TOTAL_SIZE + NAME_SPACE_FLASH_TOTAL_SIZE) = (of_nat (dir_of base i) :: u32)"
    "of_nat base + NAME_SPACE_FLASH_TOTAL_SIZE + of_nat i * NAME_FLASH_TOTAL_SIZE = (of_nat (dir_of base i) :: u32)"
    "of_nat base + of_nat i * FLASH_SECTOR_SIZE + NAME_FLASH_DATA_BASE_ADDR (of_nat n) = of_nat (dat_of base n i)"
proof -
  have p: "base mod 4096 = 0" "n \<le> 64" "base + 4096 * (2 * n + 1) \<le> unat (flash_size cfg)" using assms(1) by (auto simp: store_part_def)
  then obtain q where "base = 4096 * q" by auto
  then have "dir_of base i = 4096 * (q + i + 1)" "dat_of base n i = 4096 * (q + n + 1 + i)" by (simp_all add: dir_of_def dat_of_def)
  then have "dir_of base i mod 4096 = 0" "dat_of base n i mod 4096 = 0" by simp_all
  then show "layout cfg (dir_of base i) (dat_of base n i)" using assms(2) p(3) by (simp add: layout_def) (simp add: dir_of_def dat_of_def)
  show "of_nat base + of_nat i * FLASH_SECTOR_SIZE + NAME_FLASH_DATA_BASE_ADDR (of_nat n) = of_nat (dat_of base n i)"
    unfolding data_base_addr [OF p(2)] by (simp add: dat_of_def FLASH_SECTOR_SIZE_def algebra_simps)
qed (simp_all add: dir_of_def NAME_SPACE_FLASH_TOTAL_SIZE_def algebra_simps)

section \<open>Searching a namespace\<close>

definition ns_index :: "byte list option \<Rightarrow> kv_table \<Rightarrow> nat \<Rightarrow> nat option" where
  "ns_index x T i = find (\<lambda>j. fst (T ! j) = x) [i..<length T]"

lemma ns_index_SomeD:
  assumes "ns_index x T i = Some j"
  shows "j < length T" "fst (T ! j) = x"
  using assms by (auto simp: ns_index_def find_Some_iff)

lemma ns_index_step:
  "i < length T \<Longrightarrow> ns_index x T i = (if fst (T ! i) = x then Some i else ns_index x T (Suc i))"
  by (simp add: ns_index_def upt_conv_Cons)

lemma namespace_of_bytes [simp]: "length (ucNamespace e) = 56 \<Longrightarrow> namespace_of (namespace_bytes e) = e"
  by (simp add: namespace_of_def namespace_bytes_def)

lemma ns_entry_simps [simp]:
  "length (ucNamespace (ns_entry i ns)) = 56" "ns_dwUsingFlag (ns_entry i ns) = FLASH_SPACE_USING"
  "ucNamespace (ns_entry i ns) = str_field 56 ns" "length (namespace_bytes (ns_entry i ns)) = 64"
  "ns_dwOffsetByByte (ns_entry i ns) = of_nat i * NAME_FLASH_TOTAL_SIZE + NAME_SPACE_FLASH_TOTAL_SIZE"
  by (simp_all add: ns_entry_def namespace_bytes_def)

lemma ns_elem_at: "i < n \<Longrightarrow> elem_at (mem_slice m base (64 * n)) i = mem_slice m (base + 64 * i) 64"
  by (simp add: elem_at_def min_absorb1)

lemma ns_free_flag:
  assumes "ns_rep m base i None"
  shows "ns_dwUsingFlag (namespace_of (mem_slice m (base + 64 * i) 64)) \<noteq> FLASH_SPACE_USING"
proof -
  have "mem_slice m (base + 64 * i) 64 = replicate 64 0xFF" using assms by (intro erased_slice) (simp add: ns_rep_def)
  moreover have "replicate 4 (0xFF :: byte) = bytes32 0xFFFFFFFF" by code_simp
  ultimately show ?thesis by (simp add: namespace_of_def FLASH_SPACE_USING_def)
qed

lemma ns_strlen:
  assumes "ns_rep m base i (Some ns)" "i < n"
  shows "strlen_in (drop (64 * i + 8) (mem_slice m base (64 * n))) = Some (length ns)"
proof -
  have split: "64 * n - (64 * i + 8) = 56 + (64 * n - (64 * i + 64))" using assms(2) by simp
  have "mem_slice m (base + (64 * i + 8)) 56 = drop 8 (mem_slice m (base + 64 * i) 64)" by (simp add: add.assoc)
  also have "\<dots> = str_field 56 ns" using assms(1) by (simp add: ns_rep_def namespace_bytes_def)
  finally show ?thesis
    using assms(1) unfolding drop_mem_slice split mem_slice_append by (simp add: strlen_str_field ns_rep_def ns_ok_def)
qed

lemma namespace_loop_index:
  assumes "table_rep m base T"
  shows "i + n = length T \<Longrightarrow> namespace_loop (mem_slice m base (64 * length T)) ns n i
    = Some (map_option (\<lambda>j. (of_nat j * NAME_FLASH_TOTAL_SIZE + NAME_SPACE_FLASH_TOTAL_SIZE, j)) (ns_index (Some ns) T i))"
proof (induction n arbitrary: i)
  case 0
  then show ?case by (simp add: ns_index_def)
next
  case (Suc n)
  then have i: "i < length T" and rep: "ns_rep m base i (fst (T ! i))" using assms by (auto simp: table_rep_def)
  have IH: "namespace_loop (mem_slice m base (64 * length T)) ns n (Suc i)
      = Some (map_option (\<lambda>j. (of_nat j * NAME_FLASH_TOTAL_SIZE + NAME_SPACE_FLASH_TOTAL_SIZE, j)) (ns_index (Some ns) T (Suc i)))"
    using Suc by simp
  show ?case
  proof (cases "fst (T ! i)")
    case None
    then show ?thesis using ns_free_flag rep IH by (simp add: ns_elem_at [OF i] ns_index_step [OF i])
  next
    case (Some key)
    then have key: "mem_slice m (base + 64 * i) 64 = namespace_bytes (ns_entry i key)" "length key < 56"
      using rep by (auto simp: ns_rep_def ns_ok_def)
    have sl: "strlen_in (drop (64 * i + 8) (mem_slice m base (64 * length T))) = Some (length key)"
      using ns_strlen rep i Some by simp
    show ?thesis
      using name_match [OF key(2), of ns] Some
      by (auto simp: ns_elem_at [OF i] ns_index_step [OF i] key(1) IH Let_def sl simp del: drop_mem_slice)
  qed
qed

lemma unat_mx: "n \<le> 64 \<Longrightarrow> unat (of_nat n :: u8) = n" "n \<le> 64 \<Longrightarrow> unat (64 * ucast (of_nat n :: u8) :: u32) = 64 * n"
proof -
  assume n: "n \<le> 64"
  show u: "unat (of_nat n :: u8) = n" using n by (simp add: unat_of_nat_small)
  then have "(64 * ucast (of_nat n :: u8) :: u32) = of_nat (64 * n)" by (simp add: ucast_of_unat)
  then show "unat (64 * ucast (of_nat n :: u8) :: u32) = 64 * n" using n unat_of_nat32 [of "64 * n"] by simp
qed

lemma base_small:
  assumes "kv_at E cfg tbl p m s" "store_part cfg C tbl pt base n"
  shows "unat (of_nat base :: u32) = base" "base + 64 * n \<le> unat (flash_size cfg)" "unat (flash_size cfg) \<le> 2 ^ 24" "n \<le> 64"
  using assms by (auto intro!: unat_of_nat32 simp: kv_at_def chip_ok_def store_part_def)

lemma get_namespace_addr_rule:
  assumes at: "kv_at E cfg tbl p m s" "named cfg p" and part: "store_part cfg C tbl (matter_partition ns) base (length T)"
    and rep: "table_rep m base T" and mem: "mem M_namespace_addr"
    and Q: "\<And>s'. kv_at E cfg tbl p m s' \<Longrightarrow>
      Q (map_option (\<lambda>i. (of_nat i * NAME_FLASH_TOTAL_SIZE + NAME_SPACE_FLASH_TOTAL_SIZE, of_nat i)) (ns_index (Some ns) T 0), s')"
  shows "returns (get_namespace_addr C E mem ns (of_nat base) s) Q"
proof -
  note b = base_small [OF at(1) part]
  show ?thesis
    unfolding get_namespace_addr_def store_part_base(2) [OF at(1) part] bind.bind_lunit
    using at b Q namespace_loop_index [OF rep, of 0 "length T" ns]
    by (auto intro!: kv_rules simp: mem unat_mx option.map_comp comp_def)
qed

section \<open>Changing one part of the store\<close>

lemma block_rep_cong:
  assumes rep: "block_rep m d b sl" and eq: "\<And>x. d \<le> x \<and> x < d + 4096 \<or> b \<le> x \<and> x < b + 4096 \<Longrightarrow> m' x = m x"
  shows "block_rep m' d b sl"
proof -
  have r: "length sl \<le> 64" "used sl < 4096" using rep by (auto simp: block_rep_def)
  have "mem_slice m' (d + 64 * i) 64 = mem_slice m (d + 64 * i) 64" if "i < length sl" for i
    using that r(1) by (intro mem_slice_cong eq) simp
  moreover have "mem_slice m' (b + slot_off sl i) (length (slot_val (sl ! i))) = mem_slice m (b + slot_off sl i) (length (slot_val (sl ! i)))"
    if "i < length sl" for i
    using slot_off_le [OF that] r(2) by (intro mem_slice_cong eq) simp
  ultimately show ?thesis using rep eq by (auto simp: block_rep_def)
qed

lemma ns_rep_cong:
  assumes "ns_rep m base i x" "\<And>j. j < 64 \<Longrightarrow> m' (base + 64 * i + j) = m (base + 64 * i + j)"
  shows "ns_rep m' base i x"
proof -
  have "mem_slice m' (base + 64 * i) 64 = mem_slice m (base + 64 * i) 64" using assms(2) by (intro mem_slice_cong) simp
  then show ?thesis using assms by (simp add: ns_rep_def split: option.splits)
qed

lemma names_unique_update:
  assumes "names_unique T" "i < length T" "\<And>j. j < length T \<Longrightarrow> j \<noteq> i \<Longrightarrow> x \<noteq> None \<Longrightarrow> fst (T ! j) \<noteq> x"
  shows "names_unique (T[i := (x, sl)])"
  unfolding names_unique_def length_list_update
proof (intro allI impI)
  fix a b assume "a < length T" "b < length T" and "fst (T[i := (x, sl)] ! a) = fst (T[i := (x, sl)] ! b) \<and> fst (T[i := (x, sl)] ! a) \<noteq> None"
  then show "a = b"
    using assms unfolding names_unique_def by (cases "a = i"; cases "b = i"; simp; metis option.discI)
qed

text \<open>A part of the table changes, and the flash changes only in the sectors of that part.\<close>

lemma table_rep_update:
  assumes rep: "table_rep m base T" and i: "i < length T"
    and new: "ns_rep m' base i x" "block_rep m' (dir_of base i) (dat_of base (length T) i) sl" "one_live sl" "x = None \<Longrightarrow> sl = []"
    and uniq: "\<And>j. j < length T \<Longrightarrow> j \<noteq> i \<Longrightarrow> x \<noteq> None \<Longrightarrow> fst (T ! j) \<noteq> x"
    and ns: "\<And>j. j < length T \<Longrightarrow> j \<noteq> i \<Longrightarrow> ns_rep m' base j (fst (T ! j))"
    and blk: "\<And>y. base + 4096 \<le> y \<Longrightarrow> y \<notin> {dir_of base i..<dir_of base i + 4096} \<union> {dat_of base (length T) i..<dat_of base (length T) i + 4096}
      \<Longrightarrow> m' y = m y"
  shows "table_rep m' base (T[i := (x, sl)])"
proof -
  have b: "block_rep m' (dir_of base j) (dat_of base (length T) j) (snd (T ! j))" if "j < length T" "j \<noteq> i" for j
  proof (rule block_rep_cong)
    show "block_rep m (dir_of base j) (dat_of base (length T) j) (snd (T ! j))" using rep that by (simp add: table_rep_def)
    show "m' y = m y" if "dir_of base j \<le> y \<and> y < dir_of base j + 4096 \<or> dat_of base (length T) j \<le> y \<and> y < dat_of base (length T) j + 4096" for y
      using that i \<open>j < length T\<close> \<open>j \<noteq> i\<close> by (intro blk) (auto simp: dir_of_def dat_of_def)
  qed
  show ?thesis
    using rep i new ns b names_unique_update [OF _ i uniq] unfolding table_rep_def by (auto simp: nth_list_update)
qed

lemma table_set_block:
  assumes rep: "table_rep m base T" and i: "i < length T" "fst (T ! i) = Some ns"
    and new: "block_rep m' (dir_of base i) (dat_of base (length T) i) sl" "one_live sl"
    and same: "same_but (dir_of base i) (dat_of base (length T) i) m m'"
  shows "table_rep m' base (T[i := (Some ns, sl)])"
proof (rule table_rep_update [OF rep i(1)])
  have len: "length T \<le> 64" using rep by (simp add: table_rep_def)
  have keep: "ns_rep m' base j (fst (T ! j))" if "j < length T" for j
  proof (rule ns_rep_cong [of m])
    show "ns_rep m base j (fst (T ! j))" using rep that by (simp add: table_rep_def)
    show "m' (base + 64 * j + l) = m (base + 64 * j + l)" if "l < 64" for l
      using same that \<open>j < length T\<close> len by (simp add: same_but_def dir_of_def dat_of_def)
  qed
  show "ns_rep m' base i (Some ns)" using keep i by metis
  show "ns_rep m' base j (fst (T ! j))" if "j < length T" for j by (rule keep [OF that])
  show "fst (T ! j) \<noteq> Some ns" if "j < length T" "j \<noteq> i" for j using rep i that unfolding table_rep_def names_unique_def by (metis option.discI)
qed (use new same in \<open>auto simp: same_but_def\<close>)

text \<open>A new namespace, in an entry that is free.\<close>

lemma table_add_namespace:
  assumes rep: "table_rep m base T" and i: "i < length T" "fst (T ! i) = None" and ns: "ns_ok ns" "ns_index (Some ns) T 0 = None"
    and m': "m' = prog m (base + 64 * i) (namespace_bytes (ns_entry i ns))"
  shows "table_rep m' base (T[i := (Some ns, [])])"
proof (rule table_rep_update [OF rep i(1)])
  have r: "length T \<le> 64" "snd (T ! i) = []" "\<forall>j < 64. m (base + 64 * i + j) = 0xFF" using rep i by (auto simp: table_rep_def ns_rep_def)
  have frame: "m' x = m x" if "x < base + 64 * i \<or> base + 64 * i + 64 \<le> x" for x using that by (auto simp: m' prog_mem_def)
  have "mem_slice m' (base + 64 * i) (length (namespace_bytes (ns_entry i ns))) = namespace_bytes (ns_entry i ns)"
    unfolding m' using r(3) by (intro prog_erased) simp
  then show "ns_rep m' base i (Some ns)" using ns(1) by (simp add: ns_rep_def)
  have old: "block_rep m (dir_of base i) (dat_of base (length T) i) []" using rep i(1) r(2) unfolding table_rep_def by metis
  show "block_rep m' (dir_of base i) (dat_of base (length T) i) []"
    by (rule block_rep_cong [OF old], rule frame) (use i(1) r(1) in \<open>auto simp: dir_of_def dat_of_def\<close>)
  show "fst (T ! j) \<noteq> Some ns" if "j < length T" for j using ns(2) that by (auto simp: ns_index_def find_None_iff)
  show "ns_rep m' base j (fst (T ! j))" if "j < length T" "j \<noteq> i" for j
  proof (rule ns_rep_cong [of m])
    show "ns_rep m base j (fst (T ! j))" using rep that by (simp add: table_rep_def)
    show "m' (base + 64 * j + l) = m (base + 64 * j + l)" if "l < 64" for l
      using that \<open>j \<noteq> i\<close> by (intro frame) arith
  qed
  show "m' y = m y" if "base + 4096 \<le> y" for y using that i(1) r(1) by (intro frame) simp
qed simp_all

lemma free_namespace_index:
  assumes "table_rep m base T"
  shows "i + n = length T \<Longrightarrow> free_namespace_loop (mem_slice m base (64 * length T)) n i = ns_index None T i"
proof (induction n arbitrary: i)
  case 0
  then show ?case by (simp add: ns_index_def)
next
  case (Suc n)
  then have i: "i < length T" and rep: "ns_rep m base i (fst (T ! i))" using assms by (auto simp: table_rep_def)
  have "ns_dwUsingFlag (namespace_of (mem_slice m (base + 64 * i) 64)) = FLASH_SPACE_USING \<longleftrightarrow> fst (T ! i) \<noteq> None"
    using rep ns_free_flag [of m base i] by (cases "fst (T ! i)") (auto simp: ns_rep_def)
  then show ?case using Suc by (simp add: ns_elem_at [OF i] ns_index_step [OF i])
qed

text \<open>Nothing outside a partition of \<open>2 * n + 1\<close> sectors changes.\<close>

definition outside_same :: "nat \<Rightarrow> nat \<Rightarrow> (nat \<Rightarrow> byte) \<Rightarrow> (nat \<Rightarrow> byte) \<Rightarrow> bool" where
  "outside_same base n m m' \<longleftrightarrow> (\<forall>x. x < base \<or> base + 4096 * (2 * n + 1) \<le> x \<longrightarrow> m' x = m x)"

lemma outside_same_refl [simp]: "outside_same base n m m"
  by (simp add: outside_same_def)

lemma outside_same_trans: "outside_same base n m m' \<Longrightarrow> outside_same base n m' m'' \<Longrightarrow> outside_same base n m m''"
  by (simp add: outside_same_def)

lemma same_but_outside: "i < n \<Longrightarrow> same_but (dir_of base i) (dat_of base n i) m m' \<Longrightarrow> outside_same base n m m'"
  by (auto simp: same_but_def outside_same_def dir_of_def dat_of_def)

lemma set_namespace_rule:
  assumes at: "kv_at E cfg tbl p m s" "named cfg p" and part: "store_part cfg C tbl (matter_partition ns) base (length T)"
    and rep: "table_rep m base T" and ns: "ns_ok ns" "ns_index (Some ns) T 0 = None" and mem: "mem M_set_namespace"
    and none: "\<And>s'. ns_index None T 0 = None \<Longrightarrow> kv_at E cfg tbl p m s' \<Longrightarrow> Q (None, s')"
    and some: "\<And>i m' s'. ns_index None T 0 = Some i \<Longrightarrow> kv_at E cfg tbl p m' s' \<Longrightarrow> table_rep m' base (T[i := (Some ns, [])])
      \<Longrightarrow> outside_same base (length T) m m'
      \<Longrightarrow> Q (Some (of_nat i * NAME_FLASH_TOTAL_SIZE + NAME_SPACE_FLASH_TOTAL_SIZE, of_nat i), s')"
  shows "returns (bk_set_namespace C E mem ns (of_nat base) s) Q"
proof -
  note b = base_small [OF at(1) part] and loop = free_namespace_index [OF rep, of 0 "length T"]
  show ?thesis
  proof (cases "ns_index None T 0")
    case None
    then show ?thesis
      unfolding bk_set_namespace_def store_part_base(2) [OF at(1) part] bind.bind_lunit
      using at b none loop by (auto intro!: kv_rules simp: mem unat_mx)
  next
    case (Some i)
    note i = ns_index_SomeD [OF Some]
    define m' where "m' = prog m (base + 64 * i) (namespace_bytes (ns_entry i ns))"
    note rep' = table_add_namespace [OF rep i ns m'_def]
    have a: "unat (of_nat base + of_nat i * 64 :: u32) = base + 64 * i"
      using b i(1) unat_of_nat32 [of "base + 64 * i"] by (simp add: mult.commute)
    have lim: "base + 64 * i + 64 \<le> unat (flash_size cfg)" using b(2) i(1) by linarith
    have out: "outside_same base (length T) m m'" using i(1) b(4) by (auto simp: m'_def outside_same_def prog_mem_def)
    note fin = some [OF Some _ rep' out, unfolded m'_def]
    have lt: "base + 64 * i < unat (flash_size cfg)" using lim by linarith
    show ?thesis
      unfolding bk_set_namespace_def store_part_base(2) [OF at(1) part] bind.bind_lunit ns_entry_def [symmetric] Let_def
      using at b loop lim lt fin
      by (auto intro!: returns_bind open_unprotected_rule read_rule write_rule [where cfg = cfg] restore_rule simp: mem unat_mx Some a)
  qed
qed

section \<open>Clearing a namespace\<close>

lemma rewrite_namespaces_rule:
  assumes rep: "table_rep m0 base T" and lim: "base + 64 * length T \<le> unat (flash_size cfg)" "unat (flash_size cfg) \<le> 2 ^ 24"
  shows "k + n = length T \<Longrightarrow> kv_at E cfg tbl (protect_none cfg) m s \<Longrightarrow>
    (\<And>j. j < k \<Longrightarrow> ns_rep m base j (if j = i then None else fst (T ! j))) \<Longrightarrow>
    (\<And>y. base + 64 * k \<le> y \<Longrightarrow> y < base + 64 * length T \<Longrightarrow> m y = 0xFF) \<Longrightarrow>
    (\<And>m' s'. kv_at E cfg tbl (protect_none cfg) m' s' \<Longrightarrow> (\<And>j. j < length T \<Longrightarrow> ns_rep m' base j (if j = i then None else fst (T ! j)))
      \<Longrightarrow> (\<And>y. y < base \<or> base + 64 * length T \<le> y \<Longrightarrow> m' y = m y) \<Longrightarrow> Q s') \<Longrightarrow>
    returns (rewrite_namespaces E (mem_slice m0 base (64 * length T)) i n k (of_nat base) s) Q"
proof (induction n arbitrary: k m s)
  case 0
  then show ?case by simp
next
  case (Suc n)
  have k: "k < length T" using Suc.prems(1) by simp
  have rep0: "ns_rep m0 base k (fst (T ! k))" using rep k by (simp add: table_rep_def)
  have free: "m (base + 64 * k + j) = 0xFF" if "j < 64" for j using that k by (intro Suc.prems(4)) auto
  note el = ns_elem_at [OF k, of m0 base]
  show ?case
  proof (cases "k = i \<or> fst (T ! k) = None")
    case True
    then have skip: "\<not> (k \<noteq> i \<and> ns_dwUsingFlag (namespace_of (elem_at (mem_slice m0 base (64 * length T)) k)) = FLASH_SPACE_USING)"
      using ns_free_flag [of m0 base k] rep0 by (auto simp: el)
    have new: "ns_rep m base j (if j = i then None else fst (T ! j))" if "j < Suc k" for j
      using that Suc.prems(3) True free by (cases "j = k") (auto simp: ns_rep_def)
    show ?thesis
      unfolding rewrite_namespaces.simps if_not_P [OF skip] Suc_eq_plus1 [symmetric]
      using Suc.prems k new by (intro Suc.IH [OF _ Suc.prems(2)]) auto
  next
    case False
    then obtain ns where ns: "fst (T ! k) = Some ns" "k \<noteq> i" by auto
    then have sl: "mem_slice m0 (base + 64 * k) 64 = namespace_bytes (ns_entry k ns)" "ns_ok ns" using rep0 by (auto simp: ns_rep_def)
    define m' where "m' = prog m (base + 64 * k) (namespace_bytes (ns_entry k ns))"
    have frame: "m' y = m y" if "y < base + 64 * k \<or> base + 64 * k + 64 \<le> y" for y using that by (auto simp: m'_def prog_mem_def)
    have a: "unat (of_nat base + of_nat k * 64 :: u32) = base + 64 * k"
      using lim k unat_of_nat32 [of "base + 64 * k"] by (simp add: mult.commute)
    have "mem_slice m' (base + 64 * k) (length (namespace_bytes (ns_entry k ns))) = namespace_bytes (ns_entry k ns)"
      unfolding m'_def using free by (intro prog_erased) simp
    then have "ns_rep m' base k (Some ns)" using sl(2) by (simp add: ns_rep_def)
    moreover have "ns_rep m' base j (if j = i then None else fst (T ! j))" if "j < k" for j
      by (rule ns_rep_cong [OF Suc.prems(3) [OF that]], rule frame) (use that in arith)
    ultimately have new: "ns_rep m' base j (if j = i then None else fst (T ! j))" if "j < Suc k" for j
      using that ns by (cases "j = k") auto
    have "returns (rewrite_namespaces E (mem_slice m0 base (64 * length T)) i n (Suc k) (of_nat base) s') Q"
      if "kv_at E cfg tbl (protect_none cfg) m' s'" for s'
    proof (rule Suc.IH [OF _ that new])
      show "m' y = 0xFF" if "base + 64 * Suc k \<le> y" "y < base + 64 * length T" for y
        using that frame [of y] Suc.prems(4) [of y] by simp
      show "Q u" if "kv_at E cfg tbl (protect_none cfg) m1 u" "\<And>j. j < length T \<Longrightarrow> ns_rep m1 base j (if j = i then None else fst (T ! j))"
        "\<And>y. y < base \<or> base + 64 * length T \<le> y \<Longrightarrow> m1 y = m' y" for m1 u
        by (rule Suc.prems(5) [OF that(1,2)]) (use that(3) frame k in auto)
    qed (use Suc.prems(1) in auto)
    moreover have "base + 64 * k + 64 \<le> unat (flash_size cfg)" "base + 64 * k < unat (flash_size cfg)" using lim(1) k by linarith+
    ultimately show ?thesis
      using ns sl Suc.prems(2) by (auto simp: el a m'_def intro!: kv_rules)
  qed
qed

definition clear_ns :: "nat \<Rightarrow> kv_table \<Rightarrow> kv_table" where "clear_ns i T = T[i := (None, [])]"

text \<open>The erase of the three sectors and the rewriting, on the contents of the flash.\<close>

lemma table_clear:
  assumes rep: "table_rep m base T" and i: "i < length T" and al: "base mod 4096 = 0"
    and lay: "layout cfg (dir_of base i) (dat_of base (length T) i)"
    and m2: "m2 = erase_range (erase_range (erase_range m (dir_of base i div 4096) 1) (dat_of base (length T) i div 4096) 1) (base div 4096) 1"
    and ns: "\<And>j. j < length T \<Longrightarrow> ns_rep m' base j (if j = i then None else fst (T ! j))"
    and frame: "\<And>y. y < base \<or> base + 64 * length T \<le> y \<Longrightarrow> m' y = m2 y"
  shows "table_rep m' base (clear_ns i T)" "outside_same base (length T) m m'"
proof -
  have len: "length T \<le> 64" using rep by (simp add: table_rep_def)
  have al2: "dir_of base i mod 4096 = 0" "dat_of base (length T) i mod 4096 = 0" using lay by (auto simp: layout_def)
  have m2': "m2 y = (if base \<le> y \<and> y < base + 4096 \<or> dir_of base i \<le> y \<and> y < dir_of base i + 4096
      \<or> dat_of base (length T) i \<le> y \<and> y < dat_of base (length T) i + 4096 then 0xFF else m y)" for y
    unfolding m2 erase_range_at [OF al] erase_range_at [OF al2(1)] erase_range_at [OF al2(2)] by auto
  have out: "m' y = m2 y" if "base + 4096 \<le> y" for y using that len by (intro frame) simp
  show "table_rep m' base (clear_ns i T)"
    unfolding clear_ns_def
  proof (rule table_rep_update [OF rep i])
    show "ns_rep m' base i None" using ns [OF i] by simp
    show "ns_rep m' base j (fst (T ! j))" if "j < length T" "j \<noteq> i" for j using ns that by metis
    show "block_rep m' (dir_of base i) (dat_of base (length T) i) []"
      by (rule block_rep_Nil) (auto simp: out m2' dir_of_def dat_of_def)
    show "m' y = m y" if "base + 4096 \<le> y"
      "y \<notin> {dir_of base i..<dir_of base i + 4096} \<union> {dat_of base (length T) i..<dat_of base (length T) i + 4096}" for y
      using that by (auto simp: out m2')
  qed simp_all
  show "outside_same base (length T) m m'"
    using i by (auto simp: outside_same_def frame m2' dir_of_def dat_of_def)
qed

end
