(* ===== verification/Kv_Ops.thy ===== *)
theory Kv_Ops
  imports Kv_Table
begin

text \<open>
  The operations of the key-value store on its table: what each call returns, the table that it
  leaves, and the effect on the map from namespaces and names to values.
\<close>

section \<open>The map of a table\<close>

definition kv_map :: "kv_table \<Rightarrow> byte list \<times> byte list \<rightharpoonup> byte list" where
  "kv_map T k = (case ns_index (Some (fst k)) T 0 of None \<Rightarrow> None | Some i \<Rightarrow> kmap (snd (T ! i)) (snd k))"

lemma ns_index_unique:
  assumes "names_unique T" "i < length T" "fst (T ! i) = Some ns"
  shows "ns_index (Some ns) T 0 = Some i"
proof (cases "ns_index (Some ns) T 0")
  case None
  then show ?thesis using assms(2,3) by (auto simp: ns_index_def find_None_iff)
next
  case (Some j)
  then show ?thesis using assms ns_index_SomeD [OF Some] unfolding names_unique_def by (metis option.discI)
qed

lemma kv_map_at:
  assumes "names_unique T" "i < length T" "fst (T ! i) = Some ns"
  shows "kv_map T (ns, nm) = kmap (snd (T ! i)) nm"
  by (simp add: kv_map_def ns_index_unique [OF assms])

lemma ns_index_None: "ns_index x T 0 = None \<longleftrightarrow> (\<forall>i < length T. fst (T ! i) \<noteq> x)"
  by (auto simp: ns_index_def find_None_iff)

text \<open>The entry \<open>i\<close> of the table gets the namespace \<open>ns\<close>, which no other entry has, with new slots.\<close>

lemma kv_map_update:
  assumes u: "names_unique T" and i: "i < length T"
    and ns: "fst (T ! i) = Some ns \<or> fst (T ! i) = None \<and> snd (T ! i) = [] \<and> ns_index (Some ns) T 0 = None"
    and u': "names_unique (T[i := (Some ns, sl)])"
  shows "kv_map (T[i := (Some ns, sl)]) k = (if fst k = ns then kmap sl (snd k) else kv_map T k)"
proof (cases "fst k = ns")
  case True
  then show ?thesis using kv_map_at [OF u', of i ns "snd k"] i by (cases k) auto
next
  case False
  have same: "fst (T[i := (Some ns, sl)] ! j) = Some (fst k) \<longleftrightarrow> fst (T ! j) = Some (fst k)" if "j < length T" for j
    using False ns i that by (cases "j = i") auto
  then have ix: "ns_index (Some (fst k)) (T[i := (Some ns, sl)]) 0 = ns_index (Some (fst k)) T 0"
    unfolding ns_index_def length_list_update by (intro find_cong) auto
  have "snd (T[i := (Some ns, sl)] ! j) = snd (T ! j)" if "ns_index (Some (fst k)) T 0 = Some j" for j
    using ns_index_SomeD [OF that] ns False by (cases "j = i") auto
  then show ?thesis using False by (simp add: kv_map_def ix split: option.split)
qed

text \<open>The slots of a namespace; none if there is no such namespace.\<close>

definition slots_of :: "byte list \<Rightarrow> kv_table \<Rightarrow> slot list" where
  "slots_of ns T = (case ns_index (Some ns) T 0 of None \<Rightarrow> [] | Some i \<Rightarrow> snd (T ! i))"

definition kv_write :: "kv_table \<Rightarrow> byte list \<Rightarrow> byte list \<Rightarrow> byte list \<Rightarrow> bool \<times> kv_table" where
  "kv_write T ns nm v =
     (let r = set_slot (slots_of ns T) nm v in
      case ns_index (Some ns) T 0 of
        Some i \<Rightarrow> (fst r, T[i := (Some ns, snd r)])
      | None \<Rightarrow> (case ns_index None T 0 of None \<Rightarrow> (False, T) | Some i \<Rightarrow> (fst r, T[i := (Some ns, snd r)])))"

definition kv_clean :: "kv_table \<Rightarrow> byte list \<Rightarrow> byte list \<Rightarrow> kv_table option" where
  "kv_clean T ns nm =
     (case ns_index (Some ns) T 0 of
        None \<Rightarrow> None
      | Some i \<Rightarrow> (case slot_index nm (snd (T ! i)) 0 of
          None \<Rightarrow> None
        | Some j \<Rightarrow> Some (T[i := (Some ns, (snd (T ! i))[j := mask_slot (snd (T ! i) ! j)])])))"

lemma table_rep_unique: "table_rep m base T \<Longrightarrow> names_unique T"
  by (simp add: table_rep_def)

lemma table_rep_at:
  assumes "table_rep m base T" "ns_index (Some ns) T 0 = Some i"
  shows "i < length T" "fst (T ! i) = Some ns" "block_rep m (dir_of base i) (dat_of base (length T) i) (snd (T ! i))" "one_live (snd (T ! i))"
    "slots_of ns T = snd (T ! i)" "kv_map T (ns, nm) = kmap (snd (T ! i)) nm"
  using assms ns_index_SomeD [OF assms(2)] by (auto simp: table_rep_def slots_of_def kv_map_def)

section \<open>Names\<close>

text \<open>The namespace and the name under which the store keeps a value.\<close>

definition key_of :: "byte list \<Rightarrow> byte list \<Rightarrow> byte list \<times> byte list \<Rightarrow> bool" where
  "key_of ns nm k \<longleftrightarrow> beken_names ns (Some nm) = Some (fst k, Some (snd k)) \<and> ns_ok (fst k) \<and> name_ok (snd k)"

lemma key_of_plain:
  assumes "ns \<noteq> cstr ''chip-config''" "ns \<noteq> cstr ''chip-counters''" "ns_ok ns" "name_ok nm"
  shows "key_of ns nm (ns, nm)"
  using assms by (simp add: key_of_def beken_names_def change_namespace_to_beken_def)

lemma cstr_of_char: "x \<in> set (cstr s) \<Longrightarrow> \<exists>c \<in> set s. x = of_char c"
  by (auto simp: cstr_def)

lemma key_of_config:
  assumes "length nm < 40" "0 \<notin> set nm"
  shows "key_of (cstr ''chip-config'') nm (cstr ''BEKEN0'', cstr ''chip-config.'' @ nm)"
  using assms by (simp add: key_of_def beken_names_def change_namespace_to_beken_def move_namespace_def ns_ok_def name_ok_def cstr_def)

text \<open>Only \<open>chip-factory\<close> is in the factory partition.\<close>

lemma key_partition:
  assumes "key_of ns nm k" "ns \<noteq> cstr ''chip-factory''"
  shows "matter_partition (fst k) = BK_PARTITION_MATTER_FLASH"
proof -
  have "fst k = ns \<or> fst k = cstr ''BEKEN0'' \<or> fst k = cstr ''BEKEN1''"
    using assms(1) by (auto simp: key_of_def beken_names_def change_namespace_to_beken_def move_namespace_def
        split: if_split_asm Option.bind_split_asm)
  moreover have "cstr ''BEKEN0'' \<noteq> cstr ''chip-factory''" "cstr ''BEKEN1'' \<noteq> cstr ''chip-factory''" by (simp_all add: cstr_def)
  ultimately show ?thesis using assms(2) by (auto simp: matter_partition_def)
qed

section \<open>Writing\<close>

lemma set_in_table_rule:
  assumes at: "kv_at E cfg tbl p m s" "named cfg p" and part: "store_part cfg C tbl (matter_partition ns) base (length T)"
    and rep: "table_rep m base T" and ix: "ns_index (Some ns) T 0 = Some i"
    and nm: "name_ok nm" and v: "new_value data len v" and mem: "\<And>x. mem x"
    and old: "\<And>w. kmap (snd (T ! i)) nm = Some w \<Longrightarrow> length w \<le> 2048"
    and Q: "\<And>m' s'. kv_at E cfg tbl p m' s' \<Longrightarrow> table_rep m' base (T[i := (Some ns, snd (set_slot (snd (T ! i)) nm v))])
      \<Longrightarrow> outside_same base (length T) m m' \<Longrightarrow> Q (status_of (fst (set_slot (snd (T ! i)) nm v)), s')"
  shows "returns (bk_set_name_data C E mem ns nm (of_nat base) data len
    (of_nat i * NAME_FLASH_TOTAL_SIZE + NAME_SPACE_FLASH_TOTAL_SIZE) (of_nat i) s) Q"
proof -
  note e = table_rep_at [OF rep ix] and ad = block_addrs [OF part table_rep_at(1) [OF rep ix]]
  have small: "length (slot_val (snd (T ! i) ! j)) \<le> 2048" if "slot_index nm (snd (T ! i)) 0 = Some j" for j
    using old slot_index_Some(1) [OF e(4) that] by simp
  show ?thesis
  proof (rule set_name_data_rule [OF at e(3) ad(1) nm v mem small store_part_base(2) [OF at(1) part] ad(2,4)])
    fix m' s' assume new: "kv_at E cfg tbl p m' s'" "block_rep m' (dir_of base i) (dat_of base (length T) i) (snd (set_slot (snd (T ! i)) nm v))"
      "same_but (dir_of base i) (dat_of base (length T) i) m m'"
    show "Q (status_of (fst (set_slot (snd (T ! i)) nm v)), s')"
      by (rule Q [OF new(1) table_set_block [OF rep e(1,2) new(2) set_slot_map(1) [OF e(4)] new(3)] same_but_outside [OF e(1) new(3)]])
  qed
qed

lemma status_check: "(if status_of b \<noteq> status kNoErr then Some (status kGeneralErr, s) else Some (status_of b, s)) = Some (status_of b, s)"
  by (cases b) (simp_all add: status_of_def)

lemma write_data_rule:
  assumes at: "kv_at E cfg tbl p m s" "named cfg p" and part: "store_part cfg C tbl BK_PARTITION_MATTER_FLASH base (length T)"
    and rep: "table_rep m base T" and key: "key_of ns nm k" "ns \<noteq> cstr ''chip-factory''"
    and v: "new_value data len v" and mem: "\<And>x. mem x" and old: "\<And>w. kv_map T k = Some w \<Longrightarrow> length w \<le> 2048"
    and Q: "\<And>m' s'. kv_at E cfg tbl p m' s' \<Longrightarrow> table_rep m' base (snd (kv_write T (fst k) (snd k) v))
      \<Longrightarrow> outside_same base (length T) m m' \<Longrightarrow> Q (status_of (fst (kv_write T (fst k) (snd k) v)), s')"
  shows "returns (bk_write_data C E mem (Some ns) (Some nm) (Some data) len s) Q"
proof -
  obtain ns' nm' where k: "k = (ns', nm')" by (cases k)
  have kk: "beken_names ns (Some nm) = Some (ns', Some nm')" "ns_ok ns'" "name_ok nm'" using key(1) by (auto simp: key_of_def k)
  have part': "store_part cfg C tbl (matter_partition ns') base (length T)" using part key_partition [OF key] by (simp add: k)
  note set = set_in_table_rule [OF _ at(2) _ _ _ kk(3) v mem]
  show ?thesis
  proof (cases "ns_index (Some ns') T 0")
    case (Some i)
    note e = table_rep_at [OF rep Some]
    have w: "kv_write T ns' nm' v = (fst (set_slot (snd (T ! i)) nm' v), T[i := (Some ns', snd (set_slot (snd (T ! i)) nm' v))])"
      by (simp add: kv_write_def Some e(5) Let_def)
    show ?thesis
      unfolding bk_write_data_def
      apply (simp only: option.case prod.case if_not_P [OF key(2)] kk(1) store_part_base(1) [OF at(1) part'] bind.bind_lunit)
      apply (rule returns_bind, rule get_namespace_addr_rule [OF at part' rep mem])
      apply (simp only: Some option.map option.case prod.case bind.bind_lunit)
      apply (rule returns_bind, erule set [OF _ part' rep Some])
      using old Q e(6) by (auto simp: status_check k w)
  next
    case None
    have R: "returns (bk_set_name_data C E mem ns' nm' (of_nat base) data len
        (of_nat j * NAME_FLASH_TOTAL_SIZE + NAME_SPACE_FLASH_TOTAL_SIZE) (of_nat j) t)
        (\<lambda>r. returns (case r of (dw_rtn, s) \<Rightarrow> if dw_rtn \<noteq> status kNoErr then Some (status kGeneralErr, s) else Some (dw_rtn, s)) Q)"
      if j: "ns_index None T 0 = Some j" and t: "kv_at E cfg tbl p m1 t" "table_rep m1 base (T[j := (Some ns', [])])" "outside_same base (length T) m m1"
      for j t m1
    proof -
      let ?T = "T[j := (Some ns', [])]"
      have jl: "j < length T" using ns_index_SomeD [OF j] by simp
      have ix: "ns_index (Some ns') ?T 0 = Some j" by (rule ns_index_unique [OF table_rep_unique [OF t(2)]]) (use jl in auto)
      have w: "kv_write T ns' nm' v = (fst (set_slot [] nm' v), T[j := (Some ns', snd (set_slot [] nm' v))])"
        by (simp add: kv_write_def None j slots_of_def Let_def)
      show ?thesis
        by (rule set [OF t(1) _ t(2) ix]) (use part' jl Q outside_same_trans [OF t(3)] in \<open>auto simp: status_check k w\<close>)
    qed
    show ?thesis
      unfolding bk_write_data_def
      apply (simp only: option.case prod.case if_not_P [OF key(2)] kk(1) store_part_base(1) [OF at(1) part'] bind.bind_lunit)
      apply (rule returns_bind, rule get_namespace_addr_rule [OF at part' rep mem])
      apply (simp only: None option.map option.case prod.case)
      apply (rule returns_bind, erule set_namespace_rule [OF _ at(2) part' rep kk(2) None mem])
      using Q rep apply (simp add: k kv_write_def None status_of_def Let_def)
      apply (simp only: option.case prod.case, rule returns_bind, erule (3) R)
      done
  qed
qed

text \<open>The map after a write, and when the write succeeds.\<close>

definition has_room :: "kv_table \<Rightarrow> byte list \<Rightarrow> byte list \<Rightarrow> nat \<Rightarrow> bool" where
  "has_room T ns nm len \<longleftrightarrow> (ns_index (Some ns) T 0 \<noteq> None \<or> ns_index None T 0 \<noteq> None)
     \<and> used (filter (\<lambda>x. slot_key x \<noteq> nm) (live (slots_of ns T))) + len < 4096
     \<and> length (filter (\<lambda>x. slot_key x \<noteq> nm) (live (slots_of ns T))) < 64"

lemma kv_write_map:
  assumes rep: "table_rep m base T"
  shows "kv_map (snd (kv_write T ns nm v)) = (kv_map T)((ns, nm) := if fst (kv_write T ns nm v) then Some v else None)"
    "has_room T ns nm (length v) \<Longrightarrow> fst (kv_write T ns nm v)" "length (snd (kv_write T ns nm v)) = length T"
proof -
  note u = table_rep_unique [OF rep]
  define sl where "sl = slots_of ns T"
  have live: "one_live sl" using rep table_rep_at(4,5) [OF rep] by (cases "ns_index (Some ns) T 0") (auto simp: sl_def slots_of_def)
  note s = set_slot_map [OF live, of nm v]
  have upd: "kv_map (T[i := (Some ns, snd (set_slot sl nm v))]) = (kv_map T)((ns, nm) := if fst (set_slot sl nm v) then Some v else None)"
    if i: "i < length T" "fst (T ! i) = Some ns \<and> snd (T ! i) = sl \<or> fst (T ! i) = None \<and> ns_index (Some ns) T 0 = None" for i
  proof -
    have old: "snd (T ! i) = [] \<and> sl = []" if "fst (T ! i) = None" "ns_index (Some ns) T 0 = None"
      using rep i(1) that by (simp add: table_rep_def sl_def slots_of_def)
    have other: "fst (T ! j) \<noteq> Some ns" if "j < length T" "j \<noteq> i" for j
      using i that u ns_index_unique [OF u that(1)] ns_index_unique [OF u i(1)] by auto
    have "names_unique (T[i := (Some ns, snd (set_slot sl nm v))])" using names_unique_update [OF u i(1)] other by blast
    from kv_map_update [OF u i(1) _ this] i(2) old
    have eq: "kv_map (T[i := (Some ns, snd (set_slot sl nm v))]) k = (if fst k = ns then kmap (snd (set_slot sl nm v)) (snd k) else kv_map T k)" for k
      by blast
    have "kv_map T (ns, x) = kmap sl x" for x
      using i(2) kv_map_at [OF u i(1), of ns x] old by (auto simp: kv_map_def)
    then show ?thesis using s(2) by (auto simp: fun_eq_iff eq)
  qed
  have case1: "kv_write T ns nm v = (fst (set_slot sl nm v), T[i := (Some ns, snd (set_slot sl nm v))])"
    if "ns_index (Some ns) T 0 = Some i \<or> ns_index (Some ns) T 0 = None \<and> ns_index None T 0 = Some i" for i
    using that by (auto simp: kv_write_def sl_def Let_def)
  have none: "kv_write T ns nm v = (False, T)" "kv_map T (ns, nm) = None" if "ns_index (Some ns) T 0 = None" "ns_index None T 0 = None"
    using that by (simp_all add: kv_write_def kv_map_def Let_def)
  consider i where "ns_index (Some ns) T 0 = Some i" | i where "ns_index (Some ns) T 0 = None" "ns_index None T 0 = Some i"
    | "ns_index (Some ns) T 0 = None" "ns_index None T 0 = None" by (cases "ns_index (Some ns) T 0"; cases "ns_index None T 0") auto
  then have "kv_map (snd (kv_write T ns nm v)) = (kv_map T)((ns, nm) := if fst (kv_write T ns nm v) then Some v else None)
    \<and> (has_room T ns nm (length v) \<longrightarrow> fst (kv_write T ns nm v)) \<and> length (snd (kv_write T ns nm v)) = length T"
  proof cases
    case (1 i)
    then show ?thesis using upd [of i] case1 [of i] s(3) table_rep_at [OF rep 1] by (auto simp: has_room_def sl_def)
  next
    case (2 i)
    then show ?thesis using upd [of i] case1 [of i] s(3) ns_index_SomeD [OF 2(2)] by (auto simp: has_room_def sl_def)
  next
    case 3
    then show ?thesis using none by (simp add: has_room_def fun_upd_idem)
  qed
  then show "kv_map (snd (kv_write T ns nm v)) = (kv_map T)((ns, nm) := if fst (kv_write T ns nm v) then Some v else None)"
    "has_room T ns nm (length v) \<Longrightarrow> fst (kv_write T ns nm v)" "length (snd (kv_write T ns nm v)) = length T" by blast+
qed

section \<open>Reading\<close>

lemma actual_len:
  assumes "unat (of_nat n :: u32) = n"
  shows "(if (len :: u32) > of_nat n then of_nat n else len) = of_nat (min (unat len) n)"
    "unat (of_nat (min (unat len) n) :: u32) = min (unat len) n"
proof -
  have gt: "len > of_nat n \<longleftrightarrow> unat len > n" using assms by (simp add: word_less_nat_alt)
  then show "(if len > of_nat n then of_nat n else len) = of_nat (min (unat len) n)" by (auto simp: min_def)
  show "unat (of_nat (min (unat len) n) :: u32) = min (unat len) n" using assms by (auto simp: min_def)
qed

text \<open>Searching a name in a namespace of the table.\<close>

lemma get_in_table_rule:
  assumes at: "kv_at E cfg tbl p m s" "named cfg p" and part: "store_part cfg C tbl pt base (length T)"
    and rep: "table_rep m base T" and mem: "\<And>x. mem x" and ix: "ns_index (Some ns) T 0 = Some i"
    and Q: "\<And>s'. kv_at E cfg tbl p m s' \<Longrightarrow>
      Q (map_option (\<lambda>j. (of_nat j * 64, of_nat (slot_off (snd (T ! i)) j))) (slot_index nm (snd (T ! i)) 0), s')"
  shows "returns (get_name_addr E mem (Some nm) (of_nat (dir_of base i)) s) Q"
proof -
  note e = table_rep_at [OF rep ix] and ad = block_addrs(1) [OF part table_rep_at(1) [OF rep ix]]
  have d: "unat (of_nat (dir_of base i) :: u32) = dir_of base i" "dir_of base i + 4096 \<le> unat (flash_size cfg)"
    using ad base_small(3) [OF at(1) part] by (auto intro!: unat_of_nat32 simp: layout_def)
  show ?thesis
    by (rule get_name_addr_rule [OF at, where b = "dat_of base (length T) i" and sl = "snd (T ! i)"]) (use e(3) d mem Q in simp_all)
qed

text \<open>The entry and the value of the slot \<open>j\<close> of the namespace \<open>i\<close>.\<close>

lemma read_slot_rule:
  assumes at: "kv_at E cfg tbl p m s" "named cfg p" and rep: "block_rep m d b sl" and lay: "layout cfg d b"
    and j: "j < length sl" and room: "min (unat len) (length (slot_val (sl ! j))) \<le> room"
    and Q: "\<And>s'. kv_at E cfg tbl p m s' \<Longrightarrow>
      Q (status kNoErr, Some (of_nat (min (unat len) (length (slot_val (sl ! j)))), take (unat len) (slot_val (sl ! j))), s')"
  shows "returns (do {
      (protect_flag, s) \<leftarrow> open_unprotected E s;
      (bs, s) \<leftarrow> flash_ddev_read E 64 (of_nat d + of_nat j * 64) s;
      (bs', s) \<leftarrow> flash_ddev_read E (if len > dwlength (name_of bs) then dwlength (name_of bs) else len) (of_nat b + of_nat (slot_off sl j)) s;
      if unat (if len > dwlength (name_of bs) then dwlength (name_of bs) else len) > room then None
      else do {
        s \<leftarrow> set_protect E protect_flag s;
        Some (status kNoErr, Some (if len > dwlength (name_of bs) then dwlength (name_of bs) else len, bs'), s) } }) Q"
proof -
  have lim: "unat (flash_size cfg) \<le> 2 ^ 24" using at by (auto simp: kv_at_def chip_ok_def)
  note rd = slot_reads [OF rep j lay lim] and al = actual_len [OF slot_reads(4) [OF rep j lay lim], of len]
  let ?v = "slot_val (sl ! j)"
  have v: "mem_slice m (b + slot_off sl j) (min (unat len) (length ?v)) = take (unat len) ?v"
    using arg_cong [OF rd(6), of "take (unat len)"] by simp
  show ?thesis
    apply (rule returns_bind, rule open_unprotected_rule [OF at(1)], simp only: prod.case)
    apply (rule returns_bind, erule read_rule, use rd in simp, simp only: prod.case rd unat_64 entry_simps al)
    apply (rule returns_bind, erule read_rule)
    apply (use rd(5) in \<open>simp add: rd(3) al\<close>)
    using room at(2) Q by (auto simp: al rd v intro!: kv_rules)
qed

lemma read_data_rule:
  assumes at: "kv_at E cfg tbl p m s" "named cfg p" and key: "key_of ns nm k"
    and part: "store_part cfg C tbl (matter_partition (fst k)) base (length T)"
    and rep: "table_rep m base T" and mem: "\<And>x. mem x" and room: "\<And>v. kv_map T k = Some v \<Longrightarrow> min (unat len) (length v) \<le> room"
    and Q: "\<And>s'. kv_at E cfg tbl p m s' \<Longrightarrow>
      Q (status_of (kv_map T k \<noteq> None), map_option (\<lambda>v. (of_nat (min (unat len) (length v)), take (unat len) v)) (kv_map T k), s')"
  shows "returns (bk_read_data C E mem (Some ns) (Some nm) (Some room) len True s) Q"
proof -
  obtain ns' nm' where k: "k = (ns', nm')" by (cases k)
  have kk: "beken_names ns (Some nm) = Some (ns', Some nm')" using key(1) by (auto simp: key_of_def k)
  note part' = part [unfolded k fst_conv] and lim = base_small(3) [OF at(1) part]
  show ?thesis
  proof (cases "ns_index (Some ns') T 0")
    case None
    then have "kv_map T k = None" by (simp add: kv_map_def k)
    then show ?thesis
      unfolding bk_read_data_def using Q None
      by (auto simp: kk store_part_base [OF at(1) part'] status_of_def intro!: returns_bind get_namespace_addr_rule [OF at part' rep mem])
  next
    case (Some i)
    note e = table_rep_at [OF rep Some] and ad = block_addrs [OF part' table_rep_at(1) [OF rep Some]]
    note get = get_in_table_rule [OF _ at(2) part' rep mem Some]
    have km: "kv_map T k = (case slot_index nm' (snd (T ! i)) 0 of None \<Rightarrow> None | Some j \<Rightarrow> Some (slot_val (snd (T ! i) ! j)))"
      using e(6) slot_index_None [of nm' "snd (T ! i)"] slot_index_Some(1) [OF e(4)] by (auto simp: k split: option.split)
    show ?thesis
      unfolding bk_read_data_def Let_def
      apply (simp only: option.case prod.case simp_thms if_False kk(1) store_part_base [OF at(1) part'] bind.bind_lunit)
      apply (rule returns_bind, rule get_namespace_addr_rule [OF at part' rep mem])
      apply (simp only: Some option.map option.case prod.case ad(2,4))
      apply (rule returns_bind, erule get)
      apply (cases "slot_index nm' (snd (T ! i)) 0")
      subgoal using Q by (simp add: km status_of_def)
      subgoal for _ _ j
        using Q room slot_index_SomeD [of nm' "snd (T ! i)" 0 j] apply (simp only: option.map option.case prod.case)
        apply (erule read_slot_rule [OF _ at(2) e(3) ad(1)])
        apply (auto simp: km status_of_def)
        done
      done
  qed
qed

section \<open>Cleaning a name and clearing a namespace\<close>

lemma mask_rule:
  assumes at: "kv_at E cfg tbl p m s" "named cfg p" and rep: "block_rep m d b sl" and lay: "layout cfg d b"
    and j: "slot_index nm sl 0 = Some j"
    and Q: "\<And>m' s'. kv_at E cfg tbl p m' s' \<Longrightarrow> block_rep m' d b (sl[j := mask_slot (sl ! j)]) \<Longrightarrow> same_but d b m m'
      \<Longrightarrow> Q (status kNoErr, s')"
  shows "returns (do {
      (protect_flag, s) \<leftarrow> lift_protect E s;
      s \<leftarrow> flash_ddev_write E (bytes32 FLASH_SPACE_MASK) 4 (of_nat d + of_nat j * 64) s;
      Some (status kNoErr, protect_flag, s) })
    (\<lambda>r. returns (case r of (dw_rtn, protect_flag, s) \<Rightarrow> set_protect E protect_flag s \<bind> (\<lambda>s. Some (dw_rtn, s))) Q)"
proof -
  have lim: "unat (flash_size cfg) \<le> 2 ^ 24" "d + 4096 \<le> b" using at lay by (auto simp: kv_at_def chip_ok_def layout_def)
  note jj = slot_index_SomeD [OF j] and rd = slot_reads [OF rep slot_index_SomeD(2) [OF j] lay lim(1)]
  define m' where "m' = prog m (d + 64 * j) (bytes32 FLASH_SPACE_MASK)"
  note msk = block_rep_mask [OF rep jj(2,3) lim(2) disjI1 [OF refl] m'_def]
  have w: "d + 64 * j < unat (flash_size cfg)" "d + 64 * j + 4 \<le> unat (flash_size cfg)" using rd(2) by linarith+
  have wr: "returns (flash_ddev_write E (bytes32 FLASH_SPACE_MASK) 4 (of_nat d + of_nat j * 64) t) R"
    if "kv_at E cfg tbl (protect_none cfg) m t" "\<And>u. kv_at E cfg tbl (protect_none cfg) m' u \<Longrightarrow> R u" for t R
    by (rule write_rule [OF that(1)]) (use w that(2) in \<open>simp_all add: rd(1) m'_def\<close>)
  show ?thesis
    apply (rule returns_bind, rule lift_protect_rule [OF at(1)], simp only: prod.case)
    apply (rule returns_bind, erule wr)
    using at(2) Q [OF _ msk] by (auto intro!: kv_rules)
qed

lemma kv_clean_map:
  assumes rep: "table_rep m base T"
  shows "kv_clean T ns nm = None \<longleftrightarrow> kv_map T (ns, nm) = None"
    "kv_clean T ns nm = Some T' \<Longrightarrow> kv_map T' = (kv_map T)((ns, nm) := None)" "kv_clean T ns nm = Some T' \<Longrightarrow> length T' = length T"
proof -
  note u = table_rep_unique [OF rep]
  show "kv_clean T ns nm = None \<longleftrightarrow> kv_map T (ns, nm) = None"
    using table_rep_at(6) [OF rep] by (auto simp: kv_clean_def slot_index_None [symmetric] kv_map_def split: option.split)
  show "length T' = length T" if "kv_clean T ns nm = Some T'" using that by (auto simp: kv_clean_def split: option.split_asm)
  show "kv_map T' = (kv_map T)((ns, nm) := None)" if cl: "kv_clean T ns nm = Some T'"
  proof -
    obtain i j where ij: "ns_index (Some ns) T 0 = Some i" "slot_index nm (snd (T ! i)) 0 = Some j"
      "T' = T[i := (Some ns, (snd (T ! i))[j := mask_slot (snd (T ! i) ! j)])]"
      using cl by (auto simp: kv_clean_def split: option.split_asm)
    note e = table_rep_at [OF rep ij(1)]
    have "names_unique T'" unfolding ij(3)
      by (rule names_unique_update [OF u e(1)]) (use ns_index_unique [OF u] ij(1) in fastforce)
    then have "kv_map T' k = (if fst k = ns then kmap ((snd (T ! i))[j := mask_slot (snd (T ! i) ! j)]) (snd k) else kv_map T k)" for k
      using kv_map_update [OF u e(1)] e(2) unfolding ij(3) by blast
    then show ?thesis using slot_index_Some(2) [OF e(4) ij(2)] e(6) by (auto simp: fun_eq_iff)
  qed
qed

lemma clean_data_rule:
  assumes at: "kv_at E cfg tbl p m s" "named cfg p" and part: "store_part cfg C tbl BK_PARTITION_MATTER_FLASH base (length T)"
    and rep: "table_rep m base T" and key: "key_of ns nm k" "ns \<noteq> cstr ''chip-factory''" and mem: "\<And>x. mem x"
    and none: "\<And>s'. kv_clean T (fst k) (snd k) = None \<Longrightarrow> kv_at E cfg tbl (protect_none cfg) m s' \<Longrightarrow> Q (status kGeneralErr, s')"
    and some: "\<And>T' m' s'. kv_clean T (fst k) (snd k) = Some T' \<Longrightarrow> kv_at E cfg tbl p m' s' \<Longrightarrow> table_rep m' base T'
      \<Longrightarrow> outside_same base (length T) m m' \<Longrightarrow> Q (status kNoErr, s')"
  shows "returns (bk_clean_data C E mem (Some ns) (Some nm) s) Q"
proof -
  obtain ns' nm' where k: "k = (ns', nm')" by (cases k)
  have kk: "beken_names ns (Some nm) = Some (ns', Some nm')" using key(1) by (auto simp: key_of_def k)
  have part': "store_part cfg C tbl (matter_partition ns') base (length T)" using part key_partition [OF key] by (simp add: k)
  have fail: "returns (set_protect E (PARM_U32 0) t \<bind> (\<lambda>s. Some (status kGeneralErr, s))) Q"
    if "kv_at E cfg tbl p m t" "kv_clean T ns' nm' = None" for t
    using that none set_protect_rule [OF that(1), where ty = FLASH_PROTECT_NONE] by (auto simp: k intro!: returns_bind)
  show ?thesis
  proof (cases "ns_index (Some ns') T 0")
    case None
    then have "kv_clean T ns' nm' = None" by (simp add: kv_clean_def)
    then show ?thesis
      unfolding bk_clean_data_def using key(2) at(1) fail None
      by (auto simp: kk store_part_base [OF at(1) part'] intro!: returns_bind open_rule get_namespace_addr_rule [OF _ at(2) part' rep mem])
  next
    case (Some i)
    note e = table_rep_at [OF rep Some] and ad = block_addrs [OF part' table_rep_at(1) [OF rep Some]]
    have cl: "kv_clean T ns' nm' = (case slot_index nm' (snd (T ! i)) 0 of None \<Rightarrow> None
        | Some j \<Rightarrow> Some (T[i := (Some ns', (snd (T ! i))[j := mask_slot (snd (T ! i) ! j)])]))" by (simp add: kv_clean_def Some)
    have done_j: "Q (status kNoErr, s')" if "slot_index nm' (snd (T ! i)) 0 = Some j" "kv_at E cfg tbl p m' s'"
      "block_rep m' (dir_of base i) (dat_of base (length T) i) ((snd (T ! i))[j := mask_slot (snd (T ! i) ! j)])"
      "same_but (dir_of base i) (dat_of base (length T) i) m m'" for j m' s'
      using some [OF _ that(2) table_set_block [OF rep e(1,2) that(3) slot_index_Some(3) [OF e(4) that(1)] that(4)] same_but_outside [OF e(1) that(4)]]
      by (simp add: k cl that(1))
    show ?thesis
      unfolding bk_clean_data_def Let_def
      apply (simp only: option.case prod.case if_not_P [OF key(2)] kk(1) store_part_base [OF at(1) part'] bind.bind_lunit)
      apply (rule returns_bind, rule open_rule [OF at(1)])
      apply (rule returns_bind, erule get_namespace_addr_rule [OF _ at(2) part' rep mem])
      apply (simp only: Some option.map option.case prod.case ad(2))
      apply (rule returns_bind, rule returns_bind, erule get_in_table_rule [OF _ at(2) part' rep mem Some])
      apply (cases "slot_index nm' (snd (T ! i)) 0")
      subgoal using fail by (simp add: cl)
      subgoal for _ _ _ j
        apply (simp only: option.map option.case prod.case)
        apply (erule mask_rule [OF _ at(2) e(3) ad(1)], assumption)
        apply (erule (3) done_j)
        done
      done
  qed
qed

definition kv_clear :: "kv_table \<Rightarrow> byte list \<Rightarrow> kv_table option" where
  "kv_clear T ns = map_option (\<lambda>i. clear_ns i T) (ns_index (Some ns) T 0)"

lemma kv_clear_map:
  assumes rep: "table_rep m base T" and c: "kv_clear T ns = Some T'"
  shows "kv_map T' k = (if fst k = ns then None else kv_map T k)" "length T' = length T"
proof -
  obtain i where i: "ns_index (Some ns) T 0 = Some i" "T' = T[i := (None, [])]" using c by (auto simp: kv_clear_def clear_ns_def)
  note e = table_rep_at [OF rep i(1)] and u = table_rep_unique [OF rep]
  show "length T' = length T" by (simp add: i)
  have "fst (T' ! j) = Some (fst k) \<longleftrightarrow> fst k \<noteq> ns \<and> fst (T ! j) = Some (fst k)" if "j < length T" for j
    using that e(1,2) ns_index_unique [OF u that, of ns] i by (cases "j = i") auto
  then have ix: "ns_index (Some (fst k)) T' 0 = (if fst k = ns then None else ns_index (Some (fst k)) T 0)"
    unfolding ns_index_def i(2) length_list_update by (auto intro: find_cong simp: find_None_iff)
  have "T' ! j = T ! j" if "ns_index (Some (fst k)) T 0 = Some j" "fst k \<noteq> ns" for j
    using ns_index_SomeD [OF that(1)] that(2) e(2) by (cases "j = i") (auto simp: i(2))
  then show "kv_map T' k = (if fst k = ns then None else kv_map T k)"
    by (auto simp: kv_map_def ix split: option.split)
qed

lemma erase_name_data_rule:
  assumes at: "kv_at E cfg tbl (protect_none cfg) m s" and lay: "layout cfg d b" and lim: "unat (flash_size cfg) \<le> 2 ^ 24"
    and Q: "\<And>s'. kv_at E cfg tbl (protect_none cfg) (erase_range (erase_range m (d div 4096) 1) (b div 4096) 1) s' \<Longrightarrow> Q (status kNoErr, s')"
  shows "returns (bk_erase_name_data E (of_nat d) (of_nat b) s) Q"
proof -
  have ad: "unat (of_nat d :: u32) = d" "unat (of_nat b :: u32) = b" "d < unat (flash_size cfg)" "b < unat (flash_size cfg)"
    using lay lim by (auto intro!: unat_of_nat32 simp: layout_def)
  show ?thesis
    unfolding bk_erase_name_data_def
    apply (rule returns_bind, rule open_unprotected_rule [OF at], simp only: prod.case)
    apply (rule returns_bind, erule erase_rule, simp add: ad)
    apply (rule returns_bind, erule erase_rule, simp add: ad)
    using Q by (auto simp: ad intro!: kv_rules)
qed

lemma clear_namespace_rule:
  assumes at: "kv_at E cfg tbl p m s" "named cfg p" and part: "store_part cfg C tbl BK_PARTITION_MATTER_FLASH base (length T)"
    and rep: "table_rep m base T" and mem: "\<And>x. mem x"
    and ns: "ns \<noteq> cstr ''chip-factory''" "ns \<noteq> cstr ''chip-config''" "ns \<noteq> cstr ''chip-counters''"
    and none: "\<And>s'. kv_clear T ns = None \<Longrightarrow> kv_at E cfg tbl p m s' \<Longrightarrow> Q (status kGeneralErr, s')"
    and some: "\<And>T' m' s'. kv_clear T ns = Some T' \<Longrightarrow> kv_at E cfg tbl p m' s' \<Longrightarrow> table_rep m' base T'
      \<Longrightarrow> outside_same base (length T) m m' \<Longrightarrow> Q (status kNoErr, s')"
  shows "returns (bK_clear_namespace C E mem (Some ns) s) Q"
proof -
  have part': "store_part cfg C tbl (matter_partition ns) base (length T)" using part ns(1) by (simp add: matter_partition_def)
  note b = base_small [OF at(1) part] and sp = store_part_base [OF at(1) part']
  have special: "\<not> (ns = cstr ''chip-factory'' \<or> ns = cstr ''chip-config'' \<or> ns = cstr ''chip-counters'')" using ns by simp
  show ?thesis
  proof (cases "ns_index (Some ns) T 0")
    case None
    then show ?thesis
      unfolding bK_clear_namespace_def using special mem none
      by (auto simp: sp kv_clear_def intro!: returns_bind get_namespace_addr_rule [OF at part' rep mem])
  next
    case (Some i)
    note e = table_rep_at [OF rep Some] and ad = block_addrs [OF part' table_rep_at(1) [OF rep Some]]
    have al: "base mod 4096 = 0" "base < unat (flash_size cfg)" using part by (auto simp: store_part_def)
    have ui: "unat (of_nat i :: u32) = i" using e(1) b(4) by (intro unat_of_nat32) simp
    define m2 where "m2 = erase_range (erase_range (erase_range m (dir_of base i div 4096) 1) (dat_of base (length T) i div 4096) 1) (base div 4096) 1"
    have fresh: "m2 y = 0xFF" if "base \<le> y" "y < base + 64 * length T" for y
      using that b(4) erase_range_at [OF al(1)] by (simp add: m2_def)
    have fin: "Q (status kNoErr, s')" if "kv_at E cfg tbl p m' s'" "\<And>j. j < length T \<Longrightarrow> ns_rep m' base j (if j = i then None else fst (T ! j))"
      "\<And>y. y < base \<or> base + 64 * length T \<le> y \<Longrightarrow> m' y = m2 y" for m' s'
      using some [OF _ that(1) table_clear [OF rep e(1) al(1) ad(1) m2_def that(2,3)]] by (simp add: kv_clear_def Some)
    show ?thesis
      unfolding bK_clear_namespace_def Let_def
      apply (simp only: option.case if_not_P [OF special] sp bind.bind_lunit mem simp_thms if_False)
      apply (rule returns_bind, rule get_namespace_addr_rule [OF at part' rep mem])
      apply (simp only: Some option.map option.case prod.case)
      apply (rule returns_bind, erule open_unprotected_rule, simp only: prod.case)
      apply (rule returns_bind, erule read_rule, use b in \<open>simp add: unat_mx\<close>, simp only: prod.case ad(3,4))
      apply (rule returns_bind, erule erase_name_data_rule [OF _ ad(1) b(3)], simp only: prod.case)
      apply (rule returns_bind, erule erase_rule, use al b in simp, simp only: b(1,4) unat_mx ui)
      apply (rule returns_bind, rule rewrite_namespaces_rule [OF rep b(2,3), where k = 0 and m = m2], simp, simp add: m2_def, simp)
      apply (use fresh in simp)
      apply (rule returns_bind, erule restore_rule, rule at(2))
      apply (use fin in simp)
      done
  qed
qed

section \<open>An empty partition\<close>

lemma table_rep_erased:
  assumes "\<And>y. base \<le> y \<Longrightarrow> y < base + 4096 * (2 * n + 1) \<Longrightarrow> m y = 0xFF" "n \<le> 64"
  shows "table_rep m base (replicate n (None, []))"
proof -
  have "block_rep m (dir_of base i) (dat_of base n i) []" if "i < n" for i
    by (rule block_rep_Nil; rule assms(1)) (use that in \<open>auto simp: dir_of_def dat_of_def\<close>)
  moreover have "ns_rep m base i None" if "i < n" for i using that assms by (auto simp: ns_rep_def)
  ultimately show ?thesis using assms(2) by (simp add: table_rep_def names_unique_def)
qed

lemma kv_map_empty: "kv_map (replicate n (None, [])) = Map.empty"
  by (rule ext) (auto simp: kv_map_def ns_index_def find_Some_iff split: option.split)

lemma erase_loop_rule:
  assumes "unat (flash_size cfg) \<le> 2 ^ 24"
  shows "kv_at E cfg tbl (protect_none cfg) m s \<Longrightarrow> unat a mod 4096 = 0 \<Longrightarrow> unat a + 4096 * n \<le> unat (flash_size cfg) \<Longrightarrow>
    (\<And>s'. kv_at E cfg tbl (protect_none cfg) (\<lambda>y. if unat a \<le> y \<and> y < unat a + 4096 * n then 0xFF else m y) s' \<Longrightarrow> Q s') \<Longrightarrow>
    returns (erase_loop E n a s) Q"
proof (induction n arbitrary: a m s)
  case 0
  have "(\<lambda>y. if unat a \<le> y \<and> y < unat a + 4096 * 0 then 0xFF else m y) = m" by (rule ext) auto
  then show ?case using 0 by simp
next
  case (Suc n)
  let ?m = "erase_range m (unat a div 4096) 1"
  have a1: "unat (a + NAME_SPACE_FLASH_TOTAL_SIZE) = unat a + 4096"
    using Suc.prems(3) assms by (subst unat_add_no_wrap) (simp_all add: NAME_SPACE_FLASH_TOTAL_SIZE_def)
  have "returns (erase_loop E n (a + NAME_SPACE_FLASH_TOTAL_SIZE) s') Q" if "kv_at E cfg tbl (protect_none cfg) ?m s'" for s'
  proof (rule Suc.IH [OF that])
    have "(\<lambda>y. if unat (a + NAME_SPACE_FLASH_TOTAL_SIZE) \<le> y \<and> y < unat (a + NAME_SPACE_FLASH_TOTAL_SIZE) + 4096 * n then 0xFF else ?m y)
        = (\<lambda>y. if unat a \<le> y \<and> y < unat a + 4096 * Suc n then 0xFF else m y)"
      unfolding a1 erase_range_at [OF Suc.prems(2)] by auto
    then show "Q s''" if "kv_at E cfg tbl (protect_none cfg) (\<lambda>y. if unat (a + NAME_SPACE_FLASH_TOTAL_SIZE) \<le> y
        \<and> y < unat (a + NAME_SPACE_FLASH_TOTAL_SIZE) + 4096 * n then 0xFF else ?m y) s''" for s''
      using that Suc.prems(4) by simp
  qed (use Suc.prems(2,3) a1 in \<open>auto simp: mod_add_self2\<close>)
  then show ?case
    using Suc.prems(1,3) by (auto intro!: returns_bind erase_rule [OF Suc.prems(1)])
qed

lemma erase_all_rule:
  assumes at: "kv_at E cfg tbl p m s" "named cfg p" and part: "store_part cfg C tbl pt base n"
    and Q: "\<And>s'. kv_at E cfg tbl p (\<lambda>y. if base \<le> y \<and> y < base + 4096 * (2 * n + 1) then 0xFF else m y) s' \<Longrightarrow> Q (status kNoErr, s')"
  shows "returns (bk_erase_all C E pt s) Q"
proof -
  have pt: "BkFlashPartitionIsValid C pt \<noteq> 0" "unat (partition_start_addr (tbl pt)) = base" "unat (partition_length (tbl pt)) = 4096 * (2 * n + 1)"
    "base mod 4096 = 0" "base + 4096 * (2 * n + 1) \<le> unat (flash_size cfg)" using part by (auto simp: store_part_def)
  have lim: "unat (flash_size cfg) \<le> 2 ^ 24" and tbl: "bk7231_partitions s = Some tbl" using at(1) by (auto simp: kv_at_def chip_ok_def)
  have k: "unat (partition_length (tbl pt) div NAME_SPACE_FLASH_TOTAL_SIZE) = 2 * n + 1"
    by (simp only: NAME_SPACE_FLASH_TOTAL_SIZE_def unat_div pt(3)) simp
  show ?thesis
    unfolding bk_erase_all_def bk_flash_get_info_tbl [OF tbl pt(1)] bind.bind_lunit option.case k
    apply (rule returns_bind, rule open_unprotected_rule [OF at(1)], simp only: prod.case)
    apply (rule returns_bind, erule erase_loop_rule [OF lim], use pt in simp, use pt in simp)
    using Q at(2) unfolding pt(2) by (auto intro!: kv_rules)
qed

section \<open>The state of the store\<close>

text \<open>
  The device is ready, its protection setting has a name, the Matter partition lies in the flash
  and holds the table \<open>T\<close>. An operation that keeps the frame changes nothing outside the partition
  and leaves the protection setting as it was.
\<close>

definition kv_state :: "'c flash_env \<Rightarrow> flash_config_t \<Rightarrow> part_conf \<Rightarrow> partition_table \<Rightarrow> nat \<Rightarrow> 'c flash_hal \<Rightarrow> kv_table \<Rightarrow> bool" where
  "kv_state E cfg C tbl base s T \<longleftrightarrow> kv_at E cfg tbl (hal_protect E cfg s) (hal_mem E s) s \<and> named cfg (hal_protect E cfg s)
     \<and> table_rep (hal_mem E s) base T \<and> store_part cfg C tbl BK_PARTITION_MATTER_FLASH base (length T)"

definition kv_frame :: "'c flash_env \<Rightarrow> flash_config_t \<Rightarrow> nat \<Rightarrow> kv_table \<Rightarrow> 'c flash_hal \<Rightarrow> 'c flash_hal \<Rightarrow> bool" where
  "kv_frame E cfg base T s s' \<longleftrightarrow> hal_protect E cfg s' = hal_protect E cfg s \<and> outside_same base (length T) (hal_mem E s) (hal_mem E s')"

lemma kv_stateD:
  assumes "kv_state E cfg C tbl base s T"
  shows "kv_at E cfg tbl (hal_protect E cfg s) (hal_mem E s) s" "named cfg (hal_protect E cfg s)"
    "store_part cfg C tbl BK_PARTITION_MATTER_FLASH base (length T)" "table_rep (hal_mem E s) base T"
  using assms by (auto simp: kv_state_def)

lemma kv_stateI:
  assumes "kv_at E cfg tbl p m s" "named cfg p" "table_rep m base T" "store_part cfg C tbl BK_PARTITION_MATTER_FLASH base (length T)"
  shows "kv_state E cfg C tbl base s T"
  using assms by (auto simp: kv_state_def kv_at_def)

lemma kv_frameI:
  assumes "kv_at E cfg tbl (hal_protect E cfg s) m' s'" "outside_same base (length T) (hal_mem E s) m'"
  shows "kv_frame E cfg base T s s'"
  using assms by (auto simp: kv_frame_def kv_at_def)

lemma write_data_state:
  assumes st: "kv_state E cfg C tbl base s T" and key: "key_of ns nm k" "ns \<noteq> cstr ''chip-factory''"
    and v: "length data < 2 ^ 31" and old: "\<And>w. kv_map T k = Some w \<Longrightarrow> length w \<le> 2048" and mem: "\<And>x. mem x"
  shows "\<exists>ok s' T'. bk_write_data C E mem (Some ns) (Some nm) (Some data) (of_nat (length data)) s = Some (status_of ok, s')
    \<and> kv_state E cfg C tbl base s' T' \<and> kv_frame E cfg base T s s'
    \<and> kv_map T' = (kv_map T)(k := if ok then Some data else None) \<and> (has_room T (fst k) (snd k) (length data) \<longrightarrow> ok)"
proof -
  note d = kv_stateD [OF st]
  have nv: "new_value data (of_nat (length data)) data" using v by (simp add: new_value_def unat_of_nat32)
  note w = kv_write_map [OF d(4), of "fst k" "snd k" data]
  have "returns (bk_write_data C E mem (Some ns) (Some nm) (Some data) (of_nat (length data)) s)
    (\<lambda>(r, s'). r = status_of (fst (kv_write T (fst k) (snd k) data)) \<and> kv_state E cfg C tbl base s' (snd (kv_write T (fst k) (snd k) data))
      \<and> kv_frame E cfg base T s s')"
    by (rule write_data_rule [OF d(1,2,3,4) key nv mem old]) (use d(2,3) w(3) in \<open>auto intro!: kv_stateI kv_frameI\<close>)
  then obtain s' where "bk_write_data C E mem (Some ns) (Some nm) (Some data) (of_nat (length data)) s
      = Some (status_of (fst (kv_write T (fst k) (snd k) data)), s')"
    "kv_state E cfg C tbl base s' (snd (kv_write T (fst k) (snd k) data))" "kv_frame E cfg base T s s'" by (auto simp: returns_def)
  moreover have "kv_map (snd (kv_write T (fst k) (snd k) data)) = (kv_map T)(k := if fst (kv_write T (fst k) (snd k) data) then Some data else None)"
    using w(1) by simp
  ultimately show ?thesis using w(2) by blast
qed

lemma read_data_state:
  assumes st: "kv_state E cfg C tbl base s T" and key: "key_of ns nm k" "ns \<noteq> cstr ''chip-factory''"
    and room: "\<And>v. kv_map T k = Some v \<Longrightarrow> min (unat len) (length v) \<le> room" and mem: "\<And>x. mem x"
  shows "\<exists>s'. bk_read_data C E mem (Some ns) (Some nm) (Some room) len True s
      = Some (status_of (kv_map T k \<noteq> None), map_option (\<lambda>v. (of_nat (min (unat len) (length v)), take (unat len) v)) (kv_map T k), s')
    \<and> kv_state E cfg C tbl base s' T \<and> hal_mem E s' = hal_mem E s \<and> hal_protect E cfg s' = hal_protect E cfg s"
proof -
  note d = kv_stateD [OF st]
  have "returns (bk_read_data C E mem (Some ns) (Some nm) (Some room) len True s)
    (\<lambda>(r, out, s'). r = status_of (kv_map T k \<noteq> None) \<and> out = map_option (\<lambda>v. (of_nat (min (unat len) (length v)), take (unat len) v)) (kv_map T k)
      \<and> kv_state E cfg C tbl base s' T \<and> hal_mem E s' = hal_mem E s \<and> hal_protect E cfg s' = hal_protect E cfg s)"
    by (rule read_data_rule [OF d(1,2) key(1) _ d(4) mem room])
      (use d(2-4) key_partition [OF key] in \<open>auto intro!: kv_stateI simp: kv_at_def\<close>)
  then show ?thesis by (auto simp: returns_def)
qed

lemma clean_data_state:
  assumes st: "kv_state E cfg C tbl base s T" and key: "key_of ns nm k" "ns \<noteq> cstr ''chip-factory''" and mem: "\<And>x. mem x"
  shows "\<exists>s' T'. bk_clean_data C E mem (Some ns) (Some nm) s = Some (status_of (kv_map T k \<noteq> None), s')
    \<and> kv_state E cfg C tbl base s' T' \<and> outside_same base (length T) (hal_mem E s) (hal_mem E s') \<and> kv_map T' = (kv_map T)(k := None)
    \<and> hal_protect E cfg s' = (if kv_map T k = None then protect_none cfg else hal_protect E cfg s)"
proof -
  note d = kv_stateD [OF st]
  note c = kv_clean_map [OF d(4), of "fst k" "snd k"]
  have "returns (bk_clean_data C E mem (Some ns) (Some nm) s) (\<lambda>(r, s'). \<exists>T'. r = status_of (kv_map T k \<noteq> None)
    \<and> kv_state E cfg C tbl base s' T' \<and> outside_same base (length T) (hal_mem E s) (hal_mem E s') \<and> kv_map T' = (kv_map T)(k := None)
    \<and> hal_protect E cfg s' = (if kv_map T k = None then protect_none cfg else hal_protect E cfg s))"
  proof (rule clean_data_rule [OF d(1,2,3,4) key mem], goal_cases)
    case (1 s')
    then show ?case using c(1) d(3,4) kv_stateI [OF 1(2)] by (auto simp: status_of_def kv_at_def fun_upd_idem)
  next
    case (2 T' m' s')
    have "kv_state E cfg C tbl base s' T'" by (rule kv_stateI [OF 2(2) d(2) 2(3)]) (simp add: c(3) [OF 2(1)] d(3))
    moreover have "hal_mem E s' = m'" "hal_protect E cfg s' = hal_protect E cfg s" using 2(2) by (simp_all add: kv_at_def)
    moreover have "kv_map T k \<noteq> None" "kv_map T' = (kv_map T)(k := None)" using c(1,2) 2(1) by auto
    ultimately show ?case using 2(4) by (auto simp: status_of_def)
  qed
  then show ?thesis unfolding returns_def by auto
qed

end
