(* ===== verification/Kv_Store_Props.thy ===== *)
theory Kv_Store_Props
  imports Kv_Ops
begin

text \<open>
  The interface of the key-value store as a map from namespaces and names to values: writing
  updates it, reading looks it up, cleaning removes a name, clearing removes a namespace. The
  locale \<open>kv_interface\<close> states what a client relies on; the interpretation \<open>kv\<close> proves it for the
  model, and the behaviour of sequences of operations follows from it.
\<close>

section \<open>The interface\<close>

datatype ('k, 'v) kv_cmd = Put 'k 'v | Del 'k

fun kv_run ::
  "('k \<Rightarrow> 'v \<Rightarrow> 's \<Rightarrow> (bool \<times> 's) option) \<Rightarrow> ('k \<Rightarrow> 's \<Rightarrow> (bool \<times> 's) option) \<Rightarrow> ('k, 'v) kv_cmd list \<Rightarrow> 's
     \<Rightarrow> (bool list \<times> 's) option" where
  "kv_run put del [] s = Some ([], s)"
| "kv_run put del (c # cs) s = do {
     (ok, s) \<leftarrow> (case c of Put k v \<Rightarrow> put k v s | Del k \<Rightarrow> del k s);
     (oks, s) \<leftarrow> kv_run put del cs s;
     Some (ok # oks, s) }"

text \<open>The map after a sequence of commands with the results \<open>oks\<close>; a write that fails removes its key.\<close>

fun kv_spec :: "('k, 'v) kv_cmd list \<Rightarrow> bool list \<Rightarrow> ('k \<rightharpoonup> 'v) \<Rightarrow> ('k \<rightharpoonup> 'v)" where
  "kv_spec (Put k v # cs) (ok # oks) M = kv_spec cs oks (M(k := if ok then Some v else None))"
| "kv_spec (Del k # cs) (ok # oks) M = kv_spec cs oks (M(k := None))"
| "kv_spec _ _ M = M"

fun cmd_ok :: "('k \<Rightarrow> bool) \<Rightarrow> ('v \<Rightarrow> bool) \<Rightarrow> ('k, 'v) kv_cmd \<Rightarrow> bool" where
  "cmd_ok K V (Put k v) \<longleftrightarrow> K k \<and> V v"
| "cmd_ok K V (Del k) \<longleftrightarrow> K k"

locale kv_interface =
  fixes rep :: "'s \<Rightarrow> ('k \<rightharpoonup> 'v) \<Rightarrow> bool" and key :: "'k \<Rightarrow> bool" and val :: "'v \<Rightarrow> bool"
    and put :: "'k \<Rightarrow> 'v \<Rightarrow> 's \<Rightarrow> (bool \<times> 's) option" and get :: "'k \<Rightarrow> 's \<Rightarrow> ('v option \<times> 's) option"
    and del :: "'k \<Rightarrow> 's \<Rightarrow> (bool \<times> 's) option"
  assumes put_law: "rep s M \<Longrightarrow> key k \<Longrightarrow> val v \<Longrightarrow> \<exists>ok s'. put k v s = Some (ok, s') \<and> rep s' (M(k := if ok then Some v else None))"
    and get_law: "rep s M \<Longrightarrow> key k \<Longrightarrow> \<exists>s'. get k s = Some (M k, s') \<and> rep s' M"
    and del_law: "rep s M \<Longrightarrow> key k \<Longrightarrow> \<exists>s'. del k s = Some (M k \<noteq> None, s') \<and> rep s' (M(k := None))"
begin

lemma run_refines:
  "rep s M \<Longrightarrow> list_all (cmd_ok key val) cs \<Longrightarrow>
   \<exists>oks s'. kv_run put del cs s = Some (oks, s') \<and> length oks = length cs \<and> rep s' (kv_spec cs oks M)"
proof (induction cs arbitrary: s M)
  case (Cons c cs)
  have all: "list_all (cmd_ok key val) cs" using Cons.prems(2) by simp
  show ?case
  proof (cases c)
    case (Put k v)
    then obtain ok s1 where s1: "put k v s = Some (ok, s1)" "rep s1 (M(k := if ok then Some v else None))"
      using put_law [OF Cons.prems(1), of k v] Cons.prems(2) by auto
    from Cons.IH [OF s1(2) all] obtain oks s2 where "kv_run put del cs s1 = Some (oks, s2)" "length oks = length cs"
      "rep s2 (kv_spec cs oks (M(k := if ok then Some v else None)))" by blast
    then show ?thesis using s1(1) Put by auto
  next
    case (Del k)
    then obtain s1 where s1: "del k s = Some (M k \<noteq> None, s1)" "rep s1 (M(k := None))"
      using del_law [OF Cons.prems(1), of k] Cons.prems(2) by auto
    from Cons.IH [OF s1(2) all] obtain oks s2 where "kv_run put del cs s1 = Some (oks, s2)" "length oks = length cs"
      "rep s2 (kv_spec cs oks (M(k := None)))" by blast
    then show ?thesis using s1(1) Del by auto
  qed
qed auto

lemma get_after_run:
  assumes "rep s M" "list_all (cmd_ok key val) cs" "key k"
  shows "\<exists>oks s' s''. kv_run put del cs s = Some (oks, s') \<and> length oks = length cs \<and> get k s' = Some (kv_spec cs oks M k, s'')"
proof -
  obtain oks s' where "kv_run put del cs s = Some (oks, s')" "length oks = length cs" "rep s' (kv_spec cs oks M)"
    using run_refines [OF assms(1,2)] by blast
  then show ?thesis using get_law assms(3) by blast
qed

end

text \<open>The operations of the store as a client calls them, with a buffer of 2048 bytes.\<close>

definition kv_put :: "part_conf \<Rightarrow> 'c flash_env \<Rightarrow> byte list \<times> byte list \<Rightarrow> byte list \<Rightarrow> 'c flash_hal \<Rightarrow> (bool \<times> 'c flash_hal) option" where
  "kv_put C E k v s = map_option (\<lambda>(r, s). (r = status kNoErr, s))
     (bk_write_data C E (\<lambda>_. True) (Some (fst k)) (Some (snd k)) (Some v) (of_nat (length v)) s)"

definition kv_get :: "part_conf \<Rightarrow> 'c flash_env \<Rightarrow> byte list \<times> byte list \<Rightarrow> 'c flash_hal \<Rightarrow> (byte list option \<times> 'c flash_hal) option" where
  "kv_get C E k s = map_option (\<lambda>(r, out, s). (map_option snd out, s))
     (bk_read_data C E (\<lambda>_. True) (Some (fst k)) (Some (snd k)) (Some 2048) 2048 True s)"

definition kv_del :: "part_conf \<Rightarrow> 'c flash_env \<Rightarrow> byte list \<times> byte list \<Rightarrow> 'c flash_hal \<Rightarrow> (bool \<times> 'c flash_hal) option" where
  "kv_del C E k s = map_option (\<lambda>(r, s). (r = status kNoErr, s)) (bk_clean_data C E (\<lambda>_. True) (Some (fst k)) (Some (snd k)) s)"

text \<open>Keys that the store does not rename, and values that fit the buffer of \<open>bk_set_name_data\<close>.\<close>

definition plain_key :: "byte list \<times> byte list \<Rightarrow> bool" where
  "plain_key k \<longleftrightarrow> fst k \<notin> {cstr ''chip-factory'', cstr ''chip-config'', cstr ''chip-counters''} \<and> ns_ok (fst k) \<and> name_ok (snd k)"

definition short_value :: "byte list \<Rightarrow> bool" where "short_value v \<longleftrightarrow> length v \<le> 2048"

definition kv_rep ::
  "'c flash_env \<Rightarrow> flash_config_t \<Rightarrow> part_conf \<Rightarrow> partition_table \<Rightarrow> nat \<Rightarrow> 'c flash_hal \<Rightarrow> (byte list \<times> byte list \<rightharpoonup> byte list) \<Rightarrow> bool" where
  "kv_rep E cfg C tbl base s M \<longleftrightarrow> (\<exists>T. kv_state E cfg C tbl base s T \<and> M = kv_map T) \<and> (\<forall>v \<in> ran M. short_value v)"

lemma plain_key_of:
  assumes "plain_key k"
  shows "key_of (fst k) (snd k) k" "fst k \<noteq> cstr ''chip-factory''"
  using assms key_of_plain [of "fst k" "snd k"] by (simp_all add: plain_key_def)

lemma status_of_ok [simp]: "status_of ok = status kNoErr \<longleftrightarrow> ok"
  by (simp add: status_of_def status_def kNoErr_def kGeneralErr_def)

lemma ran_upd: "(\<forall>v \<in> ran M. P v) \<Longrightarrow> (case x of None \<Rightarrow> True | Some v \<Rightarrow> P v) \<Longrightarrow> \<forall>v \<in> ran (M(k := x)). P v"
  by (auto simp: ran_def split: option.split_asm)

interpretation kv: kv_interface "kv_rep E cfg C tbl base" plain_key short_value "kv_put C E" "kv_get C E" "kv_del C E"
  for E :: "'c flash_env" and cfg C tbl base
proof (unfold_locales, goal_cases)
  case (1 s M k v)
  then obtain T where T: "kv_state E cfg C tbl base s T" "M = kv_map T" "\<forall>w \<in> ran M. short_value w" by (auto simp: kv_rep_def)
  have "length v < 2 ^ 31" "\<And>w. kv_map T k = Some w \<Longrightarrow> length w \<le> 2048"
    using 1(3) T(2,3) ranI [of M k] by (auto simp: short_value_def)
  from write_data_state [where mem = "\<lambda>_. True", OF T(1) plain_key_of [OF 1(2)] this TrueI]
  obtain ok s' T' where w: "bk_write_data C E (\<lambda>_. True) (Some (fst k)) (Some (snd k)) (Some v) (of_nat (length v)) s = Some (status_of ok, s')"
    "kv_state E cfg C tbl base s' T'" "kv_map T' = (kv_map T)(k := if ok then Some v else None)" by blast
  have "\<forall>w \<in> ran (M(k := if ok then Some v else None)). short_value w" using T(3) 1(3) by (intro ran_upd) auto
  then show ?case using w T(2) by (auto simp: kv_put_def kv_rep_def)
next
  case (2 s M k)
  then obtain T where T: "kv_state E cfg C tbl base s T" "M = kv_map T" "\<forall>w \<in> ran M. short_value w" by (auto simp: kv_rep_def)
  have short: "length v \<le> 2048" if "kv_map T k = Some v" for v using T(2,3) that ranI [of M k] by (auto simp: short_value_def)
  have "min (unat (2048 :: u32)) (length v) \<le> 2048" for v :: "byte list" by simp
  from read_data_state [where mem = "\<lambda>_. True", OF T(1) plain_key_of [OF 2(2)] this TrueI]
  obtain s' where "bk_read_data C E (\<lambda>_. True) (Some (fst k)) (Some (snd k)) (Some 2048) 2048 True s
      = Some (status_of (kv_map T k \<noteq> None), map_option (\<lambda>v. (of_nat (min (unat (2048 :: u32)) (length v)), take (unat (2048 :: u32)) v)) (kv_map T k), s')"
    "kv_state E cfg C tbl base s' T" by blast
  then show ?case using T(2,3) short by (cases "kv_map T k") (auto simp: kv_get_def kv_rep_def)
next
  case (3 s M k)
  then obtain T where T: "kv_state E cfg C tbl base s T" "M = kv_map T" "\<forall>w \<in> ran M. short_value w" by (auto simp: kv_rep_def)
  from clean_data_state [where mem = "\<lambda>_. True", OF T(1) plain_key_of [OF 3(2)] TrueI]
  obtain s' T' where w: "bk_clean_data C E (\<lambda>_. True) (Some (fst k)) (Some (snd k)) s = Some (status_of (kv_map T k \<noteq> None), s')"
    "kv_state E cfg C tbl base s' T'" "kv_map T' = (kv_map T)(k := None)" by blast
  have "\<forall>w \<in> ran (M(k := None)). short_value w" using T(3) by (intro ran_upd) auto
  then show ?case using w T(2) by (auto simp: kv_del_def kv_rep_def)
qed

section \<open>The store on a simulated chip\<close>

definition kv_conf :: part_conf where "kv_conf = sim_conf\<lparr>cfg_support_matter := True\<rparr>"

definition kv_hal :: "((nat \<Rightarrow> byte) \<times> u16) flash_hal" where
  "kv_hal = sim_hal\<lparr>bk7231_partitions := Some (bk7231_partitions_2M kv_conf)\<rparr>"

abbreviation kv_tbl :: partition_table where "kv_tbl \<equiv> bk7231_partitions_2M kv_conf"

lemma kv_sim_at: "kv_at sim_env sim_cfg kv_tbl 0 (\<lambda>_. 0xFF) kv_hal"
proof -
  have "hal_dev kv_hal = sim_state" "bk7231_partitions kv_hal = Some kv_tbl" by (simp_all add: kv_hal_def)
  moreover have "hal_ok sim_env sim_cfg kv_hal" using sim_hal_ok(1) by (simp add: hal_ok_def kv_hal_def)
  moreover have "hal_mem sim_env sim_hal2 = (\<lambda>_. 0xFF)" "protect_field sim_cfg (fl_sr sim_env sim_state) = 0"
    by (simp_all add: sim_env_def sim_chip_def sim_state_def protect_field_def sim_cfg_def mk_config_def)
  ultimately show ?thesis using sim_chip_ok by (auto simp: kv_at_def simp del: bk7231_partitions_2M.simps)
qed

lemma kv_sim_part: "store_part sim_cfg kv_conf kv_tbl BK_PARTITION_MATTER_FLASH 0x1e2000 4"
proof -
  have "unat (flash_size sim_cfg) = 0x200000" by (simp add: sim_cfg_def mk_config_def)
  then show ?thesis by (simp add: store_part_def kv_conf_def partition_def)
qed

lemma kv_sim_named: "named sim_cfg 0"
  by (simp add: named_def)

lemma kv_sim_state: "kv_state sim_env sim_cfg kv_conf kv_tbl 0x1e2000 kv_hal (replicate 4 (None, []))"
  by (rule kv_stateI [OF kv_sim_at kv_sim_named]) (use kv_sim_part in \<open>auto intro!: table_rep_erased\<close>)

lemma kv_sim_key: "key_of (cstr ''wifi'') (cstr ''ssid'') (cstr ''wifi'', cstr ''ssid'')" "cstr ''wifi'' \<noteq> cstr ''chip-factory''"
  "plain_key (cstr ''wifi'', cstr ''ssid'')"
  by (auto intro!: key_of_plain simp: cstr_def ns_ok_def name_ok_def plain_key_def)

lemma kv_sim_room: "n < 4096 \<Longrightarrow> has_room (replicate 4 (None, [])) ns nm n"
proof -
  have "ns_index None (replicate 4 (None :: byte list option, [] :: slot list)) 0 = Some 0" by (simp add: ns_index_def upt_conv_Cons)
  moreover have "slots_of ns (replicate 4 (None, [])) = []"
    by (auto simp: slots_of_def ns_index_def find_Some_iff split: option.split)
  moreover assume "n < 4096"
  ultimately show ?thesis by (simp add: has_room_def)
qed

text \<open>The simulated store after one write.\<close>

lemma kv_sim_written:
  "\<exists>s' T'. bk_write_data kv_conf sim_env (\<lambda>_. True) (Some (cstr ''wifi'')) (Some (cstr ''ssid'')) (Some data) (of_nat (length data)) kv_hal
      = Some (status kNoErr, s')
    \<and> kv_state sim_env sim_cfg kv_conf kv_tbl 0x1e2000 s' T' \<and> kv_map T' (cstr ''wifi'', cstr ''ssid'') = Some data"
  if "length data < 4096"
proof -
  have "length data < 2 ^ 31" using that by simp
  from write_data_state [where mem = "\<lambda>_. True", OF kv_sim_state kv_sim_key(1,2) this _ TrueI] kv_sim_room [OF that]
  obtain ok s' T' where "bk_write_data kv_conf sim_env (\<lambda>_. True) (Some (cstr ''wifi'')) (Some (cstr ''ssid'')) (Some data) (of_nat (length data)) kv_hal
      = Some (status_of ok, s')" "kv_state sim_env sim_cfg kv_conf kv_tbl 0x1e2000 s' T'" "ok"
      "kv_map T' = (kv_map (replicate 4 (None, [])))((cstr ''wifi'', cstr ''ssid'') := if ok then Some data else None)"
    unfolding kv_map_empty by auto
  then show ?thesis by (auto simp: status_of_def simp del: bk7231_partitions_2M.simps)
qed

section \<open>Writing and reading\<close>

text \<open>
  (C4) \<open>bk_write_data\<close> refines the update of the map: on a well-formed store whose value for the key, if there is
  one, has at most 2048 bytes, outside the namespace of the chip's factory data and when all allocations
  succeed, it returns, the new value is the value of the key if it reports success, and the key has
  no value if it reports failure; no other key changes, nothing outside the partition changes and the
  protection setting is in force again. It succeeds whenever there is room besides the other names of
  the namespace. (With a longer old value it runs over a buffer, see (C31).)
\<close>

theorem bk_write_data_updates:
  assumes "kv_state E cfg C tbl base s T" and "key_of ns nm k" and "ns \<noteq> cstr ''chip-factory''"
    and "length data < 2 ^ 31" and "\<forall>w. kv_map T k = Some w \<longrightarrow> length w \<le> 2048"
  shows "\<exists>ok s' T'. bk_write_data C E (\<lambda>_. True) (Some ns) (Some nm) (Some data) (of_nat (length data)) s = Some (status_of ok, s')
    \<and> kv_state E cfg C tbl base s' T' \<and> kv_frame E cfg base T s s'
    \<and> kv_map T' = (kv_map T)(k := if ok then Some data else None) \<and> (has_room T (fst k) (snd k) (length data) \<longrightarrow> ok)"
  using write_data_state [OF assms(1-4), of "\<lambda>_. True"] assms(5) by blast

theorem bk_write_data_updates_witness:
  "\<exists>s' T'. bk_write_data kv_conf sim_env (\<lambda>_. True) (Some (cstr ''wifi'')) (Some (cstr ''ssid'')) (Some [1, 2, 3]) 3 kv_hal
      = Some (status kNoErr, s')
    \<and> kv_state sim_env sim_cfg kv_conf kv_tbl 0x1e2000 s' T' \<and> kv_map T' (cstr ''wifi'', cstr ''ssid'') = Some [1, 2, 3]"
proof -
  obtain ok s' T' where w: "bk_write_data kv_conf sim_env (\<lambda>_. True) (Some (cstr ''wifi'')) (Some (cstr ''ssid'')) (Some [1, 2, 3])
      (of_nat (length [1, 2, 3 :: byte])) kv_hal = Some (status_of ok, s')"
    "kv_state sim_env sim_cfg kv_conf kv_tbl 0x1e2000 s' T'"
    "kv_map T' = (kv_map (replicate 4 (None, [])))((cstr ''wifi'', cstr ''ssid'') := if ok then Some [1, 2, 3] else None)"
    "has_room (replicate 4 (None, [])) (fst (cstr ''wifi'', cstr ''ssid'')) (snd (cstr ''wifi'', cstr ''ssid'')) (length [1, 2, 3 :: byte]) \<longrightarrow> ok"
    using bk_write_data_updates [OF kv_sim_state kv_sim_key(1,2), of "[1, 2, 3]"] unfolding kv_map_empty by auto
  have ok: "ok" using w(4) kv_sim_room [of "length [1, 2, 3 :: byte]"] by simp
  have "(of_nat (length [1, 2, 3 :: byte]) :: u32) = 3" by simp
  then have "bk_write_data kv_conf sim_env (\<lambda>_. True) (Some (cstr ''wifi'')) (Some (cstr ''ssid'')) (Some [1, 2, 3]) 3 kv_hal = Some (status kNoErr, s')"
    using w(1) ok by (simp only: status_of_def if_True)
  moreover have "kv_map T' (cstr ''wifi'', cstr ''ssid'') = Some [1, 2, 3]" using w(3) ok by simp
  ultimately show ?thesis using w(2) by blast
qed

text \<open>
  (C28) What is written with room, over an old value of at most 2048 bytes and with allocations that succeed, is read
  back: \<open>bk_write_data\<close> succeeds, and \<open>bk_read_data\<close> with a
  buffer that is large enough returns the length and the bytes of the value.
\<close>

theorem kv_write_read_roundtrip:
  assumes "kv_state E cfg C tbl base s T" and "key_of ns nm k" and "ns \<noteq> cstr ''chip-factory''"
    and "\<forall>w. kv_map T k = Some w \<longrightarrow> length w \<le> 2048"
    and "has_room T (fst k) (snd k) (length data)" and "length data \<le> room" and "length data \<le> unat len"
  shows "\<exists>s1 s2. bk_write_data C E (\<lambda>_. True) (Some ns) (Some nm) (Some data) (of_nat (length data)) s = Some (status kNoErr, s1)
    \<and> bk_read_data C E (\<lambda>_. True) (Some ns) (Some nm) (Some room) len True s1 = Some (status kNoErr, Some (of_nat (length data), data), s2)"
proof -
  have "length data < 2 ^ 31" using assms(5) by (simp add: has_room_def)
  from write_data_state [where mem = "\<lambda>_. True", OF assms(1-3) this _ TrueI] assms(4,5)
  obtain ok s1 T1 where w: "bk_write_data C E (\<lambda>_. True) (Some ns) (Some nm) (Some data) (of_nat (length data)) s = Some (status_of ok, s1)"
    "kv_state E cfg C tbl base s1 T1" "kv_map T1 = (kv_map T)(k := if ok then Some data else None)" "ok" by blast
  have k: "kv_map T1 k = Some data" using w(3,4) by simp
  then have "min (unat len) (length v) \<le> room" if "kv_map T1 k = Some v" for v using that assms(6) by simp
  from read_data_state [where mem = "\<lambda>_. True", OF w(2) assms(2,3) this TrueI] assms(7) k
  obtain s2 where "bk_read_data C E (\<lambda>_. True) (Some ns) (Some nm) (Some room) len True s1
      = Some (status_of True, Some (of_nat (length data), data), s2)" by (auto simp: min_absorb2)
  then show ?thesis using w(1,4) by (auto simp: status_of_def)
qed

theorem kv_write_read_roundtrip_witness:
  "\<exists>s1 s2. bk_write_data kv_conf sim_env (\<lambda>_. True) (Some (cstr ''wifi'')) (Some (cstr ''ssid'')) (Some [1, 2, 3]) 3 kv_hal = Some (status kNoErr, s1)
    \<and> bk_read_data kv_conf sim_env (\<lambda>_. True) (Some (cstr ''wifi'')) (Some (cstr ''ssid'')) (Some 16) 16 True s1
        = Some (status kNoErr, Some (3, [1, 2, 3]), s2)"
  using kv_write_read_roundtrip [OF kv_sim_state kv_sim_key(1,2) _ kv_sim_room, of "[1, 2, 3]" 16 16]
  by (simp add: kv_map_empty del: bk7231_partitions_2M.simps)

section \<open>Sequences of operations\<close>

text \<open>
  (C5) From any contents of the flash: after \<open>bk_erase_all\<close> of the Matter partition and any sequence of
  writes and cleans, with keys that the store does not rename, values of at most 2048 bytes and allocations
  that succeed, a read returns what the sequence of updates of an empty map has for its key. Which updates these
  are is said by the results that the calls reported: a write that reports an error removes the key, so does a clean. Compacting, the creation of namespaces and failed writes are all covered.
\<close>

theorem kv_sequence_refines:
  assumes "kv_at E cfg tbl p m s" and "named cfg p" and "store_part cfg C tbl BK_PARTITION_MATTER_FLASH base n"
    and "list_all (cmd_ok plain_key short_value) cs" and "plain_key k"
  shows "\<exists>s1 oks s2 s3. bk_erase_all C E BK_PARTITION_MATTER_FLASH s = Some (status kNoErr, s1)
    \<and> kv_run (kv_put C E) (kv_del C E) cs s1 = Some (oks, s2) \<and> length oks = length cs
    \<and> kv_get C E k s2 = Some (kv_spec cs oks Map.empty k, s3)"
proof -
  let ?T = "replicate n (None, []) :: kv_table"
  have n: "n \<le> 64" using assms(3) by (simp add: store_part_def)
  have "returns (bk_erase_all C E BK_PARTITION_MATTER_FLASH s) (\<lambda>(r, s'). r = status kNoErr \<and> kv_state E cfg C tbl base s' ?T)"
    by (rule erase_all_rule [OF assms(1-3)]) (use assms(2,3) n in \<open>auto intro!: kv_stateI table_rep_erased\<close>)
  then obtain s1 where s1: "bk_erase_all C E BK_PARTITION_MATTER_FLASH s = Some (status kNoErr, s1)" "kv_state E cfg C tbl base s1 ?T"
    by (auto simp: returns_def)
  then have "kv_rep E cfg C tbl base s1 Map.empty" using kv_map_empty [of n] by (auto simp: kv_rep_def)
  from kv.get_after_run [OF this assms(4,5)] show ?thesis using s1(1) by blast
qed

theorem kv_sequence_refines_witness:
  "\<exists>s1 oks s2 s3. bk_erase_all kv_conf sim_env BK_PARTITION_MATTER_FLASH kv_hal = Some (status kNoErr, s1)
    \<and> kv_run (kv_put kv_conf sim_env) (kv_del kv_conf sim_env)
        [Put (cstr ''wifi'', cstr ''ssid'') [1], Put (cstr ''wifi'', cstr ''ssid'') [2], Del (cstr ''wifi'', cstr ''ssid'')] s1 = Some (oks, s2)
    \<and> kv_get kv_conf sim_env (cstr ''wifi'', cstr ''ssid'') s2 = Some (None, s3)"
proof -
  let ?k = "(cstr ''wifi'', cstr ''ssid'')"
  let ?cs = "[Put ?k [1], Put ?k [2], Del ?k] :: (byte list \<times> byte list, byte list) kv_cmd list"
  have cs: "list_all (cmd_ok plain_key short_value) ?cs" using kv_sim_key(3) by (simp add: short_value_def)
  obtain s1 oks s2 s3 where w: "bk_erase_all kv_conf sim_env BK_PARTITION_MATTER_FLASH kv_hal = Some (status kNoErr, s1)"
      "kv_run (kv_put kv_conf sim_env) (kv_del kv_conf sim_env) ?cs s1 = Some (oks, s2)" "length oks = length ?cs"
      "kv_get kv_conf sim_env ?k s2 = Some (kv_spec ?cs oks Map.empty ?k, s3)"
    using kv_sequence_refines [OF kv_sim_at kv_sim_named kv_sim_part cs kv_sim_key(3)] by blast
  obtain a b c where "oks = [a, b, c]" using w(3) by (auto simp: length_Suc_conv)
  then have "kv_spec ?cs oks Map.empty ?k = None" by simp
  then show ?thesis using w(1,2,4) by metis
qed

section \<open>Removing\<close>

text \<open>
  (C29) When its allocations succeed \<open>bk_clean_data\<close> removes the key and no other; it reports an error exactly when the key has no value.
  On success the protection setting is restored. On that error the flash is left without any
  protection, because the setting that is restored was never read.
\<close>

theorem bk_clean_data_removes:
  assumes "kv_state E cfg C tbl base s T" and "key_of ns nm k" and "ns \<noteq> cstr ''chip-factory''"
  shows "\<exists>s' T'. bk_clean_data C E (\<lambda>_. True) (Some ns) (Some nm) s = Some (status_of (kv_map T k \<noteq> None), s')
    \<and> kv_state E cfg C tbl base s' T' \<and> outside_same base (length T) (hal_mem E s) (hal_mem E s') \<and> kv_map T' = (kv_map T)(k := None)
    \<and> hal_protect E cfg s' = (if kv_map T k = None then protect_none cfg else hal_protect E cfg s)"
  using clean_data_state [OF assms, of "\<lambda>_. True"] by simp

theorem bk_clean_data_removes_witness:
  "\<exists>s' s1 s2. bk_clean_data kv_conf sim_env (\<lambda>_. True) (Some (cstr ''wifi'')) (Some (cstr ''ssid'')) kv_hal = Some (status kGeneralErr, s')
    \<and> hal_protect sim_env sim_cfg s' = protect_none sim_cfg
    \<and> bk_write_data kv_conf sim_env (\<lambda>_. True) (Some (cstr ''wifi'')) (Some (cstr ''ssid'')) (Some [7]) 1 kv_hal = Some (status kNoErr, s1)
    \<and> bk_clean_data kv_conf sim_env (\<lambda>_. True) (Some (cstr ''wifi'')) (Some (cstr ''ssid'')) s1 = Some (status kNoErr, s2)"
proof -
  obtain s1 T1 where s1: "bk_write_data kv_conf sim_env (\<lambda>_. True) (Some (cstr ''wifi'')) (Some (cstr ''ssid'')) (Some [7]) 1 kv_hal = Some (status kNoErr, s1)"
    "kv_state sim_env sim_cfg kv_conf kv_tbl 0x1e2000 s1 T1" "kv_map T1 (cstr ''wifi'', cstr ''ssid'') = Some [7]"
    using kv_sim_written [of "[7]"] by auto
  show ?thesis
    using bk_clean_data_removes [OF kv_sim_state kv_sim_key(1,2)] bk_clean_data_removes [OF s1(2) kv_sim_key(1,2)] s1(1,3)
    by (auto simp: kv_map_empty status_of_def simp del: bk7231_partitions_2M.simps)
qed

text \<open>
  (C30) When its allocation succeeds \<open>bK_clear_namespace\<close> removes all names of its namespace and nothing else: the other namespaces keep
  their names and values, nothing outside the partition changes and the protection setting is restored.
  It reports an error, and changes nothing, when the namespace does not exist.
\<close>

theorem bK_clear_namespace_removes:
  assumes "kv_state E cfg C tbl base s T"
    and "ns \<noteq> cstr ''chip-factory''" and "ns \<noteq> cstr ''chip-config''" and "ns \<noteq> cstr ''chip-counters''"
  shows "\<exists>s' T'. bK_clear_namespace C E (\<lambda>_. True) (Some ns) s = Some (status_of (ns_index (Some ns) T 0 \<noteq> None), s')
    \<and> kv_state E cfg C tbl base s' T' \<and> kv_frame E cfg base T s s'
    \<and> (\<forall>k. kv_map T' k = (if fst k = ns then None else kv_map T k))"
proof -
  note d = kv_stateD [OF assms(1)]
  have "returns (bK_clear_namespace C E (\<lambda>_. True) (Some ns) s) (\<lambda>(r, s'). \<exists>T'. r = status_of (ns_index (Some ns) T 0 \<noteq> None)
    \<and> kv_state E cfg C tbl base s' T' \<and> kv_frame E cfg base T s s' \<and> (\<forall>k. kv_map T' k = (if fst k = ns then None else kv_map T k)))"
  proof (rule clear_namespace_rule [OF d(1,2,3,4) TrueI assms(2-4)], goal_cases)
    case (1 s')
    then have "ns_index (Some ns) T 0 = None" by (simp add: kv_clear_def)
    moreover have "kv_map T k = None" if "fst k = ns" for k using calculation that by (simp add: kv_map_def)
    ultimately show ?case using kv_stateI [OF 1(2) d(2,4,3)] kv_frameI [OF 1(2)] by (auto simp: status_of_def)
  next
    case (2 T' m' s')
    note c = kv_clear_map [OF d(4) 2(1)]
    have "kv_state E cfg C tbl base s' T'" by (rule kv_stateI [OF 2(2) d(2) 2(3)]) (simp add: c(2) d(3))
    then show ?case using c(1) 2(1) kv_frameI [OF 2(2,4)] by (auto simp: status_of_def kv_clear_def)
  qed
  then show ?thesis unfolding returns_def by auto
qed

theorem bK_clear_namespace_removes_witness:
  "\<exists>s1 s2 T2. bk_write_data kv_conf sim_env (\<lambda>_. True) (Some (cstr ''wifi'')) (Some (cstr ''ssid'')) (Some [7]) 1 kv_hal = Some (status kNoErr, s1)
    \<and> bK_clear_namespace kv_conf sim_env (\<lambda>_. True) (Some (cstr ''wifi'')) s1 = Some (status kNoErr, s2)
    \<and> kv_state sim_env sim_cfg kv_conf kv_tbl 0x1e2000 s2 T2 \<and> kv_map T2 (cstr ''wifi'', cstr ''ssid'') = None"
proof -
  obtain s1 T1 where s1: "bk_write_data kv_conf sim_env (\<lambda>_. True) (Some (cstr ''wifi'')) (Some (cstr ''ssid'')) (Some [7]) 1 kv_hal = Some (status kNoErr, s1)"
    "kv_state sim_env sim_cfg kv_conf kv_tbl 0x1e2000 s1 T1" "kv_map T1 (cstr ''wifi'', cstr ''ssid'') = Some [7]"
    using kv_sim_written [of "[7]"] by auto
  have ns: "cstr ''wifi'' \<noteq> cstr ''chip-config''" "cstr ''wifi'' \<noteq> cstr ''chip-counters''" by (simp_all add: cstr_def)
  have "ns_index (Some (cstr ''wifi'')) T1 0 \<noteq> None" using s1(3) by (auto simp: kv_map_def split: option.split_asm)
  then have st: "status_of (ns_index (Some (cstr ''wifi'')) T1 0 \<noteq> None) = status kNoErr" by (simp add: status_of_def)
  obtain s2 T2 where "bK_clear_namespace kv_conf sim_env (\<lambda>_. True) (Some (cstr ''wifi'')) s1 = Some (status kNoErr, s2)"
    "kv_state sim_env sim_cfg kv_conf kv_tbl 0x1e2000 s2 T2" "\<forall>k. kv_map T2 k = (if fst k = cstr ''wifi'' then None else kv_map T1 k)"
    using bK_clear_namespace_removes [OF s1(2) kv_sim_key(2) ns] unfolding st by blast
  moreover have "kv_map T2 (cstr ''wifi'', cstr ''ssid'') = None" using calculation(3) by simp
  ultimately show ?thesis using s1(1) by blast
qed

section \<open>Long values, long names and the factory namespace\<close>

lemma set_name_data_overflow:
  assumes at: "kv_at E cfg tbl p m s" "named cfg p" and rep: "block_rep m d b sl" and lay: "layout cfg d b" and mem: "\<And>x. mem x"
    and j: "slot_index k sl 0 = Some j" "2048 < length (slot_val (sl ! j))"
    and addr: "get_falsh_name_space_max_array C ns s = Some mx" "base + n_off = of_nat d"
      "base + blk * FLASH_SECTOR_SIZE + NAME_FLASH_DATA_BASE_ADDR mx = of_nat b"
  shows "bk_set_name_data C E mem ns k base buf len n_off blk s = None"
proof -
  have l: "unat (flash_size cfg) \<le> 2 ^ 24" "d + 4096 \<le> b" "b + 4096 \<le> unat (flash_size cfg)"
    using at lay by (auto simp: kv_at_def chip_ok_def layout_def)
  have ad: "unat (of_nat d :: u32) = d" using l by (auto intro!: unat_of_nat32)
  note rd = slot_reads [OF rep slot_index_SomeD(2) [OF j(1)] lay l(1)]
  have "returns (get_name_addr E mem (Some k) (of_nat d) s) (\<lambda>(r, t). r = Some (of_nat j * 64, of_nat (slot_off sl j)) \<and> kv_at E cfg tbl p m t)"
    by (rule get_name_addr_rule [OF at, where b = b and sl = sl]) (use rep ad l mem j(1) in simp_all)
  then obtain s1 where s1: "get_name_addr E mem (Some k) (of_nat d) s = Some (Some (of_nat j * 64, of_nat (slot_off sl j)), s1)" "kv_at E cfg tbl p m s1"
    by (auto simp: returns_def)
  have "returns (open_unprotected E s1) (\<lambda>(r, t). kv_at E cfg tbl (protect_none cfg) m t)"
    by (rule open_unprotected_rule [OF s1(2)]) simp
  then obtain f s2 where s2: "open_unprotected E s1 = Some (f, s2)" "kv_at E cfg tbl (protect_none cfg) m s2" by (auto simp: returns_def)
  have "returns (flash_ddev_read E 64 (of_nat d + of_nat j * 64) s2) (\<lambda>(r, t). name_of r = entry (slot_off sl j) (sl ! j) \<and> kv_at E cfg tbl (protect_none cfg) m t)"
    by (rule read_rule [OF s2(2)]) (use rd in simp_all)
  then obtain bs s3 where s3: "flash_ddev_read E 64 (of_nat d + of_nat j * 64) s2 = Some (bs, s3)" "name_of bs = entry (slot_off sl j) (sl ! j)"
    "kv_at E cfg tbl (protect_none cfg) m s3" by (auto simp: returns_def)
  have "returns (flash_ddev_read E (of_nat (length (slot_val (sl ! j)))) (of_nat b + of_nat (slot_off sl j)) s3) (\<lambda>(r, t). r = slot_val (sl ! j))"
    by (rule read_rule [OF s3(3)]) (use rd in simp_all)
  then obtain s4 where s4: "flash_ddev_read E (of_nat (length (slot_val (sl ! j)))) (of_nat b + of_nat (slot_off sl j)) s3 = Some (slot_val (sl ! j), s4)"
    by (auto simp: returns_def)
  show ?thesis
    unfolding bk_set_name_data_def Let_def addr(1) bind.bind_lunit addr(2,3)
    using s1(1) s2(1) s3(1,2) s4 j(2) by (simp add: buf_put_def)
qed

text \<open>
  (C31) \<open>bk_write_data\<close> accepts values of up to 4095 bytes, but the old value is read into a buffer of
  2048 bytes on the stack before it is replaced: the next write under a key whose value is longer,
  whatever its data, runs over the end of that buffer.
\<close>

theorem bk_write_data_long_value:
  assumes "kv_state E cfg C tbl base s T" and "key_of ns nm k" and "ns \<noteq> cstr ''chip-factory''"
    and "kv_map T k = Some w" and "2048 < length w"
  shows "bk_write_data C E (\<lambda>_. True) (Some ns) (Some nm) (Some data) len s = None"
proof -
  note d = kv_stateD [OF assms(1)]
  obtain ns' nm' where k: "k = (ns', nm')" by (cases k)
  have kk: "beken_names ns (Some nm) = Some (ns', Some nm')" using assms(2) by (auto simp: key_of_def k)
  have part: "store_part cfg C tbl (matter_partition ns') base (length T)" using d(3) key_partition [OF assms(2,3)] by (simp add: k)
  obtain i where i: "ns_index (Some ns') T 0 = Some i" using assms(4) by (auto simp: kv_map_def k split: option.split_asm)
  note e = table_rep_at [OF d(4) i] and ad = block_addrs [OF part table_rep_at(1) [OF d(4) i]]
  obtain j where j: "slot_index nm' (snd (T ! i)) 0 = Some j" using assms(4) e(6) slot_index_None [of nm' "snd (T ! i)"] by (auto simp: k)
  have long: "2048 < length (slot_val (snd (T ! i) ! j))" using slot_index_Some(1) [OF e(4) j] e(6) assms(4,5) by (simp add: k)
  have "returns (get_namespace_addr C E (\<lambda>_. True) ns' (of_nat base) s)
    (\<lambda>(r, t). r = Some (of_nat i * NAME_FLASH_TOTAL_SIZE + NAME_SPACE_FLASH_TOTAL_SIZE, of_nat i) \<and> kv_at E cfg tbl (hal_protect E cfg s) (hal_mem E s) t)"
    by (rule get_namespace_addr_rule [OF d(1,2) part d(4)]) (simp_all add: i)
  then obtain s1 where s1: "get_namespace_addr C E (\<lambda>_. True) ns' (of_nat base) s
      = Some (Some (of_nat i * NAME_FLASH_TOTAL_SIZE + NAME_SPACE_FLASH_TOTAL_SIZE, of_nat i), s1)"
    "kv_at E cfg tbl (hal_protect E cfg s) (hal_mem E s) s1" by (auto simp: returns_def)
  have "bk_set_name_data C E (\<lambda>_. True) ns' nm' (of_nat base) data len (of_nat i * NAME_FLASH_TOTAL_SIZE + NAME_SPACE_FLASH_TOTAL_SIZE) (of_nat i) s1 = None"
    by (rule set_name_data_overflow [OF s1(2) d(2) e(3) ad(1) TrueI j long store_part_base(2) [OF s1(2) part] ad(2,4)])
  then show ?thesis
    unfolding bk_write_data_def using assms(3) s1(1) kk store_part_base(1) [OF d(1) part] by simp
qed

theorem bk_write_data_long_value_witness:
  "\<exists>s1. bk_write_data kv_conf sim_env (\<lambda>_. True) (Some (cstr ''wifi'')) (Some (cstr ''ssid'')) (Some (replicate 3000 0)) 3000 kv_hal = Some (status kNoErr, s1)
    \<and> bk_write_data kv_conf sim_env (\<lambda>_. True) (Some (cstr ''wifi'')) (Some (cstr ''ssid'')) (Some [1]) 1 s1 = None"
proof -
  obtain s1 T1 where s1: "bk_write_data kv_conf sim_env (\<lambda>_. True) (Some (cstr ''wifi'')) (Some (cstr ''ssid'')) (Some (replicate 3000 0)) 3000 kv_hal = Some (status kNoErr, s1)"
    "kv_state sim_env sim_cfg kv_conf kv_tbl 0x1e2000 s1 T1" "kv_map T1 (cstr ''wifi'', cstr ''ssid'') = Some (replicate 3000 0)"
    using kv_sim_written [of "replicate 3000 0"] by auto
  show ?thesis using bk_write_data_long_value [OF s1(2) kv_sim_key(1,2) s1(3), of "[1]" 1] s1(1) by simp
qed

text \<open>A namespace that the store keeps for the factory data is only read.\<close>

lemma factory_read_only:
  "bk_write_data C E mem (Some (cstr ''chip-factory'')) (Some nm) (Some data) len s = Some (status kGeneralErr, s)"
  "bk_clean_data C E mem (Some (cstr ''chip-factory'')) (Some nm) s = Some (status kGeneralErr, s)"
  "bK_clear_namespace C E mem (Some (cstr ''chip-factory'')) s = Some (status kGeneralErr, s)"
  by (simp_all add: bk_write_data_def bk_clean_data_def bK_clear_namespace_def)

text \<open>
  A name of 52 or more characters is cut off when it is stored and compared with its whole length
  when it is searched: no well-formed block has it, whatever was written.
\<close>

lemma long_name_not_found:
  assumes "block_rep m d b sl" "52 \<le> length k"
  shows "name_loop (mem_slice m d 4096) k FLASH_NAME_MAX_ARRAY 0 = Some None"
proof -
  have "slot_index k sl 0 = None"
    using assms by (fastforce simp: slot_index_None kmap_None block_rep_def name_ok_def)
  then show ?thesis using name_loop_index [OF assms(1), of 0 64 k] by (simp add: FLASH_NAME_MAX_ARRAY_def)
qed

text \<open>
  \<open>chip-config\<close> and \<open>chip-counters\<close>: the check of the buffer length counts neither the dot nor the
  terminating zero.
\<close>

lemma config_name_overflow:
  assumes "length nm = 52 \<or> length nm = 53"
  shows "beken_names (cstr ''chip-config'') (Some nm) = None"
  using assms by (auto simp: beken_names_def change_namespace_to_beken_def move_namespace_def cstr_def)

text \<open>\<open>bk_ensure_namespace\<close> has no name to pass on, and dereferences the missing one for these namespaces.\<close>

lemma ensure_config_namespace:
  "bk_ensure_namespace C E mem (Some (cstr ''chip-config'')) s = None" "bk_ensure_namespace C E mem (Some (cstr ''chip-counters'')) s = None"
  by (simp_all add: bk_ensure_namespace_def change_namespace_to_beken_def move_namespace_def)

lemma kv_map_add_namespace:
  assumes rep: "table_rep m base T" and i: "ns_index None T 0 = Some i" and ns: "ns_index (Some ns) T 0 = None"
    and rep': "table_rep m' base (T[i := (Some ns, [])])"
  shows "kv_map (T[i := (Some ns, [])]) = kv_map T"
proof
  fix k
  note ii = ns_index_SomeD [OF i]
  have "snd (T ! i) = []" using rep ii by (simp add: table_rep_def)
  then have "kv_map (T[i := (Some ns, [])]) k = (if fst k = ns then kmap [] (snd k) else kv_map T k)"
    using kv_map_update [OF table_rep_unique [OF rep] ii(1) _ table_rep_unique [OF rep']] ii(2) ns by blast
  then show "kv_map (T[i := (Some ns, [])]) k = kv_map T k" using ns by (auto simp: kv_map_def)
qed

text \<open>\<open>bk_ensure_namespace\<close> makes sure that the namespace exists and changes no value.\<close>

lemma bk_ensure_namespace_state:
  assumes st: "kv_state E cfg C tbl base s T"
    and ns: "ns_ok ns" "ns \<noteq> cstr ''chip-factory''" "ns \<noteq> cstr ''chip-config''" "ns \<noteq> cstr ''chip-counters''"
  shows "\<exists>s' T'. bk_ensure_namespace C E (\<lambda>_. True) (Some ns) s
      = Some (status_of (ns_index (Some ns) T 0 \<noteq> None \<or> ns_index None T 0 \<noteq> None), s')
    \<and> kv_state E cfg C tbl base s' T' \<and> kv_frame E cfg base T s s' \<and> kv_map T' = kv_map T"
proof -
  note d = kv_stateD [OF st]
  have part: "store_part cfg C tbl (matter_partition ns) base (length T)" using d(3) ns(2) by (simp add: matter_partition_def)
  have ch: "change_namespace_to_beken ns None 64 = Some (of_int kNoErr, ns, None)" using ns(3,4) by (simp add: change_namespace_to_beken_def)
  have same: "\<exists>T'. kv_state E cfg C tbl base t T' \<and> kv_frame E cfg base T s t \<and> kv_map T' = kv_map T"
    if "kv_at E cfg tbl (hal_protect E cfg s) (hal_mem E s) t" for t
    using kv_stateI [OF that d(2,4,3)] kv_frameI [OF that] by auto
  have "returns (bk_ensure_namespace C E (\<lambda>_. True) (Some ns) s)
    (\<lambda>(r, s'). r = status_of (ns_index (Some ns) T 0 \<noteq> None \<or> ns_index None T 0 \<noteq> None)
      \<and> (\<exists>T'. kv_state E cfg C tbl base s' T' \<and> kv_frame E cfg base T s s' \<and> kv_map T' = kv_map T))" (is "returns _ ?Q")
  proof (cases "ns_index (Some ns) T 0")
    case (Some i)
    then show ?thesis
      unfolding bk_ensure_namespace_def using same
      by (auto simp: ch store_part_base(1) [OF d(1) part] status_of_def intro!: returns_bind get_namespace_addr_rule [OF d(1,2) part d(4)])
  next
    case None
    show ?thesis
      unfolding bk_ensure_namespace_def
      apply (simp only: option.case ch bind.bind_lunit prod.case store_part_base(1) [OF d(1) part])
      apply (rule returns_bind, rule get_namespace_addr_rule [OF d(1,2) part d(4)], simp)
      apply (simp only: None option.map option.case prod.case)
      apply (rule returns_bind, erule set_namespace_rule [OF _ d(2) part d(4) ns(1) None], simp)
      subgoal using same by (simp add: None status_of_def)
      subgoal for s1 i m' s'
        using kv_stateI [of E cfg tbl "hal_protect E cfg s" m' s' base "T[i := (Some ns, [])]" C] d(2,3)
          kv_map_add_namespace [OF d(4) _ None, of i m'] kv_frameI [of E cfg tbl s m' s' base T]
        by (auto simp: status_of_def)
      done
  qed
  then show ?thesis unfolding returns_def by auto
qed

text \<open>\<open>bk_ensure_name_data\<close> tells whether the key has a value.\<close>

lemma bk_ensure_name_data_state:
  assumes st: "kv_state E cfg C tbl base s T" and key: "key_of ns nm k" "ns \<noteq> cstr ''chip-factory''"
  shows "\<exists>s'. bk_ensure_name_data C E (\<lambda>_. True) (Some ns) (Some nm) s = Some (status_of (kv_map T k \<noteq> None), s')
    \<and> kv_state E cfg C tbl base s' T \<and> hal_mem E s' = hal_mem E s"
proof -
  note d = kv_stateD [OF st]
  obtain ns' nm' where k: "k = (ns', nm')" by (cases k)
  have kk: "beken_names ns (Some nm) = Some (ns', Some nm')" using key(1) by (auto simp: key_of_def k)
  have part: "store_part cfg C tbl (matter_partition ns') base (length T)" using d(3) key_partition [OF key] by (simp add: k)
  have fin: "kv_state E cfg C tbl base t T \<and> hal_mem E t = hal_mem E s" if "kv_at E cfg tbl (hal_protect E cfg s) (hal_mem E s) t" for t
    using kv_stateI [OF that d(2,4,3)] that by (simp add: kv_at_def)
  have "returns (bk_ensure_name_data C E (\<lambda>_. True) (Some ns) (Some nm) s)
    (\<lambda>(r, s'). r = status_of (kv_map T k \<noteq> None) \<and> kv_state E cfg C tbl base s' T \<and> hal_mem E s' = hal_mem E s)"
  proof (cases "ns_index (Some ns') T 0")
    case None
    then have "kv_map T k = None" by (simp add: kv_map_def k)
    then show ?thesis
      unfolding bk_ensure_name_data_def using fin None
      by (auto simp: kk store_part_base(1) [OF d(1) part] status_of_def intro!: returns_bind get_namespace_addr_rule [OF d(1,2) part d(4)])
  next
    case (Some i)
    note e = table_rep_at [OF d(4) Some] and ad = block_addrs [OF part table_rep_at(1) [OF d(4) Some]]
    have km: "slot_index nm' (snd (T ! i)) 0 = None \<longleftrightarrow> kv_map T k = None" using e(6) by (simp add: slot_index_None k)
    show ?thesis
      unfolding bk_ensure_name_data_def
      apply (simp only: option.case kk bind.bind_lunit prod.case store_part_base(1) [OF d(1) part])
      apply (rule returns_bind, rule get_namespace_addr_rule [OF d(1,2) part d(4)], simp)
      apply (simp only: Some option.map option.case prod.case ad(2))
      apply (rule returns_bind, erule get_in_table_rule [OF _ d(2) part d(4) TrueI Some])
      using fin km by (auto simp: status_of_def)
  qed
  then show ?thesis unfolding returns_def by auto
qed

section \<open>The image of an update\<close>

text \<open>Data of an update that is written to a range of the OTA partition that was erased is read back.\<close>

lemma ota_roundtrip:
  assumes at: "kv_at E cfg tbl p m s" "named cfg p"
    and a: "unat (partition_start_addr (tbl BK_PARTITION_OTA) + off) = a" "a < unat (flash_size cfg)" "a + length data \<le> unat (flash_size cfg)"
    and free: "\<And>j. j < length data \<Longrightarrow> m (a + j) = 0xFF"
  shows "\<exists>s1 s2. bk_write_ota_data_to_flash C E (Some data) off (of_nat (length data)) s = Some (status kNoErr, s1)
    \<and> bk_read_ota_data_in_flash C E True off (of_nat (length data)) s1 = Some (status kNoErr, data, s2)"
proof -
  have v: "BkFlashPartitionIsValid C BK_PARTITION_OTA \<noteq> 0" by simp
  have lim: "unat (flash_size cfg) \<le> 2 ^ 24" and tbl: "bk7231_partitions s = Some tbl" using at(1) by (auto simp: kv_at_def chip_ok_def)
  then have n: "unat (of_nat (length data) :: u32) = length data" using a(3) by (intro unat_of_nat32) simp
  let ?m = "prog m a data"
  have "returns (bk_write_ota_data_to_flash C E (Some data) off (of_nat (length data)) s) (\<lambda>(r, s'). r = status kNoErr \<and> kv_at E cfg tbl p ?m s')"
    unfolding bk_write_ota_data_to_flash_def option.case bk_flash_get_info_tbl [OF tbl v] bind.bind_lunit
    apply (rule returns_bind, rule open_unprotected_rule [OF at(1)], simp only: prod.case)
    apply (rule returns_bind, erule write_rule)
    using a at(2) by (auto simp: n intro!: kv_rules)
  then obtain s1 where s1: "bk_write_ota_data_to_flash C E (Some data) off (of_nat (length data)) s = Some (status kNoErr, s1)" "kv_at E cfg tbl p ?m s1"
    by (auto simp: returns_def)
  have tbl1: "bk7231_partitions s1 = Some tbl" using s1(2) by (simp add: kv_at_def)
  have "returns (bk_read_ota_data_in_flash C E True off (of_nat (length data)) s1) (\<lambda>(r, bs, s'). r = status kNoErr \<and> bs = data)"
    unfolding bk_read_ota_data_in_flash_def partition_store(1) [OF tbl1 v] bk_flash_abs_addr_read_def
    using a s1(2) prog_erased [of data m a, OF free] by (auto simp: n intro!: kv_rules)
  then show ?thesis using s1(1) by (auto simp: returns_def)
qed

end
