(* ===== verification/Multi_Button.thy ===== *)
theory Multi_Button
  imports Prelude
begin

text \<open>
  The push buttons: \<open>func/key/multi_button.c\<close>, which debounces the level of a pin and turns it into
  press, click and long-press events, and the configuration of a key in \<open>func/key/key_main.c\<close>.

  The handles form a linked list in the heap, a map from addresses to \<open>BUTTON_S\<close>; a pointer is
  \<open>None\<close> for \<open>NULL\<close>, and an access to an address that is not allocated is \<open>None\<close>. A callback of the
  application is a call recorded in the log; that it is registered is a flag. The level of the pins
  is an argument of every function that reads them.
\<close>

section \<open>Handles\<close>

datatype PRESS_EVT = PRESS_DOWN | PRESS_UP | PRESS_REPEAT | SINGLE_CLICK | DOUBLE_CLICK | LONG_PRESS_START
  | LONG_PRESS_HOLD | NONE_PRESS

type_synonym addr = u32

record BUTTON_S =
  ticks :: u16
  btn_repeat :: "4 word"
  btn_event :: PRESS_EVT
  btn_state :: "3 word"
  debounce_cnt :: "3 word"
  active_level :: "1 word"
  button_level :: "1 word"
  user_data :: u32
  btn_cb :: "PRESS_EVT \<Rightarrow> bool"
  btn_next :: "addr option"

definition DEBOUNCE_TICKS :: "3 word" where "DEBOUNCE_TICKS = 6"
definition SHORT_TICKS :: u16 where "SHORT_TICKS = 80"
definition LONG_TICKS :: u16 where "LONG_TICKS = 200"

definition button_init :: "u8 \<Rightarrow> u8 \<Rightarrow> u32 \<Rightarrow> BUTTON_S" where
  "button_init level active data =
     \<lparr>ticks = 0, btn_repeat = 0, btn_event = NONE_PRESS, btn_state = 0, debounce_cnt = 0,
      active_level = ucast active, button_level = ucast level, user_data = data, btn_cb = (\<lambda>_. False), btn_next = None\<rparr>"

definition button_attach :: "PRESS_EVT \<Rightarrow> bool \<Rightarrow> BUTTON_S \<Rightarrow> BUTTON_S" where
  "button_attach ev f b = b\<lparr>btn_cb := (btn_cb b)(ev := f)\<rparr>"

definition button_get_event :: "BUTTON_S \<Rightarrow> PRESS_EVT" where
  "button_get_event b = btn_event b"

section \<open>State machine\<close>

text \<open>\<open>EVENT_CB(ev)\<close>: the calls made.\<close>

definition EVENT_CB :: "BUTTON_S \<Rightarrow> PRESS_EVT \<Rightarrow> PRESS_EVT list" where
  "EVENT_CB b ev = (if btn_cb b ev then [ev] else [])"

definition debounce :: "u8 \<Rightarrow> BUTTON_S \<Rightarrow> BUTTON_S" where
  "debounce read_gpio_level b =
     (if read_gpio_level \<noteq> ucast (button_level b) then
        (let b = b\<lparr>debounce_cnt := debounce_cnt b + 1\<rparr> in
         if debounce_cnt b \<ge> DEBOUNCE_TICKS then b\<lparr>button_level := ucast read_gpio_level, debounce_cnt := 0\<rparr> else b)
      else b\<lparr>debounce_cnt := 0\<rparr>)"

definition button_switch :: "BUTTON_S \<Rightarrow> PRESS_EVT list \<times> BUTTON_S" where
  "button_switch b =
     (if btn_state b = 0 then
        if button_level b = active_level b
        then (EVENT_CB b PRESS_DOWN, b\<lparr>btn_event := PRESS_DOWN, ticks := 0, btn_repeat := 1, btn_state := 1\<rparr>)
        else ([], b\<lparr>btn_event := NONE_PRESS\<rparr>)
      else if btn_state b = 1 then
        if button_level b \<noteq> active_level b
        then (EVENT_CB b PRESS_UP, b\<lparr>btn_event := PRESS_UP, ticks := 0, btn_state := 2\<rparr>)
        else if ticks b > LONG_TICKS
        then (EVENT_CB b LONG_PRESS_START, b\<lparr>btn_event := LONG_PRESS_START, btn_state := 5\<rparr>)
        else ([], b)
      else if btn_state b = 2 then
        if button_level b = active_level b
        then (let b' = b\<lparr>btn_event := PRESS_DOWN, btn_repeat := btn_repeat b + 1\<rparr> in
              (EVENT_CB b PRESS_DOWN @ (if btn_repeat b' = 2 then EVENT_CB b DOUBLE_CLICK else []) @ EVENT_CB b PRESS_REPEAT,
               b'\<lparr>ticks := 0, btn_state := 3\<rparr>))
        else if ticks b > SHORT_TICKS
        then if btn_repeat b = 1 then (EVENT_CB b SINGLE_CLICK, b\<lparr>btn_event := SINGLE_CLICK, btn_state := 0\<rparr>)
             else if btn_repeat b = 2 then ([], b\<lparr>btn_event := DOUBLE_CLICK, btn_state := 0\<rparr>)
             else ([], b\<lparr>btn_state := 0\<rparr>)
        else ([], b)
      else if btn_state b = 3 then
        if button_level b \<noteq> active_level b
        then (EVENT_CB b PRESS_UP,
              if ticks b < SHORT_TICKS then b\<lparr>btn_event := PRESS_UP, ticks := 0, btn_state := 2\<rparr>
              else b\<lparr>btn_event := PRESS_UP, btn_state := 0\<rparr>)
        else ([], b)
      else if btn_state b = 5 then
        if button_level b = active_level b
        then (EVENT_CB b LONG_PRESS_HOLD, b\<lparr>btn_event := LONG_PRESS_HOLD\<rparr>)
        else (EVENT_CB b PRESS_UP, b\<lparr>btn_event := PRESS_UP, btn_state := 0\<rparr>)
      else ([], b))"

definition button_handler :: "u8 \<Rightarrow> BUTTON_S \<Rightarrow> PRESS_EVT list \<times> BUTTON_S" where
  "button_handler read_gpio_level b =
     (let b = (if btn_state b > 0 then b\<lparr>ticks := ticks b + 1\<rparr> else b) in
      button_switch (debounce read_gpio_level b))"

section \<open>List of handles\<close>

text \<open>The heap, the list head and the calls made, each with the handle it is made for.\<close>

record key_st =
  key_heap :: "addr \<Rightarrow> BUTTON_S option"
  head_handle :: "addr option"
  key_log :: "(addr \<times> PRESS_EVT) list"

text \<open>The loop of \<open>button_start\<close>: whether the handle is in the list.\<close>

partial_function (option) list_has :: "(addr \<Rightarrow> BUTTON_S option) \<Rightarrow> addr \<Rightarrow> addr option \<Rightarrow> bool option" where
  "list_has h handle target =
     (case target of None \<Rightarrow> Some False
      | Some t \<Rightarrow> if t = handle then Some True else h t \<bind> (\<lambda>b. list_has h handle (btn_next b)))"

definition button_start :: "addr \<Rightarrow> key_st \<Rightarrow> (int \<times> key_st) option" where
  "button_start handle s = do {
     present \<leftarrow> list_has (key_heap s) handle (head_handle s);
     if present then Some (-1, s)
     else do {
       b \<leftarrow> key_heap s handle;
       Some (0, s\<lparr>key_heap := (key_heap s)(handle \<mapsto> b\<lparr>btn_next := head_handle s\<rparr>), head_handle := Some handle\<rparr>) } }"

text \<open>\<open>BUTTON_S **curr\<close>: the address of \<open>head_handle\<close> or of the \<open>next\<close> field of a handle.\<close>

datatype link = Head | Next addr

definition deref :: "link \<Rightarrow> key_st \<Rightarrow> addr option option" where
  "deref c s = (case c of Head \<Rightarrow> Some (head_handle s) | Next a \<Rightarrow> map_option btn_next (key_heap s a))"

definition set_link :: "link \<Rightarrow> addr option \<Rightarrow> key_st \<Rightarrow> key_st option" where
  "set_link c v s = (case c of
     Head \<Rightarrow> Some (s\<lparr>head_handle := v\<rparr>)
   | Next a \<Rightarrow> map_option (\<lambda>b. s\<lparr>key_heap := (key_heap s)(a \<mapsto> b\<lparr>btn_next := v\<rparr>)\<rparr>) (key_heap s a))"

partial_function (option) stop_loop :: "addr \<Rightarrow> link \<Rightarrow> key_st \<Rightarrow> key_st option" where
  "stop_loop handle cur s =
     deref cur s \<bind> (\<lambda>p. case p of
        None \<Rightarrow> Some s
      | Some e \<Rightarrow>
          if e = handle then key_heap s e \<bind> (\<lambda>b. set_link cur (btn_next b) s \<bind> stop_loop handle cur)
          else stop_loop handle (Next e) s)"

definition button_stop :: "addr \<Rightarrow> key_st \<Rightarrow> key_st option" where
  "button_stop handle s = stop_loop handle Head s"

partial_function (option) find_loop :: "(addr \<Rightarrow> BUTTON_S option) \<Rightarrow> u32 \<Rightarrow> addr option \<Rightarrow> addr option option" where
  "find_loop h data p =
     (case p of None \<Rightarrow> Some None
      | Some e \<Rightarrow> h e \<bind> (\<lambda>b. if user_data b = data then Some (Some e) else find_loop h data (btn_next b)))"

definition button_find_with_user_data :: "u32 \<Rightarrow> key_st \<Rightarrow> addr option option" where
  "button_find_with_user_data data s = find_loop (key_heap s) data (head_handle s)"

text \<open>The timer callback; \<open>lv\<close> gives the level that \<open>hal_button_Level\<close> reads for a handle.\<close>

partial_function (option) ticks_loop :: "(addr \<Rightarrow> u8) \<Rightarrow> addr option \<Rightarrow> key_st \<Rightarrow> key_st option" where
  "ticks_loop lv target s =
     (case target of None \<Rightarrow> Some s
      | Some t \<Rightarrow> key_heap s t \<bind> (\<lambda>b. case button_handler (lv t) b of (evs, b') \<Rightarrow>
          ticks_loop lv (btn_next b')
            (s\<lparr>key_heap := (key_heap s)(t \<mapsto> b'), key_log := key_log s @ map (Pair t) evs\<rparr>)))"

definition button_ticks :: "(addr \<Rightarrow> u8) \<Rightarrow> key_st \<Rightarrow> key_st option" where
  "button_ticks lv s = ticks_loop lv (head_handle s) s"

section \<open>Keys\<close>

definition kNoMemoryErr :: int where "kNoMemoryErr = -6728"

text \<open>
  \<open>key_item_configure\<close> of a board with one pin per key. \<open>handle\<close> is the result of \<open>os_malloc\<close>,
  \<open>level\<close> the level of the pin, and the four flags say which callbacks are not \<open>NULL\<close>.
\<close>

definition key_item_configure ::
  "addr option \<Rightarrow> u8 \<Rightarrow> u32 \<Rightarrow> bool \<Rightarrow> bool \<Rightarrow> bool \<Rightarrow> bool \<Rightarrow> key_st \<Rightarrow> (int \<times> key_st) option" where
  "key_item_configure handle level gpio short_press double_press long_press hold_press s =
     (case handle of None \<Rightarrow> Some (kNoMemoryErr, s)
      | Some a \<Rightarrow> do {
          let b = button_init level 0 gpio;
          let b = button_attach SINGLE_CLICK short_press b;
          let b = button_attach DOUBLE_CLICK double_press b;
          let b = button_attach LONG_PRESS_START long_press b;
          let b = button_attach LONG_PRESS_HOLD hold_press b;
          (result, s) \<leftarrow> button_start a (s\<lparr>key_heap := (key_heap s)(a \<mapsto> b)\<rparr>);
          if result < 0 then Some (-1, s\<lparr>key_heap := (key_heap s)(a := None)\<rparr>) else Some (0, s) })"

partial_function (option) unconf_loop :: "u32 \<Rightarrow> key_st \<Rightarrow> key_st option" where
  "unconf_loop gpio s =
     button_find_with_user_data gpio s \<bind> (\<lambda>p. case p of
        None \<Rightarrow> Some s
      | Some a \<Rightarrow> button_stop a s \<bind> (\<lambda>s. unconf_loop gpio (s\<lparr>key_heap := (key_heap s)(a := None)\<rparr>)))"

definition key_item_unconfigure :: "u32 \<Rightarrow> key_st \<Rightarrow> (int \<times> key_st) option" where
  "key_item_unconfigure gpio s = map_option (Pair 0) (unconf_loop gpio s)"

end
