(* ===== verification/Multi_Button_Props.thy ===== *)
theory Multi_Button_Props
  imports Multi_Button
begin

text \<open>
  The button state machine over time: its invariant, the events of a press of any duration and of
  quick presses, as the application sees them.
\<close>

section \<open>One handle over time\<close>

text \<open>The handler on a sequence of samples, one per tick.\<close>

fun run_levels :: "u8 list \<Rightarrow> BUTTON_S \<Rightarrow> PRESS_EVT list \<times> BUTTON_S" where
  "run_levels [] b = ([], b)"
| "run_levels (l # ls) b = (case button_handler l b of (evs, b') \<Rightarrow>
     case run_levels ls b' of (evs', b'') \<Rightarrow> (evs @ evs', b''))"

lemma run_levels_append:
  "run_levels xs b = (e1, b1) \<Longrightarrow> run_levels ys b1 = (e2, b2) \<Longrightarrow> run_levels (xs @ ys) b = (e1 @ e2, b2)"
proof (induction xs arbitrary: b e1)
  case (Cons x xs)
  obtain ev bx where h: "button_handler x b = (ev, bx)" by (cases "button_handler x b")
  obtain er br where r: "run_levels xs bx = (er, br)" by (cases "run_levels xs bx")
  show ?case using Cons.prems Cons.IH [of bx er] h r by auto
qed simp

lemma run_levels_replicate_Suc:
  "button_handler l b = (e1, b1) \<Longrightarrow> run_levels (replicate k l) b1 = (e2, b2) \<Longrightarrow> run_levels (replicate (Suc k) l) b = (e1 @ e2, b2)"
  by simp

text \<open>The well-formed states: the state machine uses five of the eight codes, and the debounce counter stays below its limit.\<close>

definition button_wf :: "BUTTON_S \<Rightarrow> bool" where
  "button_wf b \<longleftrightarrow> btn_state b \<in> {0, 1, 2, 3, 5} \<and> debounce_cnt b < DEBOUNCE_TICKS
     \<and> (btn_state b = 1 \<longrightarrow> btn_repeat b = 1) \<and> (btn_state b = 5 \<longrightarrow> btn_repeat b = 1)"

lemma debounce_cnt_ok: "debounce_cnt b < DEBOUNCE_TICKS \<Longrightarrow> debounce_cnt (debounce l b) < DEBOUNCE_TICKS"
  by (auto simp: debounce_def DEBOUNCE_TICKS_def Let_def not_le)

lemma debounce_frame [simp]:
  "btn_state (debounce l b) = btn_state b" "ticks (debounce l b) = ticks b" "btn_repeat (debounce l b) = btn_repeat b"
  "active_level (debounce l b) = active_level b" "btn_cb (debounce l b) = btn_cb b" "btn_next (debounce l b) = btn_next b"
  "user_data (debounce l b) = user_data b" "btn_event (debounce l b) = btn_event b"
  by (auto simp: debounce_def Let_def)

lemma button_switch_frame:
  "button_switch b = (evs, b') \<Longrightarrow> btn_next b' = btn_next b \<and> user_data b' = user_data b \<and> btn_cb b' = btn_cb b
     \<and> active_level b' = active_level b \<and> button_level b' = button_level b \<and> debounce_cnt b' = debounce_cnt b \<and> set evs \<subseteq> {e. btn_cb b e}"
  by (auto simp: button_switch_def EVENT_CB_def Let_def split: if_split_asm)

lemma button_handler_frame:
  assumes "button_handler l b = (evs, b')"
  shows "btn_next b' = btn_next b" "user_data b' = user_data b" "btn_cb b' = btn_cb b" "active_level b' = active_level b"
  using button_switch_frame [OF assms [unfolded button_handler_def Let_def]] by auto

lemma button_handler_wf:
  assumes "button_wf b" "button_handler l b = (evs, b')"
  shows "button_wf b'"
proof -
  let ?d = "debounce l (if btn_state b > 0 then b\<lparr>ticks := ticks b + 1\<rparr> else b)"
  have d: "button_wf ?d" using assms(1) debounce_cnt_ok [of _ l] by (auto simp: button_wf_def)
  have s: "button_switch ?d = (evs, b')" using assms(2) by (simp add: button_handler_def Let_def)
  then have "debounce_cnt b' = debounce_cnt ?d" using button_switch_frame by blast
  moreover have "btn_state b' \<in> {0, 1, 2, 3, 5} \<and> (btn_state b' = 1 \<longrightarrow> btn_repeat b' = 1) \<and> (btn_state b' = 5 \<longrightarrow> btn_repeat b' = 1)"
    using d s by (auto simp: button_switch_def button_wf_def Let_def split: if_split_asm)
  ultimately show ?thesis using d by (simp add: button_wf_def)
qed

text \<open>
  (C35) Invariant of the button state machine: in every state that the handler reaches from
  \<open>button_init\<close>, whatever the samples, the state is one of the five that the \<open>switch\<close> handles and
  the debounce counter is below \<open>DEBOUNCE_TICKS\<close>.
\<close>

theorem button_reaches_known_states:
  "btn_state (snd (run_levels ls (button_init level active data))) \<in> {0, 1, 2, 3, 5}
   \<and> debounce_cnt (snd (run_levels ls (button_init level active data))) < DEBOUNCE_TICKS"
proof -
  have "button_wf b \<Longrightarrow> button_wf (snd (run_levels ls b))" for b
  proof (induction ls arbitrary: b)
    case (Cons l ls)
    obtain ev b' where h: "button_handler l b = (ev, b')" by (cases "button_handler l b")
    then have "button_wf (snd (run_levels ls b'))" using button_handler_wf [OF Cons.prems] Cons.IH by blast
    then show ?case using h by (auto split: prod.split)
  qed simp
  moreover have "button_wf (button_init level active data)"
    by (simp add: button_wf_def button_init_def DEBOUNCE_TICKS_def)
  ultimately show ?thesis by (simp add: button_wf_def)
qed

section \<open>A press and its release\<close>

abbreviation on :: "BUTTON_S \<Rightarrow> 1 word" where "on b \<equiv> active_level b"
abbreviation off :: "BUTTON_S \<Rightarrow> 1 word" where "off b \<equiv> active_level b + 1"

lemma on_off [simp]: "(l :: 1 word) + 1 \<noteq> l" "(ucast (l + 1) :: u8) \<noteq> ucast l" "(ucast l :: u8) \<noteq> ucast (l + 1)"
  "ucast (ucast (l :: 1 word) :: u8) = l" "(l :: 1 word) + 1 + 1 = l"
proof -
  have "unat l < 2" using unat_lt_len [of l] by simp
  then have "unat l = unat (0 :: 1 word) \<or> unat l = unat (1 :: 1 word)" by auto
  then have "l = 0 \<or> l = 1" by (simp add: word_unat_eq_iff)
  then show "l + 1 \<noteq> l" "(ucast (l + 1) :: u8) \<noteq> ucast l" "(ucast l :: u8) \<noteq> ucast (l + 1)"
    "ucast (ucast l :: u8) = l" "l + 1 + 1 = l" by auto
qed


definition tick :: "BUTTON_S \<Rightarrow> BUTTON_S" where
  "tick b = (if btn_state b > 0 then b\<lparr>ticks := ticks b + 1\<rparr> else b)"

lemma tick_frame [simp]: "button_level (tick b) = button_level b" "debounce_cnt (tick b) = debounce_cnt b"
  "tick (b\<lparr>debounce_cnt := d\<rparr>) = (tick b)\<lparr>debounce_cnt := d\<rparr>"
  by (simp_all add: tick_def)

lemma handler_tick: "button_handler l b = button_switch (debounce l (tick b))"
  by (simp add: button_handler_def tick_def Let_def)

lemma same_sample: "button_handler (ucast (button_level b)) b = button_switch ((tick b)\<lparr>debounce_cnt := 0\<rparr>)"
  by (simp add: handler_tick debounce_def)

lemma count_below:
  assumes "d \<le> 5"
  shows "DEBOUNCE_TICKS \<le> of_nat d + 1 \<longleftrightarrow> d = 5"
proof -
  have "unat (of_nat (Suc d) :: 3 word) = Suc d" by (rule unat_of_nat_small) (use assms in simp)
  moreover have "unat (of_nat 6 :: 3 word) = 6" by (rule unat_of_nat_small) simp
  ultimately show ?thesis using assms by (auto simp: DEBOUNCE_TICKS_def word_le_nat_alt add.commute)
qed

lemma other_sample:
  assumes "debounce_cnt b = of_nat d" "d < 5"
  shows "button_handler (ucast (button_level b + 1)) b = button_switch ((tick b)\<lparr>debounce_cnt := of_nat (Suc d)\<rparr>)"
proof -
  have "(of_nat (Suc d) :: 3 word) = of_nat d + 1" by simp
  then show ?thesis using assms count_below [of d] by (simp only: handler_tick debounce_def Let_def) simp
qed

lemma flip_sample:
  assumes "debounce_cnt b = of_nat 5"
  shows "button_handler (ucast (button_level b + 1)) b = button_switch ((tick b)\<lparr>button_level := button_level b + 1, debounce_cnt := 0\<rparr>)"
  using assms count_below [of 5] by (simp only: handler_tick debounce_def Let_def) simp

text \<open>The state machine does not look at the debounce counter.\<close>

lemma switch_debounce: "button_switch (b\<lparr>debounce_cnt := d\<rparr>) = apsnd (\<lambda>b. b\<lparr>debounce_cnt := d\<rparr>) (button_switch b)"
  by (simp add: button_switch_def EVENT_CB_def Let_def)

lemma same_run_debounce:
  assumes "button_level b = l"
  shows "apsnd (debounce_cnt_update (\<lambda>_. d)) (run_levels (replicate k (ucast l)) (b\<lparr>debounce_cnt := x\<rparr>))
    = apsnd (debounce_cnt_update (\<lambda>_. d)) (run_levels (replicate k (ucast l)) b)"
proof (cases k)
  case (Suc n)
  have "button_handler (ucast l) (b\<lparr>debounce_cnt := x\<rparr>) = button_handler (ucast l) b"
    using same_sample [of b] same_sample [of "b\<lparr>debounce_cnt := x\<rparr>"] assms by simp
  then show ?thesis using Suc by simp
qed simp

lemma window:
  "button_level b = l \<Longrightarrow> debounce_cnt b = of_nat d \<Longrightarrow> d + k \<le> 5 \<Longrightarrow>
   run_levels (replicate k (ucast (l + 1))) b
     = apsnd (debounce_cnt_update (\<lambda>_. of_nat (d + k))) (run_levels (replicate k (ucast l)) b)"
proof (induction k arbitrary: b d)
  case (Suc k)
  let ?set = "\<lambda>d. debounce_cnt_update (\<lambda>_. d)"
  obtain es c where c: "button_switch (tick b) = (es, c)" by (cases "button_switch (tick b)")
  have l: "button_level c = l" using button_switch_frame [OF c] Suc.prems(1) by simp
  have h: "button_handler (ucast (l + 1)) b = (es, ?set (of_nat (Suc d)) c)"
    using other_sample [OF Suc.prems(2)] Suc.prems(1,3) c by (simp add: switch_debounce)
  have g: "button_handler (ucast l) b = (es, ?set 0 c)"
    using same_sample [of b] Suc.prems(1) c by (simp add: switch_debounce)
  have "run_levels (replicate k (ucast (l + 1))) (?set (of_nat (Suc d)) c)
      = apsnd (?set (of_nat (Suc d + k))) (run_levels (replicate k (ucast l)) (?set (of_nat (Suc d)) c))"
    by (rule Suc.IH) (use l Suc.prems(3) in auto)
  also have "\<dots> = apsnd (?set (of_nat (Suc d + k))) (run_levels (replicate k (ucast l)) (?set 0 c))"
    using same_run_debounce [OF l] by metis
  finally show ?case using h g by (simp add: apsnd_def map_prod_def split: prod.splits)
qed (auto simp: apsnd_def)

lemma run_same_level: "button_level b = l \<Longrightarrow> run_levels (replicate k (ucast l)) b = (es, c) \<Longrightarrow> button_level c = l"
proof (induction k arbitrary: b es)
  case (Suc k)
  obtain ev d where h: "button_handler (ucast l) b = (ev, d)" by (cases "button_handler (ucast l) b")
  have "button_level d = l"
    using button_switch_frame [of "(tick b)\<lparr>debounce_cnt := 0\<rparr>" ev d] same_sample [of b] h Suc.prems(1) by simp
  then show ?case using Suc.IH Suc.prems(2) h by (auto split: prod.splits)
qed simp

text \<open>Six samples of the other level: five that the debouncing absorbs, and the one that changes the level.\<close>

lemma six_samples:
  assumes "button_level b = l" "debounce_cnt b = 0" "run_levels (replicate 5 (ucast l)) b = (es, c)"
    "button_switch ((tick c)\<lparr>button_level := l + 1, debounce_cnt := 0\<rparr>) = (es', c')"
  shows "run_levels (replicate 6 (ucast (l + 1))) b = (es @ es', c')"
proof -
  have lc: "button_level c = l" by (rule run_same_level [OF assms(1,3)])
  have "run_levels (replicate 5 (ucast (l + 1))) b = (es, c\<lparr>debounce_cnt := of_nat 5\<rparr>)"
    using window [OF assms(1), of 0 5] assms(2,3) by simp
  moreover have "run_levels [ucast (l + 1)] (c\<lparr>debounce_cnt := of_nat 5\<rparr>) = (es', c')"
    using flip_sample [of "c\<lparr>debounce_cnt := of_nat 5\<rparr>"] assms(4) lc by simp
  moreover have "replicate 6 (ucast (l + 1) :: u8) = replicate 5 (ucast (l + 1)) @ [ucast (l + 1)]"
    by (simp add: replicate_append_same numeral_eq_Suc)
  ultimately show ?thesis using run_levels_append by metis
qed

text \<open>A handle with the fields of the state machine set.\<close>

definition at :: "BUTTON_S \<Rightarrow> 3 word \<Rightarrow> nat \<Rightarrow> 4 word \<Rightarrow> PRESS_EVT \<Rightarrow> 1 word \<Rightarrow> BUTTON_S" where
  "at b st t r e l = b\<lparr>btn_state := st, ticks := of_nat t, btn_repeat := r, btn_event := e, button_level := l, debounce_cnt := 0\<rparr>"

definition evs :: "BUTTON_S \<Rightarrow> PRESS_EVT list \<Rightarrow> PRESS_EVT list" where
  "evs b es = filter (btn_cb b) es"

lemma at_simps [simp]:
  "active_level (at b st t r e l) = active_level b" "btn_state (at b st t r e l) = st" "ticks (at b st t r e l) = of_nat t"
  "btn_repeat (at b st t r e l) = r" "debounce_cnt (at b st t r e l) = 0" "button_level (at b st t r e l) = l"
  "(at b st t r e l)\<lparr>btn_state := st'\<rparr> = at b st' t r e l" "(at b st t r e l)\<lparr>btn_repeat := r'\<rparr> = at b st t r' e l"
  "(at b st t r e l)\<lparr>btn_event := e'\<rparr> = at b st t r e' l" "(at b st t r e l)\<lparr>ticks := 0\<rparr> = at b st 0 r e l"
  "(at b st t r e l)\<lparr>button_level := l', debounce_cnt := 0\<rparr> = at b st t r e l'" "(at b st t r e l)\<lparr>debounce_cnt := 0\<rparr> = at b st t r e l"
  "EVENT_CB (at b st t r e l) ev = evs b [ev]"
  by (simp_all add: at_def EVENT_CB_def evs_def)

lemma tick_at: "tick (at b st t r e l) = at b st (if st = 0 then t else Suc t) r e l"
  by (simp add: tick_def at_def word_gt_0 add.commute)

lemma evs_simps [simp]: "evs b [] = []" "evs b es @ evs b fs = evs b (es @ fs)"
  by (simp_all add: evs_def)

lemma same_at: "button_handler (ucast l) (at b st t r e l) = button_switch (at b st (if st = 0 then t else Suc t) r e l)"
  using same_sample [of "at b st t r e l"] by (simp add: tick_at)

lemma ticks_cmp [simp]:
  "t < 65536 \<Longrightarrow> (of_nat t > LONG_TICKS) = (t > 200)" "t < 65536 \<Longrightarrow> (of_nat t > SHORT_TICKS) = (t > 80)"
  "t < 65536 \<Longrightarrow> (of_nat t < SHORT_TICKS) = (t < 80)"
  by (simp_all add: LONG_TICKS_def SHORT_TICKS_def word_less_nat_alt unat_of_nat_small)

text \<open>The \<open>switch\<close>, case by case.\<close>

lemma switch_at:
  "button_switch (at b 0 t r e (off b)) = ([], at b 0 t r NONE_PRESS (off b))"
  "button_switch (at b 0 t r e (on b)) = (evs b [PRESS_DOWN], at b 1 0 1 PRESS_DOWN (on b))"
  "t \<le> 200 \<Longrightarrow> button_switch (at b 1 t r e (on b)) = ([], at b 1 t r e (on b))"
  "200 < t \<Longrightarrow> t < 65536 \<Longrightarrow> button_switch (at b 1 t r e (on b)) = (evs b [LONG_PRESS_START], at b 5 t r LONG_PRESS_START (on b))"
  "button_switch (at b 1 t r e (off b)) = (evs b [PRESS_UP], at b 2 0 r PRESS_UP (off b))"
  "t \<le> 80 \<Longrightarrow> button_switch (at b 2 t r e (off b)) = ([], at b 2 t r e (off b))"
  "80 < t \<Longrightarrow> t < 65536 \<Longrightarrow> button_switch (at b 2 t 1 e (off b)) = (evs b [SINGLE_CLICK], at b 0 t 1 SINGLE_CLICK (off b))"
  "r + 1 \<noteq> 2 \<Longrightarrow> button_switch (at b 2 t r e (on b)) = (evs b [PRESS_DOWN, PRESS_REPEAT], at b 3 0 (r + 1) PRESS_DOWN (on b))"
  "r + 1 = 2 \<Longrightarrow> button_switch (at b 2 t r e (on b)) = (evs b [PRESS_DOWN, DOUBLE_CLICK, PRESS_REPEAT], at b 3 0 (r + 1) PRESS_DOWN (on b))"
  "button_switch (at b 3 t r e (on b)) = ([], at b 3 t r e (on b))"
  "t < 80 \<Longrightarrow> button_switch (at b 3 t r e (off b)) = (evs b [PRESS_UP], at b 2 0 r PRESS_UP (off b))"
  "button_switch (at b 5 t r e (on b)) = (evs b [LONG_PRESS_HOLD], at b 5 t r LONG_PRESS_HOLD (on b))"
  "button_switch (at b 5 t r e (off b)) = (evs b [PRESS_UP], at b 0 t r PRESS_UP (off b))"
  by (simp_all add: button_switch_def Let_def)

text \<open>Runs of samples of the level that is already debounced.\<close>

lemma run_idle: "run_levels (replicate k (ucast (off b))) (at b 0 t r e (off b)) = ([], at b 0 t r (if k = 0 then e else NONE_PRESS) (off b))"
  by (induction k arbitrary: e) (simp_all add: same_at switch_at)

lemma run_held: "t + k \<le> 200 \<Longrightarrow> run_levels (replicate k (ucast (on b))) (at b 1 t r e (on b)) = ([], at b 1 (t + k) r e (on b))"
  by (induction k arbitrary: t) (simp_all add: same_at switch_at)

lemma run_released: "t + k \<le> 80 \<Longrightarrow> run_levels (replicate k (ucast (off b))) (at b 2 t r e (off b)) = ([], at b 2 (t + k) r e (off b))"
  by (induction k arbitrary: t) (simp_all add: same_at switch_at)

lemma run_repeat: "run_levels (replicate k (ucast (on b))) (at b 3 t r e (on b)) = ([], at b 3 (t + k) r e (on b))"
  by (induction k arbitrary: t) (simp_all add: same_at switch_at)

lemma run_hold: "run_levels (replicate k (ucast (on b))) (at b 5 t r e (on b))
    = (evs b (replicate k LONG_PRESS_HOLD), at b 5 (t + k) r (if k = 0 then e else LONG_PRESS_HOLD) (on b))"
  by (induction k arbitrary: t e) (simp_all add: same_at switch_at)

lemma run_long:
  assumes "t \<le> 200" "201 \<le> t + k"
  shows "run_levels (replicate k (ucast (on b))) (at b 1 t r e (on b))
    = (evs b (LONG_PRESS_START # replicate (t + k - 201) LONG_PRESS_HOLD),
       at b 5 (t + k) r (if t + k = 201 then LONG_PRESS_START else LONG_PRESS_HOLD) (on b))"
proof -
  define j where "j = t + k - 201"
  have sp: "replicate k (ucast (on b) :: u8) = replicate (200 - t) (ucast (on b)) @ replicate (Suc j) (ucast (on b))"
    using assms by (simp add: j_def replicate_add [symmetric] del: replicate_Suc)
  have "run_levels (replicate (200 - t) (ucast (on b))) (at b 1 t r e (on b)) = ([], at b 1 200 r e (on b))"
    using run_held [of t "200 - t"] assms(1) by simp
  moreover have "run_levels (replicate (Suc j) (ucast (on b))) (at b 1 200 r e (on b))
      = (evs b (LONG_PRESS_START # replicate j LONG_PRESS_HOLD), at b 5 (t + k) r (if j = 0 then LONG_PRESS_START else LONG_PRESS_HOLD) (on b))"
    using assms by (simp add: same_at switch_at run_hold j_def)
  moreover have "j = 0 \<longleftrightarrow> t + k = 201" using assms(2) by (auto simp: j_def)
  ultimately show ?thesis unfolding sp j_def [symmetric] using run_levels_append by fastforce
qed

text \<open>Changes of the level.\<close>

lemma press: "run_levels (replicate 6 (ucast (on b))) (at b 0 t r e (off b)) = (evs b [PRESS_DOWN], at b 1 0 1 PRESS_DOWN (on b))"
  using six_samples [of "at b 0 t r e (off b)" "off b" "[]" _ "evs b [PRESS_DOWN]"] run_idle [of 5 b t r e]
  by (simp add: tick_at switch_at)

lemma release: "t + 5 \<le> 200 \<Longrightarrow> run_levels (replicate 6 (ucast (off b))) (at b 1 t r e (on b)) = (evs b [PRESS_UP], at b 2 0 r PRESS_UP (off b))"
  using six_samples [of "at b 1 t r e (on b)" "on b" "[]" _ "evs b [PRESS_UP]"] run_held [of t 5 b r e]
  by (simp add: tick_at switch_at)

lemma release_long:
  assumes "t \<le> 200" "201 \<le> t + 5"
  shows "run_levels (replicate 6 (ucast (off b))) (at b 1 t r e (on b))
    = (evs b (LONG_PRESS_START # replicate (t + 5 - 201) LONG_PRESS_HOLD @ [PRESS_UP]), at b 0 (6 + t) r PRESS_UP (off b))"
  using six_samples [of "at b 1 t r e (on b)" "on b" _ _ "evs b [PRESS_UP]"] run_long [OF assms, of b r e]
  by (simp add: tick_at switch_at)

lemma release_hold: "run_levels (replicate 6 (ucast (off b))) (at b 5 t r e (on b))
    = (evs b (replicate 5 LONG_PRESS_HOLD @ [PRESS_UP]), at b 0 (6 + t) r PRESS_UP (off b))"
  using six_samples [of "at b 5 t r e (on b)" "on b" _ _ "evs b [PRESS_UP]"] run_hold [of 5 b t r e]
  by (simp add: tick_at switch_at)

lemma glitch:
  assumes "k \<le> 5"
  shows "run_levels (replicate k (ucast (on b)) @ replicate (Suc m) (ucast (off b))) (at b 0 t r e (off b)) = ([], at b 0 t r NONE_PRESS (off b))"
proof -
  let ?e = "if k = 0 then e else NONE_PRESS"
  have 1: "run_levels (replicate k (ucast (on b))) (at b 0 t r e (off b)) = ([], (at b 0 t r ?e (off b))\<lparr>debounce_cnt := of_nat k\<rparr>)"
    using window [of "at b 0 t r e (off b)" "off b" 0 k] assms by (simp add: run_idle)
  have "button_handler (ucast (off b)) ((at b 0 t r ?e (off b))\<lparr>debounce_cnt := of_nat k\<rparr>) = ([], at b 0 t r NONE_PRESS (off b))"
    using same_sample [of "(at b 0 t r ?e (off b))\<lparr>debounce_cnt := of_nat k\<rparr>"] by (simp add: tick_at switch_at)
  then have 2: "run_levels (replicate (Suc m) (ucast (off b))) ((at b 0 t r ?e (off b))\<lparr>debounce_cnt := of_nat k\<rparr>) = ([], at b 0 t r NONE_PRESS (off b))"
    by (simp add: run_idle)
  show ?thesis using run_levels_append [OF 1 2] by simp
qed

lemma click:
  assumes "n \<le> 195"
  shows "run_levels (replicate (6 + n) (ucast (on b)) @ replicate (87 + m) (ucast (off b))) (at b 0 t r e (off b))
    = (evs b [PRESS_DOWN, PRESS_UP, SINGLE_CLICK], at b 0 81 1 (if m = 0 then SINGLE_CLICK else NONE_PRESS) (off b))"
proof -
  have 1: "run_levels (replicate n (ucast (on b))) (at b 1 0 1 PRESS_DOWN (on b)) = ([], at b 1 n 1 PRESS_DOWN (on b))"
    using run_held [of 0 n b 1 PRESS_DOWN] assms by simp
  have 2: "run_levels (replicate 6 (ucast (off b))) (at b 1 n 1 PRESS_DOWN (on b)) = (evs b [PRESS_UP], at b 2 0 1 PRESS_UP (off b))"
    using release [of n] assms by simp
  have 3: "run_levels (replicate 80 (ucast (off b))) (at b 2 0 1 PRESS_UP (off b)) = ([], at b 2 80 1 PRESS_UP (off b))"
    using run_released [of 0 80 b 1 PRESS_UP] by simp
  have 4: "run_levels (replicate (Suc m) (ucast (off b))) (at b 2 80 1 PRESS_UP (off b))
      = (evs b [SINGLE_CLICK], at b 0 81 1 (if m = 0 then SINGLE_CLICK else NONE_PRESS) (off b))"
    by (simp add: same_at switch_at run_idle)
  have sp: "replicate (6 + n) x @ replicate (87 + m) y
      = replicate 6 x @ replicate n x @ replicate 6 y @ replicate 80 y @ replicate (Suc m) y" for x y :: u8
    by (simp add: replicate_add [symmetric] del: replicate_Suc)
  show ?thesis
    unfolding sp using run_levels_append [OF press run_levels_append [OF 1 run_levels_append [OF 2 run_levels_append [OF 3 4]]]] by simp
qed

lemma long_press:
  assumes "196 \<le> n"
  shows "\<exists>t' e'. run_levels (replicate (6 + n) (ucast (on b)) @ replicate (6 + m) (ucast (off b))) (at b 0 t r e (off b))
    = (evs b ([PRESS_DOWN, LONG_PRESS_START] @ replicate (n - 196) LONG_PRESS_HOLD @ [PRESS_UP]), at b 0 t' 1 e' (off b))"
proof -
  have sp: "replicate (6 + n) x @ replicate (6 + m) y = replicate 6 x @ replicate n x @ replicate 6 y @ replicate m y" for x y :: u8
    by (simp add: replicate_add)
  show ?thesis
  proof (cases "n \<le> 200")
    case True
    have 1: "run_levels (replicate n (ucast (on b))) (at b 1 0 1 PRESS_DOWN (on b)) = ([], at b 1 n 1 PRESS_DOWN (on b))"
      using run_held [of 0 n b 1 PRESS_DOWN] True by simp
    have 2: "run_levels (replicate 6 (ucast (off b))) (at b 1 n 1 PRESS_DOWN (on b))
        = (evs b (LONG_PRESS_START # replicate (n - 196) LONG_PRESS_HOLD @ [PRESS_UP]), at b 0 (6 + n) 1 PRESS_UP (off b))"
      using release_long [OF True, of b 1 PRESS_DOWN] assms by simp
    show ?thesis
      unfolding sp using run_levels_append [OF press run_levels_append [OF 1 run_levels_append [OF 2 run_idle]]] by auto
  next
    case False
    have 1: "run_levels (replicate n (ucast (on b))) (at b 1 0 1 PRESS_DOWN (on b)) = (evs b (LONG_PRESS_START # replicate (n - 201) LONG_PRESS_HOLD),
        at b 5 n 1 (if n = 201 then LONG_PRESS_START else LONG_PRESS_HOLD) (on b))"
      using run_long [of 0 n b 1 PRESS_DOWN] False by simp
    have "replicate (n - 196) LONG_PRESS_HOLD = replicate (n - 201) LONG_PRESS_HOLD @ replicate 5 LONG_PRESS_HOLD"
      using False by (simp add: replicate_add [symmetric])
    then show ?thesis
      unfolding sp using run_levels_append [OF press run_levels_append [OF 1 run_levels_append [OF release_hold run_idle]]] by auto
  qed
qed

text \<open>The events of a press of \<open>n\<close> samples, and a released button with no event pending.\<close>

definition press_events :: "nat \<Rightarrow> PRESS_EVT list" where
  "press_events n = (if n \<le> 5 then [] else if n \<le> 201 then [PRESS_DOWN, PRESS_UP, SINGLE_CLICK]
     else [PRESS_DOWN, LONG_PRESS_START] @ replicate (n - 202) LONG_PRESS_HOLD @ [PRESS_UP])"

definition idle :: "BUTTON_S \<Rightarrow> bool" where
  "idle b \<longleftrightarrow> btn_state b = 0 \<and> button_level b = active_level b + 1 \<and> debounce_cnt b = 0"

text \<open>
  (C16) What the application sees of one press, for every duration. A released button is sampled as
  pressed \<open>n\<close> times and then as released at least 87 times (435 ms). Up to 5 samples are a
  glitch that has no effect; up to 201 samples give press, release and one click; a longer press
  gives the start of a long press, a hold event for every further sample, and the release, but no
  click. Only the events with a callback are delivered, and the button is idle again. (The comment in
  \<open>button_handler\<close> speaks of 3 samples; \<open>DEBOUNCE_TICKS\<close>, which the code compares with, is 6.)
\<close>

theorem button_press_events:
  assumes "idle b" and "87 \<le> m"
  shows "\<exists>b'. run_levels (replicate n (ucast (active_level b)) @ replicate m (ucast (active_level b + 1))) b
      = (filter (btn_cb b) (press_events n), b') \<and> idle b'"
proof -
  define t where "t = unat (ticks b)"
  have b: "b = at b 0 t (btn_repeat b) (btn_event b) (off b)" using assms(1) by (simp add: at_def idle_def t_def)
  have i: "idle (at b 0 t' r' e' (off b))" for t' r' e' by (simp add: idle_def)
  obtain k where k: "m = 87 + k" using assms(2) le_Suc_ex by blast
  consider "n \<le> 5" | "n = 6 + (n - 6)" "n - 6 \<le> 195" | "n = 6 + (n - 6)" "196 \<le> n - 6" by linarith
  then show ?thesis
  proof cases
    case 1
    show ?thesis
      using glitch [OF 1, of b "86 + k" t "btn_repeat b" "btn_event b"] b i 1 by (auto simp: k press_events_def)
  next
    case 2
    have "5 < n" "n \<le> 201" using 2 by linarith+
    then have "press_events n = [PRESS_DOWN, PRESS_UP, SINGLE_CLICK]" by (simp add: press_events_def)
    then show ?thesis
      using click [OF 2(2), of b k t "btn_repeat b" "btn_event b", folded 2(1) k b] i by (auto simp: evs_def)
  next
    case 3
    have "201 < n" "n - 6 - 196 = n - 202" using 3 by linarith+
    then have e: "press_events n = [PRESS_DOWN, LONG_PRESS_START] @ replicate (n - 6 - 196) LONG_PRESS_HOLD @ [PRESS_UP]"
      by (simp add: press_events_def)
    have "m = 6 + (81 + k)" using k by simp
    from long_press [OF 3(2), of b "81 + k" t "btn_repeat b" "btn_event b", folded 3(1) this b e]
    show ?thesis using i by (auto simp: evs_def)
  qed
qed

definition sim_button :: BUTTON_S where
  "sim_button = button_attach SINGLE_CLICK True (button_init 1 0 7)"

lemma sim_button_idle: "idle sim_button" "active_level sim_button = 0" "btn_cb sim_button = (\<lambda>e. e = SINGLE_CLICK)"
  by (auto simp: idle_def sim_button_def button_attach_def button_init_def fun_eq_iff)

theorem button_press_events_witness:
  "fst (run_levels (replicate 20 0 @ replicate 100 1) sim_button) = [SINGLE_CLICK]
   \<and> fst (run_levels (replicate 300 0 @ replicate 100 1) sim_button) = []"
proof -
  have "filter (btn_cb sim_button) (press_events 20) = [SINGLE_CLICK]" "filter (btn_cb sim_button) (press_events 300) = []"
    by (simp_all add: sim_button_idle(3) press_events_def)
  then show ?thesis
    using button_press_events [OF sim_button_idle(1), of 100 20] button_press_events [OF sim_button_idle(1), of 100 300]
    by (auto simp: sim_button_idle(2))
qed

section \<open>Quick presses\<close>

text \<open>One quick press of 6 samples and a release of 6 samples.\<close>

definition quick :: "BUTTON_S \<Rightarrow> u8 list" where
  "quick b = replicate 6 (ucast (active_level b)) @ replicate 6 (ucast (active_level b + 1))"

lemma quick_first: "\<exists>es. run_levels (quick b) (at b 0 t r e (off b)) = (es, at b 2 0 1 PRESS_UP (off b))"
  unfolding quick_def using run_levels_append [OF press release [of 0 b 1 PRESS_DOWN]] by simp

lemma quick_again: "\<exists>es. run_levels (quick b) (at b 2 0 r e (off b)) = (es, at b 2 0 (r + 1) PRESS_UP (off b))"
proof -
  obtain es where 1: "run_levels (replicate 6 (ucast (on b))) (at b 2 0 r e (off b)) = (es, at b 3 0 (r + 1) PRESS_DOWN (on b))"
    using six_samples [of "at b 2 0 r e (off b)" "off b" "[]" _ "fst (button_switch (at b 2 6 r e (on b)))"] run_released [of 0 5 b r e]
    by (cases "r + 1 = 2") (simp_all add: tick_at switch_at)
  have "run_levels (replicate 6 (ucast (off b))) (at b 3 0 (r + 1) PRESS_DOWN (on b)) = (evs b [PRESS_UP], at b 2 0 (r + 1) PRESS_UP (off b))"
    using six_samples [of "at b 3 0 (r + 1) PRESS_DOWN (on b)" "on b" "[]" _ "evs b [PRESS_UP]"] run_repeat [of 5 b 0 "r + 1" PRESS_DOWN]
    by (simp add: tick_at switch_at)
  then show ?thesis unfolding quick_def using run_levels_append [OF 1] by blast
qed

lemma quick_many: "\<exists>es. run_levels (concat (replicate (Suc n) (quick b))) (at b 0 t r e (off b)) = (es, at b 2 0 (of_nat (Suc n)) PRESS_UP (off b))"
proof (induction n)
  case 0
  then show ?case using quick_first by simp
next
  case (Suc n)
  then obtain es where 1: "run_levels (concat (replicate (Suc n) (quick b))) (at b 0 t r e (off b)) = (es, at b 2 0 (of_nat (Suc n)) PRESS_UP (off b))"
    by blast
  obtain fs where 2: "run_levels (quick b) (at b 2 0 (of_nat (Suc n)) PRESS_UP (off b)) = (fs, at b 2 0 (of_nat (Suc n) + 1) PRESS_UP (off b))"
    using quick_again by blast
  have "concat (replicate (Suc (Suc n)) (quick b)) = concat (replicate (Suc n) (quick b)) @ quick b"
    using replicate_append_same [of "Suc n" "quick b"] by (metis append.right_neutral concat.simps concat_append replicate_Suc)
  moreover have "(of_nat (Suc n) :: 4 word) + 1 = of_nat (Suc (Suc n))" by (simp only: of_nat_Suc add.commute)
  ultimately show ?case using run_levels_append [OF 1 2] by (metis (no_types))
qed

text \<open>
  The press counter of a handle has four bits: after \<open>16 k + 1\<close> quick presses it is 1 again, and
  the release is reported as a single click.
\<close>

theorem button_repeat_wraps:
  assumes "idle b" and "n mod 16 = 1"
  shows "btn_event (snd (run_levels (concat (replicate n (quick b)) @ replicate 81 (ucast (active_level b + 1))) b)) = SINGLE_CLICK"
proof -
  define t where "t = unat (ticks b)"
  have b: "b = at b 0 t (btn_repeat b) (btn_event b) (off b)" using assms(1) by (simp add: at_def idle_def t_def)
  obtain k where k: "n = Suc k" using assms(2) by (cases n) auto
  have w: "(of_nat n :: 4 word) = 1"
  proof -
    have "(of_nat n :: 4 word) = of_nat (n mod 16)" by (simp add: word_unat_eq_iff unat_of_nat)
    then show ?thesis using assms(2) by simp
  qed
  obtain es where 1: "run_levels (concat (replicate n (quick b))) b = (es, at b 2 0 1 PRESS_UP (off b))"
    using quick_many [of k b t "btn_repeat b" "btn_event b"] b w k by auto
  have 2: "run_levels (replicate 80 (ucast (off b))) (at b 2 0 1 PRESS_UP (off b)) = ([], at b 2 80 1 PRESS_UP (off b))"
    using run_released [of 0 80 b 1 PRESS_UP] by simp
  have 3: "run_levels [ucast (off b)] (at b 2 80 1 PRESS_UP (off b)) = (evs b [SINGLE_CLICK], at b 0 81 1 SINGLE_CLICK (off b))"
    by (simp add: same_at switch_at)
  have "replicate 81 (ucast (off b) :: u8) = replicate 80 (ucast (off b)) @ [ucast (off b)]"
    by (simp add: replicate_append_same numeral_eq_Suc)
  then show ?thesis using run_levels_append [OF 1 run_levels_append [OF 2 3]] by (simp add: at_def)
qed

theorem button_repeat_wraps_witness:
  "btn_event (snd (run_levels (concat (replicate 17 (quick sim_button)) @ replicate 81 1) sim_button)) = SINGLE_CLICK"
  using button_repeat_wraps [OF sim_button_idle(1), of 17] by (simp add: sim_button_idle(2))

end
