(* ===== verification/Multi_Button_List.thy ===== *)
theory Multi_Button_List
  imports Multi_Button_Props
begin

text \<open>
  The linked list of button handles in the heap against the list of their addresses: starting and
  stopping a handle, the timer callback and the configuration of keys.
\<close>

section \<open>The list of handles\<close>

text \<open>The linked list from a pointer holds the given addresses; it is finite and without a cycle.\<close>

fun blist :: "(addr \<Rightarrow> BUTTON_S option) \<Rightarrow> addr option \<Rightarrow> addr list \<Rightarrow> bool" where
  "blist h p [] \<longleftrightarrow> p = None"
| "blist h p (x # xs) \<longleftrightarrow> p = Some x \<and> (\<exists>b. h x = Some b \<and> blist h (btn_next b) xs)"

definition key_abs :: "key_st \<Rightarrow> addr list \<Rightarrow> bool" where
  "key_abs s xs \<longleftrightarrow> blist (key_heap s) (head_handle s) xs"

lemma blist_fun: "blist h p xs \<Longrightarrow> blist h p ys \<Longrightarrow> xs = ys"
proof (induction xs arbitrary: p ys)
  case Nil
  then show ?case by (cases ys) auto
next
  case (Cons x xs)
  then show ?case by (cases ys) auto
qed

lemma blist_split: "blist h p (xs @ x # ys) \<Longrightarrow> blist h (Some x) (x # ys)"
  by (induction xs arbitrary: p) auto

lemma blist_distinct: "blist h p xs \<Longrightarrow> distinct xs"
proof (induction xs arbitrary: p)
  case (Cons x xs)
  obtain b where b: "h x = Some b" "blist h (btn_next b) xs" using Cons.prems by auto
  have "x \<notin> set xs"
  proof
    assume "x \<in> set xs"
    then obtain us vs where "xs = us @ x # vs" by (auto simp: in_set_conv_decomp)
    then have "blist h (Some x) (x # vs)" using b(2) blist_split by blast
    moreover have "blist h (Some x) (x # xs)" using Cons.prems by auto
    ultimately show False using blist_fun [of h "Some x" "x # vs" "x # xs"] \<open>xs = us @ x # vs\<close> by auto
  qed
  then show ?case using Cons.IH [OF b(2)] by simp
qed simp

text \<open>Only the handles of the list, and of them only the links, matter.\<close>

lemma blist_cong:
  "(\<And>x. x \<in> set xs \<Longrightarrow> map_option btn_next (h x) = map_option btn_next (h' x)) \<Longrightarrow> blist h p xs = blist h' p xs"
proof (induction xs arbitrary: p)
  case (Cons x xs)
  have "map_option btn_next (h x) = map_option btn_next (h' x)" using Cons.prems by simp
  moreover have "blist h q xs = blist h' q xs" for q using Cons.IH Cons.prems by simp
  ultimately show ?case by (cases "h x"; cases "h' x") auto
qed simp

lemma blist_upd [simp]: "a \<notin> set xs \<Longrightarrow> blist (h(a := v)) p xs = blist h p xs"
  by (rule blist_cong) auto

lemma blist_alloc: "blist h p xs \<Longrightarrow> x \<in> set xs \<Longrightarrow> \<exists>b. h x = Some b"
  by (induction xs arbitrary: p) auto

lemma list_has_ok: "blist h p xs \<Longrightarrow> list_has h a p = Some (a \<in> set xs)"
proof (induction xs arbitrary: p)
  case (Cons x xs)
  then show ?case by (subst list_has.simps) auto
qed (simp add: list_has.simps)

lemma find_loop_ok: "blist h p xs \<Longrightarrow> find_loop h d p = Some (List.find (\<lambda>x. user_data (the (h x)) = d) xs)"
proof (induction xs arbitrary: p)
  case (Cons x xs)
  then show ?case by (subst find_loop.simps) auto
qed (simp add: find_loop.simps)

text \<open>Heaps that differ only in the links of some handles.\<close>

definition relink :: "addr set \<Rightarrow> (addr \<Rightarrow> BUTTON_S option) \<Rightarrow> (addr \<Rightarrow> BUTTON_S option) \<Rightarrow> bool" where
  "relink A h h' \<longleftrightarrow> (\<forall>x. x \<notin> A \<longrightarrow> h' x = h x)
     \<and> (\<forall>x. map_option (\<lambda>b. b\<lparr>btn_next := None\<rparr>) (h' x) = map_option (\<lambda>b. b\<lparr>btn_next := None\<rparr>) (h x))"

lemma relink_trans: "relink A h h1 \<Longrightarrow> relink B h1 h2 \<Longrightarrow> A \<union> B \<subseteq> D \<Longrightarrow> relink D h h2"
  unfolding relink_def by (metis (no_types, lifting) UnI1 UnI2 subsetD)

lemma relink_user_data:
  assumes "relink A h h'"
  shows "map_option user_data (h' x) = map_option user_data (h x)"
proof -
  have "map_option (\<lambda>b. b\<lparr>btn_next := None\<rparr>) (h' x) = map_option (\<lambda>b. b\<lparr>btn_next := None\<rparr>) (h x)"
    using assms by (simp add: relink_def)
  then have "map_option (user_data \<circ> (\<lambda>b. b\<lparr>btn_next := None\<rparr>)) (h' x) = map_option (user_data \<circ> (\<lambda>b. b\<lparr>btn_next := None\<rparr>)) (h x)"
    by (metis option.map_comp)
  then show ?thesis by (simp add: comp_def)
qed

definition link_addr :: "link \<Rightarrow> addr set" where
  "link_addr c = (case c of Head \<Rightarrow> {} | Next a \<Rightarrow> {a})"

lemma stop_loop_ok:
  "deref c s = Some p \<Longrightarrow> blist (key_heap s) p xs \<Longrightarrow> link_addr c \<inter> set xs = {} \<Longrightarrow>
   \<exists>s' p'. stop_loop a c s = Some s' \<and> deref c s' = Some p' \<and> blist (key_heap s') p' (removeAll a xs)
     \<and> relink (link_addr c \<union> set xs) (key_heap s) (key_heap s') \<and> (c \<noteq> Head \<longrightarrow> head_handle s' = head_handle s)
     \<and> key_log s' = key_log s"
proof (induction xs arbitrary: c p s)
  case Nil
  then show ?case by (subst stop_loop.simps) (auto simp: relink_def)
next
  case (Cons x xs)
  obtain b where b: "p = Some x" "key_heap s x = Some b" "blist (key_heap s) (btn_next b) xs" using Cons.prems(2) by auto
  have x: "x \<notin> set xs" using blist_distinct [OF Cons.prems(2)] by simp
  show ?case
  proof (cases "x = a")
    case True
    obtain s1 where s1: "set_link c (btn_next b) s = Some s1" "deref c s1 = Some (btn_next b)" "relink (link_addr c) (key_heap s) (key_heap s1)"
        "c \<noteq> Head \<longrightarrow> head_handle s1 = head_handle s" "key_log s1 = key_log s"
      using Cons.prems(1) by (auto simp: set_link_def deref_def relink_def link_addr_def split: link.splits)
    have bl: "blist (key_heap s1) (btn_next b) xs"
    proof -
      have "key_heap s1 y = key_heap s y" if "y \<in> set xs" for y
        using s1(3) Cons.prems(3) that by (auto simp: relink_def)
      then show ?thesis using b(3) blist_cong [of xs "key_heap s" "key_heap s1" "btn_next b"] by simp
    qed
    obtain s' p' where s': "stop_loop a c s1 = Some s'" "deref c s' = Some p'" "blist (key_heap s') p' (removeAll a xs)"
        "relink (link_addr c \<union> set xs) (key_heap s1) (key_heap s')" "c \<noteq> Head \<longrightarrow> head_handle s' = head_handle s1" "key_log s' = key_log s1"
      using Cons.IH [OF s1(2) bl] Cons.prems(3) by auto
    have "stop_loop a c s = Some s'"
      using Cons.prems(1) b True s1(1) s'(1) by (subst stop_loop.simps) simp
    then show ?thesis using s' s1 True relink_trans [OF s1(3) s'(4), of "link_addr c \<union> set (x # xs)"] by auto
  next
    case False
    have d: "deref (Next x) s = Some (btn_next b)" using b(2) by (simp add: deref_def)
    obtain s' p' where s': "stop_loop a (Next x) s = Some s'" "deref (Next x) s' = Some p'" "blist (key_heap s') p' (removeAll a xs)"
        "relink ({x} \<union> set xs) (key_heap s) (key_heap s')" "head_handle s' = head_handle s" "key_log s' = key_log s"
      using Cons.IH [OF d b(3)] x by (auto simp: link_addr_def)
    have "stop_loop a c s = Some s'" using Cons.prems(1) b False s'(1) by (subst stop_loop.simps) simp
    moreover have "deref c s' = Some (Some x)"
      using Cons.prems(1,3) b(1) s'(4,5) by (auto simp: deref_def link_addr_def relink_def split: link.splits)
    moreover have "blist (key_heap s') (Some x) (x # removeAll a xs)" using s'(2,3) by (auto simp: deref_def)
    ultimately show ?thesis using s' False relink_trans [OF s'(4), of "{}" _ "link_addr c \<union> set (x # xs)"] by (auto simp: relink_def)
  qed
qed

lemma button_stop_ok:
  assumes "key_abs s xs"
  shows "\<exists>s'. button_stop a s = Some s' \<and> key_abs s' (removeAll a xs) \<and> relink (set xs) (key_heap s) (key_heap s')
     \<and> key_log s' = key_log s"
proof -
  have "blist (key_heap s) (head_handle s) xs" using assms by (simp add: key_abs_def)
  from stop_loop_ok [OF _ this, of Head a] show ?thesis
    by (auto simp: button_stop_def key_abs_def deref_def link_addr_def)
qed

lemma button_start_present: "key_abs s xs \<Longrightarrow> a \<in> set xs \<Longrightarrow> button_start a s = Some (-1, s)"
  by (simp add: button_start_def key_abs_def list_has_ok)

lemma button_start_new:
  assumes "key_abs s xs" "a \<notin> set xs" "key_heap s a = Some b"
  shows "button_start a s = Some (0, s\<lparr>key_heap := (key_heap s)(a \<mapsto> b\<lparr>btn_next := head_handle s\<rparr>), head_handle := Some a\<rparr>)"
    "key_abs (s\<lparr>key_heap := (key_heap s)(a \<mapsto> b\<lparr>btn_next := head_handle s\<rparr>), head_handle := Some a\<rparr>) (a # xs)"
proof -
  have bl: "blist (key_heap s) (head_handle s) xs" using assms(1) by (simp add: key_abs_def)
  show "button_start a s = Some (0, s\<lparr>key_heap := (key_heap s)(a \<mapsto> b\<lparr>btn_next := head_handle s\<rparr>), head_handle := Some a\<rparr>)"
    using assms(2,3) bl by (simp add: button_start_def list_has_ok)
  have "blist ((key_heap s)(a \<mapsto> b\<lparr>btn_next := head_handle s\<rparr>)) (head_handle s) xs"
    using bl assms(2) by simp
  then show "key_abs (s\<lparr>key_heap := (key_heap s)(a \<mapsto> b\<lparr>btn_next := head_handle s\<rparr>), head_handle := Some a\<rparr>) (a # xs)"
    by (simp add: key_abs_def)
qed

text \<open>
  (C32) The linked list of handles implements a list of addresses. \<open>button_start\<close> of a handle that is
  in the list returns -1 and changes nothing; of any other handle it returns 0 and puts it in front.
  \<open>button_stop\<close> always returns, and removes the handle; all other fields of every handle stay.
\<close>

theorem button_list_refines:
  assumes "key_abs s xs" and "key_heap s a = Some b"
  shows "(if a \<in> set xs then button_start a s = Some (-1, s)
          else \<exists>s'. button_start a s = Some (0, s') \<and> key_abs s' (a # xs) \<and> relink {a} (key_heap s) (key_heap s'))
     \<and> (\<exists>s'. button_stop a s = Some s' \<and> key_abs s' (removeAll a xs) \<and> relink (set xs) (key_heap s) (key_heap s'))"
proof (intro conjI)
  show "if a \<in> set xs then button_start a s = Some (-1, s)
      else \<exists>s'. button_start a s = Some (0, s') \<and> key_abs s' (a # xs) \<and> relink {a} (key_heap s) (key_heap s')"
    using button_start_present [OF assms(1)] button_start_new [OF assms(1) _ assms(2)] assms(2)
    by (auto simp: relink_def)
  show "\<exists>s'. button_stop a s = Some s' \<and> key_abs s' (removeAll a xs) \<and> relink (set xs) (key_heap s) (key_heap s')"
    using button_stop_ok [OF assms(1)] by blast
qed

text \<open>Two keys on pins 7 and 9.\<close>

definition sim_keys :: key_st where
  "sim_keys = \<lparr>key_heap = [0x100 \<mapsto> sim_button\<lparr>btn_next := Some 0x200\<rparr>, 0x200 \<mapsto> button_init 1 0 9, 0x300 \<mapsto> button_init 1 0 5],
     head_handle = Some 0x100, key_log = []\<rparr>"

lemma sim_keys_abs: "key_abs sim_keys [0x100, 0x200]"
  by (simp add: key_abs_def sim_keys_def button_init_def)

theorem button_list_refines_witness:
  "(\<exists>s'. button_start 0x300 sim_keys = Some (0, s') \<and> key_abs s' [0x300, 0x100, 0x200])
   \<and> (\<exists>s'. button_stop 0x100 sim_keys = Some s' \<and> key_abs s' [0x200])"
proof
  show "\<exists>s'. button_start 0x300 sim_keys = Some (0, s') \<and> key_abs s' [0x300, 0x100, 0x200]"
    using button_list_refines [OF sim_keys_abs, of "0x300" "button_init 1 0 5"] by (auto simp: sim_keys_def)
  show "\<exists>s'. button_stop 0x100 sim_keys = Some s' \<and> key_abs s' [0x200]"
    using button_list_refines [OF sim_keys_abs, of "0x100" "sim_button\<lparr>btn_next := Some 0x200\<rparr>"] by (auto simp: sim_keys_def)
qed

section \<open>The timer callback\<close>

definition step_heap :: "(addr \<Rightarrow> u8) \<Rightarrow> addr set \<Rightarrow> (addr \<Rightarrow> BUTTON_S option) \<Rightarrow> addr \<Rightarrow> BUTTON_S option" where
  "step_heap lv A h a = (if a \<in> A then map_option (\<lambda>b. snd (button_handler (lv a) b)) (h a) else h a)"

definition step_calls :: "(addr \<Rightarrow> u8) \<Rightarrow> (addr \<Rightarrow> BUTTON_S option) \<Rightarrow> addr list \<Rightarrow> (addr \<times> PRESS_EVT) list" where
  "step_calls lv h xs = concat (map (\<lambda>a. map (Pair a) (fst (button_handler (lv a) (the (h a))))) xs)"

lemma step_calls_cong: "(\<And>x. x \<in> set xs \<Longrightarrow> h x = h' x) \<Longrightarrow> step_calls lv h xs = step_calls lv h' xs"
  by (auto simp: step_calls_def intro!: arg_cong [where f = concat])

lemma ticks_loop_ok:
  "blist (key_heap s) p xs \<Longrightarrow> ticks_loop lv p s
     = Some (s\<lparr>key_heap := step_heap lv (set xs) (key_heap s), key_log := key_log s @ step_calls lv (key_heap s) xs\<rparr>)"
proof (induction xs arbitrary: p s)
  case Nil
  have "step_heap lv {} (key_heap s) = key_heap s" by (rule ext) (simp add: step_heap_def)
  then show ?case using Nil by (subst ticks_loop.simps) (simp add: step_calls_def)
next
  case (Cons x xs)
  obtain b where b: "p = Some x" "key_heap s x = Some b" "blist (key_heap s) (btn_next b) xs" using Cons.prems by auto
  have x: "x \<notin> set xs" using blist_distinct [OF Cons.prems] by simp
  obtain es b' where h: "button_handler (lv x) b = (es, b')" by (cases "button_handler (lv x) b")
  let ?s = "s\<lparr>key_heap := (key_heap s)(x \<mapsto> b'), key_log := key_log s @ map (Pair x) es\<rparr>"
  have "blist (key_heap ?s) (btn_next b') xs"
    using b(3) x button_handler_frame(1) [OF h] by simp
  note IH = Cons.IH [OF this]
  have e: "step_heap lv (set xs) (key_heap ?s) = step_heap lv (set (x # xs)) (key_heap s)"
    using b(2) h x by (auto simp: step_heap_def fun_eq_iff)
  have f: "step_calls lv (key_heap ?s) xs = step_calls lv (key_heap s) xs"
    by (rule step_calls_cong) (use x in auto)
  have "step_calls lv (key_heap s) (x # xs) = map (Pair x) es @ step_calls lv (key_heap s) xs"
    using b(2) h by (simp add: step_calls_def)
  then have "ticks_loop lv (btn_next b') ?s = Some (s\<lparr>key_heap := step_heap lv (set (x # xs)) (key_heap s),
      key_log := key_log s @ step_calls lv (key_heap s) (x # xs)\<rparr>)"
    unfolding IH e f by simp
  then show ?case using b h by (subst ticks_loop.simps) simp
qed

text \<open>
  (C33) One tick of the timer: \<open>button_ticks\<close> returns, runs the handler of every handle of the list
  exactly once on the level of its own pin, touches no other handle, makes the callbacks in list order,
  and leaves the list as it was.
\<close>

theorem button_ticks_steps_each:
  assumes "key_abs s xs"
  shows "\<exists>s'. button_ticks lv s = Some s' \<and> key_abs s' xs \<and> head_handle s' = head_handle s
     \<and> (\<forall>a. key_heap s' a = (if a \<in> set xs then map_option (\<lambda>b. snd (button_handler (lv a) b)) (key_heap s a) else key_heap s a))
     \<and> key_log s' = key_log s @ concat (map (\<lambda>a. map (Pair a) (fst (button_handler (lv a) (the (key_heap s a))))) xs)"
proof -
  have bl: "blist (key_heap s) (head_handle s) xs" using assms by (simp add: key_abs_def)
  have "map_option btn_next (step_heap lv (set xs) (key_heap s) x) = map_option btn_next (key_heap s x)" for x
  proof (cases "key_heap s x")
    case (Some b)
    then show ?thesis using button_handler_frame(1) [of "lv x" b] by (auto simp: step_heap_def prod_eq_iff)
  qed (simp add: step_heap_def)
  then have "blist (step_heap lv (set xs) (key_heap s)) (head_handle s) xs"
    using bl blist_cong [of xs "key_heap s" "step_heap lv (set xs) (key_heap s)"] by simp
  then show ?thesis
    using ticks_loop_ok [OF bl] by (auto simp: button_ticks_def key_abs_def step_heap_def step_calls_def)
qed

theorem button_ticks_steps_each_witness:
  "\<exists>s'. button_ticks (\<lambda>a. if a = 0x100 then 0 else 1) sim_keys = Some s' \<and> key_abs s' [0x100, 0x200]"
  using button_ticks_steps_each [OF sim_keys_abs] by blast

section \<open>Configured keys\<close>

text \<open>
  What the configuration of keys relies on: a search that finds the first matching handle, and the
  removal of a handle that leaves what the others match.
\<close>

locale handle_registry =
  fixes view :: "'s \<Rightarrow> addr list \<Rightarrow> bool"
    and matches :: "'s \<Rightarrow> addr \<Rightarrow> bool"
    and look :: "'s \<Rightarrow> addr option option"
    and remove :: "addr \<Rightarrow> 's \<Rightarrow> 's option"
    and sweep :: "'s \<Rightarrow> 's option"
  assumes look_ok: "view s xs \<Longrightarrow> look s = Some (List.find (matches s) xs)"
    and remove_ok: "view s xs \<Longrightarrow> a \<in> set xs \<Longrightarrow>
      \<exists>s'. remove a s = Some s' \<and> view s' (removeAll a xs) \<and> (\<forall>x\<in>set xs - {a}. matches s' x = matches s x)"
    and sweep_eq: "sweep s = look s \<bind> (\<lambda>p. case p of None \<Rightarrow> Some s | Some a \<Rightarrow> remove a s \<bind> sweep)"
begin

lemma sweep_ok: "view s xs \<Longrightarrow> \<exists>s'. sweep s = Some s' \<and> view s' (filter (\<lambda>x. \<not> matches s x) xs)"
proof (induction "length xs" arbitrary: s xs rule: less_induct)
  case less
  show ?case
  proof (cases "List.find (matches s) xs")
    case None
    then have "filter (\<lambda>x. \<not> matches s x) xs = xs" by (auto simp: find_None_iff)
    then show ?thesis using None look_ok [OF less.prems] less.prems sweep_eq [of s] by auto
  next
    case (Some a)
    then have a: "a \<in> set xs" "matches s a" by (auto simp: find_Some_iff)
    then obtain s1 where s1: "remove a s = Some s1" "view s1 (removeAll a xs)" "\<forall>x\<in>set xs - {a}. matches s1 x = matches s x"
      using remove_ok [OF less.prems] by blast
    have "filter (\<lambda>x. \<not> matches s1 x) (removeAll a xs) = filter (\<lambda>x. \<not> matches s x) (removeAll a xs)"
      by (rule filter_cong) (use s1(3) in auto)
    also have "\<dots> = filter (\<lambda>x. \<not> matches s x) xs"
      using a(2) by (auto simp: removeAll_filter_not_eq intro: filter_cong)
    finally show ?thesis
      using less.hyps [OF length_removeAll_less [OF a(1)] s1(2)] s1(1) Some look_ok [OF less.prems] sweep_eq [of s] by simp
  qed
qed

end

definition release_handle :: "addr \<Rightarrow> key_st \<Rightarrow> key_st option" where
  "release_handle a s = map_option (\<lambda>s. s\<lparr>key_heap := (key_heap s)(a := None)\<rparr>) (button_stop a s)"

lemma release_handle_ok:
  assumes "key_abs s xs"
  shows "\<exists>s'. release_handle a s = Some s' \<and> key_abs s' (removeAll a xs)
    \<and> (\<forall>x. x \<noteq> a \<longrightarrow> map_option user_data (key_heap s' x) = map_option user_data (key_heap s x))"
proof -
  obtain s1 where s1: "button_stop a s = Some s1" "key_abs s1 (removeAll a xs)" "relink (set xs) (key_heap s) (key_heap s1)"
    using button_stop_ok [OF assms] by blast
  let ?h = "(key_heap s1)(a := None)"
  have "blist ?h (head_handle s1) (removeAll a xs)"
    using s1(2) by (simp add: key_abs_def)
  then show ?thesis using s1(1) relink_user_data [OF s1(3)] by (simp add: release_handle_def key_abs_def)
qed

interpretation kr: handle_registry key_abs "\<lambda>s x. user_data (the (key_heap s x)) = gpio"
  "button_find_with_user_data gpio" release_handle "unconf_loop gpio" for gpio
proof unfold_locales
  fix s xs a
  assume s: "key_abs s xs"
  show "button_find_with_user_data gpio s = Some (List.find (\<lambda>x. user_data (the (key_heap s x)) = gpio) xs)"
    using s by (simp add: button_find_with_user_data_def key_abs_def find_loop_ok)
  obtain s' where s': "release_handle a s = Some s'" "key_abs s' (removeAll a xs)"
      "\<And>x. x \<noteq> a \<Longrightarrow> map_option user_data (key_heap s' x) = map_option user_data (key_heap s x)"
    using release_handle_ok [OF s] by blast
  have "user_data (the (key_heap s' x)) = user_data (the (key_heap s x))" if x: "x \<in> set xs - {a}" for x
  proof -
    obtain b where "key_heap s x = Some b" using blist_alloc x s unfolding key_abs_def by blast
    then show ?thesis using s'(3) [of x] x by auto
  qed
  then show "\<exists>s'. release_handle a s = Some s' \<and> key_abs s' (removeAll a xs)
      \<and> (\<forall>x\<in>set xs - {a}. (user_data (the (key_heap s' x)) = gpio) = (user_data (the (key_heap s x)) = gpio))"
    using s'(1,2) by auto
next
  fix s
  show "unconf_loop gpio s = button_find_with_user_data gpio s \<bind>
      (\<lambda>p. case p of None \<Rightarrow> Some s | Some a \<Rightarrow> release_handle a s \<bind> unconf_loop gpio)"
    by (subst unconf_loop.simps)
      (simp add: release_handle_def map_conv_bind_option cong: option.case_cong)
qed

text \<open>
  (C34) Configuring a key and removing it. With a fresh block from the allocator
  \<open>key_item_configure\<close> succeeds and puts the handle in the list; \<open>key_item_unconfigure\<close> terminates,
  succeeds, and removes exactly the handles of that pin. Without memory the configuration fails and
  changes nothing.
\<close>

theorem key_configure_unconfigure:
  assumes "key_abs s xs" and "a \<notin> set xs"
  shows "key_item_configure None level gpio sp dp lp hp s = Some (kNoMemoryErr, s)
     \<and> (\<exists>s1 s2. key_item_configure (Some a) level gpio sp dp lp hp s = Some (0, s1) \<and> key_abs s1 (a # xs)
          \<and> map_option user_data (key_heap s1 a) = Some gpio
          \<and> key_item_unconfigure gpio s1 = Some (0, s2)
          \<and> key_abs s2 (filter (\<lambda>x. user_data (the (key_heap s x)) \<noteq> gpio) xs))"
proof -
  define b where "b = button_attach LONG_PRESS_HOLD hp (button_attach LONG_PRESS_START lp
    (button_attach DOUBLE_CLICK dp (button_attach SINGLE_CLICK sp (button_init level 0 gpio))))"
  have ud: "user_data b = gpio" by (simp add: b_def button_attach_def button_init_def)
  let ?s = "s\<lparr>key_heap := (key_heap s)(a \<mapsto> b)\<rparr>"
  let ?s1 = "?s\<lparr>key_heap := (key_heap ?s)(a \<mapsto> b\<lparr>btn_next := head_handle ?s\<rparr>), head_handle := Some a\<rparr>"
  have "key_abs ?s xs"
    using assms by (simp add: key_abs_def)
  then have st: "button_start a ?s = Some (0, ?s1)" "key_abs ?s1 (a # xs)" using button_start_new [of ?s xs a b] assms(2) by simp_all
  have c: "key_item_configure (Some a) level gpio sp dp lp hp s = Some (0, ?s1)"
    using st(1) by (simp add: key_item_configure_def Let_def b_def)
  have "filter (\<lambda>x. user_data (the (key_heap ?s1 x)) \<noteq> gpio) (a # xs) = filter (\<lambda>x. user_data (the (key_heap s x)) \<noteq> gpio) xs"
    using assms(2) ud by (auto intro: filter_cong)
  then obtain s2 where s2: "unconf_loop gpio ?s1 = Some s2" "key_abs s2 (filter (\<lambda>x. user_data (the (key_heap s x)) \<noteq> gpio) xs)"
    using kr.sweep_ok [OF st(2), of gpio] by auto
  then have "key_item_unconfigure gpio ?s1 = Some (0, s2)" by (simp add: key_item_unconfigure_def)
  then show ?thesis using c st(2) s2(2) ud by (auto simp: key_item_configure_def)
qed

theorem key_configure_unconfigure_witness:
  "\<exists>s1 s2. key_item_configure (Some 0x400) 1 9 True False False False sim_keys = Some (0, s1)
     \<and> key_item_unconfigure 9 s1 = Some (0, s2) \<and> key_abs s2 [0x100]"
proof -
  have "filter (\<lambda>x. user_data (the (key_heap sim_keys x)) \<noteq> 9) [0x100, 0x200] = [0x100]"
    by (simp add: sim_keys_def sim_button_def button_attach_def button_init_def)
  then show ?thesis
    using key_configure_unconfigure [OF sim_keys_abs, of "0x400" 1 9 True False False False] by fastforce
qed

end
