(* ===== verification/Role_Launch.thy ===== *)
theory Role_Launch
  imports Prelude
begin

text \<open>
  The joint start of station and access point, \<open>func/joint_up/role_launch.c\<close>, for the builds with
  \<open>CFG_ROLE_LAUNCH\<close>, which have no \<open>CFG_WPA_CTRL_IFACE\<close> (\<open>RL_SUPPORT_FAST_CONNECT\<close> is 0). A request is put into a socket; a timer takes it
  from there and starts it, or lets it wait while an earlier request is being served; a second timer
  polls until the waiting request can be started.

  Conventions.
  \<^item> \<open>LAUNCH_DESCR\<close> is a type variable: the file only copies it. Its 0 is the structure of zero bytes.
  \<^item> An entity is an address in a heap; to free or to read one that is not allocated is \<open>None\<close>.
  \<^item> A timer of FreeRTOS is its handle and whether it is active; whether a command to the timer task is
    accepted is an argument, as are the results of the allocator.
  \<^item> The WLAN stack that the file starts and stops is an argument. What it does to the state of this
    file is a list of the calls of this file's functions that it makes; the calls to it are recorded.
\<close>

section \<open>Timers\<close>

record beken2_timer_t =
  handle :: bool
  active :: bool

datatype timer_cmd = xTimerCreate | xTimerStart | xTimerStop | xTimerReset | xTimerDelete

text \<open>
  The results are whether the status is \<open>kNoErr\<close>, and the timer. A command to a timer without a handle is an error
  of the program.
\<close>

definition rtos_init_oneshot_timer :: "(timer_cmd \<Rightarrow> bool) \<Rightarrow> beken2_timer_t \<Rightarrow> bool \<times> beken2_timer_t" where
  "rtos_init_oneshot_timer pass timer = (pass xTimerCreate, \<lparr>handle = pass xTimerCreate, active = False\<rparr>)"

definition rtos_start_oneshot_timer :: "(timer_cmd \<Rightarrow> bool) \<Rightarrow> beken2_timer_t \<Rightarrow> (bool \<times> beken2_timer_t) option" where
  "rtos_start_oneshot_timer pass timer =
     (if \<not> handle timer then None
      else if pass xTimerStart then Some (True, timer\<lparr>active := True\<rparr>) else Some (False, timer))"

definition rtos_stop_oneshot_timer :: "(timer_cmd \<Rightarrow> bool) \<Rightarrow> beken2_timer_t \<Rightarrow> (bool \<times> beken2_timer_t) option" where
  "rtos_stop_oneshot_timer pass timer =
     (if \<not> handle timer then None
      else if pass xTimerStop then Some (True, timer\<lparr>active := False\<rparr>) else Some (False, timer))"

definition rtos_is_oneshot_timer_init :: "beken2_timer_t \<Rightarrow> bool" where
  "rtos_is_oneshot_timer_init timer = handle timer"

definition rtos_oneshot_reload_timer :: "(timer_cmd \<Rightarrow> bool) \<Rightarrow> beken2_timer_t \<Rightarrow> (bool \<times> beken2_timer_t) option" where
  "rtos_oneshot_reload_timer pass timer =
     (if \<not> handle timer then None
      else if pass xTimerReset then Some (True, timer\<lparr>active := True\<rparr>) else Some (False, timer))"

definition rtos_deinit_oneshot_timer :: "(timer_cmd \<Rightarrow> bool) \<Rightarrow> beken2_timer_t \<Rightarrow> (bool \<times> beken2_timer_t) option" where
  "rtos_deinit_oneshot_timer pass timer =
     (if \<not> handle timer then None else Some (pass xTimerDelete, \<lparr>handle = False, active = False\<rparr>))"

text \<open>
  The expiry of a one-shot timer: it is dormant again, and \<open>timer_callback2\<close> calls its function if
  the timer still has a handle. A timer that is not active does not expire.
\<close>

definition timer_callback2 ::
  "('s \<Rightarrow> beken2_timer_t) \<Rightarrow> (beken2_timer_t \<Rightarrow> 's \<Rightarrow> 's) \<Rightarrow> ('s \<Rightarrow> 's option) \<Rightarrow> 's \<Rightarrow> 's option" where
  "timer_callback2 get put function s =
     (if \<not> active (get s) then Some s
      else do {
        let s = put ((get s)\<lparr>active := False\<rparr>) s;
        if \<not> handle (get s) then Some s else function s })"

section \<open>Data\<close>

definition LAUNCH_REQ_STA :: u32 where "LAUNCH_REQ_STA = 1"
definition LAUNCH_REQ_AP :: u32 where "LAUNCH_REQ_AP = 2"
definition LAUNCH_REQ_PURE_STA_SCAN :: u32 where "LAUNCH_REQ_PURE_STA_SCAN = 3"
definition LAUNCH_REQ_DELIF_STA :: u32 where "LAUNCH_REQ_DELIF_STA = 4"
definition LAUNCH_REQ_DELIF_AP :: u32 where "LAUNCH_REQ_DELIF_AP = 5"

definition LAUNCH_TYPE_ASAP :: u32 where "LAUNCH_TYPE_ASAP = 1"

definition LAUNCH_STATUS_OVER :: u32 where "LAUNCH_STATUS_OVER = 0"
definition LAUNCH_STATUS_CONT :: u32 where "LAUNCH_STATUS_CONT = 1"

definition RL_STATUS_CANCEL :: u32 where "RL_STATUS_CANCEL = 0x8000"

definition RL_STATUS_UNKNOWN :: u32 where "RL_STATUS_UNKNOWN = 0"
definition RL_STATUS_STA_INITING :: u32 where "RL_STATUS_STA_INITING = 1"
definition RL_STATUS_STA_SCANNING :: u32 where "RL_STATUS_STA_SCANNING = 2"
definition RL_STATUS_STA_SCAN_OVER :: u32 where "RL_STATUS_STA_SCAN_OVER = 3"
definition RL_STATUS_STA_CONNECTING :: u32 where "RL_STATUS_STA_CONNECTING = 4"
definition RL_STATUS_STA_DHCPING :: u32 where "RL_STATUS_STA_DHCPING = 5"
definition RL_STATUS_MROLE_CHANNEL_SWITCHING :: u32 where "RL_STATUS_MROLE_CHANNEL_SWITCHING = 6"
definition RL_STATUS_MROLE_CHANNEL_SWITCHED :: u32 where "RL_STATUS_MROLE_CHANNEL_SWITCHED = 7"
definition RL_STATUS_STA_LAUNCHED :: u32 where "RL_STATUS_STA_LAUNCHED = 9"
definition RL_STATUS_STA_LAUNCH_FAILED :: u32 where "RL_STATUS_STA_LAUNCH_FAILED = 10"
definition RL_STATUS_AP_INITING :: u32 where "RL_STATUS_AP_INITING = 0x11"
definition RL_STATUS_AP_TRANSMITTED_BCN :: u32 where "RL_STATUS_AP_TRANSMITTED_BCN = 0x14"
definition RL_STATUS_AP_LAUNCHED :: u32 where "RL_STATUS_AP_LAUNCHED = 0x15"

definition RL_TIMER_UNINIT :: u32 where "RL_TIMER_UNINIT = 0"
definition RL_TIMER_INIT :: u32 where "RL_TIMER_INIT = 1"
definition RL_TIMER_START :: u32 where "RL_TIMER_START = 2"
definition RL_TIMER_STOP :: u32 where "RL_TIMER_STOP = 3"

definition PRE_ENTITY_IDLE :: u32 where "PRE_ENTITY_IDLE = 0"
definition PRE_ENTITY_STA :: u32 where "PRE_ENTITY_STA = 1"
definition PRE_ENTITY_AP :: u32 where "PRE_ENTITY_AP = 2"

definition RL_PRIV_STATUS_MASK :: u32 where "RL_PRIV_STATUS_MASK = 0x00FF0000"
definition RL_PRIV_STATUS_STA_ADV :: u32 where "RL_PRIV_STATUS_STA_ADV = push_bit 16 1"
definition RL_PRIV_STATUS_STA_ADV_RDY :: u32 where "RL_PRIV_STATUS_STA_ADV_RDY = push_bit 17 1"
definition RL_ST_STATUS_MASK :: u32 where "RL_ST_STATUS_MASK = 0xFF000000"
definition RL_ST_STATUS_RESTART_HOLD :: u32 where "RL_ST_STATUS_RESTART_HOLD = push_bit 24 1"
definition RL_ST_STATUS_RESTART_ST :: u32 where "RL_ST_STATUS_RESTART_ST = push_bit 25 1"
definition RL_STA_STATE_MASK :: u32 where "RL_STA_STATE_MASK = RL_ST_STATUS_RESTART_HOLD OR RL_ST_STATUS_RESTART_ST"
definition RL_STA_STATE_HOLD :: u32 where "RL_STA_STATE_HOLD = RL_ST_STATUS_RESTART_HOLD"
definition RL_STATUS_BIT_MASK :: u32 where "RL_STATUS_BIT_MASK = 0x0000FFFF"
definition RL_STATUS_IDLE :: u32 where "RL_STATUS_IDLE = 0"
definition RL_STATUS_PENDING :: u32 where "RL_STATUS_PENDING = push_bit 0 1"
definition RL_STATUS_DOING :: u32 where "RL_STATUS_DOING = push_bit 1 1"
definition RL_STATUS_PAUSE :: u32 where "RL_STATUS_PAUSE = push_bit 7 1"
definition RL_STATUS_MASK :: u32 where "RL_STATUS_MASK = RL_STATUS_PAUSE"

definition RET_RL_SUCCESS :: u32 where "RET_RL_SUCCESS = 0"
definition RET_RL_FAILURE :: u32 where "RET_RL_FAILURE = 1"

record 'd LAUNCH_REQ =
  descr :: 'd
  req_type :: u32

record 'd RL_SOCKET_CACHE_T =
  cache_req_flag :: u32
  cache_param :: "'d LAUNCH_REQ"
  cache_completion :: u32

record 'd RL_SOCKET_T =
  sta_req_flag :: u32
  sta_param :: "'d LAUNCH_REQ"
  sta_completion :: u32
  ap_req_flag :: u32
  ap_param :: "'d LAUNCH_REQ"
  ap_completion :: u32

record 'd RL_ENTITY_T =
  launch_type :: u32
  relaunch_limit :: u32
  launch_count :: u32
  rlaunch :: "'d LAUNCH_REQ"
  completion_cb :: u32

record RL_T =
  enter_timer :: beken2_timer_t
  rl_timer :: beken2_timer_t
  rl_timer_flag :: u32
  rl_status :: u32
  pre_entity_type :: u32
  pre_sta_cancel :: u32
  pre_sta_status :: u32
  pre_ap_cancel :: u32
  pre_ap_status :: u32
  jl_previous_sta :: "nat option"
  jl_following_sta :: "nat option"
  jl_previous_ap :: "nat option"
  jl_following_ap :: "nat option"

text \<open>The calls of other files.\<close>

datatype 'd wlan_call = Bk_wlan_start_sta 'd | Demo_scan_app_init | Bk_wlan_stop_station
  | Bk_wlan_start_ap 'd | Bk_wlan_stop_softap | Mm_hw_ap_disable

text \<open>The fields of \<open>g_role_launch\<close>, the other global variables, the allocated entities and the calls made.\<close>

record 'd rl_world = RL_T +
  g_rl_socket :: "'d RL_SOCKET_T"
  g_sta_cache :: "'d RL_SOCKET_CACHE_T"
  g_mrole_csa_flag :: u32
  entities :: "nat \<rightharpoonup> 'd RL_ENTITY_T"
  wlan_log :: "'d wlan_call list"

text \<open>The functions of this file that the WLAN stack calls while it serves a call.\<close>

datatype 'd rl_callback =
    Cb_pre_sta_set_status u32 | Cb_pre_ap_set_status u32 | Cb_pre_sta_clear_cancel
  | Cb_set_st_state u32 | Cb_reset_st_state u32 | Cb_set_private_state u32 | Cb_reset_private_state u32
  | Cb_init_csa_status | Cb_set_csa_switching | Cb_set_csa_switched | Cb_register_cache_station "'d LAUNCH_REQ"

record 'd rl_env =
  timer_pass :: "timer_cmd \<Rightarrow> bool"
  os_zalloc :: "(nat \<rightharpoonup> 'd RL_ENTITY_T) \<Rightarrow> nat option"
  os_malloc :: bool
  bk_wlan_is_monitor_mode :: bool
  wlan_callbacks :: "'d wlan_call \<Rightarrow> 'd rl_world \<Rightarrow> 'd rl_callback list"

definition no_req :: "('d::zero) LAUNCH_REQ" where "no_req = \<lparr>descr = 0, req_type = 0\<rparr>"

definition no_socket :: "('d::zero) RL_SOCKET_T" where
  "no_socket = \<lparr>sta_req_flag = 0, sta_param = no_req, sta_completion = 0, ap_req_flag = 0, ap_param = no_req, ap_completion = 0\<rparr>"

definition no_cache :: "('d::zero) RL_SOCKET_CACHE_T" where
  "no_cache = \<lparr>cache_req_flag = 0, cache_param = no_req, cache_completion = 0\<rparr>"

text \<open>\<open>g_role_launch = {{0}}\<close> and the other variables before \<open>rl_init\<close>.\<close>

definition rl_boot :: "('d::zero) rl_world" where
  "rl_boot = \<lparr>enter_timer = \<lparr>handle = False, active = False\<rparr>, rl_timer = \<lparr>handle = False, active = False\<rparr>,
     rl_timer_flag = 0, rl_status = 0, pre_entity_type = 0, pre_sta_cancel = 0, pre_sta_status = 0, pre_ap_cancel = 0,
     pre_ap_status = 0, jl_previous_sta = None, jl_following_sta = None, jl_previous_ap = None, jl_following_ap = None,
     g_rl_socket = no_socket, g_sta_cache = no_cache, g_mrole_csa_flag = 0, entities = Map.empty, wlan_log = []\<rparr>"

section \<open>Status\<close>

definition rl_pre_sta_get_status :: "'d rl_world \<Rightarrow> u32" where "rl_pre_sta_get_status s = pre_sta_status s"

definition rl_pre_ap_get_status :: "'d rl_world \<Rightarrow> u32" where "rl_pre_ap_get_status s = pre_ap_status s"

definition rl_init_csa_status :: "'d rl_world \<Rightarrow> 'd rl_world" where "rl_init_csa_status s = s\<lparr>g_mrole_csa_flag := 0\<rparr>"

definition rl_set_csa_switching :: "'d rl_world \<Rightarrow> u32 \<times> 'd rl_world" where
  "rl_set_csa_switching s =
     (if pre_sta_cancel s \<noteq> 0 \<or> pre_ap_cancel s \<noteq> 0 then (RET_RL_FAILURE, s)
      else (RET_RL_SUCCESS, s\<lparr>g_mrole_csa_flag := RL_STATUS_MROLE_CHANNEL_SWITCHING\<rparr>))"

definition rl_set_csa_switched :: "'d rl_world \<Rightarrow> u32 \<times> 'd rl_world" where
  "rl_set_csa_switched s = (RET_RL_SUCCESS, s\<lparr>g_mrole_csa_flag := RL_STATUS_MROLE_CHANNEL_SWITCHED\<rparr>)"

definition rl_pre_sta_set_status :: "u32 \<Rightarrow> 'd rl_world \<Rightarrow> u32 \<times> 'd rl_world" where
  "rl_pre_sta_set_status status s =
     (if status = RL_STATUS_STA_SCANNING
         \<and> pre_sta_status s \<noteq> RL_STATUS_STA_INITING \<and> pre_sta_status s \<noteq> RL_STATUS_STA_SCAN_OVER then (6, s)
      else if status = RL_STATUS_STA_SCANNING \<and> pre_sta_cancel s \<noteq> 0 then (8, s)
      else (pre_sta_cancel s, s\<lparr>pre_sta_status := status\<rparr>))"

definition rl_pre_ap_disable_autobcn :: "'d rl_world \<Rightarrow> u32 \<times> 'd rl_world" where
  "rl_pre_ap_disable_autobcn s =
     (let s = (if pre_ap_cancel s \<noteq> 0 then s\<lparr>wlan_log := wlan_log s @ [Mm_hw_ap_disable]\<rparr> else s) in (pre_ap_cancel s, s))"

definition rl_pre_ap_set_status :: "u32 \<Rightarrow> 'd rl_world \<Rightarrow> u32 \<times> 'd rl_world" where
  "rl_pre_ap_set_status status s =
     (let cancel = pre_ap_cancel s in
      (cancel, s\<lparr>pre_ap_status := (if cancel \<noteq> 0 then status + RL_STATUS_CANCEL else status)\<rparr>))"

definition rl_pre_sta_set_cancel :: "'d rl_world \<Rightarrow> 'd rl_world" where "rl_pre_sta_set_cancel s = s\<lparr>pre_sta_cancel := 1\<rparr>"
definition rl_pre_sta_clear_cancel :: "'d rl_world \<Rightarrow> 'd rl_world" where "rl_pre_sta_clear_cancel s = s\<lparr>pre_sta_cancel := 0\<rparr>"
definition fl_get_pre_sta_cancel_status :: "'d rl_world \<Rightarrow> u32" where "fl_get_pre_sta_cancel_status s = pre_sta_cancel s"
definition rl_pre_ap_set_cancel :: "'d rl_world \<Rightarrow> 'd rl_world" where "rl_pre_ap_set_cancel s = s\<lparr>pre_ap_cancel := 1\<rparr>"
definition rl_pre_ap_clear_cancel :: "'d rl_world \<Rightarrow> 'd rl_world" where "rl_pre_ap_clear_cancel s = s\<lparr>pre_ap_cancel := 0\<rparr>"
definition fl_get_pre_ap_cancel_status :: "'d rl_world \<Rightarrow> u32" where "fl_get_pre_ap_cancel_status s = pre_ap_cancel s"

definition rl_pre_ap_init :: "'d rl_world \<Rightarrow> 'd rl_world" where
  "rl_pre_ap_init s = s\<lparr>pre_ap_cancel := 0, pre_ap_status := 0\<rparr>"

definition rl_pre_sta_init :: "'d rl_world \<Rightarrow> 'd rl_world" where
  "rl_pre_sta_init s = s\<lparr>pre_sta_cancel := 0, pre_sta_status := 0\<rparr>"

definition rl_status_is_idle :: "'d rl_world \<Rightarrow> bool" where
  "rl_status_is_idle s \<longleftrightarrow> rl_status s AND RL_STATUS_BIT_MASK AND NOT RL_STATUS_MASK = RL_STATUS_IDLE"

definition rl_status_set_pause :: "int \<Rightarrow> 'd rl_world \<Rightarrow> 'd rl_world" where
  "rl_status_set_pause en s =
     (if en \<noteq> 0 then s\<lparr>rl_status := rl_status s OR RL_STATUS_PAUSE\<rparr>
      else s\<lparr>rl_status := rl_status s AND NOT RL_STATUS_PAUSE\<rparr>)"

definition rl_status_set_private_state :: "u32 \<Rightarrow> 'd rl_world \<Rightarrow> 'd rl_world" where
  "rl_status_set_private_state st s = s\<lparr>rl_status := rl_status s OR (st AND RL_PRIV_STATUS_MASK)\<rparr>"

definition rl_status_reset_private_state :: "u32 \<Rightarrow> 'd rl_world \<Rightarrow> 'd rl_world" where
  "rl_status_reset_private_state st s = s\<lparr>rl_status := rl_status s AND NOT (st AND RL_PRIV_STATUS_MASK)\<rparr>"

definition rl_sta_adv_register_cache_station :: "'d LAUNCH_REQ \<Rightarrow> 'd rl_world \<Rightarrow> 'd rl_world" where
  "rl_sta_adv_register_cache_station lreq s =
     s\<lparr>g_sta_cache := \<lparr>cache_req_flag = 1, cache_param = lreq, cache_completion = 0\<rparr>\<rparr>"

definition rl_status_set_st_state :: "u32 \<Rightarrow> 'd rl_world \<Rightarrow> 'd rl_world" where
  "rl_status_set_st_state st s = s\<lparr>rl_status := rl_status s OR (st AND RL_ST_STATUS_MASK)\<rparr>"

definition rl_status_reset_st_state :: "u32 \<Rightarrow> 'd rl_world \<Rightarrow> 'd rl_world" where
  "rl_status_reset_st_state st s = s\<lparr>rl_status := rl_status s AND NOT (st AND RL_ST_STATUS_MASK)\<rparr>"

section \<open>Starting a request\<close>

fun rl_callback_run :: "'d rl_callback \<Rightarrow> 'd rl_world \<Rightarrow> 'd rl_world" where
  "rl_callback_run (Cb_pre_sta_set_status st) s = snd (rl_pre_sta_set_status st s)"
| "rl_callback_run (Cb_pre_ap_set_status st) s = snd (rl_pre_ap_set_status st s)"
| "rl_callback_run Cb_pre_sta_clear_cancel s = rl_pre_sta_clear_cancel s"
| "rl_callback_run (Cb_set_st_state st) s = rl_status_set_st_state st s"
| "rl_callback_run (Cb_reset_st_state st) s = rl_status_reset_st_state st s"
| "rl_callback_run (Cb_set_private_state st) s = rl_status_set_private_state st s"
| "rl_callback_run (Cb_reset_private_state st) s = rl_status_reset_private_state st s"
| "rl_callback_run Cb_init_csa_status s = rl_init_csa_status s"
| "rl_callback_run Cb_set_csa_switching s = snd (rl_set_csa_switching s)"
| "rl_callback_run Cb_set_csa_switched s = snd (rl_set_csa_switched s)"
| "rl_callback_run (Cb_register_cache_station lreq) s = rl_sta_adv_register_cache_station lreq s"

definition wlan_do :: "'d rl_env \<Rightarrow> 'd wlan_call \<Rightarrow> 'd rl_world \<Rightarrow> 'd rl_world" where
  "wlan_do E c s = fold rl_callback_run (wlan_callbacks E c s) (s\<lparr>wlan_log := wlan_log s @ [c]\<rparr>)"

definition rl_sta_request_start :: "'d rl_env \<Rightarrow> 'd LAUNCH_REQ \<Rightarrow> 'd rl_world \<Rightarrow> 'd rl_world" where
  "rl_sta_request_start E req s =
     (if req_type req = LAUNCH_REQ_STA then wlan_do E (Bk_wlan_start_sta (descr req)) (rl_pre_sta_init s)
      else if req_type req = LAUNCH_REQ_PURE_STA_SCAN then wlan_do E Demo_scan_app_init (rl_pre_sta_init s)
      else if req_type req = LAUNCH_REQ_DELIF_STA then wlan_do E Bk_wlan_stop_station s
      else s)"

definition rl_ap_request_start :: "'d rl_env \<Rightarrow> 'd LAUNCH_REQ \<Rightarrow> 'd rl_world \<Rightarrow> 'd rl_world" where
  "rl_ap_request_start E req s =
     (if req_type req = LAUNCH_REQ_AP then wlan_do E (Bk_wlan_start_ap (descr req)) (rl_pre_ap_init s)
      else if req_type req = LAUNCH_REQ_DELIF_AP then wlan_do E Bk_wlan_stop_softap s
      else s)"

definition rl_alloc_entity :: "'d rl_env \<Rightarrow> 'd LAUNCH_REQ \<Rightarrow> u32 \<Rightarrow> 'd rl_world \<Rightarrow> (nat \<times> 'd rl_world) option" where
  "rl_alloc_entity E param completion s = do {
     a \<leftarrow> os_zalloc E (entities s);
     let entity = \<lparr>launch_type = LAUNCH_TYPE_ASAP, relaunch_limit = 0, launch_count = 0, rlaunch = param, completion_cb = completion\<rparr>;
     Some (a, s\<lparr>entities := (entities s)(a \<mapsto> entity)\<rparr>) }"

definition rl_free_entity :: "nat \<Rightarrow> 'd rl_world \<Rightarrow> 'd rl_world option" where
  "rl_free_entity d s = (if entities s d = None then None else Some (s\<lparr>entities := (entities s)(d := None)\<rparr>))"

section \<open>Launching\<close>

definition rl_pre_sta_stop_launch :: u32 where "rl_pre_sta_stop_launch = 0"
definition rl_pre_ap_stop_launch :: u32 where "rl_pre_ap_stop_launch = 0"

definition rl_sta_is_launched :: "'d rl_world \<Rightarrow> bool" where
  "rl_sta_is_launched s \<longleftrightarrow>
     g_mrole_csa_flag s = RL_STATUS_MROLE_CHANNEL_SWITCHED \<or> rl_pre_sta_get_status s = RL_STATUS_STA_LAUNCHED"

definition rl_sta_may_next_launch :: "'d rl_world \<Rightarrow> u32" where
  "rl_sta_may_next_launch s =
     (let yes =
        (if g_mrole_csa_flag s = RL_STATUS_MROLE_CHANNEL_SWITCHED then 1
         else if pre_sta_cancel s \<noteq> 0
            \<and> (rl_pre_sta_get_status s = RL_STATUS_STA_DHCPING \<or> rl_pre_sta_get_status s = RL_STATUS_STA_INITING
               \<or> rl_pre_sta_get_status s = RL_STATUS_STA_SCAN_OVER \<or> rl_pre_sta_get_status s = RL_STATUS_STA_CONNECTING) then 2
         else if rl_pre_sta_get_status s = RL_STATUS_STA_LAUNCH_FAILED then 3
         else if rl_pre_sta_get_status s = RL_STATUS_STA_LAUNCHED then 4 else 0)
      in if g_mrole_csa_flag s = RL_STATUS_MROLE_CHANNEL_SWITCHING then 0 else yes)"

definition rl_ap_may_next_launch :: "bool \<Rightarrow> 'd rl_world \<Rightarrow> u32" where
  "rl_ap_may_next_launch pre_cancel s =
     (if \<not> pre_cancel then 1
      else
        (let yes = (if rl_pre_ap_get_status s = RL_STATUS_AP_TRANSMITTED_BCN + RL_STATUS_CANCEL
                      \<or> rl_pre_ap_get_status s AND NOT RL_STATUS_CANCEL = RL_STATUS_AP_LAUNCHED then 1 else 0)
         in if g_mrole_csa_flag s = RL_STATUS_MROLE_CHANNEL_SWITCHING then 0 else yes))"

text \<open>The conditions under which a request is started, and the flag that is set meanwhile.\<close>

definition rl_not_paused :: "'d rl_world \<Rightarrow> bool" where "rl_not_paused s \<longleftrightarrow> rl_status s AND RL_STATUS_MASK = 0"

definition rl_not_hold :: "'d rl_world \<Rightarrow> bool" where
  "rl_not_hold s \<longleftrightarrow> rl_status s AND RL_STA_STATE_MASK \<noteq> RL_STA_STATE_HOLD"

definition set_doing :: "'d rl_world \<Rightarrow> 'd rl_world" where "set_doing s = s\<lparr>rl_status := rl_status s OR RL_STATUS_DOING\<rparr>"
definition clear_doing :: "'d rl_world \<Rightarrow> 'd rl_world" where "clear_doing s = s\<lparr>rl_status := rl_status s AND NOT RL_STATUS_DOING\<rparr>"

definition is_asap :: "'d rl_world \<Rightarrow> nat option \<Rightarrow> bool option" where
  "is_asap s p = (case p of
     None \<Rightarrow> Some False
   | Some a \<Rightarrow> do { entity \<leftarrow> entities s a; Some (launch_type entity = LAUNCH_TYPE_ASAP) })"

definition over_limit :: "'d RL_ENTITY_T \<Rightarrow> bool" where
  "over_limit e \<longleftrightarrow> relaunch_limit e \<noteq> 0 \<and> launch_count e \<ge> relaunch_limit e"

text \<open>
  What \<open>rl_launch_sta\<close> does at two places once nothing is being served: the request that waits becomes
  the previous one and is started, or is freed. In the first place \<open>jl_previous_sta\<close> is \<open>NULL\<close> already.
\<close>

definition start_following_sta :: "'d rl_env \<Rightarrow> 'd rl_world \<Rightarrow> (u32 \<times> 'd rl_world) option" where
  "start_following_sta E s = do {
     let following = jl_following_sta s;
     let s = s\<lparr>jl_following_sta := None\<rparr>;
     if rl_not_paused s \<and> rl_not_hold s then do {
       let s = (set_doing s)\<lparr>jl_previous_sta := following\<rparr>;
       (ret, s) \<leftarrow>
         (case following of
            None \<Rightarrow> Some (LAUNCH_STATUS_OVER, s)
          | Some a \<Rightarrow> do {
              e \<leftarrow> entities s a;
              Some (LAUNCH_STATUS_CONT, rl_sta_request_start E (rlaunch e) s) });
       Some (ret, clear_doing s) }
     else do {
       s \<leftarrow> (case following of None \<Rightarrow> Some s | Some a \<Rightarrow> rl_free_entity a s);
       Some (LAUNCH_STATUS_OVER, s\<lparr>jl_previous_sta := None\<rparr>) } }"

definition rl_launch_sta :: "'d rl_env \<Rightarrow> 'd rl_world \<Rightarrow> (u32 \<times> 'd rl_world) option" where
  "rl_launch_sta E s =
     (case jl_previous_sta s of
        None \<Rightarrow> if jl_following_sta s = None then Some (LAUNCH_STATUS_OVER, s) else start_following_sta E s
      | Some previous \<Rightarrow> do {
          asap \<leftarrow> is_asap s (jl_following_sta s);
          let s = (if asap then rl_pre_sta_set_cancel s else s);
          pre_entity \<leftarrow> entities s previous;
          let s = (if over_limit pre_entity then rl_pre_sta_set_cancel s else s);
          if rl_sta_may_next_launch s \<noteq> 0 then do {
            s \<leftarrow> rl_free_entity previous s;
            start_following_sta E s }
          else Some (LAUNCH_STATUS_CONT, s) })"

definition start_following_ap :: "'d rl_env \<Rightarrow> 'd rl_world \<Rightarrow> (u32 \<times> 'd rl_world) option" where
  "start_following_ap E s = do {
     let following = jl_following_ap s;
     let s = s\<lparr>jl_following_ap := None\<rparr>;
     if rl_not_paused s then do {
       let s = (set_doing s)\<lparr>jl_previous_ap := following\<rparr>;
       (ret, s) \<leftarrow>
         (case following of
            None \<Rightarrow> Some (LAUNCH_STATUS_OVER, s)
          | Some a \<Rightarrow> do {
              let s = rl_pre_ap_init s;
              e \<leftarrow> entities s a;
              Some (LAUNCH_STATUS_CONT, rl_ap_request_start E (rlaunch e) s) });
       Some (ret, clear_doing s) }
     else do {
       s \<leftarrow> (case following of None \<Rightarrow> Some s | Some a \<Rightarrow> rl_free_entity a s);
       Some (LAUNCH_STATUS_OVER, s\<lparr>jl_previous_ap := None\<rparr>) } }"

definition rl_launch_ap :: "'d rl_env \<Rightarrow> 'd rl_world \<Rightarrow> (u32 \<times> 'd rl_world) option" where
  "rl_launch_ap E s =
     (case jl_previous_ap s of
        None \<Rightarrow> if jl_following_ap s = None then Some (LAUNCH_STATUS_OVER, s) else start_following_ap E s
      | Some previous \<Rightarrow> do {
          asap \<leftarrow> is_asap s (jl_following_ap s);
          let s = (if asap then rl_pre_ap_set_cancel s else s);
          pre_entity \<leftarrow> entities s previous;
          let s = (if over_limit pre_entity then rl_pre_ap_set_cancel s else s);
          if rl_ap_may_next_launch (asap \<or> over_limit pre_entity) s \<noteq> 0 then do {
            s \<leftarrow> rl_free_entity previous s;
            start_following_ap E s }
          else Some (LAUNCH_STATUS_CONT, s) })"

definition rl_relaunch_chance :: "'d rl_env \<Rightarrow> 'd rl_world \<Rightarrow> 'd rl_world option" where
  "rl_relaunch_chance E s =
     (if \<not> rtos_is_oneshot_timer_init (rl_timer s) then None
      else do {
        (ok, t) \<leftarrow> rtos_oneshot_reload_timer (timer_pass E) (rl_timer s);
        Some (s\<lparr>rl_timer := t\<rparr>) })"

definition rl_sta_req_is_null :: "'d rl_world \<Rightarrow> bool" where
  "rl_sta_req_is_null s \<longleftrightarrow> jl_previous_sta s = None \<and> jl_following_sta s = None"

definition rl_start :: "'d rl_env \<Rightarrow> 'd rl_world \<Rightarrow> 'd rl_world option" where
  "rl_start E s = do {
     (ok, t) \<leftarrow> rtos_stop_oneshot_timer (timer_pass E) (rl_timer s);
     let s = s\<lparr>rl_timer := t, rl_timer_flag := RL_TIMER_STOP\<rparr>;
     (ok, t) \<leftarrow> rtos_start_oneshot_timer (timer_pass E) (rl_timer s);
     if \<not> ok then None else Some (s\<lparr>rl_timer := t, rl_timer_flag := RL_TIMER_START\<rparr>) }"

text \<open>\<open>pre_entity_type\<close> becomes the type of the first entity.\<close>

definition note_type :: "u32 \<Rightarrow> bool \<Rightarrow> 'd rl_world \<Rightarrow> 'd rl_world" where
  "note_type t entity s = (if entity \<and> pre_entity_type s = PRE_ENTITY_IDLE then s\<lparr>pre_entity_type := t\<rparr> else s)"

definition sta_request_enter :: "'d rl_env \<Rightarrow> 'd LAUNCH_REQ \<Rightarrow> u32 \<Rightarrow> 'd rl_world \<Rightarrow> (u32 \<times> 'd rl_world) option" where
  "sta_request_enter E param completion s = do {
     let s = set_doing s;
     (ret, entity, s) \<leftarrow>
       (if jl_previous_ap s = None \<and> jl_previous_sta s = None \<and> rl_not_hold s then do {
          (entity, s) \<leftarrow> rl_alloc_entity E param completion s;
          let s = s\<lparr>jl_previous_sta := Some entity\<rparr>;
          Some (1, True, rl_sta_request_start E param s) }
        else if jl_following_sta s = None \<and> rl_not_hold s then do {
          (entity, s) \<leftarrow> rl_alloc_entity E param completion s;
          s \<leftarrow> rl_start E (s\<lparr>jl_following_sta := Some entity\<rparr>);
          Some (2, True, s) }
        else do {
          s \<leftarrow> rl_start E s;
          Some (0, False, s) });
     Some (ret, clear_doing (note_type PRE_ENTITY_STA entity s)) }"

definition ap_request_enter :: "'d rl_env \<Rightarrow> 'd LAUNCH_REQ \<Rightarrow> u32 \<Rightarrow> 'd rl_world \<Rightarrow> (u32 \<times> 'd rl_world) option" where
  "ap_request_enter E param completion s = do {
     (ret, entity, s) \<leftarrow>
       (if jl_previous_ap s = None \<and> jl_previous_sta s = None then do {
          (entity, s) \<leftarrow> rl_alloc_entity E param completion s;
          let s = s\<lparr>jl_previous_ap := Some entity\<rparr>;
          Some (1, True, rl_ap_request_start E param s) }
        else if jl_following_ap s = None then do {
          (entity, s) \<leftarrow> rl_alloc_entity E param completion s;
          s \<leftarrow> rl_start E (s\<lparr>jl_following_ap := Some entity\<rparr>);
          Some (2, True, s) }
        else do {
          s \<leftarrow> rl_start E s;
          Some (0, False, s) });
     Some (ret, note_type PRE_ENTITY_AP entity s) }"

text \<open>What \<open>rl_enter_handler\<close> does with the station request that it found in the socket, if there was one.\<close>

definition enter_sta :: "('d::zero) rl_env \<Rightarrow> 'd RL_SOCKET_T \<Rightarrow> 'd rl_world \<Rightarrow> 'd rl_world option" where
  "enter_sta E sock s =
     (if sta_req_flag sock = 0 then Some s
      else do {
        (ret, s) \<leftarrow> sta_request_enter E (sta_param sock) (sta_completion sock) s;
        Some (if ret \<noteq> 0 \<and> req_type (sta_param sock) = LAUNCH_REQ_STA
              then s\<lparr>g_sta_cache := \<lparr>cache_req_flag = 1, cache_param = sta_param sock, cache_completion = sta_completion sock\<rparr>\<rparr>
              else s) })"

definition enter_ap :: "'d rl_env \<Rightarrow> 'd RL_SOCKET_T \<Rightarrow> 'd rl_world \<Rightarrow> 'd rl_world option" where
  "enter_ap E sock s =
     (if ap_req_flag sock = 0 then Some s
      else do {
        (ret, s) \<leftarrow> ap_request_enter E (ap_param sock) (ap_completion sock) s;
        Some s })"

definition rl_enter_handler :: "('d::zero) rl_env \<Rightarrow> 'd rl_world \<Rightarrow> 'd rl_world option" where
  "rl_enter_handler E s =
     (if \<not> os_malloc E then Some s
      else do {
        let sock = g_rl_socket s;
        let s = s\<lparr>g_rl_socket := no_socket\<rparr>;
        if rl_not_paused s then do {
          let s = s\<lparr>rl_status := rl_status s OR RL_STATUS_PENDING\<rparr>;
          s \<leftarrow> enter_sta E sock s;
          s \<leftarrow> enter_ap E sock s;
          Some (s\<lparr>rl_status := rl_status s AND NOT RL_STATUS_PENDING\<rparr>) }
        else Some s })"

text \<open>Both request functions put the request into the socket and start the enter timer again.\<close>

definition restart_enter_timer :: "'d rl_env \<Rightarrow> 'd rl_world \<Rightarrow> 'd rl_world option" where
  "restart_enter_timer E s = do {
     (ok, t) \<leftarrow> rtos_stop_oneshot_timer (timer_pass E) (enter_timer s);
     (ok, t) \<leftarrow> rtos_start_oneshot_timer (timer_pass E) t;
     if \<not> ok then None else Some (s\<lparr>enter_timer := t\<rparr>) }"

definition rl_sta_request_enter_handle :: "'d rl_env \<Rightarrow> 'd LAUNCH_REQ \<Rightarrow> u32 \<Rightarrow> 'd rl_world \<Rightarrow> 'd rl_world option" where
  "rl_sta_request_enter_handle E param completion s =
     restart_enter_timer E
       (s\<lparr>g_rl_socket := (g_rl_socket s)\<lparr>sta_completion := completion, sta_param := param, sta_req_flag := 1\<rparr>\<rparr>)"

definition rl_sta_request_enter :: "'d rl_env \<Rightarrow> 'd LAUNCH_REQ \<Rightarrow> u32 \<Rightarrow> 'd rl_world \<Rightarrow> 'd rl_world option" where
  "rl_sta_request_enter E param completion s =
     rl_sta_request_enter_handle E param completion (rl_status_reset_st_state RL_ST_STATUS_RESTART_HOLD s)"

definition rl_ap_request_enter :: "'d rl_env \<Rightarrow> 'd LAUNCH_REQ \<Rightarrow> u32 \<Rightarrow> 'd rl_world \<Rightarrow> 'd rl_world option" where
  "rl_ap_request_enter E param completion s =
     restart_enter_timer E
       (s\<lparr>g_rl_socket := (g_rl_socket s)\<lparr>ap_completion := completion, ap_param := param, ap_req_flag := 1\<rparr>\<rparr>)"

definition rl_sta_cache_request_enter :: "('d::zero) rl_env \<Rightarrow> 'd rl_world \<Rightarrow> (u32 \<times> 'd rl_world) option" where
  "rl_sta_cache_request_enter E s = do {
     (ret, s) \<leftarrow>
       (if cache_req_flag (g_sta_cache s) \<noteq> 0 \<and> \<not> bk_wlan_is_monitor_mode E
           \<and> rl_status s AND RL_PRIV_STATUS_STA_ADV_RDY = 0 \<and> rl_not_hold s then do {
          let s = (if rl_status s AND RL_PRIV_STATUS_STA_ADV \<noteq> 0 then rl_status_reset_private_state RL_PRIV_STATUS_STA_ADV s else s);
          s \<leftarrow> rl_sta_request_enter_handle E (cache_param (g_sta_cache s)) (cache_completion (g_sta_cache s)) s;
          Some (1, s) }
        else if rl_status s AND RL_PRIV_STATUS_STA_ADV \<noteq> 0 \<and> rl_status s AND RL_PRIV_STATUS_STA_ADV_RDY = 0 then do {
          let s = rl_status_reset_private_state RL_PRIV_STATUS_STA_ADV s;
          s \<leftarrow> rl_sta_request_enter E (no_req\<lparr>req_type := LAUNCH_REQ_DELIF_STA\<rparr>) 0 s;
          Some (0, s) }
        else Some (0, s));
     Some (ret, s\<lparr>g_sta_cache := no_cache\<rparr>) }"

definition rl_launch_handler :: "'d rl_env \<Rightarrow> 'd rl_world \<Rightarrow> 'd rl_world option" where
  "rl_launch_handler E s = do {
     (sta_ret, ap_ret, s) \<leftarrow>
       (if pre_entity_type s = PRE_ENTITY_AP then do {
          (ap_ret, s) \<leftarrow> rl_launch_ap E s;
          if ap_ret = LAUNCH_STATUS_OVER then do {
            (sta_ret, s) \<leftarrow> rl_launch_sta E (s\<lparr>pre_entity_type := PRE_ENTITY_STA\<rparr>);
            Some (sta_ret, ap_ret, s) }
          else Some (LAUNCH_STATUS_OVER, ap_ret, s) }
        else if pre_entity_type s = PRE_ENTITY_STA then do {
          (sta_ret, s) \<leftarrow> rl_launch_sta E s;
          if sta_ret = LAUNCH_STATUS_OVER then do {
            (ap_ret, s) \<leftarrow> rl_launch_ap E (s\<lparr>pre_entity_type := PRE_ENTITY_AP\<rparr>);
            Some (sta_ret, ap_ret, s) }
          else Some (sta_ret, LAUNCH_STATUS_OVER, s) }
        else Some (LAUNCH_STATUS_OVER, LAUNCH_STATUS_OVER, s));
     if sta_ret = LAUNCH_STATUS_OVER \<and> ap_ret = LAUNCH_STATUS_OVER then Some s else rl_relaunch_chance E s }"

definition rl_init :: "'d rl_env \<Rightarrow> 'd rl_world \<Rightarrow> 'd rl_world option" where
  "rl_init E s =
     (let (ok, t) = rtos_init_oneshot_timer (timer_pass E) (rl_timer s); s = s\<lparr>rl_timer := t\<rparr> in
      if \<not> ok then None
      else
        (let (ok, t) = rtos_init_oneshot_timer (timer_pass E) (enter_timer s); s = s\<lparr>enter_timer := t\<rparr> in
         if \<not> ok then None else Some (s\<lparr>rl_timer_flag := RL_TIMER_INIT\<rparr>)))"

definition rl_stop :: "'d rl_env \<Rightarrow> 'd rl_world \<Rightarrow> 'd rl_world option" where
  "rl_stop E s = do {
     (ok, t) \<leftarrow> rtos_stop_oneshot_timer (timer_pass E) (rl_timer s);
     let s = s\<lparr>rl_timer := t\<rparr>;
     if \<not> ok then None
     else do {
       (ok, t) \<leftarrow> rtos_stop_oneshot_timer (timer_pass E) (enter_timer s);
       let s = s\<lparr>enter_timer := t\<rparr>;
       if \<not> ok then None else Some (s\<lparr>rl_timer_flag := RL_TIMER_STOP\<rparr>) } }"

definition rl_uninit :: "'d rl_env \<Rightarrow> 'd rl_world \<Rightarrow> 'd rl_world option" where
  "rl_uninit E s = do {
     s \<leftarrow> (if rl_timer_flag s = RL_TIMER_START then rl_stop E s else Some s);
     (ok, t) \<leftarrow> rtos_deinit_oneshot_timer (timer_pass E) (rl_timer s);
     let s = s\<lparr>rl_timer := t\<rparr>;
     if \<not> ok then None
     else do {
       (ok, t) \<leftarrow> rtos_deinit_oneshot_timer (timer_pass E) (enter_timer s);
       let s = s\<lparr>enter_timer := t\<rparr>;
       if \<not> ok then None else Some (s\<lparr>rl_timer_flag := RL_TIMER_UNINIT\<rparr>) } }"

section \<open>The WLAN interface\<close>

text \<open>
  The calls of this file that the functions of \<open>wlan_ui.c\<close> make before they return, in the builds with
  role launch: \<open>bk_wlan_stop\<close> for the station and for the access point, \<open>bk_wlan_start_sta\<close> and
  \<open>bk_wlan_start_ap\<close>, which stop and initialise, and the scan of \<open>demo_scan_app_init\<close>.
\<close>

definition bk_wlan_stop_station_calls :: "'d rl_callback list" where
  "bk_wlan_stop_station_calls =
     [Cb_pre_sta_set_status RL_STATUS_UNKNOWN, Cb_set_st_state RL_ST_STATUS_RESTART_HOLD, Cb_pre_sta_clear_cancel,
      Cb_pre_sta_set_status RL_STATUS_STA_LAUNCHED]"

definition bk_wlan_stop_softap_calls :: "'d rl_callback list" where
  "bk_wlan_stop_softap_calls = [Cb_set_csa_switched, Cb_pre_ap_set_status RL_STATUS_AP_LAUNCHED]"

definition bk_wlan_sta_init_calls :: "'d rl_callback list" where
  "bk_wlan_sta_init_calls = [Cb_init_csa_status, Cb_pre_sta_set_status RL_STATUS_STA_INITING]"

definition bk_wlan_ap_init_calls :: "'d rl_callback list" where
  "bk_wlan_ap_init_calls = [Cb_init_csa_status, Cb_pre_ap_set_status RL_STATUS_AP_INITING]"

fun wlan_ui_calls :: "'d wlan_call \<Rightarrow> 'd rl_callback list" where
  "wlan_ui_calls (Bk_wlan_start_sta d) = Cb_set_st_state RL_ST_STATUS_RESTART_ST # bk_wlan_stop_station_calls
     @ Cb_reset_st_state (RL_ST_STATUS_RESTART_HOLD OR RL_ST_STATUS_RESTART_ST) # bk_wlan_sta_init_calls"
| "wlan_ui_calls (Bk_wlan_start_ap d) = bk_wlan_stop_softap_calls @ bk_wlan_ap_init_calls"
| "wlan_ui_calls Demo_scan_app_init =
     Cb_reset_st_state (RL_ST_STATUS_RESTART_HOLD OR RL_ST_STATUS_RESTART_ST) # bk_wlan_sta_init_calls"
| "wlan_ui_calls Bk_wlan_stop_station = bk_wlan_stop_station_calls"
| "wlan_ui_calls Bk_wlan_stop_softap = bk_wlan_stop_softap_calls"
| "wlan_ui_calls Mm_hw_ap_disable = []"

text \<open>\<open>bk_wlan_start\<close>, the client of the request functions; \<open>wifi_mode\<close> is a field of the descriptor.\<close>

datatype wifi_mode = BK_SOFT_AP | BK_STATION | BK_P2P

definition bk_wlan_start :: "'d rl_env \<Rightarrow> ('d \<Rightarrow> wifi_mode) \<Rightarrow> 'd \<Rightarrow> 'd rl_world \<Rightarrow> 'd rl_world option" where
  "bk_wlan_start E mode inNetworkInitPara s =
     (if bk_wlan_is_monitor_mode E then Some s
      else (case mode inNetworkInitPara of
              BK_SOFT_AP \<Rightarrow> rl_ap_request_enter E \<lparr>descr = inNetworkInitPara, req_type = LAUNCH_REQ_AP\<rparr> 0 s
            | _ \<Rightarrow> rl_sta_request_enter E \<lparr>descr = inNetworkInitPara, req_type = LAUNCH_REQ_STA\<rparr> 0
                     (rl_status_reset_private_state RL_PRIV_STATUS_STA_ADV s)))"

section \<open>Events\<close>

text \<open>
  What happens to the state: a request of the application, the expiry of a timer, a call by the WLAN
  stack or by the application. Each event has its own environment. \<open>rl_init\<close> comes before all events;
  \<open>rl_stop\<close> and \<open>rl_uninit\<close> are not called by any file.
\<close>

datatype 'd rl_ev =
    Ev_sta_request "'d LAUNCH_REQ" u32 | Ev_ap_request "'d LAUNCH_REQ" u32 | Ev_cache_request
  | Ev_enter_timer | Ev_launch_timer | Ev_callback "'d rl_callback" | Ev_autobcn | Ev_pause int

fun rl_event :: "('d::zero) rl_env \<times> 'd rl_ev \<Rightarrow> 'd rl_world \<Rightarrow> 'd rl_world option" where
  "rl_event (E, Ev_sta_request param completion) s = rl_sta_request_enter E param completion s"
| "rl_event (E, Ev_ap_request param completion) s = rl_ap_request_enter E param completion s"
| "rl_event (E, Ev_cache_request) s = map_option snd (rl_sta_cache_request_enter E s)"
| "rl_event (E, Ev_enter_timer) s = timer_callback2 enter_timer (\<lambda>t. enter_timer_update (\<lambda>_. t)) (rl_enter_handler E) s"
| "rl_event (E, Ev_launch_timer) s = timer_callback2 rl_timer (\<lambda>t. rl_timer_update (\<lambda>_. t)) (rl_launch_handler E) s"
| "rl_event (E, Ev_callback c) s = Some (rl_callback_run c s)"
| "rl_event (E, Ev_autobcn) s = Some (snd (rl_pre_ap_disable_autobcn s))"
| "rl_event (E, Ev_pause en) s = Some (rl_status_set_pause en s)"

fun rl_run :: "(('d::zero) rl_env \<times> 'd rl_ev) list \<Rightarrow> 'd rl_world \<Rightarrow> 'd rl_world option" where
  "rl_run [] s = Some s"
| "rl_run (x # xs) s = rl_event x s \<bind> rl_run xs"

end
