(* ===== verification/Role_Launch_Slots.thy ===== *)
theory Role_Launch_Slots
  imports Role_Launch "HOL-Library.Sublist"
begin

text \<open>
  Properties of the joint start.
\<close>

lemmas rl_masks = RL_PRIV_STATUS_MASK_def RL_ST_STATUS_MASK_def RL_STATUS_BIT_MASK_def RL_STATUS_MASK_def RL_STATUS_PAUSE_def
  RL_STATUS_DOING_def RL_STATUS_PENDING_def RL_STATUS_IDLE_def

section \<open>The status word\<close>

text \<open>The pause flag, and the other flags of the low half.\<close>

definition paused :: "u32 \<Rightarrow> bool" where "paused w \<longleftrightarrow> bit w 7"

definition busy :: "u32 \<Rightarrow> u32" where "busy w = w AND 0xFF7F"

lemma rl_not_paused_iff: "rl_not_paused s \<longleftrightarrow> \<not> paused (rl_status s)"
  using and_exp_eq_0_iff_not_bit [of "rl_status s" 7] by (simp add: rl_not_paused_def paused_def rl_masks)

lemma rl_status_is_idle_iff: "rl_status_is_idle s \<longleftrightarrow> busy (rl_status s) = 0"
  by (simp add: rl_status_is_idle_def busy_def rl_masks and.assoc)

text \<open>An update of the status word changes the flags by the part of its mask below bit 16.\<close>

lemma busy_or: "busy (w OR m) = busy w OR busy m"
  and busy_and_not: "busy (w AND NOT m) = busy w AND NOT (busy m)"
  by (rule bit_word_eqI, auto simp: busy_def bit_simps)+

lemma paused_or: "paused (w OR m) \<longleftrightarrow> paused w \<or> paused m"
  and paused_and_not: "paused (w AND NOT m) \<longleftrightarrow> paused w \<and> \<not> paused m"
  by (auto simp: paused_def bit_simps)

lemma mask_low: "busy (st AND RL_PRIV_STATUS_MASK) = 0" "busy (st AND RL_ST_STATUS_MASK) = 0"
  "\<not> paused (st AND RL_PRIV_STATUS_MASK)" "\<not> paused (st AND RL_ST_STATUS_MASK)"
  by (simp_all add: busy_def paused_def rl_masks and.assoc bit_simps)

lemma flag_low: "busy RL_STATUS_DOING = 2" "busy RL_STATUS_PENDING = 1" "busy RL_STATUS_PAUSE = 0"
  "\<not> paused RL_STATUS_DOING" "\<not> paused RL_STATUS_PENDING" "paused RL_STATUS_PAUSE"
  by (simp_all add: busy_def paused_def rl_masks)

lemmas status_simps [simp] = busy_or busy_and_not paused_or paused_and_not mask_low flag_low

section \<open>What the WLAN stack can change\<close>

text \<open>The part of the state that no call of the WLAN stack changes.\<close>

definition core where
  "core s = (rl_timer s, enter_timer s, rl_timer_flag s, pre_entity_type s, jl_previous_sta s, jl_following_sta s,
     jl_previous_ap s, jl_following_ap s, g_rl_socket s, entities s, busy (rl_status s), paused (rl_status s))"

lemma core_status_update:
  assumes "busy w = busy (rl_status s)" "paused w = paused (rl_status s)"
  shows "core (s\<lparr>rl_status := w\<rparr>) = core s"
  using assms by (simp add: core_def)

lemma core_st_state: "core (rl_status_set_st_state st s) = core s" "core (rl_status_reset_st_state st s) = core s"
  "core (rl_status_set_private_state st s) = core s" "core (rl_status_reset_private_state st s) = core s"
  unfolding rl_status_set_st_state_def rl_status_reset_st_state_def rl_status_set_private_state_def rl_status_reset_private_state_def
  by (rule core_status_update; simp only: status_simps bit.compl_zero and.right_neutral or.right_neutral simp_thms; fail)+

lemma rl_status_log: "wlan_log (rl_status_set_st_state st s) = wlan_log s" "wlan_log (rl_status_reset_st_state st s) = wlan_log s"
  "wlan_log (rl_status_set_private_state st s) = wlan_log s" "wlan_log (rl_status_reset_private_state st s) = wlan_log s"
  by (simp_all add: rl_status_set_st_state_def rl_status_reset_st_state_def rl_status_set_private_state_def rl_status_reset_private_state_def)

lemma core_unrelated: "core (s\<lparr>pre_sta_status := v\<rparr>) = core s" "core (s\<lparr>pre_ap_status := v\<rparr>) = core s"
  "core (s\<lparr>pre_sta_cancel := v\<rparr>) = core s" "core (s\<lparr>pre_ap_cancel := v\<rparr>) = core s"
  "core (s\<lparr>g_mrole_csa_flag := v\<rparr>) = core s" "core (s\<lparr>g_sta_cache := k\<rparr>) = core s" "core (s\<lparr>wlan_log := l\<rparr>) = core s"
  by (simp_all add: core_def)

lemma core_callback: "core (rl_callback_run c s) = core s" "wlan_log (rl_callback_run c s) = wlan_log s"
  by (cases c; simp add: core_st_state core_unrelated rl_pre_sta_set_status_def rl_pre_ap_set_status_def rl_pre_sta_clear_cancel_def
      rl_init_csa_status_def rl_set_csa_switching_def rl_set_csa_switched_def rl_sta_adv_register_cache_station_def Let_def
      rl_status_log)+

lemma core_callbacks: "core (fold rl_callback_run cs s) = core s" "wlan_log (fold rl_callback_run cs s) = wlan_log s"
  by (induction cs arbitrary: s) (simp_all add: core_callback)

lemma core_wlan_do: "core (wlan_do E c s) = core s" "wlan_log (wlan_do E c s) = wlan_log s @ [c]"
  by (simp_all add: wlan_do_def core_callbacks core_unrelated)

definition sta_call :: "'d LAUNCH_REQ \<Rightarrow> 'd wlan_call list" where
  "sta_call req =
     (if req_type req = LAUNCH_REQ_STA then [Bk_wlan_start_sta (descr req)]
      else if req_type req = LAUNCH_REQ_PURE_STA_SCAN then [Demo_scan_app_init]
      else if req_type req = LAUNCH_REQ_DELIF_STA then [Bk_wlan_stop_station] else [])"

definition ap_call :: "'d LAUNCH_REQ \<Rightarrow> 'd wlan_call list" where
  "ap_call req =
     (if req_type req = LAUNCH_REQ_AP then [Bk_wlan_start_ap (descr req)]
      else if req_type req = LAUNCH_REQ_DELIF_AP then [Bk_wlan_stop_softap] else [])"

lemma core_sta_request_start:
  "core (rl_sta_request_start E r s) = core s" "wlan_log (rl_sta_request_start E r s) = wlan_log s @ sta_call r"
  by (simp_all add: rl_sta_request_start_def core_wlan_do sta_call_def rl_pre_sta_init_def core_unrelated)

lemma core_ap_request_start:
  "core (rl_ap_request_start E r s) = core s" "wlan_log (rl_ap_request_start E r s) = wlan_log s @ ap_call r"
  by (simp_all add: rl_ap_request_start_def core_wlan_do ap_call_def rl_pre_ap_init_def core_unrelated)

lemma coreD:
  assumes "core s' = core s"
  shows "rl_timer s' = rl_timer s" "enter_timer s' = enter_timer s" "rl_timer_flag s' = rl_timer_flag s" "pre_entity_type s' = pre_entity_type s"
    "jl_previous_sta s' = jl_previous_sta s" "jl_following_sta s' = jl_following_sta s" "jl_previous_ap s' = jl_previous_ap s"
    "jl_following_ap s' = jl_following_ap s" "g_rl_socket s' = g_rl_socket s" "entities s' = entities s" "busy (rl_status s') = busy (rl_status s)" "paused (rl_status s') = paused (rl_status s)"
  using assms by (simp_all add: core_def)

lemmas sta_start_frame [simp] = coreD [OF core_sta_request_start(1)] core_sta_request_start(2)
lemmas ap_start_frame [simp] = coreD [OF core_ap_request_start(1)] core_ap_request_start(2)
lemmas callback_frame [simp] = coreD [OF core_callback(1)] core_callback(2)

section \<open>Slots\<close>

text \<open>
  A role has the slot of the request being served and the slot of the request that waits. Every
  allocated entity is in exactly one of the four slots.
\<close>

definition opt_list :: "'a option \<Rightarrow> 'a list" where "opt_list p = (case p of None \<Rightarrow> [] | Some a \<Rightarrow> [a])"

lemma opt_list_simps [simp]: "opt_list None = []" "opt_list (Some a) = [a]" by (simp_all add: opt_list_def)

definition mem_ok :: "nat option \<Rightarrow> nat option \<Rightarrow> nat option \<Rightarrow> nat option \<Rightarrow> (nat \<rightharpoonup> 'e) \<Rightarrow> bool" where
  "mem_ok p f p' f' h \<longleftrightarrow> distinct (opt_list p @ opt_list f @ opt_list p' @ opt_list f')
     \<and> dom h = set (opt_list p @ opt_list f @ opt_list p' @ opt_list f')"

lemma mem_ok_swap: "mem_ok p f p' f' h \<longleftrightarrow> mem_ok p' f' p f h"
  by (auto simp: mem_ok_def)

lemma mem_okD: "mem_ok p f p' f' h \<Longrightarrow> p = Some a \<or> f = Some a \<Longrightarrow> \<exists>e. h a = Some e"
  by (fastforce simp: mem_ok_def)

text \<open>
  The three things that polling a role does: it waits for the request being served; it drops that one and starts the
  request that waits; or it drops both.
\<close>

definition slot_launch :: "('d LAUNCH_REQ \<Rightarrow> 'd wlan_call list) \<Rightarrow> bool \<Rightarrow> nat option \<Rightarrow> nat option \<Rightarrow> (nat \<rightharpoonup> 'd RL_ENTITY_T) \<Rightarrow> 'd wlan_call list
    \<Rightarrow> u32 \<Rightarrow> nat option \<Rightarrow> nat option \<Rightarrow> (nat \<rightharpoonup> 'd RL_ENTITY_T) \<Rightarrow> 'd wlan_call list \<Rightarrow> bool" where
  "slot_launch call pz p f h l ret p' f' h' l' \<longleftrightarrow>
     ret = LAUNCH_STATUS_CONT \<and> p \<noteq> None \<and> p' = p \<and> f' = f \<and> h' = h \<and> l' = l
   \<or> ret = LAUNCH_STATUS_CONT \<and> \<not> pz \<and> f' = None
       \<and> (\<exists>a e. f = Some a \<and> h a = Some e \<and> p' = Some a \<and> h' = h |` (- set (opt_list p)) \<and> l' = l @ call (rlaunch e))
   \<or> ret = LAUNCH_STATUS_OVER \<and> p' = None \<and> f' = None \<and> h' = h |` (- set (opt_list p @ opt_list f)) \<and> l' = l"

text \<open>
  A new request is started at once, or waits, or is refused.
\<close>

definition slot_enter :: "('d LAUNCH_REQ \<Rightarrow> 'd wlan_call list) \<Rightarrow> 'd LAUNCH_REQ \<Rightarrow> nat option \<Rightarrow> nat option \<Rightarrow> (nat \<rightharpoonup> 'd RL_ENTITY_T) \<Rightarrow> 'd wlan_call list
    \<Rightarrow> nat option \<Rightarrow> u32 \<Rightarrow> nat option \<Rightarrow> nat option \<Rightarrow> (nat \<rightharpoonup> 'd RL_ENTITY_T) \<Rightarrow> 'd wlan_call list \<Rightarrow> bool" where
  "slot_enter call r p f h l z ret p' f' h' l' \<longleftrightarrow>
     ret = 1 \<and> p = None \<and> f' = f \<and> (\<exists>a e. z = Some a \<and> p' = Some a \<and> h' = h(a \<mapsto> e) \<and> rlaunch e = r \<and> launch_type e = LAUNCH_TYPE_ASAP \<and> relaunch_limit e = 0) \<and> l' = l @ call r
   \<or> ret = 2 \<and> f = None \<and> p' = p \<and> (\<exists>a e. z = Some a \<and> f' = Some a \<and> h' = h(a \<mapsto> e) \<and> rlaunch e = r \<and> launch_type e = LAUNCH_TYPE_ASAP \<and> relaunch_limit e = 0) \<and> l' = l
   \<or> ret = 0 \<and> p' = p \<and> f' = f \<and> h' = h \<and> l' = l"

text \<open>What polling keeps of the rest of the state.\<close>

definition rest_kept :: "'d rl_world \<Rightarrow> 'd rl_world \<Rightarrow> bool" where
  "rest_kept s s' \<longleftrightarrow> rl_timer s' = rl_timer s \<and> enter_timer s' = enter_timer s \<and> rl_timer_flag s' = rl_timer_flag s
     \<and> pre_entity_type s' = pre_entity_type s \<and> g_rl_socket s' = g_rl_socket s
     \<and> paused (rl_status s') = paused (rl_status s) \<and> (busy (rl_status s) AND 2 = 0 \<longrightarrow> busy (rl_status s') = busy (rl_status s))"

lemma or_and_not_2:
  fixes x :: u32
  assumes "x AND 2 = 0"
  shows "(x OR 2) AND NOT 2 = x" "x AND NOT 2 = x"
proof -
  have b: "bit (2 :: u32) n \<longleftrightarrow> n = 1" for n
    using bit_exp_iff [of 1 n, where ?'a = u32] by auto
  have x: "\<not> bit x 1" using assms and_exp_eq_0_iff_not_bit [of x 1] by simp
  show "(x OR 2) AND NOT 2 = x" "x AND NOT 2 = x"
    by (rule bit_word_eqI, use x in \<open>auto simp: bit_simps b simp del: One_nat_def\<close>)+
qed

lemmas clear_2 = or_and_not_2 or_and_not_2 [simplified]

lemma set_doing_frame [simp]:
  "rl_timer (set_doing s) = rl_timer s" "enter_timer (set_doing s) = enter_timer s" "rl_timer_flag (set_doing s) = rl_timer_flag s"
  "pre_entity_type (set_doing s) = pre_entity_type s" "jl_previous_sta (set_doing s) = jl_previous_sta s"
  "jl_following_sta (set_doing s) = jl_following_sta s" "jl_previous_ap (set_doing s) = jl_previous_ap s"
  "jl_following_ap (set_doing s) = jl_following_ap s" "g_rl_socket (set_doing s) = g_rl_socket s" "entities (set_doing s) = entities s"
  "wlan_log (set_doing s) = wlan_log s" "busy (rl_status (set_doing s)) = busy (rl_status s) OR 2"
  "paused (rl_status (set_doing s)) = paused (rl_status s)"
  by (simp_all add: set_doing_def)

lemma clear_doing_frame [simp]:
  "rl_timer (clear_doing s) = rl_timer s" "enter_timer (clear_doing s) = enter_timer s" "rl_timer_flag (clear_doing s) = rl_timer_flag s"
  "pre_entity_type (clear_doing s) = pre_entity_type s" "jl_previous_sta (clear_doing s) = jl_previous_sta s"
  "jl_following_sta (clear_doing s) = jl_following_sta s" "jl_previous_ap (clear_doing s) = jl_previous_ap s"
  "jl_following_ap (clear_doing s) = jl_following_ap s" "g_rl_socket (clear_doing s) = g_rl_socket s" "entities (clear_doing s) = entities s"
  "wlan_log (clear_doing s) = wlan_log s" "busy (rl_status (clear_doing s)) = busy (rl_status s) AND NOT 2"
  "paused (rl_status (clear_doing s)) = paused (rl_status s)"
  by (simp_all only: clear_doing_def status_simps) simp_all

lemmas cancel_defs = rl_pre_sta_set_cancel_def rl_pre_ap_set_cancel_def rl_pre_ap_init_def

lemma restrict_all [simp]: "h |` UNIV = h" by (simp add: restrict_map_def)

lemma restrict_remove: "h(a := None) = h |` (- {a})" by (auto simp: restrict_map_def fun_eq_iff)

lemma rl_free_entity_Some:
  "rl_free_entity d s = Some s' \<longleftrightarrow> entities s d \<noteq> None \<and> s' = s\<lparr>entities := entities s |` (- {d})\<rparr>"
  by (auto simp: rl_free_entity_def restrict_remove)

section \<open>Polling\<close>

lemma not_paused_upd [simp]:
  "rl_not_paused (s\<lparr>jl_following_sta := x\<rparr>) = rl_not_paused s" "rl_not_paused (s\<lparr>jl_following_ap := x\<rparr>) = rl_not_paused s"
  "rl_not_paused (s\<lparr>entities := h\<rparr>) = rl_not_paused s" "rl_not_paused (rl_pre_sta_set_cancel s) = rl_not_paused s"
  "rl_not_paused (rl_pre_ap_set_cancel s) = rl_not_paused s"
  by (simp_all add: rl_not_paused_def cancel_defs)

lemma cancel_frame [simp]:
  "rl_timer (rl_pre_sta_set_cancel s) = rl_timer s" "enter_timer (rl_pre_sta_set_cancel s) = enter_timer s"
  "rl_timer_flag (rl_pre_sta_set_cancel s) = rl_timer_flag s" "rl_status (rl_pre_sta_set_cancel s) = rl_status s"
  "pre_entity_type (rl_pre_sta_set_cancel s) = pre_entity_type s" "jl_previous_sta (rl_pre_sta_set_cancel s) = jl_previous_sta s"
  "jl_following_sta (rl_pre_sta_set_cancel s) = jl_following_sta s" "jl_previous_ap (rl_pre_sta_set_cancel s) = jl_previous_ap s"
  "jl_following_ap (rl_pre_sta_set_cancel s) = jl_following_ap s" "g_rl_socket (rl_pre_sta_set_cancel s) = g_rl_socket s"
  "entities (rl_pre_sta_set_cancel s) = entities s" "wlan_log (rl_pre_sta_set_cancel s) = wlan_log s"
  by (simp_all add: rl_pre_sta_set_cancel_def)

lemma cancel_ap_frame [simp]:
  "rl_timer (rl_pre_ap_set_cancel s) = rl_timer s" "enter_timer (rl_pre_ap_set_cancel s) = enter_timer s"
  "rl_timer_flag (rl_pre_ap_set_cancel s) = rl_timer_flag s" "rl_status (rl_pre_ap_set_cancel s) = rl_status s"
  "pre_entity_type (rl_pre_ap_set_cancel s) = pre_entity_type s" "jl_previous_sta (rl_pre_ap_set_cancel s) = jl_previous_sta s"
  "jl_following_sta (rl_pre_ap_set_cancel s) = jl_following_sta s" "jl_previous_ap (rl_pre_ap_set_cancel s) = jl_previous_ap s"
  "jl_following_ap (rl_pre_ap_set_cancel s) = jl_following_ap s" "g_rl_socket (rl_pre_ap_set_cancel s) = g_rl_socket s"
  "entities (rl_pre_ap_set_cancel s) = entities s" "wlan_log (rl_pre_ap_set_cancel s) = wlan_log s"
  by (simp_all add: rl_pre_ap_set_cancel_def)

lemma pre_ap_init_frame [simp]:
  "rl_timer (rl_pre_ap_init s) = rl_timer s" "enter_timer (rl_pre_ap_init s) = enter_timer s"
  "rl_timer_flag (rl_pre_ap_init s) = rl_timer_flag s" "rl_status (rl_pre_ap_init s) = rl_status s"
  "pre_entity_type (rl_pre_ap_init s) = pre_entity_type s" "jl_previous_sta (rl_pre_ap_init s) = jl_previous_sta s"
  "jl_following_sta (rl_pre_ap_init s) = jl_following_sta s" "jl_previous_ap (rl_pre_ap_init s) = jl_previous_ap s"
  "jl_following_ap (rl_pre_ap_init s) = jl_following_ap s" "g_rl_socket (rl_pre_ap_init s) = g_rl_socket s"
  "entities (rl_pre_ap_init s) = entities s" "wlan_log (rl_pre_ap_init s) = wlan_log s"
  by (simp_all add: rl_pre_ap_init_def)

lemma start_following_sta_slots:
  assumes "start_following_sta E s = Some (ret, s')"
  shows "(ret = LAUNCH_STATUS_CONT \<and> \<not> paused (rl_status s) \<and> (\<exists>a e. jl_following_sta s = Some a \<and> entities s a = Some e
            \<and> jl_previous_sta s' = Some a \<and> entities s' = entities s \<and> wlan_log s' = wlan_log s @ sta_call (rlaunch e))
        \<or> ret = LAUNCH_STATUS_OVER \<and> jl_previous_sta s' = None \<and> entities s' = entities s |` (- set (opt_list (jl_following_sta s))) \<and> wlan_log s' = wlan_log s)
    \<and> jl_following_sta s' = None \<and> jl_previous_ap s' = jl_previous_ap s \<and> jl_following_ap s' = jl_following_ap s \<and> rest_kept s s'"
  using assms
  by (cases "jl_following_sta s")
    (auto simp: start_following_sta_def rest_kept_def clear_2 rl_not_paused_iff rl_free_entity_Some Let_def split: bind_split_asm if_split_asm)

lemma rl_launch_sta_slots:
  assumes "rl_launch_sta E s = Some (ret, s')"
  shows "slot_launch sta_call (paused (rl_status s)) (jl_previous_sta s) (jl_following_sta s) (entities s) (wlan_log s)
           ret (jl_previous_sta s') (jl_following_sta s') (entities s') (wlan_log s')
    \<and> jl_previous_ap s' = jl_previous_ap s \<and> jl_following_ap s' = jl_following_ap s \<and> rest_kept s s'"
proof (cases "jl_previous_sta s")
  case None
  show ?thesis
  proof (cases "jl_following_sta s = None")
    case True
    then show ?thesis using assms None by (auto simp: rl_launch_sta_def slot_launch_def rest_kept_def)
  next
    case False
    then show ?thesis using assms None start_following_sta_slots [of E s ret s'] by (auto simp: rl_launch_sta_def slot_launch_def)
  qed
next
  case (Some p)
  from assms obtain asap e where asap: "is_asap s (jl_following_sta s) = Some asap" and e: "entities s p = Some e"
    by (auto simp: rl_launch_sta_def Some Let_def split: bind_split_asm if_split_asm)
  define s1 where "s1 = (let s = (if asap then rl_pre_sta_set_cancel s else s) in if over_limit e then rl_pre_sta_set_cancel s else s)"
  have s1: "rest_kept s s1" "rl_status s1 = rl_status s" "jl_previous_sta s1 = jl_previous_sta s" "jl_following_sta s1 = jl_following_sta s"
    "jl_previous_ap s1 = jl_previous_ap s" "jl_following_ap s1 = jl_following_ap s" "entities s1 = entities s" "wlan_log s1 = wlan_log s"
    by (simp_all add: s1_def Let_def rest_kept_def)
  from assms asap e Some consider "ret = LAUNCH_STATUS_CONT" "s' = s1"
    | "start_following_sta E (s1\<lparr>entities := entities s1 |` (- {p})\<rparr>) = Some (ret, s')"
    by (auto simp: rl_launch_sta_def Let_def s1_def rl_free_entity_Some split: if_split_asm bind_split_asm)
  then show ?thesis
  proof cases
    case 1
    then show ?thesis using s1 Some by (simp add: slot_launch_def)
  next
    case 2
    from start_following_sta_slots [OF this] show ?thesis using s1 Some
      by (auto simp: slot_launch_def rest_kept_def restrict_map_def fun_eq_iff split: if_split_asm)
  qed
qed

lemma start_following_ap_slots:
  assumes "start_following_ap E s = Some (ret, s')"
  shows "(ret = LAUNCH_STATUS_CONT \<and> \<not> paused (rl_status s) \<and> (\<exists>a e. jl_following_ap s = Some a \<and> entities s a = Some e
            \<and> jl_previous_ap s' = Some a \<and> entities s' = entities s \<and> wlan_log s' = wlan_log s @ ap_call (rlaunch e))
        \<or> ret = LAUNCH_STATUS_OVER \<and> jl_previous_ap s' = None \<and> entities s' = entities s |` (- set (opt_list (jl_following_ap s))) \<and> wlan_log s' = wlan_log s)
    \<and> jl_following_ap s' = None \<and> jl_previous_sta s' = jl_previous_sta s \<and> jl_following_sta s' = jl_following_sta s \<and> rest_kept s s'"
  using assms
  by (cases "jl_following_ap s")
    (auto simp: start_following_ap_def rest_kept_def clear_2 rl_not_paused_iff rl_free_entity_Some Let_def split: bind_split_asm if_split_asm)

lemma rl_launch_ap_slots:
  assumes "rl_launch_ap E s = Some (ret, s')"
  shows "slot_launch ap_call (paused (rl_status s)) (jl_previous_ap s) (jl_following_ap s) (entities s) (wlan_log s)
           ret (jl_previous_ap s') (jl_following_ap s') (entities s') (wlan_log s')
    \<and> jl_previous_sta s' = jl_previous_sta s \<and> jl_following_sta s' = jl_following_sta s \<and> rest_kept s s'"
proof (cases "jl_previous_ap s")
  case None
  show ?thesis
  proof (cases "jl_following_ap s = None")
    case True
    then show ?thesis using assms None by (auto simp: rl_launch_ap_def slot_launch_def rest_kept_def)
  next
    case False
    then show ?thesis using assms None start_following_ap_slots [of E s ret s'] by (auto simp: rl_launch_ap_def slot_launch_def)
  qed
next
  case (Some p)
  from assms obtain asap e where asap: "is_asap s (jl_following_ap s) = Some asap" and e: "entities s p = Some e"
    by (auto simp: rl_launch_ap_def Some Let_def split: bind_split_asm if_split_asm)
  define s1 where "s1 = (let s = (if asap then rl_pre_ap_set_cancel s else s) in if over_limit e then rl_pre_ap_set_cancel s else s)"
  have s1: "rest_kept s s1" "rl_status s1 = rl_status s" "jl_previous_ap s1 = jl_previous_ap s" "jl_following_ap s1 = jl_following_ap s"
    "jl_previous_sta s1 = jl_previous_sta s" "jl_following_sta s1 = jl_following_sta s" "entities s1 = entities s" "wlan_log s1 = wlan_log s"
    by (simp_all add: s1_def Let_def rest_kept_def)
  from assms asap e Some consider "ret = LAUNCH_STATUS_CONT" "s' = s1"
    | "start_following_ap E (s1\<lparr>entities := entities s1 |` (- {p})\<rparr>) = Some (ret, s')"
    by (auto simp: rl_launch_ap_def Let_def s1_def rl_free_entity_Some split: if_split_asm bind_split_asm)
  then show ?thesis
  proof cases
    case 1
    then show ?thesis using s1 Some by (simp add: slot_launch_def)
  next
    case 2
    from start_following_ap_slots [OF this] show ?thesis using s1 Some
      by (auto simp: slot_launch_def rest_kept_def restrict_map_def fun_eq_iff split: if_split_asm)
  qed
qed


section \<open>New requests\<close>

lemma rl_start_Some:
  "rl_start E s = Some s' \<longleftrightarrow> handle (rl_timer s) \<and> timer_pass E xTimerStart
     \<and> s' = s\<lparr>rl_timer := (rl_timer s)\<lparr>active := True\<rparr>, rl_timer_flag := RL_TIMER_START\<rparr>"
  by (auto simp: rl_start_def rtos_stop_oneshot_timer_def rtos_start_oneshot_timer_def Let_def)

text \<open>What a new request of a role keeps, and when the launch timer runs afterwards.\<close>

definition enter_kept :: "u32 \<Rightarrow> u32 \<Rightarrow> 'd rl_world \<Rightarrow> 'd rl_world \<Rightarrow> bool" where
  "enter_kept kind ret s s' \<longleftrightarrow> enter_timer s' = enter_timer s \<and> g_rl_socket s' = g_rl_socket s
     \<and> paused (rl_status s') = paused (rl_status s) \<and> (busy (rl_status s) AND 2 = 0 \<longrightarrow> busy (rl_status s') = busy (rl_status s))
     \<and> pre_entity_type s' = (if ret \<noteq> 0 \<and> pre_entity_type s = PRE_ENTITY_IDLE then kind else pre_entity_type s)
     \<and> handle (rl_timer s') = handle (rl_timer s) \<and> (if ret = 1 then rl_timer s' = rl_timer s else active (rl_timer s'))"

lemma note_type_frame [simp]:
  "rl_timer (note_type k b s) = rl_timer s" "enter_timer (note_type k b s) = enter_timer s" "rl_status (note_type k b s) = rl_status s"
  "jl_previous_sta (note_type k b s) = jl_previous_sta s" "jl_following_sta (note_type k b s) = jl_following_sta s"
  "jl_previous_ap (note_type k b s) = jl_previous_ap s" "jl_following_ap (note_type k b s) = jl_following_ap s"
  "g_rl_socket (note_type k b s) = g_rl_socket s" "entities (note_type k b s) = entities s" "wlan_log (note_type k b s) = wlan_log s"
  "pre_entity_type (note_type k b s) = (if b \<and> pre_entity_type s = PRE_ENTITY_IDLE then k else pre_entity_type s)"
  by (simp_all add: note_type_def)

lemma sta_request_enter_slots:
  assumes "sta_request_enter E r c s = Some (ret, s')"
  shows "slot_enter sta_call r (jl_previous_sta s) (jl_following_sta s) (entities s) (wlan_log s) (os_zalloc E (entities s))
           ret (jl_previous_sta s') (jl_following_sta s') (entities s') (wlan_log s')
    \<and> (ret = 1 \<longrightarrow> jl_previous_ap s = None) \<and> (ret = 2 \<longrightarrow> jl_previous_sta s \<noteq> None \<or> jl_previous_ap s \<noteq> None)
    \<and> jl_previous_ap s' = jl_previous_ap s \<and> jl_following_ap s' = jl_following_ap s \<and> enter_kept PRE_ENTITY_STA ret s s'"
  using assms
  by (auto simp: sta_request_enter_def rl_alloc_entity_def slot_enter_def enter_kept_def clear_2 rl_start_Some Let_def
      split: if_split_asm bind_split_asm)

lemma ap_request_enter_slots:
  assumes "ap_request_enter E r c s = Some (ret, s')"
  shows "slot_enter ap_call r (jl_previous_ap s) (jl_following_ap s) (entities s) (wlan_log s) (os_zalloc E (entities s))
           ret (jl_previous_ap s') (jl_following_ap s') (entities s') (wlan_log s')
    \<and> (ret = 1 \<longrightarrow> jl_previous_sta s = None) \<and> (ret = 2 \<longrightarrow> jl_previous_ap s \<noteq> None \<or> jl_previous_sta s \<noteq> None)
    \<and> jl_previous_sta s' = jl_previous_sta s \<and> jl_following_sta s' = jl_following_sta s \<and> enter_kept PRE_ENTITY_AP ret s s'"
  using assms
  by (auto simp: ap_request_enter_def rl_alloc_entity_def slot_enter_def enter_kept_def clear_2 rl_start_Some Let_def
      split: if_split_asm bind_split_asm)

text \<open>No operation fails when the slots are in order, the timer task accepts its commands and there is memory.\<close>

lemma start_following_total:
  "(\<And>a. jl_following_sta s = Some a \<Longrightarrow> entities s a \<noteq> None) \<Longrightarrow> start_following_sta E s \<noteq> None"
  "(\<And>a. jl_following_ap s = Some a \<Longrightarrow> entities s a \<noteq> None) \<Longrightarrow> start_following_ap E s \<noteq> None"
  by (cases "jl_following_sta s"; force simp: start_following_sta_def rl_free_entity_def Let_def)
    (cases "jl_following_ap s"; force simp: start_following_ap_def rl_free_entity_def Let_def)

lemma rl_launch_sta_total:
  assumes "mem_ok (jl_previous_sta s) (jl_following_sta s) p' f' (entities s)"
  shows "rl_launch_sta E s \<noteq> None"
proof -
  have f: "entities s a \<noteq> None" if "jl_following_sta s = Some a" for a using mem_okD [OF assms] that by auto
  have p: "\<exists>e. entities s a = Some e" "jl_following_sta s \<noteq> Some a" if "jl_previous_sta s = Some a" for a
    using mem_okD [OF assms] assms that by (auto simp: mem_ok_def)
  have a: "\<exists>b. is_asap s (jl_following_sta s) = Some b" using f by (force simp: is_asap_def split: option.split)
  show ?thesis
  proof (cases "jl_previous_sta s")
    case None
    then show ?thesis using start_following_total(1) [of s E] f by (auto simp: rl_launch_sta_def)
  next
    case (Some q)
    then obtain e b where "entities s q = Some e" "is_asap s (jl_following_sta s) = Some b" "jl_following_sta s \<noteq> Some q"
      using p a by blast
    then show ?thesis using f
      by (auto simp: rl_launch_sta_def Some Let_def rl_free_entity_def simp del: not_None_eq split_paired_Ex intro!: start_following_total)
  qed
qed

lemma rl_launch_ap_total:
  assumes "mem_ok (jl_previous_ap s) (jl_following_ap s) p' f' (entities s)"
  shows "rl_launch_ap E s \<noteq> None"
proof -
  have f: "entities s a \<noteq> None" if "jl_following_ap s = Some a" for a using mem_okD [OF assms] that by auto
  have p: "\<exists>e. entities s a = Some e" "jl_following_ap s \<noteq> Some a" if "jl_previous_ap s = Some a" for a
    using mem_okD [OF assms] assms that by (auto simp: mem_ok_def)
  have a: "\<exists>b. is_asap s (jl_following_ap s) = Some b" using f by (force simp: is_asap_def split: option.split)
  show ?thesis
  proof (cases "jl_previous_ap s")
    case None
    then show ?thesis using start_following_total(2) [of s E] f by (auto simp: rl_launch_ap_def)
  next
    case (Some q)
    then obtain e b where "entities s q = Some e" "is_asap s (jl_following_ap s) = Some b" "jl_following_ap s \<noteq> Some q"
      using p a by blast
    then show ?thesis using f
      by (auto simp: rl_launch_ap_def Some Let_def rl_free_entity_def simp del: not_None_eq split_paired_Ex intro!: start_following_total)
  qed
qed

lemma request_enter_total:
  assumes "handle (rl_timer s)" "timer_pass E xTimerStart" "os_zalloc E (entities s) \<noteq> None"
  shows "sta_request_enter E r c s \<noteq> None" "ap_request_enter E r c s \<noteq> None"
proof -
  have st: "rl_start E u = Some (u\<lparr>rl_timer := (rl_timer u)\<lparr>active := True\<rparr>, rl_timer_flag := RL_TIMER_START\<rparr>)" if "handle (rl_timer u)" for u
    using that assms(2) by (simp add: rl_start_Some)
  obtain a where a: "os_zalloc E (entities s) = Some a" using assms(3) by auto
  show "sta_request_enter E r c s \<noteq> None" "ap_request_enter E r c s \<noteq> None"
    using assms(1) a by (auto simp: sta_request_enter_def ap_request_enter_def rl_alloc_entity_def st Let_def)
qed

section \<open>The contract of a role\<close>

text \<open>The calls that the waiting request of a role will make.\<close>

definition waiting :: "('d LAUNCH_REQ \<Rightarrow> 'd wlan_call list) \<Rightarrow> nat option \<Rightarrow> (nat \<rightharpoonup> 'd RL_ENTITY_T) \<Rightarrow> 'd wlan_call list" where
  "waiting call f h = (case f of None \<Rightarrow> [] | Some a \<Rightarrow> (case h a of None \<Rightarrow> [] | Some e \<Rightarrow> call (rlaunch e)))"

lemma waiting_simps [simp]: "waiting call None h = []" "waiting call (Some a) h = (case h a of None \<Rightarrow> [] | Some e \<Rightarrow> call (rlaunch e))"
  by (simp_all add: waiting_def)

lemma mem_start: "mem_ok p (Some a) q g h \<Longrightarrow> mem_ok (Some a) None q g (h |` (- set (opt_list p)))"
  by (auto simp: mem_ok_def)

lemma mem_drop: "mem_ok p f q g h \<Longrightarrow> mem_ok None None q g (h |` (- set (opt_list p @ opt_list f)))"
  by (auto simp: mem_ok_def)

lemma mem_alloc:
  assumes "h a = None"
  shows "mem_ok None f q g h \<Longrightarrow> mem_ok (Some a) f q g (h(a \<mapsto> e))" "mem_ok p None q g h \<Longrightarrow> mem_ok p (Some a) q g (h(a \<mapsto> e))"
  using assms by (auto simp: mem_ok_def)

lemma waiting_cong: "(\<And>a. f = Some a \<Longrightarrow> h' a = h a) \<Longrightarrow> waiting call f h' = waiting call f h"
  by (cases f) auto

lemma slot_launch_mem:
  assumes "slot_launch call pz p f h l ret p' f' h' l'" and m: "mem_ok p f q g h"
  shows "mem_ok p' f' q g h'" "waiting oc g h' = waiting oc g h"
proof -
  have g: "b \<notin> set (opt_list p @ opt_list f)" if "g = Some b" for b using m that by (auto simp: mem_ok_def)
  from assms(1) consider "p' = p" "f' = f" "h' = h"
    | a where "f = Some a" "p' = Some a" "f' = None" "h' = h |` (- set (opt_list p))"
    | "p' = None" "f' = None" "h' = h |` (- set (opt_list p @ opt_list f))"
    unfolding slot_launch_def by blast
  then have "mem_ok p' f' q g h' \<and> waiting oc g h' = waiting oc g h"
  proof cases
    case 2
    then show ?thesis using m g mem_start [of p a q g h] by (auto intro!: waiting_cong simp: restrict_map_def)
  next
    case 3
    then show ?thesis using g mem_drop [OF m] by (auto intro!: waiting_cong simp: restrict_map_def)
  qed (use m in simp)
  then show "mem_ok p' f' q g h'" "waiting oc g h' = waiting oc g h" by auto
qed

lemma slot_enter_mem:
  assumes "slot_enter call r p f h l z ret p' f' h' l'" and m: "mem_ok p f q g h" and z: "\<And>a. z = Some a \<Longrightarrow> h a = None"
  shows "mem_ok p' f' q g h'" "waiting oc g h' = waiting oc g h"
proof -
  have g: "b \<in> dom h" if "g = Some b" for b using m that by (auto simp: mem_ok_def)
  from assms(1) consider "p' = p" "f' = f" "h' = h"
    | a e where "z = Some a" "p = None" "p' = Some a" "f' = f" "h' = h(a \<mapsto> e)"
    | a e where "z = Some a" "f = None" "f' = Some a" "p' = p" "h' = h(a \<mapsto> e)"
    unfolding slot_enter_def by blast
  then have "mem_ok p' f' q g h' \<and> waiting oc g h' = waiting oc g h"
  proof cases
    case 2
    then show ?thesis using m z g mem_alloc(1) [of h a f q g e] by (fastforce intro!: waiting_cong)
  next
    case 3
    then show ?thesis using m z g mem_alloc(2) [of h a p q g e] by (fastforce intro!: waiting_cong)
  qed (use m in simp)
  then show "mem_ok p' f' q g h'" "waiting oc g h' = waiting oc g h" by auto
qed

definition all_asap :: "(nat \<rightharpoonup> 'd RL_ENTITY_T) \<Rightarrow> bool" where
  "all_asap h \<longleftrightarrow> (\<forall>a e. h a = Some e \<longrightarrow> launch_type e = LAUNCH_TYPE_ASAP \<and> relaunch_limit e = 0)"

lemma slot_launch_asap: "slot_launch call pz p f h l ret p' f' h' l' \<Longrightarrow> all_asap h \<Longrightarrow> all_asap h'"
  by (auto simp: slot_launch_def all_asap_def restrict_map_def split: if_split_asm)

lemma slot_enter_asap: "slot_enter call r p f h l z ret p' f' h' l' \<Longrightarrow> all_asap h \<Longrightarrow> all_asap h'"
  by (auto simp: slot_enter_def all_asap_def split: if_split_asm)

text \<open>
  A role, seen from the timers: two slots of its own, the two slots of the other role, the calls that its
  requests make, and the operations that poll it and give it a request.
\<close>

locale role =
  fixes prev foll oprev ofoll :: "'d rl_world \<Rightarrow> nat option"
    and call :: "'d LAUNCH_REQ \<Rightarrow> 'd wlan_call list"
    and mine theirs :: "'d wlan_call \<Rightarrow> bool"
    and kind :: u32
    and launch :: "'d rl_env \<Rightarrow> 'd rl_world \<Rightarrow> (u32 \<times> 'd rl_world) option"
    and enter :: "'d rl_env \<Rightarrow> 'd LAUNCH_REQ \<Rightarrow> u32 \<Rightarrow> 'd rl_world \<Rightarrow> (u32 \<times> 'd rl_world) option"
  assumes call_mine: "filter mine (call r) = call r" "filter theirs (call r) = []"
    and launch_slots: "launch E s = Some (ret, s') \<Longrightarrow>
      slot_launch call (paused (rl_status s)) (prev s) (foll s) (entities s) (wlan_log s) ret (prev s') (foll s') (entities s') (wlan_log s')
      \<and> oprev s' = oprev s \<and> ofoll s' = ofoll s \<and> rest_kept s s'"
    and enter_slots: "enter E r c s = Some (ret, s') \<Longrightarrow>
      slot_enter call r (prev s) (foll s) (entities s) (wlan_log s) (os_zalloc E (entities s)) ret (prev s') (foll s') (entities s') (wlan_log s')
      \<and> (ret = 1 \<longrightarrow> oprev s = None) \<and> (ret = 2 \<longrightarrow> prev s \<noteq> None \<or> oprev s \<noteq> None) \<and> oprev s' = oprev s \<and> ofoll s' = ofoll s \<and> enter_kept kind ret s s'"
    and launch_total: "mem_ok (prev s) (foll s) (oprev s) (ofoll s) (entities s) \<Longrightarrow> launch E s \<noteq> None"
    and enter_total: "handle (rl_timer s) \<Longrightarrow> timer_pass E xTimerStart \<Longrightarrow> os_zalloc E (entities s) \<noteq> None \<Longrightarrow> enter E r c s \<noteq> None"
begin

text \<open>The slots of both roles are in order.\<close>

definition slots_ok :: "'d rl_world \<Rightarrow> bool" where
  "slots_ok s \<longleftrightarrow> mem_ok (prev s) (foll s) (oprev s) (ofoll s) (entities s)"

lemma launch_keeps:
  assumes "launch E s = Some (ret, s')" "slots_ok s"
  shows "slots_ok s'" "rest_kept s s'" "oprev s' = oprev s" "ofoll s' = ofoll s"
    "waiting oc (ofoll s') (entities s') = waiting oc (ofoll s) (entities s)"
    "filter theirs (wlan_log s') = filter theirs (wlan_log s)" "all_asap (entities s) \<Longrightarrow> all_asap (entities s')"
proof -
  note l = launch_slots [OF assms(1)]
  show "slots_ok s'" "waiting oc (ofoll s') (entities s') = waiting oc (ofoll s) (entities s)"
    using slot_launch_mem [OF conjunct1 [OF l] assms(2) [unfolded slots_ok_def]] l by (auto simp: slots_ok_def)
  show "rest_kept s s'" "oprev s' = oprev s" "ofoll s' = ofoll s" using l by auto
  show "all_asap (entities s) \<Longrightarrow> all_asap (entities s')" using slot_launch_asap [OF conjunct1 [OF l]] .
  show "filter theirs (wlan_log s') = filter theirs (wlan_log s)" using l by (auto simp: slot_launch_def call_mine)
qed

lemma launch_result:
  assumes "launch E s = Some (ret, s')"
  shows "ret = LAUNCH_STATUS_CONT \<and> prev s' \<noteq> None \<or> ret = LAUNCH_STATUS_OVER \<and> foll s' = None"
  using launch_slots [OF assms] by (auto simp: slot_launch_def)

text \<open>Polling starts the waiting request or drops it; while the role is paused it starts nothing.\<close>

lemma launch_queue:
  assumes "launch E s = Some (ret, s')"
  shows "subseq (filter mine (wlan_log s') @ waiting call (foll s') (entities s')) (filter mine (wlan_log s) @ waiting call (foll s) (entities s))"
  using launch_slots [OF assms] by (auto simp: slot_launch_def call_mine)

lemma launch_paused:
  assumes "launch E s = Some (ret, s')" "paused (rl_status s)"
  shows "wlan_log s' = wlan_log s"
  using launch_slots [OF assms(1)] assms(2) by (auto simp: slot_launch_def)

lemma enter_keeps:
  assumes "enter E r c s = Some (ret, s')" "slots_ok s" "\<And>a. os_zalloc E (entities s) = Some a \<Longrightarrow> entities s a = None"
  shows "slots_ok s'" "enter_kept kind ret s s'" "oprev s' = oprev s" "ofoll s' = ofoll s"
    "waiting oc (ofoll s') (entities s') = waiting oc (ofoll s) (entities s)"
    "filter theirs (wlan_log s') = filter theirs (wlan_log s)"
    "ret = 0 \<Longrightarrow> prev s' = prev s \<and> foll s' = foll s"
    "ret \<noteq> 0 \<Longrightarrow> prev s' \<noteq> None \<or> oprev s' \<noteq> None"
    "ret = 1 \<Longrightarrow> prev s = None \<and> oprev s = None \<and> foll s' = foll s" "all_asap (entities s) \<Longrightarrow> all_asap (entities s')"
proof -
  note l = enter_slots [OF assms(1)]
  show "slots_ok s'" "waiting oc (ofoll s') (entities s') = waiting oc (ofoll s) (entities s)"
    using slot_enter_mem [OF conjunct1 [OF l] assms(2) [unfolded slots_ok_def] assms(3)] l by (auto simp: slots_ok_def)
  show "enter_kept kind ret s s'" "oprev s' = oprev s" "ofoll s' = ofoll s" using l by auto
  show "all_asap (entities s) \<Longrightarrow> all_asap (entities s')" using slot_enter_asap [OF conjunct1 [OF l]] .
  show "filter theirs (wlan_log s') = filter theirs (wlan_log s)" "ret = 0 \<Longrightarrow> prev s' = prev s \<and> foll s' = foll s"
    "ret \<noteq> 0 \<Longrightarrow> prev s' \<noteq> None \<or> oprev s' \<noteq> None" "ret = 1 \<Longrightarrow> prev s = None \<and> oprev s = None \<and> foll s' = foll s"
    using l by (auto simp: slot_enter_def call_mine)
qed

text \<open>A request that is accepted is started after the requests that were started, or waits behind them.\<close>

lemma enter_queue:
  assumes "enter E r c s = Some (ret, s')" "ret = 1 \<Longrightarrow> foll s = None"
  shows "subseq (filter mine (wlan_log s') @ waiting call (foll s') (entities s'))
    (filter mine (wlan_log s) @ waiting call (foll s) (entities s) @ (if ret = 0 then [] else call r))"
  using enter_slots [OF assms(1)] assms(2) by (auto simp: slot_enter_def call_mine)

end

definition is_sta_call :: "'d wlan_call \<Rightarrow> bool" where
  "is_sta_call c = (case c of Bk_wlan_start_sta d \<Rightarrow> True | Demo_scan_app_init \<Rightarrow> True | Bk_wlan_stop_station \<Rightarrow> True | _ \<Rightarrow> False)"

definition is_ap_call :: "'d wlan_call \<Rightarrow> bool" where
  "is_ap_call c = (case c of Bk_wlan_start_ap d \<Rightarrow> True | Bk_wlan_stop_softap \<Rightarrow> True | _ \<Rightarrow> False)"

interpretation sta: role jl_previous_sta jl_following_sta jl_previous_ap jl_following_ap sta_call is_sta_call is_ap_call PRE_ENTITY_STA
  rl_launch_sta sta_request_enter
proof unfold_locales
  show "filter is_sta_call (sta_call r) = sta_call r" "filter is_ap_call (sta_call r) = []" for r :: "'b LAUNCH_REQ"
    by (simp_all add: sta_call_def is_sta_call_def is_ap_call_def)
qed (fact rl_launch_sta_slots sta_request_enter_slots rl_launch_sta_total request_enter_total)+

interpretation ap: role jl_previous_ap jl_following_ap jl_previous_sta jl_following_sta ap_call is_ap_call is_sta_call PRE_ENTITY_AP
  rl_launch_ap ap_request_enter
proof unfold_locales
  show "filter is_ap_call (ap_call r) = ap_call r" "filter is_sta_call (ap_call r) = []" for r :: "'b LAUNCH_REQ"
    by (simp_all add: ap_call_def is_sta_call_def is_ap_call_def)
qed (fact rl_launch_ap_slots ap_request_enter_slots rl_launch_ap_total request_enter_total)+

lemma slots_ok_swap: "ap.slots_ok s \<longleftrightarrow> sta.slots_ok s"
  by (simp add: ap.slots_ok_def sta.slots_ok_def mem_ok_swap)

end
