(* ===== verification/Role_Launch_Props.thy ===== *)
theory Role_Launch_Props
  imports Role_Launch_Slots
begin

text \<open>
  Properties of the joint start over all sequences of events.
\<close>

lemmas rl_codes = LAUNCH_STATUS_CONT_def LAUNCH_STATUS_OVER_def PRE_ENTITY_IDLE_def PRE_ENTITY_STA_def PRE_ENTITY_AP_def

section \<open>The invariant\<close>

text \<open>
  The slots are in order and every request is to be served as soon as possible; a request waits only behind another one; the type of the first entity is
  known; the launch timer runs while a request waits; both timers exist; only the flags \<open>b\<close> and the
  pause flag are set in the low half of the status.
\<close>

definition waits :: "'d rl_world \<Rightarrow> bool" where "waits s \<longleftrightarrow> jl_following_sta s \<noteq> None \<or> jl_following_ap s \<noteq> None"

definition serves :: "'d rl_world \<Rightarrow> bool" where "serves s \<longleftrightarrow> jl_previous_sta s \<noteq> None \<or> jl_previous_ap s \<noteq> None"

definition rl_good :: "u32 \<Rightarrow> 'd rl_world \<Rightarrow> bool" where
  "rl_good b s \<longleftrightarrow> sta.slots_ok s \<and> (waits s \<longrightarrow> serves s) \<and> pre_entity_type s \<in> {PRE_ENTITY_IDLE, PRE_ENTITY_STA, PRE_ENTITY_AP}
     \<and> (serves s \<longrightarrow> pre_entity_type s \<noteq> PRE_ENTITY_IDLE) \<and> handle (rl_timer s) \<and> handle (enter_timer s)
     \<and> all_asap (entities s) \<and> busy (rl_status s) = b"

definition rl_inv :: "'d rl_world \<Rightarrow> bool" where
  "rl_inv s \<longleftrightarrow> rl_good 0 s \<and> (waits s \<longrightarrow> active (rl_timer s))"

text \<open>
  The timer task accepts its commands, and the allocator has room for an entity while there are at most
  four. Nothing is assumed of the WLAN stack.
\<close>

definition env_ok :: "'d rl_env \<Rightarrow> bool" where
  "env_ok E \<longleftrightarrow> (\<forall>c. timer_pass E c) \<and> (\<forall>h. finite (dom h) \<and> card (dom h) \<le> 4 \<longrightarrow> (\<exists>a. os_zalloc E h = Some a \<and> h a = None))"

lemma rl_good_cong:
  assumes "core s' = core s"
  shows "rl_good b s' = rl_good b s" "waits s' = waits s" "rl_inv s' = rl_inv s"
  using coreD [OF assms] by (simp_all add: rl_good_def rl_inv_def waits_def serves_def sta.slots_ok_def)

lemma rl_good_finite:
  assumes "rl_good b s"
  shows "finite (dom (entities s))" "card (dom (entities s)) \<le> 4"
proof -
  have l: "length (opt_list p) \<le> 1" for p :: "nat option" by (cases p) auto
  define xs where "xs = opt_list (jl_previous_sta s) @ opt_list (jl_following_sta s) @ opt_list (jl_previous_ap s) @ opt_list (jl_following_ap s)"
  have "length xs \<le> 4"
    using l [of "jl_previous_sta s"] l [of "jl_following_sta s"] l [of "jl_previous_ap s"] l [of "jl_following_ap s"]
    unfolding xs_def length_append by linarith
  moreover have "dom (entities s) = set xs" using assms unfolding rl_good_def sta.slots_ok_def mem_ok_def xs_def by blast
  ultimately show "finite (dom (entities s))" "card (dom (entities s)) \<le> 4" using card_length [of xs] by auto
qed

lemma env_alloc: "env_ok E \<Longrightarrow> rl_good b s \<Longrightarrow> \<exists>a. os_zalloc E (entities s) = Some a \<and> entities s a = None"
  using rl_good_finite [of b s] by (simp add: env_ok_def)

lemma env_fresh: "env_ok E \<Longrightarrow> rl_good b s \<Longrightarrow> os_zalloc E (entities s) = Some a \<Longrightarrow> entities s a = None"
  using env_alloc [of E b s] by auto

section \<open>Requests\<close>

lemma enter_kept_good:
  assumes "enter_kept kind ret s s'" and "rl_good b s" and "b AND 2 = 0" and "kind \<in> {PRE_ENTITY_STA, PRE_ENTITY_AP}"
    and "sta.slots_ok s'" and "all_asap (entities s) \<Longrightarrow> all_asap (entities s')" and "ret \<noteq> 0 \<Longrightarrow> serves s'" and "ret = 0 \<Longrightarrow> serves s' = serves s \<and> waits s' = waits s"
  shows "rl_good b s'"
  using assms by (auto simp: enter_kept_def rl_good_def rl_codes split: if_split_asm)

lemma sta_enter_good:
  assumes "sta_request_enter E r c s = Some (ret, s')" and "env_ok E" and g: "rl_good b s" and "b AND 2 = 0"
  shows "rl_good b s'" "(waits s \<longrightarrow> active (rl_timer s)) \<Longrightarrow> waits s' \<longrightarrow> active (rl_timer s')"
proof -
  note z = env_fresh [OF assms(2) g]
  note k = sta.enter_keeps [OF assms(1) _ z]
  have ok: "sta.slots_ok s" using g by (simp add: rl_good_def)
  note k = k [OF ok]
  show "rl_good b s'"
    by (rule enter_kept_good [OF k(2) g assms(4) _ k(1,10)]) (use k in \<open>auto simp: serves_def waits_def\<close>)
  assume "waits s \<longrightarrow> active (rl_timer s)"
  then show "waits s' \<longrightarrow> active (rl_timer s')"
    using k(2,4,9) by (auto simp: enter_kept_def waits_def split: if_split_asm)
qed

lemma ap_enter_good:
  assumes "ap_request_enter E r c s = Some (ret, s')" and "env_ok E" and g: "rl_good b s" and "b AND 2 = 0"
  shows "rl_good b s'" "(waits s \<longrightarrow> active (rl_timer s)) \<Longrightarrow> waits s' \<longrightarrow> active (rl_timer s')"
proof -
  note z = env_fresh [OF assms(2) g]
  have ok: "ap.slots_ok s" using g by (simp add: rl_good_def slots_ok_swap)
  note k = ap.enter_keeps [OF assms(1) ok z]
  show "rl_good b s'"
    by (rule enter_kept_good [OF k(2) g assms(4) _ k(1) [unfolded slots_ok_swap] k(10)]) (use k in \<open>auto simp: serves_def waits_def\<close>)
  assume "waits s \<longrightarrow> active (rl_timer s)"
  then show "waits s' \<longrightarrow> active (rl_timer s')"
    using k(2,4,9) by (auto simp: enter_kept_def waits_def split: if_split_asm)
qed

lemma enter_total:
  assumes "env_ok E" "rl_good b s"
  shows "sta_request_enter E r c s \<noteq> None" "ap_request_enter E r c s \<noteq> None"
proof -
  have z: "os_zalloc E (entities s) \<noteq> None" using env_alloc [OF assms] by auto
  have t: "handle (rl_timer s)" "timer_pass E xTimerStart" using assms by (simp_all add: env_ok_def rl_good_def)
  show "sta_request_enter E r c s \<noteq> None" "ap_request_enter E r c s \<noteq> None"
    by (rule request_enter_total(1) [OF t z], rule request_enter_total(2) [OF t z])
qed

section \<open>The launch timer\<close>

lemma rl_relaunch_chance_eq:
  "handle (rl_timer s) \<Longrightarrow> timer_pass E xTimerReset \<Longrightarrow> rl_relaunch_chance E s = Some (s\<lparr>rl_timer := (rl_timer s)\<lparr>active := True\<rparr>\<rparr>)"
  by (simp add: rl_relaunch_chance_def rtos_is_oneshot_timer_init_def rtos_oneshot_reload_timer_def)

text \<open>The two roles are polled one after the other; the second only if the first has nothing more to do.\<close>

definition poll_both :: "'d rl_env \<Rightarrow> 'd rl_world \<Rightarrow> (u32 \<times> u32 \<times> 'd rl_world) option" where
  "poll_both E s =
     (if pre_entity_type s = PRE_ENTITY_AP then do {
          (ap_ret, s) \<leftarrow> rl_launch_ap E s;
          if ap_ret = LAUNCH_STATUS_OVER then do {
            (sta_ret, s) \<leftarrow> rl_launch_sta E (s\<lparr>pre_entity_type := PRE_ENTITY_STA\<rparr>);
            Some (sta_ret, ap_ret, s) }
          else Some (LAUNCH_STATUS_OVER, ap_ret, s) }
        else if pre_entity_type s = PRE_ENTITY_STA then do {
          (sta_ret, s) \<leftarrow> rl_launch_sta E s;
          if sta_ret = LAUNCH_STATUS_OVER then do {
            (ap_ret, s) \<leftarrow> rl_launch_ap E (s\<lparr>pre_entity_type := PRE_ENTITY_AP\<rparr>);
            Some (sta_ret, ap_ret, s) }
          else Some (sta_ret, LAUNCH_STATUS_OVER, s) }
        else Some (LAUNCH_STATUS_OVER, LAUNCH_STATUS_OVER, s))"

lemma rl_launch_handler_eq:
  "rl_launch_handler E s = do {
     (sta_ret, ap_ret, s) \<leftarrow> poll_both E s;
     if sta_ret = LAUNCH_STATUS_OVER \<and> ap_ret = LAUNCH_STATUS_OVER then Some s else rl_relaunch_chance E s }"
  by (simp add: rl_launch_handler_def poll_both_def)

text \<open>
  The effect of polling: an intermediate state after the first role, and the final one. Facts about one
  role are used for the step that polls it.
\<close>

lemma poll_both_cases:
  assumes "poll_both E s = Some (sta_ret, ap_ret, s')"
  obtains (idle) "pre_entity_type s \<notin> {PRE_ENTITY_STA, PRE_ENTITY_AP}" "sta_ret = LAUNCH_STATUS_OVER" "ap_ret = LAUNCH_STATUS_OVER" "s' = s"
  | (ap) "pre_entity_type s = PRE_ENTITY_AP" "rl_launch_ap E s = Some (ap_ret, s')" "ap_ret = LAUNCH_STATUS_CONT" "sta_ret = LAUNCH_STATUS_OVER"
  | (ap_sta) s1 where "pre_entity_type s = PRE_ENTITY_AP" "rl_launch_ap E s = Some (LAUNCH_STATUS_OVER, s1)" "ap_ret = LAUNCH_STATUS_OVER"
      "rl_launch_sta E (s1\<lparr>pre_entity_type := PRE_ENTITY_STA\<rparr>) = Some (sta_ret, s')"
  | (sta) "pre_entity_type s = PRE_ENTITY_STA" "rl_launch_sta E s = Some (sta_ret, s')" "sta_ret = LAUNCH_STATUS_CONT" "ap_ret = LAUNCH_STATUS_OVER"
  | (sta_ap) s1 where "pre_entity_type s = PRE_ENTITY_STA" "rl_launch_sta E s = Some (LAUNCH_STATUS_OVER, s1)" "sta_ret = LAUNCH_STATUS_OVER"
      "rl_launch_ap E (s1\<lparr>pre_entity_type := PRE_ENTITY_AP\<rparr>) = Some (ap_ret, s')"
  using assms sta.launch_result ap.launch_result
  by (fastforce simp: poll_both_def split: if_split_asm bind_split_asm)

lemma slots_ok_type [simp]: "sta.slots_ok (s\<lparr>pre_entity_type := k\<rparr>) = sta.slots_ok s"
  by (simp add: sta.slots_ok_def)

lemma rest_kept_good:
  assumes "rest_kept s s'" "handle (rl_timer s)" "handle (enter_timer s)" "busy (rl_status s) = 0"
  shows "handle (rl_timer s')" "handle (enter_timer s')" "busy (rl_status s') = 0" "pre_entity_type s' = pre_entity_type s"
    "rl_timer s' = rl_timer s"
  using assms by (auto simp: rest_kept_def)

lemma poll_both_good:
  assumes "poll_both E s = Some (sta_ret, ap_ret, s')" and g: "rl_good 0 s"
  shows "rl_good 0 s'" "sta_ret = LAUNCH_STATUS_OVER \<Longrightarrow> ap_ret = LAUNCH_STATUS_OVER \<Longrightarrow> \<not> waits s'"
proof -
  have ok: "sta.slots_ok s" "ap.slots_ok s" and h: "handle (rl_timer s)" "handle (enter_timer s)" "busy (rl_status s) = 0" and asap: "all_asap (entities s)"
    using g by (auto simp: rl_good_def slots_ok_swap)
  have "rl_good 0 s' \<and> (sta_ret = LAUNCH_STATUS_OVER \<longrightarrow> ap_ret = LAUNCH_STATUS_OVER \<longrightarrow> \<not> waits s')"
    using assms(1)
  proof (cases rule: poll_both_cases)
    case idle
    then show ?thesis using g by (auto simp: rl_good_def)
  next
    case ap
    note k = ap.launch_keeps [OF ap(2) ok(2)]
    then show ?thesis using ap asap ap.launch_result [OF ap(2)] rest_kept_good [OF k(2) h]
      by (auto simp: rl_good_def slots_ok_swap serves_def rl_codes)
  next
    case sta
    note k = sta.launch_keeps [OF sta(2) ok(1)]
    then show ?thesis using sta asap sta.launch_result [OF sta(2)] rest_kept_good [OF k(2) h]
      by (auto simp: rl_good_def serves_def rl_codes)
  next
    case (ap_sta s1)
    note k1 = ap.launch_keeps [OF ap_sta(2) ok(2)]
    have h1: "handle (rl_timer (s1\<lparr>pre_entity_type := PRE_ENTITY_STA\<rparr>))" "handle (enter_timer (s1\<lparr>pre_entity_type := PRE_ENTITY_STA\<rparr>))"
      "busy (rl_status (s1\<lparr>pre_entity_type := PRE_ENTITY_STA\<rparr>)) = 0" using rest_kept_good [OF k1(2) h] by simp_all
    have "sta.slots_ok (s1\<lparr>pre_entity_type := PRE_ENTITY_STA\<rparr>)" using k1(1) by (simp add: slots_ok_swap)
    note k2 = sta.launch_keeps [OF ap_sta(4) this]
    then show ?thesis using k1(7) asap sta.launch_result [OF ap_sta(4)] ap.launch_result [OF ap_sta(2)] rest_kept_good [OF k2(2) h1]
      by (auto simp: rl_good_def waits_def serves_def rl_codes)
  next
    case (sta_ap s1)
    note k1 = sta.launch_keeps [OF sta_ap(2) ok(1)]
    have h1: "handle (rl_timer (s1\<lparr>pre_entity_type := PRE_ENTITY_AP\<rparr>))" "handle (enter_timer (s1\<lparr>pre_entity_type := PRE_ENTITY_AP\<rparr>))"
      "busy (rl_status (s1\<lparr>pre_entity_type := PRE_ENTITY_AP\<rparr>)) = 0" using rest_kept_good [OF k1(2) h] by simp_all
    have "ap.slots_ok (s1\<lparr>pre_entity_type := PRE_ENTITY_AP\<rparr>)" using k1(1) by (simp add: slots_ok_swap)
    note k2 = ap.launch_keeps [OF sta_ap(4) this]
    then show ?thesis using k1(7) asap ap.launch_result [OF sta_ap(4)] sta.launch_result [OF sta_ap(2)] rest_kept_good [OF k2(2) h1]
      by (auto simp: rl_good_def slots_ok_swap waits_def serves_def rl_codes)
  qed
  then show "rl_good 0 s'" "sta_ret = LAUNCH_STATUS_OVER \<Longrightarrow> ap_ret = LAUNCH_STATUS_OVER \<Longrightarrow> \<not> waits s'" by auto
qed

lemma poll_both_total:
  assumes g: "rl_good b s"
  shows "poll_both E s \<noteq> None"
proof -
  have ok: "sta.slots_ok s" "ap.slots_ok s" using g by (auto simp: rl_good_def slots_ok_swap)
  have sta: "sta.slots_ok u \<Longrightarrow> \<exists>ret u'. rl_launch_sta E u = Some (ret, u')" for u
    using sta.launch_total [of u E] by (auto simp: sta.slots_ok_def)
  have ap: "sta.slots_ok u \<Longrightarrow> \<exists>ret u'. rl_launch_ap E u = Some (ret, u')" for u
    using ap.launch_total [of u E] by (auto simp: slots_ok_swap [symmetric] ap.slots_ok_def)
  obtain r1 s1 where l1: "rl_launch_ap E s = Some (r1, s1)" using ap [OF ok(1)] by auto
  obtain r2 s2 where l2: "rl_launch_sta E s = Some (r2, s2)" using sta [OF ok(1)] by auto
  have k: "sta.slots_ok s1" "sta.slots_ok s2"
    using ap.launch_keeps(1) [OF l1 ok(2)] sta.launch_keeps(1) [OF l2 ok(1)] by (auto simp: slots_ok_swap)
  show ?thesis
    using sta [of "s1\<lparr>pre_entity_type := PRE_ENTITY_STA\<rparr>"] ap [of "s2\<lparr>pre_entity_type := PRE_ENTITY_AP\<rparr>"] k l1 l2
    by (auto simp: poll_both_def)
qed

lemma rl_launch_handler_inv:
  assumes "env_ok E" and g: "rl_good 0 s"
  shows "\<exists>s'. rl_launch_handler E s = Some s' \<and> rl_inv s'"
proof -
  obtain sta_ret ap_ret s1 where p: "poll_both E s = Some (sta_ret, ap_ret, s1)" using poll_both_total [OF g, of E] by auto
  note q = poll_both_good [OF p g]
  have r: "rl_relaunch_chance E s1 = Some (s1\<lparr>rl_timer := (rl_timer s1)\<lparr>active := True\<rparr>\<rparr>)"
    using q(1) assms(1) by (simp add: rl_relaunch_chance_eq rl_good_def env_ok_def)
  show ?thesis
  proof (cases "sta_ret = LAUNCH_STATUS_OVER \<and> ap_ret = LAUNCH_STATUS_OVER")
    case True
    then show ?thesis using p q by (auto simp: rl_launch_handler_eq rl_inv_def)
  next
    case False
    then have "rl_launch_handler E s = Some (s1\<lparr>rl_timer := (rl_timer s1)\<lparr>active := True\<rparr>\<rparr>)" using p r by (auto simp: rl_launch_handler_eq)
    then show ?thesis using q(1) by (auto simp: rl_inv_def rl_good_def waits_def serves_def sta.slots_ok_def)
  qed
qed

section \<open>The enter timer\<close>

lemma enter_sta_good:
  assumes "env_ok E" "rl_good b s" "b AND 2 = 0" "waits s \<longrightarrow> active (rl_timer s)"
  shows "\<exists>s'. enter_sta E sock s = Some s' \<and> rl_good b s' \<and> (waits s' \<longrightarrow> active (rl_timer s'))"
proof (cases "sta_req_flag sock = 0")
  case True
  then show ?thesis using assms by (simp add: enter_sta_def)
next
  case False
  obtain ret s1 where e: "sta_request_enter E (sta_param sock) (sta_completion sock) s = Some (ret, s1)"
    using enter_total(1) [OF assms(1,2)] by fastforce
  note g = sta_enter_good [OF e assms(1-3)]
  have "rl_good b (s1\<lparr>g_sta_cache := k\<rparr>) \<and> waits (s1\<lparr>g_sta_cache := k\<rparr>) = waits s1" for k
    using rl_good_cong [OF core_unrelated(6)] g(1) by blast
  then show ?thesis using False e g assms(4) by (auto simp: enter_sta_def)
qed

lemma enter_ap_good:
  assumes "env_ok E" "rl_good b s" "b AND 2 = 0" "waits s \<longrightarrow> active (rl_timer s)"
  shows "\<exists>s'. enter_ap E sock s = Some s' \<and> rl_good b s' \<and> (waits s' \<longrightarrow> active (rl_timer s'))"
proof (cases "ap_req_flag sock = 0")
  case True
  then show ?thesis using assms by (simp add: enter_ap_def)
next
  case False
  obtain ret s1 where e: "ap_request_enter E (ap_param sock) (ap_completion sock) s = Some (ret, s1)"
    using enter_total(2) [OF assms(1,2)] by fastforce
  then show ?thesis using False ap_enter_good [OF e assms(1-3)] assms(4) by (auto simp: enter_ap_def)
qed

lemma rl_good_status:
  "rl_good b s \<Longrightarrow> busy w = b' \<Longrightarrow> rl_good b' (s\<lparr>rl_status := w\<rparr>)" "waits (s\<lparr>rl_status := w\<rparr>) = waits s"
  by (simp_all add: rl_good_def waits_def serves_def sta.slots_ok_def)

lemma rl_good_socket: "rl_good b s \<Longrightarrow> rl_good b (s\<lparr>g_rl_socket := k\<rparr>)" "waits (s\<lparr>g_rl_socket := k\<rparr>) = waits s"
  by (simp_all add: rl_good_def waits_def serves_def sta.slots_ok_def)

text \<open>The state in which \<open>rl_enter_handler\<close> looks at the requests of the socket.\<close>

definition enter_begin :: "('d::zero) rl_world \<Rightarrow> 'd rl_world" where
  "enter_begin s = s\<lparr>g_rl_socket := no_socket, rl_status := rl_status s OR RL_STATUS_PENDING\<rparr>"

lemma rl_enter_handler_eq:
  "rl_enter_handler E s =
     (if \<not> os_malloc E then Some s
      else if paused (rl_status s) then Some (s\<lparr>g_rl_socket := no_socket\<rparr>)
      else do {
        s1 \<leftarrow> enter_sta E (g_rl_socket s) (enter_begin s);
        s2 \<leftarrow> enter_ap E (g_rl_socket s) s1;
        Some (s2\<lparr>rl_status := rl_status s2 AND NOT RL_STATUS_PENDING\<rparr>) })"
  by (simp add: rl_enter_handler_def enter_begin_def Let_def rl_not_paused_iff)

lemma enter_begin_good:
  assumes "rl_inv s"
  shows "rl_good 1 (enter_begin s)" "waits (enter_begin s) \<longrightarrow> active (rl_timer (enter_begin s))"
proof -
  have g: "rl_good 0 (s\<lparr>g_rl_socket := no_socket\<rparr>)" using assms rl_good_socket(1) by (auto simp: rl_inv_def)
  have "busy (rl_status s OR RL_STATUS_PENDING) = 1" using assms by (simp add: rl_inv_def rl_good_def)
  from rl_good_status(1) [OF g this] show "rl_good 1 (enter_begin s)" by (simp add: enter_begin_def)
  show "waits (enter_begin s) \<longrightarrow> active (rl_timer (enter_begin s))" using assms by (simp add: enter_begin_def rl_inv_def waits_def)
qed

lemma rl_enter_handler_inv:
  assumes "env_ok E" and i: "rl_inv s"
  shows "\<exists>s'. rl_enter_handler E s = Some s' \<and> rl_inv s'"
proof -
  have n: "(1 :: u32) AND 2 = 0" by simp
  obtain s1 where s1: "enter_sta E (g_rl_socket s) (enter_begin s) = Some s1" "rl_good 1 s1" "waits s1 \<longrightarrow> active (rl_timer s1)"
    using enter_sta_good [OF assms(1) enter_begin_good(1) [OF i] n enter_begin_good(2) [OF i]] by blast
  obtain s2 where s2: "enter_ap E (g_rl_socket s) s1 = Some s2" "rl_good 1 s2" "waits s2 \<longrightarrow> active (rl_timer s2)"
    using enter_ap_good [OF assms(1) s1(2) n s1(3)] by blast
  have "busy (rl_status s2 AND NOT RL_STATUS_PENDING) = 0"
    using s2(2) by (simp only: status_simps) (simp add: rl_good_def)
  from rl_good_status(1) [OF s2(2) this] have "rl_inv (s2\<lparr>rl_status := rl_status s2 AND NOT RL_STATUS_PENDING\<rparr>)"
    using s2(3) by (simp add: rl_inv_def rl_good_status)
  moreover have "rl_inv (s\<lparr>g_rl_socket := no_socket\<rparr>)" using i by (simp add: rl_inv_def rl_good_socket)
  ultimately show ?thesis using i s1(1) s2(1) by (simp add: rl_enter_handler_eq)
qed

section \<open>All events\<close>

lemma restart_enter_timer_eq:
  assumes "env_ok E" "handle (enter_timer s)"
  shows "restart_enter_timer E s = Some (s\<lparr>enter_timer := (enter_timer s)\<lparr>active := True\<rparr>\<rparr>)"
  using assms by (simp add: restart_enter_timer_def env_ok_def rtos_stop_oneshot_timer_def rtos_start_oneshot_timer_def)

lemma rl_inv_enter_timer: "rl_inv s \<Longrightarrow> handle t \<Longrightarrow> rl_inv (s\<lparr>enter_timer := t\<rparr>)"
  by (simp add: rl_inv_def rl_good_def waits_def serves_def sta.slots_ok_def)

lemma rl_inv_socket: "rl_inv s \<Longrightarrow> rl_inv (s\<lparr>g_rl_socket := k\<rparr>)"
  by (simp add: rl_inv_def rl_good_socket)

lemma rl_inv_handle: "rl_inv s \<Longrightarrow> handle (enter_timer s)"
  by (simp add: rl_inv_def rl_good_def)

lemma request_inv:
  assumes "env_ok E" "rl_inv s"
  shows "\<exists>s'. restart_enter_timer E (s\<lparr>g_rl_socket := k\<rparr>) = Some s' \<and> rl_inv s' \<and> wlan_log s' = wlan_log s"
  using assms by (simp add: restart_enter_timer_eq rl_inv_handle rl_inv_enter_timer rl_inv_socket)

lemma rl_sta_request_enter_inv:
  assumes "env_ok E" "rl_inv s"
  shows "\<exists>s'. rl_sta_request_enter E r c s = Some s' \<and> rl_inv s' \<and> wlan_log s' = wlan_log s"
  using request_inv [OF assms(1), of "rl_status_reset_st_state RL_ST_STATUS_RESTART_HOLD s"] assms(2)
    rl_good_cong(3) [OF core_st_state(2) [of RL_ST_STATUS_RESTART_HOLD s]]
  by (simp add: rl_sta_request_enter_def rl_sta_request_enter_handle_def rl_status_log)

lemma rl_inv_reset_private: "rl_inv s \<Longrightarrow> rl_inv (rl_status_reset_private_state m s)"
  using rl_good_cong(3) [OF core_st_state(4)] by blast

lemma rl_inv_cache: "rl_inv s \<Longrightarrow> rl_inv (s\<lparr>g_sta_cache := k\<rparr>)"
  using rl_good_cong(3) [OF core_unrelated(6)] by blast

lemma rl_sta_cache_request_enter_inv:
  assumes "env_ok E" "rl_inv s"
  shows "\<exists>ret s'. rl_sta_cache_request_enter E s = Some (ret, s') \<and> rl_inv s' \<and> wlan_log s' = wlan_log s"
proof -
  define t where "t = rl_status_reset_private_state RL_PRIV_STATUS_STA_ADV s"
  have t: "rl_inv t" "wlan_log t = wlan_log s" using assms(2) by (simp_all add: t_def rl_inv_reset_private rl_status_log)
  define u where "u = (if rl_status s AND RL_PRIV_STATUS_STA_ADV \<noteq> 0 then t else s)"
  have u: "rl_inv u" "wlan_log u = wlan_log s" using t assms(2) by (simp_all add: u_def)
  obtain s1 where s1: "rl_sta_request_enter_handle E (cache_param (g_sta_cache u)) (cache_completion (g_sta_cache u)) u = Some s1"
      "rl_inv s1" "wlan_log s1 = wlan_log s"
    using request_inv [OF assms(1) u(1)] u(2) unfolding rl_sta_request_enter_handle_def by metis
  obtain s2 where s2: "rl_sta_request_enter E (no_req\<lparr>req_type := LAUNCH_REQ_DELIF_STA\<rparr>) 0 t = Some s2" "rl_inv s2" "wlan_log s2 = wlan_log s"
    using rl_sta_request_enter_inv [OF assms(1) t(1)] t(2) by metis
  show ?thesis using s1 s2 assms(2) unfolding rl_sta_cache_request_enter_def Let_def t_def [symmetric] u_def [symmetric]
    by (simp add: rl_inv_cache)
qed

lemma rl_inv_status: "rl_inv s \<Longrightarrow> busy w = 0 \<Longrightarrow> rl_inv (s\<lparr>rl_status := w\<rparr>)"
  using rl_good_status(1) [of 0 s w 0] by (simp add: rl_inv_def rl_good_status(2))

lemma rl_inv_pause:
  assumes "rl_inv s"
  shows "rl_inv (rl_status_set_pause en s)"
proof -
  have b: "busy (rl_status s) = 0" using assms by (simp add: rl_inv_def rl_good_def)
  then have "busy (rl_status s OR RL_STATUS_PAUSE) = 0" by simp
  moreover have "busy (rl_status s AND NOT RL_STATUS_PAUSE) = 0" by (simp only: status_simps b) simp
  ultimately show ?thesis using rl_inv_status [OF assms] by (simp add: rl_status_set_pause_def)
qed

lemma rl_event_inv:
  assumes "env_ok E" "rl_inv s"
  shows "\<exists>s'. rl_event (E, e) s = Some s' \<and> rl_inv s'"
proof (cases e)
  case (Ev_sta_request r c)
  then show ?thesis using rl_sta_request_enter_inv [OF assms] by auto
next
  case (Ev_ap_request r c)
  then show ?thesis using request_inv [OF assms] by (auto simp: rl_ap_request_enter_def)
next
  case Ev_cache_request
  then show ?thesis using rl_sta_cache_request_enter_inv [OF assms] by auto
next
  case Ev_enter_timer
  have "rl_inv (s\<lparr>enter_timer := (enter_timer s)\<lparr>active := False\<rparr>\<rparr>)"
    using assms(2) by (simp add: rl_inv_enter_timer rl_inv_handle)
  then show ?thesis using rl_enter_handler_inv [OF assms(1)] Ev_enter_timer assms(2) by (auto simp: timer_callback2_def Let_def)
next
  case Ev_launch_timer
  have "rl_good 0 (s\<lparr>rl_timer := (rl_timer s)\<lparr>active := False\<rparr>\<rparr>)"
    using assms(2) by (simp add: rl_inv_def rl_good_def waits_def serves_def sta.slots_ok_def)
  then show ?thesis using rl_launch_handler_inv [OF assms(1)] Ev_launch_timer assms(2)
    by (auto simp: timer_callback2_def Let_def rl_inv_def rl_good_def)
next
  case (Ev_callback cb)
  then show ?thesis using rl_good_cong(3) [OF core_callback(1)] assms(2) by auto
next
  case Ev_autobcn
  then show ?thesis using rl_good_cong(3) [OF core_unrelated(7)] assms(2) by (auto simp: rl_pre_ap_disable_autobcn_def Let_def)
next
  case (Ev_pause en)
  then show ?thesis using rl_inv_pause assms(2) by auto
qed

lemma rl_run_inv:
  assumes "\<forall>(E, e) \<in> set evs. env_ok E" "rl_inv s"
  shows "\<exists>s'. rl_run evs s = Some s' \<and> rl_inv s'"
  using assms
proof (induction evs arbitrary: s)
  case (Cons x xs)
  obtain E e where x: "x = (E, e)" by (cases x)
  then obtain s1 where "rl_event x s = Some s1" "rl_inv s1" using rl_event_inv [of E s e] Cons.prems by auto
  then show ?case using Cons by auto
qed simp

lemma rl_init_inv: "rl_init E rl_boot = Some s \<Longrightarrow> rl_inv s"
  by (auto simp: rl_init_def rl_boot_def rtos_init_oneshot_timer_def rl_inv_def rl_good_def waits_def serves_def sta.slots_ok_def
      mem_ok_def all_asap_def busy_def PRE_ENTITY_IDLE_def Let_def split: if_split_asm)

section \<open>Order\<close>

text \<open>
  The calls that an event will have made for the requests that it accepts: those of the socket for
  which \<open>_sta_request_enter\<close> or \<open>_ap_request_enter\<close> does not return 0.
\<close>

definition enter_runs :: "'d rl_env \<Rightarrow> 'd rl_world \<Rightarrow> bool" where
  "enter_runs E s \<longleftrightarrow> active (enter_timer s) \<and> handle (enter_timer s) \<and> os_malloc E \<and> rl_not_paused s"

definition enter_state :: "('d::zero) rl_world \<Rightarrow> 'd rl_world" where
  "enter_state s = enter_begin (s\<lparr>enter_timer := (enter_timer s)\<lparr>active := False\<rparr>\<rparr>)"

definition sta_taken :: "('d::zero) rl_env \<times> 'd rl_ev \<Rightarrow> 'd rl_world \<Rightarrow> 'd wlan_call list" where
  "sta_taken x s = (case x of (E, e) \<Rightarrow>
     if e = Ev_enter_timer \<and> enter_runs E s \<and> sta_req_flag (g_rl_socket s) \<noteq> 0 then
       (case sta_request_enter E (sta_param (g_rl_socket s)) (sta_completion (g_rl_socket s)) (enter_state s) of
          Some (ret, s') \<Rightarrow> if ret = 0 then [] else sta_call (sta_param (g_rl_socket s))
        | None \<Rightarrow> [])
     else [])"

definition ap_taken :: "('d::zero) rl_env \<times> 'd rl_ev \<Rightarrow> 'd rl_world \<Rightarrow> 'd wlan_call list" where
  "ap_taken x s = (case x of (E, e) \<Rightarrow>
     if e = Ev_enter_timer \<and> enter_runs E s \<and> ap_req_flag (g_rl_socket s) \<noteq> 0 then
       (case enter_sta E (g_rl_socket s) (enter_state s) \<bind> ap_request_enter E (ap_param (g_rl_socket s)) (ap_completion (g_rl_socket s)) of
          Some (ret, s') \<Rightarrow> if ret = 0 then [] else ap_call (ap_param (g_rl_socket s))
        | None \<Rightarrow> [])
     else [])"

fun accepted :: "(('d::zero) rl_env \<times> 'd rl_ev \<Rightarrow> 'd rl_world \<Rightarrow> 'd wlan_call list) \<Rightarrow> ('d rl_env \<times> 'd rl_ev) list \<Rightarrow> 'd rl_world \<Rightarrow> 'd wlan_call list" where
  "accepted taken [] s = []"
| "accepted taken (x # xs) s = taken x s @ (case rl_event x s of None \<Rightarrow> [] | Some s' \<Rightarrow> accepted taken xs s')"

text \<open>The calls made for a role, and the call that its waiting request will make.\<close>

definition sta_queue :: "'d rl_world \<Rightarrow> 'd wlan_call list" where
  "sta_queue s = filter is_sta_call (wlan_log s) @ waiting sta_call (jl_following_sta s) (entities s)"

definition ap_queue :: "'d rl_world \<Rightarrow> 'd wlan_call list" where
  "ap_queue s = filter is_ap_call (wlan_log s) @ waiting ap_call (jl_following_ap s) (entities s)"

lemma sta_enter_queue:
  assumes "sta_request_enter E r c s = Some (ret, s')" and "env_ok E" and g: "rl_good b s"
  shows "subseq (sta_queue s') (sta_queue s @ (if ret = 0 then [] else sta_call r))" "ap_queue s' = ap_queue s"
proof -
  note z = env_fresh [OF assms(2) g]
  have ok: "sta.slots_ok s" using g by (simp add: rl_good_def)
  note k = sta.enter_keeps [OF assms(1) ok z]
  have "jl_following_sta s = None" if "ret = 1" using k(9) [OF _ that] g by (auto simp: rl_good_def waits_def serves_def)
  from sta.enter_queue [OF assms(1) this] show "subseq (sta_queue s') (sta_queue s @ (if ret = 0 then [] else sta_call r))"
    by (simp add: sta_queue_def)
  show "ap_queue s' = ap_queue s" using k(4,5,6) by (simp add: ap_queue_def)
qed

lemma ap_enter_queue:
  assumes "ap_request_enter E r c s = Some (ret, s')" and "env_ok E" and g: "rl_good b s"
  shows "subseq (ap_queue s') (ap_queue s @ (if ret = 0 then [] else ap_call r))" "sta_queue s' = sta_queue s"
proof -
  note z = env_fresh [OF assms(2) g]
  have ok: "ap.slots_ok s" using g by (simp add: rl_good_def slots_ok_swap)
  note k = ap.enter_keeps [OF assms(1) ok z]
  have "jl_following_ap s = None" if "ret = 1" using k(9) [OF _ that] g by (auto simp: rl_good_def waits_def serves_def)
  from ap.enter_queue [OF assms(1) this] show "subseq (ap_queue s') (ap_queue s @ (if ret = 0 then [] else ap_call r))"
    by (simp add: ap_queue_def)
  show "sta_queue s' = sta_queue s" using k(4,5,6) by (simp add: sta_queue_def)
qed

lemma launch_queues:
  assumes "sta.slots_ok s"
  shows "rl_launch_sta E s = Some (ret, s') \<Longrightarrow> subseq (sta_queue s') (sta_queue s) \<and> ap_queue s' = ap_queue s \<and> sta.slots_ok s'"
    "rl_launch_ap E s = Some (ret, s') \<Longrightarrow> subseq (ap_queue s') (ap_queue s) \<and> sta_queue s' = sta_queue s \<and> sta.slots_ok s'"
proof -
  assume l: "rl_launch_sta E s = Some (ret, s')"
  show "subseq (sta_queue s') (sta_queue s) \<and> ap_queue s' = ap_queue s \<and> sta.slots_ok s'"
    using sta.launch_queue [OF l] sta.launch_keeps [OF l assms] by (simp add: sta_queue_def ap_queue_def)
next
  assume l: "rl_launch_ap E s = Some (ret, s')"
  show "subseq (ap_queue s') (ap_queue s) \<and> sta_queue s' = sta_queue s \<and> sta.slots_ok s'"
    using ap.launch_queue [OF l] ap.launch_keeps [OF l assms [folded slots_ok_swap]] by (simp add: sta_queue_def ap_queue_def slots_ok_swap)
qed

lemma queue_type: "sta_queue (s\<lparr>pre_entity_type := k\<rparr>) = sta_queue s" "ap_queue (s\<lparr>pre_entity_type := k\<rparr>) = ap_queue s"
  by (simp_all add: sta_queue_def ap_queue_def)

lemma poll_both_queues:
  assumes "poll_both E s = Some (sta_ret, ap_ret, s')" and "rl_good b s"
  shows "subseq (sta_queue s') (sta_queue s) \<and> subseq (ap_queue s') (ap_queue s)"
proof -
  have ok: "sta.slots_ok s" using assms(2) by (simp add: rl_good_def)
  show ?thesis using assms(1)
  proof (cases rule: poll_both_cases)
    case (ap_sta s1)
    then show ?thesis using launch_queues(2) [OF ok ap_sta(2)] launch_queues(1) [OF _ ap_sta(4)] by (simp add: queue_type)
  next
    case (sta_ap s1)
    then show ?thesis using launch_queues(1) [OF ok sta_ap(2)] launch_queues(2) [OF _ sta_ap(4)] by (simp add: queue_type)
  qed (use launch_queues [OF ok] in auto)
qed

lemma queue_same:
  assumes "wlan_log s' = wlan_log s" "jl_following_sta s' = jl_following_sta s" "jl_following_ap s' = jl_following_ap s" "entities s' = entities s"
  shows "sta_queue s' = sta_queue s" "ap_queue s' = ap_queue s"
  using assms by (simp_all add: sta_queue_def ap_queue_def)

lemma subseq_append_right [simp]: "subseq xs (xs @ ys)"
  by (simp add: prefix_imp_subseq)

lemma enter_sta_queues:
  assumes "enter_sta E sock s = Some s'" and "env_ok E" and "rl_good b s"
  shows "subseq (sta_queue s') (sta_queue s @ (if sta_req_flag sock = 0 then [] else
      case sta_request_enter E (sta_param sock) (sta_completion sock) s of Some (ret, u) \<Rightarrow> if ret = 0 then [] else sta_call (sta_param sock) | None \<Rightarrow> []))"
    "ap_queue s' = ap_queue s"
proof -
  have "subseq (sta_queue s') (sta_queue s @ (if sta_req_flag sock = 0 then [] else
      case sta_request_enter E (sta_param sock) (sta_completion sock) s of Some (ret, u) \<Rightarrow> if ret = 0 then [] else sta_call (sta_param sock) | None \<Rightarrow> [])) \<and> ap_queue s' = ap_queue s"
  proof (cases "sta_req_flag sock = 0")
    case True
    then show ?thesis using assms(1) by (simp add: enter_sta_def)
  next
    case False
    with assms(1) obtain ret u where e: "sta_request_enter E (sta_param sock) (sta_completion sock) s = Some (ret, u)"
      and s': "wlan_log s' = wlan_log u" "jl_following_sta s' = jl_following_sta u" "jl_following_ap s' = jl_following_ap u" "entities s' = entities u"
      by (auto simp: enter_sta_def split: bind_split_asm if_split_asm)
    from queue_same [OF s'] show ?thesis using False e sta_enter_queue [OF e assms(2,3)] by simp
  qed
  then show "subseq (sta_queue s') (sta_queue s @ (if sta_req_flag sock = 0 then [] else
      case sta_request_enter E (sta_param sock) (sta_completion sock) s of Some (ret, u) \<Rightarrow> if ret = 0 then [] else sta_call (sta_param sock) | None \<Rightarrow> []))"
    "ap_queue s' = ap_queue s" by auto
qed

lemma enter_ap_queues:
  assumes "enter_ap E sock s = Some s'" and "env_ok E" and "rl_good b s"
  shows "subseq (ap_queue s') (ap_queue s @ (if ap_req_flag sock = 0 then [] else
      case ap_request_enter E (ap_param sock) (ap_completion sock) s of Some (ret, u) \<Rightarrow> if ret = 0 then [] else ap_call (ap_param sock) | None \<Rightarrow> []))"
    "sta_queue s' = sta_queue s"
proof -
  have "subseq (ap_queue s') (ap_queue s @ (if ap_req_flag sock = 0 then [] else
      case ap_request_enter E (ap_param sock) (ap_completion sock) s of Some (ret, u) \<Rightarrow> if ret = 0 then [] else ap_call (ap_param sock) | None \<Rightarrow> [])) \<and> sta_queue s' = sta_queue s"
  proof (cases "ap_req_flag sock = 0")
    case True
    then show ?thesis using assms(1) by (simp add: enter_ap_def)
  next
    case False
    with assms(1) obtain ret u where e: "ap_request_enter E (ap_param sock) (ap_completion sock) s = Some (ret, u)"
      and s': "wlan_log s' = wlan_log u" "jl_following_sta s' = jl_following_sta u" "jl_following_ap s' = jl_following_ap u" "entities s' = entities u"
      by (auto simp: enter_ap_def split: bind_split_asm if_split_asm)
    from queue_same [OF s'] show ?thesis using False e ap_enter_queue [OF e assms(2,3)] by simp
  qed
  then show "subseq (ap_queue s') (ap_queue s @ (if ap_req_flag sock = 0 then [] else
      case ap_request_enter E (ap_param sock) (ap_completion sock) s of Some (ret, u) \<Rightarrow> if ret = 0 then [] else ap_call (ap_param sock) | None \<Rightarrow> []))"
    "sta_queue s' = sta_queue s" by auto
qed

lemma enter_timer_queues:
  assumes "env_ok E" and i: "rl_inv s" and "rl_event (E, Ev_enter_timer) s = Some s'"
  shows "subseq (sta_queue s') (sta_queue s @ sta_taken (E, Ev_enter_timer) s) \<and> subseq (ap_queue s') (ap_queue s @ ap_taken (E, Ev_enter_timer) s)"
proof (cases "enter_runs E s")
  case False
  then have "wlan_log s' = wlan_log s" "jl_following_sta s' = jl_following_sta s" "jl_following_ap s' = jl_following_ap s" "entities s' = entities s"
    using assms(3) by (auto simp: timer_callback2_def Let_def enter_runs_def rl_enter_handler_eq rl_not_paused_iff split: if_split_asm)
  from queue_same [OF this] show ?thesis by simp
next
  case True
  let ?u = "enter_state s" and ?sock = "g_rl_socket s"
  from True obtain s1 s2 where e: "enter_sta E ?sock ?u = Some s1" "enter_ap E ?sock s1 = Some s2"
      "s' = s2\<lparr>rl_status := rl_status s2 AND NOT RL_STATUS_PENDING\<rparr>"
    using assms(3) by (auto simp: timer_callback2_def Let_def enter_runs_def rl_enter_handler_eq rl_not_paused_iff enter_state_def split: if_split_asm bind_split_asm)
  have g: "rl_good 1 ?u" using enter_begin_good(1) [of "s\<lparr>enter_timer := (enter_timer s)\<lparr>active := False\<rparr>\<rparr>"] i
    by (simp add: enter_state_def rl_inv_enter_timer rl_inv_handle)
  have w: "waits ?u \<longrightarrow> active (rl_timer ?u)" using i by (simp add: enter_state_def enter_begin_def rl_inv_def waits_def)
  have g1: "rl_good 1 s1" using enter_sta_good [OF assms(1) g _ w, of ?sock] e(1) by simp
  have q: "sta_queue ?u = sta_queue s" "ap_queue ?u = ap_queue s" by (rule queue_same; simp add: enter_state_def enter_begin_def)+
  have q': "sta_queue s' = sta_queue s2" "ap_queue s' = ap_queue s2" unfolding e(3) by (rule queue_same; simp)+
  show ?thesis
    using enter_sta_queues [OF e(1) assms(1) g] enter_ap_queues [OF e(2) assms(1) g1] True e(1)
    by (cases "sta_req_flag ?sock = 0"; cases "ap_req_flag ?sock = 0") (simp_all add: sta_taken_def ap_taken_def q q')
qed

lemma launch_timer_queues:
  assumes "env_ok E" and i: "rl_inv s" and "rl_event (E, Ev_launch_timer) s = Some s'"
  shows "subseq (sta_queue s') (sta_queue s) \<and> subseq (ap_queue s') (ap_queue s)"
proof (cases "active (rl_timer s)")
  case False
  then show ?thesis using assms(3) by (simp add: timer_callback2_def)
next
  case True
  define u where "u = s\<lparr>rl_timer := (rl_timer s)\<lparr>active := False\<rparr>\<rparr>"
  have g: "rl_good 0 u" using i by (simp add: u_def rl_inv_def rl_good_def waits_def serves_def sta.slots_ok_def)
  have "rl_launch_handler E u = Some s'" using True assms(3) i by (simp add: u_def timer_callback2_def rl_inv_def rl_good_def)
  then obtain sta_ret ap_ret s1 where p: "poll_both E u = Some (sta_ret, ap_ret, s1)"
    and s': "s' = s1 \<or> rl_relaunch_chance E s1 = Some s'"
    by (auto simp: rl_launch_handler_eq split: bind_split_asm if_split_asm)
  have "s' = s1 \<or> s' = s1\<lparr>rl_timer := (rl_timer s1)\<lparr>active := True\<rparr>\<rparr>"
    using s' poll_both_good(1) [OF p g] assms(1) by (auto simp: rl_relaunch_chance_eq rl_good_def env_ok_def)
  then have "sta_queue s' = sta_queue s1" "ap_queue s' = ap_queue s1" by (auto simp: sta_queue_def ap_queue_def)
  moreover have "sta_queue u = sta_queue s" "ap_queue u = ap_queue s" by (simp_all add: u_def sta_queue_def ap_queue_def)
  ultimately show ?thesis using poll_both_queues [OF p g] by simp
qed

lemma restart_enter_timer_frame:
  assumes "restart_enter_timer E s = Some s'"
  shows "wlan_log s' = wlan_log s" "jl_following_sta s' = jl_following_sta s" "jl_following_ap s' = jl_following_ap s" "entities s' = entities s"
    "jl_previous_sta s' = jl_previous_sta s" "jl_previous_ap s' = jl_previous_ap s"
  using assms by (auto simp: restart_enter_timer_def split: bind_split_asm if_split_asm)

lemma rl_status_queue:
  "sta_queue (rl_status_reset_st_state m s) = sta_queue s" "ap_queue (rl_status_reset_st_state m s) = ap_queue s"
  "sta_queue (rl_status_reset_private_state m s) = sta_queue s" "ap_queue (rl_status_reset_private_state m s) = ap_queue s"
  by (simp_all add: sta_queue_def ap_queue_def rl_status_reset_st_state_def rl_status_reset_private_state_def)

lemma restart_queue:
  assumes "restart_enter_timer E s = Some s'"
  shows "sta_queue s' = sta_queue s" "ap_queue s' = ap_queue s"
  using queue_same [OF restart_enter_timer_frame(1-4) [OF assms]] .

lemma request_queue:
  "rl_sta_request_enter_handle E r c s = Some s' \<Longrightarrow> sta_queue s' = sta_queue s \<and> ap_queue s' = ap_queue s"
  "rl_ap_request_enter E r c s = Some s' \<Longrightarrow> sta_queue s' = sta_queue s \<and> ap_queue s' = ap_queue s"
  unfolding rl_sta_request_enter_handle_def rl_ap_request_enter_def
  by (use restart_queue in \<open>fastforce simp: sta_queue_def ap_queue_def\<close>)+

lemma cache_request_queue:
  assumes "rl_sta_cache_request_enter E s = Some (ret, s')"
  shows "sta_queue s' = sta_queue s \<and> ap_queue s' = ap_queue s"
proof -
  have c: "sta_queue (u\<lparr>g_sta_cache := k\<rparr>) = sta_queue u" "ap_queue (u\<lparr>g_sta_cache := k\<rparr>) = ap_queue u" for u :: "'a rl_world" and k
    by (simp_all add: sta_queue_def ap_queue_def)
  show ?thesis
    using assms by (auto simp: rl_sta_cache_request_enter_def rl_sta_request_enter_def Let_def c rl_status_queue
        dest!: request_queue split: if_split_asm bind_split_asm)
qed

lemma event_queues:
  assumes "env_ok E" and "rl_inv s" and "rl_event (E, e) s = Some s'"
  shows "subseq (sta_queue s') (sta_queue s @ sta_taken (E, e) s) \<and> subseq (ap_queue s') (ap_queue s @ ap_taken (E, e) s)"
proof (cases e)
  case (Ev_sta_request r c)
  then show ?thesis using assms(3) by (auto simp: rl_sta_request_enter_def rl_status_queue dest!: request_queue)
next
  case (Ev_ap_request r c)
  then show ?thesis using assms(3) by (auto dest!: request_queue)
next
  case Ev_cache_request
  then show ?thesis using assms(3) by (auto dest!: cache_request_queue)
next
  case Ev_enter_timer
  then show ?thesis using enter_timer_queues assms by blast
next
  case Ev_launch_timer
  then show ?thesis using launch_timer_queues [OF assms(1,2)] assms(3) by (auto intro: subseq_order.trans)
next
  case (Ev_callback c)
  then show ?thesis using assms(3) by (auto simp: sta_queue_def ap_queue_def)
next
  case Ev_autobcn
  then show ?thesis using assms(3)
    by (auto simp: sta_queue_def ap_queue_def rl_pre_ap_disable_autobcn_def Let_def is_sta_call_def is_ap_call_def)
next
  case (Ev_pause en)
  then show ?thesis using assms(3) by (auto simp: sta_queue_def ap_queue_def rl_status_set_pause_def)
qed

lemma run_queue:
  assumes step: "\<And>E e s s'. env_ok E \<Longrightarrow> rl_inv s \<Longrightarrow> rl_event (E, e) s = Some s' \<Longrightarrow> subseq (q s') (q s @ taken (E, e) s)"
    and "\<forall>(E, e) \<in> set evs. env_ok E" and "rl_inv s" and "rl_run evs s = Some s'"
  shows "subseq (q s') (q s @ accepted taken evs s)"
  using assms(2-)
proof (induction evs arbitrary: s)
  case (Cons x xs)
  obtain E e where x: "x = (E, e)" by (cases x)
  then obtain s1 where s1: "rl_event x s = Some s1" "rl_inv s1" "rl_run xs s1 = Some s'"
    using rl_event_inv [of E s e] Cons.prems by auto
  have "subseq (q s') (q s1 @ accepted taken xs s1)" using Cons.IH s1 Cons.prems(1) by simp
  moreover have "subseq (q s1) (q s @ taken x s)" using step [of E s e s1] s1(1) Cons.prems x by simp
  then have "subseq (q s1 @ accepted taken xs s1) ((q s @ taken x s) @ accepted taken xs s1)"
    by (rule list_emb_append_mono) simp
  ultimately show ?case using s1(1) by (auto intro: subseq_order.trans)
qed simp

section \<open>Progress\<close>

lemma rl_not_hold_doing [simp]: "rl_not_hold (set_doing s) = rl_not_hold s" "rl_not_hold (clear_doing s) = rl_not_hold s"
proof -
  have b: "bit RL_STA_STATE_MASK n \<Longrightarrow> \<not> bit RL_STATUS_DOING n" for n
    by (auto simp: RL_STA_STATE_MASK_def RL_ST_STATUS_RESTART_HOLD_def RL_ST_STATUS_RESTART_ST_def RL_STATUS_DOING_def bit_simps)
  have "(w OR RL_STATUS_DOING) AND RL_STA_STATE_MASK = w AND RL_STA_STATE_MASK"
    "(w AND NOT RL_STATUS_DOING) AND RL_STA_STATE_MASK = w AND RL_STA_STATE_MASK" for w
    by (rule bit_word_eqI, use b in \<open>auto simp: bit_simps\<close>)+
  then show "rl_not_hold (set_doing s) = rl_not_hold s" "rl_not_hold (clear_doing s) = rl_not_hold s"
    by (simp_all add: rl_not_hold_def set_doing_def clear_doing_def)
qed

text \<open>The station has come so far that a request that waits may take its place.\<close>

definition sta_gives_way :: "'d rl_world \<Rightarrow> bool" where
  "sta_gives_way s \<longleftrightarrow> g_mrole_csa_flag s \<noteq> RL_STATUS_MROLE_CHANNEL_SWITCHING
     \<and> pre_sta_status s \<in> {RL_STATUS_STA_INITING, RL_STATUS_STA_SCAN_OVER, RL_STATUS_STA_CONNECTING, RL_STATUS_STA_DHCPING,
         RL_STATUS_STA_LAUNCHED, RL_STATUS_STA_LAUNCH_FAILED}"

lemma sta_gives_way_next: "sta_gives_way s \<Longrightarrow> rl_sta_may_next_launch (rl_pre_sta_set_cancel s) \<noteq> 0"
  by (auto simp: sta_gives_way_def rl_sta_may_next_launch_def rl_pre_sta_set_cancel_def rl_pre_sta_get_status_def Let_def)

lemma start_following_sta_starts:
  assumes "jl_following_sta s = Some a" "entities s a = Some e" "rl_not_paused s" "rl_not_hold s"
  shows "\<exists>s'. start_following_sta E s = Some (LAUNCH_STATUS_CONT, s') \<and> jl_previous_sta s' = Some a
    \<and> wlan_log s' = wlan_log s @ sta_call (rlaunch e)"
  using assms by (simp add: start_following_sta_def Let_def rl_not_hold_def)

lemma rl_launch_sta_starts:
  assumes ok: "sta.slots_ok s" and asap: "all_asap (entities s)" and f: "jl_following_sta s = Some a" "entities s a = Some e"
    and n: "rl_not_paused s" "rl_not_hold s" and g: "jl_previous_sta s = None \<or> sta_gives_way s"
  shows "\<exists>s'. rl_launch_sta E s = Some (LAUNCH_STATUS_CONT, s') \<and> jl_previous_sta s' = Some a
    \<and> wlan_log s' = wlan_log s @ sta_call (rlaunch e)"
proof (cases "jl_previous_sta s")
  case None
  then show ?thesis using start_following_sta_starts [OF f n, of E] f by (simp add: rl_launch_sta_def)
next
  case (Some p)
  have p: "p \<noteq> a" and "\<exists>e. entities s p = Some e"
    using ok Some f(1) by (auto simp: sta.slots_ok_def mem_ok_def)
  then obtain ep where ep: "entities s p = Some ep" by auto
  let ?u = "(rl_pre_sta_set_cancel s)\<lparr>entities := (entities s)(p := None)\<rparr>"
  have c: "rl_pre_sta_set_cancel (rl_pre_sta_set_cancel s) = rl_pre_sta_set_cancel s" by (simp add: rl_pre_sta_set_cancel_def)
  have a: "is_asap s (jl_following_sta s) = Some True" using f asap by (simp add: is_asap_def all_asap_def)
  have "rl_launch_sta E s = start_following_sta E ?u"
    using Some g a ep sta_gives_way_next [of s] by (simp add: rl_launch_sta_def Let_def c rl_free_entity_def)
  moreover have "\<exists>s'. start_following_sta E ?u = Some (LAUNCH_STATUS_CONT, s') \<and> jl_previous_sta s' = Some a
    \<and> wlan_log s' = wlan_log ?u @ sta_call (rlaunch e)"
    by (rule start_following_sta_starts) (use f n p in \<open>simp_all add: rl_not_hold_def\<close>)
  ultimately show ?thesis by simp
qed

text \<open>Without a request that waits, the access point is done at the first poll.\<close>

lemma rl_launch_ap_over:
  assumes ok: "sta.slots_ok s" and asap: "all_asap (entities s)" and n: "rl_not_paused s" and f: "jl_following_ap s = None"
  shows "\<exists>s'. rl_launch_ap E s = Some (LAUNCH_STATUS_OVER, s') \<and> rl_not_hold s' = rl_not_hold s
    \<and> pre_sta_status s' = pre_sta_status s \<and> g_mrole_csa_flag s' = g_mrole_csa_flag s \<and> jl_previous_sta s' = jl_previous_sta s
    \<and> wlan_log s' = wlan_log s"
proof (cases "jl_previous_ap s")
  case None
  then show ?thesis using f by (simp add: rl_launch_ap_def)
next
  case (Some p)
  have "mem_ok (jl_previous_ap s) (jl_following_ap s) (jl_previous_sta s) (jl_following_sta s) (entities s)"
    using ok by (simp add: sta.slots_ok_def mem_ok_swap)
  from mem_okD [OF this] Some obtain e where e: "entities s p = Some e" by blast
  then have "\<not> over_limit e" using asap by (auto simp: all_asap_def over_limit_def)
  moreover have "rl_not_hold (u\<lparr>entities := h, jl_following_ap := x\<rparr>) = rl_not_hold u" "rl_not_hold (u\<lparr>jl_previous_ap := x\<rparr>) = rl_not_hold u" for u x and h :: "nat \<rightharpoonup> 'a RL_ENTITY_T"
    by (simp_all add: rl_not_hold_def)
  ultimately show ?thesis using Some e f n
    by (simp add: rl_launch_ap_def is_asap_def rl_ap_may_next_launch_def rl_free_entity_def start_following_ap_def Let_def)
      (simp add: set_doing_def clear_doing_def)
qed

lemma launch_timer_starts:
  assumes "env_ok E" and i: "rl_inv s" and f: "jl_following_sta s = Some a" "entities s a = Some e" and fa: "jl_following_ap s = None"
    and n: "rl_not_paused s" "rl_not_hold s" and g: "jl_previous_sta s = None \<or> sta_gives_way s"
  shows "\<exists>s'. rl_event (E, Ev_launch_timer) s = Some s' \<and> jl_previous_sta s' = Some a \<and> wlan_log s' = wlan_log s @ sta_call (rlaunch e)"
proof -
  define u where "u = s\<lparr>rl_timer := (rl_timer s)\<lparr>active := False\<rparr>\<rparr>"
  have gu: "rl_good 0 u" using i by (simp add: u_def rl_inv_def rl_good_def waits_def serves_def sta.slots_ok_def)
  have act: "active (rl_timer s)" "handle (rl_timer s)" using i f by (auto simp: rl_inv_def rl_good_def waits_def)
  have ok: "sta.slots_ok u" "all_asap (entities u)" using gu by (simp_all add: rl_good_def)
  have nu: "rl_not_paused u" "rl_not_hold u" "jl_previous_sta u = None \<or> sta_gives_way u"
    using n g by (simp_all add: u_def rl_not_paused_def rl_not_hold_def sta_gives_way_def)
  have fu: "jl_following_sta u = Some a" "entities u a = Some e" "jl_following_ap u = None" using f fa by (simp_all add: u_def)
  have "serves u" "pre_entity_type u \<in> {PRE_ENTITY_IDLE, PRE_ENTITY_STA, PRE_ENTITY_AP}" "pre_entity_type u \<noteq> PRE_ENTITY_IDLE"
    using gu fu(1) by (auto simp: rl_good_def waits_def)
  then consider "pre_entity_type u = PRE_ENTITY_STA" | "pre_entity_type u = PRE_ENTITY_AP" by auto
  then have "\<exists>ap_ret s1. poll_both E u = Some (LAUNCH_STATUS_CONT, ap_ret, s1) \<and> jl_previous_sta s1 = Some a
    \<and> wlan_log s1 = wlan_log s @ sta_call (rlaunch e)"
  proof cases
    case 1
    then show ?thesis using rl_launch_sta_starts [OF ok fu(1,2) nu, of E] by (auto simp: poll_both_def u_def rl_codes)
  next
    case 2
    obtain s1 where s1: "rl_launch_ap E u = Some (LAUNCH_STATUS_OVER, s1)" "rl_not_hold s1 = rl_not_hold u"
        "pre_sta_status s1 = pre_sta_status u" "g_mrole_csa_flag s1 = g_mrole_csa_flag u" "jl_previous_sta s1 = jl_previous_sta u"
        "wlan_log s1 = wlan_log u"
      using rl_launch_ap_over [OF ok nu(1) fu(3), of E] by blast
    note k = ap.launch_keeps [OF s1(1) ok(1) [folded slots_ok_swap]]
    define v where "v = s1\<lparr>pre_entity_type := PRE_ENTITY_STA\<rparr>"
    have e': "entities s1 a = Some e"
      using ap.launch_slots [OF s1(1)] fu ok(1)
      by (auto simp: slot_launch_def rl_codes sta.slots_ok_def mem_ok_def restrict_map_def)
    have "\<exists>s'. rl_launch_sta E v = Some (LAUNCH_STATUS_CONT, s') \<and> jl_previous_sta s' = Some a \<and> wlan_log s' = wlan_log v @ sta_call (rlaunch e)"
    proof (rule rl_launch_sta_starts)
      show "sta.slots_ok v" "all_asap (entities v)" using k(1,7) ok(2) by (simp_all add: v_def slots_ok_swap)
      show "jl_following_sta v = Some a" "entities v a = Some e" using k(4) fu(1) e' by (simp_all add: v_def)
      show "rl_not_paused v" using k(2) nu(1) by (simp add: v_def rl_not_paused_iff rest_kept_def)
      show "rl_not_hold v" using s1(2) nu(2) by (simp add: v_def rl_not_hold_def)
      show "jl_previous_sta v = None \<or> sta_gives_way v" using s1(3-5) nu(3) by (simp add: v_def sta_gives_way_def)
    qed
    then show ?thesis using 2 s1(1,6) by (auto simp: poll_both_def v_def u_def rl_codes)
  qed
  then obtain ap_ret s1 where p: "poll_both E u = Some (LAUNCH_STATUS_CONT, ap_ret, s1)" "jl_previous_sta s1 = Some a"
      "wlan_log s1 = wlan_log s @ sta_call (rlaunch e)" by blast
  have "rl_launch_handler E u = Some (s1\<lparr>rl_timer := (rl_timer s1)\<lparr>active := True\<rparr>\<rparr>)"
    using p(1) poll_both_good(1) [OF p(1) gu] assms(1) by (simp add: rl_launch_handler_eq rl_codes rl_relaunch_chance_eq rl_good_def env_ok_def)
  then show ?thesis using act p(2,3) by (simp add: timer_callback2_def u_def)
qed

section \<open>Properties\<close>

text \<open>
  (C6) Memory and timers of the joint start. After \<open>rl_init\<close> and any sequence of requests, timer
  expiries and calls by any WLAN stack, as long as \<open>os_zalloc\<close> and the commands to the timer task succeed, no operation fails (in particular, no entity is used or freed
  after it was freed), the allocated entities are exactly the requests in the four slots, each in one
  slot, a request waits only while the launch timer runs, and the status is idle between events.
\<close>

theorem rl_slots_and_timers:
  assumes "rl_init E0 rl_boot = Some s0" and "\<forall>(E, e) \<in> set evs. env_ok E"
  shows "\<exists>s. rl_run evs s0 = Some s
    \<and> mem_ok (jl_previous_sta s) (jl_following_sta s) (jl_previous_ap s) (jl_following_ap s) (entities s)
    \<and> (jl_following_sta s \<noteq> None \<or> jl_following_ap s \<noteq> None \<longrightarrow> active (rl_timer s)) \<and> rl_status_is_idle s"
  using rl_run_inv [OF assms(2) rl_init_inv [OF assms(1)]]
  by (auto simp: rl_inv_def rl_good_def sta.slots_ok_def waits_def rl_status_is_idle_iff)

text \<open>The WLAN stack of the builds with role launch, and an allocator for five entities.\<close>

definition rl_sim_alloc :: "(nat \<rightharpoonup> nat RL_ENTITY_T) \<Rightarrow> nat option" where
  "rl_sim_alloc h = List.find (\<lambda>a. h a = None) [0, 1, 2, 3, 4]"

definition rl_sim :: "nat rl_env" where
  "rl_sim = \<lparr>timer_pass = (\<lambda>_. True), os_zalloc = rl_sim_alloc, os_malloc = True,
     bk_wlan_is_monitor_mode = False, wlan_callbacks = (\<lambda>c s. wlan_ui_calls c)\<rparr>"

lemma rl_sim_ok: "env_ok rl_sim"
proof -
  have "\<exists>a. rl_sim_alloc h = Some a \<and> h a = None" if "finite (dom h)" "card (dom h) \<le> 4" for h
  proof (cases "rl_sim_alloc h")
    case None
    then have "{0, 1, 2, 3, 4} \<subseteq> dom h" unfolding rl_sim_alloc_def find_None_iff by auto
    from card_mono [OF that(1) this] that(2) show ?thesis by simp
  next
    case (Some a)
    then have "List.find (\<lambda>a. h a = None) [0, 1, 2, 3, 4] = Some a" by (simp only: rl_sim_alloc_def)
    then have "h a = None" unfolding find_Some_iff by metis
    then show ?thesis using Some by simp
  qed
  then show ?thesis by (simp add: env_ok_def rl_sim_def)
qed

definition rl_ready :: "nat rl_world" where
  "rl_ready = rl_boot\<lparr>rl_timer := \<lparr>handle = True, active = False\<rparr>, enter_timer := \<lparr>handle = True, active = False\<rparr>, rl_timer_flag := RL_TIMER_INIT\<rparr>"

lemma rl_sim_init: "rl_init rl_sim rl_boot = Some rl_ready"
  by (simp add: rl_init_def rl_sim_def rl_ready_def rtos_init_oneshot_timer_def rl_boot_def Let_def)

text \<open>Two requests for the station; the second waits for the first.\<close>

definition rl_sta_req :: "nat \<Rightarrow> nat LAUNCH_REQ" where "rl_sta_req d = \<lparr>descr = d, req_type = LAUNCH_REQ_STA\<rparr>"

definition two_requests :: "(nat rl_env \<times> nat rl_ev) list" where
  "two_requests = map (Pair rl_sim) [Ev_sta_request (rl_sta_req 1) 0, Ev_enter_timer, Ev_sta_request (rl_sta_req 2) 0, Ev_enter_timer]"

lemma two_requests_ok: "\<forall>(E, e) \<in> set two_requests. env_ok E"
  by (simp add: two_requests_def rl_sim_ok)

theorem rl_slots_and_timers_witness:
  "\<exists>s. rl_run two_requests rl_ready = Some s
    \<and> mem_ok (jl_previous_sta s) (jl_following_sta s) (jl_previous_ap s) (jl_following_ap s) (entities s) \<and> rl_status_is_idle s"
  using rl_slots_and_timers [OF rl_sim_init two_requests_ok] by blast

lemma two_requests_run:
  "map_option (\<lambda>s. (wlan_log s, jl_previous_sta s, jl_following_sta s, jl_following_ap s, rl_not_paused s, rl_not_hold s, pre_sta_status s, g_mrole_csa_flag s))
     (rl_run two_requests rl_ready)
   = Some ([Bk_wlan_start_sta 1], Some 0, Some 1, None, True, True, RL_STATUS_STA_INITING, 0)"
  by code_simp

lemma two_requests_accepted: "accepted sta_taken two_requests rl_ready = [Bk_wlan_start_sta 1, Bk_wlan_start_sta 2]"
  by code_simp

text \<open>
  (C7) Requests are served in order and at most once. After \<open>rl_init\<close> and any sequence of events, the
  calls that were made for the station, with the call of the request that waits at the end, are a
  subsequence of the calls of the station requests that were accepted, in the order of acceptance; the same
  holds for the access point. What is missing was dropped while the role was paused or on hold.
\<close>

theorem rl_requests_in_order:
  assumes "rl_init E0 rl_boot = Some s0" and "\<forall>(E, e) \<in> set evs. env_ok E" and "rl_run evs s0 = Some s"
  shows "subseq (sta_queue s) (accepted sta_taken evs s0) \<and> subseq (ap_queue s) (accepted ap_taken evs s0)"
proof -
  have "wlan_log s0 = []" "jl_following_sta s0 = None" "jl_following_ap s0 = None"
    using assms(1) by (auto simp: rl_init_def rl_boot_def Let_def split: if_split_asm prod.split_asm)
  then have "sta_queue s0 = []" "ap_queue s0 = []" by (simp_all add: sta_queue_def ap_queue_def)
  then show ?thesis
    using run_queue [of sta_queue sta_taken, OF _ assms(2) rl_init_inv [OF assms(1)] assms(3)]
      run_queue [of ap_queue ap_taken, OF _ assms(2) rl_init_inv [OF assms(1)] assms(3)] event_queues by auto
qed

theorem rl_requests_in_order_witness:
  "\<exists>s. rl_run two_requests rl_ready = Some s \<and> subseq (sta_queue s) [Bk_wlan_start_sta 1, Bk_wlan_start_sta 2]"
proof -
  obtain s where s: "rl_run two_requests rl_ready = Some s" using two_requests_run by fastforce
  from rl_requests_in_order [OF rl_sim_init two_requests_ok s] show ?thesis using s two_requests_accepted by simp
qed

text \<open>
  (C18) A station request that waits is started. In every state that events can reach, if a station
  request waits, no access point request waits, the launch is neither paused nor on hold, and the
  station is not served or has come to a point where it gives way, then the launch timer is running
  and its next expiry starts the request.
\<close>

theorem rl_waiting_station_starts:
  assumes "rl_init E0 rl_boot = Some s0" and "\<forall>(E, e) \<in> set evs. env_ok E" and "rl_run evs s0 = Some s" and "env_ok E"
    and "jl_following_sta s = Some a" and "jl_following_ap s = None" and "rl_not_paused s" and "rl_not_hold s"
    and "jl_previous_sta s = None \<or> sta_gives_way s"
  shows "active (rl_timer s) \<and> (\<exists>e s'. entities s a = Some e \<and> rl_event (E, Ev_launch_timer) s = Some s'
    \<and> jl_previous_sta s' = Some a \<and> wlan_log s' = wlan_log s @ sta_call (rlaunch e))"
proof -
  have i: "rl_inv s" using rl_run_inv [OF assms(2) rl_init_inv [OF assms(1)]] assms(3) by auto
  then have m: "mem_ok (jl_previous_sta s) (jl_following_sta s) (jl_previous_ap s) (jl_following_ap s) (entities s)"
    by (simp add: rl_inv_def rl_good_def sta.slots_ok_def)
  from mem_okD [OF m, of a] assms(5) obtain e where e: "entities s a = Some e" by blast
  show ?thesis using launch_timer_starts [OF assms(4) i assms(5) e assms(6-9)] i e assms(5) by (auto simp: rl_inv_def waits_def)
qed

theorem rl_waiting_station_starts_witness:
  "\<exists>s s'. rl_run two_requests rl_ready = Some s \<and> rl_event (rl_sim, Ev_launch_timer) s = Some s' \<and> jl_previous_sta s' = Some 1"
proof -
  obtain s where s: "rl_run two_requests rl_ready = Some s" "jl_following_sta s = Some 1" "jl_following_ap s = None"
      "rl_not_paused s" "rl_not_hold s" "pre_sta_status s = RL_STATUS_STA_INITING" "g_mrole_csa_flag s = 0"
    using two_requests_run by fastforce
  have "sta_gives_way s" using s by (simp add: sta_gives_way_def RL_STATUS_MROLE_CHANNEL_SWITCHING_def)
  from rl_waiting_station_starts [OF rl_sim_init two_requests_ok s(1) rl_sim_ok s(2-5)] this s(1) show ?thesis by blast
qed

section \<open>Requests that are lost\<close>

text \<open>
  While the launch is paused, no timer starts anything.
\<close>

lemma rl_paused_starts_nothing:
  assumes "env_ok E" "rl_inv s" "paused (rl_status s)" "e \<in> {Ev_enter_timer, Ev_launch_timer}" "rl_event (E, e) s = Some s'"
  shows "wlan_log s' = wlan_log s"
proof (cases "e = Ev_enter_timer")
  case True
  then show ?thesis using assms(3,5) by (auto simp: timer_callback2_def Let_def rl_enter_handler_eq split: if_split_asm)
next
  case False
  then have e: "e = Ev_launch_timer" using assms(4) by simp
  define u where "u = s\<lparr>rl_timer := (rl_timer s)\<lparr>active := False\<rparr>\<rparr>"
  have gu: "rl_good 0 u" using assms(2) by (simp add: u_def rl_inv_def rl_good_def waits_def serves_def sta.slots_ok_def)
  have pu: "paused (rl_status u)" using assms(3) by (simp add: u_def)
  have "wlan_log s1 = wlan_log u" if p: "poll_both E u = Some (sta_ret, ap_ret, s1)" for sta_ret ap_ret s1
    using p
  proof (cases rule: poll_both_cases)
    case (ap_sta s2)
    have "rest_kept u s2" using ap.launch_slots [OF ap_sta(2)] by simp
    then show ?thesis using ap.launch_paused [OF ap_sta(2) pu] sta.launch_paused [OF ap_sta(4)] pu by (simp add: rest_kept_def)
  next
    case (sta_ap s2)
    have "rest_kept u s2" using sta.launch_slots [OF sta_ap(2)] by simp
    then show ?thesis using sta.launch_paused [OF sta_ap(2) pu] ap.launch_paused [OF sta_ap(4)] pu by (simp add: rest_kept_def)
  qed (use sta.launch_paused ap.launch_paused pu in auto)
  moreover have "s' = s \<or> rl_launch_handler E u = Some s'"
    using assms(2,5) e by (auto simp: timer_callback2_def u_def rl_inv_def rl_good_def Let_def split: if_split_asm)
  moreover have "wlan_log v' = wlan_log v" if "rl_relaunch_chance E v = Some v'" for v v' :: "'a rl_world"
    using that by (auto simp: rl_relaunch_chance_def split: if_split_asm bind_split_asm)
  ultimately show ?thesis by (auto simp: rl_launch_handler_eq u_def split: bind_split_asm if_split_asm)
qed

text \<open>
  When \<open>rl_enter_handler\<close> has no memory, the requests stay in the socket, but the timer that would look
  at them does not run any more: they wait for the next request.
\<close>

lemma enter_without_memory:
  assumes "rl_inv s" "active (enter_timer s)" "\<not> os_malloc E"
  shows "rl_event (E, Ev_enter_timer) s = Some (s\<lparr>enter_timer := (enter_timer s)\<lparr>active := False\<rparr>\<rparr>)"
  using assms by (simp add: timer_callback2_def rl_enter_handler_eq rl_inv_def rl_good_def Let_def)

text \<open>
  A request to start the station that is made while a request to delete its interface waits: the
  request takes the hold off at once, the deletion sets it again, and the request is refused when
  the enter timer looks at it. Its call is never made, although nothing else asks for the station.
\<close>

definition delete_and_start :: "(nat rl_env \<times> nat rl_ev) list" where
  "delete_and_start = map (Pair rl_sim)
     [Ev_sta_request (rl_sta_req 1) 0, Ev_enter_timer, Ev_sta_request \<lparr>descr = 0, req_type = LAUNCH_REQ_DELIF_STA\<rparr> 0, Ev_enter_timer,
      Ev_sta_request (rl_sta_req 2) 0, Ev_launch_timer, Ev_enter_timer, Ev_launch_timer, Ev_launch_timer]"

lemma start_lost_after_delete:
  "map_option (\<lambda>s. (wlan_log s, jl_previous_sta s, jl_following_sta s, active (rl_timer s), active (enter_timer s), sta_req_flag (g_rl_socket s)))
     (rl_run delete_and_start rl_ready)
   = Some ([Bk_wlan_start_sta 1, Bk_wlan_stop_station], None, None, False, False, 0)"
  by code_simp

end
