(* ===== verification/Gdma.thy ===== *)
theory Gdma
  imports Prelude
begin

text \<open>
  The driver of the general DMA controller, \<open>driver/general_dma/general_dma.c\<close> with the registers of
  \<open>general_dma.h\<close>, for the chips that build it (every chip but the BK7252N; no configuration sets
  \<open>CFG_SOC_NAME\<close> to \<open>SOC_BK7231\<close>, whose code is left out).

  Conventions.
  \<^item> The registers are a function from addresses to values. A write stores the value; only the status
    register clears the bits that are written as 1, as all functions that write it rely on.
  \<^item> What the controller itself changes (its positions, the enable bit, the status) is changed between the
    calls of the driver; in the loop of \<open>gdma_enable\<close> it is an argument.
  \<^item> A pointer to an interrupt handler is a value of a type variable. The calls to other drivers are recorded.
\<close>

section \<open>Registers\<close>

definition GENER_DMA_BASE :: u32 where "GENER_DMA_BASE = 0x00809000"

definition GENER_DMA0_REG0_CONF :: u32 where "GENER_DMA0_REG0_CONF = GENER_DMA_BASE + 0x00 * 4"
definition GENER_DMA0_REG1_DST_START_ADDR :: u32 where "GENER_DMA0_REG1_DST_START_ADDR = GENER_DMA_BASE + 0x01 * 4"
definition GENER_DMA0_REG2_SRC_START_ADDR :: u32 where "GENER_DMA0_REG2_SRC_START_ADDR = GENER_DMA_BASE + 0x02 * 4"
definition GENER_DMA0_REG3_DSTLOOP_END_ADDR :: u32 where "GENER_DMA0_REG3_DSTLOOP_END_ADDR = GENER_DMA_BASE + 0x03 * 4"
definition GENER_DMA0_REG4_DSTLOOP_START_ADDR :: u32 where "GENER_DMA0_REG4_DSTLOOP_START_ADDR = GENER_DMA_BASE + 0x04 * 4"
definition GENER_DMA0_REG5_SRCLOOP_END_ADDR :: u32 where "GENER_DMA0_REG5_SRCLOOP_END_ADDR = GENER_DMA_BASE + 0x05 * 4"
definition GENER_DMA0_REG6_SRCLOOP_START_ADDR :: u32 where "GENER_DMA0_REG6_SRCLOOP_START_ADDR = GENER_DMA_BASE + 0x06 * 4"
definition GENER_DMA0_REG7_MUX_REQS :: u32 where "GENER_DMA0_REG7_MUX_REQS = GENER_DMA_BASE + 0x07 * 4"
definition GENER_DMA1_REG8_CONF :: u32 where "GENER_DMA1_REG8_CONF = GENER_DMA_BASE + 0x08 * 4"
definition GENER_DMA2_REG10_CONF :: u32 where "GENER_DMA2_REG10_CONF = GENER_DMA_BASE + 0x10 * 4"
definition GENER_DMA3_REG18_CONF :: u32 where "GENER_DMA3_REG18_CONF = GENER_DMA_BASE + 0x18 * 4"
definition GENER_DMA4_REG20_CONF :: u32 where "GENER_DMA4_REG20_CONF = GENER_DMA_BASE + 0x20 * 4"
definition GENER_DMA5_REG28_CONF :: u32 where "GENER_DMA5_REG28_CONF = GENER_DMA_BASE + 0x28 * 4"
definition GENER_DMA0_REG30_INT_CNTS :: u32 where "GENER_DMA0_REG30_INT_CNTS = GENER_DMA_BASE + 0x30 * 4"
definition GENER_DMA_REG37_PRIO_MODE :: u32 where "GENER_DMA_REG37_PRIO_MODE = GENER_DMA_BASE + 0x37 * 4"
definition GENER_DMA_REG38_DMA_INT_STATUS :: u32 where "GENER_DMA_REG38_DMA_INT_STATUS = GENER_DMA_BASE + 0x38 * 4"
definition GENER_DMA0_REG40_SRC_PAUSE_ADDR :: u32 where "GENER_DMA0_REG40_SRC_PAUSE_ADDR = GENER_DMA_BASE + 0x40 * 4"
definition GENER_DMA0_REG48_DST_PAUSE_ADDR :: u32 where "GENER_DMA0_REG48_DST_PAUSE_ADDR = GENER_DMA_BASE + 0x48 * 4"
definition GENER_DMA0_REG50_SRC_RD_ADDR :: u32 where "GENER_DMA0_REG50_SRC_RD_ADDR = GENER_DMA_BASE + 0x50 * 4"
definition GENER_DMA0_REG58_DST_WR_ADDR :: u32 where "GENER_DMA0_REG58_DST_WR_ADDR = GENER_DMA_BASE + 0x58 * 4"

definition GDMA_X_DMA_EN :: u32 where "GDMA_X_DMA_EN = push_bit 0 1"
definition GDMA_X_FIN_INTEN :: u32 where "GDMA_X_FIN_INTEN = push_bit 1 1"
definition GDMA_X_HFIN_INTEN :: u32 where "GDMA_X_HFIN_INTEN = push_bit 2 1"
definition GDMA_X_REPEAT_MODE :: u32 where "GDMA_X_REPEAT_MODE = push_bit 3 1"
definition GDMA_X_SRCDATA_WIDTH_MASK :: u32 where "GDMA_X_SRCDATA_WIDTH_MASK = 0x3"
definition GDMA_X_DSTDATA_WIDTH_MASK :: u32 where "GDMA_X_DSTDATA_WIDTH_MASK = 0x3"
definition GDMA_DATA_WIDTH_8BIT :: u32 where "GDMA_DATA_WIDTH_8BIT = 0x0"
definition GDMA_DATA_WIDTH_16BIT :: u32 where "GDMA_DATA_WIDTH_16BIT = 0x1"
definition GDMA_DATA_WIDTH_32BIT :: u32 where "GDMA_DATA_WIDTH_32BIT = 0x2"
definition GDMA_X_SRCADDR_INC :: u32 where "GDMA_X_SRCADDR_INC = push_bit 8 1"
definition GDMA_X_DSTADDR_INC :: u32 where "GDMA_X_DSTADDR_INC = push_bit 9 1"
definition GDMA_X_SRCADDR_LOOP :: u32 where "GDMA_X_SRCADDR_LOOP = push_bit 10 1"
definition GDMA_X_DSTADDR_LOOP :: u32 where "GDMA_X_DSTADDR_LOOP = push_bit 11 1"
definition GDMA_X_CHNL_PRIO_MASK :: u32 where "GDMA_X_CHNL_PRIO_MASK = 0x3"
definition GDMA_X_TRANS_LEN_MASK :: u32 where "GDMA_X_TRANS_LEN_MASK = 0xffff"
definition GDMA_X_SRC_REQ_MASK :: u32 where "GDMA_X_SRC_REQ_MASK = 0xf"
definition GDMA_X_DST_REQ_MASK :: u32 where "GDMA_X_DST_REQ_MASK = 0xf"
definition GDMA_X_DTCM_WR_WAIT_WORD :: u32 where "GDMA_X_DTCM_WR_WAIT_WORD = push_bit 8 1"
definition GDMA_X_REMAIN_LEN_MASK :: u32 where "GDMA_X_REMAIN_LEN_MASK = 0x1ffff"
definition GDMA_X_FIN_CNT_MASK :: u32 where "GDMA_X_FIN_CNT_MASK = 0xf"
definition GDMA_X_HFIN_CNT_MASK :: u32 where "GDMA_X_HFIN_CNT_MASK = 0xf"
definition GDMA_PRIO_FIXED :: u32 where "GDMA_PRIO_FIXED = push_bit 0 1"
definition GENER_DMA_FIN_INT_STATUS_MASK :: u32 where "GENER_DMA_FIN_INT_STATUS_MASK = 0x3f"
definition GENER_DMA_HFIN_INT_STATUS_MASK :: u32 where "GENER_DMA_HFIN_INT_STATUS_MASK = 0x3f"
definition GDMA_X_SRC_DST_RESERVE :: u32 where "GDMA_X_SRC_DST_RESERVE = 0xB"

definition GDMA_X_SRCDATA_WIDTH_POSI :: nat where "GDMA_X_SRCDATA_WIDTH_POSI = 4"
definition GDMA_X_DSTDATA_WIDTH_POSI :: nat where "GDMA_X_DSTDATA_WIDTH_POSI = 6"
definition GDMA_X_CHNL_PRIO_POSI :: nat where "GDMA_X_CHNL_PRIO_POSI = 12"
definition GDMA_X_TRANS_LEN_POSI :: nat where "GDMA_X_TRANS_LEN_POSI = 16"
definition GDMA_X_SRC_REQ_POSI :: nat where "GDMA_X_SRC_REQ_POSI = 0"
definition GDMA_X_DST_REQ_POSI :: nat where "GDMA_X_DST_REQ_POSI = 4"
definition GDMA_X_REMAIN_LEN_POSI :: nat where "GDMA_X_REMAIN_LEN_POSI = 0"
definition GDMA_X_FIN_CNT_POSI :: nat where "GDMA_X_FIN_CNT_POSI = 24"
definition GDMA_X_HFIN_CNT_POSI :: nat where "GDMA_X_HFIN_CNT_POSI = 28"
definition GENER_DMA_FIN_INT_STATUS_POSI :: nat where "GENER_DMA_FIN_INT_STATUS_POSI = 0"
definition GENER_DMA_HFIN_INT_STATUS_POSI :: nat where "GENER_DMA_HFIN_INT_STATUS_POSI = 8"

definition GDMA_CHANNEL_MAX :: u32 where "GDMA_CHANNEL_MAX = 6"

text \<open>
  The calls to the interrupt controller, the device table and the clock driver.
\<close>

datatype gdma_call = Intc_service_register | Sddev_register | Clk_pwr_up | Icu_int_enable | Icu_int_disable
  | Sddev_unregister

record 'f gdma =
  regs :: "u32 \<Rightarrow> u32"
  p_dma_fin_handler :: "nat \<Rightarrow> 'f option"
  p_dma_hfin_handler :: "nat \<Rightarrow> 'f option"
  gdma_log :: "gdma_call list"

definition reg_read :: "u32 \<Rightarrow> 'f gdma \<Rightarrow> u32" where "reg_read r g = regs g r"

definition reg_write :: "u32 \<Rightarrow> u32 \<Rightarrow> 'f gdma \<Rightarrow> 'f gdma" where
  "reg_write r v g =
     g\<lparr>regs := (regs g)(r := if r = GENER_DMA_REG38_DMA_INT_STATUS then regs g r AND NOT v else v)\<rparr>"

text \<open>
  The three forms of register access that the functions below have: a flag that is set or cleared, a
  field that is replaced, a field that is read.
\<close>

definition set_flag :: "u32 \<Rightarrow> u32 \<Rightarrow> u32 \<Rightarrow> 'f gdma \<Rightarrow> 'f gdma" where
  "set_flag r flag enable g =
     (let reg_val = reg_read r g;
          reg_val = (if enable \<noteq> 0 then reg_val OR flag else reg_val AND NOT flag) in
      reg_write r reg_val g)"

definition set_field :: "u32 \<Rightarrow> u32 \<Rightarrow> nat \<Rightarrow> u32 \<Rightarrow> 'f gdma \<Rightarrow> 'f gdma" where
  "set_field r msk posi v g =
     (let reg_val = reg_read r g;
          reg_val = reg_val AND NOT (push_bit posi msk);
          reg_val = reg_val OR push_bit posi v in
      reg_write r reg_val g)"

definition get_field :: "u32 \<Rightarrow> u32 \<Rightarrow> nat \<Rightarrow> 'f gdma \<Rightarrow> u32" where
  "get_field r msk posi g = drop_bit posi (reg_read r g) AND msk"

text \<open>The registers of a channel: eight for the configuration, one of each of the others.\<close>

definition chn_reg :: "u32 \<Rightarrow> u32 \<Rightarrow> u32" where "chn_reg r channel = r + channel * 8 * 4"
definition chn_reg1 :: "u32 \<Rightarrow> u32 \<Rightarrow> u32" where "chn_reg1 r channel = r + channel * 4"

section \<open>The functions on one register\<close>

definition gdma_set_dma_en :: "u32 \<Rightarrow> u32 \<Rightarrow> 'f gdma \<Rightarrow> 'f gdma" where
  "gdma_set_dma_en channel = set_flag (chn_reg GENER_DMA0_REG0_CONF channel) GDMA_X_DMA_EN"

definition gdma_cfg_finish_inten :: "u32 \<Rightarrow> u32 \<Rightarrow> 'f gdma \<Rightarrow> 'f gdma" where
  "gdma_cfg_finish_inten channel = set_flag (chn_reg GENER_DMA0_REG0_CONF channel) GDMA_X_FIN_INTEN"

definition gdma_cfg_half_fin_inten :: "u32 \<Rightarrow> u32 \<Rightarrow> 'f gdma \<Rightarrow> 'f gdma" where
  "gdma_cfg_half_fin_inten channel = set_flag (chn_reg GENER_DMA0_REG0_CONF channel) GDMA_X_HFIN_INTEN"

definition gdma_cfg_work_mode :: "u32 \<Rightarrow> u32 \<Rightarrow> 'f gdma \<Rightarrow> 'f gdma" where
  "gdma_cfg_work_mode channel = set_flag (chn_reg GENER_DMA0_REG0_CONF channel) GDMA_X_REPEAT_MODE"

definition gdma_cfg_srcaddr_increase :: "u32 \<Rightarrow> u32 \<Rightarrow> 'f gdma \<Rightarrow> 'f gdma" where
  "gdma_cfg_srcaddr_increase channel = set_flag (chn_reg GENER_DMA0_REG0_CONF channel) GDMA_X_SRCADDR_INC"

definition gdma_cfg_dstaddr_increase :: "u32 \<Rightarrow> u32 \<Rightarrow> 'f gdma \<Rightarrow> 'f gdma" where
  "gdma_cfg_dstaddr_increase channel = set_flag (chn_reg GENER_DMA0_REG0_CONF channel) GDMA_X_DSTADDR_INC"

definition gdma_cfg_srcaddr_loop :: "u32 \<Rightarrow> u32 \<Rightarrow> 'f gdma \<Rightarrow> 'f gdma" where
  "gdma_cfg_srcaddr_loop channel = set_flag (chn_reg GENER_DMA0_REG0_CONF channel) GDMA_X_SRCADDR_LOOP"

definition gdma_cfg_dstaddr_loop :: "u32 \<Rightarrow> u32 \<Rightarrow> 'f gdma \<Rightarrow> 'f gdma" where
  "gdma_cfg_dstaddr_loop channel = set_flag (chn_reg GENER_DMA0_REG0_CONF channel) GDMA_X_DSTADDR_LOOP"

definition gdma_set_dctm_write_wd :: "u32 \<Rightarrow> u32 \<Rightarrow> 'f gdma \<Rightarrow> 'f gdma" where
  "gdma_set_dctm_write_wd channel = set_flag (chn_reg GENER_DMA0_REG7_MUX_REQS channel) GDMA_X_DTCM_WR_WAIT_WORD"

definition gdma_get_dma_en :: "u32 \<Rightarrow> 'f gdma \<Rightarrow> u32" where
  "gdma_get_dma_en channel g = reg_read (chn_reg GENER_DMA0_REG0_CONF channel) g AND GDMA_X_DMA_EN"

text \<open>The code of a data width, by the \<open>switch\<close> of both functions below.\<close>

definition width_code :: "u32 \<Rightarrow> u32" where
  "width_code bitwidth =
     (if bitwidth = 8 then GDMA_DATA_WIDTH_8BIT
      else if bitwidth = 16 then GDMA_DATA_WIDTH_16BIT
      else if bitwidth = 32 then GDMA_DATA_WIDTH_32BIT
      else GDMA_DATA_WIDTH_32BIT)"

definition gdma_cfg_srcdata_width :: "u32 \<Rightarrow> u32 \<Rightarrow> 'f gdma \<Rightarrow> 'f gdma" where
  "gdma_cfg_srcdata_width channel bitwidth =
     set_field (chn_reg GENER_DMA0_REG0_CONF channel) GDMA_X_SRCDATA_WIDTH_MASK GDMA_X_SRCDATA_WIDTH_POSI (width_code bitwidth)"

definition gdma_cfg_dstdata_width :: "u32 \<Rightarrow> u32 \<Rightarrow> 'f gdma \<Rightarrow> 'f gdma" where
  "gdma_cfg_dstdata_width channel bitwidth =
     set_field (chn_reg GENER_DMA0_REG0_CONF channel) GDMA_X_DSTDATA_WIDTH_MASK GDMA_X_DSTDATA_WIDTH_POSI (width_code bitwidth)"

definition gdma_set_channel_prioprity :: "u32 \<Rightarrow> u32 \<Rightarrow> 'f gdma \<Rightarrow> 'f gdma" where
  "gdma_set_channel_prioprity channel prio =
     set_field (chn_reg GENER_DMA0_REG0_CONF channel) GDMA_X_CHNL_PRIO_MASK GDMA_X_CHNL_PRIO_POSI (prio AND GDMA_X_CHNL_PRIO_MASK)"

definition gdma_set_transfer_length :: "u32 \<Rightarrow> u32 \<Rightarrow> 'f gdma \<Rightarrow> 'f gdma" where
  "gdma_set_transfer_length channel len =
     set_field (chn_reg GENER_DMA0_REG0_CONF channel) GDMA_X_TRANS_LEN_MASK GDMA_X_TRANS_LEN_POSI ((len - 1) AND GDMA_X_TRANS_LEN_MASK)"

definition gdma_set_src_reqmux :: "u32 \<Rightarrow> u32 \<Rightarrow> 'f gdma \<Rightarrow> 'f gdma" where
  "gdma_set_src_reqmux channel reqmux =
     set_field (chn_reg GENER_DMA0_REG7_MUX_REQS channel) GDMA_X_SRC_REQ_MASK GDMA_X_SRC_REQ_POSI (reqmux AND GDMA_X_SRC_REQ_MASK)"

definition gdma_set_dst_reqmux :: "u32 \<Rightarrow> u32 \<Rightarrow> 'f gdma \<Rightarrow> 'f gdma" where
  "gdma_set_dst_reqmux channel reqmux =
     set_field (chn_reg GENER_DMA0_REG7_MUX_REQS channel) GDMA_X_DST_REQ_MASK GDMA_X_DST_REQ_POSI (reqmux AND GDMA_X_DST_REQ_MASK)"

definition gdma_get_transfer_length :: "u32 \<Rightarrow> 'f gdma \<Rightarrow> u32" where
  "gdma_get_transfer_length channel g =
     get_field (chn_reg GENER_DMA0_REG0_CONF channel) GDMA_X_TRANS_LEN_MASK GDMA_X_TRANS_LEN_POSI g + 1"

definition gdma_set_dst_start_addr :: "u32 \<Rightarrow> u32 \<Rightarrow> 'f gdma \<Rightarrow> 'f gdma" where
  "gdma_set_dst_start_addr channel = reg_write (chn_reg GENER_DMA0_REG1_DST_START_ADDR channel)"

definition gdma_set_src_start_addr :: "u32 \<Rightarrow> u32 \<Rightarrow> 'f gdma \<Rightarrow> 'f gdma" where
  "gdma_set_src_start_addr channel = reg_write (chn_reg GENER_DMA0_REG2_SRC_START_ADDR channel)"

definition gdma_set_dstloop_endaddr :: "u32 \<Rightarrow> u32 \<Rightarrow> 'f gdma \<Rightarrow> 'f gdma" where
  "gdma_set_dstloop_endaddr channel = reg_write (chn_reg GENER_DMA0_REG3_DSTLOOP_END_ADDR channel)"

definition gdma_set_dstloop_startaddr :: "u32 \<Rightarrow> u32 \<Rightarrow> 'f gdma \<Rightarrow> 'f gdma" where
  "gdma_set_dstloop_startaddr channel = reg_write (chn_reg GENER_DMA0_REG4_DSTLOOP_START_ADDR channel)"

definition gdma_set_srcloop_endaddr :: "u32 \<Rightarrow> u32 \<Rightarrow> 'f gdma \<Rightarrow> 'f gdma" where
  "gdma_set_srcloop_endaddr channel = reg_write (chn_reg GENER_DMA0_REG5_SRCLOOP_END_ADDR channel)"

definition gdma_set_srcloop_startaddr :: "u32 \<Rightarrow> u32 \<Rightarrow> 'f gdma \<Rightarrow> 'f gdma" where
  "gdma_set_srcloop_startaddr channel = reg_write (chn_reg GENER_DMA0_REG6_SRCLOOP_START_ADDR channel)"

definition gdma_get_remain_len :: "u32 \<Rightarrow> 'f gdma \<Rightarrow> u32" where
  "gdma_get_remain_len channel = get_field (chn_reg1 GENER_DMA0_REG30_INT_CNTS channel) GDMA_X_REMAIN_LEN_MASK GDMA_X_REMAIN_LEN_POSI"

definition gdma_get_finish_cnt :: "u32 \<Rightarrow> 'f gdma \<Rightarrow> u32" where
  "gdma_get_finish_cnt channel = get_field (chn_reg1 GENER_DMA0_REG30_INT_CNTS channel) GDMA_X_FIN_CNT_MASK GDMA_X_FIN_CNT_POSI"

definition gdma_get_half_finish_cnt :: "u32 \<Rightarrow> 'f gdma \<Rightarrow> u32" where
  "gdma_get_half_finish_cnt channel = get_field (chn_reg1 GENER_DMA0_REG30_INT_CNTS channel) GDMA_X_HFIN_CNT_MASK GDMA_X_HFIN_CNT_POSI"

definition gdma_set_priority :: "u32 \<Rightarrow> 'f gdma \<Rightarrow> 'f gdma" where
  "gdma_set_priority = set_flag GENER_DMA_REG37_PRIO_MODE GDMA_PRIO_FIXED"

definition gdma_get_finish_interrupt_bit :: "u32 \<Rightarrow> 'f gdma \<Rightarrow> u32" where
  "gdma_get_finish_interrupt_bit channel g =
     (let reg_val = reg_read GENER_DMA_REG38_DMA_INT_STATUS g;
          reg_val = reg_val AND GENER_DMA_FIN_INT_STATUS_MASK;
          reg_val = reg_val AND push_bit (unat channel) 1 in
      drop_bit (unat channel) reg_val)"

definition gdma_clr_finish_interrupt_bit :: "u32 \<Rightarrow> 'f gdma \<Rightarrow> 'f gdma" where
  "gdma_clr_finish_interrupt_bit channel =
     reg_write GENER_DMA_REG38_DMA_INT_STATUS (push_bit (unat channel) 1)"

definition gdma_get_half_finish_interrupt_bit :: "u32 \<Rightarrow> 'f gdma \<Rightarrow> u32" where
  "gdma_get_half_finish_interrupt_bit channel g =
     (let reg_val = reg_read GENER_DMA_REG38_DMA_INT_STATUS g;
          reg_val = reg_val AND push_bit GENER_DMA_HFIN_INT_STATUS_POSI GENER_DMA_HFIN_INT_STATUS_MASK;
          reg_val = reg_val AND push_bit (unat channel + GENER_DMA_HFIN_INT_STATUS_POSI) 1 in
      drop_bit (unat channel + GENER_DMA_HFIN_INT_STATUS_POSI) reg_val)"

definition gdma_clr_half_finish_interrupt_bit :: "u32 \<Rightarrow> 'f gdma \<Rightarrow> 'f gdma" where
  "gdma_clr_half_finish_interrupt_bit channel =
     reg_write GENER_DMA_REG38_DMA_INT_STATUS (push_bit (unat channel + GENER_DMA_HFIN_INT_STATUS_POSI) 1)"

definition gdma_do_call :: "gdma_call \<Rightarrow> 'f gdma \<Rightarrow> 'f gdma" where "gdma_do_call c g = g\<lparr>gdma_log := gdma_log g @ [c]\<rparr>"

definition gdma_enable_interrupt :: "'f gdma \<Rightarrow> 'f gdma" where "gdma_enable_interrupt = gdma_do_call Icu_int_enable"
definition gdma_disable_interrupt :: "'f gdma \<Rightarrow> 'f gdma" where "gdma_disable_interrupt = gdma_do_call Icu_int_disable"

text \<open>The functions of the BK7221U, whose controller can pause at an address.\<close>

definition gdma_set_src_pause_addr :: "u32 \<Rightarrow> u32 \<Rightarrow> 'f gdma \<Rightarrow> 'f gdma" where
  "gdma_set_src_pause_addr channel = reg_write (chn_reg1 GENER_DMA0_REG40_SRC_PAUSE_ADDR channel)"

definition gdma_set_dest_pause_addr :: "u32 \<Rightarrow> u32 \<Rightarrow> 'f gdma \<Rightarrow> 'f gdma" where
  "gdma_set_dest_pause_addr channel = reg_write (chn_reg1 GENER_DMA0_REG48_DST_PAUSE_ADDR channel)"

definition gdma_get_src_pause_addr :: "u32 \<Rightarrow> 'f gdma \<Rightarrow> u32" where
  "gdma_get_src_pause_addr channel = reg_read (chn_reg1 GENER_DMA0_REG40_SRC_PAUSE_ADDR channel)"

definition gdma_get_dest_pause_addr :: "u32 \<Rightarrow> 'f gdma \<Rightarrow> u32" where
  "gdma_get_dest_pause_addr channel = reg_read (chn_reg1 GENER_DMA0_REG48_DST_PAUSE_ADDR channel)"

definition gdma_get_src_read_addr :: "u32 \<Rightarrow> 'f gdma \<Rightarrow> u32" where
  "gdma_get_src_read_addr channel = reg_read (chn_reg1 GENER_DMA0_REG50_SRC_RD_ADDR channel)"

definition gdma_get_dest_write_addr :: "u32 \<Rightarrow> 'f gdma \<Rightarrow> u32" where
  "gdma_get_dest_write_addr channel = reg_read (chn_reg1 GENER_DMA0_REG58_DST_WR_ADDR channel)"

definition gdma_get_received_len :: "u32 \<Rightarrow> 'f gdma \<Rightarrow> int" where
  "gdma_get_received_len channel g =
     (if channel \<ge> GDMA_CHANNEL_MAX then 0 else sint (gdma_get_remain_len channel g))"

section \<open>Configurations\<close>

text \<open>
  The members of the union are structures of pointers that lie over each other: two pointers for the
  types 1 and 4 (source) and for the types 2 and 5 (destination), all four for the types 3 and 6.
\<close>

record 'f GDMACFG_TPYES_ST =
  channel :: u32
  prio :: u32
  dstptr_incr :: u8
  srcptr_incr :: u8
  dstdat_width :: u8
  srcdat_width :: u8
  src_start_addr :: u32
  dst_start_addr :: u32
  src_module :: u8
  dst_module :: u8
  fin_handler :: "'f option"
  half_fin_handler :: "'f option"
  u0 :: u32
  u1 :: u32
  u2 :: u32
  u3 :: u32

text \<open>The lines that the first four types share, after the loop flags are set.\<close>

definition gdma_config_common :: "'f GDMACFG_TPYES_ST \<Rightarrow> 'f gdma \<Rightarrow> 'f gdma" where
  "gdma_config_common cfg g =
     (let g = gdma_cfg_srcaddr_increase (channel cfg) (ucast (srcptr_incr cfg)) g;
          g = gdma_cfg_dstaddr_increase (channel cfg) (ucast (dstptr_incr cfg)) g;
          g = gdma_cfg_srcdata_width (channel cfg) (ucast (srcdat_width cfg)) g;
          g = gdma_cfg_dstdata_width (channel cfg) (ucast (dstdat_width cfg)) g;
          g = gdma_set_channel_prioprity (channel cfg) (prio cfg) g;
          g = gdma_set_dst_start_addr (channel cfg) (dst_start_addr cfg) g in
      gdma_set_src_start_addr (channel cfg) (src_start_addr cfg) g)"

definition gdma_congfig_type0 :: "'f GDMACFG_TPYES_ST \<Rightarrow> 'f gdma \<Rightarrow> 'f gdma" where
  "gdma_congfig_type0 cfg g =
     (if channel cfg \<ge> GDMA_CHANNEL_MAX then g
      else
        (let g = reg_write (chn_reg GENER_DMA0_REG0_CONF (channel cfg)) 0 g in gdma_config_common cfg g))"

definition gdma_congfig_type1 :: "'f GDMACFG_TPYES_ST \<Rightarrow> 'f gdma \<Rightarrow> 'f gdma" where
  "gdma_congfig_type1 cfg g =
     (if channel cfg \<ge> GDMA_CHANNEL_MAX then g
      else
        (let g = reg_write (chn_reg GENER_DMA0_REG0_CONF (channel cfg)) 0 g;
             g = gdma_cfg_srcaddr_loop (channel cfg) 1 g;
             g = gdma_config_common cfg g;
             g = gdma_set_srcloop_startaddr (channel cfg) (u0 cfg) g in
         gdma_set_srcloop_endaddr (channel cfg) (u1 cfg) g))"

definition gdma_congfig_type2 :: "'f GDMACFG_TPYES_ST \<Rightarrow> 'f gdma \<Rightarrow> 'f gdma" where
  "gdma_congfig_type2 cfg g =
     (if channel cfg \<ge> GDMA_CHANNEL_MAX then g
      else
        (let g = reg_write (chn_reg GENER_DMA0_REG0_CONF (channel cfg)) 0 g;
             g = gdma_cfg_dstaddr_loop (channel cfg) 1 g;
             g = gdma_config_common cfg g;
             g = gdma_set_dstloop_startaddr (channel cfg) (u0 cfg) g in
         gdma_set_dstloop_endaddr (channel cfg) (u1 cfg) g))"

definition gdma_congfig_type3 :: "'f GDMACFG_TPYES_ST \<Rightarrow> 'f gdma \<Rightarrow> 'f gdma" where
  "gdma_congfig_type3 cfg g =
     (if channel cfg \<ge> GDMA_CHANNEL_MAX then g
      else
        (let g = reg_write (chn_reg GENER_DMA0_REG0_CONF (channel cfg)) 0 g;
             g = gdma_cfg_srcaddr_loop (channel cfg) 1 g;
             g = gdma_cfg_dstaddr_loop (channel cfg) 1 g;
             g = gdma_config_common cfg g;
             g = gdma_set_srcloop_startaddr (channel cfg) (u0 cfg) g;
             g = gdma_set_srcloop_endaddr (channel cfg) (u1 cfg) g;
             g = gdma_set_dstloop_startaddr (channel cfg) (u2 cfg) g in
         gdma_set_dstloop_endaddr (channel cfg) (u3 cfg) g))"

text \<open>The handlers that the last two types install.\<close>

definition gdma_config_handlers :: "'f GDMACFG_TPYES_ST \<Rightarrow> 'f gdma \<Rightarrow> 'f gdma" where
  "gdma_config_handlers cfg g =
     (let g = (if fin_handler cfg = None then g
               else let g = gdma_cfg_finish_inten (channel cfg) 1 g in
                 g\<lparr>p_dma_fin_handler := (p_dma_fin_handler g)(unat (channel cfg) := fin_handler cfg)\<rparr>) in
      if half_fin_handler cfg = None then g
      else let g = gdma_cfg_half_fin_inten (channel cfg) 1 g in
        g\<lparr>p_dma_hfin_handler := (p_dma_hfin_handler g)(unat (channel cfg) := half_fin_handler cfg)\<rparr>)"

definition gdma_congfig_type4 :: "'f GDMACFG_TPYES_ST \<Rightarrow> 'f gdma \<Rightarrow> 'f gdma" where
  "gdma_congfig_type4 cfg g =
     (if channel cfg \<ge> GDMA_CHANNEL_MAX then g
      else
        (let g = reg_write (chn_reg GENER_DMA0_REG0_CONF (channel cfg)) 0 g;
             g = gdma_set_src_reqmux (channel cfg) (ucast (src_module cfg)) g;
             g = gdma_set_dst_reqmux (channel cfg) (ucast (dst_module cfg)) g;
             g = gdma_cfg_work_mode (channel cfg) 1 g;
             g = gdma_cfg_srcaddr_loop (channel cfg) 1 g;
             g = gdma_cfg_dstaddr_increase (channel cfg) 0 g;
             g = gdma_cfg_srcaddr_increase (channel cfg) (ucast (srcptr_incr cfg)) g;
             g = gdma_cfg_srcdata_width (channel cfg) (ucast (srcdat_width cfg)) g;
             g = gdma_cfg_dstdata_width (channel cfg) (ucast (dstdat_width cfg)) g;
             g = gdma_set_channel_prioprity (channel cfg) (prio cfg) g;
             g = gdma_set_dst_start_addr (channel cfg) (dst_start_addr cfg) g;
             g = gdma_set_src_start_addr (channel cfg) (src_start_addr cfg) g;
             g = gdma_set_srcloop_startaddr (channel cfg) (u0 cfg) g;
             g = gdma_set_srcloop_endaddr (channel cfg) (u1 cfg) g in
         gdma_config_handlers cfg g))"

definition gdma_congfig_type5 :: "'f GDMACFG_TPYES_ST \<Rightarrow> 'f gdma \<Rightarrow> 'f gdma" where
  "gdma_congfig_type5 cfg g =
     (if channel cfg \<ge> GDMA_CHANNEL_MAX then g
      else
        (let g = reg_write (chn_reg GENER_DMA0_REG0_CONF (channel cfg)) 0 g;
             g = gdma_set_src_reqmux (channel cfg) (ucast (src_module cfg)) g;
             g = gdma_set_dst_reqmux (channel cfg) (ucast (dst_module cfg)) g;
             g = gdma_cfg_work_mode (channel cfg) 1 g;
             g = gdma_cfg_dstaddr_loop (channel cfg) 1 g;
             g = gdma_cfg_srcaddr_increase (channel cfg) 0 g;
             g = gdma_cfg_dstaddr_increase (channel cfg) (ucast (dstptr_incr cfg)) g;
             g = gdma_cfg_srcdata_width (channel cfg) (ucast (srcdat_width cfg)) g;
             g = gdma_cfg_dstdata_width (channel cfg) (ucast (dstdat_width cfg)) g;
             g = gdma_set_channel_prioprity (channel cfg) (prio cfg) g;
             g = gdma_set_dst_start_addr (channel cfg) (dst_start_addr cfg) g;
             g = gdma_set_src_start_addr (channel cfg) (src_start_addr cfg) g;
             g = gdma_set_dstloop_startaddr (channel cfg) (u0 cfg) g;
             g = gdma_set_dstloop_endaddr (channel cfg) (u1 cfg) g in
         gdma_config_handlers cfg g))"

definition gdma_congfig_type6 :: "'f GDMACFG_TPYES_ST \<Rightarrow> 'f gdma \<Rightarrow> 'f gdma" where
  "gdma_congfig_type6 cfg g = g"

section \<open>Single transfers\<close>

record GDMA_DO_ST =
  do_channel :: u32
  do_src_addr :: u32
  do_dst_addr :: u32
  do_length :: u32

text \<open>
  The loop of \<open>gdma_enable\<close>: \<open>hw n\<close> is what the controller does after the n-th look at the enable bit.
  A controller that never clears the bit is a loop without end.
\<close>

partial_function (option) gdma_wait :: "(nat \<Rightarrow> 'f gdma \<Rightarrow> 'f gdma) \<Rightarrow> u32 \<Rightarrow> nat \<Rightarrow> 'f gdma \<Rightarrow> 'f gdma option" where
  "gdma_wait hw ch n g =
     (if gdma_get_dma_en ch g = 0 then Some g else gdma_wait hw ch (Suc n) (hw n g))"

definition gdma_enable :: "(nat \<Rightarrow> 'f gdma \<Rightarrow> 'f gdma) \<Rightarrow> GDMA_DO_ST \<Rightarrow> 'f gdma \<Rightarrow> (u32 \<times> 'f gdma) option" where
  "gdma_enable hw do_st g =
     (if do_length do_st = 0 then Some (0, g)
      else do {
        let g = gdma_set_dst_start_addr (do_channel do_st) (do_dst_addr do_st) g;
        let g = gdma_set_src_start_addr (do_channel do_st) (do_src_addr do_st) g;
        let g = gdma_set_transfer_length (do_channel do_st) (do_length do_st) g;
        let g = gdma_set_dma_en (do_channel do_st) 1 g;
        g \<leftarrow> gdma_wait hw (do_channel do_st) 0 g;
        Some (do_length do_st, g) })"

definition gdma_memcpy :: "(nat \<Rightarrow> 'f gdma \<Rightarrow> 'f gdma) \<Rightarrow> u32 \<Rightarrow> u32 \<Rightarrow> u32 \<Rightarrow> 'f gdma \<Rightarrow> (u32 \<times> 'f gdma) option" where
  "gdma_memcpy hw out_addr in_addr n g = do {
     (r, g) \<leftarrow> gdma_enable hw \<lparr>do_channel = 0, do_src_addr = in_addr, do_dst_addr = out_addr, do_length = n\<rparr> g;
     Some (out_addr, g) }"

section \<open>Start and end\<close>

definition gdma_flush :: "'f gdma \<Rightarrow> 'f gdma" where
  "gdma_flush g =
     (let g = gdma_set_dma_en 0 0 g;
          g = gdma_set_dma_en 1 0 g;
          g = gdma_set_dma_en 2 0 g;
          g = gdma_set_dma_en 3 0 g;
          g = gdma_set_dma_en 4 0 g;
          g = gdma_set_dma_en 5 0 g;
          status = reg_read GENER_DMA_REG38_DMA_INT_STATUS g in
      reg_write GENER_DMA_REG38_DMA_INT_STATUS status g)"

definition gdma_cfg_zero :: "'f GDMACFG_TPYES_ST" where
  "gdma_cfg_zero =
     \<lparr>channel = 0, prio = 0, dstptr_incr = 0, srcptr_incr = 0, dstdat_width = 0, srcdat_width = 0,
      src_start_addr = 0, dst_start_addr = 0, src_module = 0, dst_module = 0, fin_handler = None,
      half_fin_handler = None, u0 = 0, u1 = 0, u2 = 0, u3 = 0\<rparr>"

definition gdma_init :: "soc \<Rightarrow> 'f gdma \<Rightarrow> 'f gdma" where
  "gdma_init chip g =
     (let g = gdma_do_call Intc_service_register g;
          g = gdma_do_call Sddev_register g;
          g = (if chip = SOC_BK7238 \<or> chip = SOC_BK7252N then gdma_do_call Clk_pwr_up g else g);
          g = g\<lparr>p_dma_fin_handler := (\<lambda>i. if i < unat GDMA_CHANNEL_MAX then None else p_dma_fin_handler g i),
                p_dma_hfin_handler := (\<lambda>i. if i < unat GDMA_CHANNEL_MAX then None else p_dma_hfin_handler g i)\<rparr>;
          g = gdma_flush g;
          cfg = gdma_cfg_zero\<lparr>dstdat_width := 32, srcdat_width := 32, dstptr_incr := 1, srcptr_incr := 1,
                src_start_addr := 0, dst_start_addr := 0\<rparr>;
          cfg = cfg\<lparr>channel := 0, prio := 1\<rparr>;
          g = gdma_congfig_type0 cfg g;
          cfg = cfg\<lparr>channel := 1, prio := 0, u0 := 0, u1 := 0\<rparr>;
          g = gdma_congfig_type1 cfg g;
          cfg = cfg\<lparr>channel := 2, prio := 2, u0 := 0, u1 := 0\<rparr>;
          g = gdma_congfig_type2 cfg g;
          cfg = cfg\<lparr>channel := 3, prio := 2, u0 := 0, u1 := 0, u2 := 0, u3 := 0\<rparr>;
          g = gdma_congfig_type3 cfg g;
          cfg = cfg\<lparr>channel := 4, prio := 0, u0 := 0, u1 := 0, half_fin_handler := None,
                src_module := ucast GDMA_X_SRC_DST_RESERVE, dst_module := ucast GDMA_X_SRC_DST_RESERVE\<rparr>;
          g = gdma_congfig_type1 cfg g;
          cfg = cfg\<lparr>channel := 5, prio := 0, u0 := 0, u1 := 0, half_fin_handler := None,
                src_module := ucast GDMA_X_SRC_DST_RESERVE, dst_module := ucast GDMA_X_SRC_DST_RESERVE\<rparr>;
          g = gdma_congfig_type2 cfg g;
          g = gdma_set_priority 0 g in
      gdma_enable_interrupt g)"

definition gdma_exit :: "'f gdma \<Rightarrow> 'f gdma" where
  "gdma_exit g =
     (let g = gdma_disable_interrupt g;
          g = reg_write GENER_DMA0_REG0_CONF 0 g;
          g = reg_write GENER_DMA1_REG8_CONF 0 g;
          g = reg_write GENER_DMA2_REG10_CONF 0 g;
          g = reg_write GENER_DMA3_REG18_CONF 0 g;
          g = reg_write GENER_DMA4_REG20_CONF 0 g;
          g = reg_write GENER_DMA5_REG28_CONF 0 g;
          g = reg_write GENER_DMA_REG38_DMA_INT_STATUS (reg_read GENER_DMA_REG38_DMA_INT_STATUS g) g in
      gdma_do_call Sddev_unregister g)"

section \<open>Commands\<close>

datatype gdma_cmd = CMD_GDMA_SET_DMA_ENABLE | CMD_GDMA_CFG_FIN_INT_ENABLE | CMD_GDMA_CFG_HFIN_INT_ENABLE
  | CMD_GDMA_CFG_WORK_MODE | CMD_GDMA_CFG_SRCDATA_WIDTH | CMD_GDMA_CFG_DSTDATA_WIDTH
  | CMD_GDMA_CFG_SRCADDR_INCREASE | CMD_GDMA_CFG_DSTADDR_INCREASE | CMD_GDMA_CFG_SRCADDR_LOOP
  | CMD_GDMA_CFG_DSTADDR_LOOP | CMD_GDMA_SET_CHNL_PRIO | CMD_GDMA_SET_TRANS_LENGTH
  | CMD_GDMA_SET_DST_START_ADDR | CMD_GDMA_SET_SRC_START_ADDR | CMD_GDMA_SET_DST_LOOP_ENDADDR
  | CMD_GDMA_SET_DST_LOOP_STARTADDR | CMD_GDMA_SET_SRC_LOOP_ENDADDR | CMD_GDMA_SET_SRC_LOOP_STARTADDR
  | CMD_GDMA_SET_DST_REQ_MUX | CMD_GDMA_SET_SRC_REQ_MUX | CMD_GDMA_SET_DTCM_WRITE_WORD
  | CMD_GDMA_GET_REMAIN_LENGTH | CMD_GDMA_SET_FIN_CNT | CMD_GDMA_SET_HFIN_CNT | CMD_GDMA_SET_PRIO_MODE
  | CMD_GDMA_GET_FIN_INT_STATUS | CMD_GDMA_CLR_FIN_INT_STATUS | CMD_GDMA_GET_HFIN_INT_STATUS
  | CMD_GDMA_CLR_HFIN_INT_STATUS | CMD_GDMA_CFG_TYPE0 | CMD_GDMA_CFG_TYPE1 | CMD_GDMA_CFG_TYPE2
  | CMD_GDMA_CFG_TYPE3 | CMD_GDMA_CFG_TYPE4 | CMD_GDMA_CFG_TYPE5 | CMD_GDMA_CFG_TYPE6 | CMD_GDMA_ENABLE
  | CMD_GDMA_GET_LEFT_LEN | CMD_GDMA_SET_SRC_PAUSE_ADDR | CMD_GDMA_GET_SRC_PAUSE_ADDR
  | CMD_GDMA_SET_DST_PAUSE_ADDR | CMD_GDMA_GET_DST_PAUSE_ADDR | CMD_GDMA_GET_SRC_READ_ADDR
  | CMD_GDMA_GET_DST_WRITE_ADDR | CMD_GDMA_GET_ENABLE

definition ICU_SUCCESS :: u32 where "ICU_SUCCESS = 0"

record GDMA_CFG_ST =
  cfg_param :: u32
  cfg_channel :: u32

text \<open>
  What a \<open>void *\<close> argument points to; its address is a second argument, as two commands use the pointer
  as a number. A command that gets the wrong structure reads what is not there.
\<close>

datatype 'f gdma_parm = PARM_CFG GDMA_CFG_ST | PARM_TYPES "'f GDMACFG_TPYES_ST" | PARM_DO GDMA_DO_ST | PARM_NONE

fun parm_cfg :: "'f gdma_parm \<Rightarrow> GDMA_CFG_ST option" where
  "parm_cfg (PARM_CFG c) = Some c"
| "parm_cfg _ = None"

fun parm_types :: "'f gdma_parm \<Rightarrow> 'f GDMACFG_TPYES_ST option" where
  "parm_types (PARM_TYPES c) = Some c"
| "parm_types _ = None"

fun parm_do :: "'f gdma_parm \<Rightarrow> GDMA_DO_ST option" where
  "parm_do (PARM_DO c) = Some c"
| "parm_do _ = None"

definition ctrl_set :: "(u32 \<Rightarrow> u32 \<Rightarrow> 'f gdma \<Rightarrow> 'f gdma) \<Rightarrow> 'f gdma_parm \<Rightarrow> 'f gdma \<Rightarrow> (u32 \<times> 'f gdma) option" where
  "ctrl_set f parm g = do { c \<leftarrow> parm_cfg parm; Some (ICU_SUCCESS, f (cfg_channel c) (cfg_param c) g) }"

definition ctrl_get :: "(u32 \<Rightarrow> 'f gdma \<Rightarrow> u32) \<Rightarrow> 'f gdma_parm \<Rightarrow> 'f gdma \<Rightarrow> (u32 \<times> 'f gdma) option" where
  "ctrl_get f parm g = do { c \<leftarrow> parm_cfg parm; Some (f (cfg_channel c) g, g) }"

definition ctrl_types :: "('f GDMACFG_TPYES_ST \<Rightarrow> 'f gdma \<Rightarrow> 'f gdma) \<Rightarrow> 'f gdma_parm \<Rightarrow> 'f gdma \<Rightarrow> (u32 \<times> 'f gdma) option" where
  "ctrl_types f parm g = do { c \<leftarrow> parm_types parm; Some (ICU_SUCCESS, f c g) }"

text \<open>
  The commands of the pause addresses exist for the BK7221U only; for the other chips they end in the
  default case, which answers \<open>ICU_SUCCESS\<close>, 0. The result of \<open>gdma_enable\<close> is dropped.
\<close>

definition pause_ctrl :: "soc \<Rightarrow> gdma_cmd \<Rightarrow> 'f gdma_parm \<Rightarrow> 'f gdma \<Rightarrow> (u32 \<times> 'f gdma) option" where
  "pause_ctrl chip cmd parm g =
     (if chip \<noteq> SOC_BK7221U then Some (ICU_SUCCESS, g)
      else case cmd of
        CMD_GDMA_SET_SRC_PAUSE_ADDR \<Rightarrow> ctrl_set gdma_set_src_pause_addr parm g
      | CMD_GDMA_GET_SRC_PAUSE_ADDR \<Rightarrow> ctrl_get gdma_get_src_pause_addr parm g
      | CMD_GDMA_SET_DST_PAUSE_ADDR \<Rightarrow> ctrl_set gdma_set_dest_pause_addr parm g
      | CMD_GDMA_GET_DST_PAUSE_ADDR \<Rightarrow> ctrl_get gdma_get_dest_pause_addr parm g
      | CMD_GDMA_GET_SRC_READ_ADDR \<Rightarrow> ctrl_get gdma_get_src_read_addr parm g
      | CMD_GDMA_GET_DST_WRITE_ADDR \<Rightarrow> ctrl_get gdma_get_dest_write_addr parm g
      | _ \<Rightarrow> Some (ICU_SUCCESS, g))"

definition gdma_ctrl ::
  "soc \<Rightarrow> (nat \<Rightarrow> 'f gdma \<Rightarrow> 'f gdma) \<Rightarrow> gdma_cmd \<Rightarrow> u32 \<Rightarrow> 'f gdma_parm \<Rightarrow> 'f gdma \<Rightarrow> (u32 \<times> 'f gdma) option" where
  "gdma_ctrl chip hw cmd param parm g =
     (if param = 0 then None
      else case cmd of
        CMD_GDMA_SET_DMA_ENABLE \<Rightarrow> ctrl_set gdma_set_dma_en parm g
      | CMD_GDMA_CFG_FIN_INT_ENABLE \<Rightarrow> ctrl_set gdma_cfg_finish_inten parm g
      | CMD_GDMA_CFG_HFIN_INT_ENABLE \<Rightarrow> ctrl_set gdma_cfg_half_fin_inten parm g
      | CMD_GDMA_CFG_WORK_MODE \<Rightarrow> ctrl_set gdma_cfg_work_mode parm g
      | CMD_GDMA_CFG_SRCDATA_WIDTH \<Rightarrow> ctrl_set gdma_cfg_srcdata_width parm g
      | CMD_GDMA_CFG_DSTDATA_WIDTH \<Rightarrow> ctrl_set gdma_cfg_dstdata_width parm g
      | CMD_GDMA_CFG_SRCADDR_INCREASE \<Rightarrow> ctrl_set gdma_cfg_srcaddr_increase parm g
      | CMD_GDMA_CFG_DSTADDR_INCREASE \<Rightarrow> ctrl_set gdma_cfg_dstaddr_increase parm g
      | CMD_GDMA_CFG_SRCADDR_LOOP \<Rightarrow> ctrl_set gdma_cfg_srcaddr_loop parm g
      | CMD_GDMA_CFG_DSTADDR_LOOP \<Rightarrow> ctrl_set gdma_cfg_dstaddr_loop parm g
      | CMD_GDMA_SET_CHNL_PRIO \<Rightarrow> ctrl_set gdma_set_channel_prioprity parm g
      | CMD_GDMA_SET_TRANS_LENGTH \<Rightarrow> ctrl_set gdma_set_transfer_length parm g
      | CMD_GDMA_SET_DST_START_ADDR \<Rightarrow> ctrl_set gdma_set_dst_start_addr parm g
      | CMD_GDMA_SET_SRC_START_ADDR \<Rightarrow> ctrl_set gdma_set_src_start_addr parm g
      | CMD_GDMA_SET_DST_LOOP_ENDADDR \<Rightarrow> ctrl_set gdma_set_dstloop_endaddr parm g
      | CMD_GDMA_SET_DST_LOOP_STARTADDR \<Rightarrow> ctrl_set gdma_set_dstloop_startaddr parm g
      | CMD_GDMA_SET_SRC_LOOP_ENDADDR \<Rightarrow> ctrl_set gdma_set_srcloop_endaddr parm g
      | CMD_GDMA_SET_SRC_LOOP_STARTADDR \<Rightarrow> ctrl_set gdma_set_srcloop_startaddr parm g
      | CMD_GDMA_GET_REMAIN_LENGTH \<Rightarrow> ctrl_get gdma_get_remain_len parm g
      | CMD_GDMA_SET_DST_REQ_MUX \<Rightarrow> ctrl_set gdma_set_dst_reqmux parm g
      | CMD_GDMA_SET_SRC_REQ_MUX \<Rightarrow> ctrl_set gdma_set_src_reqmux parm g
      | CMD_GDMA_SET_DTCM_WRITE_WORD \<Rightarrow> ctrl_set gdma_set_dctm_write_wd parm g
      | CMD_GDMA_SET_FIN_CNT \<Rightarrow> Some (gdma_get_finish_cnt param g, g)
      | CMD_GDMA_SET_HFIN_CNT \<Rightarrow> ctrl_get gdma_get_half_finish_cnt parm g
      | CMD_GDMA_SET_PRIO_MODE \<Rightarrow> ctrl_set (\<lambda>_. gdma_set_priority) parm g
      | CMD_GDMA_GET_FIN_INT_STATUS \<Rightarrow> ctrl_get gdma_get_finish_interrupt_bit parm g
      | CMD_GDMA_CLR_FIN_INT_STATUS \<Rightarrow> ctrl_set (\<lambda>ch _. gdma_clr_finish_interrupt_bit ch) parm g
      | CMD_GDMA_GET_HFIN_INT_STATUS \<Rightarrow> ctrl_get gdma_get_half_finish_interrupt_bit parm g
      | CMD_GDMA_CLR_HFIN_INT_STATUS \<Rightarrow> ctrl_set (\<lambda>ch _. gdma_clr_half_finish_interrupt_bit ch) parm g
      | CMD_GDMA_CFG_TYPE0 \<Rightarrow> ctrl_types gdma_congfig_type0 parm g
      | CMD_GDMA_CFG_TYPE1 \<Rightarrow> ctrl_types gdma_congfig_type1 parm g
      | CMD_GDMA_CFG_TYPE2 \<Rightarrow> ctrl_types gdma_congfig_type2 parm g
      | CMD_GDMA_CFG_TYPE3 \<Rightarrow> ctrl_types gdma_congfig_type3 parm g
      | CMD_GDMA_CFG_TYPE4 \<Rightarrow> ctrl_types gdma_congfig_type4 parm g
      | CMD_GDMA_CFG_TYPE5 \<Rightarrow> ctrl_types gdma_congfig_type5 parm g
      | CMD_GDMA_CFG_TYPE6 \<Rightarrow> ctrl_types gdma_congfig_type6 parm g
      | CMD_GDMA_ENABLE \<Rightarrow> do {
          do_st \<leftarrow> parm_do parm;
          (len, g) \<leftarrow> gdma_enable hw do_st g;
          Some (ICU_SUCCESS, g) }
      | CMD_GDMA_GET_LEFT_LEN \<Rightarrow> Some (of_int (gdma_get_received_len param g), g)
      | _ \<Rightarrow> pause_ctrl chip cmd parm g)"

section \<open>The interrupt\<close>

text \<open>\<open>run f v\<close> is what the handler \<open>f\<close> does when it is called with \<open>v\<close>.\<close>

definition gdma_isr_channel :: "('f \<Rightarrow> u32 \<Rightarrow> 'f gdma \<Rightarrow> 'f gdma) \<Rightarrow> u32 \<Rightarrow> nat \<Rightarrow> 'f gdma \<Rightarrow> 'f gdma" where
  "gdma_isr_channel run status i g =
     (let cmp_bit = push_bit (i + GENER_DMA_HFIN_INT_STATUS_POSI) 1;
          g = (if status AND cmp_bit = 0 then g
               else case p_dma_hfin_handler g i of
                 None \<Rightarrow> g
               | Some f \<Rightarrow> reg_write GENER_DMA_REG38_DMA_INT_STATUS cmp_bit (run f 0 g));
          cmp_bit = push_bit (i + GENER_DMA_FIN_INT_STATUS_POSI) 1 in
      if status AND cmp_bit = 0 then g
      else case p_dma_fin_handler g i of
        None \<Rightarrow> g
      | Some f \<Rightarrow> reg_write GENER_DMA_REG38_DMA_INT_STATUS cmp_bit (run f 1 g))"

definition gdma_isr :: "('f \<Rightarrow> u32 \<Rightarrow> 'f gdma \<Rightarrow> 'f gdma) \<Rightarrow> 'f gdma \<Rightarrow> 'f gdma" where
  "gdma_isr run g =
     (let status = reg_read GENER_DMA_REG38_DMA_INT_STATUS g in
      fold (gdma_isr_channel run status) [0..<unat GDMA_CHANNEL_MAX] g)"

end
