(* ===== verification/Gdma_Props.thy ===== *)
theory Gdma_Props
  imports Gdma
begin

text \<open>
  What the registers of a DMA channel say, as a record, and the effect of the driver's functions on it. With it:
  a configuration command sets the channel that it names as its type says and no other; after the start of the
  driver every channel is off.
\<close>

section \<open>The addresses of the registers\<close>

definition reg_at :: "nat \<Rightarrow> u32" where "reg_at n = GENER_DMA_BASE + of_nat (4 * n)"

lemma reg_at_eq [simp]: "m < 536870912 \<Longrightarrow> n < 536870912 \<Longrightarrow> reg_at m = reg_at n \<longleftrightarrow> m = n"
  by (auto simp: reg_at_def of_nat_inverse dest!: arg_cong [of _ _ unat] simp del: of_nat_mult)

lemma chn_reg_at [simp]:
  "chn_reg GENER_DMA0_REG0_CONF ch = reg_at (8 * unat ch)"
  "chn_reg GENER_DMA0_REG1_DST_START_ADDR ch = reg_at (1 + 8 * unat ch)"
  "chn_reg GENER_DMA0_REG2_SRC_START_ADDR ch = reg_at (2 + 8 * unat ch)"
  "chn_reg GENER_DMA0_REG3_DSTLOOP_END_ADDR ch = reg_at (3 + 8 * unat ch)"
  "chn_reg GENER_DMA0_REG4_DSTLOOP_START_ADDR ch = reg_at (4 + 8 * unat ch)"
  "chn_reg GENER_DMA0_REG5_SRCLOOP_END_ADDR ch = reg_at (5 + 8 * unat ch)"
  "chn_reg GENER_DMA0_REG6_SRCLOOP_START_ADDR ch = reg_at (6 + 8 * unat ch)"
  "chn_reg GENER_DMA0_REG7_MUX_REQS ch = reg_at (7 + 8 * unat ch)"
  "chn_reg1 GENER_DMA0_REG30_INT_CNTS ch = reg_at (48 + unat ch)"
  "chn_reg1 GENER_DMA0_REG40_SRC_PAUSE_ADDR ch = reg_at (64 + unat ch)"
  "chn_reg1 GENER_DMA0_REG48_DST_PAUSE_ADDR ch = reg_at (72 + unat ch)"
  "chn_reg1 GENER_DMA0_REG50_SRC_RD_ADDR ch = reg_at (80 + unat ch)"
  "chn_reg1 GENER_DMA0_REG58_DST_WR_ADDR ch = reg_at (88 + unat ch)"
  by (simp_all add: chn_reg_def chn_reg1_def reg_at_def GENER_DMA0_REG0_CONF_def
      GENER_DMA0_REG1_DST_START_ADDR_def GENER_DMA0_REG2_SRC_START_ADDR_def GENER_DMA0_REG3_DSTLOOP_END_ADDR_def
      GENER_DMA0_REG4_DSTLOOP_START_ADDR_def GENER_DMA0_REG5_SRCLOOP_END_ADDR_def
      GENER_DMA0_REG6_SRCLOOP_START_ADDR_def GENER_DMA0_REG7_MUX_REQS_def GENER_DMA0_REG30_INT_CNTS_def
      GENER_DMA0_REG40_SRC_PAUSE_ADDR_def GENER_DMA0_REG48_DST_PAUSE_ADDR_def GENER_DMA0_REG50_SRC_RD_ADDR_def
      GENER_DMA0_REG58_DST_WR_ADDR_def algebra_simps)

lemma single_reg_at:
  "GENER_DMA0_REG0_CONF = reg_at 0" "GENER_DMA1_REG8_CONF = reg_at 8" "GENER_DMA2_REG10_CONF = reg_at 16"
  "GENER_DMA3_REG18_CONF = reg_at 24" "GENER_DMA4_REG20_CONF = reg_at 32" "GENER_DMA5_REG28_CONF = reg_at 40"
  "GENER_DMA_REG37_PRIO_MODE = reg_at 55" "GENER_DMA_REG38_DMA_INT_STATUS = reg_at 56"
  by (simp_all add: reg_at_def GENER_DMA0_REG0_CONF_def GENER_DMA1_REG8_CONF_def GENER_DMA2_REG10_CONF_def
      GENER_DMA3_REG18_CONF_def GENER_DMA4_REG20_CONF_def GENER_DMA5_REG28_CONF_def GENER_DMA_REG37_PRIO_MODE_def
      GENER_DMA_REG38_DMA_INT_STATUS_def)

lemma reg_read_write [simp]:
  "m < 536870912 \<Longrightarrow> n < 536870912 \<Longrightarrow> n \<noteq> 56 \<Longrightarrow>
   reg_read (reg_at m) (reg_write (reg_at n) v g) = (if m = n then v else reg_read (reg_at m) g)"
  by (auto simp: reg_read_def reg_write_def single_reg_at)

lemma reg_write_rest [simp]:
  "p_dma_fin_handler (reg_write r v g) = p_dma_fin_handler g"
  "p_dma_hfin_handler (reg_write r v g) = p_dma_hfin_handler g"
  "gdma_log (reg_write r v g) = gdma_log g"
  by (simp_all add: reg_write_def)

lemma reg_read_update [simp]:
  "reg_read r (g\<lparr>p_dma_fin_handler := a\<rparr>) = reg_read r g"
  "reg_read r (g\<lparr>p_dma_hfin_handler := b\<rparr>) = reg_read r g"
  "reg_read r (g\<lparr>gdma_log := c\<rparr>) = reg_read r g"
  by (simp_all add: reg_read_def)

lemma unat_channel_less: "ch < GDMA_CHANNEL_MAX \<longleftrightarrow> unat ch < 6"
  by (simp add: GDMA_CHANNEL_MAX_def word_less_nat_alt)

section \<open>The configuration word of a channel\<close>

record dma_conf =
  c_enabled :: bool
  c_fin_int :: bool
  c_hfin_int :: bool
  c_repeat :: bool
  c_src_width :: u32
  c_dst_width :: u32
  c_src_inc :: bool
  c_dst_inc :: bool
  c_src_loop :: bool
  c_dst_loop :: bool
  c_prio :: u32
  c_len :: u32

definition conf_of :: "u32 \<Rightarrow> dma_conf" where
  "conf_of w =
     \<lparr>c_enabled = bit w 0, c_fin_int = bit w 1, c_hfin_int = bit w 2, c_repeat = bit w 3,
      c_src_width = take_bit 2 (drop_bit 4 w), c_dst_width = take_bit 2 (drop_bit 6 w), c_src_inc = bit w 8,
      c_dst_inc = bit w 9, c_src_loop = bit w 10, c_dst_loop = bit w 11, c_prio = take_bit 2 (drop_bit 12 w),
      c_len = take_bit 16 (drop_bit 16 w)\<rparr>"

lemmas conf_flags = GDMA_X_DMA_EN_def GDMA_X_FIN_INTEN_def GDMA_X_HFIN_INTEN_def GDMA_X_REPEAT_MODE_def
  GDMA_X_SRCADDR_INC_def GDMA_X_DSTADDR_INC_def GDMA_X_SRCADDR_LOOP_def GDMA_X_DSTADDR_LOOP_def

definition flag_word :: "u32 \<Rightarrow> nat \<Rightarrow> bool \<Rightarrow> u32" where
  "flag_word w k b = (if b then w OR push_bit k 1 else w AND NOT (push_bit k 1))"

lemma bit_flag_word: "bit (flag_word w k b) n \<longleftrightarrow> (if n = k then b \<and> k < 32 else bit w n)"
  by (auto simp: flag_word_def bit_simps dest: bit_imp_le_length)

definition field_word :: "u32 \<Rightarrow> nat \<Rightarrow> nat \<Rightarrow> u32 \<Rightarrow> u32" where
  "field_word w k l v = w AND NOT (push_bit k (mask l)) OR push_bit k v"

lemma bit_field_word:
  assumes "k + l \<le> 32" "take_bit l v = v"
  shows "bit (field_word w k l v) n \<longleftrightarrow> (if k \<le> n \<and> n < k + l then bit v (n - k) else bit w n)"
proof -
  have "bit v (n - k) \<Longrightarrow> n - k < l" using assms(2) by (metis bit_take_bit_iff)
  then show ?thesis using assms(1) by (auto simp: field_word_def bit_simps dest: bit_imp_le_length)
qed

lemma field_of_flag_word:
  "k < p \<or> p + l \<le> k \<Longrightarrow> take_bit l (drop_bit p (flag_word w k b)) = take_bit l (drop_bit p w)"
  by (rule bit_word_eqI) (auto simp: bit_simps bit_flag_word)

lemma field_of_field_word:
  "k + m \<le> 32 \<Longrightarrow> take_bit m v = v \<Longrightarrow> p + l \<le> k \<or> k + m \<le> p \<Longrightarrow>
   take_bit l (drop_bit p (field_word w k m v)) = take_bit l (drop_bit p w)"
  by (rule bit_word_eqI) (auto simp: bit_take_bit_iff bit_drop_bit_eq bit_field_word)

lemma field_of_field_word_same:
  assumes "k + l \<le> 32" "take_bit l v = v"
  shows "take_bit l (drop_bit k (field_word w k l v)) = v"
proof (rule bit_word_eqI)
  fix n
  have "bit v n \<Longrightarrow> n < l" using assms(2) by (metis bit_take_bit_iff)
  then show "bit (take_bit l (drop_bit k (field_word w k l v))) n \<longleftrightarrow> bit v n"
    using assms by (auto simp: bit_take_bit_iff bit_drop_bit_eq bit_field_word)
qed

lemma conf_of_flag [simp]:
  "conf_of (flag_word w 0 b) = (conf_of w)\<lparr>c_enabled := b\<rparr>"
  "conf_of (flag_word w 1 b) = (conf_of w)\<lparr>c_fin_int := b\<rparr>"
  "conf_of (flag_word w 2 b) = (conf_of w)\<lparr>c_hfin_int := b\<rparr>"
  "conf_of (flag_word w 3 b) = (conf_of w)\<lparr>c_repeat := b\<rparr>"
  "conf_of (flag_word w 8 b) = (conf_of w)\<lparr>c_src_inc := b\<rparr>"
  "conf_of (flag_word w 9 b) = (conf_of w)\<lparr>c_dst_inc := b\<rparr>"
  "conf_of (flag_word w 10 b) = (conf_of w)\<lparr>c_src_loop := b\<rparr>"
  "conf_of (flag_word w 11 b) = (conf_of w)\<lparr>c_dst_loop := b\<rparr>"
  by (simp_all add: conf_of_def bit_flag_word field_of_flag_word)

lemma conf_of_field [simp]:
  "take_bit 2 v = v \<Longrightarrow> conf_of (field_word w 4 2 v) = (conf_of w)\<lparr>c_src_width := v\<rparr>"
  "take_bit 2 v = v \<Longrightarrow> conf_of (field_word w 6 2 v) = (conf_of w)\<lparr>c_dst_width := v\<rparr>"
  "take_bit 2 v = v \<Longrightarrow> conf_of (field_word w 12 2 v) = (conf_of w)\<lparr>c_prio := v\<rparr>"
  "take_bit 16 v = v \<Longrightarrow> conf_of (field_word w 16 16 v) = (conf_of w)\<lparr>c_len := v\<rparr>"
  by (simp_all add: conf_of_def bit_field_word field_of_field_word field_of_field_word_same)

lemma set_flag_word: "set_flag r (push_bit k 1) e g = reg_write r (flag_word (reg_read r g) k (e \<noteq> 0)) g"
  by (simp add: set_flag_def flag_word_def)

lemma set_field_word: "set_field r (mask l) k v g = reg_write r (field_word (reg_read r g) k l v) g"
  by (simp add: set_field_def field_word_def)

section \<open>A channel\<close>

record 'f dma_channel =
  c_conf :: dma_conf
  c_dst_start :: u32
  c_src_start :: u32
  c_dst_loop_end :: u32
  c_dst_loop_start :: u32
  c_src_loop_end :: u32
  c_src_loop_start :: u32
  c_src_mux :: u32
  c_dst_mux :: u32
  c_wait_word :: bool
  c_src_pause :: u32
  c_dst_pause :: u32
  c_src_pos :: u32
  c_dst_pos :: u32
  c_fin :: "'f option"
  c_hfin :: "'f option"

definition chan_of :: "'f gdma \<Rightarrow> u32 \<Rightarrow> 'f dma_channel" where
  "chan_of g ch =
     (let r = \<lambda>n. reg_read (reg_at (n + 8 * unat ch)) g; r1 = \<lambda>n. reg_read (reg_at (n + unat ch)) g in
      \<lparr>c_conf = conf_of (r 0), c_dst_start = r 1, c_src_start = r 2, c_dst_loop_end = r 3, c_dst_loop_start = r 4,
       c_src_loop_end = r 5, c_src_loop_start = r 6, c_src_mux = take_bit 4 (drop_bit 0 (r 7)),
       c_dst_mux = take_bit 4 (drop_bit 4 (r 7)), c_wait_word = bit (r 7) 8, c_src_pause = r1 64, c_dst_pause = r1 72,
       c_src_pos = r1 80, c_dst_pos = r1 88, c_fin = p_dma_fin_handler g (unat ch), c_hfin = p_dma_hfin_handler g (unat ch)\<rparr>)"

lemma reg_at_other: "ch < GDMA_CHANNEL_MAX \<Longrightarrow> n < 8 \<Longrightarrow> n + 8 * unat ch < 48"
  by (simp add: unat_channel_less)

lemma unat_eq: "unat (a :: u32) = unat b \<longleftrightarrow> a = b"
  by (rule word_unat_eq_iff [symmetric])

text \<open>A write to a register changes the channel that the register belongs to, and no other.\<close>

lemma chan_of_write:
  assumes "ch < GDMA_CHANNEL_MAX" "c < GDMA_CHANNEL_MAX"
  shows "chan_of (reg_write (reg_at (8 * unat ch)) v g) c =
      (if c = ch then (chan_of g c)\<lparr>c_conf := conf_of v\<rparr> else chan_of g c)"
    "chan_of (reg_write (reg_at (1 + 8 * unat ch)) v g) c =
      (if c = ch then (chan_of g c)\<lparr>c_dst_start := v\<rparr> else chan_of g c)"
    "chan_of (reg_write (reg_at (2 + 8 * unat ch)) v g) c =
      (if c = ch then (chan_of g c)\<lparr>c_src_start := v\<rparr> else chan_of g c)"
    "chan_of (reg_write (reg_at (3 + 8 * unat ch)) v g) c =
      (if c = ch then (chan_of g c)\<lparr>c_dst_loop_end := v\<rparr> else chan_of g c)"
    "chan_of (reg_write (reg_at (4 + 8 * unat ch)) v g) c =
      (if c = ch then (chan_of g c)\<lparr>c_dst_loop_start := v\<rparr> else chan_of g c)"
    "chan_of (reg_write (reg_at (5 + 8 * unat ch)) v g) c =
      (if c = ch then (chan_of g c)\<lparr>c_src_loop_end := v\<rparr> else chan_of g c)"
    "chan_of (reg_write (reg_at (6 + 8 * unat ch)) v g) c =
      (if c = ch then (chan_of g c)\<lparr>c_src_loop_start := v\<rparr> else chan_of g c)"
    "chan_of (reg_write (reg_at (7 + 8 * unat ch)) v g) c =
      (if c = ch then (chan_of g c)\<lparr>c_src_mux := take_bit 4 (drop_bit 0 v), c_dst_mux := take_bit 4 (drop_bit 4 v),
         c_wait_word := bit v 8\<rparr> else chan_of g c)"
    "chan_of (reg_write (reg_at (64 + unat ch)) v g) c =
      (if c = ch then (chan_of g c)\<lparr>c_src_pause := v\<rparr> else chan_of g c)"
    "chan_of (reg_write (reg_at (72 + unat ch)) v g) c =
      (if c = ch then (chan_of g c)\<lparr>c_dst_pause := v\<rparr> else chan_of g c)"
    "chan_of (reg_write (reg_at (80 + unat ch)) v g) c =
      (if c = ch then (chan_of g c)\<lparr>c_src_pos := v\<rparr> else chan_of g c)"
    "chan_of (reg_write (reg_at (88 + unat ch)) v g) c =
      (if c = ch then (chan_of g c)\<lparr>c_dst_pos := v\<rparr> else chan_of g c)"
  using assms by (auto simp: chan_of_def Let_def unat_channel_less unat_eq; presburger)+

lemma reg_of_conf: "conf_of (reg_read (reg_at (8 * unat ch)) g) = c_conf (chan_of g ch)"
  by (simp add: chan_of_def)

lemma chan_of_flag:
  assumes "ch < GDMA_CHANNEL_MAX" "c < GDMA_CHANNEL_MAX"
  shows
    "chan_of (gdma_set_dma_en ch v g) c = (if c = ch then c_conf_update (c_enabled_update (\<lambda>_. v \<noteq> 0)) (chan_of g c) else chan_of g c)"
    "chan_of (gdma_cfg_finish_inten ch v g) c = (if c = ch then c_conf_update (c_fin_int_update (\<lambda>_. v \<noteq> 0)) (chan_of g c) else chan_of g c)"
    "chan_of (gdma_cfg_half_fin_inten ch v g) c = (if c = ch then c_conf_update (c_hfin_int_update (\<lambda>_. v \<noteq> 0)) (chan_of g c) else chan_of g c)"
    "chan_of (gdma_cfg_work_mode ch v g) c = (if c = ch then c_conf_update (c_repeat_update (\<lambda>_. v \<noteq> 0)) (chan_of g c) else chan_of g c)"
    "chan_of (gdma_cfg_srcaddr_increase ch v g) c = (if c = ch then c_conf_update (c_src_inc_update (\<lambda>_. v \<noteq> 0)) (chan_of g c) else chan_of g c)"
    "chan_of (gdma_cfg_dstaddr_increase ch v g) c = (if c = ch then c_conf_update (c_dst_inc_update (\<lambda>_. v \<noteq> 0)) (chan_of g c) else chan_of g c)"
    "chan_of (gdma_cfg_srcaddr_loop ch v g) c = (if c = ch then c_conf_update (c_src_loop_update (\<lambda>_. v \<noteq> 0)) (chan_of g c) else chan_of g c)"
    "chan_of (gdma_cfg_dstaddr_loop ch v g) c = (if c = ch then c_conf_update (c_dst_loop_update (\<lambda>_. v \<noteq> 0)) (chan_of g c) else chan_of g c)"
  using assms
  by (simp_all only: gdma_set_dma_en_def gdma_cfg_finish_inten_def gdma_cfg_half_fin_inten_def gdma_cfg_work_mode_def
      gdma_cfg_srcaddr_increase_def gdma_cfg_dstaddr_increase_def gdma_cfg_srcaddr_loop_def gdma_cfg_dstaddr_loop_def
      conf_flags set_flag_word chn_reg_at chan_of_write conf_of_flag reg_of_conf) auto

lemma mask_words: "(0x3 :: u32) = mask 2" "(0xf :: u32) = mask 4" "(0xffff :: u32) = mask 16"
  by (simp_all add: mask_eq_exp_minus_1)

lemma and_mask: "(v :: u32) AND mask n = take_bit n v"
  by (simp add: take_bit_eq_mask)

lemma take_bit_width_code: "take_bit 2 (width_code b) = width_code b"
  by (simp add: width_code_def GDMA_DATA_WIDTH_8BIT_def GDMA_DATA_WIDTH_16BIT_def GDMA_DATA_WIDTH_32BIT_def)

lemmas field_masks = GDMA_X_SRCDATA_WIDTH_MASK_def GDMA_X_DSTDATA_WIDTH_MASK_def GDMA_X_CHNL_PRIO_MASK_def
  GDMA_X_TRANS_LEN_MASK_def GDMA_X_SRC_REQ_MASK_def GDMA_X_DST_REQ_MASK_def

lemmas field_posis = GDMA_X_SRCDATA_WIDTH_POSI_def GDMA_X_DSTDATA_WIDTH_POSI_def GDMA_X_CHNL_PRIO_POSI_def
  GDMA_X_TRANS_LEN_POSI_def GDMA_X_SRC_REQ_POSI_def GDMA_X_DST_REQ_POSI_def

lemma chan_of_field:
  assumes "ch < GDMA_CHANNEL_MAX" "c < GDMA_CHANNEL_MAX"
  shows
    "chan_of (gdma_cfg_srcdata_width ch v g) c = (if c = ch then c_conf_update (c_src_width_update (\<lambda>_. width_code v)) (chan_of g c) else chan_of g c)"
    "chan_of (gdma_cfg_dstdata_width ch v g) c = (if c = ch then c_conf_update (c_dst_width_update (\<lambda>_. width_code v)) (chan_of g c) else chan_of g c)"
    "chan_of (gdma_set_channel_prioprity ch v g) c = (if c = ch then c_conf_update (c_prio_update (\<lambda>_. take_bit 2 v)) (chan_of g c) else chan_of g c)"
    "chan_of (gdma_set_transfer_length ch v g) c = (if c = ch then c_conf_update (c_len_update (\<lambda>_. take_bit 16 (v - 1))) (chan_of g c) else chan_of g c)"
  using assms
  by (simp_all only: gdma_cfg_srcdata_width_def gdma_cfg_dstdata_width_def gdma_set_channel_prioprity_def
      gdma_set_transfer_length_def field_masks field_posis mask_words and_mask set_field_word chn_reg_at chan_of_write
      conf_of_field take_bit_width_code take_bit_take_bit min.idem reg_of_conf) auto

lemma bit_mux_other: "n < k \<or> k + l \<le> n \<Longrightarrow> k + l \<le> 32 \<Longrightarrow> take_bit l v = v \<Longrightarrow> bit (field_word w k l v) n = bit w n"
  by (auto simp: bit_field_word)

lemma chan_of_mux:
  assumes "ch < GDMA_CHANNEL_MAX" "c < GDMA_CHANNEL_MAX"
  shows
    "chan_of (gdma_set_src_reqmux ch v g) c = (if c = ch then (chan_of g c)\<lparr>c_src_mux := take_bit 4 v\<rparr> else chan_of g c)"
    "chan_of (gdma_set_dst_reqmux ch v g) c = (if c = ch then (chan_of g c)\<lparr>c_dst_mux := take_bit 4 v\<rparr> else chan_of g c)"
    "chan_of (gdma_set_dctm_write_wd ch v g) c = (if c = ch then (chan_of g c)\<lparr>c_wait_word := v \<noteq> 0\<rparr> else chan_of g c)"
proof -
  let ?w = "reg_read (reg_at (7 + 8 * unat ch)) g"
  have "take_bit 4 (drop_bit 0 ?w) = c_src_mux (chan_of g ch)" "take_bit 4 (drop_bit 4 ?w) = c_dst_mux (chan_of g ch)"
    "bit ?w 8 = c_wait_word (chan_of g ch)"
    by (simp_all add: chan_of_def Let_def)
  note w = this
  have v: "take_bit 4 (take_bit 4 v) = take_bit 4 v" by simp
  show "chan_of (gdma_set_src_reqmux ch v g) c = (if c = ch then (chan_of g c)\<lparr>c_src_mux := take_bit 4 v\<rparr> else chan_of g c)"
    unfolding gdma_set_src_reqmux_def field_masks field_posis mask_words and_mask set_field_word chn_reg_at chan_of_write [OF assms]
    using field_of_field_word_same [OF _ v, of 0 ?w] field_of_field_word [OF _ v, of 0 4 4 ?w] bit_mux_other [of 8 0 4, OF _ _ v] w
    by (auto simp del: drop_bit_0)
  show "chan_of (gdma_set_dst_reqmux ch v g) c = (if c = ch then (chan_of g c)\<lparr>c_dst_mux := take_bit 4 v\<rparr> else chan_of g c)"
    unfolding gdma_set_dst_reqmux_def field_masks field_posis mask_words and_mask set_field_word chn_reg_at chan_of_write [OF assms]
    using field_of_field_word_same [OF _ v, of 4 ?w] field_of_field_word [OF _ v, of 4 0 4 ?w] bit_mux_other [of 8 4 4, OF _ _ v] w
    by (auto simp del: drop_bit_0)
  show "chan_of (gdma_set_dctm_write_wd ch v g) c = (if c = ch then (chan_of g c)\<lparr>c_wait_word := v \<noteq> 0\<rparr> else chan_of g c)"
    unfolding gdma_set_dctm_write_wd_def GDMA_X_DTCM_WR_WAIT_WORD_def set_flag_word chn_reg_at chan_of_write [OF assms]
    using field_of_flag_word [of 8 0 4 ?w] field_of_flag_word [of 8 4 4 ?w] bit_flag_word [of ?w 8 _ 8] w
    by (auto simp del: drop_bit_0)
qed

lemma chan_of_addr:
  assumes "ch < GDMA_CHANNEL_MAX" "c < GDMA_CHANNEL_MAX"
  shows
    "chan_of (gdma_set_dst_start_addr ch v g) c = (if c = ch then (chan_of g c)\<lparr>c_dst_start := v\<rparr> else chan_of g c)"
    "chan_of (gdma_set_src_start_addr ch v g) c = (if c = ch then (chan_of g c)\<lparr>c_src_start := v\<rparr> else chan_of g c)"
    "chan_of (gdma_set_dstloop_endaddr ch v g) c = (if c = ch then (chan_of g c)\<lparr>c_dst_loop_end := v\<rparr> else chan_of g c)"
    "chan_of (gdma_set_dstloop_startaddr ch v g) c = (if c = ch then (chan_of g c)\<lparr>c_dst_loop_start := v\<rparr> else chan_of g c)"
    "chan_of (gdma_set_srcloop_endaddr ch v g) c = (if c = ch then (chan_of g c)\<lparr>c_src_loop_end := v\<rparr> else chan_of g c)"
    "chan_of (gdma_set_srcloop_startaddr ch v g) c = (if c = ch then (chan_of g c)\<lparr>c_src_loop_start := v\<rparr> else chan_of g c)"
    "chan_of (gdma_set_src_pause_addr ch v g) c = (if c = ch then (chan_of g c)\<lparr>c_src_pause := v\<rparr> else chan_of g c)"
    "chan_of (gdma_set_dest_pause_addr ch v g) c = (if c = ch then (chan_of g c)\<lparr>c_dst_pause := v\<rparr> else chan_of g c)"
  using assms
  by (simp_all only: gdma_set_dst_start_addr_def gdma_set_src_start_addr_def gdma_set_dstloop_endaddr_def
      gdma_set_dstloop_startaddr_def gdma_set_srcloop_endaddr_def gdma_set_srcloop_startaddr_def
      gdma_set_src_pause_addr_def gdma_set_dest_pause_addr_def chn_reg_at chan_of_write)

lemma get_of_chan:
  "gdma_get_src_pause_addr ch g = c_src_pause (chan_of g ch)"
  "gdma_get_dest_pause_addr ch g = c_dst_pause (chan_of g ch)"
  "gdma_get_src_read_addr ch g = c_src_pos (chan_of g ch)"
  "gdma_get_dest_write_addr ch g = c_dst_pos (chan_of g ch)"
  by (simp_all add: gdma_get_src_pause_addr_def gdma_get_dest_pause_addr_def gdma_get_src_read_addr_def
      gdma_get_dest_write_addr_def chan_of_def)

lemmas chan_of_set = chan_of_flag chan_of_field chan_of_mux chan_of_addr

lemma chan_of_handlers:
  assumes "ch < GDMA_CHANNEL_MAX" "c < GDMA_CHANNEL_MAX"
  shows
    "chan_of (g\<lparr>p_dma_fin_handler := (p_dma_fin_handler g)(unat ch := f)\<rparr>) c = (if c = ch then (chan_of g c)\<lparr>c_fin := f\<rparr> else chan_of g c)"
    "chan_of (g\<lparr>p_dma_hfin_handler := (p_dma_hfin_handler g)(unat ch := f)\<rparr>) c = (if c = ch then (chan_of g c)\<lparr>c_hfin := f\<rparr> else chan_of g c)"
  by (simp_all add: chan_of_def Let_def unat_eq)

section \<open>Configurations\<close>

text \<open>The word that all configurations start from, and what the widths and the flags of a structure mean.\<close>

definition conf_reset :: dma_conf where
  "conf_reset =
     \<lparr>c_enabled = False, c_fin_int = False, c_hfin_int = False, c_repeat = False, c_src_width = 0, c_dst_width = 0,
      c_src_inc = False, c_dst_inc = False, c_src_loop = False, c_dst_loop = False, c_prio = 0, c_len = 0\<rparr>"

lemma conf_of_0: "conf_of 0 = conf_reset"
  by (simp add: conf_of_def conf_reset_def)

definition conf_spec :: "'f GDMACFG_TPYES_ST \<Rightarrow> dma_conf" where
  "conf_spec cfg =
     conf_reset\<lparr>c_src_width := width_code (ucast (srcdat_width cfg)), c_dst_width := width_code (ucast (dstdat_width cfg)),
       c_src_inc := srcptr_incr cfg \<noteq> 0, c_dst_inc := dstptr_incr cfg \<noteq> 0, c_prio := take_bit 2 (prio cfg)\<rparr>"

definition addr_spec :: "'f GDMACFG_TPYES_ST \<Rightarrow> 'f dma_channel \<Rightarrow> 'f dma_channel" where
  "addr_spec cfg x = x\<lparr>c_dst_start := dst_start_addr cfg, c_src_start := src_start_addr cfg\<rparr>"

text \<open>
  What a channel is after a configuration of each type: memory to memory with no loop, a loop over the source,
  over the destination, over both; memory to a device and a device to memory, with a loop and in repeat mode. For the
  last type, a device to a device, the driver has an empty function.
\<close>

datatype dma_type = Type0 | Type1 | Type2 | Type3 | Type4 | Type5 | Type6

fun channel_spec :: "dma_type \<Rightarrow> 'f GDMACFG_TPYES_ST \<Rightarrow> 'f dma_channel \<Rightarrow> 'f dma_channel" where
  "channel_spec Type0 cfg x =
     (addr_spec cfg x)\<lparr>c_conf := conf_spec cfg\<rparr>"
| "channel_spec Type1 cfg x =
     (addr_spec cfg x)\<lparr>c_conf := (conf_spec cfg)\<lparr>c_src_loop := True\<rparr>, c_src_loop_start := u0 cfg, c_src_loop_end := u1 cfg\<rparr>"
| "channel_spec Type2 cfg x =
     (addr_spec cfg x)\<lparr>c_conf := (conf_spec cfg)\<lparr>c_dst_loop := True\<rparr>, c_dst_loop_start := u0 cfg, c_dst_loop_end := u1 cfg\<rparr>"
| "channel_spec Type3 cfg x =
     (addr_spec cfg x)\<lparr>c_conf := (conf_spec cfg)\<lparr>c_src_loop := True, c_dst_loop := True\<rparr>, c_src_loop_start := u0 cfg,
       c_src_loop_end := u1 cfg, c_dst_loop_start := u2 cfg, c_dst_loop_end := u3 cfg\<rparr>"
| "channel_spec Type4 cfg x =
     (addr_spec cfg x)\<lparr>c_conf := (conf_spec cfg)\<lparr>c_repeat := True, c_src_loop := True, c_dst_inc := False,
         c_fin_int := fin_handler cfg \<noteq> None, c_hfin_int := half_fin_handler cfg \<noteq> None\<rparr>,
       c_src_loop_start := u0 cfg, c_src_loop_end := u1 cfg,
       c_src_mux := take_bit 4 (ucast (src_module cfg)), c_dst_mux := take_bit 4 (ucast (dst_module cfg)),
       c_fin := (if fin_handler cfg = None then c_fin x else fin_handler cfg),
       c_hfin := (if half_fin_handler cfg = None then c_hfin x else half_fin_handler cfg)\<rparr>"
| "channel_spec Type5 cfg x =
     (addr_spec cfg x)\<lparr>c_conf := (conf_spec cfg)\<lparr>c_repeat := True, c_dst_loop := True, c_src_inc := False,
         c_fin_int := fin_handler cfg \<noteq> None, c_hfin_int := half_fin_handler cfg \<noteq> None\<rparr>,
       c_dst_loop_start := u0 cfg, c_dst_loop_end := u1 cfg,
       c_src_mux := take_bit 4 (ucast (src_module cfg)), c_dst_mux := take_bit 4 (ucast (dst_module cfg)),
       c_fin := (if fin_handler cfg = None then c_fin x else fin_handler cfg),
       c_hfin := (if half_fin_handler cfg = None then c_hfin x else half_fin_handler cfg)\<rparr>"
| "channel_spec Type6 cfg x = x"

fun config_of :: "dma_type \<Rightarrow> 'f GDMACFG_TPYES_ST \<Rightarrow> 'f gdma \<Rightarrow> 'f gdma" where
  "config_of Type0 = gdma_congfig_type0"
| "config_of Type1 = gdma_congfig_type1"
| "config_of Type2 = gdma_congfig_type2"
| "config_of Type3 = gdma_congfig_type3"
| "config_of Type4 = gdma_congfig_type4"
| "config_of Type5 = gdma_congfig_type5"
| "config_of Type6 = gdma_congfig_type6"

fun type_cmd :: "dma_type \<Rightarrow> gdma_cmd" where
  "type_cmd Type0 = CMD_GDMA_CFG_TYPE0"
| "type_cmd Type1 = CMD_GDMA_CFG_TYPE1"
| "type_cmd Type2 = CMD_GDMA_CFG_TYPE2"
| "type_cmd Type3 = CMD_GDMA_CFG_TYPE3"
| "type_cmd Type4 = CMD_GDMA_CFG_TYPE4"
| "type_cmd Type5 = CMD_GDMA_CFG_TYPE5"
| "type_cmd Type6 = CMD_GDMA_CFG_TYPE6"

lemma gdma_ctrl_config: "param \<noteq> 0 \<Longrightarrow> gdma_ctrl chip hw (type_cmd k) param (PARM_TYPES cfg) g = Some (ICU_SUCCESS, config_of k cfg g)"
  by (cases k) (simp_all add: gdma_ctrl_def ctrl_types_def)

lemma ucast_u8_eq_0: "(ucast (b :: u8) :: u32) = 0 \<longleftrightarrow> b = 0"
  by (transfer; simp)

lemma chan_of_common:
  assumes "channel cfg < GDMA_CHANNEL_MAX" "c < GDMA_CHANNEL_MAX"
  shows "chan_of (gdma_config_common cfg g) c =
    (if c = channel cfg
     then (chan_of g c)\<lparr>c_conf := (c_conf (chan_of g c))\<lparr>c_src_width := width_code (ucast (srcdat_width cfg)),
         c_dst_width := width_code (ucast (dstdat_width cfg)), c_src_inc := srcptr_incr cfg \<noteq> 0,
         c_dst_inc := dstptr_incr cfg \<noteq> 0, c_prio := take_bit 2 (prio cfg)\<rparr>,
         c_dst_start := dst_start_addr cfg, c_src_start := src_start_addr cfg\<rparr>
     else chan_of g c)"
  using assms by (simp add: gdma_config_common_def Let_def chan_of_set ucast_u8_eq_0)

lemma chan_of_config_handlers:
  assumes "channel cfg < GDMA_CHANNEL_MAX" "c < GDMA_CHANNEL_MAX"
  shows "chan_of (gdma_config_handlers cfg g) c =
    (if c = channel cfg
     then (chan_of g c)\<lparr>c_conf := (c_conf (chan_of g c))\<lparr>c_fin_int := c_fin_int (c_conf (chan_of g c)) \<or> fin_handler cfg \<noteq> None,
         c_hfin_int := c_hfin_int (c_conf (chan_of g c)) \<or> half_fin_handler cfg \<noteq> None\<rparr>,
         c_fin := (if fin_handler cfg = None then c_fin (chan_of g c) else fin_handler cfg),
         c_hfin := (if half_fin_handler cfg = None then c_hfin (chan_of g c) else half_fin_handler cfg)\<rparr>
     else chan_of g c)"
  using assms by (simp add: gdma_config_handlers_def Let_def chan_of_set chan_of_handlers)

lemma config_of_channel:
  assumes "channel cfg < GDMA_CHANNEL_MAX" "c < GDMA_CHANNEL_MAX"
  shows "chan_of (config_of k cfg g) c = (if c = channel cfg then channel_spec k cfg (chan_of g c) else chan_of g c)"
  using assms
  by (cases k)
    (simp_all add: gdma_congfig_type0_def gdma_congfig_type1_def gdma_congfig_type2_def gdma_congfig_type3_def
      gdma_congfig_type4_def gdma_congfig_type5_def gdma_congfig_type6_def Let_def chan_of_common chan_of_config_handlers chan_of_write(1) not_le
      chan_of_set conf_of_0 conf_spec_def addr_spec_def conf_reset_def ucast_u8_eq_0)

section \<open>After the start\<close>

lemma gdma_do_call_chan [simp]: "chan_of (gdma_do_call x g) c = chan_of g c"
  by (simp add: gdma_do_call_def chan_of_def Let_def)

lemma gdma_set_priority_chan [simp]: "c < GDMA_CHANNEL_MAX \<Longrightarrow> chan_of (gdma_set_priority v g) c = chan_of g c"
  by (simp add: gdma_set_priority_def set_flag_def Let_def chan_of_def single_reg_at unat_channel_less)

definition chan_quiet :: "'f dma_channel \<Rightarrow> bool" where
  "chan_quiet x \<longleftrightarrow> \<not> c_enabled (c_conf x) \<and> \<not> c_fin_int (c_conf x) \<and> \<not> c_hfin_int (c_conf x)"

lemma channel_words: "c < GDMA_CHANNEL_MAX \<Longrightarrow> c = 0 \<or> c = 1 \<or> c = 2 \<or> c = 3 \<or> c = 4 \<or> c = 5"
  by (simp add: GDMA_CHANNEL_MAX_def word_less_nat_alt word_unat_eq_iff) arith

text \<open>The channels of a set are quiet.\<close>

definition quiet :: "u32 set \<Rightarrow> 'f gdma \<Rightarrow> bool" where
  "quiet S g \<longleftrightarrow> (\<forall>c \<in> S. c < GDMA_CHANNEL_MAX \<longrightarrow> chan_quiet (chan_of g c))"

lemma quiet_config:
  assumes "quiet S g" "channel cfg = ch" "ch < GDMA_CHANNEL_MAX" "k \<in> {Type0, Type1, Type2, Type3}"
  shows "quiet (insert ch S) (config_of k cfg g)"
  using assms config_of_channel [OF assms(3) [folded assms(2)], of _ k g]
  by (auto simp: quiet_def chan_quiet_def conf_spec_def conf_reset_def)

lemma quiet_configs:
  assumes "quiet S g" "channel cfg = ch" "ch < GDMA_CHANNEL_MAX"
  shows "quiet (insert ch S) (gdma_congfig_type0 cfg g)" "quiet (insert ch S) (gdma_congfig_type1 cfg g)"
    "quiet (insert ch S) (gdma_congfig_type2 cfg g)" "quiet (insert ch S) (gdma_congfig_type3 cfg g)"
  using quiet_config [OF assms, of Type0] quiet_config [OF assms, of Type1] quiet_config [OF assms, of Type2]
    quiet_config [OF assms, of Type3] by simp_all

lemma quiet_rest:
  "quiet S g \<Longrightarrow> quiet S (gdma_do_call x g)"
  "quiet S g \<Longrightarrow> quiet S (gdma_set_priority v g)"
  by (simp_all add: quiet_def)

lemma quiet_empty: "quiet {} g"
  by (simp add: quiet_def)

section \<open>Properties\<close>

text \<open>
  (C13) A configuration command of \<open>gdma_ctrl\<close> changes at most the channel that its structure names, and every other
  channel is as before. After a command of the types 0 to 5 that channel is what \<open>channel_spec\<close> says of the type:
  the widths, increments, priority and addresses of the structure, the loops and the handlers of the type, everything
  else of the configuration word cleared, so that it is not enabled. A command of type 6 changes nothing.
\<close>

theorem gdma_config_sets_channel:
  assumes "param \<noteq> 0" and "channel cfg < GDMA_CHANNEL_MAX" and "c < GDMA_CHANNEL_MAX"
  shows "\<exists>g'. gdma_ctrl chip hw (type_cmd k) param (PARM_TYPES cfg) g = Some (ICU_SUCCESS, g')
    \<and> chan_of g' c = (if c = channel cfg then channel_spec k cfg (chan_of g c) else chan_of g c)"
  using gdma_ctrl_config [OF assms(1)] config_of_channel [OF assms(2,3)] by blast

theorem gdma_config_sets_channel_witness:
  "\<exists>g'. gdma_ctrl SOC_BK7221U (\<lambda>_ g. g) CMD_GDMA_CFG_TYPE4 1
       (PARM_TYPES (gdma_cfg_zero\<lparr>channel := 1, srcdat_width := 32, dstdat_width := 16, srcptr_incr := 1, u0 := 4096, u1 := 8192,
          dst_module := 2, fin_handler := Some ()\<rparr>))
       \<lparr>regs = \<lambda>_. 0xffffffff, p_dma_fin_handler = \<lambda>_. None, p_dma_hfin_handler = \<lambda>_. None, gdma_log = []\<rparr>
     = Some (ICU_SUCCESS, g')
   \<and> c_src_loop_end (chan_of g' 1) = 8192 \<and> c_fin (chan_of g' 1) = Some () \<and> \<not> c_enabled (c_conf (chan_of g' 1))"
  using gdma_config_sets_channel [of 1 "gdma_cfg_zero\<lparr>channel := 1, srcdat_width := 32, dstdat_width := 16, srcptr_incr := 1,
      u0 := 4096, u1 := 8192, dst_module := 2, fin_handler := Some ()\<rparr>" 1 SOC_BK7221U "\<lambda>_ g. g" Type4
      "\<lparr>regs = \<lambda>_. 0xffffffff, p_dma_fin_handler = \<lambda>_. None, p_dma_hfin_handler = \<lambda>_. None, gdma_log = []\<rparr>"]
  by (auto simp: gdma_cfg_zero_def GDMA_CHANNEL_MAX_def conf_spec_def conf_reset_def)

text \<open>
  (C14) After \<open>gdma_init\<close> on any chip, whatever the registers held before, no channel is enabled and no channel
  raises an interrupt.
\<close>

theorem gdma_init_quiet:
  assumes "c < GDMA_CHANNEL_MAX"
  shows "chan_quiet (chan_of (gdma_init chip g) c)"
proof -
  have "quiet {5, 4, 3, 2, 1, 0} (gdma_init chip g)"
    unfolding gdma_init_def Let_def gdma_enable_interrupt_def
    by (intro quiet_rest quiet_configs quiet_empty) (simp_all add: GDMA_CHANNEL_MAX_def)
  then show ?thesis using channel_words [OF assms] assms by (auto simp: quiet_def)
qed

theorem gdma_init_quiet_witness:
  "chan_quiet (chan_of (gdma_init SOC_BK7221U
     \<lparr>regs = \<lambda>_. 0xffffffff, p_dma_fin_handler = \<lambda>_. Some (), p_dma_hfin_handler = \<lambda>_. None, gdma_log = []\<rparr>) 3)"
  by (rule gdma_init_quiet) (simp add: GDMA_CHANNEL_MAX_def)

end
