(* ===== verification/Ring_Dma.thy ===== *)
theory Ring_Dma
  imports Ring_Buffer Gdma_Props
begin

text \<open>
  The ring buffers that the DMA controller empties (\<open>driver/audio/ring_buffer_dma_read.c\<close>, the samples to
  play) and fills (\<open>driver/audio/ring_buffer_dma_write.c\<close>, the samples recorded), over the DMA driver.

  The driver holds one of the two positions, the controller the other; the driver asks for it and keeps the
  controller from passing its own by the pause address. The two structures have the same members. Beside
  them a ring has the address of its memory as a number, which is what the registers hold.

  The controller is not in the sources. What it does when a channel is enabled is an argument \<open>E\<close> of the
  functions that enable one: \<open>E ch g\<close> are the registers afterwards. (\<open>rb_init_dma_read\<close> enables and disables its
  channel, says the comment there, \<open>in order to set dma read ptr to start of buffer\<close>.)
  \<open>sddev_control\<close> with
  the name of the DMA device is \<open>gdma_ctrl\<close>, which \<open>gdma_init\<close> registers.
\<close>

section \<open>State and operations\<close>

record RB_DMA_ST = RB_ST +
  rb_base :: u32
  dma_ch :: u32

text \<open>A call of the DMA device with the address of the local variable \<open>en_cfg\<close>, which is not \<open>NULL\<close>.\<close>

definition en_cfg_addr :: u32 where "en_cfg_addr = 1"

definition ring_ctrl :: "soc \<Rightarrow> gdma_cmd \<Rightarrow> u32 \<Rightarrow> u32 \<Rightarrow> 'f gdma \<Rightarrow> (u32 \<times> 'f gdma) option" where
  "ring_ctrl chip cmd ch param g =
     gdma_ctrl chip (\<lambda>_ g. g) cmd en_cfg_addr (PARM_CFG \<lparr>cfg_param = param, cfg_channel = ch\<rparr>) g"

type_synonym 'f dma_engine = "u32 \<Rightarrow> 'f gdma \<Rightarrow> 'f gdma"

text \<open>\<open>CMD_GDMA_SET_DMA_ENABLE\<close>, after which the controller sees a channel that was off as on.\<close>

definition ring_enable :: "'f dma_engine \<Rightarrow> soc \<Rightarrow> u32 \<Rightarrow> u32 \<Rightarrow> 'f gdma \<Rightarrow> (u32 \<times> 'f gdma) option" where
  "ring_enable E chip ch param g = do {
     (r, g') \<leftarrow> ring_ctrl chip CMD_GDMA_SET_DMA_ENABLE ch param g;
     Some (r, if gdma_get_dma_en ch g = 0 \<and> gdma_get_dma_en ch g' \<noteq> 0 then E ch g' else g') }"

subsection \<open>The ring that the controller fills\<close>

definition rb_init_dma_write :: "soc \<Rightarrow> RB_DMA_ST \<Rightarrow> u32 \<Rightarrow> byte list \<Rightarrow> u32 \<Rightarrow> u32 \<Rightarrow> 'f gdma \<Rightarrow> (RB_DMA_ST \<times> 'f gdma) option" where
  "rb_init_dma_write chip rb addr mem cap ch g = do {
     let rb = rb\<lparr>address := mem, rb_base := addr, capacity := cap, wp := 0, rp := 0, dma_ch := ch\<rparr>;
     (r, g) \<leftarrow> ring_ctrl chip CMD_GDMA_SET_DST_PAUSE_ADDR (dma_ch rb) (rb_base rb + capacity rb - RWP_SAFE_INTERVAL) g;
     Some (rb, g) }"

definition rb_clear_dma_write :: "soc \<Rightarrow> RB_DMA_ST \<Rightarrow> 'f gdma \<Rightarrow> (RB_DMA_ST \<times> 'f gdma) option" where
  "rb_clear_dma_write chip rb g = do {
     let rb = rb\<lparr>wp := 0, rp := 0\<rparr>;
     (r, g) \<leftarrow> ring_ctrl chip CMD_GDMA_SET_DST_PAUSE_ADDR (dma_ch rb) (rb_base rb + capacity rb - RWP_SAFE_INTERVAL) g;
     Some (rb, g) }"

definition rb_read_dma_write ::
  "soc \<Rightarrow> RB_DMA_ST \<Rightarrow> u32 \<Rightarrow> u32 \<Rightarrow> 'f gdma \<Rightarrow> (u32 \<times> byte list \<times> RB_DMA_ST \<times> 'f gdma) option" where
  "rb_read_dma_write chip rb sz count g =
     (let required_bytes = sz * count in
      if required_bytes = 0 then Some (0, [], rb, g)
      else do {
        (w, g) \<leftarrow> ring_ctrl chip CMD_GDMA_GET_DST_WRITE_ADDR (dma_ch rb) 0 g;
        let w = w - rb_base rb;
        let rb = rb\<lparr>wp := w\<rparr>;
        (read_bytes, buffer, rb) \<leftarrow>
          (if w \<ge> rp rb then
             (let remain_bytes = w - rp rb;
                  read_bytes = (if required_bytes > remain_bytes then remain_bytes else required_bytes) in do {
                buffer \<leftarrow> buf_get (address rb) (unat (rp rb)) (unat read_bytes);
                Some (read_bytes, buffer, rb\<lparr>rp := rp rb + read_bytes\<rparr>) })
           else
             (let remain_bytes = capacity rb - rp rb in
              if required_bytes > remain_bytes then
                (let read_bytes = remain_bytes in do {
                   buffer \<leftarrow> buf_get (address rb) (unat (rp rb)) (unat read_bytes);
                   if required_bytes - read_bytes > w then do {
                     buffer2 \<leftarrow> buf_get (address rb) 0 (unat w);
                     Some (read_bytes + w, buffer @ buffer2, rb\<lparr>rp := w\<rparr>) }
                   else do {
                     buffer2 \<leftarrow> buf_get (address rb) 0 (unat (required_bytes - read_bytes));
                     Some (required_bytes, buffer @ buffer2, rb\<lparr>rp := required_bytes - read_bytes\<rparr>) } })
              else
                (let read_bytes = required_bytes in do {
                   buffer \<leftarrow> buf_get (address rb) (unat (rp rb)) (unat read_bytes);
                   Some (read_bytes, buffer, rb\<lparr>rp := rp rb + read_bytes\<rparr>) })));
        (r, g) \<leftarrow> ring_ctrl chip CMD_GDMA_SET_DST_PAUSE_ADDR (dma_ch rb)
          (if rp rb \<ge> RWP_SAFE_INTERVAL then rb_base rb + rp rb - RWP_SAFE_INTERVAL
           else rb_base rb + capacity rb + rp rb - RWP_SAFE_INTERVAL) g;
        Some (read_bytes, buffer, rb, g) })"

definition rb_get_fill_size_dma_write :: "soc \<Rightarrow> RB_DMA_ST \<Rightarrow> 'f gdma \<Rightarrow> (u32 \<times> RB_DMA_ST \<times> 'f gdma) option" where
  "rb_get_fill_size_dma_write chip rb g = do {
     (w, g) \<leftarrow> ring_ctrl chip CMD_GDMA_GET_DST_WRITE_ADDR (dma_ch rb) 0 g;
     let rb = rb\<lparr>wp := w - rb_base rb\<rparr>;
     Some (if wp rb \<ge> rp rb then wp rb - rp rb else capacity rb - rp rb + wp rb, rb, g) }"

definition rb_get_free_size_dma_write :: "soc \<Rightarrow> RB_DMA_ST \<Rightarrow> 'f gdma \<Rightarrow> (u32 \<times> RB_DMA_ST \<times> 'f gdma) option" where
  "rb_get_free_size_dma_write chip rb g = do {
     (w, g) \<leftarrow> ring_ctrl chip CMD_GDMA_GET_DST_WRITE_ADDR (dma_ch rb) 0 g;
     let rb = rb\<lparr>wp := w - rb_base rb\<rparr>;
     let free_size = (if wp rb \<ge> rp rb then capacity rb - wp rb + rp rb else rp rb - wp rb);
     Some (if free_size > RWP_SAFE_INTERVAL then free_size - RWP_SAFE_INTERVAL else 0, rb, g) }"

subsection \<open>The ring that the controller empties\<close>

definition rb_init_dma_read :: "'f dma_engine \<Rightarrow> soc \<Rightarrow> RB_DMA_ST \<Rightarrow> u32 \<Rightarrow> byte list \<Rightarrow> u32 \<Rightarrow> u32 \<Rightarrow> 'f gdma \<Rightarrow> (RB_DMA_ST \<times> 'f gdma) option" where
  "rb_init_dma_read E chip rb addr mem cap ch g = do {
     let rb = rb\<lparr>address := mem, rb_base := addr, capacity := cap, wp := 0, rp := 0, dma_ch := ch\<rparr>;
     (r, g) \<leftarrow> ring_ctrl chip CMD_GDMA_SET_SRC_PAUSE_ADDR (dma_ch rb) (rb_base rb) g;
     (r, g) \<leftarrow> ring_enable E chip (dma_ch rb) 1 g;
     (r, g) \<leftarrow> ring_enable E chip (dma_ch rb) 0 g;
     Some (rb, g) }"

definition rb_clear_dma_read :: "RB_DMA_ST \<Rightarrow> RB_DMA_ST" where
  "rb_clear_dma_read rb = rb\<lparr>wp := 0, rp := 0\<rparr>"

definition rb_write_dma_read ::
  "soc \<Rightarrow> RB_DMA_ST \<Rightarrow> byte list \<Rightarrow> u32 \<Rightarrow> u32 \<Rightarrow> 'f gdma \<Rightarrow> (u32 \<times> RB_DMA_ST \<times> 'f gdma) option" where
  "rb_write_dma_read chip rb buffer sz count g =
     (let write_bytes = sz * count; wrap = (\<lambda>rb :: RB_DMA_ST. if wp rb \<ge> capacity rb then rb\<lparr>wp := 0\<rparr> else rb) in
      if write_bytes = 0 then Some (0, rb, g)
      else do {
        (r, g) \<leftarrow> ring_ctrl chip CMD_GDMA_GET_SRC_READ_ADDR (dma_ch rb) 0 g;
        let r = r - rb_base rb;
        let rb = rb\<lparr>rp := r\<rparr>;
        (accepted, rb) \<leftarrow>
          (if wp rb \<ge> r then
             (let remain_bytes = capacity rb - wp rb + r in
              if remain_bytes \<ge> write_bytes + RWP_SAFE_INTERVAL then
                (let remain_bytes = capacity rb - wp rb in
                 if remain_bytes \<ge> write_bytes then do {
                   src \<leftarrow> buf_get buffer 0 (unat write_bytes);
                   mem \<leftarrow> buf_put (address rb) (unat (wp rb)) src;
                   Some (True, wrap (rb\<lparr>address := mem, wp := wp rb + write_bytes\<rparr>)) }
                 else do {
                   src \<leftarrow> buf_get buffer 0 (unat remain_bytes);
                   mem \<leftarrow> buf_put (address rb) (unat (wp rb)) src;
                   let rb = wrap (rb\<lparr>address := mem, wp := write_bytes - remain_bytes\<rparr>);
                   src2 \<leftarrow> buf_get buffer (unat remain_bytes) (unat (wp rb));
                   mem2 \<leftarrow> buf_put (address rb) 0 src2;
                   Some (True, rb\<lparr>address := mem2\<rparr>) })
              else Some (False, rb))
           else
             (let remain_bytes = r - wp rb in
              if remain_bytes \<ge> write_bytes + RWP_SAFE_INTERVAL then do {
                src \<leftarrow> buf_get buffer 0 (unat write_bytes);
                mem \<leftarrow> buf_put (address rb) (unat (wp rb)) src;
                Some (True, wrap (rb\<lparr>address := mem, wp := wp rb + write_bytes\<rparr>)) }
              else Some (False, rb)));
        if \<not> accepted then Some (0, rb, g)
        else do {
          (s, g) \<leftarrow> ring_ctrl chip CMD_GDMA_SET_SRC_PAUSE_ADDR (dma_ch rb) (rb_base rb + wp rb) g;
          Some (write_bytes, rb, g) } })"

definition rb_get_fill_size_dma_read :: "soc \<Rightarrow> RB_DMA_ST \<Rightarrow> 'f gdma \<Rightarrow> (u32 \<times> RB_DMA_ST \<times> 'f gdma) option" where
  "rb_get_fill_size_dma_read chip rb g = do {
     (r, g) \<leftarrow> ring_ctrl chip CMD_GDMA_GET_SRC_READ_ADDR (dma_ch rb) 0 g;
     let rb = rb\<lparr>rp := r - rb_base rb\<rparr>;
     Some (if wp rb \<ge> rp rb then wp rb - rp rb else capacity rb - rp rb + wp rb, rb, g) }"

definition rb_get_free_size_dma_read :: "soc \<Rightarrow> RB_DMA_ST \<Rightarrow> 'f gdma \<Rightarrow> (u32 \<times> RB_DMA_ST \<times> 'f gdma) option" where
  "rb_get_free_size_dma_read chip rb g = do {
     (r, g) \<leftarrow> ring_ctrl chip CMD_GDMA_GET_SRC_READ_ADDR (dma_ch rb) 0 g;
     let rb = rb\<lparr>rp := r - rb_base rb\<rparr>;
     let free_size = (if wp rb \<ge> rp rb then capacity rb - wp rb + rp rb else rp rb - wp rb);
     Some (if free_size > RWP_SAFE_INTERVAL then free_size - RWP_SAFE_INTERVAL else 0, rb, g) }"

section \<open>Reduction to the byte ring buffer\<close>

text \<open>
  With the position of the controller read into the structure, the operations are those of
  \<open>ring_buffer.c\<close>, followed by the new pause address.
\<close>

definition ring_of :: "RB_DMA_ST \<Rightarrow> RB_ST" where
  "ring_of rb = \<lparr>address = address rb, capacity = capacity rb, wp = wp rb, rp = rp rb\<rparr>"

definition ring_into :: "RB_DMA_ST \<Rightarrow> RB_ST \<Rightarrow> RB_DMA_ST" where
  "ring_into rb r = rb\<lparr>address := address r, capacity := capacity r, wp := wp r, rp := rp r\<rparr>"

lemma ring_of_sel [simp]:
  "address (ring_of rb) = address rb" "capacity (ring_of rb) = capacity rb" "wp (ring_of rb) = wp rb" "rp (ring_of rb) = rp rb"
  by (simp_all add: ring_of_def)

lemma ring_into_sel [simp]:
  "address (ring_into rb r) = address r" "capacity (ring_into rb r) = capacity r" "wp (ring_into rb r) = wp r"
  "rp (ring_into rb r) = rp r" "rb_base (ring_into rb r) = rb_base rb" "dma_ch (ring_into rb r) = dma_ch rb"
  by (simp_all add: ring_into_def)

definition pause_after_read :: "RB_DMA_ST \<Rightarrow> u32" where
  "pause_after_read rb =
     (if rp rb \<ge> RWP_SAFE_INTERVAL then rb_base rb + rp rb - RWP_SAFE_INTERVAL
      else rb_base rb + capacity rb + rp rb - RWP_SAFE_INTERVAL)"

lemma rb_read_dma_write_eq:
  assumes "sz * count \<noteq> 0"
  shows "rb_read_dma_write chip rb sz count g = do {
    (w, g) \<leftarrow> ring_ctrl chip CMD_GDMA_GET_DST_WRITE_ADDR (dma_ch rb) 0 g;
    (n, bs, r) \<leftarrow> rb_read (ring_of (rb\<lparr>wp := w - rb_base rb\<rparr>)) sz count;
    let rb = ring_into rb r;
    (r, g) \<leftarrow> ring_ctrl chip CMD_GDMA_SET_DST_PAUSE_ADDR (dma_ch rb) (pause_after_read rb) g;
    Some (n, bs, rb, g) }"
  using assms
  by (auto simp: rb_read_dma_write_def rb_read_def Let_def pause_after_read_def ring_into_def split: Option.bind_splits)

lemma update_order:
  "rb\<lparr>rp := x, address := m\<rparr> = (rb :: RB_DMA_ST)\<lparr>address := m, rp := x\<rparr>"
  "rb\<lparr>rp := x, wp := w\<rparr> = rb\<lparr>wp := w, rp := x\<rparr>"
  "rb\<lparr>wp := w, address := m\<rparr> = rb\<lparr>address := m, wp := w\<rparr>"
  by simp_all

text \<open>
  Where the guard of a block of n bytes holds, the positions do not run together: with the reader at the start the
  block fits in front of the end, and the rest of a block that goes over the end fits in front of the reader.
\<close>

lemma write_guard:
  assumes inv: "rb_inv (ring_of q)" and n: "unat n + 4 < 4294967296" and low: "rp q \<le> wp q"
    and guard: "n + RWP_SAFE_INTERVAL \<le> capacity q - wp q + rp q"
  shows "rp q = 0 \<Longrightarrow> \<not> capacity q \<le> wp q + n" "rp q = 0 \<Longrightarrow> n \<le> capacity q - wp q"
    "\<not> n \<le> capacity q - wp q \<Longrightarrow> \<not> capacity q \<le> n - (capacity q - wp q)"
proof -
  note I = rb_invD [OF inv, simplified]
  have n4: "unat (n + RWP_SAFE_INTERVAL) = unat n + 4" using n by (simp add: RWP_SAFE_INTERVAL_def unat_add_no_wrap)
  have g0: "rp q = 0 \<Longrightarrow> unat n + 4 \<le> unat (capacity q) - unat (wp q)"
    using I guard n4 by (simp add: word_le_nat_alt unat_sub_no_wrap)
  show "rp q = 0 \<Longrightarrow> \<not> capacity q \<le> wp q + n"
    using g0 I unat_u32 [of "capacity q"] by (simp add: word_le_nat_alt unat_add_no_wrap)
  show "rp q = 0 \<Longrightarrow> n \<le> capacity q - wp q"
    using g0 I by (simp add: word_le_nat_alt unat_sub_no_wrap)
  have "unat (capacity q - wp q + rp q) = unat (capacity q) - unat (wp q) + unat (rp q)"
    using I low unat_u32 [of "capacity q"]
    by (subst unat_add_no_wrap) (auto simp: unat_sub_no_wrap word_le_nat_alt)
  then show "\<not> n \<le> capacity q - wp q \<Longrightarrow> \<not> capacity q \<le> n - (capacity q - wp q)"
    using guard low n4 I by (simp add: word_le_nat_alt unat_sub_no_wrap)
qed

lemma rb_write_dma_read_eq:
  assumes n: "sz * count \<noteq> 0" "unat (sz * count) + 4 < 4294967296"
    and get: "ring_ctrl chip CMD_GDMA_GET_SRC_READ_ADDR (dma_ch rb) 0 g = Some (r, g1)"
    and inv: "rb_inv (ring_of (rb\<lparr>rp := r - rb_base rb\<rparr>))"
  shows "rb_write_dma_read chip rb buffer sz count g = do {
    let rb = rb\<lparr>rp := r - rb_base rb\<rparr>;
    (n, rr) \<leftarrow> rb_write (ring_of rb) buffer sz count;
    if n = 0 then Some (0, rb, g1)
    else do {
      (s, g) \<leftarrow> ring_ctrl chip CMD_GDMA_SET_SRC_PAUSE_ADDR (dma_ch rb) (rb_base rb + wp rr) g1;
      Some (n, ring_into rb rr, g) } }"
proof -
  define q where "q = rb\<lparr>rp := r - rb_base rb\<rparr>"
  note w = write_guard [OF inv [folded q_def] n(2)]
  note defs = rb_write_dma_read_def rb_write_def Let_def ring_into_def buf_get_def buf_put_def update_order
  consider "rp q \<le> wp q" "sz * count + RWP_SAFE_INTERVAL \<le> capacity q - wp q + rp q" "sz * count \<le> capacity q - wp q"
    | "rp q \<le> wp q" "sz * count + RWP_SAFE_INTERVAL \<le> capacity q - wp q + rp q" "\<not> sz * count \<le> capacity q - wp q"
    | "rp q \<le> wp q" "\<not> sz * count + RWP_SAFE_INTERVAL \<le> capacity q - wp q + rp q"
    | "\<not> rp q \<le> wp q" "sz * count + RWP_SAFE_INTERVAL \<le> rp q - wp q"
    | "\<not> rp q \<le> wp q" "\<not> sz * count + RWP_SAFE_INTERVAL \<le> rp q - wp q"
    by blast
  then show ?thesis
  proof cases
    case 1
    then show ?thesis using n get w(1) [OF 1(1,2)] unfolding q_def by (simp add: defs)
  next
    case 2
    then have "rp q \<noteq> 0" using w(2) by blast
    then show ?thesis using n get 2 w(3) [OF 2] unfolding q_def by (simp add: defs)
  next
    case 4
    then have "rp q \<noteq> 0" by auto
    then show ?thesis using n get 4 unfolding q_def by (simp add: defs)
  qed (use n get in \<open>simp_all add: rb_write_dma_read_def rb_write_def Let_def q_def\<close>)
qed

end
