(* ===== verification/Ring_Dma_Props.thy ===== *)
theory Ring_Dma_Props
  imports Ring_Dma
begin

text \<open>
  The rings between the driver and the DMA controller are pipes: the bytes arrive in order, none is lost
  and none is overwritten, however the operations of the driver and the moves of the controller interleave.
\<close>

section \<open>The controller\<close>

text \<open>
  The controller is hardware that the sources do not describe. What the driver relies on is said here as
  predicates, the hypotheses of the theorems.

  \<open>starts_over E\<close>: a channel that is enabled begins at its start addresses (the comment in \<open>rb_init_dma_read\<close>),
  also when it has run before.
\<close>

definition starts_over :: "'f dma_engine \<Rightarrow> bool" where
  "starts_over E \<longleftrightarrow>
     (\<forall>ch g c. ch < GDMA_CHANNEL_MAX \<longrightarrow> c < GDMA_CHANNEL_MAX \<longrightarrow>
        chan_of (E ch g) c =
          (if c = ch then (chan_of g ch)\<lparr>c_src_pos := c_src_start (chan_of g ch), c_dst_pos := c_dst_start (chan_of g ch)\<rparr>
           else chan_of g c))"

text \<open>
  How many bytes an enabled channel moves at a time is the controller's choice, a function \<open>mv\<close> of the channel: single
  bytes, words, bursts, nothing at all; a channel stays enabled until the driver disables it. It never moves past the pause address: \<open>loop_room\<close> is the number of bytes
  from a position to the pause address along the loop.
\<close>

definition loop_room :: "u32 \<Rightarrow> u32 \<Rightarrow> u32 \<Rightarrow> u32 \<Rightarrow> nat" where
  "loop_room start stop pos pause =
     (let p = pos - start; q = pause - start in
      if p \<le> q then unat (q - p) else unat (stop - start - p) + unat q)"

definition src_room :: "'f dma_channel \<Rightarrow> nat" where
  "src_room x = loop_room (c_src_loop_start x) (c_src_loop_end x) (c_src_pos x) (c_src_pause x)"

definition dst_room :: "'f dma_channel \<Rightarrow> nat" where
  "dst_room x = loop_room (c_dst_loop_start x) (c_dst_loop_end x) (c_dst_pos x) (c_dst_pause x)"

definition pauses_src :: "('f dma_channel \<Rightarrow> nat) \<Rightarrow> bool" where "pauses_src mv \<longleftrightarrow> (\<forall>x. mv x \<le> src_room x)"
definition pauses_dst :: "('f dma_channel \<Rightarrow> nat) \<Rightarrow> bool" where "pauses_dst mv \<longleftrightarrow> (\<forall>x. mv x \<le> dst_room x)"

text \<open>
  The effect of a move of n bytes: the bytes at the positions that follow each other by the loop registers, in
  order. An access outside the memory of the ring is \<open>None\<close>.
\<close>

definition loop_next :: "bool \<Rightarrow> u32 \<Rightarrow> u32 \<Rightarrow> u32 \<Rightarrow> u32" where
  "loop_next loop start stop a = (if loop \<and> a + 1 = stop then start else a + 1)"

definition src_next :: "u32 \<Rightarrow> 'f gdma \<Rightarrow> 'f gdma" where
  "src_next ch g =
     (let x = chan_of g ch in
      reg_write (chn_reg1 GENER_DMA0_REG50_SRC_RD_ADDR ch)
        (loop_next (c_src_loop (c_conf x)) (c_src_loop_start x) (c_src_loop_end x) (c_src_pos x)) g)"

definition dst_next :: "u32 \<Rightarrow> 'f gdma \<Rightarrow> 'f gdma" where
  "dst_next ch g =
     (let x = chan_of g ch in
      reg_write (chn_reg1 GENER_DMA0_REG58_DST_WR_ADDR ch)
        (loop_next (c_dst_loop (c_conf x)) (c_dst_loop_start x) (c_dst_loop_end x) (c_dst_pos x)) g)"

fun copy_out :: "nat \<Rightarrow> RB_DMA_ST \<Rightarrow> 'f gdma \<Rightarrow> (byte list \<times> 'f gdma) option" where
  "copy_out 0 rb g = Some ([], g)"
| "copy_out (Suc n) rb g = do {
     b \<leftarrow> buf_get (address rb) (unat (c_src_pos (chan_of g (dma_ch rb)) - rb_base rb)) 1;
     (bs, g) \<leftarrow> copy_out n rb (src_next (dma_ch rb) g);
     Some (b @ bs, g) }"

fun copy_in :: "byte list \<Rightarrow> RB_DMA_ST \<Rightarrow> 'f gdma \<Rightarrow> (RB_DMA_ST \<times> 'f gdma) option" where
  "copy_in [] rb g = Some (rb, g)"
| "copy_in (b # bs) rb g = do {
     mem \<leftarrow> buf_put (address rb) (unat (c_dst_pos (chan_of g (dma_ch rb)) - rb_base rb)) [b];
     copy_in bs (rb\<lparr>address := mem\<rparr>) (dst_next (dma_ch rb) g) }"

text \<open>A channel that is off does not move. Of the samples that arrive an enabled one stores as many as it moves.\<close>

definition dma_send :: "('f dma_channel \<Rightarrow> nat) \<Rightarrow> RB_DMA_ST \<Rightarrow> 'f gdma \<Rightarrow> (byte list \<times> 'f gdma) option" where
  "dma_send mv rb g =
     (let x = chan_of g (dma_ch rb) in if c_enabled (c_conf x) then copy_out (mv x) rb g else Some ([], g))"

definition dma_receive ::
  "('f dma_channel \<Rightarrow> nat) \<Rightarrow> byte list \<Rightarrow> RB_DMA_ST \<Rightarrow> 'f gdma \<Rightarrow> (nat \<times> RB_DMA_ST \<times> 'f gdma) option" where
  "dma_receive mv bs rb g =
     (let x = chan_of g (dma_ch rb); k = (if c_enabled (c_conf x) then min (mv x) (length bs) else 0) in do {
      (rb, g) \<leftarrow> copy_in (take k bs) rb g;
      Some (k, rb, g) })"

section \<open>One byte in the ring\<close>

lemma ring_step:
  assumes "r < length m" "w < length m" "r \<noteq> w"
  shows "ring m w r = m ! r # ring m w (if r + 1 = length m then 0 else r + 1)"
proof -
  have "ring m w (r + 1) = drop 1 (ring m w r) \<and> take 1 (ring m w r) = take 1 (drop r m)"
    using assms ring_advance_low [of r w 1 m] ring_advance_high [of w r 1 m] by (cases "r < w") auto
  moreover have "take 1 (drop r m) = [m ! r]" using assms(1) by (simp add: take_Suc hd_drop_conv_nth)
  ultimately have "ring m w r = [m ! r] @ ring m w (r + 1)" by (metis append_take_drop_id)
  moreover have "r + 1 = length m \<Longrightarrow> ring m w (r + 1) = ring m w 0" using assms by (simp add: ring_def)
  ultimately show ?thesis by auto
qed

lemma ring_store:
  assumes "w < length m" "r \<le> length m" "length (ring m w r) + 1 < length m"
  shows "ring (take w m @ [b] @ drop (w + 1) m) (if w + 1 = length m then 0 else w + 1) r = ring m w r @ [b]"
proof -
  define m' where "m' = take w m @ [b] @ drop (w + 1) m"
  have m': "length m' = length m" using assms(1) by (simp add: m'_def)
  have put: "ring m' (w + 1) r = ring m w r @ [b]"
  proof (cases "r \<le> w")
    case True
    then show ?thesis using ring_put_low [of r w "[b]" m] assms(1) by (simp add: m'_def)
  next
    case False
    then have "w + 1 < r" using assms by (auto simp: ring_def)
    then show ?thesis using ring_put_high [of w "[b]" r m] assms(2) by (simp add: m'_def)
  qed
  have "ring m' 0 r = ring m' (w + 1) r" if "w + 1 = length m"
  proof -
    have "r \<noteq> 0" using assms(1,3) that by (intro notI) (simp add: ring_def)
    then show ?thesis using ring_wp_zero [of r m'] assms(2) m' that by simp
  qed
  then show ?thesis unfolding m'_def [symmetric] using put by metis
qed

lemma loop_next_pos:
  fixes a base cap :: u32
  assumes "unat (a - base) < unat cap"
  shows "unat (loop_next True base (base + cap) a - base) =
    (if unat (a - base) + 1 = unat cap then 0 else unat (a - base) + 1)"
proof -
  have p: "unat (a - base + 1) = unat (a - base) + 1"
    using assms unat_u32 [of cap] by (simp add: unat_add_no_wrap)
  have "a + 1 = base + cap \<longleftrightarrow> a - base + 1 = cap" by (auto simp: algebra_simps)
  also have "\<dots> \<longleftrightarrow> unat (a - base) + 1 = unat cap" by (metis p word_unat_eq_iff)
  finally have "a + 1 = base + cap \<longleftrightarrow> unat (a - base) + 1 = unat cap" .
  moreover have "a + 1 - base = a - base + 1" by simp
  then have "unat (a + 1 - base) = unat (a - base) + 1" using p by (simp only:)
  ultimately show ?thesis by (simp add: loop_next_def)
qed

lemma loop_next_less:
  "unat (a - base) < unat (cap :: u32) \<Longrightarrow> unat (loop_next True base (base + cap) a - base) < unat cap"
  by (auto simp: loop_next_pos)

lemma chan_of_src_next:
  "ch < GDMA_CHANNEL_MAX \<Longrightarrow> chan_of (src_next ch g) ch =
   (let x = chan_of g ch in
    x\<lparr>c_src_pos := loop_next (c_src_loop (c_conf x)) (c_src_loop_start x) (c_src_loop_end x) (c_src_pos x)\<rparr>)"
  by (simp add: src_next_def Let_def chan_of_write)

lemma chan_of_dst_next:
  "ch < GDMA_CHANNEL_MAX \<Longrightarrow> chan_of (dst_next ch g) ch =
   (let x = chan_of g ch in
    x\<lparr>c_dst_pos := loop_next (c_dst_loop (c_conf x)) (c_dst_loop_start x) (c_dst_loop_end x) (c_dst_pos x)\<rparr>)"
  by (simp add: dst_next_def Let_def chan_of_write)

section \<open>Playing\<close>

definition src_pos :: "RB_DMA_ST \<Rightarrow> 'f gdma \<Rightarrow> u32" where
  "src_pos rb g = c_src_pos (chan_of g (dma_ch rb)) - rb_base rb"

definition play_ring :: "RB_DMA_ST \<Rightarrow> 'f gdma \<Rightarrow> RB_ST" where
  "play_ring rb g = ring_of (rb\<lparr>rp := src_pos rb g\<rparr>)"

fun play_contents :: "RB_DMA_ST \<times> 'f gdma \<Rightarrow> byte list" where
  "play_contents (rb, g) = rb_contents (play_ring rb g)"

fun play_inv :: "RB_DMA_ST \<times> 'f gdma \<Rightarrow> bool" where
  "play_inv (rb, g) \<longleftrightarrow>
     (let x = chan_of g (dma_ch rb) in
      dma_ch rb < GDMA_CHANNEL_MAX \<and> length (address rb) = unat (capacity rb) \<and> src_pos rb g < capacity rb \<and> wp rb < capacity rb
      \<and> c_src_pause x = rb_base rb + wp rb \<and> c_src_loop (c_conf x) \<and> c_src_loop_start x = rb_base rb
      \<and> c_src_loop_end x = rb_base rb + capacity rb)"

lemma play_ring_sel [simp]:
  "address (play_ring rb g) = address rb" "capacity (play_ring rb g) = capacity rb" "wp (play_ring rb g) = wp rb"
  "rp (play_ring rb g) = src_pos rb g"
  by (simp_all add: play_ring_def)

lemma play_inv_ring: "play_inv (rb, g) \<Longrightarrow> rb_inv (play_ring rb g)"
  by (auto simp: rb_inv_def Let_def)

lemma play_contents_ring: "play_contents (rb, g) = ring (address rb) (unat (wp rb)) (unat (src_pos rb g))"
  by (simp add: rb_contents_ring)

lemma send_byte:
  assumes inv: "play_inv (rb, g)" and go: "c_src_pos (chan_of g (dma_ch rb)) \<noteq> c_src_pause (chan_of g (dma_ch rb))"
  shows "play_inv (rb, src_next (dma_ch rb) g)"
    "\<exists>b. buf_get (address rb) (unat (src_pos rb g)) 1 = Some [b] \<and> play_contents (rb, g) = b # play_contents (rb, src_next (dma_ch rb) g)"
proof -
  let ?x = "chan_of g (dma_ch rb)"
  have ch: "dma_ch rb < GDMA_CHANNEL_MAX" and less: "unat (src_pos rb g) < unat (capacity rb)" "unat (wp rb) < unat (capacity rb)"
    and len: "length (address rb) = unat (capacity rb)"
    and loop: "loop_next (c_src_loop (c_conf ?x)) (c_src_loop_start ?x) (c_src_loop_end ?x) (c_src_pos ?x)
      = loop_next True (rb_base rb) (rb_base rb + capacity rb) (c_src_pos ?x)"
    using inv by (auto simp: Let_def word_less_nat_alt)
  have next_pos: "unat (src_pos rb (src_next (dma_ch rb) g)) =
      (if unat (src_pos rb g) + 1 = unat (capacity rb) then 0 else unat (src_pos rb g) + 1)"
    using loop_next_pos [OF less(1) [unfolded src_pos_def]] loop
    by (simp add: src_pos_def chan_of_src_next [OF ch] Let_def)
  then have "unat (src_pos rb (src_next (dma_ch rb) g)) < unat (capacity rb)" using less(1) by auto
  then show "play_inv (rb, src_next (dma_ch rb) g)"
    using inv by (simp add: Let_def chan_of_src_next word_less_nat_alt)
  have ne: "unat (src_pos rb g) \<noteq> unat (wp rb)"
    using inv go by (auto simp: Let_def src_pos_def unat_eq algebra_simps)
  have "buf_get (address rb) (unat (src_pos rb g)) 1 = Some [address rb ! unat (src_pos rb g)]"
    using less(1) len by (simp add: buf_get_def take_Suc_conv_app_nth hd_drop_conv_nth take_Suc)
  then show "\<exists>b. buf_get (address rb) (unat (src_pos rb g)) 1 = Some [b]
      \<and> play_contents (rb, g) = b # play_contents (rb, src_next (dma_ch rb) g)"
    unfolding play_contents_ring using ring_step [of "unat (src_pos rb g)" "address rb" "unat (wp rb)"] less len ne next_pos by simp
qed

lemma play_room:
  assumes "play_inv (rb, g)"
  shows "src_room (chan_of g (dma_ch rb)) = length (play_contents (rb, g))"
proof -
  let ?p = "src_pos rb g"
  have "src_room (chan_of g (dma_ch rb)) = (if ?p \<le> wp rb then unat (wp rb - ?p) else unat (capacity rb - ?p) + unat (wp rb))"
    using assms by (simp add: src_room_def loop_room_def Let_def src_pos_def)
  moreover have "?p \<le> capacity rb" using assms by (auto simp: Let_def)
  ultimately show ?thesis
    using length_rb_contents [OF play_inv_ring [OF assms]] by (simp add: word_le_nat_alt unat_sub_no_wrap)
qed

text \<open>A move of as many bytes as there are, or fewer, sends the oldest ones.\<close>

lemma copy_out_some:
  "play_inv (rb, g) \<Longrightarrow> n \<le> length (play_contents (rb, g)) \<Longrightarrow>
   \<exists>g' p. copy_out n rb g = Some (take n (play_contents (rb, g)), g') \<and> play_inv (rb, g')
     \<and> play_contents (rb, g') = drop n (play_contents (rb, g))
     \<and> chan_of g' (dma_ch rb) = (chan_of g (dma_ch rb))\<lparr>c_src_pos := p\<rparr>"
proof (induction n arbitrary: g)
  case 0
  then show ?case by (auto intro!: exI [of _ "c_src_pos (chan_of g (dma_ch rb))"])
next
  case (Suc n)
  let ?x = "chan_of g (dma_ch rb)"
  have ch: "dma_ch rb < GDMA_CHANNEL_MAX" using Suc.prems(1) by (simp add: Let_def)
  have "c_src_pos ?x \<noteq> c_src_pause ?x"
    using play_room [OF Suc.prems(1)] Suc.prems(2) by (auto simp: src_room_def loop_room_def)
  then obtain b where b: "buf_get (address rb) (unat (src_pos rb g)) 1 = Some [b]"
    "play_contents (rb, g) = b # play_contents (rb, src_next (dma_ch rb) g)" and inv: "play_inv (rb, src_next (dma_ch rb) g)"
    using send_byte [OF Suc.prems(1)] by blast
  have "n \<le> length (play_contents (rb, src_next (dma_ch rb) g))" using Suc.prems(2) b(2) by simp
  from Suc.IH [OF inv this] obtain g' p where
    "copy_out n rb (src_next (dma_ch rb) g) = Some (take n (play_contents (rb, src_next (dma_ch rb) g)), g')"
    "play_inv (rb, g')" "play_contents (rb, g') = drop n (play_contents (rb, src_next (dma_ch rb) g))"
    "chan_of g' (dma_ch rb) = (chan_of (src_next (dma_ch rb) g) (dma_ch rb))\<lparr>c_src_pos := p\<rparr>"
    by blast
  then show ?case
    using b(1) ch unfolding b(2)
    by (auto simp: src_pos_def chan_of_src_next Let_def simp del: play_contents.simps play_inv.simps)
qed

lemma dma_send_some:
  assumes "play_inv (rb, g)" "pauses_src mv"
  shows "\<exists>k g' p. dma_send mv rb g = Some (take k (play_contents (rb, g)), g') \<and> play_inv (rb, g')
     \<and> play_contents (rb, g') = drop k (play_contents (rb, g))
     \<and> chan_of g' (dma_ch rb) = (chan_of g (dma_ch rb))\<lparr>c_src_pos := p\<rparr>
     \<and> (\<not> c_enabled (c_conf (chan_of g (dma_ch rb))) \<longrightarrow> g' = g)"
proof (cases "c_enabled (c_conf (chan_of g (dma_ch rb)))")
  case True
  have "mv (chan_of g (dma_ch rb)) \<le> length (play_contents (rb, g))"
    using assms(2) play_room [OF assms(1)] by (metis pauses_src_def)
  from copy_out_some [OF assms(1) this] show ?thesis
    using True by (auto simp: dma_send_def Let_def simp del: play_contents.simps play_inv.simps)
next
  case False
  then show ?thesis
    using assms(1) by (auto simp: dma_send_def intro!: exI [of _ 0] exI [of _ "c_src_pos (chan_of g (dma_ch rb))"]
        simp del: play_contents.simps play_inv.simps)
qed

lemma rb_write_frame:
  "rb_write rb buffer sz count = Some (n, rb') \<Longrightarrow> rp rb' = rp rb \<and> (n \<noteq> 0 \<longrightarrow> wp rb' < capacity rb' \<or> rp rb' = 0 \<or> capacity rb' = 0)"
  by (auto simp: rb_write_def Let_def not_le word_gt_0 split: Option.bind_split_asm if_split_asm)

lemma rb_read_frame:
  "rb_read rb sz count = Some (n, bs, rb') \<Longrightarrow> address rb' = address rb \<and> wp rb' = wp rb \<and> capacity rb' = capacity rb"
  by (auto simp: rb_read_def Let_def split: Option.bind_split_asm if_split_asm)

lemma ring_ctrl_7221u:
  "ring_ctrl SOC_BK7221U CMD_GDMA_GET_SRC_READ_ADDR ch v g = Some (c_src_pos (chan_of g ch), g)"
  "ring_ctrl SOC_BK7221U CMD_GDMA_GET_DST_WRITE_ADDR ch v g = Some (c_dst_pos (chan_of g ch), g)"
  "ring_ctrl SOC_BK7221U CMD_GDMA_SET_SRC_PAUSE_ADDR ch v g = Some (ICU_SUCCESS, gdma_set_src_pause_addr ch v g)"
  "ring_ctrl SOC_BK7221U CMD_GDMA_SET_DST_PAUSE_ADDR ch v g = Some (ICU_SUCCESS, gdma_set_dest_pause_addr ch v g)"
  "ring_ctrl chip CMD_GDMA_SET_DMA_ENABLE ch v g = Some (ICU_SUCCESS, gdma_set_dma_en ch v g)"
  by (simp_all add: ring_ctrl_def gdma_ctrl_def en_cfg_addr_def pause_ctrl_def ctrl_set_def ctrl_get_def get_of_chan)

text \<open>Enabling a channel.\<close>

lemma gdma_get_dma_en_0: "gdma_get_dma_en ch g = 0 \<longleftrightarrow> \<not> c_enabled (c_conf (chan_of g ch))"
  by (simp add: gdma_get_dma_en_def GDMA_X_DMA_EN_def chan_of_def conf_of_def and_one_eq bit_0 even_iff_mod_2_eq_zero)

definition enable_state :: "'f dma_engine \<Rightarrow> u32 \<Rightarrow> u32 \<Rightarrow> 'f gdma \<Rightarrow> 'f gdma" where
  "enable_state E ch v g =
     (let g' = gdma_set_dma_en ch v g in if \<not> c_enabled (c_conf (chan_of g ch)) \<and> v \<noteq> 0 then E ch g' else g')"

lemma ring_enable_state: "ch < GDMA_CHANNEL_MAX \<Longrightarrow> ring_enable E chip ch v g = Some (ICU_SUCCESS, enable_state E ch v g)"
  by (simp add: ring_enable_def ring_ctrl_7221u enable_state_def gdma_get_dma_en_0 chan_of_flag)

lemma chan_of_enable_state:
  assumes "ch < GDMA_CHANNEL_MAX" "starts_over E"
  shows "chan_of (enable_state E ch v g) ch =
    (let x = chan_of g ch; y = c_conf_update (c_enabled_update (\<lambda>_. v \<noteq> 0)) x in
     if \<not> c_enabled (c_conf x) \<and> v \<noteq> 0 then y\<lparr>c_src_pos := c_src_start x, c_dst_pos := c_dst_start x\<rparr> else y)"
  using assms by (simp add: enable_state_def starts_over_def chan_of_flag Let_def)

text \<open>After an accepted block the write position is inside the ring: the safe interval keeps it from the end.\<close>

lemma write_pos_less:
  assumes inv: "rb_inv r" and n: "sz * count \<noteq> 0" "unat (sz * count) \<le> unat (rb_get_free_size r)"
    and rr: "rb_write r buffer sz count = Some (sz * count, rr)" "rb_inv rr" "capacity rr = capacity r"
      "rb_contents rr = rb_contents r @ take (unat (sz * count)) buffer"
    and src: "unat (sz * count) \<le> length buffer" and r: "rp r < capacity r"
  shows "wp rr < capacity rr"
proof (rule ccontr)
  assume full: "\<not> wp rr < capacity rr"
  then have "rp rr = 0" using rb_write_frame [OF rr(1)] n(1) rr(3) r by (auto simp: word_less_nat_alt)
  then have "unat (capacity r) \<le> length (rb_contents rr)"
    using length_rb_contents [OF rr(2)] full rr(3) by (simp add: word_less_nat_alt)
  moreover have "0 < unat (sz * count)" using n(1) by (simp add: unat_gt_0)
  ultimately show False
    using n(2) rb_free_nat [OF inv] length_rb_contents [OF inv] rr(4) src rb_invD [OF inv] by (simp split: if_split_asm)
qed

lemma write_dma_frame:
  "rb_write_dma_read SOC_BK7221U rb bs sz count g = Some (k, rb', g') \<Longrightarrow>
   dma_ch rb' = dma_ch rb \<and> capacity rb' = capacity rb \<and> rb_base rb' = rb_base rb
   \<and> (g' = g \<or> (\<exists>v. g' = gdma_set_src_pause_addr (dma_ch rb) v g))"
  by (auto simp: rb_write_dma_read_def Let_def ring_ctrl_7221u split: Option.bind_split_asm if_split_asm)

lemma play_write:
  assumes inv: "play_inv (rb, g)" and n: "unat (sz * count) + 4 < 4294967296" and src: "unat (sz * count) \<le> length buffer"
  shows "\<exists>k rb' g'. rb_write_dma_read SOC_BK7221U rb buffer sz count g = Some (k, rb', g') \<and> play_inv (rb', g')
    \<and> play_contents (rb', g') = play_contents (rb, g) @ take (unat k) buffer
    \<and> k = (if unat (sz * count) \<le> unat (rb_get_free_size (play_ring rb g)) then sz * count else 0)"
proof (cases "sz * count = 0")
  case True
  then show ?thesis using inv by (simp add: rb_write_dma_read_def del: play_contents.simps play_inv.simps)
next
  case False
  let ?x = "chan_of g (dma_ch rb)"
  define q where "q = rb\<lparr>rp := src_pos rb g\<rparr>"
  have q: "ring_of q = play_ring rb g" "dma_ch q = dma_ch rb" "rb_base q = rb_base rb"
    by (simp_all add: q_def play_ring_def)
  have ch: "dma_ch rb < GDMA_CHANNEL_MAX" using inv by (simp add: Let_def)
  have eq: "rb_write_dma_read SOC_BK7221U rb buffer sz count g = do {
      (n, rr) \<leftarrow> rb_write (play_ring rb g) buffer sz count;
      if n = 0 then Some (0, q, g)
      else Some (n, ring_into q rr, gdma_set_src_pause_addr (dma_ch rb) (rb_base rb + wp rr) g) }"
    using rb_write_dma_read_eq [OF False n ring_ctrl_7221u(1), where rb = rb and g = g and buffer = buffer] play_inv_ring [OF inv]
    by (simp add: q_def src_pos_def play_ring_def Let_def ring_ctrl_7221u cong: if_cong)
  note I = play_inv_ring [OF inv]
  show ?thesis
  proof (cases "unat (sz * count) \<le> unat (rb_get_free_size (play_ring rb g))")
    case True
    obtain rr where rr: "rb_write (play_ring rb g) buffer sz count = Some (sz * count, rr)" "rb_inv rr"
      "rb_contents rr = play_contents (rb, g) @ take (unat (sz * count)) buffer" "capacity rr = capacity rb"
      using rb_write_ok [OF I False n True src] by auto
    let ?g = "gdma_set_src_pause_addr (dma_ch rb) (rb_base rb + wp rr) g"
    have pos: "rp rr = src_pos rb g" "src_pos (ring_into q rr) ?g = src_pos rb g"
      using rb_write_frame [OF rr(1)] by (simp_all add: src_pos_def q chan_of_addr ch)
    have "wp rr < capacity rr"
      using write_pos_less [OF I False True rr(1,2) _ _ src] rr(3,4) inv by (simp add: Let_def)
    then have "play_inv (ring_into q rr, ?g)"
      using inv rr(2,4) pos by (simp add: Let_def chan_of_addr ch q rb_inv_def)
    moreover have "play_ring (ring_into q rr) ?g = rr"
      using pos by (simp add: play_ring_def ring_of_def)
    ultimately show ?thesis using eq rr False True by simp
  next
    case nofit: False
    have "rb_write (play_ring rb g) buffer sz count = Some (0, play_ring rb g)"
      using rb_write_full [OF I n] nofit by simp
    moreover have "play_inv (q, g)" "play_contents (q, g) = play_contents (rb, g)"
      using inv by (simp_all add: q_def Let_def src_pos_def play_ring_def)
    ultimately show ?thesis using eq nofit by simp
  qed
qed

text \<open>An enabled channel that moves as much as it may sends everything.\<close>

lemma dma_send_all:
  assumes "play_inv (rb, g)" "c_enabled (c_conf (chan_of g (dma_ch rb)))"
  shows "\<exists>g'. dma_send src_room rb g = Some (play_contents (rb, g), g')"
  using copy_out_some [OF assms(1) order_refl] play_room [OF assms(1)] assms(2)
  by (auto simp: dma_send_def Let_def simp del: play_contents.simps play_inv.simps)

section \<open>Recording\<close>

definition dst_pos :: "RB_DMA_ST \<Rightarrow> 'f gdma \<Rightarrow> u32" where
  "dst_pos rb g = c_dst_pos (chan_of g (dma_ch rb)) - rb_base rb"

definition record_ring :: "RB_DMA_ST \<Rightarrow> 'f gdma \<Rightarrow> RB_ST" where
  "record_ring rb g = ring_of (rb\<lparr>wp := dst_pos rb g\<rparr>)"

fun record_contents :: "RB_DMA_ST \<times> 'f gdma \<Rightarrow> byte list" where
  "record_contents (rb, g) = rb_contents (record_ring rb g)"

text \<open>The distance of four bytes that the pause address keeps.\<close>

fun record_inv :: "RB_DMA_ST \<times> 'f gdma \<Rightarrow> bool" where
  "record_inv (rb, g) \<longleftrightarrow>
     (let x = chan_of g (dma_ch rb) in
      dma_ch rb < GDMA_CHANNEL_MAX \<and> length (address rb) = unat (capacity rb) \<and> rp rb \<le> capacity rb
      \<and> dst_pos rb g < capacity rb \<and> length (record_contents (rb, g)) + 4 \<le> unat (capacity rb)
      \<and> c_dst_pause x = pause_after_read rb \<and> c_dst_loop (c_conf x) \<and> c_dst_loop_start x = rb_base rb
      \<and> c_dst_loop_end x = rb_base rb + capacity rb)"

lemma record_ring_sel [simp]:
  "address (record_ring rb g) = address rb" "capacity (record_ring rb g) = capacity rb" "wp (record_ring rb g) = dst_pos rb g"
  "rp (record_ring rb g) = rp rb"
  by (simp_all add: record_ring_def)

lemma record_inv_ring: "record_inv (rb, g) \<Longrightarrow> rb_inv (record_ring rb g)"
  by (auto simp: rb_inv_def Let_def)

lemma record_contents_ring: "record_contents (rb, g) = ring (address rb) (unat (dst_pos rb g)) (unat (rp rb))"
  by (simp add: rb_contents_ring)

lemma pause_pos:
  assumes "rp rb \<le> capacity rb" "4 \<le> unat (capacity rb)"
  shows "unat (pause_after_read rb - rb_base rb) =
    (if 4 \<le> unat (rp rb) then unat (rp rb) - 4 else unat (capacity rb) + unat (rp rb) - 4)"
proof (cases "RWP_SAFE_INTERVAL \<le> rp rb")
  case True
  then have "pause_after_read rb - rb_base rb = rp rb - 4" by (simp add: pause_after_read_def RWP_SAFE_INTERVAL_def)
  then show ?thesis using True by (simp add: unat_sub_no_wrap RWP_SAFE_INTERVAL_def word_le_nat_alt)
next
  case False
  then have "pause_after_read rb - rb_base rb = capacity rb - (4 - rp rb)"
    by (simp add: pause_after_read_def RWP_SAFE_INTERVAL_def)
  moreover have "unat (4 - rp rb) = 4 - unat (rp rb)"
    using False by (simp add: unat_sub_no_wrap RWP_SAFE_INTERVAL_def word_le_nat_alt)
  ultimately show ?thesis
    using False assms by (simp add: unat_sub_no_wrap RWP_SAFE_INTERVAL_def word_le_nat_alt)
qed

lemma receive_byte:
  assumes inv: "record_inv (rb, g)" and go: "c_dst_pos (chan_of g (dma_ch rb)) \<noteq> c_dst_pause (chan_of g (dma_ch rb))"
  shows "\<exists>mem. buf_put (address rb) (unat (dst_pos rb g)) [b] = Some mem \<and> record_inv (rb\<lparr>address := mem\<rparr>, dst_next (dma_ch rb) g)
    \<and> record_contents (rb\<lparr>address := mem\<rparr>, dst_next (dma_ch rb) g) = record_contents (rb, g) @ [b]"
proof -
  let ?x = "chan_of g (dma_ch rb)" and ?w = "unat (dst_pos rb g)" and ?r = "unat (rp rb)" and ?c = "unat (capacity rb)"
  define mem where "mem = take ?w (address rb) @ [b] @ drop (?w + 1) (address rb)"
  have ch: "dma_ch rb < GDMA_CHANNEL_MAX" and le: "?w < ?c" "?r \<le> ?c" "length (record_contents (rb, g)) + 4 \<le> ?c"
    and len: "length (address rb) = ?c"
    and loop: "loop_next (c_dst_loop (c_conf ?x)) (c_dst_loop_start ?x) (c_dst_loop_end ?x) (c_dst_pos ?x)
      = loop_next True (rb_base rb) (rb_base rb + capacity rb) (c_dst_pos ?x)"
    and pause: "c_dst_pause ?x = pause_after_read rb"
    using inv by (auto simp: Let_def word_less_nat_alt word_le_nat_alt)
  have next_pos: "unat (dst_pos (rb\<lparr>address := mem\<rparr>) (dst_next (dma_ch rb) g)) = (if ?w + 1 = ?c then 0 else ?w + 1)"
    using loop_next_pos [OF le(1) [unfolded dst_pos_def]] loop
    by (simp add: dst_pos_def chan_of_dst_next [OF ch] Let_def)
  have ne: "unat (pause_after_read rb - rb_base rb) \<noteq> ?w"
    using go pause by (auto simp: dst_pos_def unat_eq)
  have room: "length (record_contents (rb, g)) + 5 \<le> ?c"
    using ne pause_pos [of rb] le length_rb_contents [OF record_inv_ring [OF inv]]
    by (auto simp: word_le_nat_alt split: if_split_asm)
  have cont: "record_contents (rb\<lparr>address := mem\<rparr>, dst_next (dma_ch rb) g) = record_contents (rb, g) @ [b]"
    using ring_store [of ?w "address rb" ?r b, folded mem_def] room le len
    by (simp add: record_contents_ring next_pos del: record_contents.simps)
  have "unat (dst_pos (rb\<lparr>address := mem\<rparr>) (dst_next (dma_ch rb) g)) < ?c" using next_pos le by auto
  moreover have "length (record_contents (rb\<lparr>address := mem\<rparr>, dst_next (dma_ch rb) g)) + 4 \<le> ?c"
    using room by (simp add: cont del: record_contents.simps)
  moreover have "length mem = ?c" using le len by (simp add: mem_def)
  ultimately have "record_inv (rb\<lparr>address := mem\<rparr>, dst_next (dma_ch rb) g)"
    using inv by (simp add: Let_def chan_of_dst_next word_less_nat_alt pause_after_read_def del: record_contents.simps)
  moreover have "buf_put (address rb) ?w [b] = Some mem" using le len by (simp add: buf_put_def mem_def)
  ultimately show ?thesis using cont by blast
qed

lemma record_room:
  assumes "record_inv (rb, g)"
  shows "dst_room (chan_of g (dma_ch rb)) + length (record_contents (rb, g)) + 4 = unat (capacity rb)"
proof -
  let ?p = "dst_pos rb g" and ?q = "pause_after_read rb - rb_base rb"
  have le: "rp rb \<le> capacity rb" "?p < capacity rb" "length (record_contents (rb, g)) + 4 \<le> unat (capacity rb)"
    using assms by (auto simp: Let_def simp del: record_contents.simps)
  have "dst_room (chan_of g (dma_ch rb)) = (if ?p \<le> ?q then unat (?q - ?p) else unat (capacity rb - ?p) + unat ?q)"
    using assms by (simp add: dst_room_def loop_room_def Let_def dst_pos_def)
  also have "\<dots> = (if unat ?p \<le> unat ?q then unat ?q - unat ?p else unat (capacity rb) - unat ?p + unat ?q)"
    using le(2) by (simp add: word_le_nat_alt word_less_nat_alt unat_sub_no_wrap)
  finally show ?thesis
    using pause_pos [OF le(1)] le length_rb_contents [OF record_inv_ring [OF assms]]
    by (auto simp: word_le_nat_alt word_less_nat_alt split: if_split_asm)
qed

lemma copy_in_some:
  "record_inv (rb, g) \<Longrightarrow> length bs \<le> dst_room (chan_of g (dma_ch rb)) \<Longrightarrow>
   \<exists>rb' g'. copy_in bs rb g = Some (rb', g') \<and> record_inv (rb', g')
     \<and> record_contents (rb', g') = record_contents (rb, g) @ bs \<and> dma_ch rb' = dma_ch rb"
proof (induction bs arbitrary: rb g)
  case Nil
  then show ?case by simp
next
  case (Cons b bs)
  let ?x = "chan_of g (dma_ch rb)"
  have "c_dst_pos ?x \<noteq> c_dst_pause ?x" using Cons.prems(2) by (auto simp: dst_room_def loop_room_def)
  then obtain mem where mem: "buf_put (address rb) (unat (dst_pos rb g)) [b] = Some mem"
    "record_inv (rb\<lparr>address := mem\<rparr>, dst_next (dma_ch rb) g)"
    "record_contents (rb\<lparr>address := mem\<rparr>, dst_next (dma_ch rb) g) = record_contents (rb, g) @ [b]"
    using receive_byte [OF Cons.prems(1)] by blast
  have "length bs \<le> dst_room (chan_of (dst_next (dma_ch rb) g) (dma_ch (rb\<lparr>address := mem\<rparr>)))"
    using record_room [OF mem(2)] record_room [OF Cons.prems(1)] mem(3) Cons.prems(2)
    by (simp del: record_contents.simps record_inv.simps)
  from Cons.IH [OF mem(2) this] show ?case
    using mem(1) unfolding mem(3) by (auto simp: dst_pos_def simp del: record_contents.simps record_inv.simps)
qed

lemma dma_receive_some:
  assumes "record_inv (rb, g)" "pauses_dst mv"
  shows "\<exists>k rb' g'. dma_receive mv d rb g = Some (k, rb', g') \<and> record_inv (rb', g')
     \<and> record_contents (rb', g') = record_contents (rb, g) @ take k d \<and> dma_ch rb' = dma_ch rb"
proof -
  let ?x = "chan_of g (dma_ch rb)"
  define k where "k = (if c_enabled (c_conf ?x) then min (mv ?x) (length d) else 0)"
  have "mv ?x \<le> dst_room ?x" using assms(2) by (simp add: pauses_dst_def)
  then have "length (take k d) \<le> dst_room ?x" by (auto simp: k_def)
  from copy_in_some [OF assms(1) this] show ?thesis
    by (auto simp: dma_receive_def k_def [symmetric] Let_def simp del: record_contents.simps record_inv.simps)
qed

lemma ring_into_wp [simp]: "ring_into (rb\<lparr>wp := w\<rparr>) r = ring_into rb r"
  by (simp add: ring_into_def)

lemma record_read:
  assumes inv: "record_inv (rb, g)"
  shows "\<exists>k rb' g'. rb_read_dma_write SOC_BK7221U rb sz count g = Some (k, take (unat k) (record_contents (rb, g)), rb', g')
    \<and> record_inv (rb', g') \<and> record_contents (rb', g') = drop (unat k) (record_contents (rb, g))
    \<and> unat k = min (unat (sz * count)) (length (record_contents (rb, g)))"
proof (cases "sz * count = 0")
  case True
  then show ?thesis using inv by (simp add: rb_read_dma_write_def del: record_contents.simps record_inv.simps)
next
  case False
  define q where "q = rb\<lparr>wp := dst_pos rb g\<rparr>"
  have q: "ring_of q = record_ring rb g" "dma_ch q = dma_ch rb" "rb_base q = rb_base rb"
    by (simp_all add: q_def record_ring_def)
  have ch: "dma_ch rb < GDMA_CHANNEL_MAX" using inv by (simp add: Let_def)
  define k where "k = min (unat (sz * count)) (length (record_contents (rb, g)))"
  have k: "unat (of_nat k :: u32) = k"
    using unat_u32 [of "sz * count"] by (simp add: k_def unat_of_nat_small)
  obtain rr where rr: "rb_read (record_ring rb g) sz count = Some (of_nat k, take k (record_contents (rb, g)), rr)" "rb_inv rr"
    "rb_contents rr = drop k (record_contents (rb, g))" "capacity rr = capacity rb"
    using rb_read_spec [OF record_inv_ring [OF inv], of sz count] by (auto simp: k_def)
  note fr = rb_read_frame [OF rr(1)]
  let ?g = "gdma_set_dest_pause_addr (dma_ch rb) (pause_after_read (ring_into q rr)) g"
  have eq: "rb_read_dma_write SOC_BK7221U rb sz count g = Some (of_nat k, take k (record_contents (rb, g)), ring_into q rr, ?g)"
    using rr(1) by (simp add: rb_read_dma_write_eq [OF False] ring_ctrl_7221u record_ring_def q_def dst_pos_def Let_def)
  have pos: "dst_pos (ring_into q rr) ?g = dst_pos rb g" by (simp add: dst_pos_def q chan_of_addr ch)
  have ring: "record_ring (ring_into q rr) ?g = rr" using fr pos by (simp add: record_ring_def ring_of_def)
  have "record_inv (ring_into q rr, ?g)"
    using inv rr(2,4) fr pos by (auto simp: Let_def chan_of_addr ch q rb_inv_def ring rr(3) simp del: record_contents.simps
        simp: record_contents.simps [of "ring_into q rr"])
  then show ?thesis using eq k rr(3) by (auto simp: ring k_def)
qed

end
