(* ===== verification/Audio_Dma.thy ===== *)
theory Audio_Dma
  imports Ring_Dma
begin

text \<open>
  The data path of the audio driver: \<open>audio_dac_write\<close> and \<open>audio_adc_read\<close> and the functions that start
  and stop the DMA channels (\<open>driver/audio/audio_dac.c\<close>, \<open>driver/audio/audio_adc.c\<close>). Of \<open>audio_dac_open\<close> and
  \<open>audio_adc_open\<close> only the lines that set up the DMA channel and the ring are here; the rest of the two files
  programs the analog registers. \<open>AUD_USE_EXT_PA\<close> is 0.

  The union of the two rings is two components of the state, of which the mode selects one. The address 0 is
  \<open>NULL\<close>; the enable bits of \<open>AUDIO_CONFIG\<close> are components.
\<close>

datatype aud_status = AUD_STA_CLOSED | AUD_STA_OPENED | AUD_STA_PAUSE | AUD_STA_PLAYING

definition AUDIO_BASE :: "soc \<Rightarrow> u32" where
  "AUDIO_BASE chip = (if chip \<noteq> SOC_BK7252N then 0x00802B00 else 0x00A06000)"

definition AUD_ADC_FIFO_PORT :: "soc \<Rightarrow> u32" where "AUD_ADC_FIFO_PORT chip = AUDIO_BASE chip + 0x11 * 4"
definition AUD_DAC_FIFO_PORT :: "soc \<Rightarrow> u32" where "AUD_DAC_FIFO_PORT chip = AUDIO_BASE chip + 0x12 * 4"

section \<open>Playing\<close>

definition AUD_DAC_DEF_DMA_CHANNEL :: u32 where "AUD_DAC_DEF_DMA_CHANNEL = 1"

record 'f aud_dac =
  dac_buf :: u32
  dac_buf_len :: u16
  dac_channels :: u16
  dac_dma_mode :: u16
  dac_status :: aud_status
  dac_need_write_len :: u32
  dac_has_callback :: bool
  dac_rb :: RB_ST
  dac_rb_dma :: RB_DMA_ST
  dac_enable_bit :: bool
  dac_gdma :: "'f gdma"
  dac_callbacks :: "u32 list"

definition dac_ctrl :: "soc \<Rightarrow> gdma_cmd \<Rightarrow> u32 \<Rightarrow> 'f aud_dac \<Rightarrow> 'f aud_dac option" where
  "dac_ctrl chip cmd v d = do {
     (r, g) \<leftarrow> ring_ctrl chip cmd AUD_DAC_DEF_DMA_CHANNEL v (dac_gdma d);
     Some (d\<lparr>dac_gdma := g\<rparr>) }"

definition dac_enable :: "'f dma_engine \<Rightarrow> soc \<Rightarrow> u32 \<Rightarrow> 'f aud_dac \<Rightarrow> 'f aud_dac option" where
  "dac_enable E chip v d = do {
     (r, g) \<leftarrow> ring_enable E chip AUD_DAC_DEF_DMA_CHANNEL v (dac_gdma d);
     Some (d\<lparr>dac_gdma := g\<rparr>) }"

text \<open>The handler of the channel is \<open>audio_dac_dma_handler\<close>, the value \<open>h\<close>.\<close>

definition audio_dac_dma_cfg :: "soc \<Rightarrow> 'f \<Rightarrow> 'f aud_dac \<Rightarrow> 'f GDMACFG_TPYES_ST" where
  "audio_dac_dma_cfg chip h d =
     gdma_cfg_zero\<lparr>dstdat_width := if dac_channels d = 1 then 16 else 32, srcdat_width := 32, dstptr_incr := 0,
       srcptr_incr := 1, src_start_addr := dac_buf d, dst_start_addr := AUD_DAC_FIFO_PORT chip,
       channel := AUD_DAC_DEF_DMA_CHANNEL, prio := 0, u0 := dac_buf d, u1 := dac_buf d + ucast (dac_buf_len d),
       fin_handler := Some h, src_module := 0, dst_module := 2\<rparr>"

definition audio_dac_config_dma :: "soc \<Rightarrow> 'f \<Rightarrow> 'f aud_dac \<Rightarrow> 'f aud_dac option" where
  "audio_dac_config_dma chip h d =
     (if dac_buf d = 0 then Some d
      else do {
        (r, g) \<leftarrow> gdma_ctrl chip (\<lambda>_ g. g) CMD_GDMA_CFG_TYPE4 en_cfg_addr (PARM_TYPES (audio_dac_dma_cfg chip h d)) (dac_gdma d);
        let d = d\<lparr>dac_gdma := g, dac_need_write_len := ucast (dac_buf_len d div 4)\<rparr>;
        dac_ctrl chip CMD_GDMA_SET_TRANS_LENGTH (ucast (dac_buf_len d div 4)) d })"

definition audio_dac_set_dma :: "'f dma_engine \<Rightarrow> soc \<Rightarrow> u32 \<Rightarrow> 'f aud_dac \<Rightarrow> 'f aud_dac option" where
  "audio_dac_set_dma E chip enable = dac_enable E chip (if enable \<noteq> 0 then 1 else 0)"

definition audio_dac_eixt_dma :: "'f dma_engine \<Rightarrow> soc \<Rightarrow> 'f aud_dac \<Rightarrow> 'f aud_dac option" where
  "audio_dac_eixt_dma E chip = dac_enable E chip 0"

text \<open>The lines of \<open>audio_dac_open\<close> in DMA mode; \<open>mem\<close> is the memory at \<open>buf\<close>, \<open>cb\<close> whether there is a callback.\<close>

definition audio_dac_open_dma :: "'f dma_engine \<Rightarrow> soc \<Rightarrow> 'f \<Rightarrow> bool \<Rightarrow> byte list \<Rightarrow> 'f aud_dac \<Rightarrow> 'f aud_dac option" where
  "audio_dac_open_dma E chip h cb mem d = do {
     d \<leftarrow> audio_dac_config_dma chip h d;
     let d = d\<lparr>dac_has_callback := cb\<rparr>;
     (rb, g) \<leftarrow> rb_init_dma_read E chip (dac_rb_dma d) (dac_buf d) mem (ucast (dac_buf_len d)) AUD_DAC_DEF_DMA_CHANNEL (dac_gdma d);
     Some (d\<lparr>dac_rb_dma := rb, dac_gdma := g, dac_status := AUD_STA_OPENED\<rparr>) }"

definition audio_dac_write :: "'f dma_engine \<Rightarrow> soc \<Rightarrow> byte list \<Rightarrow> u32 \<Rightarrow> 'f aud_dac \<Rightarrow> (u32 \<times> 'f aud_dac) option" where
  "audio_dac_write E chip user_buf count d =
     (if dac_status d = AUD_STA_CLOSED then Some (0, d)
      else if dac_dma_mode d \<noteq> 0 then do {
        (free_size, rb, g) \<leftarrow> rb_get_free_size_dma_read chip (dac_rb_dma d) (dac_gdma d);
        let d = d\<lparr>dac_rb_dma := rb, dac_gdma := g\<rparr>;
        if sint free_size < sint count then
          if dac_status d = AUD_STA_OPENED then do {
            d \<leftarrow> dac_ctrl chip CMD_GDMA_SET_TRANS_LENGTH (dac_need_write_len d) d;
            d \<leftarrow> audio_dac_set_dma E chip 1 d;
            Some (0, d\<lparr>dac_enable_bit := True, dac_status := AUD_STA_PLAYING\<rparr>) }
          else Some (0, d)
        else do {
          let free_size = count;
          (k, rb, g) \<leftarrow> rb_write_dma_read chip (dac_rb_dma d) user_buf free_size 1 (dac_gdma d);
          let d = d\<lparr>dac_rb_dma := rb, dac_gdma := g\<rparr>;
          Some (free_size, if dac_status d = AUD_STA_OPENED then d\<lparr>dac_need_write_len := free_size\<rparr> else d) } }
      else do {
        let free_size = rb_get_free_size (dac_rb d);
        let free_size = (if free_size > count then count else free_size);
        (k, rb) \<leftarrow> rb_write (dac_rb d) user_buf free_size 1;
        Some (free_size, d\<lparr>dac_rb := rb\<rparr>) })"

definition audio_dac_get_free_buf_size :: "soc \<Rightarrow> 'f aud_dac \<Rightarrow> (u32 \<times> 'f aud_dac) option" where
  "audio_dac_get_free_buf_size chip d =
     (if dac_status d \<noteq> AUD_STA_PLAYING then Some (0, d)
      else if dac_dma_mode d \<noteq> 0 then do {
        (free_size, rb, g) \<leftarrow> rb_get_free_size_dma_read chip (dac_rb_dma d) (dac_gdma d);
        Some (free_size, d\<lparr>dac_rb_dma := rb, dac_gdma := g\<rparr>) }
      else Some (rb_get_free_size (dac_rb d), d))"

definition audio_dac_pause :: "'f dma_engine \<Rightarrow> soc \<Rightarrow> 'f aud_dac \<Rightarrow> 'f aud_dac option" where
  "audio_dac_pause E chip d =
     (if dac_status d = AUD_STA_PAUSE then Some d
      else do {
        d \<leftarrow> (if dac_dma_mode d \<noteq> 0 then audio_dac_set_dma E chip 0 d else Some d);
        Some (d\<lparr>dac_enable_bit := False, dac_status := AUD_STA_PAUSE\<rparr>) })"

definition audio_dac_play :: "'f dma_engine \<Rightarrow> soc \<Rightarrow> 'f aud_dac \<Rightarrow> 'f aud_dac option" where
  "audio_dac_play E chip d =
     (if dac_status d = AUD_STA_PLAYING then Some d
      else do {
        d \<leftarrow> (if dac_dma_mode d \<noteq> 0 then audio_dac_set_dma E chip 1 d else Some d);
        Some (d\<lparr>dac_enable_bit := True, dac_status := AUD_STA_PLAYING\<rparr>) })"

text \<open>The calls of the callback are recorded with their argument.\<close>

definition audio_dac_dma_handler :: "soc \<Rightarrow> 'f aud_dac \<Rightarrow> 'f aud_dac option" where
  "audio_dac_dma_handler chip d = do {
     (free_size, rb, g) \<leftarrow> rb_get_free_size_dma_read chip (dac_rb_dma d) (dac_gdma d);
     let d = d\<lparr>dac_rb_dma := rb, dac_gdma := g\<rparr>;
     Some (if free_size \<ge> dac_need_write_len d \<and> dac_has_callback d
           then d\<lparr>dac_callbacks := dac_callbacks d @ [free_size]\<rparr> else d) }"

section \<open>Recording\<close>

definition AUD_ADC_DEF_DMA_CHANNEL :: u32 where "AUD_ADC_DEF_DMA_CHANNEL = 2"
definition AUD_ADC_MODE_DMA_BIT :: u8 where "AUD_ADC_MODE_DMA_BIT = push_bit 0 1"

record 'f aud_adc =
  adc_buf :: u32
  adc_buf_len :: u16
  adc_inter_thre :: u16
  adc_channels :: u8
  adc_mode :: u8
  adc_has_rx_cb :: bool
  adc_status :: aud_status
  adc_rb :: RB_ST
  adc_rb_dma :: RB_DMA_ST
  adc_enable_bit :: bool
  adc_gdma :: "'f gdma"
  adc_callbacks :: "u32 list"

definition adc_ctrl :: "soc \<Rightarrow> gdma_cmd \<Rightarrow> u32 \<Rightarrow> 'f aud_adc \<Rightarrow> 'f aud_adc option" where
  "adc_ctrl chip cmd v d = do {
     (r, g) \<leftarrow> ring_ctrl chip cmd AUD_ADC_DEF_DMA_CHANNEL v (adc_gdma d);
     Some (d\<lparr>adc_gdma := g\<rparr>) }"

definition adc_enable :: "'f dma_engine \<Rightarrow> soc \<Rightarrow> u32 \<Rightarrow> 'f aud_adc \<Rightarrow> 'f aud_adc option" where
  "adc_enable E chip v d = do {
     (r, g) \<leftarrow> ring_enable E chip AUD_ADC_DEF_DMA_CHANNEL v (adc_gdma d);
     Some (d\<lparr>adc_gdma := g\<rparr>) }"

definition adc_uses_callback :: "'f aud_adc \<Rightarrow> bool" where
  "adc_uses_callback d \<longleftrightarrow> adc_has_rx_cb d \<and> adc_inter_thre d \<noteq> 0"

definition audio_adc_dma_cfg :: "soc \<Rightarrow> 'f \<Rightarrow> 'f aud_adc \<Rightarrow> 'f GDMACFG_TPYES_ST" where
  "audio_adc_dma_cfg chip h d =
     gdma_cfg_zero\<lparr>dstdat_width := 32, srcdat_width := if adc_channels d = 1 then 16 else 32, dstptr_incr := 1,
       srcptr_incr := 0, src_start_addr := AUD_ADC_FIFO_PORT chip, dst_start_addr := adc_buf d,
       channel := AUD_ADC_DEF_DMA_CHANNEL, prio := 0, u0 := adc_buf d, u1 := adc_buf d + ucast (adc_buf_len d),
       fin_handler := if adc_uses_callback d then Some h else None, src_module := 2, dst_module := 0\<rparr>"

definition audio_adc_config_dma :: "soc \<Rightarrow> 'f \<Rightarrow> 'f aud_adc \<Rightarrow> 'f aud_adc option" where
  "audio_adc_config_dma chip h d =
     (if adc_buf d = 0 then Some d
      else do {
        (r, g) \<leftarrow> gdma_ctrl chip (\<lambda>_ g. g) CMD_GDMA_CFG_TYPE5 en_cfg_addr (PARM_TYPES (audio_adc_dma_cfg chip h d)) (adc_gdma d);
        let d = d\<lparr>adc_gdma := g\<rparr>;
        d \<leftarrow> adc_ctrl chip CMD_GDMA_SET_TRANS_LENGTH (ucast (if adc_uses_callback d then adc_inter_thre d else adc_buf_len d)) d;
        adc_ctrl chip CMD_GDMA_SET_DST_PAUSE_ADDR (adc_buf d) d })"

definition audio_adc_set_dma :: "'f dma_engine \<Rightarrow> soc \<Rightarrow> u32 \<Rightarrow> 'f aud_adc \<Rightarrow> 'f aud_adc option" where
  "audio_adc_set_dma E chip enable = adc_enable E chip (if enable \<noteq> 0 then 1 else 0)"

definition audio_adc_eixt_dma :: "'f dma_engine \<Rightarrow> soc \<Rightarrow> 'f aud_adc \<Rightarrow> 'f aud_adc option" where
  "audio_adc_eixt_dma E chip = adc_enable E chip 0"

definition audio_adc_open_dma :: "soc \<Rightarrow> 'f \<Rightarrow> byte list \<Rightarrow> 'f aud_adc \<Rightarrow> 'f aud_adc option" where
  "audio_adc_open_dma chip h mem d = do {
     d \<leftarrow> audio_adc_config_dma chip h d;
     (rb, g) \<leftarrow> rb_init_dma_write chip (adc_rb_dma d) (adc_buf d) mem (ucast (adc_buf_len d)) AUD_ADC_DEF_DMA_CHANNEL (adc_gdma d);
     Some (d\<lparr>adc_rb_dma := rb, adc_gdma := g, adc_status := AUD_STA_OPENED\<rparr>) }"

text \<open>The result holds the number that the function returns and the bytes copied to the user's buffer.\<close>

definition audio_adc_read :: "soc \<Rightarrow> u32 \<Rightarrow> 'f aud_adc \<Rightarrow> (u32 \<times> byte list \<times> 'f aud_adc) option" where
  "audio_adc_read chip count d =
     (if adc_status d \<noteq> AUD_STA_PLAYING then Some (0, [], d)
      else if adc_mode d AND AUD_ADC_MODE_DMA_BIT \<noteq> 0 then do {
        (fill_size, rb, g) \<leftarrow> rb_get_fill_size_dma_write chip (adc_rb_dma d) (adc_gdma d);
        let fill_size = (if fill_size > count then count else fill_size);
        (k, bs, rb, g) \<leftarrow> rb_read_dma_write chip rb fill_size 1 g;
        Some (fill_size, bs, d\<lparr>adc_rb_dma := rb, adc_gdma := g\<rparr>) }
      else do {
        let fill_size = rb_get_fill_size (adc_rb d);
        let fill_size = (if fill_size > count then count else fill_size);
        (k, bs, rb) \<leftarrow> rb_read (adc_rb d) fill_size 1;
        Some (fill_size, bs, d\<lparr>adc_rb := rb\<rparr>) })"

definition audio_adc_get_fill_buf_size :: "soc \<Rightarrow> 'f aud_adc \<Rightarrow> (u32 \<times> 'f aud_adc) option" where
  "audio_adc_get_fill_buf_size chip d =
     (if adc_status d \<noteq> AUD_STA_PLAYING then Some (0, d)
      else if adc_mode d AND AUD_ADC_MODE_DMA_BIT \<noteq> 0 then do {
        (fill_size, rb, g) \<leftarrow> rb_get_fill_size_dma_write chip (adc_rb_dma d) (adc_gdma d);
        Some (fill_size, d\<lparr>adc_rb_dma := rb, adc_gdma := g\<rparr>) }
      else Some (rb_get_fill_size (adc_rb d), d))"

definition audio_adc_pause :: "'f dma_engine \<Rightarrow> soc \<Rightarrow> 'f aud_adc \<Rightarrow> 'f aud_adc option" where
  "audio_adc_pause E chip d =
     (if adc_status d = AUD_STA_PAUSE then Some d
      else do {
        d \<leftarrow> (if adc_mode d AND AUD_ADC_MODE_DMA_BIT \<noteq> 0 then audio_adc_set_dma E chip 0 d else Some d);
        Some (d\<lparr>adc_enable_bit := False, adc_status := AUD_STA_PAUSE\<rparr>) })"

definition audio_adc_play :: "'f dma_engine \<Rightarrow> soc \<Rightarrow> 'f aud_adc \<Rightarrow> 'f aud_adc option" where
  "audio_adc_play E chip d =
     (if adc_status d = AUD_STA_PLAYING then Some d
      else do {
        d \<leftarrow> (if adc_mode d AND AUD_ADC_MODE_DMA_BIT \<noteq> 0 then audio_adc_set_dma E chip 1 d else Some d);
        Some (d\<lparr>adc_enable_bit := True, adc_status := AUD_STA_PLAYING\<rparr>) })"

definition audio_adc_dma_fin_handler :: "soc \<Rightarrow> 'f aud_adc \<Rightarrow> 'f aud_adc option" where
  "audio_adc_dma_fin_handler chip d =
     (if \<not> adc_uses_callback d then Some d
      else do {
        (fill_size, rb, g) \<leftarrow> rb_get_fill_size_dma_write chip (adc_rb_dma d) (adc_gdma d);
        let d = d\<lparr>adc_rb_dma := rb, adc_gdma := g\<rparr>;
        Some (if fill_size \<ge> ucast (adc_inter_thre d) then d\<lparr>adc_callbacks := adc_callbacks d @ [fill_size]\<rparr> else d) })"

end
