(* ===== verification/Audio_Dac_Props.thy ===== *)
theory Audio_Dac_Props
  imports Audio_Dma Ring_Dma_Props
begin

text \<open>
  Samples written with \<open>audio_dac_write\<close> are played in order: the locale of a pipe with a control, interpreted
  on the playing path in DMA mode. The driver writes the ring and the controller reads it. The controller is an
  argument: \<open>E\<close> what it does when a channel is enabled, \<open>mv\<close> how far it goes in a move. A pause is not among the
  operations, and the last lemma says why: on such a controller playing begins again at the start of the buffer.
\<close>

section \<open>Pipes with a control\<close>

text \<open>
  A pipe with further operations that leave the contents alone, such as starting and asking for the room: they
  may come between the others.
\<close>

locale controlled_pipe = byte_pipe inv contents block put get put_arg get_arg
  for inv :: "'s \<Rightarrow> bool" and contents and block :: "'p \<Rightarrow> byte list" and put and get :: "'n \<Rightarrow> 's \<Rightarrow> (byte list \<times> 's) option"
    and put_arg get_arg +
  fixes ctl :: "'c \<Rightarrow> 's \<Rightarrow> 's option"
    and ctl_arg :: "'c \<Rightarrow> bool"
  assumes ctl_some: "inv s \<Longrightarrow> ctl_arg c \<Longrightarrow> \<exists>s'. ctl c s = Some s' \<and> inv s' \<and> contents s' = contents s"
begin

fun run_ctl :: "(('p + 'n) + 'c) list \<Rightarrow> 's \<Rightarrow> (byte list \<times> byte list \<times> 's) option" where
  "run_ctl [] s = Some ([], [], s)"
| "run_ctl (Inl op # ops) s = do {
     (acc, out, s1) \<leftarrow> run [op] s;
     (acc', out', s2) \<leftarrow> run_ctl ops s1;
     Some (acc @ acc', out @ out', s2) }"
| "run_ctl (Inr c # ops) s = do { s1 \<leftarrow> ctl c s; run_ctl ops s1 }"

definition small_ctl :: "('p + 'n) + 'c \<Rightarrow> bool" where
  "small_ctl op = (case op of Inl op \<Rightarrow> small_op op | Inr c \<Rightarrow> ctl_arg c)"

lemma run_ctl_stream:
  "inv s \<Longrightarrow> list_all small_ctl ops \<Longrightarrow>
   \<exists>acc out s'. run_ctl ops s = Some (acc, out, s') \<and> inv s' \<and> contents s @ acc = out @ contents s'"
proof (induction ops arbitrary: s)
  case Nil
  then show ?case by simp
next
  case (Cons op ops)
  show ?case
  proof (cases op)
    case (Inl p)
    with Cons.prems have "list_all small_op [p]" by (simp add: small_ctl_def)
    then obtain acc out s1 where 1: "run [p] s = Some (acc, out, s1)" "inv s1" "contents s @ acc = out @ contents s1"
      using run_stream [OF Cons.prems(1)] by blast
    obtain acc' out' s2 where 2: "run_ctl ops s1 = Some (acc', out', s2)" "inv s2" "contents s1 @ acc' = out' @ contents s2"
      using Cons.IH [OF 1(2)] Cons.prems(2) by auto
    have "contents s @ acc @ acc' = (out @ out') @ contents s2" using 1(3) 2(3) by (metis append_assoc)
    then show ?thesis using Inl 1(1) 2(1,2) by auto
  next
    case (Inr c)
    with Cons.prems have "ctl_arg c" by (simp add: small_ctl_def)
    then show ?thesis using Inr ctl_some [OF Cons.prems(1), of c] Cons.IH Cons.prems(2) by fastforce
  qed
qed

end

section \<open>Playing\<close>

text \<open>The length of a block is an \<open>int\<close> for \<open>audio_dac_write\<close>.\<close>

definition int_limit :: nat where "int_limit = 2147483648"

fun dac_contents :: "'f aud_dac \<Rightarrow> byte list" where
  "dac_contents d = play_contents (dac_rb_dma d, dac_gdma d)"

text \<open>Before the first start the channel is off and its position the start of the buffer; afterwards it is on.\<close>

definition dac_state_ok :: "aud_status \<Rightarrow> RB_DMA_ST \<Rightarrow> 'f gdma \<Rightarrow> bool" where
  "dac_state_ok st rb g \<longleftrightarrow>
     (let x = chan_of g (dma_ch rb) in
      c_src_start x = rb_base rb
      \<and> (st = AUD_STA_OPENED \<and> \<not> c_enabled (c_conf x) \<and> src_pos rb g = 0 \<or> st = AUD_STA_PLAYING \<and> c_enabled (c_conf x)))"

definition dac_inv :: "'f aud_dac \<Rightarrow> bool" where
  "dac_inv d \<longleftrightarrow> dac_dma_mode d \<noteq> 0 \<and> play_inv (dac_rb_dma d, dac_gdma d) \<and> dma_ch (dac_rb_dma d) = AUD_DAC_DEF_DMA_CHANNEL
     \<and> unat (capacity (dac_rb_dma d)) < int_limit \<and> dac_state_ok (dac_status d) (dac_rb_dma d) (dac_gdma d)"

lemma dac_state_ok_rp [simp]: "dac_state_ok st (rb\<lparr>rp := v\<rparr>) g = dac_state_ok st rb g"
  by (simp add: dac_state_ok_def src_pos_def)

definition dac_put :: "'f dma_engine \<times> byte list \<Rightarrow> 'f aud_dac \<Rightarrow> (nat \<times> 'f aud_dac) option" where
  "dac_put p d =
     (case p of (E, bs) \<Rightarrow> do { (k, d) \<leftarrow> audio_dac_write E SOC_BK7221U bs (of_nat (length bs)) d; Some (unat k, d) })"

definition dac_send :: "('f dma_channel \<Rightarrow> nat) \<Rightarrow> 'f aud_dac \<Rightarrow> (byte list \<times> 'f aud_dac) option" where
  "dac_send mv d = do { (bs, g) \<leftarrow> dma_send mv (dac_rb_dma d) (dac_gdma d); Some (bs, d\<lparr>dac_gdma := g\<rparr>) }"

lemma channels_less: "AUD_DAC_DEF_DMA_CHANNEL < GDMA_CHANNEL_MAX" "AUD_ADC_DEF_DMA_CHANNEL < GDMA_CHANNEL_MAX"
  by (simp_all add: AUD_DAC_DEF_DMA_CHANNEL_def AUD_ADC_DEF_DMA_CHANNEL_def GDMA_CHANNEL_MAX_def)

lemma sint_nat:
  assumes "unat (w :: u32) < int_limit"
  shows "sint w = int (unat w)"
proof -
  have "int (unat w) < int 2147483648" using assms unfolding int_limit_def by (simp only: of_nat_less_iff)
  then have "uint w < 2 ^ 31" by simp
  moreover have "- (2 ^ 31) \<le> uint w" using order_trans [of "- (2 ^ 31)" 0 "uint w"] by simp
  ultimately have "signed_take_bit 31 (uint w) = uint w" by (intro signed_take_bit_int_eq_self)
  then show ?thesis by (simp add: sint_uint)
qed

lemma play_free_size:
  assumes "play_inv (rb, g)"
  shows "rb_get_free_size_dma_read SOC_BK7221U rb g = Some (rb_get_free_size (play_ring rb g), rb\<lparr>rp := src_pos rb g\<rparr>, g)"
    "play_inv (rb\<lparr>rp := src_pos rb g\<rparr>, g)" "play_contents (rb\<lparr>rp := src_pos rb g\<rparr>, g) = play_contents (rb, g)"
    "play_ring (rb\<lparr>rp := src_pos rb g\<rparr>) g = play_ring rb g"
  using assms
  by (simp_all add: rb_get_free_size_dma_read_def rb_get_free_size_def ring_ctrl_7221u Let_def src_pos_def play_ring_def)

lemma ring_ctrl_len: "ring_ctrl chip CMD_GDMA_SET_TRANS_LENGTH ch v g = Some (ICU_SUCCESS, gdma_set_transfer_length ch v g)"
  by (simp add: ring_ctrl_def gdma_ctrl_def en_cfg_addr_def ctrl_set_def)

text \<open>The first start.\<close>

lemma play_start:
  assumes inv: "play_inv (rb, g)" and ok: "dac_state_ok AUD_STA_OPENED rb g" and rb: "dma_ch rb = AUD_DAC_DEF_DMA_CHANNEL"
    and E: "starts_over E" and g1: "g1 = g \<or> g1 = gdma_set_transfer_length AUD_DAC_DEF_DMA_CHANNEL len g"
  shows "play_inv (rb, enable_state E AUD_DAC_DEF_DMA_CHANNEL 1 g1)"
    "play_contents (rb, enable_state E AUD_DAC_DEF_DMA_CHANNEL 1 g1) = play_contents (rb, g)"
    "dac_state_ok AUD_STA_PLAYING rb (enable_state E AUD_DAC_DEF_DMA_CHANNEL 1 g1)"
proof -
  let ?x = "chan_of g AUD_DAC_DEF_DMA_CHANNEL" and ?g = "enable_state E AUD_DAC_DEF_DMA_CHANNEL 1 g1"
  have x: "c_src_start ?x = rb_base rb" "\<not> c_enabled (c_conf ?x)" "c_src_pos ?x = rb_base rb"
    using ok rb by (auto simp: dac_state_ok_def Let_def src_pos_def)
  obtain l where "chan_of ?g AUD_DAC_DEF_DMA_CHANNEL =
      ?x\<lparr>c_conf := (c_conf ?x)\<lparr>c_enabled := True, c_len := l\<rparr>, c_src_pos := c_src_start ?x, c_dst_pos := c_dst_start ?x\<rparr>"
  proof (cases "g1 = g")
    case True
    then show ?thesis using x(2) by (intro that [of "c_len (c_conf ?x)"]) (simp add: chan_of_enable_state [OF channels_less(1) E] Let_def)
  next
    case False
    then show ?thesis
      using x(2) g1
      by (intro that [of "take_bit 16 (len - 1)"])
        (simp add: chan_of_enable_state [OF channels_less(1) E] chan_of_set [OF channels_less(1) channels_less(1)] Let_def)
  qed
  then show "play_inv (rb, ?g)" "play_contents (rb, ?g) = play_contents (rb, g)" "dac_state_ok AUD_STA_PLAYING rb ?g"
    using inv x rb by (simp_all add: Let_def src_pos_def play_ring_def dac_state_ok_def)
qed

text \<open>The signed comparison of the room with the length of a block is the unsigned one.\<close>

lemma dac_room:
  fixes count :: u32
  assumes "dac_inv d" "unat count < int_limit"
  defines "free \<equiv> rb_get_free_size (play_ring (dac_rb_dma d) (dac_gdma d))"
  shows "sint free < sint count \<longleftrightarrow> unat free < unat count"
proof -
  have "play_inv (dac_rb_dma d, dac_gdma d)" "unat (capacity (dac_rb_dma d)) < int_limit"
    using assms(1) by (auto simp: dac_inv_def simp del: play_inv.simps)
  then have "unat free < int_limit" using rb_fill_plus_free [OF play_inv_ring] by (fastforce simp: free_def)
  then show ?thesis using assms(2) by (simp only: sint_nat of_nat_less_iff)
qed

text \<open>A ring and a controller that keep the invariant may replace those of the player.\<close>

lemma dac_inv_set:
  "dac_inv d \<Longrightarrow> play_inv (rb, g) \<Longrightarrow> dac_state_ok (dac_status d) rb g \<Longrightarrow> dma_ch rb = AUD_DAC_DEF_DMA_CHANNEL \<Longrightarrow>
   capacity rb = capacity (dac_rb_dma d) \<Longrightarrow> dac_inv (d\<lparr>dac_rb_dma := rb, dac_gdma := g\<rparr>)"
  by (simp add: dac_inv_def del: play_inv.simps)

lemma dac_invD:
  assumes "dac_inv d"
  shows "play_inv (dac_rb_dma d, dac_gdma d)" "dma_ch (dac_rb_dma d) = AUD_DAC_DEF_DMA_CHANNEL" "dac_dma_mode d \<noteq> 0"
    "dac_state_ok (dac_status d) (dac_rb_dma d) (dac_gdma d)" "unat (capacity (dac_rb_dma d)) < int_limit"
    "dac_status d = AUD_STA_OPENED \<or> dac_status d = AUD_STA_PLAYING"
  using assms unfolding dac_inv_def dac_state_ok_def Let_def by blast+

abbreviation dac_free :: "'f aud_dac \<Rightarrow> u32" where
  "dac_free d \<equiv> rb_get_free_size (play_ring (dac_rb_dma d) (dac_gdma d))"

text \<open>A block that does not fit is refused; the first refusal starts the channel.\<close>

lemma dac_write_refused:
  assumes inv: "dac_inv d" and E: "starts_over E" and full: "unat (dac_free d) < unat count" "unat count < int_limit"
  shows "\<exists>d'. audio_dac_write E SOC_BK7221U bs count d = Some (0, d') \<and> dac_inv d' \<and> dac_contents d' = dac_contents d"
proof -
  define q where "q = (dac_rb_dma d)\<lparr>rp := src_pos (dac_rb_dma d) (dac_gdma d)\<rparr>"
  note I = dac_invD [OF inv]
  note F = play_free_size [OF I(1), folded q_def]
  have q: "dma_ch q = AUD_DAC_DEF_DMA_CHANNEL" "capacity q = capacity (dac_rb_dma d)" "dac_state_ok (dac_status d) q (dac_gdma d)"
    using I by (simp_all add: q_def)
  note less = dac_room [OF inv full(2)]
  show ?thesis
  proof (cases "dac_status d = AUD_STA_OPENED")
    case True
    then have ok: "dac_state_ok AUD_STA_OPENED q (dac_gdma d)" using q(3) by simp
    show ?thesis
      using play_start [OF F(2) ok q(1) E, of _ "dac_need_write_len d"] True I F full less q
      by (simp add: audio_dac_write_def dac_ctrl_def audio_dac_set_dma_def dac_enable_def ring_ctrl_len
          ring_enable_state [OF channels_less(1)] dac_inv_def del: play_contents.simps play_inv.simps)
  next
    case False
    then show ?thesis
      using dac_inv_set [OF inv F(2) q(3,1,2)] F I full less
      by (auto simp: audio_dac_write_def simp del: play_contents.simps play_inv.simps)
  qed
qed

lemma dac_write_accepted:
  assumes inv: "dac_inv d" and fits: "unat count \<le> unat (dac_free d)" and len: "unat count \<le> length bs" "unat count < int_limit"
  shows "\<exists>d'. audio_dac_write E SOC_BK7221U bs count d = Some (count, d') \<and> dac_inv d'
    \<and> dac_contents d' = dac_contents d @ take (unat count) bs"
proof -
  define q where "q = (dac_rb_dma d)\<lparr>rp := src_pos (dac_rb_dma d) (dac_gdma d)\<rparr>"
  note I = dac_invD [OF inv]
  note F = play_free_size [OF I(1), folded q_def]
  have q: "dma_ch q = AUD_DAC_DEF_DMA_CHANNEL" "capacity q = capacity (dac_rb_dma d)" "dac_state_ok (dac_status d) q (dac_gdma d)"
    using I by (simp_all add: q_def)
  have n: "unat (count * 1) + 4 < 4294967296" "unat (count * 1) \<le> length bs" using len by (simp_all add: int_limit_def)
  obtain rb g where w: "rb_write_dma_read SOC_BK7221U q bs count 1 (dac_gdma d) = Some (count, rb, g)" "play_inv (rb, g)"
    "play_contents (rb, g) = play_contents (q, dac_gdma d) @ take (unat count) bs"
    using play_write [OF F(2) n] fits F(4) by (auto simp del: play_contents.simps play_inv.simps)
  note fr = write_dma_frame [OF w(1)]
  have "dac_state_ok (dac_status d) rb g"
    using fr q(1,3) by (auto simp: dac_state_ok_def Let_def src_pos_def chan_of_addr [OF channels_less(1) channels_less(1)])
  from dac_inv_set [OF inv w(2) this] fr q show ?thesis
    using w F I fits dac_room [OF inv len(2)]
    by (auto simp: audio_dac_write_def dac_inv_def Let_def simp del: play_contents.simps play_inv.simps)
qed

lemma dac_write:
  assumes inv: "dac_inv d" and E: "starts_over E" and len: "unat count \<le> length bs" "unat count < int_limit"
  shows "\<exists>k d'. audio_dac_write E SOC_BK7221U bs count d = Some (k, d') \<and> dac_inv d'
    \<and> dac_contents d' = dac_contents d @ take (unat k) bs \<and> (k = 0 \<or> k = count)"
  using dac_write_refused [OF inv E _ len(2), of bs] dac_write_accepted [OF inv _ len, of E]
  by (cases "unat (dac_free d) < unat count") (auto simp: not_less simp del: dac_contents.simps)

text \<open>What else a client of the player calls, and the interrupt of the channel.\<close>

datatype dac_request = Dac_play | Dac_free_size | Dac_finished

fun dac_control :: "'f dma_engine \<times> dac_request \<Rightarrow> 'f aud_dac \<Rightarrow> 'f aud_dac option" where
  "dac_control (E, Dac_play) d = audio_dac_play E SOC_BK7221U d"
| "dac_control (E, Dac_free_size) d = map_option snd (audio_dac_get_free_buf_size SOC_BK7221U d)"
| "dac_control (E, Dac_finished) d = audio_dac_dma_handler SOC_BK7221U d"

lemma dac_play_ok:
  assumes inv: "dac_inv d" and E: "starts_over E"
  shows "\<exists>d'. audio_dac_play E SOC_BK7221U d = Some d' \<and> dac_inv d' \<and> dac_contents d' = dac_contents d"
proof (cases "dac_status d = AUD_STA_PLAYING")
  case True
  then show ?thesis using inv by (simp add: audio_dac_play_def)
next
  case False
  note I = dac_invD [OF inv]
  have ok: "dac_state_ok AUD_STA_OPENED (dac_rb_dma d) (dac_gdma d)" using False I(4,6) by simp
  show ?thesis
    using play_start [OF I(1) ok I(2) E, of "dac_gdma d"] I False
    by (simp add: audio_dac_play_def audio_dac_set_dma_def dac_enable_def ring_enable_state [OF channels_less(1)] dac_inv_def
        del: play_contents.simps play_inv.simps)
qed

lemma dac_control_ok:
  assumes inv: "dac_inv d" and E: "starts_over E"
  shows "\<exists>d'. dac_control (E, c) d = Some d' \<and> dac_inv d' \<and> dac_contents d' = dac_contents d"
proof (cases c)
  case Dac_play
  then show ?thesis using dac_play_ok [OF inv E] by simp
next
  case Dac_free_size
  then show ?thesis
    using inv play_free_size [OF dac_invD(1) [OF inv]] dac_invD(2,3,6) [OF inv]
    by (auto simp: audio_dac_get_free_buf_size_def dac_inv_def simp del: play_inv.simps play_contents.simps)
next
  case Dac_finished
  then show ?thesis
    using inv play_free_size [OF dac_invD(1) [OF inv]]
    by (simp add: audio_dac_dma_handler_def dac_inv_def Let_def del: play_inv.simps play_contents.simps)
qed

interpretation dac: byte_pipe dac_inv dac_contents snd dac_put dac_send "\<lambda>p. starts_over (fst p) \<and> length (snd p) < int_limit" pauses_src
proof (unfold_locales, goal_cases)
  case (1 d p)
  obtain E bs where p: "p = (E, bs)" by (cases p)
  have n: "unat (of_nat (length bs) :: u32) = length bs" using 1(2) p by (simp add: int_limit_def unat_of_nat_small)
  show ?case
    using dac_write [OF 1(1), of E "of_nat (length bs)" bs] 1(2) n p by (auto simp: dac_put_def simp del: dac_contents.simps)
next
  case (2 d mv)
  note I = dac_invD [OF 2(1)]
  obtain k g' p where s: "dma_send mv (dac_rb_dma d) (dac_gdma d) = Some (take k (dac_contents d), g')"
    "play_inv (dac_rb_dma d, g')" "play_contents (dac_rb_dma d, g') = drop k (dac_contents d)"
    "chan_of g' (dma_ch (dac_rb_dma d)) = (chan_of (dac_gdma d) (dma_ch (dac_rb_dma d)))\<lparr>c_src_pos := p\<rparr>"
    "\<not> c_enabled (c_conf (chan_of (dac_gdma d) (dma_ch (dac_rb_dma d)))) \<longrightarrow> g' = dac_gdma d"
    using dma_send_some [OF I(1) 2(2)] by (auto simp del: play_contents.simps play_inv.simps)
  have ok: "dac_state_ok (dac_status d) (dac_rb_dma d) g'"
  proof (cases "c_enabled (c_conf (chan_of (dac_gdma d) (dma_ch (dac_rb_dma d))))")
    case True
    then show ?thesis using I(4) by (simp add: dac_state_ok_def Let_def src_pos_def s(4))
  next
    case False
    then show ?thesis using I(4) s(5) by simp
  qed
  have "dac_send mv d = Some (take k (dac_contents d), d\<lparr>dac_gdma := g'\<rparr>)" by (simp add: dac_send_def s(1))
  moreover have "dac_inv (d\<lparr>dac_gdma := g'\<rparr>)" using I s(2) ok by (simp add: dac_inv_def del: play_inv.simps)
  moreover have "dac_contents (d\<lparr>dac_gdma := g'\<rparr>) = drop k (dac_contents d)" using s(3) by (simp del: play_contents.simps)
  ultimately show ?case by blast
qed

interpretation dacc: controlled_pipe dac_inv dac_contents snd dac_put dac_send
    "\<lambda>p. starts_over (fst p) \<and> length (snd p) < int_limit" pauses_src dac_control "\<lambda>p. starts_over (fst p)"
proof (unfold_locales, goal_cases)
  case (1 d p)
  then show ?case using dac_control_ok [of d "fst p" "snd p"] by simp
qed

text \<open>
  A run of the player with a controller \<open>E\<close>: \<open>Inl (Inl bs)\<close> is a call of \<open>audio_dac_write\<close> with the bytes \<open>bs\<close>,
  \<open>Inl (Inr mv)\<close> a move of the controller, \<open>Inr c\<close> one of the other operations. The result holds the bytes that the
  calls accepted and the bytes sent.
\<close>

fun dac_run :: "'f dma_engine \<Rightarrow> ((byte list + ('f dma_channel \<Rightarrow> nat)) + dac_request) list \<Rightarrow> 'f aud_dac
    \<Rightarrow> (byte list \<times> byte list \<times> 'f aud_dac) option" where
  "dac_run E [] d = Some ([], [], d)"
| "dac_run E (Inl (Inl bs) # ops) d = do {
     (k, d) \<leftarrow> audio_dac_write E SOC_BK7221U bs (of_nat (length bs)) d;
     (acc, out, d) \<leftarrow> dac_run E ops d;
     Some (take (unat k) bs @ acc, out, d) }"
| "dac_run E (Inl (Inr mv) # ops) d = do {
     (bs, g) \<leftarrow> dma_send mv (dac_rb_dma d) (dac_gdma d);
     (acc, out, d) \<leftarrow> dac_run E ops (d\<lparr>dac_gdma := g\<rparr>);
     Some (acc, bs @ out, d) }"
| "dac_run E (Inr c # ops) d = do { d \<leftarrow> dac_control (E, c) d; dac_run E ops d }"

definition dac_op_ok :: "(byte list + ('f dma_channel \<Rightarrow> nat)) + dac_request \<Rightarrow> bool" where
  "dac_op_ok op = (case op of Inl (Inl bs) \<Rightarrow> length bs < int_limit | Inl (Inr mv) \<Rightarrow> pauses_src mv | Inr c \<Rightarrow> True)"

text \<open>The calls of the pipe carry the controller.\<close>

fun with_engine :: "'f dma_engine \<Rightarrow> (byte list + ('f dma_channel \<Rightarrow> nat)) + 'c
    \<Rightarrow> ('f dma_engine \<times> byte list + ('f dma_channel \<Rightarrow> nat)) + 'f dma_engine \<times> 'c" where
  "with_engine E (Inl (Inl bs)) = Inl (Inl (E, bs))"
| "with_engine E (Inl (Inr mv)) = Inl (Inr mv)"
| "with_engine E (Inr c) = Inr (E, c)"

lemma dac_run_ctl:
  fixes d :: "'f aud_dac"
  shows "dac_run E ops d = dacc.run_ctl (map (with_engine E) ops) d"
proof (induction E ops d rule: dac_run.induct)
  case (2 E bs ops d)
  then show ?case
    unfolding dac_run.simps list.map with_engine.simps dacc.run_ctl.simps dac.run.simps dac_put_def [of "(E, bs)" d]
    by (auto split: Option.bind_splits)
next
  case (3 E mv ops d)
  then show ?case
    unfolding dac_run.simps list.map with_engine.simps dacc.run_ctl.simps dac.run.simps dac_send_def [of mv d]
    by (auto split: Option.bind_splits)
next
  case (4 E c ops d)
  then show ?case
    unfolding dac_run.simps list.map with_engine.simps dacc.run_ctl.simps by (auto split: Option.bind_splits)
qed simp

lemma dac_op_small: "starts_over E \<Longrightarrow> dac_op_ok op \<Longrightarrow> dacc.small_ctl (with_engine E op)"
  by (cases "(E, op)" rule: with_engine.cases) (simp_all add: dac_op_ok_def dacc.small_ctl_def dac.small_op_def)

lemma dac_ops_small: "starts_over E \<Longrightarrow> list_all dac_op_ok ops \<Longrightarrow> list_all dacc.small_ctl (map (with_engine E) ops)"
  by (induction ops) (simp_all add: dac_op_small)

section \<open>From the start\<close>

lemma ucast_u16: "unat (ucast (w :: u16) :: u32) = unat w" "unat w < 65536"
  using unsigned_less [of w, where 'a = nat]
  by (simp_all add: unsigned_ucast_eq take_bit_word_eq_self take_bit_nat_eq_self)

lemma chan_of_config4:
  assumes "channel cfg < GDMA_CHANNEL_MAX"
  shows "chan_of (gdma_congfig_type4 cfg g) (channel cfg) = channel_spec Type4 cfg (chan_of g (channel cfg))"
  using config_of_channel [OF assms assms, of Type4] by (simp del: channel_spec.simps)

lemma dac_open_ok:
  fixes d :: "'f aud_dac"
  assumes "dac_buf d \<noteq> 0" "dac_buf_len d \<noteq> 0" "dac_dma_mode d \<noteq> 0" "length mem = unat (dac_buf_len d)" "starts_over E"
  shows "\<exists>d'. audio_dac_open_dma E SOC_BK7221U h cb mem d = Some d' \<and> dac_inv d' \<and> dac_contents d' = []"
proof -
  define cfg where "cfg = audio_dac_dma_cfg SOC_BK7221U h d"
  define rb where "rb = (dac_rb_dma d)\<lparr>address := mem, rb_base := dac_buf d, capacity := ucast (dac_buf_len d), wp := 0, rp := 0,
    dma_ch := AUD_DAC_DEF_DMA_CHANNEL\<rparr>"
  define g where "g = enable_state E AUD_DAC_DEF_DMA_CHANNEL 0 (
    enable_state E AUD_DAC_DEF_DMA_CHANNEL 1 (gdma_set_src_pause_addr AUD_DAC_DEF_DMA_CHANNEL (dac_buf d)
      (gdma_set_transfer_length AUD_DAC_DEF_DMA_CHANNEL (ucast (dac_buf_len d div 4)) (gdma_congfig_type4 cfg (dac_gdma d)))))"
  have cfg: "channel cfg = AUD_DAC_DEF_DMA_CHANNEL" "u0 cfg = dac_buf d" "u1 cfg = dac_buf d + ucast (dac_buf_len d)"
    "src_start_addr cfg = dac_buf d"
    by (simp_all add: cfg_def audio_dac_dma_cfg_def)
  have off: "\<not> c_enabled (c_conf (channel_spec Type4 cfg x))" for x :: "'f dma_channel"
    by (simp add: conf_spec_def conf_reset_def)
  have c: "chan_of g AUD_DAC_DEF_DMA_CHANNEL = c" if
    "c = (let x = channel_spec Type4 cfg (chan_of (dac_gdma d) AUD_DAC_DEF_DMA_CHANNEL) in
      x\<lparr>c_conf := (c_conf x)\<lparr>c_enabled := False, c_len := take_bit 16 (ucast (dac_buf_len d div 4) - 1)\<rparr>,
        c_src_pause := dac_buf d, c_src_pos := c_src_start x, c_dst_pos := c_dst_start x\<rparr>)" for c
    using chan_of_config4 [of cfg "dac_gdma d"] channels_less(1) off
    by (simp add: that g_def chan_of_enable_state [OF channels_less(1) assms(5)] chan_of_set [OF channels_less(1) channels_less(1)] cfg
        Let_def del: channel_spec.simps)
  have len: "0 < unat (dac_buf_len d)" using assms(2) by (simp add: unat_gt_0)
  have x: "c_src_pos (chan_of g AUD_DAC_DEF_DMA_CHANNEL) = dac_buf d" "c_src_pause (chan_of g AUD_DAC_DEF_DMA_CHANNEL) = dac_buf d"
    "c_src_loop (c_conf (chan_of g AUD_DAC_DEF_DMA_CHANNEL))" "c_src_loop_start (chan_of g AUD_DAC_DEF_DMA_CHANNEL) = dac_buf d"
    "c_src_loop_end (chan_of g AUD_DAC_DEF_DMA_CHANNEL) = dac_buf d + ucast (dac_buf_len d)"
    "c_src_start (chan_of g AUD_DAC_DEF_DMA_CHANNEL) = dac_buf d" "\<not> c_enabled (c_conf (chan_of g AUD_DAC_DEF_DMA_CHANNEL))"
    by (simp_all add: c [OF refl] cfg Let_def addr_spec_def)
  have inv: "play_inv (rb, g)"
    using assms(4) len channels_less(1) x by (simp add: rb_def Let_def src_pos_def ucast_u16 word_less_nat_alt)
  have pos: "src_pos rb g = 0" using x(1) by (simp add: rb_def src_pos_def)
  then have "play_contents (rb, g) = []" unfolding play_contents_ring ring_def by (simp add: rb_def)
  moreover have "audio_dac_open_dma E SOC_BK7221U h cb mem d = Some (d\<lparr>dac_gdma := g, dac_need_write_len := ucast (dac_buf_len d div 4),
      dac_has_callback := cb, dac_rb_dma := rb, dac_status := AUD_STA_OPENED\<rparr>)"
    using assms(1)
    by (simp add: audio_dac_open_dma_def audio_dac_config_dma_def gdma_ctrl_def en_cfg_addr_def ctrl_types_def
        dac_ctrl_def ring_ctrl_len rb_init_dma_read_def ring_ctrl_7221u ring_enable_state [OF channels_less(1)] Let_def rb_def g_def cfg_def)
  moreover have "dac_state_ok AUD_STA_OPENED rb g" using x pos by (simp add: dac_state_ok_def rb_def)
  ultimately show ?thesis
    using inv assms(3) ucast_u16 [of "dac_buf_len d"]
    by (simp add: dac_inv_def rb_def [symmetric] int_limit_def del: play_contents.simps play_inv.simps) (simp add: rb_def)
qed

text \<open>
  (C11) Playing on a BK7221U, for every controller that begins at the start addresses when a channel is enabled and does not move
  past the pause address, however many bytes it moves at a time. From \<open>audio_dac_open\<close> in DMA mode with a buffer on,
  until a pause: whatever writes, starts, size queries, interrupts and moves of the controller follow each other, no
  copy leaves the buffer, and the bytes that \<open>audio_dac_write\<close> accepted are, in order, the bytes that the controller
  sent followed by those in the ring; once playing, a controller that goes on to the pause address sends exactly these.
\<close>

theorem audio_playback_stream:
  assumes "dac_buf d \<noteq> 0" and "dac_buf_len d \<noteq> 0" and "dac_dma_mode d \<noteq> 0" and "length mem = unat (dac_buf_len d)"
    and "starts_over E" and "list_all dac_op_ok ops"
  shows "\<exists>d0 acc out d'. audio_dac_open_dma E SOC_BK7221U h cb mem d = Some d0 \<and> dac_run E ops d0 = Some (acc, out, d')
    \<and> acc = out @ dac_contents d'
    \<and> (dac_status d' = AUD_STA_PLAYING \<longrightarrow>
        (\<exists>g. dma_send src_room (dac_rb_dma d') (dac_gdma d') = Some (dac_contents d', g)))"
proof -
  obtain d0 where d0: "audio_dac_open_dma E SOC_BK7221U h cb mem d = Some d0" "dac_inv d0" "dac_contents d0 = []"
    using dac_open_ok [OF assms(1-5)] by blast
  obtain acc out d' where run: "dac_run E ops d0 = Some (acc, out, d')" "dac_inv d'" "acc = out @ dac_contents d'"
    using dacc.run_ctl_stream [OF d0(2) dac_ops_small [OF assms(5,6)]] d0(3) by (auto simp: dac_run_ctl)
  have "\<exists>g. dma_send src_room (dac_rb_dma d') (dac_gdma d') = Some (dac_contents d', g)" if "dac_status d' = AUD_STA_PLAYING"
    using dma_send_all [OF dac_invD(1) [OF run(2)]] dac_invD(4) [OF run(2)] that
    by (simp add: dac_state_ok_def Let_def del: play_inv.simps play_contents.simps)
  then show ?thesis using d0(1) run by blast
qed

text \<open>A controller for the witness: it moves whole words of four bytes, and waits in front of a part of a word.\<close>

definition dma_trigger :: "'f dma_engine" where
  "dma_trigger ch g =
     reg_write (chn_reg1 GENER_DMA0_REG50_SRC_RD_ADDR ch) (c_src_start (chan_of g ch))
       (reg_write (chn_reg1 GENER_DMA0_REG58_DST_WR_ADDR ch) (c_dst_start (chan_of g ch)) g)"

lemma starts_over_trigger: "starts_over dma_trigger"
  by (simp add: starts_over_def dma_trigger_def chan_of_write)

definition words_out :: "'f dma_channel \<Rightarrow> nat" where "words_out x = src_room x div 4 * 4"
definition words_in :: "'f dma_channel \<Rightarrow> nat" where "words_in x = dst_room x div 4 * 4"

lemma word_moves: "pauses_src words_out" "pauses_dst words_in"
  by (simp_all add: pauses_src_def pauses_dst_def words_out_def words_in_def)

definition dac_example :: "unit aud_dac" where
  "dac_example = \<lparr>dac_buf = 0x00400000, dac_buf_len = 16, dac_channels = 2, dac_dma_mode = 1, dac_status = AUD_STA_CLOSED,
     dac_need_write_len = 0, dac_has_callback = False, dac_rb = \<lparr>address = [], capacity = 0, wp = 0, rp = 0\<rparr>,
     dac_rb_dma = \<lparr>address = [], capacity = 0, wp = 0, rp = 0, rb_base = 0, dma_ch = 0\<rparr>, dac_enable_bit = False,
     dac_gdma = \<lparr>regs = \<lambda>_. 0, p_dma_fin_handler = \<lambda>_. None, p_dma_hfin_handler = \<lambda>_. None, gdma_log = []\<rparr>,
     dac_callbacks = []\<rparr>"

theorem audio_playback_stream_witness:
  "\<exists>d0 acc out d'. audio_dac_open_dma dma_trigger SOC_BK7221U () False (replicate 16 0) dac_example = Some d0
    \<and> dac_run dma_trigger [Inl (Inl [1, 2, 3, 4, 5, 6, 7, 8]), Inr Dac_play, Inl (Inr words_out), Inl (Inl [9, 10, 11, 12]),
          Inl (Inr words_out)] d0
        = Some (acc, out, d')
    \<and> acc = out @ dac_contents d'"
  using audio_playback_stream [of dac_example "replicate 16 0" dma_trigger
      "[Inl (Inl [1, 2, 3, 4, 5, 6, 7, 8]), Inr Dac_play, Inl (Inr words_out), Inl (Inl [9, 10, 11, 12]), Inl (Inr words_out)]"
      "()" False]
  by (auto simp: dac_example_def dac_op_ok_def int_limit_def word_moves starts_over_trigger simp del: dac_contents.simps)

text \<open>
  Pausing. On a controller that begins at the start addresses, playing after a pause begins again at the start of the
  buffer: whatever had been sent, the bytes from there to the write position are what is played next.
\<close>

lemma pause_and_play_replays:
  assumes inv: "dac_inv d" and "dac_status d = AUD_STA_PLAYING" and E: "starts_over E"
  shows "\<exists>d1 d2. audio_dac_pause E SOC_BK7221U d = Some d1 \<and> audio_dac_play E SOC_BK7221U d1 = Some d2
    \<and> dac_contents d2 = take (unat (wp (dac_rb_dma d))) (address (dac_rb_dma d))"
proof -
  let ?C = AUD_DAC_DEF_DMA_CHANNEL
  let ?g = "enable_state E ?C 1 (enable_state E ?C 0 (dac_gdma d))"
  note I = dac_invD [OF inv]
  have "c_src_pos (chan_of ?g ?C) = rb_base (dac_rb_dma d)"
    using I(2,4) by (simp add: chan_of_enable_state [OF channels_less(1) E] dac_state_ok_def Let_def)
  then have "src_pos (dac_rb_dma d) ?g = 0" by (simp add: src_pos_def I(2))
  then have "play_contents (dac_rb_dma d, ?g) = take (unat (wp (dac_rb_dma d))) (address (dac_rb_dma d))"
    unfolding play_contents_ring ring_def by simp
  then show ?thesis
    using assms(2) I(3)
    by (simp add: audio_dac_pause_def audio_dac_play_def audio_dac_set_dma_def dac_enable_def
        ring_enable_state [OF channels_less(1)] del: play_contents.simps)
qed

end
