(* ===== verification/Audio_Adc_Props.thy ===== *)
theory Audio_Adc_Props
  imports Audio_Dac_Props
begin

text \<open>
  Samples that arrive are read in order with \<open>audio_adc_read\<close>: the locale of a pipe with a control,
  interpreted on the recording path in DMA mode. Here the controller writes the ring and the driver reads it. The
  controller is an argument as it is for playing, and a pause is again not among the operations: on a controller that
  begins at the start addresses, recording after a pause begins at the start of the buffer.
\<close>

fun adc_contents :: "'f aud_adc \<Rightarrow> byte list" where
  "adc_contents d = record_contents (adc_rb_dma d, adc_gdma d)"

definition adc_inv :: "'f aud_adc \<Rightarrow> bool" where
  "adc_inv d \<longleftrightarrow> adc_status d = AUD_STA_PLAYING \<and> adc_mode d AND AUD_ADC_MODE_DMA_BIT \<noteq> 0
     \<and> record_inv (adc_rb_dma d, adc_gdma d) \<and> dma_ch (adc_rb_dma d) = AUD_ADC_DEF_DMA_CHANNEL"

definition adc_arrive :: "('f dma_channel \<Rightarrow> nat) \<times> byte list \<Rightarrow> 'f aud_adc \<Rightarrow> (nat \<times> 'f aud_adc) option" where
  "adc_arrive p d = (case p of (mv, bs) \<Rightarrow> do {
     (k, rb, g) \<leftarrow> dma_receive mv bs (adc_rb_dma d) (adc_gdma d);
     Some (k, d\<lparr>adc_rb_dma := rb, adc_gdma := g\<rparr>) })"

definition adc_get :: "nat \<Rightarrow> 'f aud_adc \<Rightarrow> (byte list \<times> 'f aud_adc) option" where
  "adc_get n d = do { (k, bs, d) \<leftarrow> audio_adc_read SOC_BK7221U (of_nat n) d; Some (bs, d) }"

lemma record_fill_size:
  assumes "record_inv (rb, g)"
  shows "rb_get_fill_size_dma_write SOC_BK7221U rb g = Some (rb_get_fill_size (record_ring rb g), rb\<lparr>wp := dst_pos rb g\<rparr>, g)"
    "record_inv (rb\<lparr>wp := dst_pos rb g\<rparr>, g)" "record_contents (rb\<lparr>wp := dst_pos rb g\<rparr>, g) = record_contents (rb, g)"
    "record_ring (rb\<lparr>wp := dst_pos rb g\<rparr>) g = record_ring rb g"
  using assms
  by (simp_all add: rb_get_fill_size_dma_write_def rb_get_fill_size_def ring_ctrl_7221u Let_def dst_pos_def record_ring_def
      pause_after_read_def)

lemma rb_read_dma_channel: "rb_read_dma_write chip rb sz count g = Some (k, bs, rb', g') \<Longrightarrow> dma_ch rb' = dma_ch rb"
  by (cases "sz * count = 0")
    (auto simp: rb_read_dma_write_eq Let_def split: Option.bind_split_asm, simp add: rb_read_dma_write_def)

lemma adc_arrive:
  assumes "adc_inv d" "pauses_dst mv"
  shows "\<exists>k d'. adc_arrive (mv, bs) d = Some (k, d') \<and> adc_inv d' \<and> adc_contents d' = adc_contents d @ take k bs"
proof -
  obtain k rb g where r: "dma_receive mv bs (adc_rb_dma d) (adc_gdma d) = Some (k, rb, g)" "record_inv (rb, g)"
    "record_contents (rb, g) = record_contents (adc_rb_dma d, adc_gdma d) @ take k bs" "dma_ch rb = dma_ch (adc_rb_dma d)"
    using dma_receive_some [OF _ assms(2), of "adc_rb_dma d" "adc_gdma d" bs] assms(1) unfolding adc_inv_def by blast
  then show ?thesis
    using assms(1) by (simp add: adc_arrive_def adc_inv_def del: record_inv.simps record_contents.simps)
qed

lemma adc_read:
  assumes "adc_inv d"
  shows "\<exists>k d'. audio_adc_read SOC_BK7221U count d = Some (k, take (unat k) (adc_contents d), d') \<and> adc_inv d'
    \<and> adc_contents d' = drop (unat k) (adc_contents d) \<and> unat k = min (unat count) (length (adc_contents d))"
proof -
  define rb where "rb = adc_rb_dma d"
  define g where "g = adc_gdma d"
  define n where "n = (if rb_get_fill_size (record_ring rb g) > count then count else rb_get_fill_size (record_ring rb g))"
  have I: "record_inv (rb, g)" using assms unfolding adc_inv_def rb_def g_def by blast
  note F = record_fill_size [OF I]
  have c: "adc_contents d = record_contents (rb, g)" by (simp add: rb_def g_def)
  have n: "unat n = min (unat count) (length (adc_contents d))"
    using rb_fill_nat [OF record_inv_ring [OF I]] by (auto simp: n_def rb_def [symmetric] g_def [symmetric] word_less_nat_alt)
  obtain k rb' g' where r: "rb_read_dma_write SOC_BK7221U (rb\<lparr>wp := dst_pos rb g\<rparr>) n 1 g
      = Some (k, take (unat k) (record_contents (rb, g)), rb', g')" "record_inv (rb', g')"
    "record_contents (rb', g') = drop (unat k) (record_contents (rb, g))"
    "unat k = min (unat (n * 1)) (length (record_contents (rb, g)))"
    using record_read [OF F(2), of n 1] unfolding F(3) by blast
  have k: "unat k = unat n" using r(4) n c by simp
  have e: "audio_adc_read SOC_BK7221U count d = Some (n, take (unat n) (adc_contents d), d\<lparr>adc_rb_dma := rb', adc_gdma := g'\<rparr>)"
    using assms F(1) r(1) k
    by (simp add: audio_adc_read_def adc_inv_def Let_def rb_def [symmetric] g_def [symmetric] n_def [symmetric] c
        del: record_inv.simps record_contents.simps)
  have "adc_inv (d\<lparr>adc_rb_dma := rb', adc_gdma := g'\<rparr>)"
    using assms r(2) rb_read_dma_channel [OF r(1)] by (simp add: adc_inv_def rb_def del: record_inv.simps)
  moreover have "adc_contents (d\<lparr>adc_rb_dma := rb', adc_gdma := g'\<rparr>) = drop (unat n) (adc_contents d)"
    using r(3) k c by (simp del: record_contents.simps)
  ultimately show ?thesis using e n by blast
qed

lemma adc_read_all:
  assumes "adc_inv d"
  shows "\<exists>d'. audio_adc_read SOC_BK7221U (of_nat (length (adc_contents d))) d
    = Some (of_nat (length (adc_contents d)), adc_contents d, d')"
proof -
  let ?n = "length (adc_contents d)"
  have "?n < 2 ^ 32"
    using assms unat_u32 [of "capacity (adc_rb_dma d)"] by (simp add: adc_inv_def Let_def)
  then have n: "unat (of_nat ?n :: u32) = ?n" by (intro unat_of_nat_small) simp
  obtain k d' where r: "audio_adc_read SOC_BK7221U (of_nat ?n) d = Some (k, take (unat k) (adc_contents d), d')"
    "unat k = min (unat (of_nat ?n :: u32)) ?n"
    using adc_read [OF assms, of "of_nat ?n"] by blast
  have "k = of_nat ?n" using r(2) n by (intro word_unat_eq_iff [THEN iffD2]) simp
  then show ?thesis using r n by (simp del: adc_contents.simps)
qed

text \<open>What else a client of the recorder calls, and the interrupt of the channel.\<close>

datatype adc_request = Adc_play | Adc_fill_size | Adc_finished

fun adc_control :: "'f dma_engine \<times> adc_request \<Rightarrow> 'f aud_adc \<Rightarrow> 'f aud_adc option" where
  "adc_control (E, Adc_play) d = audio_adc_play E SOC_BK7221U d"
| "adc_control (E, Adc_fill_size) d = map_option snd (audio_adc_get_fill_buf_size SOC_BK7221U d)"
| "adc_control (E, Adc_finished) d = audio_adc_dma_fin_handler SOC_BK7221U d"

lemma adc_control_ok:
  assumes "adc_inv d"
  shows "\<exists>d'. adc_control (E, c) d = Some d' \<and> adc_inv d' \<and> adc_contents d' = adc_contents d"
proof -
  have I: "record_inv (adc_rb_dma d, adc_gdma d)" using assms unfolding adc_inv_def by blast
  show ?thesis
    using assms record_fill_size [OF I]
    by (cases c) (simp_all add: audio_adc_play_def audio_adc_get_fill_buf_size_def audio_adc_dma_fin_handler_def adc_inv_def
        Let_def del: record_inv.simps record_contents.simps)
qed

text \<open>The number of bytes asked for is 32 bits wide.\<close>

definition word_limit :: nat where "word_limit = 4294967296"

interpretation adc: byte_pipe adc_inv adc_contents snd adc_arrive adc_get "\<lambda>p. pauses_dst (fst p)" "\<lambda>n. n < word_limit"
proof (unfold_locales, goal_cases)
  case (1 d p)
  then show ?case using adc_arrive [OF 1(1), of "fst p" "snd p"] by simp
next
  case (2 d n)
  then show ?case using adc_read [OF 2(1), of "of_nat n"] by (auto simp: adc_get_def simp del: adc_contents.simps)
qed

interpretation adcc: controlled_pipe adc_inv adc_contents snd adc_arrive adc_get
    "\<lambda>p. pauses_dst (fst p)" "\<lambda>n. n < word_limit" adc_control "\<lambda>p. True"
proof (unfold_locales, goal_cases)
  case (1 d p)
  then show ?case using adc_control_ok [of d "fst p" "snd p"] by simp
qed

text \<open>
  A run of the recorder with a controller \<open>E\<close>: \<open>Inl (Inl (mv, bs))\<close> are samples that arrive, of which the controller
  stores some or none, \<open>Inl (Inr n)\<close> is a call of \<open>audio_adc_read\<close> for n bytes, \<open>Inr c\<close> one of the other
  operations. The result holds the bytes that were stored and the bytes that the calls delivered.
\<close>

fun adc_run :: "'f dma_engine \<Rightarrow> (((('f dma_channel \<Rightarrow> nat) \<times> byte list) + nat) + adc_request) list \<Rightarrow> 'f aud_adc
    \<Rightarrow> (byte list \<times> byte list \<times> 'f aud_adc) option" where
  "adc_run E [] d = Some ([], [], d)"
| "adc_run E (Inl (Inl (mv, bs)) # ops) d = do {
     (k, rb, g) \<leftarrow> dma_receive mv bs (adc_rb_dma d) (adc_gdma d);
     (acc, out, d) \<leftarrow> adc_run E ops (d\<lparr>adc_rb_dma := rb, adc_gdma := g\<rparr>);
     Some (take k bs @ acc, out, d) }"
| "adc_run E (Inl (Inr n) # ops) d = do {
     (k, bs, d) \<leftarrow> audio_adc_read SOC_BK7221U (of_nat n) d;
     (acc, out, d) \<leftarrow> adc_run E ops d;
     Some (acc, bs @ out, d) }"
| "adc_run E (Inr c # ops) d = do { d \<leftarrow> adc_control (E, c) d; adc_run E ops d }"

definition adc_op_ok :: "((('f dma_channel \<Rightarrow> nat) \<times> byte list) + nat) + adc_request \<Rightarrow> bool" where
  "adc_op_ok op = (case op of Inl (Inl p) \<Rightarrow> pauses_dst (fst p) | Inl (Inr n) \<Rightarrow> n < word_limit | Inr c \<Rightarrow> True)"

lemma adc_run_ctl:
  fixes d :: "'f aud_adc"
  shows "adc_run E ops d = adcc.run_ctl (map (map_sum (\<lambda>op. op) (Pair E)) ops) d"
proof (induction E ops d rule: adc_run.induct)
  case (2 E mv bs ops d)
  then show ?case
    unfolding adc_run.simps list.map map_sum.simps adcc.run_ctl.simps adc.run.simps adc_arrive_def [of "(mv, bs)" d]
    by (auto split: Option.bind_splits)
next
  case (3 E n ops d)
  then show ?case
    unfolding adc_run.simps list.map map_sum.simps adcc.run_ctl.simps adc.run.simps adc_get_def [of n d]
    by (auto split: Option.bind_splits)
next
  case (4 E c ops d)
  then show ?case
    unfolding adc_run.simps list.map map_sum.simps adcc.run_ctl.simps by (auto split: Option.bind_splits)
qed simp

lemma adc_op_small: "adc_op_ok op \<Longrightarrow> adcc.small_ctl (map_sum (\<lambda>op. op) (Pair E) op)"
  by (auto simp: adc_op_ok_def adcc.small_ctl_def adc.small_op_def split: sum.splits)

lemma adc_ops_small: "list_all adc_op_ok ops \<Longrightarrow> list_all adcc.small_ctl (map (map_sum (\<lambda>op. op) (Pair E)) ops)"
  by (induction ops) (simp_all add: adc_op_small)

section \<open>From the start\<close>

lemma chan_of_config5:
  assumes "channel cfg < GDMA_CHANNEL_MAX"
  shows "chan_of (gdma_congfig_type5 cfg g) (channel cfg) = channel_spec Type5 cfg (chan_of g (channel cfg))"
  using config_of_channel [OF assms assms, of Type5] by (simp del: channel_spec.simps)

lemma adc_open_play_ok:
  fixes d :: "'f aud_adc"
  assumes "adc_buf d \<noteq> 0" "4 \<le> unat (adc_buf_len d)" "adc_mode d AND AUD_ADC_MODE_DMA_BIT \<noteq> 0"
    "length mem = unat (adc_buf_len d)" "starts_over E"
  shows "\<exists>d0 d1. audio_adc_open_dma SOC_BK7221U h mem d = Some d0 \<and> audio_adc_play E SOC_BK7221U d0 = Some d1
    \<and> adc_inv d1 \<and> adc_contents d1 = []"
proof -
  define cfg where "cfg = audio_adc_dma_cfg SOC_BK7221U h d"
  define len where "len = (ucast (if adc_uses_callback d then adc_inter_thre d else adc_buf_len d) :: u32)"
  define rb where "rb = (adc_rb_dma d)\<lparr>address := mem, rb_base := adc_buf d, capacity := ucast (adc_buf_len d), wp := 0, rp := 0,
    dma_ch := AUD_ADC_DEF_DMA_CHANNEL\<rparr>"
  define g0 where "g0 = gdma_set_dest_pause_addr AUD_ADC_DEF_DMA_CHANNEL
    (adc_buf d + ucast (adc_buf_len d) - RWP_SAFE_INTERVAL) (gdma_set_dest_pause_addr AUD_ADC_DEF_DMA_CHANNEL (adc_buf d)
      (gdma_set_transfer_length AUD_ADC_DEF_DMA_CHANNEL len (gdma_congfig_type5 cfg (adc_gdma d))))"
  define g where "g = enable_state E AUD_ADC_DEF_DMA_CHANNEL 1 g0"
  have cfg: "channel cfg = AUD_ADC_DEF_DMA_CHANNEL" "u0 cfg = adc_buf d" "u1 cfg = adc_buf d + ucast (adc_buf_len d)"
    "dst_start_addr cfg = adc_buf d"
    by (simp_all add: cfg_def audio_adc_dma_cfg_def)
  have off: "\<not> c_enabled (c_conf (channel_spec Type5 cfg x))" for x :: "'f dma_channel"
    by (simp add: conf_spec_def conf_reset_def)
  have c: "chan_of g AUD_ADC_DEF_DMA_CHANNEL = c" if
    "c = (let x = channel_spec Type5 cfg (chan_of (adc_gdma d) AUD_ADC_DEF_DMA_CHANNEL) in
      x\<lparr>c_conf := (c_conf x)\<lparr>c_enabled := True, c_len := take_bit 16 (len - 1)\<rparr>,
        c_dst_pause := adc_buf d + ucast (adc_buf_len d) - RWP_SAFE_INTERVAL, c_src_pos := c_src_start x,
        c_dst_pos := c_dst_start x\<rparr>)" for c
    using chan_of_config5 [of cfg "adc_gdma d"] channels_less(2) off
    by (simp add: that g_def g0_def chan_of_enable_state [OF channels_less(2) assms(5)]
        chan_of_set [OF channels_less(2) channels_less(2)] cfg Let_def del: channel_spec.simps)
  have x: "c_dst_pos (chan_of g AUD_ADC_DEF_DMA_CHANNEL) = adc_buf d"
    "c_dst_pause (chan_of g AUD_ADC_DEF_DMA_CHANNEL) = adc_buf d + ucast (adc_buf_len d) - RWP_SAFE_INTERVAL"
    "c_dst_loop (c_conf (chan_of g AUD_ADC_DEF_DMA_CHANNEL))" "c_dst_loop_start (chan_of g AUD_ADC_DEF_DMA_CHANNEL) = adc_buf d"
    "c_dst_loop_end (chan_of g AUD_ADC_DEF_DMA_CHANNEL) = adc_buf d + ucast (adc_buf_len d)"
    by (simp_all add: c [OF refl] cfg Let_def addr_spec_def)
  have pos: "dst_pos rb g = 0" using x(1) by (simp add: rb_def dst_pos_def)
  then have empty: "record_contents (rb, g) = []" unfolding record_contents_ring ring_def by (simp add: rb_def)
  have inv: "record_inv (rb, g)"
    using assms(2,4) channels_less(2) x pos empty
    by (simp add: rb_def Let_def ucast_u16 word_less_nat_alt pause_after_read_def RWP_SAFE_INTERVAL_def)
  have "audio_adc_open_dma SOC_BK7221U h mem d = Some (d\<lparr>adc_gdma := g0, adc_rb_dma := rb, adc_status := AUD_STA_OPENED\<rparr>)"
    using assms(1)
    by (simp add: audio_adc_open_dma_def audio_adc_config_dma_def gdma_ctrl_def en_cfg_addr_def ctrl_types_def
        adc_ctrl_def ring_ctrl_len rb_init_dma_write_def ring_ctrl_7221u Let_def rb_def g0_def cfg_def len_def
        adc_uses_callback_def)
  then show ?thesis
    using assms(3) inv empty
    by (simp add: audio_adc_play_def audio_adc_set_dma_def adc_enable_def ring_enable_state [OF channels_less(2)] adc_inv_def
        g_def [symmetric] del: record_contents.simps record_inv.simps) (simp add: rb_def)
qed

text \<open>
  (C12) Recording on a BK7221U, for every controller that begins at the start addresses when a channel is enabled and does not move
  past the pause address, however many bytes it moves at a time. After \<open>audio_adc_open\<close> in DMA mode with a buffer of
  at least four bytes and \<open>audio_adc_play\<close>, until a pause: whatever reads, size queries, interrupts and arrivals of
  samples follow each other, no copy leaves the buffer, and the bytes that the controller stored are, in order, the
  bytes that \<open>audio_adc_read\<close> delivered followed by those in the ring, which one more read delivers: the controller
  never overwrites a sample that has not been read.
\<close>

theorem audio_recording_stream:
  assumes "adc_buf d \<noteq> 0" and "4 \<le> unat (adc_buf_len d)" and "adc_mode d AND AUD_ADC_MODE_DMA_BIT \<noteq> 0"
    and "length mem = unat (adc_buf_len d)" and "starts_over E" and "list_all adc_op_ok ops"
  shows "\<exists>d0 d1 acc out d' d2. audio_adc_open_dma SOC_BK7221U h mem d = Some d0
    \<and> audio_adc_play E SOC_BK7221U d0 = Some d1 \<and> adc_run E ops d1 = Some (acc, out, d')
    \<and> acc = out @ adc_contents d'
    \<and> audio_adc_read SOC_BK7221U (of_nat (length (adc_contents d'))) d'
        = Some (of_nat (length (adc_contents d')), adc_contents d', d2)"
proof -
  obtain d0 d1 where d1: "audio_adc_open_dma SOC_BK7221U h mem d = Some d0" "audio_adc_play E SOC_BK7221U d0 = Some d1"
    "adc_inv d1" "adc_contents d1 = []"
    using adc_open_play_ok [OF assms(1-5)] by blast
  obtain acc out d' where run: "adc_run E ops d1 = Some (acc, out, d')" "adc_inv d'" "acc = out @ adc_contents d'"
    using adcc.run_ctl_stream [OF d1(3) adc_ops_small [OF assms(6), of E]] d1(4)
    by (auto simp: adc_run_ctl simp del: adc_contents.simps)
  then show ?thesis using d1(1,2) adc_read_all [OF run(2)] by blast
qed

definition adc_example :: "unit aud_adc" where
  "adc_example = \<lparr>adc_buf = 0x00400000, adc_buf_len = 16, adc_inter_thre = 0, adc_channels = 2, adc_mode = 1,
     adc_has_rx_cb = False, adc_status = AUD_STA_CLOSED, adc_rb = \<lparr>address = [], capacity = 0, wp = 0, rp = 0\<rparr>,
     adc_rb_dma = \<lparr>address = [], capacity = 0, wp = 0, rp = 0, rb_base = 0, dma_ch = 0\<rparr>, adc_enable_bit = False,
     adc_gdma = \<lparr>regs = \<lambda>_. 0, p_dma_fin_handler = \<lambda>_. None, p_dma_hfin_handler = \<lambda>_. None, gdma_log = []\<rparr>,
     adc_callbacks = []\<rparr>"

theorem audio_recording_stream_witness:
  "\<exists>d0 d1 acc out d'. audio_adc_open_dma SOC_BK7221U () (replicate 16 0) adc_example = Some d0
    \<and> audio_adc_play dma_trigger SOC_BK7221U d0 = Some d1
    \<and> adc_run dma_trigger [Inl (Inl (words_in, [1, 2, 3, 4, 5, 6, 7, 8])), Inl (Inr 5), Inr Adc_fill_size,
          Inl (Inl (words_in, [9, 10, 11, 12])), Inl (Inr 9)] d1
        = Some (acc, out, d')
    \<and> acc = out @ adc_contents d'"
  using audio_recording_stream [of adc_example "replicate 16 0" dma_trigger
      "[Inl (Inl (words_in, [1, 2, 3, 4, 5, 6, 7, 8])), Inl (Inr 5), Inr Adc_fill_size,
        Inl (Inl (words_in, [9, 10, 11, 12])), Inl (Inr 9)]" "()"]
  by (auto simp: adc_example_def adc_op_ok_def word_limit_def word_moves starts_over_trigger AUD_ADC_MODE_DMA_BIT_def
      simp del: adc_contents.simps)

end
