(* ===== verification/Base64.thy ===== *)
theory Base64
  imports Prelude
begin

text \<open>
  Base64 coding: \<open>func/base64/base_64.c\<close>. A pair of a source pointer and a length is the list of the
  bytes; the bytes stored at the output pointer are returned as a list, and whether the pointer is
  \<open>NULL\<close> and the table can be allocated are arguments. The lengths of \<open>base64_encode\<close> and \<open>base64_decode\<close>, of type
  \<open>int\<close> in C, are natural numbers here: the definitions are the code as long as the lengths of the text and of the
  bytes fit an \<open>int\<close>, that is below \<open>2\<^sup>3\<^sup>0\<close> bytes.
\<close>

unbundle bit_operations_syntax

section \<open>Tables and lengths\<close>

definition base_64_table :: "u8 list" where
  "base_64_table = map of_char ''ABCDEFGHIJKLMNOPQRSTUVWXYZabcdefghijklmnopqrstuvwxyz0123456789+/''"

definition DTABLE_LEN :: nat where "DTABLE_LEN = 256"

abbreviation pad_char :: u8 where "pad_char \<equiv> 61"
abbreviation newline :: u8 where "newline \<equiv> 10"

definition base64_calc_encode_length :: "u32 \<Rightarrow> u32" where
  "base64_calc_encode_length src_Len =
     (let enc_len = src_Len * 4 div 3 + 4;
          enc_len = enc_len + enc_len div 72
      in enc_len + 1)"

section \<open>Encoding\<close>

definition enc :: "u8 \<Rightarrow> u8" where
  "enc i = base_64_table ! unat i"

text \<open>The main loop: the characters stored, the bytes left and the length of the current line.\<close>

fun encode_loop :: "u8 list \<Rightarrow> nat \<Rightarrow> u8 list \<times> u8 list \<times> nat" where
  "encode_loop (a # b # c # inp) line_len =
     (let chars = [enc (drop_bit 2 a), enc (push_bit 4 (a AND 3) OR drop_bit 4 b),
                   enc (push_bit 2 (b AND 15) OR drop_bit 6 c), enc (c AND 63)];
          line_len = line_len + 4;
          (nl, line_len) = (if line_len \<ge> 72 then ([newline], 0) else ([], line_len));
          (out, rest, line_len) = encode_loop inp line_len
      in (chars @ nl @ out, rest, line_len))"
| "encode_loop inp line_len = ([], inp, line_len)"

text \<open>The return value, the length for \<open>out_len\<close> and the bytes stored at \<open>out\<close>.\<close>

definition base64_encode :: "u8 list \<Rightarrow> bool \<Rightarrow> nat \<times> nat option \<times> u8 list" where
  "base64_encode src out_null =
     (if out_null then (0, None, [])
      else
        let (out, inp, line_len) = encode_loop src 0;
            (last, line_len) =
              (case inp of [] \<Rightarrow> ([], line_len)
               | [a] \<Rightarrow> ([enc (drop_bit 2 a), enc (push_bit 4 (a AND 3)), pad_char, pad_char], line_len + 4)
               | a # b # _ \<Rightarrow> ([enc (drop_bit 2 a), enc (push_bit 4 (a AND 3) OR drop_bit 4 b), enc (push_bit 2 (b AND 15)), pad_char],
                    line_len + 4));
            nl = (if line_len \<noteq> 0 then [newline] else []);
            out = out @ last @ nl
        in (1, Some (length out), out @ [0]))"

section \<open>Decoding\<close>

text \<open>The table both decoding functions build.\<close>

definition dtable :: "u8 list" where
  "dtable =
     (let t = replicate DTABLE_LEN 0x80;
          t = fold (\<lambda>i t. t[unat (base_64_table ! i) := of_nat i]) [0..<64] t
      in t[unat pad_char := 0])"

definition count_valid :: "u8 list \<Rightarrow> nat" where
  "count_valid src = fold (\<lambda>c n. if dtable ! unat c \<noteq> 0x80 then n + 1 else n) src 0"

definition base64_calc_decode_length :: "bool \<Rightarrow> u8 list \<Rightarrow> nat" where
  "base64_calc_decode_length alloc src =
     (if \<not> alloc then 0
      else let dec_len = count_valid src in
        if dec_len mod 4 \<noteq> 0 then 0 else dec_len)"

text \<open>
  The loop over the text: \<open>count\<close>, the arrays \<open>in\<close> and \<open>block\<close>, and the bytes stored so far.
\<close>

fun decode_loop :: "u8 list \<Rightarrow> nat \<Rightarrow> u8 list \<Rightarrow> u8 list \<Rightarrow> u8 list \<Rightarrow> u8 list \<times> u8 list" where
  "decode_loop [] count inp block out = (inp, out)"
| "decode_loop (c # src) count inp block out =
     (let tmp = dtable ! unat c in
      if tmp = 0x80 then decode_loop src count inp block out
      else
        let inp = inp[count := c]; block = block[count := tmp]; count = count + 1 in
        if count = 4 then
          decode_loop src 0 inp block
            (out @ [push_bit 2 (block ! 0) OR drop_bit 4 (block ! 1), push_bit 4 (block ! 1) OR drop_bit 2 (block ! 2),
                    push_bit 6 (block ! 2) OR block ! 3])
        else decode_loop src count inp block out)"

text \<open>
  The return value, the value stored in \<open>out_len\<close>, if any, and the bytes stored at \<open>out\<close>. The arrays
  \<open>in\<close> and \<open>block\<close> are not initialised; no element is read before it is stored.
\<close>

definition base64_decode :: "bool \<Rightarrow> u8 list \<Rightarrow> bool \<Rightarrow> nat \<times> nat option \<times> u8 list" where
  "base64_decode alloc src out_null =
     (if \<not> alloc then (0, Some 0, [])
      else
        let count = count_valid src in
        if count mod 4 \<noteq> 0 then (0, None, [])
        else if out_null then (0, Some (unat (of_nat count * 3 div 4 :: u32)), [])
        else
          let (inp, out) = decode_loop src 0 (replicate 4 0) (replicate 4 0) [];
              pos = length out;
              pos = (if pos > 0 then
                       if inp ! 2 = pad_char then pos - 2
                       else if inp ! 3 = pad_char then pos - 1
                       else pos
                     else pos)
          in (1, Some pos, out))"

end
