(* ===== verification/Base64_Props.thy ===== *)
theory Base64_Props
  imports Base64
begin

text \<open>
  The Base64 coder: equality with a reference encoding on bits, the round trip for every input, and the
  sizes of the buffers.
\<close>

unbundle bit_operations_syntax

lemma base_64_table_eq: "base_64_table =
  [65, 66, 67, 68, 69, 70, 71, 72, 73, 74, 75, 76, 77, 78, 79, 80, 81, 82, 83, 84, 85, 86, 87, 88, 89, 90,
   97, 98, 99, 100, 101, 102, 103, 104, 105, 106, 107, 108, 109, 110, 111, 112, 113, 114, 115, 116, 117, 118, 119, 120, 121, 122,
   48, 49, 50, 51, 52, 53, 54, 55, 56, 57, 43, 47]"
  by (simp add: base_64_table_def)

lemma base_64_table_props: "length base_64_table = 64" "distinct base_64_table" "pad_char \<notin> set base_64_table"
  "newline \<notin> set base_64_table" "0 \<notin> set base_64_table"
  by (simp_all add: base_64_table_eq)

lemma fold_update_other: "k \<notin> f ` set is \<Longrightarrow> fold (\<lambda>i t. t[f i := v i]) is t ! k = t ! k"
  by (induction "is" arbitrary: t) auto

lemma fold_update_length [simp]: "length (fold (\<lambda>i t. t[f i := v i]) is t) = length t"
  by (induction "is" arbitrary: t) auto

lemma fold_update_nth:
  "i \<in> set is \<Longrightarrow> inj_on f (set is) \<Longrightarrow> distinct is \<Longrightarrow> f i < length t \<Longrightarrow> fold (\<lambda>i t. t[f i := v i]) is t ! f i = v i"
proof (induction "is" arbitrary: t)
  case (Cons j "is")
  show ?case
  proof (cases "i = j")
    case True
    then have "f i \<notin> f ` set is" using Cons.prems by (auto simp: inj_on_def)
    then show ?thesis using fold_update_other [of "f i" f "is" v] Cons.prems True by simp
  next
    case False
    then show ?thesis using Cons by simp
  qed
qed simp

lemma table_inj: "inj_on (\<lambda>i. unat (base_64_table ! i)) (set [0..<64])"
  using base_64_table_props(1,2) by (auto simp: inj_on_def nth_eq_iff_index_eq word_unat_eq_iff [symmetric])

lemma unat_u8 [simp]: "unat (w :: u8) < 256"
  using unat_lt_len [of w] by simp

lemma dtable_nth:
  "dtable ! unat c = (if c = pad_char then 0 else if c \<in> set base_64_table then dtable ! unat c else 0x80)"
  "i < 64 \<Longrightarrow> dtable ! unat (base_64_table ! i) = of_nat i"
proof -
  let ?f = "\<lambda>i. unat (base_64_table ! i)"
  let ?t = "fold (\<lambda>i t. t[?f i := of_nat i]) [0..<64] (replicate 256 0x80) :: u8 list"
  have d: "dtable = ?t[61 := 0]" by (simp add: dtable_def DTABLE_LEN_def)
  have im: "?f ` set [0..<64] = unat ` set base_64_table"
  proof -
    have "set base_64_table = (!) base_64_table ` {0..<64}" using base_64_table_props(1) by (auto simp: in_set_conv_nth)
    then show ?thesis by (simp add: image_image)
  qed
  have "?t ! unat c = 0x80" if "c \<notin> set base_64_table"
  proof -
    have "unat c \<notin> ?f ` set [0..<64]" unfolding im using that by (auto simp: word_unat_eq_iff [symmetric])
    from fold_update_other [OF this, of of_nat "replicate 256 0x80"] show ?thesis by simp
  qed
  moreover have "unat c = 61 \<longleftrightarrow> c = pad_char" by (simp add: word_unat_eq_iff)
  ultimately show "dtable ! unat c = (if c = pad_char then 0 else if c \<in> set base_64_table then dtable ! unat c else 0x80)"
    by (simp add: d nth_list_update)
  show "dtable ! unat (base_64_table ! i) = of_nat i" if i: "i < 64"
  proof -
    have "base_64_table ! i \<noteq> pad_char" using base_64_table_props(1,3) i by (metis nth_mem)
    then have "?f i \<noteq> 61" by (simp add: word_unat_eq_iff)
    moreover have "?t ! ?f i = of_nat i"
      by (rule fold_update_nth [OF _ table_inj]) (use i in simp_all)
    ultimately show ?thesis unfolding d by simp
  qed
qed

text \<open>The characters of the code and their values.\<close>

lemma enc_char:
  assumes "i < (64 :: u8)"
  shows "enc i \<in> set base_64_table" "dtable ! unat (enc i) = i"
proof -
  have i: "unat i < 64" using assms by (simp add: word_less_nat_alt)
  show "enc i \<in> set base_64_table" using i base_64_table_props(1) by (simp add: enc_def)
  show "dtable ! unat (enc i) = i" using dtable_nth(2) [OF i] by (simp add: enc_def)
qed

lemma dtable_special: "dtable ! unat pad_char = 0" "dtable ! unat newline = 0x80"
  using dtable_nth(1) [of pad_char] dtable_nth(1) [of newline] base_64_table_props(4) by auto

lemma enc_valid:
  assumes "i < (64 :: u8)"
  shows "dtable ! unat (enc i) \<noteq> 0x80" "enc i \<noteq> pad_char" "enc i \<noteq> newline" "enc i \<noteq> 0"
proof -
  have "i \<noteq> 0x80" using assms by (auto simp: word_less_nat_alt)
  then show "dtable ! unat (enc i) \<noteq> 0x80" using enc_char [OF assms] by simp
  show "enc i \<noteq> pad_char" "enc i \<noteq> newline" "enc i \<noteq> 0" using enc_char(1) [OF assms] base_64_table_props(3,4,5) by (metis (no_types))+
qed

section \<open>Six-bit groups\<close>

lemma byte_eqI: "(\<And>n. n \<in> {0, 1, 2, 3, 4, 5, 6, 7} \<Longrightarrow> bit a n = bit b n) \<Longrightarrow> a = (b :: u8)"
proof (rule bit_word_eqI)
  fix n
  assume h: "\<And>n. n \<in> {0, 1, 2, 3, 4, 5, 6, 7} \<Longrightarrow> bit a n = bit b n" and n: "n < LENGTH(8)"
  from n have "n \<in> {0, 1, 2, 3, 4, 5, 6, 7}" by auto
  then show "bit a n = bit b n" by (rule h)
qed

lemma sextet_bits:
  fixes a b c :: u8
  shows "push_bit 2 (drop_bit 2 a) OR drop_bit 4 (push_bit 4 (a AND 3) OR drop_bit 4 b) = a"
    "push_bit 4 (push_bit 4 (a AND 3) OR drop_bit 4 b) OR drop_bit 2 (push_bit 2 (b AND 15) OR drop_bit 6 c) = b"
    "push_bit 6 (push_bit 2 (b AND 15) OR drop_bit 6 c) OR (c AND 63) = c"
  by (rule byte_eqI; auto simp: bit_simps; simp add: numeral_eq_Suc)+

lemma sextet_less:
  fixes a b :: u8
  shows "drop_bit 2 a < 64" "push_bit 4 (a AND 3) OR drop_bit 4 b < 64" "push_bit 2 (a AND 15) OR drop_bit 6 b < 64" "a AND 63 < 64"
    "push_bit 4 (a AND 3) < 64" "push_bit 2 (a AND 15) < 64"
proof -
  have less: "x < 64" if "\<not> bit x 6" "\<not> bit x 7" for x :: u8
  proof -
    have "take_bit 6 x = x"
      by (rule byte_eqI) (use that in \<open>auto simp: bit_simps\<close>)
    moreover have "take_bit 6 x < 2 ^ 6"
      using take_bit_nat_less_exp [of 6 "unat x"] by (simp add: word_less_nat_alt unsigned_take_bit_eq)
    ultimately show ?thesis by simp
  qed
  show "drop_bit 2 a < 64" "push_bit 4 (a AND 3) OR drop_bit 4 b < 64" "push_bit 2 (a AND 15) OR drop_bit 6 b < 64" "a AND 63 < 64"
    "push_bit 4 (a AND 3) < 64" "push_bit 2 (a AND 15) < 64"
    by (rule less; auto simp: bit_simps dest: bit_imp_le_length)+
qed


section \<open>Reference encoding\<close>

text \<open>
  The bits of the data, most significant first, in groups of six, the last one filled with zeros; each
  group a character, and \<open>=\<close> to a multiple of four characters.
\<close>

function chunks :: "nat \<Rightarrow> 'a list \<Rightarrow> 'a list list" where
  "chunks n xs = (if n = 0 \<or> xs = [] then [] else take n xs # chunks n (drop n xs))"
  by auto
termination by (relation "measure (length \<circ> snd)") auto

declare chunks.simps [simp del]

definition byte_bits :: "u8 \<Rightarrow> bool list" where
  "byte_bits b = map (bit b) [7, 6, 5, 4, 3, 2, 1, 0]"

definition sextet_char :: "bool list \<Rightarrow> u8" where
  "sextet_char g = base_64_table ! horner_sum of_bool 2 (rev (g @ replicate (6 - length g) False))"

definition ref_base64 :: "u8 list \<Rightarrow> u8 list" where
  "ref_base64 src = map sextet_char (chunks 6 (concat (map byte_bits src))) @ replicate ((3 - length src mod 3) mod 3) pad_char"

text \<open>Lines of 72 characters, each with a line feed.\<close>

definition ref_text :: "u8 list \<Rightarrow> u8 list" where
  "ref_text src = concat (map (\<lambda>l. l @ [newline]) (chunks 72 (ref_base64 src)))"

lemma chunks_Nil [simp]: "chunks n [] = []"
  by (simp add: chunks.simps)

lemma chunks_append: "length xs = n \<Longrightarrow> 0 < n \<Longrightarrow> chunks n (xs @ ys) = xs # chunks n ys"
  by (subst chunks.simps) auto

lemma chunks_last: "length xs < n \<Longrightarrow> xs \<noteq> [] \<Longrightarrow> chunks n xs = [xs]"
  by (subst chunks.simps) auto

text \<open>The characters that the code computes.\<close>

lemma sextet_char_enc:
  assumes "w < (64 :: u8)" "g @ replicate (6 - length g) False = map (bit w) [5, 4, 3, 2, 1, 0]"
  shows "sextet_char g = enc w"
proof -
  have u: "unat w < 2 ^ 6" using assms(1) by (simp add: word_less_nat_alt)
  have "rev (map (bit w) [5, 4, 3, 2, 1, 0]) = map (bit (unat w)) [0..<6]"
    by (simp add: upt_rec bit_unsigned_iff numeral_eq_Suc)
  then have "horner_sum of_bool 2 (rev (g @ replicate (6 - length g) False)) = take_bit 6 (unat w)"
    unfolding assms(2) by (simp only: horner_sum_bit_eq_take_bit)
  then show ?thesis using u by (simp add: sextet_char_def enc_def take_bit_nat_eq_self)
qed

fun quads :: "u8 list \<Rightarrow> u8 list list" where
  "quads (a # b # c # src) =
     [enc (drop_bit 2 a), enc (push_bit 4 (a AND 3) OR drop_bit 4 b), enc (push_bit 2 (b AND 15) OR drop_bit 6 c), enc (c AND 63)] # quads src"
| "quads [a, b] = [[enc (drop_bit 2 a), enc (push_bit 4 (a AND 3) OR drop_bit 4 b), enc (push_bit 2 (b AND 15)), pad_char]]"
| "quads [a] = [[enc (drop_bit 2 a), enc (push_bit 4 (a AND 3)), pad_char, pad_char]]"
| "quads [] = []"

lemma quads_4: "q \<in> set (quads src) \<Longrightarrow> length q = 4"
  by (induction src rule: quads.induct) auto

lemma sextets_3: "chunks 6 (byte_bits a @ byte_bits b @ byte_bits c @ bs) =
  map (bit a) [7, 6, 5, 4, 3, 2] # (map (bit a) [1, 0] @ map (bit b) [7, 6, 5, 4]) # (map (bit b) [3, 2, 1, 0] @ map (bit c) [7, 6])
    # map (bit c) [5, 4, 3, 2, 1, 0] # chunks 6 bs"
proof -
  have "byte_bits a @ byte_bits b @ byte_bits c @ bs = map (bit a) [7, 6, 5, 4, 3, 2] @ (map (bit a) [1, 0] @ map (bit b) [7, 6, 5, 4])
      @ (map (bit b) [3, 2, 1, 0] @ map (bit c) [7, 6]) @ map (bit c) [5, 4, 3, 2, 1, 0] @ bs"
    by (simp add: byte_bits_def)
  then show ?thesis by (simp only: chunks_append length_append length_map list.size)
qed

lemma two_more: "replicate 2 x = [x, x]" "replicate 4 x = [x, x, x, x]"
  by (simp_all add: numeral_eq_Suc)

lemma ref_base64_quads: "ref_base64 src = concat (quads src)"
proof (induction src rule: quads.induct)
  case (1 a b c src)
  have "sextet_char (map (bit a) [7, 6, 5, 4, 3, 2]) = enc (drop_bit 2 a)"
    "sextet_char (map (bit a) [1, 0] @ map (bit b) [7, 6, 5, 4]) = enc (push_bit 4 (a AND 3) OR drop_bit 4 b)"
    "sextet_char (map (bit b) [3, 2, 1, 0] @ map (bit c) [7, 6]) = enc (push_bit 2 (b AND 15) OR drop_bit 6 c)"
    "sextet_char (map (bit c) [5, 4, 3, 2, 1, 0]) = enc (c AND 63)"
    by (rule sextet_char_enc [OF sextet_less(1)] sextet_char_enc [OF sextet_less(2)] sextet_char_enc [OF sextet_less(3)] sextet_char_enc [OF sextet_less(4)];
        auto simp: bit_simps dest: bit_imp_le_length)+
  then show ?case using 1 by (simp add: ref_base64_def sextets_3)
next
  case (2 a b)
  have "byte_bits a @ byte_bits b = map (bit a) [7, 6, 5, 4, 3, 2] @ (map (bit a) [1, 0] @ map (bit b) [7, 6, 5, 4]) @ map (bit b) [3, 2, 1, 0]"
    by (simp add: byte_bits_def)
  then have "chunks 6 (byte_bits a @ byte_bits b) = [map (bit a) [7, 6, 5, 4, 3, 2], map (bit a) [1, 0] @ map (bit b) [7, 6, 5, 4], map (bit b) [3, 2, 1, 0]]"
    by (simp only: chunks_append length_append length_map list.size) (simp add: chunks_last)
  moreover have "sextet_char (map (bit a) [7, 6, 5, 4, 3, 2]) = enc (drop_bit 2 a)"
    "sextet_char (map (bit a) [1, 0] @ map (bit b) [7, 6, 5, 4]) = enc (push_bit 4 (a AND 3) OR drop_bit 4 b)"
    "sextet_char (map (bit b) [3, 2, 1, 0]) = enc (push_bit 2 (b AND 15))"
    by (rule sextet_char_enc [OF sextet_less(1)] sextet_char_enc [OF sextet_less(2)] sextet_char_enc [OF sextet_less(6)];
        auto simp: bit_simps two_more dest: bit_imp_le_length)+
  ultimately show ?case by (simp add: ref_base64_def)
next
  case (3 a)
  have "byte_bits a = map (bit a) [7, 6, 5, 4, 3, 2] @ map (bit a) [1, 0]" by (simp add: byte_bits_def)
  then have "chunks 6 (byte_bits a) = [map (bit a) [7, 6, 5, 4, 3, 2], map (bit a) [1, 0]]"
    by (simp only: chunks_append length_append length_map list.size) (simp add: chunks_last)
  moreover have "sextet_char (map (bit a) [7, 6, 5, 4, 3, 2]) = enc (drop_bit 2 a)"
    "sextet_char (map (bit a) [1, 0]) = enc (push_bit 4 (a AND 3))"
    by (rule sextet_char_enc [OF sextet_less(1)] sextet_char_enc [OF sextet_less(5)];
        auto simp: bit_simps two_more dest: bit_imp_le_length)+
  ultimately show ?case by (simp add: ref_base64_def two_more)
qed (simp add: ref_base64_def)

section \<open>Encoder\<close>

fun wrap :: "nat \<Rightarrow> u8 list list \<Rightarrow> u8 list" where
  "wrap l [] = (if l \<noteq> 0 then [newline] else [])"
| "wrap l (q # qs) = q @ (if l + 4 \<ge> 72 then newline # wrap 0 qs else wrap (l + 4) qs)"

lemma encode_wrap:
  "encode_loop src l = (out, inp, l') \<Longrightarrow> wrap l (quads src) = out @ wrap l' (quads inp) \<and> length inp < 3"
proof (induction src l arbitrary: out inp l' rule: encode_loop.induct)
  case (1 a b c src l)
  obtain o' i' k where r: "encode_loop src (if l + 4 \<ge> 72 then 0 else l + 4) = (o', i', k)"
    by (cases "encode_loop src (if l + 4 \<ge> 72 then 0 else l + 4)")
  show ?case
  proof (cases "l + 4 \<ge> 72")
    case True
    then show ?thesis using "1.IH" [OF refl refl] "1.prems" r by (auto simp: Let_def)
  next
    case False
    then show ?thesis using "1.IH" [OF refl refl] "1.prems" r by (auto simp: Let_def)
  qed
qed auto

lemma base64_encode_wrap: "base64_encode src False = (1, Some (length (wrap 0 (quads src))), wrap 0 (quads src) @ [0])"
proof -
  obtain out inp l where e: "encode_loop src 0 = (out, inp, l)" by (cases "encode_loop src 0")
  note w = encode_wrap [OF e]
  consider "inp = []" | a where "inp = [a]" | a b where "inp = [a, b]"
    using w by (cases inp rule: quads.cases) auto
  then show ?thesis
    by cases (use w in \<open>simp_all add: base64_encode_def e\<close>)
qed

lemma wrap_line:
  "j < 18 \<Longrightarrow> wrap (4 * j) qs = (if j = 0 \<and> qs = [] then [] else concat (take (18 - j) qs) @ newline # wrap 0 (drop (18 - j) qs))"
proof (induction qs arbitrary: j)
  case (Cons q qs)
  show ?case
  proof (cases "j = 17")
    case True
    then show ?thesis by simp
  next
    case False
    then have "wrap (4 * Suc j) qs = concat (take (18 - Suc j) qs) @ newline # wrap 0 (drop (18 - Suc j) qs)"
      using Cons.IH [of "Suc j"] Cons.prems by simp
    moreover have "18 - j = Suc (18 - Suc j)" using Cons.prems by simp
    ultimately show ?thesis using False Cons.prems by (simp add: algebra_simps)
  qed
qed simp

lemma take_drop_concat:
  "(\<And>q. q \<in> set qs \<Longrightarrow> length q = 4) \<Longrightarrow> take (4 * n) (concat qs) = concat (take n qs) \<and> drop (4 * n) (concat qs) = concat (drop n qs)"
proof (induction qs arbitrary: n)
  case (Cons q qs)
  then show ?case by (cases n) auto
qed simp

lemma wrap_lines:
  "(\<And>q. q \<in> set qs \<Longrightarrow> length q = 4) \<Longrightarrow> wrap 0 qs = concat (map (\<lambda>l. l @ [newline]) (chunks 72 (concat qs)))"
proof (induction "length qs" arbitrary: qs rule: less_induct)
  case less
  show ?case
  proof (cases "qs = []")
    case False
    then have ne: "concat qs \<noteq> []" using less.prems [of "hd qs"] by (cases qs) auto
    have "wrap 0 qs = concat (take 18 qs) @ newline # wrap 0 (drop 18 qs)" using wrap_line [of 0 qs] False by simp
    moreover have "wrap 0 (drop 18 qs) = concat (map (\<lambda>l. l @ [newline]) (chunks 72 (concat (drop 18 qs))))"
      using less.hyps [of "drop 18 qs"] less.prems False by (auto dest: in_set_dropD)
    moreover have "take 72 (concat qs) = concat (take 18 qs)" "drop 72 (concat qs) = concat (drop 18 qs)"
      using take_drop_concat [OF less.prems, of qs 18] by auto
    ultimately show ?thesis using ne by (subst chunks.simps) simp
  qed simp
qed

text \<open>
  (C20) The encoder is the reference encoding: for every input it stores the bits of the data in groups
  of six as characters, padded with \<open>=\<close>, in lines of 72 characters that end with a line feed, then
  a 0, and returns 1 and the length without the 0. Without an output buffer it returns 0.
\<close>

theorem base64_encode_reference:
  "base64_encode src False = (1, Some (length (ref_text src)), ref_text src @ [0]) \<and> base64_encode src True = (0, None, [])"
  using base64_encode_wrap [of src] wrap_lines [of "quads src"] quads_4
  by (simp add: ref_text_def ref_base64_quads) (simp add: base64_encode_def)

section \<open>Decoder\<close>

definition valid :: "u8 \<Rightarrow> bool" where
  "valid c \<longleftrightarrow> dtable ! unat c \<noteq> 0x80"

lemma count_valid_eq: "count_valid src = length (filter valid src)"
proof -
  have "fold (\<lambda>c n. if dtable ! unat c \<noteq> 0x80 then n + 1 else n) src k = k + length (filter valid src)" for k
    by (induction src arbitrary: k) (auto simp: valid_def)
  then show ?thesis by (simp add: count_valid_def)
qed

lemma decode_loop_valid: "decode_loop src k inp block out = decode_loop (filter valid src) k inp block out"
  by (induction src arbitrary: k inp block out) (auto simp: valid_def Let_def)

definition dec :: "u8 \<Rightarrow> u8" where "dec c = dtable ! unat c"

lemma decode_quad:
  assumes "list_all valid [p, q, r, t]" "length inp = 4" "length block = 4"
  shows "decode_loop (p # q # r # t # src) 0 inp block out = decode_loop src 0 [p, q, r, t] [dec p, dec q, dec r, dec t]
    (out @ [push_bit 2 (dec p) OR drop_bit 4 (dec q), push_bit 4 (dec q) OR drop_bit 2 (dec r), push_bit 6 (dec r) OR dec t])"
proof -
  obtain i0 i1 i2 i3 b0 b1 b2 b3 where "inp = [i0, i1, i2, i3]" "block = [b0, b1, b2, b3]"
    using assms(2,3) by (auto simp: numeral_eq_Suc length_Suc_conv)
  then show ?thesis using assms(1) by (simp add: valid_def dec_def Let_def)
qed

declare decode_loop.simps(2) [simp del] push_bit_and [simp del]

lemma valid_chars:
  assumes "i < 64"
  shows "valid (enc i)" "dec (enc i) = i"
  using enc_valid(1) [OF assms] enc_char(2) [OF assms] by (simp_all add: valid_def dec_def)

lemma valid_special: "valid pad_char" "dec pad_char = 0" "\<not> valid newline"
  using dtable_special by (simp_all add: valid_def dec_def)

lemmas sextets = sextet_less [THEN valid_chars(1)] sextet_less [THEN valid_chars(2)]

lemma quads_valid: "q \<in> set (quads src) \<Longrightarrow> filter valid q = q"
  by (induction src rule: quads.induct) (auto simp: sextets valid_special)

lemma filter_wrap: "(\<And>q. q \<in> set qs \<Longrightarrow> filter valid q = q) \<Longrightarrow> filter valid (wrap l qs) = concat qs"
  by (induction qs arbitrary: l) (auto simp: valid_special(3))

definition pads :: "u8 list \<Rightarrow> nat" where
  "pads src = (3 - length src mod 3) mod 3"

lemma decode_quads:
  "length inp = 4 \<Longrightarrow> length block = 4 \<Longrightarrow> decode_loop (concat (quads src)) 0 inp block out
    = (if src = [] then inp else last (quads src), out @ src @ replicate (pads src) 0)"
proof (induction src arbitrary: inp block out rule: quads.induct)
  case (1 a b c src)
  have "src = [] \<longleftrightarrow> quads src = []" by (cases src rule: quads.cases) auto
  then show ?case using 1 sextet_bits(1) [of a b] sextet_bits(2) [of a b c] sextet_bits(3) [of b c]
    by (simp add: decode_quad sextets pads_def)
next
  case (2 a b)
  have "push_bit 4 (push_bit 4 (a AND 3) OR drop_bit 4 b) OR drop_bit 2 (push_bit 2 (b AND 15)) = b" "push_bit 6 (push_bit 2 (b AND 15)) = 0"
    using sextet_bits(2) [of a b 0] by (simp_all add: push_bit_and)
  then show ?case using 2 sextet_bits(1) [of a b] by (simp add: decode_quad sextets valid_special pads_def)
next
  case (3 a)
  have "push_bit 2 (drop_bit 2 a) OR drop_bit 4 (push_bit 4 (a AND 3)) = a" "push_bit 4 (push_bit 4 (a AND 3)) = 0"
    using sextet_bits(1) [of a 0] by (simp_all add: push_bit_and)
  then show ?case using 3 by (simp add: decode_quad sextets valid_special pads_def two_more)
qed (simp add: pads_def)

lemma quads_pads:
  assumes "src \<noteq> []"
  shows "last (quads src) ! 2 = pad_char \<longleftrightarrow> pads src = 2" "last (quads src) ! 3 = pad_char \<longleftrightarrow> pads src \<noteq> 0"
proof -
  have ne: "enc i \<noteq> pad_char" if "i < 64" for i using enc_valid(2) [OF that] .
  have "(last (quads src) ! 2 = pad_char \<longleftrightarrow> pads src = 2) \<and> (last (quads src) ! 3 = pad_char \<longleftrightarrow> pads src \<noteq> 0)"
    using assms
  proof (induction src rule: quads.induct)
    case (1 a b c src)
    have q: "src = [] \<longleftrightarrow> quads src = []" by (cases src rule: quads.cases) auto
    then show ?case using 1 ne [OF sextet_less(3) [of b c]] ne [OF sextet_less(4) [of c]]
      by (cases "src = []") (auto simp: pads_def)
  next
    case (2 a b)
    then show ?case using ne [OF sextet_less(6) [of b]] by (simp add: pads_def)
  qed (auto simp: pads_def)
  then show "last (quads src) ! 2 = pad_char \<longleftrightarrow> pads src = 2" "last (quads src) ! 3 = pad_char \<longleftrightarrow> pads src \<noteq> 0"
    by auto
qed

lemma quads_length: "length (quads src) = (length src + 2) div 3"
  by (induction src rule: quads.induct) auto

lemma quads_count: "length (concat (quads src)) = 4 * ((length src + 2) div 3)"
proof -
  have "length (concat (quads src)) = 4 * length (quads src)" by (induction src rule: quads.induct) auto
  then show ?thesis by (simp add: quads_length)
qed

lemma wrap_count: "filter valid (wrap 0 (quads src)) = concat (quads src)" "count_valid (wrap 0 (quads src)) = 4 * ((length src + 2) div 3)"
  using filter_wrap [OF quads_valid] by (simp_all add: count_valid_eq quads_count)

lemma pads_le: "pads src \<le> 2" "pads src = 2 \<or> pads src = 1 \<or> pads src = 0"
  unfolding pads_def by auto

lemma decode_wrap: "base64_decode True (wrap 0 (quads src)) False = (1, Some (length src), src @ replicate (pads src) 0)"
proof (cases "src = []")
  case True
  then show ?thesis by (simp add: base64_decode_def count_valid_def pads_def)
next
  case False
  have "decode_loop (wrap 0 (quads src)) 0 (replicate 4 0) (replicate 4 0) [] = (last (quads src), src @ replicate (pads src) 0)"
    using decode_quads [of "replicate 4 0" "replicate 4 0" src "[]"] False
    by (simp add: decode_loop_valid [of "wrap 0 (quads src)"] wrap_count(1))
  then show ?thesis using quads_pads [OF False] pads_le(2) [of src] False by (auto simp: base64_decode_def wrap_count(2))
qed

text \<open>
  (C10) Decoding undoes encoding, for every input: the text the encoder stores, without the 0, decodes with
  return value 1 to the same number of bytes and to the same bytes. At most two further bytes of the
  output buffer are overwritten with 0.
\<close>

theorem base64_decode_encode:
  "case base64_encode src False of (_, _, text) \<Rightarrow>
     \<exists>k\<le>2. base64_decode True (butlast text) False = (1, Some (length src), src @ replicate k 0)"
  using decode_wrap [of src] pads_le(1) [of src] by (auto simp: base64_encode_wrap)

section \<open>Sizes\<close>

text \<open>The line feeds.\<close>

lemma wrap_length: "l < 72 \<Longrightarrow> 4 dvd l \<Longrightarrow> (\<And>q. q \<in> set qs \<Longrightarrow> length q = 4) \<Longrightarrow>
  length (wrap l qs) = 4 * length qs + (l + 4 * length qs + 71) div 72"
proof (induction qs arbitrary: l)
  case (Cons q qs)
  show ?case
  proof (cases "l + 4 \<ge> 72")
    case True
    then have "l = 68" using Cons.prems(1,2) by presburger
    then show ?thesis using Cons.IH [of 0] Cons.prems(3) by simp
  next
    case False
    then show ?thesis using Cons.IH [of "l + 4"] Cons.prems(2,3) by (simp add: algebra_simps)
  qed
qed auto

lemma encode_size: "4 * ((n + 2) div 3) + (4 * ((n + 2) div 3) + 71) div 72 + 1 \<le> (n * 4 div 3 + 4) + (n * 4 div 3 + 4) div 72 + (1 :: nat)"
proof -
  have e: "4 * ((n + 2) div 3) + 1 \<le> n * 4 div 3 + 4" by presburger
  then have "(4 * ((n + 2) div 3) + 71) div 72 \<le> (n * 4 div 3 + 4 + 72) div 72" by (intro div_le_mono) simp
  also have "\<dots> = (n * 4 div 3 + 4) div 72 + 1" by (rule div_add_self2) simp
  finally show ?thesis using e by simp
qed

lemma calc_encode_length:
  assumes "n < 2 ^ 30"
  shows "unat (base64_calc_encode_length (of_nat n)) = (n * 4 div 3 + 4) + (n * 4 div 3 + 4) div 72 + 1"
proof -
  have "unat (of_nat (n * 4) :: u32) = n * 4" using assms by (subst unat_of_nat) simp
  then have "unat (of_nat n * 4 :: u32) = n * 4" by simp
  then have "(of_nat n * 4 div 3 :: u32) = of_nat (n * 4 div 3)" using assms by (simp add: word_unat_eq_iff unat_div unat_of_nat)
  then have 1: "(of_nat n * 4 div 3 + 4 :: u32) = of_nat (n * 4 div 3 + 4)" by simp
  have "unat (of_nat (n * 4 div 3 + 4) :: u32) = n * 4 div 3 + 4" using assms by (subst unat_of_nat) simp
  then have "(of_nat (n * 4 div 3 + 4) :: u32) div 72 = of_nat ((n * 4 div 3 + 4) div 72)"
    using assms by (simp only: word_unat_eq_iff unat_div) (simp add: unat_of_nat)
  then have "base64_calc_encode_length (of_nat n) = of_nat ((n * 4 div 3 + 4) + (n * 4 div 3 + 4) div 72 + 1)"
    unfolding base64_calc_encode_length_def 1 Let_def by simp
  then show ?thesis using assms by (simp only:) (subst unat_of_nat, simp)
qed

text \<open>
  The buffer size that \<open>base64_calc_encode_length\<close> computes is enough: for data of less than
  \<open>2\<^sup>3\<^sup>0\<close> bytes, where its multiplication does not wrap, all bytes that the encoder stores, the
  line feeds and the 0 included, fit.
\<close>

theorem base64_encode_fits:
  assumes "length src < 2 ^ 30"
  shows "case base64_encode src False of (_, _, stored) \<Rightarrow> length stored \<le> unat (base64_calc_encode_length (of_nat (length src)))"
  using calc_encode_length [OF assms] wrap_length [of 0 "quads src"] quads_4 encode_size [of "length src"]
  by (auto simp: base64_encode_wrap quads_length)

theorem base64_encode_fits_witness:
  "length (snd (snd (base64_encode (replicate 55 7) False))) \<le> unat (base64_calc_encode_length 55)"
  using base64_encode_fits [of "replicate 55 7"] by (auto split: prod.split_asm)

lemma decode_loop_length:
  "k < 4 \<Longrightarrow> decode_loop src k inp block out = (inp', out') \<Longrightarrow> length out' = length out + 3 * ((k + length (filter valid src)) div 4)"
proof (induction src arbitrary: k inp block out)
  case (Cons c src)
  consider "\<not> valid c" | "valid c" "k = 3" | "valid c" "Suc k < 4" using Cons.prems(1) by linarith
  then show ?case
  proof cases
    case 1
    then show ?thesis using Cons.IH [OF Cons.prems(1)] Cons.prems(2) by (simp add: decode_loop.simps(2) valid_def [of c] Let_def)
  next
    case 2
    have "(4 + length (filter valid src)) div 4 = 1 + length (filter valid src) div 4" by simp
    then show ?thesis using 2 Cons.prems(2)
      by (auto simp: decode_loop.simps(2) valid_def [of c] Let_def dest!: Cons.IH [of 0, OF zero_less_numeral])
  next
    case 3
    then show ?thesis using Cons.prems(2) by (auto simp: decode_loop.simps(2) valid_def [of c] Let_def dest!: Cons.IH [OF 3(2)])
  qed
qed auto

text \<open>
  The decoder on any text. Without memory it returns 0 and the length 0; when the number of code
  characters is not a multiple of four it returns 0 and stores nothing; otherwise it returns 1 and
  stores three bytes for four characters, which is within the size that
  \<open>base64_calc_decode_length\<close> gives, and the length it returns is at most two less.
\<close>

theorem base64_decode_total:
  "base64_decode False text out_null = (0, Some 0, [])
   \<and> (count_valid text mod 4 \<noteq> 0 \<longrightarrow> base64_decode True text out_null = (0, None, []))
   \<and> (count_valid text mod 4 = 0 \<longrightarrow> (\<exists>n out. base64_decode True text False = (1, Some n, out)
        \<and> length out = 3 * (count_valid text div 4) \<and> length out \<le> base64_calc_decode_length True text
        \<and> length out - 2 \<le> n \<and> n \<le> length out))"
proof (intro conjI impI)
  assume c: "count_valid text mod 4 = 0"
  obtain inp out where d: "decode_loop text 0 (replicate 4 0) (replicate 4 0) [] = (inp, out)"
    by (cases "decode_loop text 0 (replicate 4 0) (replicate 4 0) []")
  have l: "length out = 3 * (count_valid text div 4)" using decode_loop_length [OF _ d] by (simp add: count_valid_eq)
  moreover have "length out \<le> base64_calc_decode_length True text" using c l by (simp add: base64_calc_decode_length_def)
  ultimately show "\<exists>n out. base64_decode True text False = (1, Some n, out)
        \<and> length out = 3 * (count_valid text div 4) \<and> length out \<le> base64_calc_decode_length True text
        \<and> length out - 2 \<le> n \<and> n \<le> length out"
    using c d by (auto simp: base64_decode_def Let_def)
qed (simp_all add: base64_decode_def)

theorem base64_decode_total_witness: "base64_decode True [65, 65, 10, 65] True = (0, None, [])"
proof -
  have "enc 0 = 65" by (simp add: enc_def base_64_table_eq)
  then have "valid 65" "\<not> valid 10" using valid_chars(1) [of 0] valid_special(3) by simp_all
  then have "count_valid [65, 65, 10, 65] = 3" by (simp add: count_valid_eq)
  then show ?thesis using base64_decode_total [of "[65, 65, 10, 65]" True] by simp
qed
end
