(* ===== verification/Bk_Ef.thy ===== *)
theory Bk_Ef
  imports Base64
begin

text \<open>
  Binary environment variables, \<open>func/easy_flash/bk_ef.c\<close>: buffers stored as Base64 text in the
  environment. The environment itself is the EasyFlash library, whose \<open>ef_set_env\<close> and \<open>ef_get_env\<close>
  are arguments. A string is the list of its bytes without the final 0. The results of \<open>os_zalloc\<close>
  are arguments; a write past the end of an allocated block, and a failed \<open>ASSERT\<close>, are \<open>None\<close>.
\<close>

datatype EfErrCode = EF_NO_ERR | EF_ERASE_ERR | EF_WRITE_ERR | EF_ENV_NAME_ERR | EF_ENV_NAME_EXIST
  | EF_ENV_FULL | EF_ENV_INIT_FAILED

definition bk_get_env :: "('k \<Rightarrow> 's \<Rightarrow> u8 list option) \<Rightarrow> 'k \<Rightarrow> 's \<Rightarrow> u8 list option" where
  "bk_get_env ef_get_env key s = ef_get_env key s"

definition bk_set_env :: "('k \<Rightarrow> u8 list \<Rightarrow> 's \<Rightarrow> EfErrCode \<times> 's) \<Rightarrow> 'k \<Rightarrow> u8 list \<Rightarrow> 's \<Rightarrow> EfErrCode \<times> 's" where
  "bk_set_env ef_set_env key val s = ef_set_env key val s"

definition bk_save_env :: "('s \<Rightarrow> EfErrCode \<times> 's) \<Rightarrow> 's \<Rightarrow> EfErrCode \<times> 's" where
  "bk_save_env ef_save_env s = ef_save_env s"

text \<open>The string that starts at a buffer.\<close>

definition c_string :: "u8 list \<Rightarrow> u8 list" where
  "c_string bs = takeWhile (\<lambda>b. b \<noteq> 0) bs"

definition bk_set_buf_env ::
  "('k \<Rightarrow> u8 list \<Rightarrow> 's \<Rightarrow> EfErrCode \<times> 's) \<Rightarrow> bool \<Rightarrow> 'k option \<Rightarrow> u8 list option \<Rightarrow> 's \<Rightarrow> (EfErrCode \<times> 's) option" where
  "bk_set_buf_env ef_set_env alloc key buf s =
     (case (key, buf) of
        (Some key, Some buf) \<Rightarrow>
          if length buf = 0 then Some (EF_ENV_INIT_FAILED, s)
          else
            let buf_len = base64_calc_encode_length (of_nat (length buf)) + 4 in
            if \<not> alloc then Some (EF_ENV_INIT_FAILED, s)
            else (case base64_encode buf False of (ret, out_len, stored) \<Rightarrow>
              if length stored > unat buf_len then None
              else if ret = 0 then Some (EF_ENV_INIT_FAILED, s)
              else Some (ef_set_env key (c_string stored) s))
      | _ \<Rightarrow> Some (EF_ENV_INIT_FAILED, s))"

text \<open>
  \<open>alloc1\<close> and \<open>alloc3\<close>: the tables of \<open>base64_calc_decode_length\<close> and \<open>base64_decode\<close>; \<open>alloc2\<close>: the
  output block. The result is the return value and the buffer of the caller.
\<close>

definition bk_get_buf_env ::
  "('k \<Rightarrow> 's \<Rightarrow> u8 list option) \<Rightarrow> bool \<Rightarrow> bool \<Rightarrow> bool \<Rightarrow> 'k \<Rightarrow> u8 list \<Rightarrow> 's \<Rightarrow> (EfErrCode \<times> u8 list) option" where
  "bk_get_buf_env ef_get_env alloc1 alloc2 alloc3 key buf s =
     (case ef_get_env key s of None \<Rightarrow> Some (EF_ENV_NAME_ERR, buf)
      | Some ef_value \<Rightarrow>
          if length ef_value = 0 then Some (EF_ENV_INIT_FAILED, buf)
          else
            let out_buf_len = base64_calc_decode_length alloc1 ef_value in
            if \<not> alloc2 then Some (EF_ENV_INIT_FAILED, buf)
            else (case base64_decode alloc3 ef_value False of (ret, out_len, out) \<Rightarrow>
              if length out > out_buf_len + 4 then None
              else if ret = 0 then Some (EF_ENV_INIT_FAILED, buf)
              else if the out_len \<noteq> 0 then
                (let count = min (length buf) (the out_len) in
                 if length buf \<noteq> the out_len then None
                 else Some (EF_NO_ERR, take count out @ drop count buf))
              else Some (EF_NO_ERR, buf)))"

end
