(* ===== verification/Bk_Ef_Props.thy ===== *)
theory Bk_Ef_Props
  imports Bk_Ef Base64_Props
begin

text \<open>Binary environment variables: what is stored is read back, and the error paths.\<close>

lemma quads_nonzero: "q \<in> set (quads src) \<Longrightarrow> c \<in> set q \<Longrightarrow> c \<noteq> 0"
  by (induction src rule: quads.induct) (auto simp: sextet_less [THEN enc_valid(4)] simp del: push_bit_and)

lemma wrap_nonzero: "c \<in> set (wrap l (quads src)) \<Longrightarrow> c \<noteq> 0"
proof -
  have "c \<in> set (wrap l qs) \<Longrightarrow> c = newline \<or> (\<exists>q\<in>set qs. c \<in> set q)" for qs
    by (induction qs arbitrary: l) (auto split: if_split_asm)
  then show "c \<in> set (wrap l (quads src)) \<Longrightarrow> c \<noteq> 0" using quads_nonzero by fastforce
qed

lemma stored_text: "c_string (wrap 0 (quads src) @ [0]) = wrap 0 (quads src)"
  using wrap_nonzero by (auto simp: c_string_def takeWhile_append2)

lemma stored_fits:
  assumes "length src < 2 ^ 30"
  shows "length (wrap 0 (quads src)) + 1 \<le> unat (base64_calc_encode_length (of_nat (length src)) + 4)"
proof -
  let ?n = "length src"
  have c: "unat (base64_calc_encode_length (of_nat ?n)) = (?n * 4 div 3 + 4) + (?n * 4 div 3 + 4) div 72 + 1"
    by (rule calc_encode_length [OF assms])
  then have "unat (base64_calc_encode_length (of_nat ?n) + 4) = unat (base64_calc_encode_length (of_nat ?n)) + 4"
    using assms by (subst unat_plus_simple [THEN iffD1]) (auto simp: no_olen_add_nat)
  moreover have "length (wrap 0 (quads src)) + 1 \<le> unat (base64_calc_encode_length (of_nat ?n))"
    unfolding c using wrap_length [of 0 "quads src"] quads_4 encode_size [of ?n] by (auto simp: quads_length)
  ultimately show ?thesis by simp
qed

lemma pads_total: "length src + pads src = 3 * ((length src + 2) div 3)"
proof -
  have h: "n mod 3 = 0 \<Longrightarrow> n = 3 * ((n + 2) div 3)" "n mod 3 = 1 \<Longrightarrow> n + 2 = 3 * ((n + 2) div 3)"
    "n mod 3 = 2 \<Longrightarrow> n + 1 = 3 * ((n + 2) div 3)" for n :: nat by presburger+
  consider "length src mod 3 = 0" | "length src mod 3 = 1" | "length src mod 3 = 2" by linarith
  then show ?thesis by cases (use h [of "length src"] in \<open>simp_all add: pads_def\<close>)
qed

text \<open>
  (C21) A buffer stored in the environment is read back, when the allocations succeed. For every non-empty buffer
  below \<open>2\<^sup>3\<^sup>0\<close> bytes \<open>bk_set_buf_env\<close> hands a text to \<open>ef_set_env\<close> and returns its result; whenever \<open>ef_get_env\<close> gives
  that text back, \<open>bk_get_buf_env\<close> with a buffer of the same length returns \<open>EF_NO_ERR\<close> and the
  bytes, and then neither function writes past a block it allocates. (When the allocation in
  \<open>base64_calc_decode_length\<close> fails, one does: \<open>bk_get_buf_env_overflows\<close>.)
\<close>

theorem buf_env_roundtrip:
  assumes "data \<noteq> []" and "length data < 2 ^ 30"
  shows "\<exists>text. bk_set_buf_env ef_set_env True (Some key) (Some data) s = Some (ef_set_env key text s)
     \<and> (\<forall>s' buf. ef_get_env key s' = Some text \<longrightarrow> length buf = length data \<longrightarrow>
          bk_get_buf_env ef_get_env True True True key buf s' = Some (EF_NO_ERR, data))"
proof (intro exI conjI allI impI)
  let ?t = "wrap 0 (quads data)"
  show "bk_set_buf_env ef_set_env True (Some key) (Some data) s = Some (ef_set_env key ?t s)"
    using stored_fits [OF assms(2)] assms(1) by (simp add: bk_set_buf_env_def base64_encode_wrap stored_text Let_def)
  fix s' and buf :: "u8 list"
  assume g: "ef_get_env key s' = Some ?t" and b: "length buf = length data"
  have ne: "?t \<noteq> []" using assms(1) by (cases data rule: quads.cases) auto
  have "length data + pads data = 3 * ((length data + 2) div 3)" by (rule pads_total)
  then have "length data + pads data \<le> base64_calc_decode_length True ?t"
    by (simp add: base64_calc_decode_length_def wrap_count(2))
  then show "bk_get_buf_env ef_get_env True True True key buf s' = Some (EF_NO_ERR, data)"
    using g b ne assms(1) by (simp add: bk_get_buf_env_def decode_wrap Let_def)
qed

text \<open>An environment with one variable.\<close>

definition one_set :: "nat \<Rightarrow> u8 list \<Rightarrow> u8 list option \<Rightarrow> EfErrCode \<times> u8 list option" where
  "one_set key v s = (EF_NO_ERR, Some v)"

theorem buf_env_roundtrip_witness:
  "\<exists>s. bk_set_buf_env one_set True (Some (5 :: nat)) (Some [1, 0, 255]) None = Some (EF_NO_ERR, s)
     \<and> bk_get_buf_env (\<lambda>_ s. s) True True True (5 :: nat) [0, 0, 0] s = Some (EF_NO_ERR, [1, 0, 255])"
  using buf_env_roundtrip [of "[1, 0, 255]" one_set 5 None "\<lambda>_ s. s"] by (auto simp: one_set_def)

text \<open>
  When only the table of \<open>base64_calc_decode_length\<close> cannot be allocated, the length 0 that it
  returns is taken for the size of the text: the decoder writes past a block of four bytes.
\<close>

theorem bk_get_buf_env_overflows:
  assumes "4 < length data" and "ef_get_env key s = Some (wrap 0 (quads data))"
  shows "bk_get_buf_env ef_get_env False True True key buf s = None"
proof -
  have "wrap 0 (quads data) \<noteq> []" using assms(1) by (cases data rule: quads.cases) auto
  then show ?thesis using assms by (simp add: bk_get_buf_env_def decode_wrap base64_calc_decode_length_def Let_def)
qed

end
