(* ===== verification/Rtc_Time.thy ===== *)
theory Rtc_Time
  imports Prelude "HOL-Library.Signed_Division"
begin

text \<open>
  Calendar time: \<open>func/rtc/rtc_time.c\<close>. A value of type \<open>time_t_at\<close> or \<open>int\<close> is an \<open>int\<close>; \<open>/\<close> and \<open>%\<close> of C
  are \<open>sdiv\<close> and \<open>smod\<close>, which truncate, and the conversion of a \<open>time_t_at\<close> to \<open>int\<close> is \<open>to_int\<close>. Sums and
  products of type \<open>int\<close> that overflow are undefined in C and not modelled. An access outside the
  table \<open>__spm\<close> is \<open>None\<close>.
\<close>

definition to_int :: "int \<Rightarrow> int" where
  "to_int x = signed_take_bit 31 x"

definition spm :: "int list" where
  "spm = [0, 31, 31+28, 31+28+31, 31+28+31+30, 31+28+31+30+31, 31+28+31+30+31+30, 31+28+31+30+31+30+31,
     31+28+31+30+31+30+31+31, 31+28+31+30+31+30+31+31+30, 31+28+31+30+31+30+31+31+30+31,
     31+28+31+30+31+30+31+31+30+31+30, 31+28+31+30+31+30+31+31+30+31+30+31]"

definition spm_at :: "int \<Rightarrow> int option" where
  "spm_at i = (if 0 \<le> i \<and> i < 13 then Some (spm ! nat i) else None)"

definition SPD :: int where "SPD = 24 * 60 * 60"

record tm_at =
  tm_sec :: int
  tm_min :: int
  tm_hour :: int
  tm_mday :: int
  tm_mon :: int
  tm_year :: int
  tm_wday :: int
  tm_yday :: int

definition isleap :: "int \<Rightarrow> bool" where
  "isleap year \<longleftrightarrow> year smod 4 = 0 \<and> (year smod 100 \<noteq> 0 \<or> year smod 400 = 0)"

section \<open>Seconds to fields\<close>

text \<open>The loop over the years and the loop over the months.\<close>

function year_loop :: "int \<Rightarrow> int \<Rightarrow> int \<times> int" where
  "year_loop i work =
     (let k = (if isleap (to_int i) then 366 else 365) in
      if work \<ge> k then year_loop (i + 1) (work - k) else (i, work))"
  by auto
termination by (relation "measure (\<lambda>(i, work). nat work)") (auto split: if_split_asm)

fun month_loop :: "nat \<Rightarrow> int \<Rightarrow> nat" where
  "month_loop 0 work = 0"
| "month_loop (Suc i) work = (if spm ! Suc i > work then month_loop i work else Suc i)"

definition gmtime_r_at :: "int \<Rightarrow> tm_at" where
  "gmtime_r_at t =
     (let work = t smod SPD;
          sec = work smod 60;
          work = work sdiv 60;
          min = work smod 60;
          hour = work sdiv 60;
          work = t sdiv SPD;
          wday = (4 + work) smod 7;
          (i, work) = year_loop 1970 work;
          year = i - 1900;
          yday = work;
          (mday, work) = (if isleap (to_int i) \<and> work > 58 then (if work = 59 then 2 else 1, work - 1) else (1, work));
          mon = month_loop 11 work
      in \<lparr>tm_sec = to_int sec, tm_min = to_int min, tm_hour = to_int hour, tm_mday = to_int (mday + (work - spm ! mon)),
          tm_mon = int mon, tm_year = to_int year, tm_wday = to_int wday, tm_yday = to_int yday\<rparr>)"

text \<open>\<open>gettimeofday_at\<close> leaves the time zone as it is, with 0 minutes.\<close>

definition localtime_r_at :: "int \<Rightarrow> tm_at" where
  "localtime_r_at t =
     (let tz_minuteswest = 0;
          timezone = tz_minuteswest * 60
      in gmtime_r_at (t + timezone))"

definition localtime_at :: "int \<Rightarrow> tm_at" where
  "localtime_at t = localtime_r_at t"

section \<open>Fields to seconds\<close>

definition carry_fields :: "tm_at \<Rightarrow> tm_at" where
  "carry_fields t =
     (let t = (if tm_sec t > 60 then t\<lparr>tm_min := tm_min t + tm_sec t sdiv 60, tm_sec := tm_sec t smod 60\<rparr> else t);
          t = (if tm_min t > 60 then t\<lparr>tm_hour := tm_hour t + tm_min t sdiv 60, tm_min := tm_min t smod 60\<rparr> else t);
          t = (if tm_hour t > 24 then t\<lparr>tm_mday := tm_mday t + tm_hour t sdiv 24, tm_hour := tm_hour t smod 24\<rparr> else t)
      in if tm_mon t > 12 then t\<lparr>tm_year := tm_year t + tm_mon t sdiv 12, tm_mon := tm_mon t smod 12\<rparr> else t)"

partial_function (option) mday_loop :: "tm_at \<Rightarrow> tm_at option" where
  "mday_loop t = spm_at (1 + tm_mon t) \<bind> (\<lambda>m.
     if tm_mday t > m then
       let t = (if tm_mon t = 1 \<and> isleap (tm_year t + 1900) then t\<lparr>tm_mday := tm_mday t - 1\<rparr> else t) in
       spm_at (tm_mon t) \<bind> (\<lambda>d.
         let t = t\<lparr>tm_mday := tm_mday t - d, tm_mon := tm_mon t + 1\<rparr>;
             t = (if tm_mon t > 11 then t\<lparr>tm_mon := 0, tm_year := tm_year t + 1\<rparr> else t)
         in mday_loop t)
     else Some t)"

text \<open>The correction of the day for the century years.\<close>

definition century_days :: "int \<Rightarrow> int" where
  "century_days years =
     (if years \<ge> 131 then
        (let years = (years - 131) sdiv 100;
             d = (years div 4) * 3 + 1;
             years = years mod 4;
             years = (if years = 3 then years - 1 else years)
         in d + years)
      else 0)"

text \<open>The result and the updated fields.\<close>

definition mktime_at :: "tm_at \<Rightarrow> (int \<times> tm_at) option" where
  "mktime_at t = (let years = tm_year t - 70 in
     mday_loop (carry_fields t) \<bind> (\<lambda>t.
       if tm_year t < 70 then Some (-1, t)
       else
         let day = years * 365 + (years + 1) sdiv 4 - century_days years in
         spm_at (tm_mon t) \<bind> (\<lambda>m.
           let yday = m + tm_mday t - 1 + (if isleap (tm_year t + 1900) \<and> tm_mon t > 1 then 1 else 0);
               day = day + yday;
               wday = (day + 4) smod 7;
               t = t\<lparr>tm_yday := yday, tm_wday := to_int wday\<rparr>;
               day = day * 24
           in Some (((day + tm_hour t) * 60 + tm_min t) * 60 + tm_sec t, t))))"

section \<open>Text\<close>

definition days :: string where "days = ''Sun Mon Tue Wed Thu Fri Sat ''"
definition months :: string where "months = ''Jan Feb Mar Apr May Jun Jul Aug Sep Oct Nov Dec ''"

text \<open>Four characters of a name table, for an index within it.\<close>

definition name4 :: "string \<Rightarrow> int \<Rightarrow> u8 list option" where
  "name4 tbl i = (if 0 \<le> i \<and> 4 * i + 4 \<le> int (length tbl) then Some (map of_char (take 4 (drop (4 * nat i) tbl))) else None)"

definition num2str :: "int \<Rightarrow> u8 list" where
  "num2str i = [of_int (i sdiv 10 + 48), of_int (i smod 10 + 48)]"

definition asctime_r_at :: "tm_at \<Rightarrow> u8 list option" where
  "asctime_r_at t = do {
     d \<leftarrow> name4 days (tm_wday t);
     m \<leftarrow> name4 months (tm_mon t);
     let md = num2str (tm_mday t);
     let md = (if md ! 0 = 48 then md[0 := 32] else md);
     Some (d @ m @ md @ [32] @ num2str (tm_hour t) @ [58] @ num2str (tm_min t) @ [58] @ num2str (tm_sec t) @ [32]
           @ num2str ((tm_year t + 1900) sdiv 100) @ num2str ((tm_year t + 1900) smod 100) @ [10]) }"

definition asctime_at :: "tm_at \<Rightarrow> u8 list option" where
  "asctime_at t = asctime_r_at t"

definition ctime_at :: "int \<Rightarrow> u8 list option" where
  "ctime_at timep = asctime_at (localtime_at timep)"

end
