(* ===== verification/Rtc_Time_Props.thy ===== *)
theory Rtc_Time_Props
  imports Rtc_Time
begin

text \<open>
  The calendar: the fields and the seconds against a reference that counts days year by year and month
  by month.
\<close>

declare year_loop.simps [simp del]

section \<open>Reference calendar\<close>

definition leap :: "int \<Rightarrow> bool" where
  "leap y \<longleftrightarrow> y mod 4 = 0 \<and> (y mod 100 \<noteq> 0 \<or> y mod 400 = 0)"

definition year_days :: "int \<Rightarrow> int" where
  "year_days y = (if leap y then 366 else 365)"

definition month_days :: "int \<Rightarrow> nat \<Rightarrow> int" where
  "month_days y m = [31, if leap y then 29 else 28, 31, 30, 31, 30, 31, 31, 30, 31, 30, 31] ! m"

text \<open>The days from 1 January 1970 to a date.\<close>

definition civil_days :: "int \<Rightarrow> nat \<Rightarrow> int \<Rightarrow> int" where
  "civil_days y m d = (\<Sum>k\<in>{1970..<y}. year_days k) + (\<Sum>k<m. month_days y k) + (d - 1)"

definition civil_secs :: "tm_at \<Rightarrow> int" where
  "civil_secs t = ((civil_days (tm_year t + 1900) (nat (tm_mon t)) (tm_mday t) * 24 + tm_hour t) * 60 + tm_min t) * 60 + tm_sec t"

definition valid_date :: "int \<Rightarrow> int \<Rightarrow> int \<Rightarrow> bool" where
  "valid_date y m d \<longleftrightarrow> 1970 \<le> y \<and> 0 \<le> m \<and> m < 12 \<and> 1 \<le> d \<and> d \<le> month_days y (nat m)"

definition valid_tm :: "tm_at \<Rightarrow> bool" where
  "valid_tm t \<longleftrightarrow> valid_date (tm_year t + 1900) (tm_mon t) (tm_mday t)
     \<and> 0 \<le> tm_hour t \<and> tm_hour t < 24 \<and> 0 \<le> tm_min t \<and> tm_min t < 60 \<and> 0 \<le> tm_sec t \<and> tm_sec t < 60"

section \<open>Arithmetic of C on values that are not negative\<close>

lemma sdiv_nonneg [simp]: "0 \<le> a \<Longrightarrow> 0 < b \<Longrightarrow> (a :: int) sdiv b = a div b"
  by (simp add: signed_divide_int_def sgn_if)

lemma smod_nonneg [simp]: "0 \<le> a \<Longrightarrow> 0 < b \<Longrightarrow> (a :: int) smod b = a mod b"
  by (cases "a = 0") (simp_all add: signed_modulo_int_def sgn_if)

lemma to_int_id [simp]: "- (2 ^ 31) \<le> x \<Longrightarrow> x < 2 ^ 31 \<Longrightarrow> to_int x = x"
  unfolding to_int_def by (rule signed_take_bit_int_eq_self) auto

lemma to_int_small: "-2147483648 \<le> x \<Longrightarrow> x < 2147483648 \<Longrightarrow> to_int x = x"
  by (rule to_int_id) simp_all

lemma isleap_leap: "0 \<le> y \<Longrightarrow> isleap y = leap y"
  by (simp add: isleap_def leap_def)

lemma less12: "m < 12 \<Longrightarrow> m \<in> {0, 1, 2, 3, 4, 5, 6, 7, 8, 9, 10, 11 :: nat}"
  by (simp add: numeral_eq_Suc less_Suc_eq)

lemma spm_step: "m < 12 \<Longrightarrow> spm ! Suc m + (if leap y \<and> 0 < m then 1 else 0) = spm ! m + (if leap y \<and> 1 < m then 1 else 0) + month_days y m"
  by (drule less12, elim insertE emptyE) (simp_all add: month_days_def spm_def)

lemma spm_sum: "m \<le> 12 \<Longrightarrow> (\<Sum>k<m. month_days y k) = spm ! m + (if leap y \<and> 1 < m then 1 else 0)"
proof (induction m)
  case (Suc m)
  then show ?case using spm_step [of m y] by auto
qed (simp add: spm_def)

lemma month_days_le: "m < 12 \<Longrightarrow> month_days y m \<le> spm ! Suc m"
  by (drule less12, elim insertE emptyE) (simp_all add: month_days_def spm_def)

section \<open>Days before a year\<close>

lemma year_days_pos: "365 \<le> year_days y" "year_days y \<le> 366"
  by (simp_all add: year_days_def)

lemma century_closed: "0 \<le> n \<Longrightarrow> century_days n = (n + 69) div 100 - (n + 369) div 400"
proof (cases "n \<ge> 131")
  case True
  define a b r where "a = (n - 131) div 100 div 4" and "b = (n - 131) div 100 mod 4" and "r = (n - 131) mod 100"
  have q: "(n - 131) div 100 = 4 * a + b" by (simp add: a_def b_def)
  have b: "0 \<le> b" "b < 4" and r: "0 \<le> r" "r < 100" by (simp_all add: b_def r_def)
  have "n - 131 = 100 * ((n - 131) div 100) + r" by (simp add: r_def)
  then have n: "n = 400 * a + 100 * b + r + 131" using q by linarith
  have "(n + 69) div 100 = 4 * a + b + 2" using n r by linarith
  moreover have "(n + 369) div 400 = a + (if b = 3 then 2 else 1)" using n b r by (cases "b = 3") (simp; linarith)+
  moreover have "century_days n = a * 3 + 1 + (if b = 3 then 2 else b)"
    using True q b by (simp add: century_days_def a_def [symmetric] b_def [symmetric] Let_def)
  ultimately show ?thesis using b by auto
next
  case False
  assume "0 \<le> n"
  then consider "(n + 69) div 100 = 0" "(n + 369) div 400 = 0" | "(n + 69) div 100 = 1" "(n + 369) div 400 = 1"
    using False by (cases "n \<ge> 31") linarith+
  then have "(n + 69) div 100 = (n + 369) div 400" by cases simp_all
  then show ?thesis using False by (simp add: century_days_def)
qed

text \<open>The number of leap days is the one that the formula of \<open>mktime_at\<close> counts.\<close>

lemma div_step:
  assumes "0 < (d :: int)"
  shows "(x + 1) div d = x div d + (if (x + 1) mod d = 0 then 1 else 0)"
proof -
  have x: "x = d * (x div d) + x mod d" "0 \<le> x mod d" "x mod d < d" using assms by simp_all
  show ?thesis
  proof (cases "x mod d + 1 < d")
    case True
    have e: "x + 1 = d * (x div d) + (x mod d + 1)" using x(1) by simp
    have "(x + 1) div d = x div d" by (rule int_div_pos_eq [OF e]) (use x True in auto)
    moreover have "(x + 1) mod d = x mod d + 1" by (rule int_mod_pos_eq [OF e]) (use x True in auto)
    ultimately show ?thesis using x by simp
  next
    case False
    have "d * (x div d + 1) = d * (x div d) + d" by (simp add: distrib_left)
    then have e: "x + 1 = d * (x div d + 1) + 0" using x False by linarith
    have "(x + 1) div d = x div d + 1" by (rule int_div_pos_eq [OF e]) (use assms in auto)
    moreover have "(x + 1) mod d = 0" by (rule int_mod_pos_eq [OF e]) (use assms in auto)
    ultimately show ?thesis by simp
  qed
qed

lemma leap_count:
  "(r \<Longrightarrow> q) \<Longrightarrow> (q \<Longrightarrow> p) \<Longrightarrow> a' = a + (if p then 1 else 0) \<Longrightarrow> b' = b + (if q then 1 else 0) \<Longrightarrow> c' = c + (if r then 1 else 0) \<Longrightarrow>
   a' - b' + c' = a - b + c + (if p \<and> (\<not> q \<or> r) then 1 else (0 :: int))"
  by auto

lemma leap_step:
  shows "(n + 2) div 4 - (n + 70) div 100 + (n + 370) div 400
    = (n + 1) div 4 - (n + 69) div 100 + (n + 369) div 400 + (if leap (1970 + n) then 1 else (0 :: int))"
proof -
  have e: "1970 + n = n + 2 + 492 * 4" "1970 + n = n + 70 + 19 * 100" "1970 + n = n + 370 + 4 * 400" by simp_all
  have m: "(1970 + n) mod 4 = (n + 2) mod 4" "(1970 + n) mod 100 = (n + 70) mod 100" "(1970 + n) mod 400 = (n + 370) mod 400"
    by (subst e(1), rule mod_mult_self1) (subst e(2), rule mod_mult_self1, subst e(3), rule mod_mult_self1)
  have "(1970 + n) mod 400 mod 100 = (1970 + n) mod 100" "(1970 + n) mod 100 mod 4 = (1970 + n) mod 4"
    by (rule mod_mod_cancel; simp)+
  then have "(1970 + n) mod 400 = 0 \<Longrightarrow> (1970 + n) mod 100 = 0" "(1970 + n) mod 100 = 0 \<Longrightarrow> (1970 + n) mod 4 = 0" by auto
  note imp = this
  have c: "n + 1 + 1 = n + 2" "n + 69 + 1 = n + 70" "n + 369 + 1 = n + 370" by simp_all
  note st = div_step [of 4 "n + 1", unfolded c, folded m(1), OF zero_less_numeral]
    div_step [of 100 "n + 69", unfolded c, folded m(2), OF zero_less_numeral]
    div_step [of 400 "n + 369", unfolded c, folded m(3), OF zero_less_numeral]
  show ?thesis unfolding leap_def by (rule leap_count [OF imp st])
qed

lemma days_before_year: "(\<Sum>k\<in>{1970..<1970 + int n}. year_days k) = int n * 365 + (int n + 1) div 4 - century_days (int n)"
proof (induction n)
  case (Suc n)
  have "{1970..<1970 + int (Suc n)} = insert (1970 + int n) {1970..<1970 + int n}" by auto
  then have "(\<Sum>k\<in>{1970..<1970 + int (Suc n)}. year_days k) = (\<Sum>k\<in>{1970..<1970 + int n}. year_days k) + year_days (1970 + int n)" by simp
  then show ?case using Suc leap_step [of "int n"] century_closed [of "int n"] century_closed [of "int (Suc n)"] year_days_def [of "1970 + int n"]
    by (cases "leap (1970 + int n)") (simp_all add: algebra_simps)
qed (simp add: century_days_def)

section \<open>Fields to seconds\<close>

lemma carry_fields_valid: "valid_tm t \<Longrightarrow> carry_fields t = t"
  by (simp add: valid_tm_def valid_date_def carry_fields_def)

lemma mday_loop_valid:
  assumes "valid_tm t"
  shows "mday_loop t = Some t"
proof -
  have m: "0 \<le> tm_mon t" "nat (tm_mon t) < 12" "tm_mday t \<le> month_days (tm_year t + 1900) (nat (tm_mon t))"
    using assms by (auto simp: valid_tm_def valid_date_def)
  then have "tm_mday t \<le> spm ! Suc (nat (tm_mon t))" using month_days_le order_trans by blast
  moreover have "spm_at (1 + tm_mon t) = Some (spm ! Suc (nat (tm_mon t)))"
    using m by (simp add: spm_at_def nat_add_distrib)
  ultimately show ?thesis by (subst mday_loop.simps) simp
qed

text \<open>The fields with the day of the year and the day of the week filled in.\<close>

definition dated :: "tm_at \<Rightarrow> tm_at" where
  "dated t = t\<lparr>tm_yday := (\<Sum>k<nat (tm_mon t). month_days (tm_year t + 1900) k) + tm_mday t - 1,
     tm_wday := (civil_days (tm_year t + 1900) (nat (tm_mon t)) (tm_mday t) + 4) mod 7\<rparr>"

lemma civil_days_nonneg: "valid_date y m d \<Longrightarrow> 0 \<le> civil_days y (nat m) d"
proof -
  assume v: "valid_date y m d"
  have "0 \<le> month_days y k" if "k < 12" for k
    using less12 [OF that] by (elim insertE emptyE) (simp_all add: month_days_def)
  then have "0 \<le> (\<Sum>k<nat m. month_days y k)" using v by (intro sum_nonneg) (auto simp: valid_date_def)
  moreover have "0 \<le> (\<Sum>k\<in>{1970..<y}. year_days k)" by (intro sum_nonneg) (simp add: year_days_def)
  ultimately show ?thesis using v by (simp add: civil_days_def valid_date_def)
qed

lemma mktime_at_valid:
  assumes "valid_tm t"
  shows "mktime_at t = Some (civil_secs t, dated t)"
proof -
  let ?y = "tm_year t + 1900" and ?m = "nat (tm_mon t)"
  have v: "valid_date ?y (tm_mon t) (tm_mday t)" using assms by (simp add: valid_tm_def)
  then have y: "70 \<le> tm_year t" and m: "0 \<le> tm_mon t" "?m < 12" by (auto simp: valid_date_def)
  obtain n where n: "tm_year t - 70 = int n" using y by (metis nonneg_int_cases diff_ge_0_iff_ge)
  then have yn: "?y = 1970 + int n" by simp
  have d: "(\<Sum>k\<in>{1970..<?y}. year_days k) = (tm_year t - 70) * 365 + (tm_year t - 70 + 1) sdiv 4 - century_days (tm_year t - 70)"
    unfolding yn n using days_before_year [of n] by simp
  have s: "(\<Sum>k<?m. month_days ?y k) = spm ! ?m + (if isleap ?y \<and> tm_mon t > 1 then 1 else 0)"
    using spm_sum [of ?m ?y] m y by (auto simp: isleap_leap)
  define Y where "Y = spm ! ?m + tm_mday t - 1 + (if isleap ?y \<and> tm_mon t > 1 then 1 else 0)"
  define B where "B = (tm_year t - 70) * 365 + (tm_year t - 70 + 1) sdiv 4 - century_days (tm_year t - 70)"
  have c: "B + Y = civil_days ?y ?m (tm_mday t)" unfolding civil_days_def d s by (simp add: B_def Y_def)
  have w: "to_int ((B + Y + 4) smod 7) = (B + Y + 4) mod 7"
    using civil_days_nonneg [OF v] pos_mod_bound [of 7 "B + Y + 4"] pos_mod_sign [of 7 "B + Y + 4"] c by simp
  have "spm_at (tm_mon t) = Some (spm ! ?m)" using m by (simp add: spm_at_def)
  then have "mktime_at t = Some ((((B + Y) * 24 + tm_hour t) * 60 + tm_min t) * 60 + tm_sec t, t\<lparr>tm_yday := Y, tm_wday := to_int ((B + Y + 4) smod 7)\<rparr>)"
    using y unfolding mktime_at_def Let_def mday_loop_valid [OF assms] carry_fields_valid [OF assms] by (simp add: B_def Y_def)
  then show ?thesis unfolding w unfolding c by (simp add: dated_def civil_secs_def Y_def s)
qed

text \<open>
  (C38) \<open>mktime_at\<close> against the reference calendar. For every valid date from 1970 on and every time of
  day, its closed formula for the leap years, with the correction for the century years, gives the
  seconds that counting the days year by year and month by month gives, and it fills in the day of
  the year and of the week.
\<close>

theorem mktime_at_counts_days:
  assumes "valid_tm t"
  shows "mktime_at t = Some (civil_secs t, dated t)"
  by (rule mktime_at_valid [OF assms])

definition sim_tm :: tm_at where
  "sim_tm = \<lparr>tm_sec = 8, tm_min = 49, tm_hour = 21, tm_mday = 29, tm_mon = 1, tm_year = 72, tm_wday = 0, tm_yday = 0\<rparr>"

theorem mktime_at_counts_days_witness:
  "mktime_at sim_tm = Some (68248148, sim_tm\<lparr>tm_yday := 59, tm_wday := 2\<rparr>)"
proof -
  have v: "valid_tm sim_tm" by (simp add: sim_tm_def valid_tm_def valid_date_def month_days_def leap_def)
  have "{1970..<1972 :: int} = {1970, 1971}" by auto
  then show ?thesis
    using mktime_at_counts_days [OF v]
    by (simp add: sim_tm_def dated_def civil_secs_def civil_days_def month_days_def year_days_def leap_def)
qed

section \<open>Seconds to fields\<close>

lemma year_loop_ok:
  assumes "0 \<le> work" "0 \<le> i" "i + work < 2 ^ 31" "year_loop i work = (i', work')"
  shows "i \<le> i' \<and> i' \<le> i + work \<and> 0 \<le> work' \<and> work' < year_days i' \<and> work = (\<Sum>k\<in>{i..<i'}. year_days k) + work'"
  using assms
proof (induction i work arbitrary: i' work' rule: year_loop.induct)
  case (1 i work)
  have l: "(if isleap (to_int i) then 366 else 365) = year_days i" using "1.prems" by (simp add: year_days_def isleap_leap)
  show ?case
  proof (cases "work \<ge> year_days i")
    case True
    have r: "year_loop (i + 1) (work - year_days i) = (i', work')"
      using "1.prems"(4) True by (subst (asm) year_loop.simps) (simp add: l Let_def)
    have "i + 1 \<le> i' \<and> i' \<le> i + 1 + (work - year_days i) \<and> 0 \<le> work' \<and> work' < year_days i'
        \<and> work - year_days i = (\<Sum>k\<in>{i + 1..<i'}. year_days k) + work'"
      using "1.IH" [OF l [symmetric]] True r "1.prems" year_days_pos [of i] by (simp add: l)
    moreover from this have "{i..<i'} = insert i {i + 1..<i'}" by auto
    ultimately show ?thesis using year_days_pos [of i] by auto
  next
    case False
    then have "i' = i" "work' = work" using "1.prems"(4) by (subst (asm) year_loop.simps, simp add: l Let_def)+
    then show ?thesis using False "1.prems" by simp
  qed
qed

text \<open>The month and the day of a day of the year.\<close>

lemma spm_mono: "i \<le> j \<Longrightarrow> j \<le> 12 \<Longrightarrow> spm ! i \<le> spm ! j"
proof (induction j)
  case (Suc j)
  have "0 \<le> month_days 1 j" using Suc.prems less12 [of j] by (auto simp: month_days_def)
  then show ?case using Suc spm_step [of j 1] by (auto simp: le_Suc_eq leap_def)
qed simp

lemma month_loop_ok: "i \<le> 11 \<Longrightarrow> 0 \<le> w \<Longrightarrow> w < spm ! Suc i \<Longrightarrow> month_loop i w \<le> i \<and> spm ! month_loop i w \<le> w \<and> w < spm ! Suc (month_loop i w)"
proof (induction i)
  case 0
  then show ?case by (simp add: spm_def)
next
  case (Suc i)
  then show ?case by (cases "spm ! Suc i > w") auto
qed

lemma gmtime_date:
  assumes "0 \<le> yd" "yd < year_days y" "0 \<le> y"
    "(mday, work) = (if leap y \<and> yd > 58 then (if yd = 59 then 2 else 1, yd - 1) else (1, yd))"
    "mon = month_loop 11 work" "d = mday + (work - spm ! mon)"
  shows "mon < 12 \<and> 1 \<le> d \<and> d \<le> month_days y mon \<and> yd = (\<Sum>k<mon. month_days y k) + (d - 1)"
proof -
  have w: "0 \<le> work" "work < spm ! 12" using assms(1,2,4) by (auto simp: year_days_def spm_def split: if_split_asm)
  have m: "mon < 12" "spm ! mon \<le> work" "work < spm ! Suc mon" using month_loop_ok [of 11 work] w assms(5) by auto
  have s2: "spm ! 2 = 59" "spm ! Suc 0 = 31" by (simp_all add: spm_def)
  have feb: "mon \<le> 1 \<longleftrightarrow> work < 59" using m spm_mono [of 2 mon] spm_mono [of "Suc mon" 2] s2 by (cases "mon \<le> 1") auto
  have "month_days y mon = spm ! Suc mon - spm ! mon + (if leap y \<and> mon = 1 then 1 else 0)"
    using spm_step [OF m(1), of y] by (cases "mon = 0"; cases "mon = 1"; cases "leap y") auto
  then show ?thesis using assms(4,6) m feb s2 spm_sum [of mon y] by (cases "mon = 0") (auto split: if_split_asm)
qed

lemma gmtime_ok:
  assumes "0 \<le> t" "t < 2 ^ 46"
  shows "valid_tm (gmtime_r_at t)" "civil_secs (gmtime_r_at t) = t" "dated (gmtime_r_at t) = gmtime_r_at t"
proof -
  define dy where "dy = t div 86400"
  define r where "r = t mod 86400"
  have t: "t = dy * 86400 + r" "0 \<le> r" "r < 86400" "0 \<le> dy" "dy < 2 ^ 30" using assms by (auto simp: dy_def r_def)
  obtain y yd where yl: "year_loop 1970 dy = (y, yd)" by (cases "year_loop 1970 dy")
  have yo: "1970 \<le> y" "y \<le> 1970 + dy" "0 \<le> yd" "yd < year_days y" "dy = (\<Sum>k\<in>{1970..<y}. year_days k) + yd"
    using year_loop_ok [OF _ _ _ yl] t by auto
  obtain mday work :: int where mw: "(mday, work) = (if leap y \<and> yd > 58 then (if yd = 59 then 2 else 1, yd - 1) else (1, yd))"
    by (metis surj_pair)
  let ?mon = "month_loop 11 work" and ?d = "mday + (work - spm ! month_loop 11 work)"
  have g: "?mon < 12" "1 \<le> ?d" "?d \<le> month_days y ?mon" "yd = (\<Sum>k<?mon. month_days y k) + (?d - 1)"
    using gmtime_date [OF yo(3,4) _ mw refl refl] yo(1) by auto
  have dm: "?d \<le> 31" using g(3) less12 [OF g(1)] by (auto simp: month_days_def split: if_split_asm)
  have il: "isleap (to_int y) = leap y" using yo t by (simp add: isleap_leap)
  have f: "gmtime_r_at t = \<lparr>tm_sec = r mod 60, tm_min = r div 60 mod 60, tm_hour = r div 60 div 60, tm_mday = ?d,
      tm_mon = int ?mon, tm_year = y - 1900, tm_wday = (4 + dy) mod 7, tm_yday = yd\<rparr>"
  proof -
    have c: "t smod SPD = r" "t sdiv SPD = dy" using assms by (simp_all add: SPD_def r_def dy_def)
    have b: "r mod 60 < 60" "0 \<le> r mod 60" "r div 60 mod 60 < 60" "0 \<le> r div 60 mod 60" "0 \<le> r div 60" "r div 60 div 60 < 24" "0 \<le> r div 60 div 60"
      "(4 + dy) mod 7 < 7" "0 \<le> (4 + dy) mod 7" using t(2,3) by (auto simp: div_less_iff_less_mult)
    have dy: "dy < 1073741824" using t(5) by simp
    have i1: "to_int (r mod 60) = r mod 60" by (rule to_int_small) (use b(1,2) in linarith)+
    have i2: "to_int (r div 60 mod 60) = r div 60 mod 60" by (rule to_int_small) (use b(3,4) in linarith)+
    have i3: "to_int (r div 60 div 60) = r div 60 div 60" by (rule to_int_small) (use b(6,7) in linarith)+
    have i4: "to_int ((4 + dy) mod 7) = (4 + dy) mod 7" by (rule to_int_small) (use b(8,9) in linarith)+
    have i5: "to_int ?d = ?d" by (rule to_int_small) (use g(2) dm in linarith)+
    have i6: "to_int (y - 1900) = y - 1900" by (rule to_int_small) (use yo(1,2) dy in linarith)+
    have i7: "to_int yd = yd" by (rule to_int_small) (use yo(3,4) year_days_pos [of y] in linarith)+
    show ?thesis
      unfolding gmtime_r_at_def Let_def c yl prod.case il mw [symmetric] using b(5) t(2,4) i1 i2 i3 i4 i5 i6 i7 by simp
  qed
  show "valid_tm (gmtime_r_at t)" using g yo(1) t unfolding f valid_tm_def valid_date_def by auto
  have "civil_days y ?mon ?d = dy" using yo(5) g(4) by (simp add: civil_days_def)
  then show "civil_secs (gmtime_r_at t) = t" "dated (gmtime_r_at t) = gmtime_r_at t"
    using t(1) g(4) unfolding f civil_secs_def dated_def by (simp_all add: algebra_simps)
qed

section \<open>The date of a second\<close>

lemma sum_mono_int: "a \<le> b \<Longrightarrow> (\<Sum>k\<in>{1970..<a}. year_days k) \<le> (\<Sum>k\<in>{1970..<b}. year_days k)"
  by (rule sum_mono2) (auto simp: year_days_def)

lemma month_days_pos: "k < 12 \<Longrightarrow> 28 \<le> month_days y k"
  by (drule less12, elim insertE emptyE) (simp_all add: month_days_def)

lemma month_days_31: "k < 12 \<Longrightarrow> month_days y k \<le> 31"
  by (drule less12, elim insertE emptyE) (simp_all add: month_days_def)

lemma month_sum_mono: "a \<le> b \<Longrightarrow> b \<le> 12 \<Longrightarrow> (\<Sum>k<a. month_days y k) \<le> (\<Sum>k<b. month_days y k)"
  by (rule sum_mono2) (use month_days_pos [of _ y] in \<open>force simp: order_trans [of 0 28]\<close>)+

lemma yday_bound:
  assumes "valid_date y m d"
  shows "0 \<le> (\<Sum>k<nat m. month_days y k)" "(\<Sum>k<nat m. month_days y k) + d \<le> year_days y"
proof -
  have m: "nat m < 12" "d \<le> month_days y (nat m)" using assms by (auto simp: valid_date_def)
  show "0 \<le> (\<Sum>k<nat m. month_days y k)" using month_sum_mono [of 0 "nat m" y] m(1) by simp
  have "(\<Sum>k<12. month_days y k) = year_days y" using spm_sum [of 12 y] by (simp add: spm_def year_days_def)
  then show "(\<Sum>k<nat m. month_days y k) + d \<le> year_days y" using month_sum_mono [of "Suc (nat m)" 12 y] m by simp
qed

lemma civil_days_year:
  assumes "valid_date y m d" "valid_date y' m' d'" "y < y'"
  shows "civil_days y (nat m) d < civil_days y' (nat m') d'"
proof -
  have "{1970..<y + 1} = insert y {1970..<y}" using assms(1) by (auto simp: valid_date_def)
  then have "(\<Sum>k\<in>{1970..<y + 1}. year_days k) = (\<Sum>k\<in>{1970..<y}. year_days k) + year_days y" by simp
  moreover have "1 \<le> d'" using assms(2) by (simp add: valid_date_def)
  ultimately show ?thesis
    using yday_bound [OF assms(1)] yday_bound [OF assms(2)] sum_mono_int [of "y + 1" y'] assms(3) by (simp add: civil_days_def)
qed

lemma civil_days_month:
  assumes "valid_date y m d" "valid_date y m' d'" "m < m'"
  shows "civil_days y (nat m) d < civil_days y (nat m') d'"
proof -
  have "Suc (nat m) \<le> nat m'" "nat m' \<le> 12" using assms by (auto simp: valid_date_def)
  then show ?thesis using month_sum_mono [of "Suc (nat m)" "nat m'" y] assms by (simp add: civil_days_def valid_date_def)
qed

lemma civil_days_inj:
  assumes "valid_date y m d" "valid_date y' m' d'" "civil_days y (nat m) d = civil_days y' (nat m') d'"
  shows "y = y' \<and> m = m' \<and> d = d'"
proof -
  have y: "y = y'" using civil_days_year assms by (metis less_irrefl linorder_neqE)
  then have "m = m'" using civil_days_month assms by (metis less_irrefl linorder_neqE)
  then show ?thesis using y assms(3) by (simp add: civil_days_def)
qed

lemma mixed_radix:
  assumes "(a :: int) * b + c = a' * b + c'" "0 \<le> c" "c < b" "0 \<le> c'" "c' < b"
  shows "a = a' \<and> c = c'"
proof -
  have "(a * b + c) div b = a" "(a' * b + c') div b = a'" using assms(2-5) by simp_all
  then show ?thesis using assms(1) by simp
qed

lemma civil_secs_inj:
  assumes "valid_tm a" "valid_tm b" "civil_secs a = civil_secs b"
  shows "dated a = dated b"
proof -
  have r: "0 \<le> tm_sec t" "tm_sec t < 60" "0 \<le> tm_min t" "tm_min t < 60" "0 \<le> tm_hour t" "tm_hour t < 24" if "valid_tm t" for t
    using that by (auto simp: valid_tm_def)
  note s = mixed_radix [OF assms(3) [unfolded civil_secs_def] r(1,2) [OF assms(1)] r(1,2) [OF assms(2)]]
  note m = mixed_radix [OF s [THEN conjunct1] r(3,4) [OF assms(1)] r(3,4) [OF assms(2)]]
  note h = mixed_radix [OF m [THEN conjunct1] r(5,6) [OF assms(1)] r(5,6) [OF assms(2)]]
  have "tm_year a + 1900 = tm_year b + 1900 \<and> tm_mon a = tm_mon b \<and> tm_mday a = tm_mday b"
    by (rule civil_days_inj) (use h assms(1,2) in \<open>auto simp: valid_tm_def\<close>)
  then show ?thesis using s m h by (cases a; cases b) (simp add: dated_def)
qed

lemma civil_secs_nonneg: "valid_tm t \<Longrightarrow> 0 \<le> civil_secs t"
  using civil_days_nonneg [of "tm_year t + 1900" "tm_mon t" "tm_mday t"] by (simp add: civil_secs_def valid_tm_def)

lemma gmtime_of_civil:
  assumes "valid_tm t" "civil_secs t < 2 ^ 46"
  shows "gmtime_r_at (civil_secs t) = dated t"
  using gmtime_ok [OF civil_secs_nonneg [OF assms(1)] assms(2)] civil_secs_inj [OF _ assms(1)] by metis

lemma civil_days_le:
  assumes "valid_date y m d"
  shows "civil_days y (nat m) d < 366 * (y - 1969)"
proof -
  have "(\<Sum>k\<in>{1970..<y}. year_days k) \<le> (\<Sum>k\<in>{1970..<y}. 366)" by (rule sum_mono) (simp add: year_days_def)
  also have "\<dots> = 366 * (y - 1970)" using assms by (simp add: valid_date_def)
  finally show ?thesis using yday_bound [OF assms] year_days_pos(2) [of y] by (simp add: civil_days_def)
qed

text \<open>
  (C15) Seconds to fields and back. For every time from 1970 on, up to \<open>2\<^sup>4\<^sup>6\<close> seconds (the loop over the
  years always ends), \<open>gmtime_r_at\<close> gives a valid date, with all fields in their ranges and the right day
  of the week and of the year, and \<open>mktime_at\<close> of it gives the same seconds back and changes no field.
\<close>

theorem gmtime_mktime_roundtrip:
  assumes "0 \<le> t" and "t < 2 ^ 46"
  shows "valid_tm (gmtime_r_at t) \<and> civil_secs (gmtime_r_at t) = t \<and> mktime_at (gmtime_r_at t) = Some (t, gmtime_r_at t)"
  using gmtime_ok [OF assms] mktime_at_valid [of "gmtime_r_at t"] by simp

theorem gmtime_mktime_roundtrip_witness:
  "mktime_at (gmtime_r_at 4107542400) = Some (4107542400, gmtime_r_at 4107542400)"
  using gmtime_mktime_roundtrip [of 4107542400] by simp

text \<open>
  The carry of days into the next month subtracts the days before the current month and not the days
  of the month: 32 January 2023 gives the same seconds as 4 March 2023.
\<close>

theorem mktime_at_carry_wrong:
  defines "t \<equiv> sim_tm\<lparr>tm_year := 123, tm_mon := 0, tm_mday := 32\<rparr>"
  shows "map_option fst (mktime_at t) = map_option fst (mktime_at (t\<lparr>tm_mon := 2, tm_mday := 4\<rparr>))"
proof -
  have l: "mday_loop t = Some (t\<lparr>tm_mon := 1\<rparr>)"
    unfolding t_def by (subst mday_loop.simps, simp add: spm_at_def spm_def sim_tm_def, subst mday_loop.simps, simp add: spm_at_def spm_def)
  have r: "mday_loop (t\<lparr>tm_mon := 2, tm_mday := 4\<rparr>) = Some (t\<lparr>tm_mon := 2, tm_mday := 4\<rparr>)"
    unfolding t_def by (subst mday_loop.simps) (simp add: spm_at_def spm_def sim_tm_def)
  have c: "carry_fields t = t" "carry_fields (t\<lparr>tm_mon := 2, tm_mday := 4\<rparr>) = t\<lparr>tm_mon := 2, tm_mday := 4\<rparr>"
    unfolding t_def by (simp_all add: carry_fields_def sim_tm_def)
  show ?thesis
    unfolding mktime_at_def Let_def c l r by (simp add: t_def sim_tm_def spm_at_def spm_def isleap_def)
qed

text \<open>The text of a date has 25 characters and no final 0.\<close>

theorem asctime_not_terminated:
  assumes "asctime_r_at t = Some text"
  shows "length text = 25"
proof -
  have "length d = 4" if "name4 tbl i = Some d" for tbl i d
    using that by (auto simp: name4_def split: if_split_asm)
  then show ?thesis using assms by (auto simp: asctime_r_at_def num2str_def Let_def split: Option.bind_split_asm)
qed
end
