(* ===== verification/Fake_Clock.thy ===== *)
theory Fake_Clock
  imports Prelude "HOL-Library.Signed_Division"
begin

text \<open>
  The system tick: \<open>func/misc/fake_clock.c\<close> in the FreeRTOS build with \<open>CFG_USE_TICK_CAL\<close>, with the tick
  correction of \<open>func/power_save/mcu_ps.c\<close>. \<open>CFG_LOW_VOLTAGE_PS\<close> and the watchdogs are configurations.
  The ticks handed to the kernel by \<open>xTaskIncrementTick\<close> and \<open>vTaskStepTick\<close> are counted; the hardware
  watchdog, the timer that checks the tasks and the log are counters. \<open>increase_tick\<close> and \<open>lost\<close> have
  type \<open>INT32\<close> and are \<open>int\<close>.
\<close>

definition FCLK_DURATION_MS :: nat where "FCLK_DURATION_MS = 2"
definition FCLK_SECOND :: u32 where "FCLK_SECOND = 500"

definition BK_TICKS_TO_MS :: "u64 \<Rightarrow> u64" where
  "BK_TICKS_TO_MS x = x * of_nat FCLK_DURATION_MS"

text \<open>\<open>BK_MS_TO_TICKS\<close> of a value of type \<open>INT32\<close>.\<close>

definition BK_MS_TO_TICKS :: "int \<Rightarrow> int" where
  "BK_MS_TO_TICKS x = x sdiv int FCLK_DURATION_MS"

record fclk_cfg =
  low_voltage_ps :: bool
  int_wdg_enabled :: bool
  int_wdg_period_ms :: u64
  task_wdg_enabled :: bool
  task_wdg_period_ms :: u64
  one_cal_time :: u32

record fclk =
  current_clock :: u64
  current_seconds :: u32
  second_countdown :: u32
  os_ticks :: u32
  increase_tick :: int
  need_pass :: u32
  cal_fclk_tick :: u64
  cal_tmp1 :: u32
  cal_time_us :: u64
  last_int_wdg_feed :: u64
  last_task_wdt_feed_tick :: u64
  last_task_wdt_log_tick :: u64
  wdt_driver_is_init :: bool
  wdg_reloads :: nat
  wdt_timer_starts :: nat
  wdt_logs :: nat

definition fclk_boot :: fclk where
  "fclk_boot = \<lparr>current_clock = 0, current_seconds = 0, second_countdown = FCLK_SECOND, os_ticks = 0,
     increase_tick = 0, need_pass = 0, cal_fclk_tick = 0, cal_tmp1 = 0, cal_time_us = 0,
     last_int_wdg_feed = 0, last_task_wdt_feed_tick = 0, last_task_wdt_log_tick = 0, wdt_driver_is_init = False,
     wdg_reloads = 0, wdt_timer_starts = 0, wdt_logs = 0\<rparr>"

section \<open>Reading the clock\<close>

definition fclk_freertos_get_tick32 :: "fclk \<Rightarrow> u32" where
  "fclk_freertos_get_tick32 s = ucast (current_clock s)"

definition fclk_freertos_get_tick64 :: "fclk \<Rightarrow> u64" where
  "fclk_freertos_get_tick64 s = current_clock s"

definition fclk_get_tick :: "fclk \<Rightarrow> u64" where
  "fclk_get_tick s = ucast (fclk_freertos_get_tick32 s)"

definition fclk_get_second :: "fclk \<Rightarrow> u32" where
  "fclk_get_second s = fclk_freertos_get_tick32 s div FCLK_SECOND"

definition fclk_from_sec_to_tick :: "u32 \<Rightarrow> u32" where
  "fclk_from_sec_to_tick sec = sec * FCLK_SECOND"

definition fclk_reset_count :: "fclk \<Rightarrow> fclk" where
  "fclk_reset_count s = s\<lparr>current_clock := 0, current_seconds := 0\<rparr>"

section \<open>Watchdogs\<close>

definition int_watchdog_feed :: "fclk_cfg \<Rightarrow> fclk \<Rightarrow> fclk" where
  "int_watchdog_feed c s =
     (let current_tick = fclk_freertos_get_tick64 s in
      if current_tick - last_int_wdg_feed s \<ge> drop_bit 4 (int_wdg_period_ms c div of_nat FCLK_DURATION_MS)
      then s\<lparr>wdg_reloads := wdg_reloads s + 1, last_int_wdg_feed := current_tick\<rparr> else s)"

definition bk_task_wdt_feed :: "fclk \<Rightarrow> fclk" where
  "bk_task_wdt_feed s = s\<lparr>last_task_wdt_feed_tick := fclk_freertos_get_tick64 s\<rparr>"

definition bk_task_wdt_timeout_check :: "fclk_cfg \<Rightarrow> fclk \<Rightarrow> fclk" where
  "bk_task_wdt_timeout_check c s =
     (let period = task_wdg_period_ms c div of_nat FCLK_DURATION_MS in
      if last_task_wdt_feed_tick s \<noteq> 0 then
        (let current_tick = fclk_freertos_get_tick64 s in
         if current_tick - last_task_wdt_feed_tick s > period \<and> current_tick - last_task_wdt_log_tick s > period
         then s\<lparr>wdt_logs := wdt_logs s + 1, last_task_wdt_log_tick := current_tick\<rparr> else s)
      else s)"

definition bk_wdt_feed_handle :: "fclk_cfg \<Rightarrow> fclk \<Rightarrow> fclk" where
  "bk_wdt_feed_handle c s = bk_task_wdt_timeout_check c s"

definition bk_wdt_driver_init :: "fclk \<Rightarrow> fclk" where
  "bk_wdt_driver_init s =
     (if wdt_driver_is_init s then s else s\<lparr>wdt_timer_starts := wdt_timer_starts s + 1, wdt_driver_is_init := True\<rparr>)"

section \<open>Tick correction of a clock that runs fast\<close>

definition mcu_ps_increase_clr :: "fclk \<Rightarrow> fclk" where
  "mcu_ps_increase_clr s = s\<lparr>increase_tick := 0\<rparr>"

text \<open>The updated \<open>*lost_p\<close> and state.\<close>

definition mcu_ps_cal_increase_tick :: "u32 \<Rightarrow> fclk \<Rightarrow> u32 \<times> fclk" where
  "mcu_ps_cal_increase_tick lost_p s =
     (let lost = sint lost_p in
      if lost \<le> 0 \<or> increase_tick s = 0 then (lost_p, s)
      else
        let lost = lost + increase_tick s in
        if lost < 0 then (0, s\<lparr>increase_tick := lost\<rparr>)
        else (of_int lost, s\<lparr>increase_tick := 0\<rparr>))"

definition mcu_ps_need_pstick :: "fclk \<Rightarrow> u32 \<times> fclk" where
  "mcu_ps_need_pstick s =
     (let old = need_pass s; s = s\<lparr>need_pass := need_pass s + 1\<rparr> in
      if old mod 5 = 0 then mcu_ps_cal_increase_tick (of_nat FCLK_DURATION_MS) s
      else (of_nat FCLK_DURATION_MS, s))"

section \<open>Advancing the clock\<close>

text \<open>The loop of \<open>fclk_freertos_update_tick\<close>.\<close>

function sec_loop :: "u32 \<Rightarrow> u32 \<Rightarrow> u32 \<times> u32" where
  "sec_loop tick secs = (if tick \<ge> FCLK_SECOND then sec_loop (tick - FCLK_SECOND) (secs + 1) else (tick, secs))"
  by auto
termination
  by (relation "measure (\<lambda>(tick, secs). unat tick)") (auto simp: FCLK_SECOND_def unat_sub word_le_nat_alt)

declare sec_loop.simps [simp del]

definition fclk_freertos_update_tick :: "u32 \<Rightarrow> fclk \<Rightarrow> fclk" where
  "fclk_freertos_update_tick tick s =
     (let s = s\<lparr>current_clock := current_clock s + ucast tick\<rparr>;
          (tick, secs) = sec_loop tick (current_seconds s);
          s = s\<lparr>current_seconds := secs\<rparr>
      in if second_countdown s \<le> tick
         then s\<lparr>current_seconds := current_seconds s + 1, second_countdown := FCLK_SECOND - (tick - second_countdown s)\<rparr>
         else s\<lparr>second_countdown := second_countdown s - tick\<rparr>)"

definition fclk_update_tick :: "fclk_cfg \<Rightarrow> u32 \<Rightarrow> fclk \<Rightarrow> fclk" where
  "fclk_update_tick c tick s =
     (if tick = 0 then s
      else
        let s = (if \<not> low_voltage_ps c then mcu_ps_increase_clr s else s);
            s = fclk_freertos_update_tick tick s
        in s\<lparr>os_ticks := os_ticks s + tick\<rparr>)"

section \<open>Calibration\<close>

text \<open>Without \<open>CFG_LOW_VOLTAGE_PS\<close>: a hardware timer with a period of \<open>ONE_CAL_TIME\<close> ms.\<close>

definition timer_cal_init :: "fclk \<Rightarrow> fclk" where
  "timer_cal_init s =
     (let fclk = (ucast (BK_TICKS_TO_MS (fclk_get_tick s)) :: u32) in s\<lparr>cal_fclk_tick := ucast fclk, cal_tmp1 := 0\<rparr>)"

definition timer_cal_tick :: "fclk_cfg \<Rightarrow> fclk \<Rightarrow> fclk" where
  "timer_cal_tick c s =
     (let fclk = (ucast (BK_TICKS_TO_MS (fclk_get_tick s)) :: u32);
          s = s\<lparr>cal_tmp1 := cal_tmp1 s + one_cal_time c\<rparr>;
          lost = sint (cal_tmp1 s - fclk)
      in if lost \<ge> 2 * int FCLK_DURATION_MS
         then (fclk_update_tick c (of_int (BK_MS_TO_TICKS (lost - int FCLK_DURATION_MS))) s)\<lparr>increase_tick := 0\<rparr>
         else if lost \<le> - (2 * int FCLK_DURATION_MS) then s\<lparr>increase_tick := lost + int FCLK_DURATION_MS\<rparr>
         else s)"

text \<open>With it: the 32 kHz clock, whose time is an argument.\<close>

definition fclk_cal_init :: "u64 \<Rightarrow> fclk \<Rightarrow> fclk" where
  "fclk_cal_init time_us s = s\<lparr>cal_fclk_tick := BK_TICKS_TO_MS (fclk_get_tick s), cal_time_us := time_us\<rparr>"

definition fclk_cal_tick :: "fclk_cfg \<Rightarrow> u64 \<Rightarrow> fclk \<Rightarrow> fclk" where
  "fclk_cal_tick c time_us s =
     (let delta_fclk = fclk_get_tick s - cal_fclk_tick s;
          delta_time = time_us - cal_time_us s;
          lost = sint (ucast (delta_time div 1000 - BK_TICKS_TO_MS delta_fclk) :: u32)
      in if lost \<ge> 2 * int FCLK_DURATION_MS
         then fclk_update_tick c (of_int (BK_MS_TO_TICKS (lost - int FCLK_DURATION_MS))) s
         else s)"

section \<open>The tick interrupt\<close>

definition fclk_hdl :: "fclk_cfg \<Rightarrow> u64 \<Rightarrow> fclk \<Rightarrow> fclk" where
  "fclk_hdl c time_us s =
     (let (need, s) = (if low_voltage_ps c then (1, s) else mcu_ps_need_pstick s) in
      if need = 0 then s
      else
        let s = s\<lparr>current_clock := current_clock s + 1, second_countdown := second_countdown s - 1\<rparr>;
            s = (if second_countdown s = 0 then
                   (let s = s\<lparr>current_seconds := current_seconds s + 1, second_countdown := FCLK_SECOND\<rparr> in
                    if low_voltage_ps c \<and> current_seconds s mod 15 = 0 then fclk_cal_tick c time_us s else s)
                 else s);
            s = (if int_wdg_enabled c then int_watchdog_feed c s else s);
            s = (if task_wdg_enabled c then bk_wdt_driver_init s else s)
        in s\<lparr>os_ticks := os_ticks s + 1\<rparr>)"

definition fclk_cal_endvalue :: "u32 \<Rightarrow> u32" where
  "fclk_cal_endvalue mode =
     (if mode = 0 then of_nat FCLK_DURATION_MS * 32 else if mode = 1 then of_nat FCLK_DURATION_MS * 26000 else 1)"

end
