(* ===== verification/Fake_Clock_Props.thy ===== *)
theory Fake_Clock_Props
  imports Fake_Clock
begin

text \<open>
  The system tick: the seconds, the countdown and the kernel ticks follow the clock under all operations but
  \<open>fclk_reset_count\<close>, a scheduled correction of a clock that runs fast is carried out, and the calibration bounds the lag.
\<close>

section \<open>Counting\<close>

text \<open>The state after \<open>n\<close> ticks.\<close>

definition clock_at :: "nat \<Rightarrow> fclk \<Rightarrow> bool" where
  "clock_at n s \<longleftrightarrow> current_clock s = of_nat n \<and> current_seconds s = of_nat (n div 500)
     \<and> second_countdown s = of_nat (500 - n mod 500)"

lemma small_nat: "n < 4294967296 \<Longrightarrow> unat (of_nat n :: u32) = n"
  by (rule unat_of_nat_small) simp

lemma sec_loop_eq: "k < 2 ^ 32 \<Longrightarrow> sec_loop (of_nat k) secs = (of_nat (k mod 500), secs + of_nat (k div 500))"
proof (induction k arbitrary: secs rule: less_induct)
  case (less k)
  have u: "unat (of_nat k :: u32) = k" using less.prems by (simp add: small_nat)
  show ?case
  proof (cases "k \<ge> 500")
    case True
    have "(of_nat k :: u32) - 500 = of_nat (k - 500)" using True by simp
    moreover have "sec_loop (of_nat (k - 500)) (secs + 1) = (of_nat ((k - 500) mod 500), secs + 1 + of_nat ((k - 500) div 500))"
      using less.IH [of "k - 500" "secs + 1"] True less.prems by simp
    moreover have "(k - 500) mod 500 = k mod 500" "k div 500 = Suc ((k - 500) div 500)"
      using True by (simp_all add: le_mod_geq le_div_geq)
    ultimately show ?thesis
      using True u by (subst sec_loop.simps) (simp add: FCLK_SECOND_def word_le_nat_alt)
  next
    case False
    then show ?thesis using u by (subst sec_loop.simps) (simp add: FCLK_SECOND_def word_le_nat_alt)
  qed
qed

lemma update_tick_at:
  assumes "clock_at n s"
  shows "clock_at (n + unat tick) (fclk_freertos_update_tick tick s)" 
    "os_ticks (fclk_freertos_update_tick tick s) = os_ticks s" "need_pass (fclk_freertos_update_tick tick s) = need_pass s"
    "increase_tick (fclk_freertos_update_tick tick s) = increase_tick s"
proof -
  define k where "k = unat tick"
  have k: "k < 2 ^ 32" "tick = of_nat k" unfolding k_def using unat_lt_len [of tick] by simp_all
  define r q where "r = n mod 500" and "q = k mod 500"
  have b: "r < 500" "q < 500" by (simp_all add: r_def q_def)
  have cd: "second_countdown s = of_nat (500 - r)" using assms by (simp add: clock_at_def r_def)
  have cmp: "second_countdown s \<le> of_nat q \<longleftrightarrow> 500 \<le> r + q"
    using small_nat [of "500 - r"] small_nat [of q] b unfolding cd word_le_nat_alt by (simp only:) linarith
  have clk: "current_clock s + ucast tick = of_nat (n + k)" using assms by (simp add: clock_at_def k_def)
  have "(n + k) mod 500 = (r + q) mod 500" by (simp only: r_def q_def mod_add_eq)
  moreover have "(n + k) div 500 = n div 500 + k div 500 + (r + q) div 500" by (subst div_add1_eq) (simp only: r_def q_def)
  moreover have "r + q < 500 \<Longrightarrow> (r + q) mod 500 = r + q \<and> (r + q) div 500 = 0" by simp
  moreover have "500 \<le> r + q \<Longrightarrow> (r + q) mod 500 = r + q - 500 \<and> (r + q) div 500 = 1" using b by (simp add: le_mod_geq le_div_geq)
  moreover have "500 \<le> r + q \<Longrightarrow> FCLK_SECOND - (of_nat q - of_nat (500 - r)) = (of_nat (500 - (r + q - 500)) :: u32)"
    using b by (simp add: FCLK_SECOND_def of_nat_diff)
  moreover have "r + q < 500 \<Longrightarrow> of_nat (500 - r) - of_nat q = (of_nat (500 - (r + q)) :: u32)"
    using b by (simp add: of_nat_diff)
  ultimately show "clock_at (n + unat tick) (fclk_freertos_update_tick tick s)"
    using assms cmp clk sec_loop_eq [OF k(1)] cd unfolding k_def [symmetric]
    by (cases "500 \<le> r + q") (simp_all add: clock_at_def fclk_freertos_update_tick_def k(2) Let_def q_def)
  show "os_ticks (fclk_freertos_update_tick tick s) = os_ticks s" "need_pass (fclk_freertos_update_tick tick s) = need_pass s"
    "increase_tick (fclk_freertos_update_tick tick s) = increase_tick s"
    by (simp_all add: fclk_freertos_update_tick_def Let_def split: prod.split)
qed

lemma wdg_frame [simp]:
  "current_clock (int_watchdog_feed c s) = current_clock s" "current_seconds (int_watchdog_feed c s) = current_seconds s"
  "second_countdown (int_watchdog_feed c s) = second_countdown s" "os_ticks (int_watchdog_feed c s) = os_ticks s"
  "increase_tick (int_watchdog_feed c s) = increase_tick s" "need_pass (int_watchdog_feed c s) = need_pass s"
  "current_clock (bk_wdt_driver_init s) = current_clock s" "current_seconds (bk_wdt_driver_init s) = current_seconds s"
  "second_countdown (bk_wdt_driver_init s) = second_countdown s" "os_ticks (bk_wdt_driver_init s) = os_ticks s"
  "increase_tick (bk_wdt_driver_init s) = increase_tick s" "need_pass (bk_wdt_driver_init s) = need_pass s"
  "current_clock (bk_wdt_feed_handle c s) = current_clock s" "current_seconds (bk_wdt_feed_handle c s) = current_seconds s"
  "second_countdown (bk_wdt_feed_handle c s) = second_countdown s" "os_ticks (bk_wdt_feed_handle c s) = os_ticks s"
  by (simp_all add: int_watchdog_feed_def bk_wdt_driver_init_def bk_wdt_feed_handle_def bk_task_wdt_timeout_check_def Let_def)

text \<open>In step: the clock after \<open>n\<close> ticks, all but the last \<open>d\<close> of them handed to the kernel.\<close>

definition in_step :: "nat \<Rightarrow> fclk \<Rightarrow> bool" where
  "in_step d s \<longleftrightarrow> (\<exists>n. clock_at n s \<and> os_ticks s + of_nat d = of_nat n)"

lemma fclk_update_tick_step: "in_step d s \<Longrightarrow> in_step d (fclk_update_tick c tick s)"
proof -
  assume "in_step d s"
  then obtain n where n: "clock_at n s" "os_ticks s + of_nat d = of_nat n" by (auto simp: in_step_def)
  let ?s = "if \<not> low_voltage_ps c then mcu_ps_increase_clr s else s"
  have f: "clock_at n ?s" "os_ticks ?s = os_ticks s" using n by (simp_all add: clock_at_def mcu_ps_increase_clr_def)
  have e: "os_ticks s + tick + of_nat d = of_nat (n + unat tick)" using n(2) by (simp add: algebra_simps)
  have "clock_at (n + unat tick) (fclk_update_tick c tick s) \<and> os_ticks (fclk_update_tick c tick s) + of_nat d = of_nat (n + unat tick)"
  proof (cases "tick = 0")
    case True
    then show ?thesis using n by (simp add: fclk_update_tick_def)
  next
    case False
    then show ?thesis
      using update_tick_at [OF f(1), of tick] f(2) e by (simp add: fclk_update_tick_def Let_def clock_at_def add.commute)
  qed
  then show ?thesis unfolding in_step_def by blast
qed

lemma fclk_cal_tick_step: "in_step d s \<Longrightarrow> in_step d (fclk_cal_tick c time_us s)"
  by (simp add: fclk_cal_tick_def Let_def fclk_update_tick_step)

lemma timer_cal_tick_step: "in_step d s \<Longrightarrow> in_step d (timer_cal_tick c s)"
proof -
  assume s: "in_step d s"
  let ?s = "s\<lparr>cal_tmp1 := cal_tmp1 s + one_cal_time c\<rparr>"
  have "in_step d ?s" using s by (simp add: in_step_def clock_at_def)
  then have "in_step d (fclk_update_tick c k ?s)" for k by (rule fclk_update_tick_step)
  then show ?thesis using s by (simp add: timer_cal_tick_def Let_def in_step_def clock_at_def)
qed

text \<open>One tick.\<close>

lemma one_tick_at:
  assumes "clock_at n s"
  shows "second_countdown s - 1 = 0 \<longleftrightarrow> Suc n mod 500 = 0"
    "Suc n mod 500 = 0 \<Longrightarrow> clock_at (Suc n) (s\<lparr>current_clock := current_clock s + 1, second_countdown := FCLK_SECOND, current_seconds := current_seconds s + 1\<rparr>)"
    "Suc n mod 500 \<noteq> 0 \<Longrightarrow> clock_at (Suc n) (s\<lparr>current_clock := current_clock s + 1, second_countdown := second_countdown s - 1\<rparr>)"
proof -
  have b: "n mod 500 < 500" by simp
  have cd: "second_countdown s - 1 = of_nat (499 - n mod 500)" using assms b by (simp add: clock_at_def of_nat_diff)
  have m: "Suc n mod 500 = (if n mod 500 = 499 then 0 else Suc (n mod 500))" by (simp add: mod_Suc)
  show "second_countdown s - 1 = 0 \<longleftrightarrow> Suc n mod 500 = 0"
    unfolding cd using small_nat [of "499 - n mod 500"] b m by (auto simp: word_unat_eq_iff)
  show "Suc n mod 500 = 0 \<Longrightarrow> clock_at (Suc n) (s\<lparr>current_clock := current_clock s + 1, second_countdown := FCLK_SECOND, current_seconds := current_seconds s + 1\<rparr>)"
    using assms by (simp add: clock_at_def FCLK_SECOND_def div_Suc add.commute)
  show "clock_at (Suc n) (s\<lparr>current_clock := current_clock s + 1, second_countdown := second_countdown s - 1\<rparr>)" if a: "Suc n mod 500 \<noteq> 0"
  proof -
    have "Suc n mod 500 = Suc (n mod 500)" using a m by (simp split: if_split_asm)
    then have "500 - Suc n mod 500 = 499 - n mod 500" by simp
    moreover have "Suc n div 500 = n div 500" using a by (simp add: div_Suc)
    ultimately show ?thesis using assms cd unfolding clock_at_def by (simp add: add.commute)
  qed
qed

lemma need_pstick_frame:
  assumes "mcu_ps_need_pstick s = (need, s')"
  shows "current_clock s' = current_clock s" "current_seconds s' = current_seconds s" "second_countdown s' = second_countdown s"
    "os_ticks s' = os_ticks s"
  using assms by (auto simp: mcu_ps_need_pstick_def mcu_ps_cal_increase_tick_def Let_def split: if_split_asm)

lemma fclk_hdl_step:
  assumes "in_step 0 s"
  shows "in_step 0 (fclk_hdl c time_us s)"
proof -
  obtain need s1 where s1: "(if low_voltage_ps c then (1, s) else mcu_ps_need_pstick s) = (need, s1)" by fastforce
  then have "in_step 0 s1" using assms need_pstick_frame [of s] by (auto simp: in_step_def clock_at_def split: if_split_asm)
  then obtain n where n: "clock_at n s1" "os_ticks s1 = of_nat n" by (auto simp: in_step_def)
  let ?s2 = "s1\<lparr>current_clock := current_clock s1 + 1, second_countdown := second_countdown s1 - 1\<rparr>"
  let ?s3 = "?s2\<lparr>current_seconds := current_seconds s1 + 1, second_countdown := FCLK_SECOND\<rparr>"
  let ?s4 = "if second_countdown ?s2 = 0 then if low_voltage_ps c \<and> current_seconds ?s3 mod 15 = 0 then fclk_cal_tick c time_us ?s3 else ?s3 else ?s2"
  have "in_step 1 ?s4"
  proof (cases "second_countdown ?s2 = 0")
    case True
    then have "clock_at (Suc n) ?s3" using one_tick_at(1,2) [OF n(1)] by (simp add: clock_at_def)
    then have "in_step 1 ?s3" unfolding in_step_def using n(2) by (intro exI [of _ "Suc n"]) simp
    then show ?thesis using True fclk_cal_tick_step by simp
  next
    case False
    then have "clock_at (Suc n) ?s2" using one_tick_at(1,3) [OF n(1)] by simp
    then have "in_step 1 ?s2" unfolding in_step_def using n(2) by (intro exI [of _ "Suc n"]) simp
    then show ?thesis using False by simp
  qed
  moreover obtain s4 where s4: "s4 = ?s4" by blast
  ultimately have "in_step 1 s4" by simp
  then have "in_step 0 (s5\<lparr>os_ticks := os_ticks s5 + 1\<rparr>)"
    if "current_clock s5 = current_clock s4" "current_seconds s5 = current_seconds s4" "second_countdown s5 = second_countdown s4" "os_ticks s5 = os_ticks s4"
    for s5 using that by (auto simp: in_step_def clock_at_def)
  moreover have "fclk_hdl c time_us s = (if need = 0 then s1 else
      let s = s4; s = (if int_wdg_enabled c then int_watchdog_feed c s else s); s = (if task_wdg_enabled c then bk_wdt_driver_init s else s)
      in s\<lparr>os_ticks := os_ticks s + 1\<rparr>)"
    unfolding fclk_hdl_def s1 s4 by (simp add: Let_def)
  ultimately show ?thesis using \<open>in_step 0 s1\<close> by (simp add: Let_def)
qed

text \<open>
  The operations that change the clock or are driven by it, in any order, except \<open>fclk_reset_count\<close>: it sets the clock
  and the seconds to 0 and not the countdown, so that the counters no longer agree.
\<close>

inductive clk_step :: "fclk_cfg \<Rightarrow> fclk \<Rightarrow> fclk \<Rightarrow> bool" for c where
  interrupt: "clk_step c s (fclk_hdl c time_us s)"
| update: "clk_step c s (fclk_update_tick c k s)"
| timer_init: "clk_step c s (timer_cal_init s)"
| timer_tick: "clk_step c s (timer_cal_tick c s)"
| cal_init: "clk_step c s (fclk_cal_init time_us s)"
| cal_tick: "clk_step c s (fclk_cal_tick c time_us s)"
| feed: "clk_step c s (bk_task_wdt_feed s)"
| check: "clk_step c s (bk_wdt_feed_handle c s)"

lemma other_step:
  assumes "in_step d s"
  shows "in_step d (timer_cal_init s)" "in_step d (fclk_cal_init time_us s)" "in_step d (bk_task_wdt_feed s)" "in_step d (bk_wdt_feed_handle c s)"
  using assms by (simp_all add: in_step_def clock_at_def timer_cal_init_def fclk_cal_init_def bk_task_wdt_feed_def Let_def)

lemma clk_step_in_step: "clk_step c s s' \<Longrightarrow> in_step 0 s \<Longrightarrow> in_step 0 s'"
  by (induction rule: clk_step.induct)
    (simp_all add: fclk_hdl_step fclk_update_tick_step timer_cal_tick_step fclk_cal_tick_step other_step)

text \<open>
  (C19) Whatever the interleaving of tick interrupts, tick updates, calibrations and watchdog calls (but without
  \<open>fclk_reset_count\<close>, after which it does not hold), the seconds and the countdown follow the clock, and the
  kernel has been given exactly the ticks that the clock has counted.
\<close>

theorem clock_follows_ticks:
  assumes "(clk_step c)\<^sup>*\<^sup>* fclk_boot s"
  shows "\<exists>n. current_clock s = of_nat n \<and> current_seconds s = of_nat (n div 500)
     \<and> second_countdown s = of_nat (500 - n mod 500) \<and> os_ticks s = of_nat n"
proof -
  have "in_step 0 s"
    using assms
  proof (induction rule: rtranclp_induct)
    case base
    have "clock_at 0 fclk_boot \<and> os_ticks fclk_boot = of_nat 0" by (simp add: clock_at_def fclk_boot_def FCLK_SECOND_def)
    then show ?case unfolding in_step_def by auto
  next
    case (step s s')
    then show ?case using clk_step_in_step by blast
  qed
  then show ?thesis by (auto simp: in_step_def clock_at_def)
qed

definition sim_cfg :: fclk_cfg where
  "sim_cfg = \<lparr>low_voltage_ps = False, int_wdg_enabled = True, int_wdg_period_ms = 10000, task_wdg_enabled = True,
     task_wdg_period_ms = 60000, one_cal_time = 15000\<rparr>"

theorem clock_follows_ticks_witness:
  "\<exists>n. current_clock (fclk_hdl sim_cfg 0 (fclk_update_tick sim_cfg 999 fclk_boot)) = of_nat n
     \<and> os_ticks (fclk_hdl sim_cfg 0 (fclk_update_tick sim_cfg 999 fclk_boot)) = of_nat n"
proof -
  have "(clk_step sim_cfg)\<^sup>*\<^sup>* fclk_boot (fclk_hdl sim_cfg 0 (fclk_update_tick sim_cfg 999 fclk_boot))"
    by (meson clk_step.interrupt clk_step.update rtranclp.rtrancl_into_rtrancl rtranclp.rtrancl_refl)
  from clock_follows_ticks [OF this] show ?thesis by blast
qed

section \<open>A clock that runs fast\<close>

text \<open>The number of interrupts, of the next \<open>n\<close>, that may be dropped.\<close>

fun chances :: "nat \<Rightarrow> nat \<Rightarrow> nat" where
  "chances p 0 = 0"
| "chances p (Suc n) = (if p mod 5 = 0 then 1 else 0) + chances (Suc p) n"

lemma chances_5: "chances p (5 + n) = 1 + chances (5 + p) n"
proof -
  have e: "5 + k = Suc (Suc (Suc (Suc (Suc k))))" for k by simp
  have "Suc p mod 5 = 0 \<longleftrightarrow> p mod 5 = 4" "Suc (Suc p) mod 5 = 0 \<longleftrightarrow> p mod 5 = 3"
    "Suc (Suc (Suc p)) mod 5 = 0 \<longleftrightarrow> p mod 5 = 2" "Suc (Suc (Suc (Suc p))) mod 5 = 0 \<longleftrightarrow> p mod 5 = 1" by presburger+
  moreover have "p mod 5 = 0 \<or> p mod 5 = 1 \<or> p mod 5 = 2 \<or> p mod 5 = 3 \<or> p mod 5 = 4" by presburger
  ultimately show ?thesis unfolding e chances.simps by (elim disjE) simp_all
qed

lemma chances_ge: "n div 5 \<le> chances p n"
proof (induction n arbitrary: p rule: less_induct)
  case (less n)
  show ?case
  proof (cases "n < 5")
    case False
    then obtain m where m: "n = 5 + m" using le_Suc_ex by (metis not_less)
    then have "m div 5 \<le> chances (5 + p) m" using less.IH by simp
    moreover have "n div 5 = 1 + m div 5" using m by simp
    ultimately show ?thesis by (simp only: m chances_5) 
  qed simp
qed

lemma cal_increase_eq:
  assumes "increase_tick s = - int d"
  shows "mcu_ps_cal_increase_tick 2 s = (if d = 0 then (2, s) else if d = 1 then (1, s\<lparr>increase_tick := 0\<rparr>)
    else (0, s\<lparr>increase_tick := - int (d - 2)\<rparr>))"
proof -
  have s: "sint (2 :: u32) = 2" by simp
  consider "d = 0" | "d = 1" | "d = 2" | "2 < d" by linarith
  then show ?thesis
    using assms by cases (simp_all add: mcu_ps_cal_increase_tick_def s Let_def of_nat_diff)
qed

lemma fclk_hdl_fast:
  assumes "\<not> low_voltage_ps c" "increase_tick s = - int d" "unat (need_pass s) = p" "Suc p < 2 ^ 32"
  shows "unat (need_pass (fclk_hdl c us s)) = Suc p"
    "increase_tick (fclk_hdl c us s) = - int (if p mod 5 = 0 then d - 2 else d)"
    "current_clock (fclk_hdl c us s) = current_clock s + (if p mod 5 = 0 \<and> 2 \<le> d then 0 else 1)"
proof -
  have m: "need_pass s mod 5 = 0 \<longleftrightarrow> p mod 5 = 0" using assms(3) by (simp add: word_unat_eq_iff unat_mod)
  have p: "unat (need_pass s + 1) = Suc p" using assms(3,4) by (simp add: unat_word_ariths)
  obtain need s1 where s1: "mcu_ps_need_pstick s = (need, s1)" by (cases "mcu_ps_need_pstick s")
  have e: "mcu_ps_need_pstick s = (if p mod 5 = 0 then mcu_ps_cal_increase_tick 2 (s\<lparr>need_pass := need_pass s + 1\<rparr>)
      else (2, s\<lparr>need_pass := need_pass s + 1\<rparr>))"
    by (simp add: mcu_ps_need_pstick_def FCLK_DURATION_MS_def Let_def m)
  have n: "need_pass s1 = need_pass s + 1" "increase_tick s1 = - int (if p mod 5 = 0 then d - 2 else d)"
      "need = 0 \<longleftrightarrow> p mod 5 = 0 \<and> 2 \<le> d" "current_clock s1 = current_clock s"
    using s1 assms(2) cal_increase_eq [of "s\<lparr>need_pass := need_pass s + 1\<rparr>" d] unfolding e
    by (auto split: if_split_asm)
  show "unat (need_pass (fclk_hdl c us s)) = Suc p" "increase_tick (fclk_hdl c us s) = - int (if p mod 5 = 0 then d - 2 else d)"
    "current_clock (fclk_hdl c us s) = current_clock s + (if p mod 5 = 0 \<and> 2 \<le> d then 0 else 1)"
    using n p assms(1) by (simp_all add: fclk_hdl_def s1 Let_def)
qed

lemma run_fast:
  "\<not> low_voltage_ps c \<Longrightarrow> increase_tick s = - int d \<Longrightarrow> unat (need_pass s) = p \<Longrightarrow> p + n < 2 ^ 32 \<Longrightarrow>
   increase_tick ((fclk_hdl c us ^^ n) s) = - int (d - 2 * chances p n)
   \<and> current_clock ((fclk_hdl c us ^^ n) s) = current_clock s + of_nat (n - min (chances p n) (d div 2))"
proof (induction n arbitrary: s p d)
  case (Suc n)
  have sp: "Suc p < 2 ^ 32" "Suc p + n < 2 ^ 32" using Suc.prems(4) by simp_all
  note h = fclk_hdl_fast [OF Suc.prems(1,2,3) sp(1), of us]
  have IH: "increase_tick ((fclk_hdl c us ^^ n) (fclk_hdl c us s)) = - int ((if p mod 5 = 0 then d - 2 else d) - 2 * chances (Suc p) n)"
    "current_clock ((fclk_hdl c us ^^ n) (fclk_hdl c us s)) = current_clock (fclk_hdl c us s) + of_nat (n - min (chances (Suc p) n) ((if p mod 5 = 0 then d - 2 else d) div 2))"
    using Suc.IH [OF Suc.prems(1) h(2,1) sp(2)] by auto
  have le: "chances q n \<le> n" for q by (induction n arbitrary: q) (auto simp: le_SucI)
  have f: "(fclk_hdl c us ^^ Suc n) s = (fclk_hdl c us ^^ n) (fclk_hdl c us s)" by (simp add: funpow_swap1)
  have d2: "(d - 2) div 2 = d div 2 - 1" by simp
  have m: "2 \<le> d \<Longrightarrow> min (Suc k) (d div 2) = Suc (min k (d div 2 - 1))" for k by (simp add: min_def) linarith
  consider "p mod 5 \<noteq> 0" | "p mod 5 = 0" "2 \<le> d" | "p mod 5 = 0" "d < 2" by linarith
  then show ?case
    unfolding f using IH h(3) d2 le [of "Suc p"] m by cases (simp_all add: Suc_diff_le min.coboundedI1)
qed simp

text \<open>
  (C39) A scheduled correction is carried out, and then the clock is left alone. When \<open>timer_cal_tick\<close> has scheduled
  a correction of \<open>d\<close> ms (\<open>increase_tick\<close> is \<open>-d\<close>, for a clock that is \<open>d + 2\<close> ms ahead), in a build without
  \<open>CFG_LOW_VOLTAGE_PS\<close>, at most every fifth interrupt is dropped; after \<open>5 * ((d + 1) div 2)\<close> interrupts, or any
  larger number for which the counter \<open>need_pass\<close> does not wrap, nothing is left to correct and exactly \<open>d div 2\<close>
  ticks of 2 ms have been dropped.
\<close>

theorem fast_clock_is_held_back:
  assumes "\<not> low_voltage_ps c" and "increase_tick s = - int d" and "5 * ((d + 1) div 2) \<le> n"
    and "unat (need_pass s) + n < 2 ^ 32"
  shows "increase_tick ((fclk_hdl c us ^^ n) s) = 0
     \<and> current_clock ((fclk_hdl c us ^^ n) s) = current_clock s + of_nat (n - d div 2)"
proof -
  let ?k = "chances (unat (need_pass s)) n"
  have "(d + 1) div 2 \<le> n div 5" using assms(3) by (simp add: less_eq_div_iff_mult_less_eq)
  then have "(d + 1) div 2 \<le> ?k" using chances_ge [of n "unat (need_pass s)"] by linarith
  then have "d \<le> 2 * ?k" "min ?k (d div 2) = d div 2" by linarith+
  then show ?thesis using run_fast [OF assms(1,2) refl assms(4), of us] by simp
qed

theorem fast_clock_is_held_back_witness:
  "increase_tick ((fclk_hdl sim_cfg 0 ^^ 40) (fclk_boot\<lparr>increase_tick := - 15\<rparr>)) = 0
   \<and> current_clock ((fclk_hdl sim_cfg 0 ^^ 40) (fclk_boot\<lparr>increase_tick := - 15\<rparr>)) = 33"
  using fast_clock_is_held_back [of sim_cfg "fclk_boot\<lparr>increase_tick := - 15\<rparr>" 15 40 0]
  by (simp add: sim_cfg_def fclk_boot_def)

section \<open>Calibration\<close>

text \<open>The clock in ms, and the lag behind the calibration timer.\<close>

definition clock_ms :: "fclk \<Rightarrow> u32" where
  "clock_ms s = ucast (BK_TICKS_TO_MS (fclk_get_tick s))"

definition lag :: "fclk \<Rightarrow> int" where
  "lag s = sint (cal_tmp1 s - clock_ms s)"

lemma clock_ms_eq: "clock_ms s = ucast (current_clock s) * 2"
proof -
  have "(ucast (ucast x * 2 :: u64) :: u32) = x * 2" for x :: u32
    by (simp add: word_unat_eq_iff unat_word_ariths unsigned_ucast_eq take_bit_eq_mod mod_mult_left_eq mod_mod_cancel)
  then show ?thesis
    by (simp add: clock_ms_def fclk_get_tick_def fclk_freertos_get_tick32_def BK_TICKS_TO_MS_def FCLK_DURATION_MS_def)
qed

lemma update_clock: "current_clock (fclk_update_tick c k s) = current_clock s + ucast k"
  by (simp add: fclk_update_tick_def fclk_freertos_update_tick_def mcu_ps_increase_clr_def Let_def split: prod.split)

lemma update_cal: "cal_tmp1 (fclk_update_tick c k s) = cal_tmp1 s"
  by (simp add: fclk_update_tick_def fclk_freertos_update_tick_def mcu_ps_increase_clr_def Let_def split: prod.split)

text \<open>A lag of at least 4 ms is made up but for 2 or 3 ms.\<close>

lemma lag_made_up:
  assumes "4 \<le> sint (x :: u32)"
  shows "sint (x - of_int ((sint x - 2) div 2) * 2) = (if even (sint x) then 2 else 3)"
proof -
  have "x = of_int (sint x)" by simp
  then have "x - of_int ((sint x - 2) div 2) * 2 = of_int (sint x - (sint x - 2) div 2 * 2)"
    by (metis of_int_diff of_int_mult of_int_numeral)
  also have "sint x - (sint x - 2) div 2 * 2 = (if even (sint x) then 2 else 3)" by presburger
  finally show ?thesis by simp
qed

text \<open>The lag when the period of the calibration timer that now ends is counted.\<close>

definition lag_due :: "fclk_cfg \<Rightarrow> fclk \<Rightarrow> int" where
  "lag_due c s = lag (s\<lparr>cal_tmp1 := cal_tmp1 s + one_cal_time c\<rparr>)"

text \<open>
  (C40) One period of the calibration timer. Let \<open>l\<close>, that is \<open>lag_due c s\<close>, be the lag of the clock behind the timer when the
  period ends. If it is 4 ms or more, the clock is advanced by \<open>(l - 2) div 2\<close> ticks, which leaves a lag
  of 2 or 3 ms, and no correction is pending; if the clock is 4 ms or more ahead, it is not changed and
  a correction of all but 2 ms is pending; otherwise neither is touched.
\<close>

theorem timer_cal_tick_bounds_lag:
  "if 4 \<le> lag_due c s then
           current_clock (timer_cal_tick c s) = current_clock s + ucast (of_int ((lag_due c s - 2) div 2) :: u32)
           \<and> lag (timer_cal_tick c s) \<in> {2, 3} \<and> increase_tick (timer_cal_tick c s) = 0
         else current_clock (timer_cal_tick c s) = current_clock s
           \<and> increase_tick (timer_cal_tick c s) = (if lag_due c s \<le> - 4 then lag_due c s + 2 else increase_tick s)"
proof -
  let ?s = "s\<lparr>cal_tmp1 := cal_tmp1 s + one_cal_time c\<rparr>"
  let ?k = "of_int ((lag_due c s - 2) div 2) :: u32"
  have L: "sint (cal_tmp1 ?s - (ucast (BK_TICKS_TO_MS (fclk_get_tick s)) :: u32)) = lag_due c s"
    by (simp add: lag_due_def lag_def clock_ms_def fclk_get_tick_def fclk_freertos_get_tick32_def)
  have t: "timer_cal_tick c s = (if 4 \<le> lag_due c s then (fclk_update_tick c (of_int (BK_MS_TO_TICKS (lag_due c s - 2))) ?s)\<lparr>increase_tick := 0\<rparr>
      else if lag_due c s \<le> - 4 then ?s\<lparr>increase_tick := lag_due c s + 2\<rparr> else ?s)"
    unfolding timer_cal_tick_def Let_def L by (simp add: FCLK_DURATION_MS_def)
  show ?thesis
  proof (cases "4 \<le> lag_due c s")
    case True
    have d: "BK_MS_TO_TICKS (lag_due c s - 2) = (lag_due c s - 2) div 2"
      using True by (simp add: BK_MS_TO_TICKS_def FCLK_DURATION_MS_def signed_divide_int_def)
    have u: "timer_cal_tick c s = (fclk_update_tick c ?k ?s)\<lparr>increase_tick := 0\<rparr>" using True t d by simp
    then have c: "current_clock (timer_cal_tick c s) = current_clock s + ucast ?k" by (simp add: update_clock)
    have "(ucast (a + ucast k) :: u32) = ucast a + k" for a :: u64 and k :: u32
      by (simp add: word_unat_eq_iff unat_word_ariths unsigned_ucast_eq take_bit_eq_mod mod_simps mod_mod_cancel)
    then have "clock_ms (timer_cal_tick c s) = clock_ms s + ?k * 2" unfolding clock_ms_eq c by (simp add: algebra_simps)
    moreover have "cal_tmp1 (timer_cal_tick c s) = cal_tmp1 ?s" unfolding u by (simp add: update_cal)
    ultimately have "lag (timer_cal_tick c s) = sint ((cal_tmp1 ?s - clock_ms s) - ?k * 2)"
      by (simp add: lag_def algebra_simps)
    moreover have "sint (cal_tmp1 ?s - clock_ms s) = lag_due c s" using L by (simp add: clock_ms_def)
    ultimately have "lag (timer_cal_tick c s) \<in> {2, 3}"
      using lag_made_up [of "cal_tmp1 ?s - clock_ms s"] True by auto
    then show ?thesis using True c u by simp
  qed (simp add: t)
qed

end
