(* ===== verification/Soft_Rtc.thy ===== *)
theory Soft_Rtc
  imports Drv_Model Rtc_Time Fake_Clock
begin

text \<open>
  The software clock \<open>func/rtc/soft_rtc.c\<close>, a simple device of the driver model, and its clients: setting the
  date and the time in \<open>func/rtc/rtc.c\<close> and reading the time in \<open>func/rtc/rtc_time.c\<close>. The world of the
  driver model holds the two static variables, the system tick and the variable of type \<open>time_t_at\<close>
  whose address the callers pass, as 64 bits.
\<close>

definition SOFT_RTC_DEVICE_NAME :: string where "SOFT_RTC_DEVICE_NAME = ''soft_rtc''"
definition RT_DEVICE_CTRL_RTC_GET_TIME :: u32 where "RT_DEVICE_CTRL_RTC_GET_TIME = 0x10"
definition RT_DEVICE_CTRL_RTC_SET_TIME :: u32 where "RT_DEVICE_CTRL_RTC_SET_TIME = 0x11"
definition RT_DEVICE_CTRL_RTC_GET_MS :: u32 where "RT_DEVICE_CTRL_RTC_GET_MS = 0x12"

definition TICK_PER_SECOND :: u64 where "TICK_PER_SECOND = 500"

record rtc_world =
  init_tick :: u64
  init_time :: u64
  time_var :: u64
  rtc_fclk :: fclk

type_synonym rtc_model = "(rtc_world, unit) drv_model"

definition soft_rtc_control :: "u32 \<Rightarrow> unit \<Rightarrow> rtc_world \<Rightarrow> u32 \<times> rtc_world" where
  "soft_rtc_control cmd args w =
     (0, if cmd = RT_DEVICE_CTRL_RTC_GET_TIME then
           w\<lparr>time_var := init_time w + (fclk_get_tick (rtc_fclk w) - init_tick w) div TICK_PER_SECOND\<rparr>
         else if cmd = RT_DEVICE_CTRL_RTC_GET_MS then
           w\<lparr>time_var := (fclk_get_tick (rtc_fclk w) - init_tick w) * of_nat FCLK_DURATION_MS\<rparr>
         else if cmd = RT_DEVICE_CTRL_RTC_SET_TIME then
           w\<lparr>init_time := time_var w - (fclk_get_tick (rtc_fclk w) - init_tick w) div TICK_PER_SECOND\<rparr>
         else w)"

definition soft_rtc_ops :: "(rtc_world, unit) SDD_OPERATIONS" where
  "soft_rtc_ops = \<lparr>sdd_control = Some soft_rtc_control\<rparr>"

text \<open>\<open>SOFT_RTC_TIME_DEFAULT\<close>: the start of 2021.\<close>

definition SOFT_RTC_TIME_DEFAULT :: tm_at where
  "SOFT_RTC_TIME_DEFAULT = \<lparr>tm_sec = 0, tm_min = 0, tm_hour = 0, tm_mday = 1, tm_mon = 1 - 1, tm_year = 2021 - 1900,
     tm_wday = 0, tm_yday = 0\<rparr>"

definition rt_soft_rtc_init :: "bool \<Rightarrow> rtc_model \<Rightarrow> rtc_model option" where
  "rt_soft_rtc_init realloc_ok dm = do {
     let w = world dm;
     (t, tm) \<leftarrow> mktime_at SOFT_RTC_TIME_DEFAULT;
     let w = w\<lparr>init_tick := fclk_get_tick (rtc_fclk w), init_time := of_int t\<rparr>;
     (r, dm) \<leftarrow> sddev_register_dev realloc_ok (dm\<lparr>world := w\<rparr>) (Some SOFT_RTC_DEVICE_NAME) (Some soft_rtc_ops);
     Some dm }"

section \<open>Reading the time\<close>

text \<open>A call with the address of a variable that holds \<open>v\<close>: the status and the variable after it.\<close>

definition rtc_call :: "u32 \<Rightarrow> u64 \<Rightarrow> rtc_model \<Rightarrow> (u32 \<times> u64 \<times> rtc_model) option" where
  "rtc_call cmd v dm = do {
     (status, dm) \<leftarrow> sddev_control (dm\<lparr>world := (world dm)\<lparr>time_var := v\<rparr>\<rparr>) (Some SOFT_RTC_DEVICE_NAME) cmd ();
     Some (status, time_var (world dm), dm) }"

definition time_at :: "rtc_model \<Rightarrow> (int \<times> rtc_model) option" where
  "time_at dm = do {
     (status, time_now, dm) \<leftarrow> rtc_call RT_DEVICE_CTRL_RTC_GET_TIME 0 dm;
     Some (sint time_now, dm) }"

text \<open>The result is converted to \<open>int\<close>.\<close>

definition gettimeofday_ms_at :: "rtc_model \<Rightarrow> (int \<times> rtc_model) option" where
  "gettimeofday_ms_at dm = do {
     (status, time, dm) \<leftarrow> rtc_call RT_DEVICE_CTRL_RTC_GET_MS 0 dm;
     Some (to_int (sint time), dm) }"

text \<open>
  \<open>time0\<close> is what the variable holds before it is initialised, \<open>tp\<close> the structure with \<open>tv_sec\<close> and
  \<open>tv_usec\<close>, if the pointer is not \<open>NULL\<close>.
\<close>

definition gettimeofday_at :: "u64 \<Rightarrow> (int \<times> int) option \<Rightarrow> rtc_model \<Rightarrow> (int \<times> (int \<times> int) option \<times> rtc_model) option" where
  "gettimeofday_at time0 tp dm = do {
     (status, time, dm) \<leftarrow> rtc_call RT_DEVICE_CTRL_RTC_GET_TIME time0 dm;
     if status = 0 \<and> tp \<noteq> None then Some (to_int (sint time), Some (to_int (sint time), 0), dm)
     else Some (0, tp, dm) }"

section \<open>Setting the date and the time\<close>

definition set_date :: "u32 \<Rightarrow> u32 \<Rightarrow> u32 \<Rightarrow> rtc_model \<Rightarrow> (u32 \<times> rtc_model) option" where
  "set_date year month day dm = do {
     (now, dm) \<leftarrow> time_at dm;
     let tm_new = localtime_at now;
     let tm_new = tm_new\<lparr>tm_year := sint (year - 1900), tm_mon := sint (month - 1), tm_mday := sint day\<rparr>;
     (now, tm_new) \<leftarrow> mktime_at tm_new;
     (ret, v, dm) \<leftarrow> rtc_call RT_DEVICE_CTRL_RTC_SET_TIME (of_int now) dm;
     Some (ret, dm) }"

definition set_time :: "u32 \<Rightarrow> u32 \<Rightarrow> u32 \<Rightarrow> rtc_model \<Rightarrow> (u32 \<times> rtc_model) option" where
  "set_time hour minute second dm = do {
     (now, dm) \<leftarrow> time_at dm;
     let tm_new = localtime_at now;
     let tm_new = tm_new\<lparr>tm_hour := sint hour, tm_min := sint minute, tm_sec := sint second\<rparr>;
     (now, tm_new) \<leftarrow> mktime_at tm_new;
     (ret, v, dm) \<leftarrow> rtc_call RT_DEVICE_CTRL_RTC_SET_TIME (of_int now) dm;
     Some (ret, dm) }"

end
