(* ===== verification/Soft_Rtc_Props.thy ===== *)
theory Soft_Rtc_Props
  imports Soft_Rtc Rtc_Time_Props
begin

text \<open>Setting and reading the software clock through the driver model.\<close>

section \<open>A device that keeps the time\<close>

text \<open>
  What the functions that set the date and the time rely on: the time can be read, and is the value
  last written.
\<close>

locale time_device =
  fixes ok :: "'m \<Rightarrow> bool"
    and now :: "'m \<Rightarrow> int"
    and read :: "'m \<Rightarrow> (int \<times> 'm) option"
    and write_time :: "int \<Rightarrow> 'm \<Rightarrow> (u32 \<times> 'm) option"
  assumes read_ok: "ok m \<Longrightarrow> \<exists>m'. read m = Some (now m, m') \<and> ok m' \<and> now m' = now m"
    and write_ok: "ok m \<Longrightarrow> 0 \<le> t \<Longrightarrow> t < 2 ^ 46 \<Longrightarrow> \<exists>m'. write_time t m = Some (0, m') \<and> ok m' \<and> now m' = t"
begin

text \<open>Read the time, change fields, write the time.\<close>

definition adjust :: "(tm_at \<Rightarrow> tm_at) \<Rightarrow> 'm \<Rightarrow> (u32 \<times> 'm) option" where
  "adjust f m = do {
     (t, m) \<leftarrow> read m;
     (t, tm) \<leftarrow> mktime_at (f (localtime_at t));
     write_time t m }"

lemma adjust_ok:
  assumes "ok m" "valid_tm (f (gmtime_r_at (now m)))" "civil_secs (f (gmtime_r_at (now m))) < 2 ^ 46"
  shows "\<exists>m'. adjust f m = Some (0, m') \<and> ok m' \<and> now m' = civil_secs (f (gmtime_r_at (now m)))
    \<and> gmtime_r_at (now m') = dated (f (gmtime_r_at (now m)))"
proof -
  let ?tm = "f (gmtime_r_at (now m))"
  obtain m1 where m1: "read m = Some (now m, m1)" "ok m1" using read_ok [OF assms(1)] by blast
  obtain m2 where m2: "write_time (civil_secs ?tm) m1 = Some (0, m2)" "ok m2" "now m2 = civil_secs ?tm"
    using write_ok [OF m1(2) civil_secs_nonneg [OF assms(2)] assms(3)] by blast
  have "adjust f m = Some (0, m2)"
    using m1(1) m2(1) mktime_at_valid [OF assms(2)] by (simp add: adjust_def localtime_at_def localtime_r_at_def)
  then show ?thesis using m2 gmtime_of_civil [OF assms(2,3)] by simp
qed

end

section \<open>The software clock as such a device\<close>

text \<open>The device is the one that a search of the table by its name finds.\<close>

definition rtc_dev :: "rtc_model \<Rightarrow> bool" where
  "rtc_dev dm \<longleftrightarrow> (\<exists>i. tbl_find (name_matches SOFT_RTC_DEVICE_NAME) (drv_sdev_tbl dm) (unat (allocated_size_sdev dm)) 0 = Some (Some i)
     \<and> drv_op (drv_sdev_tbl dm ! i) = Some soft_rtc_ops)"

definition rtc_now :: "rtc_world \<Rightarrow> u64" where
  "rtc_now w = init_time w + (fclk_get_tick (rtc_fclk w) - init_tick w) div TICK_PER_SECOND"

lemma rtc_dev_world [simp]: "rtc_dev (dm\<lparr>world := w\<rparr>) = rtc_dev dm"
  by (simp add: rtc_dev_def)

lemma rtc_call_ok:
  assumes "rtc_dev dm"
  shows "rtc_call cmd v dm = (let w = snd (soft_rtc_control cmd () ((world dm)\<lparr>time_var := v\<rparr>)) in Some (0, time_var w, dm\<lparr>world := w\<rparr>))"
  using assms by (auto simp: rtc_dev_def rtc_call_def sddev_control_def soft_rtc_ops_def soft_rtc_control_def Let_def)

lemmas rtc_cmds = RT_DEVICE_CTRL_RTC_GET_TIME_def RT_DEVICE_CTRL_RTC_SET_TIME_def RT_DEVICE_CTRL_RTC_GET_MS_def

definition rtc_put :: "int \<Rightarrow> rtc_model \<Rightarrow> (u32 \<times> rtc_model) option" where
  "rtc_put t dm = do { (ret, v, dm) \<leftarrow> rtc_call RT_DEVICE_CTRL_RTC_SET_TIME (of_int t) dm; Some (ret, dm) }"

lemma time_at_ok:
  assumes "rtc_dev dm"
  shows "time_at dm = Some (sint (rtc_now (world dm)), dm\<lparr>world := (world dm)\<lparr>time_var := rtc_now (world dm)\<rparr>\<rparr>)"
  using rtc_call_ok [OF assms, of RT_DEVICE_CTRL_RTC_GET_TIME 0] by (simp add: time_at_def soft_rtc_control_def rtc_now_def)

lemma rtc_put_ok:
  assumes "rtc_dev dm"
  shows "\<exists>w. rtc_put t dm = Some (0, dm\<lparr>world := w\<rparr>) \<and> rtc_now w = of_int t \<and> rtc_fclk w = rtc_fclk (world dm)"
  using rtc_call_ok [OF assms, of RT_DEVICE_CTRL_RTC_SET_TIME "of_int t"]
  by (intro exI [of _ "(world dm)\<lparr>time_var := of_int t,
      init_time := of_int t - (fclk_get_tick (rtc_fclk (world dm)) - init_tick (world dm)) div TICK_PER_SECOND\<rparr>"])
    (simp add: rtc_put_def soft_rtc_control_def rtc_cmds rtc_now_def Let_def)

interpretation td: time_device rtc_dev "\<lambda>dm. sint (rtc_now (world dm))" time_at rtc_put
proof (unfold_locales, goal_cases)
  case (1 dm)
  have "rtc_now (world dm\<lparr>time_var := v\<rparr>) = rtc_now (world dm)" for v by (simp add: rtc_now_def)
  then show ?case using time_at_ok [OF 1] 1 by simp
next
  case (2 dm t)
  have "sint (of_int t :: u64) = t"
    using 2(2,3) by (subst signed_of_int) (simp add: signed_take_bit_int_eq_self)
  then show ?case using rtc_put_ok [OF 2(1), of t] 2(1) by force
qed

lemma set_date_adjust:
  "set_date year month day dm = td.adjust (\<lambda>tm. tm\<lparr>tm_year := sint (year - 1900), tm_mon := sint (month - 1), tm_mday := sint day\<rparr>) dm"
  by (simp add: set_date_def td.adjust_def rtc_put_def Let_def)

lemma set_time_adjust:
  "set_time hour minute second dm = td.adjust (\<lambda>tm. tm\<lparr>tm_hour := sint hour, tm_min := sint minute, tm_sec := sint second\<rparr>) dm"
  by (simp add: set_time_def td.adjust_def rtc_put_def Let_def)

lemma sint_small: "- (2 ^ 31) \<le> x \<Longrightarrow> x < 2 ^ 31 \<Longrightarrow> sint (of_int x :: u32) = x"
  by (subst signed_of_int) (simp add: signed_take_bit_int_eq_self)

lemma sint_sub:
  assumes "uint (w :: u32) < 2 ^ 31" "0 \<le> k" "k < 2 ^ 31"
  shows "sint (w - of_int k) = uint w - k"
proof -
  have "w - of_int k = of_int (uint w - k)" by simp
  moreover have "0 \<le> uint w" by simp
  then have "- (2 ^ 31) \<le> uint w - k" "uint w - k < 2 ^ 31" using assms by linarith+
  ultimately show ?thesis using sint_small [of "uint w - k"] by simp
qed

text \<open>The fields that a date and a time of day stand for.\<close>

definition tm_of :: "int \<Rightarrow> int \<Rightarrow> int \<Rightarrow> int \<Rightarrow> int \<Rightarrow> int \<Rightarrow> tm_at" where
  "tm_of y m d h mi sec = \<lparr>tm_sec = sec, tm_min = mi, tm_hour = h, tm_mday = d, tm_mon = m - 1, tm_year = y - 1900, tm_wday = 0, tm_yday = 0\<rparr>"

lemma civil_secs_bound:
  assumes "valid_tm t" "tm_year t \<le> 9999 - 1900"
  shows "civil_secs t < 2 ^ 46"
proof -
  have "civil_days (tm_year t + 1900) (nat (tm_mon t)) (tm_mday t) < 366 * (tm_year t + 1900 - 1969)"
    by (rule civil_days_le) (use assms(1) in \<open>simp add: valid_tm_def\<close>)
  then show ?thesis using assms by (simp add: civil_secs_def valid_tm_def)
qed

lemma set_date_ok:
  assumes "rtc_dev dm" "0 \<le> sint (rtc_now (world dm))" "sint (rtc_now (world dm)) < 2 ^ 46"
    "valid_date (uint year) (uint month - 1) (uint day)" "uint year \<le> 9999"
  shows "\<exists>dm'. set_date year month day dm = Some (0, dm') \<and> rtc_dev dm' \<and> 0 \<le> sint (rtc_now (world dm')) \<and> sint (rtc_now (world dm')) < 2 ^ 46
    \<and> gmtime_r_at (sint (rtc_now (world dm'))) = dated ((gmtime_r_at (sint (rtc_now (world dm))))\<lparr>tm_year := uint year - 1900, tm_mon := uint month - 1, tm_mday := uint day\<rparr>)"
proof -
  let ?f = "\<lambda>tm. tm\<lparr>tm_year := uint year - 1900, tm_mon := uint month - 1, tm_mday := uint day\<rparr>"
  have md: "month_days (uint year) (nat (uint month - 1)) \<le> 31"
    using assms(4) by (intro month_days_31) (auto simp: valid_date_def)
  then have "uint day < 2 ^ 31" "uint month < 2 ^ 31" "uint year < 2 ^ 31" using assms(4,5) by (auto simp: valid_date_def)
  then have w: "sint (year - 1900) = uint year - 1900" "sint (month - 1) = uint month - 1" "sint day = uint day"
    using sint_sub [of year 1900] sint_sub [of month 1] sint_sub [of day 0] by simp_all
  have v: "valid_tm (?f (gmtime_r_at (sint (rtc_now (world dm)))))"
    using gmtime_ok(1) [OF assms(2,3)] assms(4) by (simp add: valid_tm_def)
  have b: "civil_secs (?f (gmtime_r_at (sint (rtc_now (world dm))))) < 2 ^ 46"
    by (rule civil_secs_bound [OF v]) (use assms(5) in simp)
  show ?thesis unfolding set_date_adjust w using td.adjust_ok [of dm ?f] assms(1) v b b civil_secs_nonneg [OF v] by auto
qed

lemma set_time_ok:
  assumes "rtc_dev dm" "0 \<le> sint (rtc_now (world dm))" "sint (rtc_now (world dm)) < 2 ^ 46"
    "tm_year (gmtime_r_at (sint (rtc_now (world dm)))) \<le> 9999 - 1900" "uint hour < 24" "uint minute < 60" "uint second < 60"
  shows "\<exists>dm'. set_time hour minute second dm = Some (0, dm') \<and> rtc_dev dm'
    \<and> gmtime_r_at (sint (rtc_now (world dm'))) = dated ((gmtime_r_at (sint (rtc_now (world dm))))\<lparr>tm_hour := uint hour, tm_min := uint minute, tm_sec := uint second\<rparr>)"
proof -
  let ?f = "\<lambda>tm. tm\<lparr>tm_hour := uint hour, tm_min := uint minute, tm_sec := uint second\<rparr>"
  have w: "sint hour = uint hour" "sint minute = uint minute" "sint second = uint second"
    using sint_sub [of hour 0] sint_sub [of minute 0] sint_sub [of second 0] assms(5-7) by simp_all
  have v: "valid_tm (?f (gmtime_r_at (sint (rtc_now (world dm)))))"
    using gmtime_ok(1) [OF assms(2,3)] assms(5-7) by (simp add: valid_tm_def)
  have b: "civil_secs (?f (gmtime_r_at (sint (rtc_now (world dm))))) < 2 ^ 46"
    by (rule civil_secs_bound [OF v]) (use assms(4) in simp)
  show ?thesis unfolding set_time_adjust w using td.adjust_ok [of dm ?f] assms(1) v b by auto
qed

lemma dated_fields: "dated (dated t\<lparr>tm_hour := h, tm_min := mi, tm_sec := sec\<rparr>) = dated (t\<lparr>tm_hour := h, tm_min := mi, tm_sec := sec\<rparr>)"
  by (simp add: dated_def)

text \<open>
  (C17) Setting the clock and reading it. With the soft RTC registered in the driver model and any current time
  from 1970 on, \<open>set_date\<close> with a valid date up to the year 9999 and then \<open>set_time\<close> with a valid time
  of day both return 0, and the time read then has exactly these fields, with the right day of the
  week and of the year.
\<close>

theorem set_date_set_time_read:
  assumes "rtc_dev dm" and "0 \<le> sint (rtc_now (world dm))" and "sint (rtc_now (world dm)) < 2 ^ 46"
    and "valid_date (uint year) (uint month - 1) (uint day)" and "uint year \<le> 9999"
    and "uint hour < 24" and "uint minute < 60" and "uint second < 60"
  shows "\<exists>dm1 dm2 dm3 t. set_date year month day dm = Some (0, dm1) \<and> set_time hour minute second dm1 = Some (0, dm2)
     \<and> time_at dm2 = Some (t, dm3) \<and> localtime_at t = dated (tm_of (uint year) (uint month) (uint day) (uint hour) (uint minute) (uint second))"
proof -
  obtain dm1 where dm1: "set_date year month day dm = Some (0, dm1)" "rtc_dev dm1" "0 \<le> sint (rtc_now (world dm1))" "sint (rtc_now (world dm1)) < 2 ^ 46"
      "gmtime_r_at (sint (rtc_now (world dm1))) = dated ((gmtime_r_at (sint (rtc_now (world dm))))\<lparr>tm_year := uint year - 1900, tm_mon := uint month - 1, tm_mday := uint day\<rparr>)"
    using set_date_ok [OF assms(1-5)] by blast
  have "tm_year (gmtime_r_at (sint (rtc_now (world dm1)))) \<le> 9999 - 1900" unfolding dm1(5) using assms(5) by (simp add: dated_def)
  then obtain dm2 where dm2: "set_time hour minute second dm1 = Some (0, dm2)" "rtc_dev dm2"
      "gmtime_r_at (sint (rtc_now (world dm2))) = dated ((gmtime_r_at (sint (rtc_now (world dm1))))\<lparr>tm_hour := uint hour, tm_min := uint minute, tm_sec := uint second\<rparr>)"
    using set_time_ok [OF dm1(2-4) _ assms(6-8)] by blast
  have "localtime_at (sint (rtc_now (world dm2))) = dated (tm_of (uint year) (uint month) (uint day) (uint hour) (uint minute) (uint second))"
    unfolding localtime_at_def localtime_r_at_def using dm2(3) dm1(5) by (simp add: dated_fields) (simp add: dated_def tm_of_def)
  then show ?thesis using dm1(1) dm2(1) time_at_ok [OF dm2(2)] by blast
qed

definition sim_rtc :: rtc_model where
  "sim_rtc = \<lparr>allocated_size_sdev = 1, allocated_size_dev = 0,
     drv_sdev_tbl = [zero_dev\<lparr>drv_name := Some ''soft_rtc'', drv_op := Some soft_rtc_ops, drv_state := DD_STATE_CLOSED\<rparr>],
     drv_dev_tbl = [], world = \<lparr>init_tick = 0, init_time = 1609459200, time_var = 0, rtc_fclk = fclk_boot\<rparr>\<rparr>"

theorem set_date_set_time_read_witness:
  "\<exists>dm1 dm2 dm3 t. set_date 2024 2 29 sim_rtc = Some (0, dm1) \<and> set_time 23 59 59 dm1 = Some (0, dm2)
     \<and> time_at dm2 = Some (t, dm3) \<and> tm_mday (localtime_at t) = 29 \<and> tm_mon (localtime_at t) = 1"
proof -
  have d: "rtc_dev sim_rtc"
    by (simp add: rtc_dev_def sim_rtc_def SOFT_RTC_DEVICE_NAME_def tbl_find.simps name_matches_def strncmp_eq_def)
  have n: "rtc_now (world sim_rtc) = 1609459200"
    by (simp add: rtc_now_def sim_rtc_def fclk_boot_def fclk_get_tick_def fclk_freertos_get_tick32_def TICK_PER_SECOND_def)
  have "valid_date (uint (2024 :: u32)) (uint (2 :: u32) - 1) (uint (29 :: u32))" by (simp add: valid_date_def month_days_def leap_def)
  then show ?thesis
    using set_date_set_time_read [OF d, of 2024 2 29 23 59 59] unfolding n by (fastforce simp: dated_def tm_of_def)
qed

text \<open>
  The tick that the clock is built on has 32 bits: when it wraps, after \<open>2\<^sup>3\<^sup>2\<close> ticks of 2 ms, the time
  jumps back by 8589934 seconds.
\<close>

theorem soft_rtc_time_jumps_back:
  assumes "init_tick w = 0" and "current_clock (rtc_fclk w) = 2 ^ 32 - 1"
  shows "rtc_now w = init_time w + 8589934
    \<and> rtc_now (w\<lparr>rtc_fclk := fclk_update_tick c 1 (rtc_fclk w)\<rparr>) = init_time w"
proof -
  have "current_clock (fclk_update_tick c 1 (rtc_fclk w)) = 2 ^ 32"
    using assms(2) by (simp add: fclk_update_tick_def fclk_freertos_update_tick_def mcu_ps_increase_clr_def Let_def split: prod.split)
  then show ?thesis
    using assms by (simp add: rtc_now_def fclk_get_tick_def fclk_freertos_get_tick32_def TICK_PER_SECOND_def)
qed

end
