(* ===== verification/Spec2Isabelle.thy ===== *)
theory Spec2Isabelle
  imports Prelude Ring_Buffer Drv_Model Drv_Startup
    Flash_Hw Flash_Driver Flash_Driver_Correct Flash_Driver_Props Flash_Partition Flash_Partition_Props
    Net_Param Net_Param_Table Net_Param_Props
    Kv_Store Kv_Block Kv_Table Kv_Ops Kv_Store_Props
    Multi_Button Multi_Button_Props Multi_Button_List
    Role_Launch Role_Launch_Slots Role_Launch_Props
    Gdma Gdma_Props Ring_Dma Ring_Dma_Props Audio_Dma Audio_Dac_Props Audio_Adc_Props
    Base64 Base64_Props Bk_Ef Bk_Ef_Props
    Rtc_Time Rtc_Time_Props Fake_Clock Fake_Clock_Props Soft_Rtc Soft_Rtc_Props
begin

text \<open>
  \<^bold>\<open>Verification of the core of the Beken FreeRTOS SDK.\<close>

  The SDK is the firmware library of the BK7231 family of WLAN chips. This development models the parts
  that are its own and that do not consist of register access alone, in \<open>src/beken378\<close>: the device driver
  model and its start-up table, the flash driver and the partitions over it, the network parameters
  stored in a partition, the key-value store in another, the system tick and the clocks over it, the push
  buttons, the joint start of station and access point, the DMA driver with the audio data path over it, and two
  utilities (ring buffer, Base64) with a client.

  \<^bold>\<open>How the parts interact.\<close> \<open>dd.c\<close> registers the drivers in the tables of \<open>drv_model.c\<close> at start-up;
  clients reach a driver by its name through \<open>ddev_open\<close>, \<open>ddev_control\<close> and \<open>sddev_control\<close>. The flash
  driver is such a device. \<open>BkDriverFlash.c\<close> opens it and gives partitions to its clients, of which
  \<open>net_param.c\<close> keeps a table of tagged items in one sector and \<open>flash_namespace_value.c\<close> keeps named
  values in several. The tick interrupt of \<open>fake_clock.c\<close> counts
  the time; \<open>soft_rtc.c\<close> is a simple device over it, which \<open>rtc.c\<close> and \<open>rtc_time.c\<close> use. \<open>multi_button.c\<close>
  is driven by a timer and called by \<open>key_main.c\<close>. \<open>bk_ef.c\<close> stores buffers as Base64 text. An
  application starts a WLAN role with \<open>bk_wlan_start\<close>, which leaves a request in the socket of
  \<open>role_launch.c\<close>; the enter timer starts it or lets it wait in a slot, and the launch timer polls until the
  role before it gives way. The WLAN stack reports its progress by calls that set the status polled.
  \<open>audio_dac.c\<close> and \<open>audio_adc.c\<close> set up a channel of \<open>general_dma.c\<close> and a ring of \<open>ring_buffer_dma_read.c\<close> or
  \<open>ring_buffer_dma_write.c\<close>, of which the driver moves one position and the DMA controller the other.

  \<^bold>\<open>Conventions\<close> (theory Prelude). Unsigned C types are words and wrap; a structure is a record, an
  enumeration a datatype; a pointer that may be \<open>NULL\<close> is an option. Undefined behaviour, an access
  outside a buffer and an \<open>ASSERT\<close> that fails are the result \<open>None\<close>, so that a theorem with a result
  \<open>Some\<close> also says that they do not occur. What the hardware, the allocator or the application
  decides is an argument. Critical sections and mutexes are not modelled: each function is one step.

  \<^bold>\<open>Theories.\<close>
  \<^item> Ring_Buffer: \<open>driver/audio/ring_buffer.c\<close>. \<open>RB_ST\<close> is the structure, with the memory as a byte list.
    A queue contract (a locale, a sublocale of the weaker contract of a pipe) is interpreted on it; the bytes read are a prefix of the bytes written for
    every interleaving, a write is all or nothing, a read takes the oldest bytes.
  \<^item> Drv_Model: \<open>driver/common/drv_model.c\<close>. Two tables that grow; a well-formedness invariant of every
    reachable state, counted open and close, dispatch by name, and handles. The contract of a registry is
    a locale, interpreted on both tables. Drv_Startup: \<open>driver/common/dd.c\<close>, whose start-up table runs
    every driver's initialisation for every chip.
  \<^item> Flash_Hw: the controller and the chip as far as the driver sees them: registers, the operation that a
    write to the operation register starts, NOR cells, status register, protection. The time that the chip takes
    for a command is an argument (\<open>env_answer\<close>, how often the busy bit is read set), and the busy loop of the driver
    a partial function, \<open>wait_busy\<close>. Flash_Driver: \<open>driver/flash/flash.c\<close>, all its functions. Flash_Driver_Correct:
    \<open>wait_ends\<close> and \<open>wait_write\<close> show that the loop ends, with the command done, for every answer time (a chip that never
    answers is not modelled); reading and programming. Flash_Driver_Props: a write programs exactly the range, a sector
    erase, the protection levels, and the inputs for which the checks of the driver are not enough. Of the bypass for
    the status register that some chips register at boot (\<open>func/misc/flash_bypass.c\<close>) \<open>bypass_ok\<close> says what is relied on.
  \<^item> Flash_Partition: \<open>func/user_driver/BkDriverFlash.c\<close> with its partition tables, over the flash driver.
    Flash_Partition_Props, for chips with a two-byte status register: writes restore a protection setting that has a
    name, records in a partition are updated, the tables fit the chip. The contract of a NOR store (a locale) is interpreted on the partitions.
  \<^item> Net_Param: \<open>func/net_param_intf/net_param.c\<close>. Net_Param_Table: the table as a list of tagged items.
    Net_Param_Props: saving an item refines the update of an association list, reading it looks it up. The
    search of an item is a partial function: it ends on every well-formed table, and a theorem gives a
    damaged table on which it does not.
  \<^item> Kv_Store: \<open>func/key_value_flash/flash_namespace_value.c\<close>, the namespaces, names and values of the Matter
    port. Kv_Block: the sectors of one namespace as a list of slots, in use or masked. Kv_Table: the
    sector of the namespaces. Kv_Ops: a rule for every operation, over the map from keys to values that
    the partition represents. Kv_Store_Props: writing over a value of at most 2048 bytes refines the
    update of that map, also when the sector has to be compacted or a namespace created; whole sequences of operations; removing a name
    and a namespace. The contract of a key-value store (a locale) is interpreted on it. Whether \<open>os_malloc\<close>
    succeeds is an argument for each place that calls it.
  \<^item> Multi_Button: \<open>func/key/multi_button.c\<close> and the keys of \<open>func/key/key_main.c\<close>. Multi_Button_Props: the
    reachable states, and the events of a press of every duration. Multi_Button_List: the linked list in the
    heap refines a list of addresses; the timer callback steps every handle once; removing a key
    terminates. The loops over the list are partial functions, which return for every list without a cycle.
  \<^item> Role_Launch: \<open>func/joint_up/role_launch.c\<close>, the one-shot timers of \<open>rtos_pub.c\<close> under it, and the calls of
    \<open>wlan_ui.c\<close> to and from it. The allocator, the timer task and the WLAN stack are arguments, a new one for
    each event. Role_Launch_Slots: status word and frame rules; the two slots of a role as a queue contract
    (a locale), interpreted for the station and for the access point. Role_Launch_Props: over all sequences
    of events in which the allocator and the timer commands succeed, no failure and no lost memory, requests start in
    order and at most once, and a station request that waits behind one that gives way, while no access point request
    waits and the launch is neither paused nor on hold, is started by the next expiry.
  \<^item> Gdma: \<open>driver/general_dma/general_dma.c\<close> with its registers. Gdma_Props: a channel as a record read from
    the registers; a configuration command sets its channel and no other, after the start every channel is off.
    Ring_Dma: \<open>ring_buffer_dma_write.c\<close> and \<open>ring_buffer_dma_read.c\<close>, reduced to \<open>ring_buffer.c\<close>. Ring_Dma_Props: what
    a move of the controller does to a ring. Audio_Dma: the data path of \<open>audio_dac.c\<close> and \<open>audio_adc.c\<close>.
    Audio_Dac_Props, Audio_Adc_Props: a pipe with a control (a locale) interpreted on playing and on recording:
    from the start until a pause no sample is lost, repeated or overwritten, whatever the driver and the controller do
    in between. The controller is an argument: what it does when a channel is enabled, and how many bytes it moves at
    a time. The hypotheses are \<open>starts_over\<close>, it begins at the start addresses when a channel is enabled (as a comment
    in \<open>ring_buffer_dma_read.c\<close> says), and \<open>pauses_src\<close>, \<open>pauses_dst\<close>, it never moves past the pause address. With such a
    controller playing after a pause begins again at the start of the buffer (\<open>pause_and_play_replays\<close>), so the
    theorems end at a pause.
  \<^item> Base64: \<open>func/base64/base_64.c\<close>. Base64_Props: equality with an encoding on bits, the round trip, the
    sizes. Bk_Ef, Bk_Ef_Props: \<open>func/easy_flash/bk_ef.c\<close>; the environment is the vendored EasyFlash library,
    whose functions are arguments.
  \<^item> Rtc_Time: \<open>func/rtc/rtc_time.c\<close>. Rtc_Time_Props: the calendar against one that counts days, both ways.
  \<^item> Fake_Clock: \<open>func/misc/fake_clock.c\<close> in the FreeRTOS build, with the tick correction of
    \<open>func/power_save/mcu_ps.c\<close>. Fake_Clock_Props: the invariant of the counters over an inductive step
    relation of all operations but \<open>fclk_reset_count\<close>, which breaks it; the correction of a fast clock; the bound on the
    lag.
  \<^item> Soft_Rtc: \<open>func/rtc/soft_rtc.c\<close>, \<open>set_date\<close> and \<open>set_time\<close> of \<open>func/rtc/rtc.c\<close>, as a device of the driver
    model. Soft_Rtc_Props: a locale for a device that keeps the time, interpreted on it; what is set is read.

  \<^bold>\<open>Bounds.\<close> Lengths in theorems are bounded where the code's arithmetic wraps: Base64 text in the environment by \<open>2\<^sup>3\<^sup>0\<close>
  bytes (the lengths of the coder itself, of type \<open>int\<close>, and the fields of \<open>rtc_time.c\<close> are numbers without bound), times by \<open>2\<^sup>4\<^sup>6\<close> seconds (years that fit an \<open>int\<close>), dates by the year 9999, tables of drivers by
  their 16-bit identifiers. No function has fuel.

  \<^bold>\<open>Defects.\<close> Where the code does not do what it means to, a theorem states what it does: the wrong bound in
  \<open>sddev_unregister_dev\<close>, writes past the end of the chip, an overlap of partitions, the endless search
  of a damaged item, the 4-bit counter of quick presses, the carry of days in \<open>mktime_at\<close>, playing from
  the start of the buffer after a pause, the jump of
  the clock when the 32-bit tick wraps, the overflow in \<open>bk_get_buf_env\<close>, the value that is too long for
  the stack buffer of \<open>bk_set_name_data\<close>, the protection that \<open>bk_clean_data\<close> drops, the station request
  that is lost when a deletion waits before it, the requests left in the socket when memory runs out.
  Defects that no theorem needs are in the manifest.

  \<^bold>\<open>Not modelled.\<close> The vendored software (FreeRTOS and LiteOS kernels, lwIP, mbedTLS, wolfSSL,
  wpa_supplicant, FatFs, EasyFlash, the MQTT client) is specified elsewhere. The WLAN MAC and PHY and the
  BLE stack are binaries or register programming, as are most drivers (UART, SPI, I2C, PWM, USB, the analog part of
  the audio driver, the DMA controller of the BK7252N):
  what they do is decided by hardware that the sources do not describe. Command line, AT commands,
  demos and tests only call the parts above. Of the project's own logic the power saving state, the MAC address
  configuration (\<open>app/config/param_config.c\<close>), the key matrix of \<open>key_main.c\<close> and the alarms of \<open>func/rtc/alarm.c\<close> (for
  RT-Thread, in no build) are left out, as is the fast connection of \<open>role_launch.c\<close>, which is switched off
  and does not compile. A loss of power in the middle of an operation on the flash is
  not modelled: the theorems are about operations that run to their end.
\<close>

end
